(* ===== verification/Go_Base.thy ===== *)
theory Go_Base
  imports Main "HOL-Library.Char_ord" "HOL-Library.List_Lexorder" "HOL-Library.AList"
begin

text \<open>
  The shared layer of the development: the part of the Go language and of its standard
  library that the program's own code uses. It fixes how Go values are represented and
  proves the generic facts the component theories rely on.

  \<^item> Signed 64-bit integers (\<open>int\<close>, \<open>int64\<close>, \<open>time.Duration\<close>) are \<open>int\<close>, with the
    wrap-around of a product written out by \<open>wrap64\<close> where the code multiplies.
  \<^item> A \<open>time.Time\<close> is its instant: an \<open>int\<close> counting nanoseconds from the Unix epoch. The zero
    value of \<open>time.Time\<close> is midnight of January 1 of year 1, \<open>zero_time\<close>. Differences
    saturate at the bounds of a \<open>Duration\<close>, as \<open>Time.Sub\<close> does.
  \<^item> A string is a list of bytes (\<open>char\<close>). \<open>trim_space\<close> strips every sequence that Go's
    \<open>unicode.IsSpace\<close> accepts, the non-ASCII ones by their UTF-8 bytes. \<open>to_lower\<close> and
    \<open>to_upper\<close> are exact on ASCII and on the non-ASCII runes whose image is an ASCII
    letter; they leave other non-ASCII bytes alone, which no comparison of the program can
    tell, since all strings it compares against are ASCII.
\<close>

section \<open>Collections of facts\<close>

named_theorems go_time \<open>unfolding rules of the time and duration operations\<close>

named_theorems tbl_simps \<open>lookups after an update of a keyed table\<close>

section \<open>64-bit integers\<close>

definition wrap64 :: "int \<Rightarrow> int" where
  "wrap64 x = (x + 2 ^ 63) mod 2 ^ 64 - 2 ^ 63"

definition sat64 :: "int \<Rightarrow> int" where
  "sat64 x = max (- (2 ^ 63)) (min (2 ^ 63 - 1) x)"

definition is_int64 :: "int \<Rightarrow> bool" where
  "is_int64 x \<longleftrightarrow> - (2 ^ 63) \<le> x \<and> x < 2 ^ 63"

lemma wrap64_id [simp]: "is_int64 x \<Longrightarrow> wrap64 x = x"
  by (simp add: wrap64_def is_int64_def)

lemma wrap64_range: "is_int64 (wrap64 x)"
  by (simp add: wrap64_def is_int64_def)

lemma sat64_id [simp]: "is_int64 x \<Longrightarrow> sat64 x = x"
  by (auto simp: sat64_def is_int64_def)

lemma sat64_mono: "x \<le> y \<Longrightarrow> sat64 x \<le> sat64 y"
  by (auto simp: sat64_def)

lemma sat64_le_iff: "is_int64 d \<Longrightarrow> d < 2 ^ 63 - 1 \<Longrightarrow> sat64 x \<le> d \<longleftrightarrow> x \<le> d"
  by (auto simp: sat64_def is_int64_def)

text \<open>Go's integer division truncates towards zero, and the remainder takes the sign of
  the dividend.\<close>

definition go_div :: "int \<Rightarrow> int \<Rightarrow> int" where
  "go_div a b = sgn a * sgn b * (\<bar>a\<bar> div \<bar>b\<bar>)"

definition go_rem :: "int \<Rightarrow> int \<Rightarrow> int" where
  "go_rem a b = a - go_div a b * b"

lemma go_div_nonneg [simp]: "0 \<le> a \<Longrightarrow> 0 < b \<Longrightarrow> go_div a b = a div b"
  by (cases "a = 0") (simp_all add: go_div_def)

lemma go_rem_nonneg [simp]: "0 \<le> a \<Longrightarrow> 0 < b \<Longrightarrow> go_rem a b = a mod b"
  by (simp add: go_rem_def minus_div_mult_eq_mod)

lemma zdiv_bounds:
  fixes a b :: int
  assumes "0 < b"
  shows "a div b * b \<le> a" "a < (a div b + 1) * b"
  using pos_mod_bound [OF assms, of a] pos_mod_sign [OF assms, of a] div_mult_mod_eq [of a b]
  unfolding distrib_right by linarith+

lemma zdiv_less_iff: "a div b < c \<longleftrightarrow> a < c * b" if b: "0 < b" for a b c :: int
proof
  assume "a div b < c"
  with b have "(a div b + 1) * b \<le> c * b" by (intro mult_right_mono) auto
  with zdiv_bounds(2) [OF b, of a] show "a < c * b" by simp
next
  assume "a < c * b"
  with b zdiv_bounds(1) [OF b, of a] show "a div b < c"
    by (metis mult_less_cancel_right_pos order.strict_trans1)
qed

section \<open>Instants and durations\<close>

type_synonym time = int
type_synonym duration = int

abbreviation (input) nsec :: int where "nsec \<equiv> 1000000000"

definition second :: duration where [go_time]: "second = 1000000000"
definition minute :: duration where [go_time]: "minute = 60000000000"
definition hour :: duration where [go_time]: "hour = 3600000000000"

definition zero_time :: time where
  "zero_time = - 62135596800 * 1000000000"

definition is_zero :: "time \<Rightarrow> bool" where
  "is_zero t \<longleftrightarrow> t = zero_time"

definition t_add :: "time \<Rightarrow> duration \<Rightarrow> time" where [go_time]: "t_add t d = t + d"

definition t_sub :: "time \<Rightarrow> time \<Rightarrow> duration" where "t_sub t u = sat64 (t - u)"

definition t_after :: "time \<Rightarrow> time \<Rightarrow> bool" where [go_time]: "t_after t u \<longleftrightarrow> u < t"

definition t_before :: "time \<Rightarrow> time \<Rightarrow> bool" where [go_time]: "t_before t u \<longleftrightarrow> t < u"

definition unix :: "time \<Rightarrow> int" where "unix t = t div 1000000000"

definition from_unix :: "int \<Rightarrow> time" where "from_unix s = s * 1000000000"

lemma unix_from_unix [simp]: "unix (from_unix s) = s"
  by (simp add: unix_def from_unix_def)

lemma from_unix_le: "from_unix (unix t) \<le> t"
  unfolding from_unix_def unix_def by (metis mult.commute mult_div_mod_eq add_increasing2
      pos_mod_sign order_refl zero_less_numeral)

lemma from_unix_after_iff: "t_after (from_unix s) t \<longleftrightarrow> unix t < s"
  unfolding t_after_def from_unix_def unix_def
  by (simp add: zdiv_less_iff)

lemma unix_less_second: "t_add now second \<le> later \<Longrightarrow> unix now < unix later"
  using zdiv_mono1 [of "now + 1000000000" later 1000000000]
  by (simp add: unix_def t_add_def second_def)

lemma t_sub_mono: "u \<le> t \<Longrightarrow> t_sub u v \<le> t_sub t v"
  by (simp add: t_sub_def sat64_mono)

section \<open>Strings\<close>

type_synonym gostring = string

abbreviation (input) byte :: "nat \<Rightarrow> char" where "byte n \<equiv> char_of n"

definition go_spaces :: "gostring list" where
  "go_spaces =
    [[CHR 0x09], [CHR 0x0A], [CHR 0x0B], [CHR 0x0C], [CHR 0x0D], [CHR 0x20],
     [CHR 0xC2, CHR 0x85], [CHR 0xC2, CHR 0xA0], [CHR 0xE1, CHR 0x9A, CHR 0x80],
     [CHR 0xE2, CHR 0x80, CHR 0x80], [CHR 0xE2, CHR 0x80, CHR 0x81], [CHR 0xE2, CHR 0x80, CHR 0x82],
     [CHR 0xE2, CHR 0x80, CHR 0x83], [CHR 0xE2, CHR 0x80, CHR 0x84], [CHR 0xE2, CHR 0x80, CHR 0x85],
     [CHR 0xE2, CHR 0x80, CHR 0x86], [CHR 0xE2, CHR 0x80, CHR 0x87], [CHR 0xE2, CHR 0x80, CHR 0x88],
     [CHR 0xE2, CHR 0x80, CHR 0x89], [CHR 0xE2, CHR 0x80, CHR 0x8A], [CHR 0xE2, CHR 0x80, CHR 0xA8],
     [CHR 0xE2, CHR 0x80, CHR 0xA9], [CHR 0xE2, CHR 0x80, CHR 0xAF], [CHR 0xE2, CHR 0x81, CHR 0x9F],
     [CHR 0xE3, CHR 0x80, CHR 0x80]]"

definition has_prefix :: "gostring \<Rightarrow> gostring \<Rightarrow> bool" where
  "has_prefix s p \<longleftrightarrow> take (length p) s = p"

function trim_left_of :: "gostring list \<Rightarrow> gostring \<Rightarrow> gostring" where
  "trim_left_of ps s =
     (case find (\<lambda>p. p \<noteq> [] \<and> has_prefix s p) ps of
        None \<Rightarrow> s
      | Some p \<Rightarrow> trim_left_of ps (drop (length p) s))"
  by pat_completeness auto
termination
proof (relation "measure (\<lambda>(ps, s). length s)")
  fix ps s p
  assume "find (\<lambda>p. p \<noteq> [] \<and> has_prefix s p) ps = Some p"
  then have "p \<noteq> []" and "take (length p) s = p"
    by (auto simp: find_Some_iff has_prefix_def)
  then have "0 < length p" and "s \<noteq> []" by auto
  then show "((ps, drop (length p) s), (ps, s)) \<in> measure (\<lambda>(ps, s). length s)" by simp
qed simp

declare trim_left_of.simps [simp del]

definition trim_left :: "gostring \<Rightarrow> gostring" where
  "trim_left s = trim_left_of go_spaces s"

definition trim_right :: "gostring \<Rightarrow> gostring" where
  "trim_right s = rev (trim_left_of (map rev go_spaces) (rev s))"

text \<open>\<open>strings.TrimSpace\<close>\<close>

definition trim_space :: "gostring \<Rightarrow> gostring" where
  "trim_space s = trim_right (trim_left s)"

lemma trim_left_of_fixed:
  "find (\<lambda>p. p \<noteq> [] \<and> has_prefix (trim_left_of ps s) p) ps = None"
proof (induction ps s rule: trim_left_of.induct)
  case (1 ps s)
  show ?case
  proof (cases "find (\<lambda>p. p \<noteq> [] \<and> has_prefix s p) ps")
    case None
    then show ?thesis by (simp add: trim_left_of.simps [of ps s])
  next
    case (Some p)
    with "1.IH" [OF Some] show ?thesis by (simp add: trim_left_of.simps [of ps s])
  qed
qed

lemma trim_left_of_id: "find (\<lambda>p. p \<noteq> [] \<and> has_prefix s p) ps = None \<Longrightarrow> trim_left_of ps s = s"
  by (subst trim_left_of.simps) simp

lemma trim_left_of_suffix: "\<exists>u. s = u @ trim_left_of ps s"
proof (induction ps s rule: trim_left_of.induct)
  case (1 ps s)
  show ?case
  proof (cases "find (\<lambda>p. p \<noteq> [] \<and> has_prefix s p) ps")
    case None
    then show ?thesis by (simp add: trim_left_of_id)
  next
    case (Some p)
    with "1.IH" [OF Some] obtain u where "drop (length p) s = u @ trim_left_of ps s"
      by (auto simp: trim_left_of.simps [of ps s])
    then have "s = (take (length p) s @ u) @ trim_left_of ps s" by (metis append.assoc append_take_drop_id)
    then show ?thesis ..
  qed
qed

lemma trim_right_prefix: "\<exists>u. s = trim_right s @ u"
proof -
  obtain u where "rev s = u @ trim_left_of (map rev go_spaces) (rev s)" using trim_left_of_suffix by blast
  then have "s = trim_right s @ rev u" unfolding trim_right_def by (metis rev_append rev_rev_ident)
  then show ?thesis ..
qed

lemma trim_space_idem [simp]: "trim_space (trim_space s) = trim_space s"
proof -
  define t where "t = trim_left s"
  have nospace: "find (\<lambda>p. p \<noteq> [] \<and> has_prefix t p) go_spaces = None"
    by (simp add: t_def trim_left_def trim_left_of_fixed)
  obtain u where u: "t = trim_right t @ u" using trim_right_prefix by blast
  have "has_prefix t p" if "has_prefix (trim_right t) p" for p
  proof -
    have "length p \<le> length (trim_right t)" using that unfolding has_prefix_def by (metis length_take min.cobounded1)
    then show ?thesis using that by (subst u) (simp add: has_prefix_def)
  qed
  then have "find (\<lambda>p. p \<noteq> [] \<and> has_prefix (trim_right t) p) go_spaces = None"
    using nospace by (auto simp: find_None_iff)
  then have "trim_left (trim_right t) = trim_right t" by (simp add: trim_left_def trim_left_of_id)
  moreover have "trim_right (trim_right t) = trim_right t"
    by (simp add: trim_right_def trim_left_of_id trim_left_of_fixed)
  ultimately show ?thesis by (simp add: trim_space_def t_def)
qed

text \<open>\<open>strings.Contains\<close>\<close>

fun contains_str :: "gostring \<Rightarrow> gostring \<Rightarrow> bool" where
  "contains_str [] p = (p = [])"
| "contains_str (c # s) p = (has_prefix (c # s) p \<or> contains_str s p)"

lemma contains_str_iff: "contains_str s p \<longleftrightarrow> (\<exists>u v. s = u @ p @ v)"
proof (induction s)
  case (Cons c s)
  have "has_prefix (c # s) p \<longleftrightarrow> (\<exists>v. c # s = p @ v)"
    unfolding has_prefix_def by (metis append_eq_conv_conj append_take_drop_id)
  then show ?case
    by (simp add: Cons.IH) (metis append_Cons append_Nil neq_Nil_conv list.inject)
qed simp

definition lower_char :: "char \<Rightarrow> char" where
  "lower_char c = (let n = of_char c :: nat in if 65 \<le> n \<and> n \<le> 90 then char_of (n + 32) else c)"

definition upper_char :: "char \<Rightarrow> char" where
  "upper_char c = (let n = of_char c :: nat in if 97 \<le> n \<and> n \<le> 122 then char_of (n - 32) else c)"

text \<open>\<open>strings.ToLower\<close>: the two non-ASCII runes with an ASCII lower case are the Kelvin sign
  (bytes E2 84 AA) and the capital I with a dot (bytes C4 B0).\<close>

fun to_lower :: "gostring \<Rightarrow> gostring" where
  "to_lower [] = []"
| "to_lower (a # s) =
     (if a = CHR 0xE2 \<and> take 2 s = [CHR 0x84, CHR 0xAA] then CHR ''k'' # to_lower (drop 2 s)
      else if a = CHR 0xC4 \<and> take 1 s = [CHR 0xB0] then CHR ''i'' # to_lower (drop 1 s)
      else lower_char a # to_lower s)"

text \<open>\<open>strings.ToUpper\<close>: the two non-ASCII runes with an ASCII upper case are the dotless i
  (bytes C4 B1) and the long s (bytes C5 BF).\<close>

fun to_upper :: "gostring \<Rightarrow> gostring" where
  "to_upper [] = []"
| "to_upper (a # s) =
     (if a = CHR 0xC4 \<and> take 1 s = [CHR 0xB1] then CHR ''I'' # to_upper (drop 1 s)
      else if a = CHR 0xC5 \<and> take 1 s = [CHR 0xBF] then CHR ''S'' # to_upper (drop 1 s)
      else upper_char a # to_upper s)"

subsection \<open>Decimal numbers\<close>

definition digit_char :: "nat \<Rightarrow> char" where "digit_char d = char_of (48 + d)"

definition is_digit :: "char \<Rightarrow> bool" where
  "is_digit c \<longleftrightarrow> (48 :: nat) \<le> of_char c \<and> (of_char c :: nat) \<le> 57"

definition digit_val :: "char \<Rightarrow> nat" where "digit_val c = of_char c - 48"

fun show_nat :: "nat \<Rightarrow> gostring" where
  "show_nat n = (if n < 10 then [digit_char n] else show_nat (n div 10) @ [digit_char (n mod 10)])"

declare show_nat.simps [simp del]

text \<open>\<open>strconv.FormatInt(x, 10)\<close> and the verb \<open>%d\<close>\<close>

definition show_int :: "int \<Rightarrow> gostring" where
  "show_int x = (if x < 0 then CHR ''-'' # show_nat (nat (- x)) else show_nat (nat x))"

lemma digit_val_char [simp]: "d < 10 \<Longrightarrow> digit_val (digit_char d) = d"
  by (simp add: digit_val_def digit_char_def)

lemma is_digit_char [simp]: "d < 10 \<Longrightarrow> is_digit (digit_char d)"
  by (simp add: is_digit_def digit_char_def)

text \<open>Reading a decimal string back: the left inverse of \<open>show_nat\<close>.\<close>

definition read_nat :: "gostring \<Rightarrow> nat" where
  "read_nat s = foldl (\<lambda>a c. 10 * a + digit_val c) 0 s"

lemma read_show_nat [simp]: "read_nat (show_nat n) = n"
proof (induction n rule: show_nat.induct)
  case (1 n)
  show ?case
  proof (cases "n < 10")
    case True
    then show ?thesis by (simp add: show_nat.simps [of n] read_nat_def)
  next
    case False
    with "1.IH" have "read_nat (show_nat (n div 10)) = n div 10" by simp
    with False show ?thesis by (simp add: show_nat.simps [of n] read_nat_def)
  qed
qed

lemma show_nat_inject [simp]: "show_nat m = show_nat n \<longleftrightarrow> m = n"
  by (metis read_show_nat)

lemma show_nat_digits: "c \<in> set (show_nat n) \<Longrightarrow> is_digit c"
proof (induction n rule: show_nat.induct)
  case (1 n)
  then show ?case by (cases "n < 10") (auto simp: show_nat.simps [of n])
qed

lemma show_nat_not_Nil [simp]: "show_nat n \<noteq> []"
  by (subst show_nat.simps) simp

lemma minus_not_digit [simp]: "\<not> is_digit CHR ''-''" and colon_not_digit [simp]: "\<not> is_digit CHR '':''"
  by (simp_all add: is_digit_def)

lemma show_int_inject [simp]: "show_int a = show_int b \<longleftrightarrow> a = b"
proof -
  have "show_nat m \<noteq> CHR ''-'' # s" for m s
    using show_nat_digits [of "CHR ''-''" m] by fastforce
  then show ?thesis
    by (auto simp: show_int_def) (metis not_Cons_self2)+
qed

lemma show_int_no_colon [simp]: "CHR '':'' \<notin> set (show_int a)"
  using show_nat_digits [of "CHR '':''"] by (auto simp: show_int_def)

section \<open>Lists and keyed tables\<close>

text \<open>Splitting two concatenations at the first separator, which neither left part holds.\<close>

lemma split_at_sep:
  "a @ x # u = b @ x # v \<Longrightarrow> x \<notin> set a \<Longrightarrow> x \<notin> set b \<Longrightarrow> a = b \<and> u = v"
proof (induction a arbitrary: b)
  case Nil
  then show ?case by (cases b) auto
next
  case (Cons y a)
  then show ?case by (cases b) auto
qed

text \<open>A check that fails on some element accepts a list when every element passes.\<close>

lemma list_ex_negated: "list_ex P xs \<longleftrightarrow> \<not> list_all (\<lambda>x. \<not> P x) xs"
  by (simp add: list_ex_iff list_all_iff)

text \<open>A map ranged over by Go is a table: an association list without repeated keys. Every
  theorem about a loop over such a map holds for any order of its entries.\<close>

type_synonym ('k, 'v) table = "('k \<times> 'v) list"

definition tbl_get :: "('k, 'v) table \<Rightarrow> 'k \<Rightarrow> 'v option" where "tbl_get t k = map_of t k"

definition tbl_put :: "'k \<Rightarrow> 'v \<Rightarrow> ('k, 'v) table \<Rightarrow> ('k, 'v) table" where
  "tbl_put k v t = AList.update k v t"

definition tbl_del :: "'k \<Rightarrow> ('k, 'v) table \<Rightarrow> ('k, 'v) table" where
  "tbl_del k t = AList.delete k t"

definition tbl_keys :: "('k, 'v) table \<Rightarrow> 'k list" where "tbl_keys t = map fst t"

definition tbl_ok :: "('k, 'v) table \<Rightarrow> bool" where "tbl_ok t \<longleftrightarrow> distinct (map fst t)"

lemma tbl_get_Nil [simp]: "tbl_get [] k = None"
  by (simp add: tbl_get_def)

lemma tbl_get_put [tbl_simps]: "tbl_get (tbl_put k v t) j = (if j = k then Some v else tbl_get t j)"
  by (simp add: tbl_get_def tbl_put_def update_conv)

lemma keys_tbl_put [simp]: "fst ` set (tbl_put k v t) = insert k (fst ` set t)"
  by (auto simp: tbl_put_def dom_map_of_conv_image_fst [symmetric] update_conv)

lemma tbl_get_del [tbl_simps]: "tbl_get (tbl_del k t) j = (if j = k then None else tbl_get t j)"
  by (simp add: tbl_get_def tbl_del_def delete_conv')

lemma tbl_ok_put [simp]: "tbl_ok t \<Longrightarrow> tbl_ok (tbl_put k v t)"
  by (simp add: tbl_ok_def tbl_put_def distinct_update)

lemma tbl_ok_del [simp]: "tbl_ok t \<Longrightarrow> tbl_ok (tbl_del k t)"
  by (simp add: tbl_ok_def tbl_del_def distinct_delete)

lemma tbl_ok_Nil [simp]: "tbl_ok []"
  by (simp add: tbl_ok_def)

lemma tbl_get_in: "tbl_ok t \<Longrightarrow> (k, v) \<in> set t \<longleftrightarrow> tbl_get t k = Some v"
  by (simp add: tbl_ok_def tbl_get_def map_of_eq_Some_iff)

text \<open>A loop that visits every entry once and keeps, changes or drops it.\<close>

fun tbl_mapf :: "('k \<Rightarrow> 'v \<Rightarrow> 'v option) \<Rightarrow> ('k, 'v) table \<Rightarrow> ('k, 'v) table" where
  "tbl_mapf f [] = []"
| "tbl_mapf f ((k, v) # t) =
     (case f k v of None \<Rightarrow> tbl_mapf f t | Some w \<Rightarrow> (k, w) # tbl_mapf f t)"

lemma tbl_mapf_keys: "fst ` set (tbl_mapf f t) \<subseteq> fst ` set t"
  by (induction f t rule: tbl_mapf.induct) (auto split: option.splits)

lemma tbl_ok_mapf [simp]: "tbl_ok t \<Longrightarrow> tbl_ok (tbl_mapf f t)"
proof (induction f t rule: tbl_mapf.induct)
  case (2 f k v t)
  then show ?case using tbl_mapf_keys [of f t]
    by (auto simp: tbl_ok_def split: option.splits)
qed simp

lemma tbl_get_mapf [tbl_simps]:
  "tbl_ok t \<Longrightarrow> tbl_get (tbl_mapf f t) k = Option.bind (tbl_get t k) (f k)"
proof (induction f t rule: tbl_mapf.induct)
  case (2 f j v t)
  have "map_of t j = None" using "2.prems" by (simp add: tbl_ok_def map_of_eq_None_iff)
  moreover have "tbl_ok t" using "2.prems" by (simp add: tbl_ok_def)
  ultimately show ?case using "2.IH"
    by (cases "k = j") (auto simp: tbl_get_def split: option.splits)
qed simp

text \<open>Reading a Go map at an absent key yields the zero value of the element type.\<close>

definition or_zero :: "'v \<Rightarrow> 'v option \<Rightarrow> 'v" where
  "or_zero z x = (case x of None \<Rightarrow> z | Some v \<Rightarrow> v)"

lemma or_zero_simps [simp]: "or_zero z None = z" "or_zero z (Some v) = v"
  by (simp_all add: or_zero_def)

text \<open>Dereferencing a pointer that stands for an optional override.\<close>

definition opt_override :: "'v \<Rightarrow> 'v option \<Rightarrow> 'v" where
  "opt_override d x = (case x of None \<Rightarrow> d | Some v \<Rightarrow> v)"

lemma opt_override_simps [simp]: "opt_override d None = d" "opt_override d (Some v) = v"
  by (simp_all add: opt_override_def)

lemma tbl_mapf_total: "map fst (tbl_mapf (\<lambda>k v. Some (f k v)) t) = map fst t"
  by (induction t) auto

lemma tbl_get_mapf_total:
  "tbl_get (tbl_mapf (\<lambda>k v. Some (f k v)) t) k = map_option (f k) (tbl_get t k)"
  by (induction t) (auto simp: tbl_get_def)

lemma tbl_ok_mapf_total [simp]: "tbl_ok (tbl_mapf (\<lambda>k v. Some (f k v)) t) \<longleftrightarrow> tbl_ok t"
  by (simp add: tbl_ok_def tbl_mapf_total)

text \<open>A loop that stores an entry per element: a key is present when some element stored it.\<close>

lemma tbl_get_foldl_put:
  "tbl_get (foldl (\<lambda>out x. if P x then tbl_put (f x) (g x) out else out) t xs) k \<noteq> None \<longleftrightarrow>
   tbl_get t k \<noteq> None \<or> (\<exists>x\<in>set xs. P x \<and> f x = k)"
  by (induction xs arbitrary: t) (auto simp: tbl_simps)

section \<open>Results\<close>

text \<open>\<open>x, err := f(); if err != nil { return err }\<close>: the error of a step ends the function.\<close>

definition bind_err :: "'e + 'a \<Rightarrow> ('a \<Rightarrow> 'e + 'b) \<Rightarrow> 'e + 'b" where
  "bind_err m f = (case m of Inl e \<Rightarrow> Inl e | Inr a \<Rightarrow> f a)"

lemma bind_err_simps [simp]:
  "bind_err (Inl e) f = Inl e"
  "bind_err (Inr a) f = f a"
  by (simp_all add: bind_err_def)

lemma bind_err_Inr: "bind_err m f = Inr b \<longleftrightarrow> (\<exists>a. m = Inr a \<and> f a = Inr b)"
  by (cases m) auto

lemma bind_err_Inl: "bind_err m f = Inl e \<longleftrightarrow> m = Inl e \<or> (\<exists>a. m = Inr a \<and> f a = Inl e)"
  by (cases m) auto

end
