(* ===== verification/Go_Float.thy ===== *)
theory Go_Float
  imports Go_Base Complex_Main "HOL-Library.Log_Nat"
begin

text \<open>
  Go's \<open>float64\<close> arithmetic, as far as the program uses it: conversions from \<open>int64\<close>, division,
  multiplication, addition and the truncating conversion back to \<open>int\<close>. A finite double is
  the rational number it denotes, and each operation is the exact operation on rationals
  followed by the IEEE 754 rounding to nearest, ties to even, with a 53-bit significand
  (\<open>f64_round\<close>). The quotients the program forms lie far inside the exponent range of a
  double, so neither overflow nor subnormal numbers occur and the model has no bound on the
  exponent.

  The facts proved here are the ones the disk and fill evaluators need: rounding is exact on
  integers of at most 53 bits, monotone, and off by at most one part in \<open>2 ^ 53\<close>.
\<close>

section \<open>Rounding to nearest even\<close>

definition round_even :: "rat \<Rightarrow> int" where
  "round_even x =
     (let f = \<lfloor>x\<rfloor>; r = x - of_int f
      in if r < 1 / 2 then f
         else if r > 1 / 2 then f + 1
         else if even f then f else f + 1)"

definition exp2_of :: "rat \<Rightarrow> int" where
  "exp2_of x =
     (let (n, d) = quotient_of x; k = bitlen n - bitlen d
      in if 2 powi k \<le> x then k else k - 1)"

definition f64_round :: "rat \<Rightarrow> rat" where
  "f64_round x =
     (if x = 0 then 0
      else let u = 2 powi (exp2_of \<bar>x\<bar> - 52) in of_int (round_even (x / u)) * u)"

definition f64_of_int :: "int \<Rightarrow> rat" where "f64_of_int n = f64_round (of_int n)"

definition f64_div :: "rat \<Rightarrow> rat \<Rightarrow> rat" where "f64_div x y = f64_round (x / y)"

definition f64_mul :: "rat \<Rightarrow> rat \<Rightarrow> rat" where "f64_mul x y = f64_round (x * y)"

definition f64_add :: "rat \<Rightarrow> rat \<Rightarrow> rat" where "f64_add x y = f64_round (x + y)"

text \<open>Converting to an integer truncates towards zero.\<close>

definition f64_to_int :: "rat \<Rightarrow> int" where
  "f64_to_int x = (if x < 0 then \<lceil>x\<rceil> else \<lfloor>x\<rfloor>)"

section \<open>The integer rounding\<close>

lemma round_even_of_int [simp]: "round_even (of_int n) = n"
  by (simp add: round_even_def)

lemma round_even_bounds: "of_int (round_even x) \<le> x + 1 / 2" "x - 1 / 2 \<le> of_int (round_even x)"
proof -
  have "of_int \<lfloor>x\<rfloor> \<le> x" "x < of_int \<lfloor>x\<rfloor> + 1" by linarith+
  then show "of_int (round_even x) \<le> x + 1 / 2" "x - 1 / 2 \<le> of_int (round_even x)"
    unfolding round_even_def Let_def by (simp_all split: if_splits) linarith+
qed

lemma round_even_mono: "x \<le> y \<Longrightarrow> round_even x \<le> round_even y"
proof -
  assume xy: "x \<le> y"
  then have fl: "\<lfloor>x\<rfloor> \<le> \<lfloor>y\<rfloor>" by (rule floor_mono)
  have range: "\<lfloor>z\<rfloor> \<le> round_even z" "round_even z \<le> \<lfloor>z\<rfloor> + 1" for z
    by (simp_all add: round_even_def Let_def)
  show ?thesis
  proof (cases "\<lfloor>x\<rfloor> = \<lfloor>y\<rfloor>")
    case True
    with xy show ?thesis by (auto simp: round_even_def Let_def)
  next
    case False
    with fl have "\<lfloor>x\<rfloor> + 1 \<le> \<lfloor>y\<rfloor>" by simp
    with range(2) [of x] range(1) [of y] show ?thesis by linarith
  qed
qed

lemma round_even_le_int: "x \<le> of_int n \<Longrightarrow> round_even x \<le> n"
  using round_even_mono [of x "of_int n"] by simp

lemma round_even_ge_int: "of_int n \<le> x \<Longrightarrow> n \<le> round_even x"
  using round_even_mono [of "of_int n" x] by simp

section \<open>The binary exponent\<close>

lemma bitlen_powi_bounds:
  assumes "0 < n"
  shows "2 powi (bitlen n - 1) \<le> (of_int n :: rat)" "(of_int n :: rat) < 2 powi bitlen n"
proof -
  have b: "2 ^ nat (bitlen n - 1) \<le> n" "n < 2 ^ nat (bitlen n)"
    using bitlen_bounds [OF assms] by auto
  have pos: "0 < bitlen n"
    using assms bitlen_eq_zero_iff [of n] bitlen_nonneg [of n] by linarith
  from b(1) have "(of_int (2 ^ nat (bitlen n - 1)) :: rat) \<le> of_int n" by (simp only: of_int_le_iff)
  with pos show "2 powi (bitlen n - 1) \<le> (of_int n :: rat)"
    by (simp add: power_int_def)
  from b(2) have "(of_int n :: rat) < of_int (2 ^ nat (bitlen n))" by (simp only: of_int_less_iff)
  with pos show "(of_int n :: rat) < 2 powi bitlen n"
    by (simp add: power_int_def)
qed

lemma exp2_of_bounds:
  assumes "0 < x"
  shows "2 powi exp2_of x \<le> x" "x < 2 powi (exp2_of x + 1)"
proof -
  obtain n d where q: "quotient_of x = (n, d)" by fastforce
  then have d: "0 < d" by (rule quotient_of_denom_pos)
  from q have x: "x = of_int n / of_int d" by (rule quotient_of_div)
  with assms d have n: "0 < n" by (simp add: zero_less_divide_iff)
  let ?k = "bitlen n - bitlen d"
  have "x \<ge> 2 powi (bitlen n - 1) / 2 powi bitlen d"
    unfolding x using bitlen_powi_bounds [OF n] bitlen_powi_bounds [OF d] d n
    by (intro frac_le) auto
  then have lo: "2 powi (?k - 1) \<le> x"
    by (simp add: power_int_diff power_int_add diff_diff_eq field_simps)
  have "x < 2 powi bitlen n / 2 powi (bitlen d - 1)"
    unfolding x using bitlen_powi_bounds [OF n] bitlen_powi_bounds [OF d] d n
    by (intro frac_less) auto
  then have hi: "x < 2 powi (?k + 1)" by (simp add: power_int_diff power_int_add field_simps)
  show "2 powi exp2_of x \<le> x" "x < 2 powi (exp2_of x + 1)"
    using lo hi by (auto simp: exp2_of_def q Let_def)
qed

lemma exp2_of_mono:
  assumes "0 < x" "x \<le> y"
  shows "exp2_of x \<le> exp2_of y"
proof -
  have "(2 :: rat) powi exp2_of x < 2 powi (exp2_of y + 1)"
    using exp2_of_bounds [of x] exp2_of_bounds [of y] assms by simp
  then show ?thesis
    by (metis linorder_not_le one_less_numeral_iff power_int_increasing semiring_norm(76)
        zle_add1_eq_le one_le_numeral)
qed

section \<open>Rounding to a double\<close>

lemma f64_round_0 [simp]: "f64_round 0 = 0"
  by (simp add: f64_round_def)

lemma powi_split: "(2 :: rat) powi (e + 52) = 2 ^ 52 * 2 powi e" "(2 :: rat) powi (e + 53) = 2 ^ 53 * 2 powi e"
  by (simp_all add: power_int_add)

lemma f64_round_ge_pow:
  assumes "0 < x"
  shows "2 powi exp2_of x \<le> f64_round x"
proof -
  let ?e = "exp2_of x - 52"
  have "2 ^ 52 * 2 powi ?e \<le> x"
    using exp2_of_bounds(1) [OF assms] powi_split(1) [of ?e] by simp
  then have "of_int (2 ^ 52) \<le> x / 2 powi ?e" by (simp add: field_simps)
  then have "2 ^ 52 \<le> round_even (x / 2 powi ?e)" by (rule round_even_ge_int)
  then have "(of_int (2 ^ 52) :: rat) \<le> of_int (round_even (x / 2 powi ?e))"
    by (simp only: of_int_le_iff)
  then have "2 ^ 52 * 2 powi ?e \<le> (of_int (round_even (x / 2 powi ?e)) * 2 powi ?e :: rat)"
    by (intro mult_right_mono) simp_all
  with assms powi_split(1) [of ?e] show ?thesis by (simp add: f64_round_def Let_def)
qed

lemma f64_round_le_pow:
  assumes "0 < x"
  shows "f64_round x \<le> 2 powi (exp2_of x + 1)"
proof -
  let ?e = "exp2_of x - 52"
  have "x \<le> 2 ^ 53 * 2 powi ?e"
    using exp2_of_bounds(2) [OF assms] powi_split(2) [of ?e] by (simp add: add.commute)
  then have "x / 2 powi ?e \<le> of_int (2 ^ 53)" by (simp add: field_simps)
  then have "round_even (x / 2 powi ?e) \<le> 2 ^ 53" by (rule round_even_le_int)
  then have "of_int (round_even (x / 2 powi ?e)) \<le> (of_int (2 ^ 53) :: rat)"
    by (simp only: of_int_le_iff)
  then have "of_int (round_even (x / 2 powi ?e)) * 2 powi ?e \<le> (2 ^ 53 * 2 powi ?e :: rat)"
    by (intro mult_right_mono) simp_all
  with assms powi_split(2) [of ?e] show ?thesis
    by (simp add: f64_round_def Let_def add.commute)
qed

lemma f64_round_pos: "0 < x \<Longrightarrow> 0 < f64_round x"
  by (metis f64_round_ge_pow zero_less_power_int zero_less_numeral order_less_le_trans)

lemma f64_round_nonneg: "0 \<le> x \<Longrightarrow> 0 \<le> f64_round x"
  using f64_round_pos [of x] by (cases "x = 0") auto

text \<open>Rounding is monotone: within one binade because the integer rounding is, across
  binades because a rounded value never leaves the closed binade of its argument.\<close>

lemma f64_round_mono:
  assumes "0 \<le> x" "x \<le> y"
  shows "f64_round x \<le> f64_round y"
proof (cases "x = 0")
  case True
  with assms show ?thesis by (simp add: f64_round_nonneg)
next
  case False
  with assms have x: "0 < x" and y: "0 < y" by auto
  show ?thesis
  proof (cases "exp2_of x = exp2_of y")
    case True
    let ?u = "(2 :: rat) powi (exp2_of y - 52)"
    have "x / ?u \<le> y / ?u" using assms(2) by (simp add: divide_right_mono)
    then have "round_even (x / ?u) \<le> round_even (y / ?u)" by (rule round_even_mono)
    then have "of_int (round_even (x / ?u)) * ?u \<le> of_int (round_even (y / ?u)) * ?u"
      by (intro mult_right_mono) auto
    with True x y show ?thesis by (simp add: f64_round_def Let_def)
  next
    case False
    with exp2_of_mono [OF x assms(2)] have "exp2_of x + 1 \<le> exp2_of y" by simp
    then have "(2 :: rat) powi (exp2_of x + 1) \<le> 2 powi exp2_of y"
      by (intro power_int_increasing) auto
    with f64_round_le_pow [OF x] f64_round_ge_pow [OF y] show ?thesis by linarith
  qed
qed

text \<open>Integers of at most 53 bits are doubles.\<close>

lemma f64_round_of_nat_exact:
  assumes "0 \<le> n" "n < 2 ^ 53"
  shows "f64_round (of_int n) = of_int n"
proof (cases "n = 0")
  case False
  with assms have n: "0 < n" by simp
  then have xp: "(0 :: rat) < of_int n" by simp
  let ?e = "exp2_of (of_int n) - 52"
  have "(2 :: rat) powi exp2_of (of_int n) < 2 powi 53"
  proof -
    have "(of_int n :: rat) < of_int (2 ^ 53)" using assms(2) by (simp only: of_int_less_iff)
    then show ?thesis using exp2_of_bounds(1) [OF xp] by (simp add: power_int_def)
  qed
  then have "exp2_of (of_int n :: rat) < 53"
    by (metis linorder_not_le power_int_increasing one_le_numeral)
  then have "0 \<le> - ?e" by simp
  then obtain m where m: "?e = - int m" by (metis add.inverse_inverse nonneg_int_cases)
  then have "of_int n / (2 :: rat) powi ?e = of_int (n * 2 ^ m)"
    by (simp add: power_int_minus divide_inverse)
  then have "round_even (of_int n / (2 :: rat) powi ?e) = n * 2 ^ m"
    by (simp only: round_even_of_int)
  then show ?thesis using n m
    by (simp add: f64_round_def Let_def power_int_minus)
qed simp

text \<open>The rounding error is at most half a unit in the last place.\<close>

lemma f64_round_error:
  assumes "0 < x"
  shows "\<bar>f64_round x - x\<bar> \<le> x / 2 ^ 53"
proof -
  let ?u = "(2 :: rat) powi (exp2_of x - 52)"
  have u: "0 < ?u" by simp
  have "\<bar>of_int (round_even (x / ?u)) - x / ?u\<bar> \<le> 1 / 2"
    using round_even_bounds [of "x / ?u"] by linarith
  then have "\<bar>of_int (round_even (x / ?u)) - x / ?u\<bar> * ?u \<le> 1 / 2 * ?u"
    using u by (intro mult_right_mono) auto
  moreover have "\<bar>of_int (round_even (x / ?u)) - x / ?u\<bar> * ?u = \<bar>f64_round x - x\<bar>"
  proof -
    have "f64_round x - x = (of_int (round_even (x / ?u)) - x / ?u) * ?u"
      using assms u by (simp add: f64_round_def Let_def left_diff_distrib)
    then show ?thesis using u by (simp only: abs_mult abs_of_pos)
  qed
  moreover have "1 / 2 * ?u \<le> x / 2 ^ 53"
    using exp2_of_bounds(1) [OF assms] powi_split(1) [of "exp2_of x - 52"] by simp
  ultimately show ?thesis by linarith
qed

section \<open>Truncation\<close>

lemma f64_to_int_mono: "0 \<le> x \<Longrightarrow> x \<le> y \<Longrightarrow> f64_to_int x \<le> f64_to_int y"
  by (simp add: f64_to_int_def floor_mono)

lemma f64_to_int_of_int [simp]: "f64_to_int (of_int n) = n"
  by (simp add: f64_to_int_def)

end
