(* ===== verification/Domain_Model.thy ===== *)
theory Domain_Model
  imports Go_Float
begin

text \<open>
  The data model of \<open>internal/domain\<close>: the structs of \<open>models.go\<close> that the monitoring core
  reads and writes, as records with the source's fields, the status predicates of the same
  file and the backup schedule of \<open>schedule.go\<close>. A pointer field is an
  \<open>option\<close>; Go's field names carry a prefix naming their struct.
\<close>

section \<open>Structs\<close>

record pve_server =
  pves_ID :: int
  pves_Name :: string
  pves_DisplayName :: string
  pves_IP :: string
  pves_PublicIP :: string
  pves_ClientVersion :: string
  pves_MachineID :: string
  pves_APIKeyID :: int
  pves_BackupInventoryKnown :: bool
  pves_HasBackupVMs :: bool
  pves_IsDeleted :: bool
  pves_CreatedAt :: time
  pves_UpdatedAt :: time

record pve_report =
  pver_ID :: int
  pver_ServerID :: int
  pver_ReportedAt :: time
  pver_IsStale :: bool
  pver_StaleReason :: string
  pver_BackupStatus :: string
  pver_BackupStarttime :: int
  pver_BackupEndtime :: int
  pver_BackupDuration :: int
  pver_SwapTotal :: int
  pver_SwapUsed :: int
  pver_SwapEnabled :: bool

record pve_storage =
  pvest_ID :: int
  pvest_ReportID :: int
  pvest_Storage :: string
  pvest_Path :: string
  pvest_Content :: string
  pvest_Type :: string
  pvest_Status :: string
  pvest_Shared :: bool
  pvest_Server :: string
  pvest_Digest :: string
  pvest_PruneBackups :: string

record pve_storage_info =
  pvesi_ID :: int
  pvesi_StorageID :: int
  pvesi_Total :: int
  pvesi_Used :: int
  pvesi_Avail :: int
  pvesi_UsedPct :: rat
  pvesi_Active :: bool
  pvesi_Enabled :: bool
  pvesi_Lvl :: int

record pve_storage_content =
  pvesc_ID :: int
  pvesc_StorageID :: int
  pvesc_VMID :: int
  pvesc_Format :: string
  pvesc_Size :: int
  pvesc_Content :: string
  pvesc_VolID :: string
  pvesc_CTime :: int
  pvesc_Subtype :: string
  pvesc_Notes :: string
  pvesc_Verification :: string

record pbs_server =
  pbss_ID :: int
  pbss_Name :: string
  pbss_DisplayName :: string
  pbss_IP :: string
  pbss_PublicIP :: string
  pbss_ClientVersion :: string
  pbss_MachineID :: string
  pbss_APIKeyID :: int
  pbss_IsDeleted :: bool
  pbss_CreatedAt :: time
  pbss_UpdatedAt :: time

record pbs_report =
  pbsr_ID :: int
  pbsr_ServerID :: int
  pbsr_ReportedAt :: time
  pbsr_IsStale :: bool
  pbsr_StaleReason :: string
  pbsr_SwapTotal :: int
  pbsr_SwapUsed :: int
  pbsr_SwapEnabled :: bool

record host_swap =
  swap_Total :: int
  swap_Used :: int
  swap_Enabled :: bool

record pbs_store =
  pbsd_ID :: int
  pbsd_ReportID :: int
  pbsd_Store :: string
  pbsd_Total :: int
  pbsd_Used :: int
  pbsd_Avail :: int
  pbsd_EstimatedFullDate :: int
  pbsd_MountStatus :: string
  pbsd_HistoryStart :: int
  pbsd_HistoryDelta :: int

record pbs_snapshot =
  pbsn_ID :: int
  pbsn_StoreID :: int
  pbsn_BackupType :: string
  pbsn_BackupID :: string
  pbsn_LastBackup :: int
  pbsn_BackupCount :: int
  pbsn_Owner :: string
  pbsn_Comment :: string
  pbsn_VerificationState :: string
  pbsn_Size :: int

record pbs_task =
  pbst_ID :: int
  pbst_ReportID :: int
  pbst_TaskType :: string
  pbst_JobID :: string
  pbst_Remote :: string
  pbst_RemoteStore :: string
  pbst_Store :: string
  pbst_Status :: string
  pbst_StartTime :: int
  pbst_EndTime :: int
  pbst_UPID :: string

record pve_backup_task =
  pvet_ID :: int
  pvet_ReportID :: int
  pvet_VMID :: int
  pvet_VMName :: string
  pvet_Status :: string
  pvet_StartTime :: int
  pvet_EndTime :: int
  pvet_Duration :: int
  pvet_Size :: int
  pvet_Filename :: string

record windows_server =
  wins_ID :: int
  wins_Name :: string
  wins_DisplayName :: string
  wins_IP :: string
  wins_PublicIP :: string
  wins_ClientVersion :: string
  wins_MachineID :: string
  wins_APIKeyID :: int
  wins_IsDeleted :: bool
  wins_CreatedAt :: time
  wins_UpdatedAt :: time

record windows_report =
  winr_ID :: int
  winr_ServerID :: int
  winr_ReportedAt :: time
  winr_IsStale :: bool

record windows_disk =
  wind_ID :: int
  wind_ReportID :: int
  wind_Name :: string
  wind_Label :: string
  wind_FileSystem :: string
  wind_DriveType :: string
  wind_Total :: int
  wind_Used :: int
  wind_Free :: int
  wind_Health :: string

record server_heartbeat =
  hb_ID :: int
  hb_ServerType :: string
  hb_ServerID :: int
  hb_Hostname :: string
  hb_IP :: string
  hb_PublicIP :: string
  hb_ClientVersion :: string
  hb_MachineID :: string
  hb_SwapTotal :: int
  hb_SwapUsed :: int
  hb_SwapEnabled :: bool
  hb_SwapReported :: bool
  hb_LastSeenAt :: time
  hb_CreatedAt :: time
  hb_UpdatedAt :: time

record vm_backup_config =
  vbc_ID :: int
  vbc_ServerName :: string
  vbc_VMID :: string
  vbc_VMName :: string
  vbc_Monday :: bool
  vbc_Tuesday :: bool
  vbc_Wednesday :: bool
  vbc_Thursday :: bool
  vbc_Friday :: bool
  vbc_Saturday :: bool
  vbc_Sunday :: bool
  vbc_IsExcluded :: bool
  vbc_IsDeleted :: bool
  vbc_DeletedAt :: "time option"
  vbc_CreatedAt :: time

record alert =
  al_ID :: string
  al_ServerName :: string
  al_ServerID :: int
  al_ServerType :: string
  al_StoreName :: string
  al_VMID :: int
  al_VMName :: string
  al_Type :: string
  al_Severity :: string
  al_Title :: string
  al_Message :: string
  al_Value :: string
  al_Threshold :: string
  al_DetectedAt :: time

record alert_state_event =
  ev_ID :: int
  ev_AlertID :: string
  ev_EventType :: string
  ev_Severity :: string
  ev_Title :: string
  ev_Message :: string
  ev_ServerName :: string
  ev_ServerType :: string
  ev_ServerID :: int
  ev_StoreName :: string
  ev_VMID :: int
  ev_VMName :: string
  ev_Note :: string
  ev_CreatedAt :: time

record server_maintenance =
  sm_ServerType :: string
  sm_ServerID :: int
  sm_Until :: time
  sm_Reason :: string
  sm_Active :: bool

record pve_alert_config =
  pvec_ServerID :: int
  pvec_DiskPct :: "int option"
  pvec_StaleHours :: "int option"
  pvec_BackupErr :: "int option"
  pvec_ExpectedFinishTime :: "string option"
  pvec_SwapAlert :: "int option"

record pve_vm_alert_config =
  pvevc_ID :: int
  pvevc_ServerID :: int
  pvevc_VMID :: int
  pvevc_BackupErr :: "int option"
  pvevc_MinSizeMB :: "int option"

record pbs_alert_config =
  pbsc_ServerID :: int
  pbsc_DiskPct :: "int option"
  pbsc_DaysUntilFull :: "int option"
  pbsc_StaleHours :: "int option"
  pbsc_VerifyAlert :: bool
  pbsc_SwapAlert :: "int option"

record windows_alert_config =
  winc_ServerID :: int
  winc_DiskPct :: "int option"

text \<open>The zero values of the structs that Go code reads from a map at an absent key.\<close>

definition zero_pve_alert_config :: pve_alert_config where
  "zero_pve_alert_config = \<lparr>pvec_ServerID = 0, pvec_DiskPct = None, pvec_StaleHours = None,
     pvec_BackupErr = None, pvec_ExpectedFinishTime = None, pvec_SwapAlert = None\<rparr>"

definition zero_pbs_alert_config :: pbs_alert_config where
  "zero_pbs_alert_config = \<lparr>pbsc_ServerID = 0, pbsc_DiskPct = None, pbsc_DaysUntilFull = None,
     pbsc_StaleHours = None, pbsc_VerifyAlert = False, pbsc_SwapAlert = None\<rparr>"

definition zero_windows_alert_config :: windows_alert_config where
  "zero_windows_alert_config = \<lparr>winc_ServerID = 0, winc_DiskPct = None\<rparr>"

definition zero_server_heartbeat :: server_heartbeat where
  "zero_server_heartbeat = \<lparr>hb_ID = 0, hb_ServerType = [], hb_ServerID = 0, hb_Hostname = [],
     hb_IP = [], hb_PublicIP = [], hb_ClientVersion = [], hb_MachineID = [], hb_SwapTotal = 0,
     hb_SwapUsed = 0, hb_SwapEnabled = False, hb_SwapReported = False,
     hb_LastSeenAt = zero_time, hb_CreatedAt = zero_time, hb_UpdatedAt = zero_time\<rparr>"

definition zero_alert :: alert where
  "zero_alert = \<lparr>al_ID = [], al_ServerName = [], al_ServerID = 0, al_ServerType = [],
     al_StoreName = [], al_VMID = 0, al_VMName = [], al_Type = [], al_Severity = [],
     al_Title = [], al_Message = [], al_Value = [], al_Threshold = [],
     al_DetectedAt = zero_time\<rparr>"

section \<open>Constants\<close>

abbreviation "AlertTypeDisk \<equiv> ''disk''"
abbreviation "AlertTypeBackupError \<equiv> ''backup_error''"
abbreviation "AlertTypeBackupSize \<equiv> ''backup_size''"
abbreviation "AlertTypePBSFill \<equiv> ''pbs_fill''"
abbreviation "AlertTypePBSVerify \<equiv> ''pbs_verify''"
abbreviation "AlertTypePBSSyncFailed \<equiv> ''pbs_sync_failed''"
abbreviation "AlertTypePBSGCFailed \<equiv> ''pbs_gc_failed''"
abbreviation "AlertTypePVEStale \<equiv> ''pve_stale''"
abbreviation "AlertTypePVEHeartbeat \<equiv> ''pve_heartbeat''"
abbreviation "AlertTypePBSReportStale \<equiv> ''pbs_report_stale''"
abbreviation "AlertTypePBSHeartbeat \<equiv> ''pbs_heartbeat''"
abbreviation "AlertTypePVEMissingVM \<equiv> ''pve_missing_vm''"
abbreviation "AlertTypePVEUnknownVM \<equiv> ''pve_unknown_vm''"
abbreviation "AlertTypeSwap \<equiv> ''swap''"
abbreviation "AlertTypeWindowsHeartbeat \<equiv> ''windows_heartbeat''"
abbreviation "AlertTypeWindowsDiskHealth \<equiv> ''windows_disk_health''"
abbreviation "AlertTypeWindowsVolumeGone \<equiv> ''windows_volume_missing''"

definition AlertSeverityCritical :: string where "AlertSeverityCritical = ''critical''"
definition AlertSeverityWarning :: string where "AlertSeverityWarning = ''warning''"

lemma severities_differ [simp]:
  "AlertSeverityCritical \<noteq> AlertSeverityWarning" "AlertSeverityWarning \<noteq> AlertSeverityCritical"
  by (simp_all add: AlertSeverityCritical_def AlertSeverityWarning_def)

section \<open>Backup and task statuses\<close>

definition PBSTaskFailed :: "pbs_task \<Rightarrow> bool" where
  "PBSTaskFailed task =
     (let status = to_lower (trim_space (pbst_Status task))
      in contains_str status ''error'' \<or> contains_str status ''fail'')"

definition PVEBackupStatusOK :: "string \<Rightarrow> bool" where
  "PVEBackupStatusOK status \<longleftrightarrow> to_lower (trim_space status) = ''ok''"

definition PVEBackupStatusWarning :: "string \<Rightarrow> bool" where
  "PVEBackupStatusWarning status \<longleftrightarrow> has_prefix (to_upper (trim_space status)) ''WARNING''"

text \<open>The loop of \<open>PVEBackupStatusSummary\<close>, with the warning found so far.\<close>

fun status_summary_loop :: "string \<Rightarrow> pve_backup_task list \<Rightarrow> string" where
  "status_summary_loop warning [] = (if warning \<noteq> [] then warning else ''OK'')"
| "status_summary_loop warning (task # tasks) =
     (let status = trim_space (pvet_Status task)
      in if PVEBackupStatusOK status then status_summary_loop warning tasks
         else if PVEBackupStatusWarning status then
           status_summary_loop (if warning = [] then status else warning) tasks
         else if status = [] then ''ERROR'' else status)"

definition PVEBackupStatusSummary :: "pve_backup_task list \<Rightarrow> string \<Rightarrow> string" where
  "PVEBackupStatusSummary tasks fallback =
     (if tasks = [] then trim_space fallback else status_summary_loop [] tasks)"

section \<open>Backup schedule\<close>

datatype weekday = Sunday | Monday | Tuesday | Wednesday | Thursday | Friday | Saturday

definition VMScheduledForDay :: "vm_backup_config \<Rightarrow> weekday \<Rightarrow> bool" where
  "VMScheduledForDay c day =
     (case day of
        Monday \<Rightarrow> vbc_Monday c
      | Tuesday \<Rightarrow> vbc_Tuesday c
      | Wednesday \<Rightarrow> vbc_Wednesday c
      | Thursday \<Rightarrow> vbc_Thursday c
      | Friday \<Rightarrow> vbc_Friday c
      | Saturday \<Rightarrow> vbc_Saturday c
      | Sunday \<Rightarrow> vbc_Sunday c)"

definition VMHasAnyScheduledDay :: "vm_backup_config \<Rightarrow> bool" where
  "VMHasAnyScheduledDay c \<longleftrightarrow>
     vbc_Monday c \<or> vbc_Tuesday c \<or> vbc_Wednesday c \<or> vbc_Thursday c \<or> vbc_Friday c \<or>
     vbc_Saturday c \<or> vbc_Sunday c"

fun HasActiveVMBackupConfigs :: "vm_backup_config list \<Rightarrow> bool" where
  "HasActiveVMBackupConfigs [] = False"
| "HasActiveVMBackupConfigs (c # configs) =
     (if \<not> vbc_IsExcluded c \<and> VMHasAnyScheduledDay c then True
      else HasActiveVMBackupConfigs configs)"

definition PVEStaleSuppressed :: "vm_backup_config list \<Rightarrow> pve_alert_config \<Rightarrow> bool \<Rightarrow> bool" where
  "PVEStaleSuppressed configs cfg noVMsConfirmed =
     (if pvec_StaleHours cfg = Some 0 then True
      else if noVMsConfirmed then True
      else configs \<noteq> [] \<and> \<not> HasActiveVMBackupConfigs configs)"

text \<open>Weekdays are numbered from Sunday, as in package \<open>time\<close>.\<close>

fun weekday_num :: "weekday \<Rightarrow> int" where
  "weekday_num Sunday = 0" | "weekday_num Monday = 1" | "weekday_num Tuesday = 2"
| "weekday_num Wednesday = 3" | "weekday_num Thursday = 4" | "weekday_num Friday = 5"
| "weekday_num Saturday = 6"

definition weekday_of_num :: "int \<Rightarrow> weekday" where
  "weekday_of_num n =
     (let d = n mod 7
      in if d = 0 then Sunday else if d = 1 then Monday else if d = 2 then Tuesday
         else if d = 3 then Wednesday else if d = 4 then Thursday else if d = 5 then Friday
         else Saturday)"

lemma weekday_num_of_num [simp]: "weekday_num (weekday_of_num n) = n mod 7"
proof -
  have "n mod 7 \<in> {0, 1, 2, 3, 4, 5, 6}"
    using pos_mod_bound [of 7 n] pos_mod_sign [of 7 n] by auto
  then show ?thesis by (auto simp: weekday_of_num_def)
qed

lemma weekday_num_inject [simp]: "weekday_num a = weekday_num b \<longleftrightarrow> a = b"
  by (cases a; cases b) simp_all

lemma weekday_of_num_num [simp]: "weekday_of_num (weekday_num d) = d"
  by (cases d) (simp_all add: weekday_of_num_def)

lemma weekday_of_num_eq_iff: "weekday_of_num m = weekday_of_num n \<longleftrightarrow> m mod 7 = n mod 7"
  by (metis weekday_num_of_num weekday_num_inject)

text \<open>Days are compared in their order in the week.\<close>

instantiation weekday :: linorder
begin

definition less_eq_weekday :: "weekday \<Rightarrow> weekday \<Rightarrow> bool" where
  "less_eq_weekday a b \<longleftrightarrow> weekday_num a \<le> weekday_num b"

definition less_weekday :: "weekday \<Rightarrow> weekday \<Rightarrow> bool" where
  "less_weekday a b \<longleftrightarrow> weekday_num a < weekday_num b"

instance
  by standard (auto simp: less_eq_weekday_def less_weekday_def)

end

lemma scheduled_any_iff: "VMHasAnyScheduledDay c \<longleftrightarrow> (\<exists>d. VMScheduledForDay c d)"
proof
  assume "VMHasAnyScheduledDay c"
  then consider "VMScheduledForDay c Monday" | "VMScheduledForDay c Tuesday"
    | "VMScheduledForDay c Wednesday" | "VMScheduledForDay c Thursday"
    | "VMScheduledForDay c Friday" | "VMScheduledForDay c Saturday" | "VMScheduledForDay c Sunday"
    by (auto simp: VMHasAnyScheduledDay_def VMScheduledForDay_def)
  then show "\<exists>d. VMScheduledForDay c d" by cases blast+
next
  assume "\<exists>d. VMScheduledForDay c d"
  then obtain d where "VMScheduledForDay c d" ..
  then show "VMHasAnyScheduledDay c"
    by (cases d) (simp_all add: VMHasAnyScheduledDay_def VMScheduledForDay_def)
qed

lemma HasActive_iff:
  "HasActiveVMBackupConfigs cs \<longleftrightarrow>
     (\<exists>c \<in> set cs. \<not> vbc_IsExcluded c \<and> (\<exists>d. VMScheduledForDay c d))"
  by (induction cs) (auto simp: scheduled_any_iff)

end
