(* ===== verification/Domain_Format.thy ===== *)
theory Domain_Format
  imports Domain_Model
begin

text \<open>
  The pure helpers of \<open>internal/domain\<close> and of the alert engine that turn numbers into text
  and back: \<open>FormatBytes\<close> (\<open>format.go\<close>), the age and fill texts of \<open>alertengine.go\<close>, the
  \<open>HH:MM\<close> clock times of \<open>schedule.go\<close>. Shown here: \<open>FormatBytes\<close> returns for every 64-bit size, its unit index
  is never out of range and its scale is right; clock times survive printing and parsing.
\<close>

section \<open>Durations as floating point hours and minutes\<close>

text \<open>\<open>Duration.Hours\<close> and \<open>Duration.Minutes\<close>\<close>

definition dur_hours :: "duration \<Rightarrow> rat" where
  "dur_hours d = f64_add (f64_of_int (go_div d hour))
                         (f64_div (f64_of_int (go_rem d hour)) 3600000000000)"

definition dur_minutes :: "duration \<Rightarrow> rat" where
  "dur_minutes d = f64_add (f64_of_int (go_div d minute))
                           (f64_div (f64_of_int (go_rem d minute)) 60000000000)"

definition alertFmtAge :: "duration \<Rightarrow> string" where
  "alertFmtAge d =
     (if d < hour then
        (let mins = f64_to_int (dur_minutes d)
         in show_int (if mins < 1 then 1 else mins) @ ''min'')
      else if d < 48 * hour then show_int (f64_to_int (dur_hours d)) @ ''h''
      else show_int (f64_to_int (f64_div (dur_hours d) 24)) @ ''d'')"

section \<open>Sizes\<close>

definition pad2 :: "int \<Rightarrow> string" where
  "pad2 n = (if n < 10 then CHR ''0'' # show_int n else show_int n)"

text \<open>The verb \<open>%.2f\<close> on a non-negative number.\<close>

definition fmt_fixed2 :: "rat \<Rightarrow> string" where
  "fmt_fixed2 x = (let r = round_even (x * 100) in show_int (r div 100) @ ''.'' @ pad2 (r mod 100))"

text \<open>The loop \<open>for n := b / unit; n >= unit; n /= unit\<close>, returning \<open>div\<close> and \<open>exp\<close>.\<close>

function fmt_bytes_loop :: "int \<Rightarrow> int \<Rightarrow> nat \<Rightarrow> int \<times> nat" where
  "fmt_bytes_loop n dv ex =
     (if n \<ge> 1000 then fmt_bytes_loop (n div 1000) (wrap64 (dv * 1000)) (Suc ex) else (dv, ex))"
  by pat_completeness auto
termination
  by (relation "measure (\<lambda>(n, dv, ex). nat n)") auto

declare fmt_bytes_loop.simps [simp del]

text \<open>\<open>None\<close> is the panic of an index outside \<open>"KMGTPE"\<close>. The result for a size that is not
  positive is an en dash.\<close>

definition FormatBytes :: "int \<Rightarrow> string option" where
  "FormatBytes b =
     (if b \<le> 0 then Some [CHR 0xE2, CHR 0x80, CHR 0x93]
      else if b < 1000 then Some (show_int b @ '' B'')
      else case fmt_bytes_loop (b div 1000) 1000 0 of
        (dv, ex) \<Rightarrow>
          if ex < length ''KMGTPE'' then
            Some (fmt_fixed2 (f64_div (f64_of_int b) (f64_of_int dv)) @ '' '' @
                  [''KMGTPE'' ! ex, CHR ''B''])
          else None)"

lemma fmt_bytes_loop_scale:
  assumes "0 < n" "n * dv \<le> b" "b < (n + 1) * dv" "dv = 1000 ^ Suc ex" "b < 2 ^ 63"
    and "fmt_bytes_loop n dv ex = (dv', ex')"
  shows "dv' = 1000 ^ Suc ex' \<and> dv' \<le> b \<and> b < 1000 * dv'"
  using assms
proof (induction n dv ex rule: fmt_bytes_loop.induct)
  case (1 n dv ex)
  have dv: "0 < dv" using "1.prems"(4) by simp
  show ?case
  proof (cases "n \<ge> 1000")
    case True
    have "1000 * dv \<le> n * dv" using True dv by (intro mult_right_mono) auto
    then have small: "dv * 1000 < 2 ^ 63" using "1.prems"(2,5) by linarith
    then have w: "wrap64 (dv * 1000) = dv * 1000" using dv by (simp add: is_int64_def)
    have q: "0 < n div 1000" using True by (simp add: pos_imp_zdiv_pos_iff)
    have "n div 1000 * 1000 \<le> n" by (rule zdiv_bounds) simp
    then have "n div 1000 * 1000 * dv \<le> n * dv" using dv by (intro mult_right_mono) auto
    then have lo: "n div 1000 * (dv * 1000) \<le> b" using "1.prems"(2) by (simp add: algebra_simps)
    have "n + 1 \<le> (n div 1000 + 1) * 1000"
      using zdiv_bounds(2) [of 1000 n] by linarith
    then have "(n + 1) * dv \<le> (n div 1000 + 1) * 1000 * dv" using dv by (intro mult_right_mono) auto
    then have hi: "b < (n div 1000 + 1) * (dv * 1000)" using "1.prems"(3) by (simp add: algebra_simps)
    have "fmt_bytes_loop (n div 1000) (dv * 1000) (Suc ex) = (dv', ex')"
      using "1.prems"(6) True w by (simp add: fmt_bytes_loop.simps [of n dv ex])
    then show ?thesis
      using "1.IH" [unfolded w, OF True q lo hi _ "1.prems"(5)] "1.prems"(4) by simp
  next
    case False
    then have r: "dv' = dv" "ex' = ex"
      using "1.prems"(6) by (simp_all add: fmt_bytes_loop.simps [of n dv ex])
    have "1 * dv \<le> n * dv" using "1.prems"(1) dv by (intro mult_right_mono) auto
    moreover have "(n + 1) * dv \<le> 1000 * dv" using False dv by (intro mult_right_mono) auto
    ultimately have "dv \<le> b" "b < 1000 * dv" using "1.prems"(2,3) by linarith+
    with r "1.prems"(4) show ?thesis by simp
  qed
qed

lemma pow1000_bound: "(1000 :: int) ^ Suc ex < 2 ^ 63 \<Longrightarrow> ex < 6"
proof (rule ccontr)
  assume a: "(1000 :: int) ^ Suc ex < 2 ^ 63" and "\<not> ex < 6"
  then have "(1000 :: int) ^ 7 \<le> 1000 ^ Suc ex" by (intro power_increasing) auto
  with a show False by simp
qed

lemma fmt_bytes_entry:
  assumes "1000 \<le> b" "b < 2 ^ 63" "fmt_bytes_loop (b div 1000) 1000 0 = (dv, ex)"
  shows "dv = 1000 ^ Suc ex" "dv \<le> b" "b < 1000 * dv" "ex < 6"
proof -
  have "0 < b div 1000" using assms(1) by (simp add: pos_imp_zdiv_pos_iff)
  moreover have "b div 1000 * 1000 \<le> b" "b < (b div 1000 + 1) * 1000"
    by (rule zdiv_bounds, simp)+
  ultimately have s: "dv = 1000 ^ Suc ex \<and> dv \<le> b \<and> b < 1000 * dv"
    using fmt_bytes_loop_scale [OF _ _ _ _ assms(2,3)] by simp
  then show "dv = 1000 ^ Suc ex" "dv \<le> b" "b < 1000 * dv" by auto
  with assms(2) have "(1000 :: int) ^ Suc ex < 2 ^ 63" by linarith
  then show "ex < 6" by (rule pow1000_bound)
qed

text \<open>C39: formatting a size always returns. For every size of at least a thousand bytes a 64-bit integer can hold, the loop ends after at
  most five rounds; its divisor never overflows and is the power of a thousand just below the size, so that the number
  printed is from 1 up to 1000, and the index of the unit is in range.\<close>

theorem FormatBytes_returns:
  assumes "1000 \<le> b" "b < 2 ^ 63"
  shows "\<exists>ex\<le>5. fmt_bytes_loop (b div 1000) 1000 0 = (1000 ^ Suc ex, ex) \<and>
    1000 ^ Suc ex \<le> b \<and> b < 1000 * 1000 ^ Suc ex \<and> FormatBytes b \<noteq> None"
proof -
  obtain dv ex where l: "fmt_bytes_loop (b div 1000) 1000 0 = (dv, ex)" by fastforce
  note e = fmt_bytes_entry [OF assms l]
  have "FormatBytes b \<noteq> None" using assms(1) e(4) by (simp add: FormatBytes_def l)
  then show ?thesis using e l by (intro exI [of _ ex]) simp
qed

theorem FormatBytes_returns_witness:
  "\<exists>ex\<le>5. fmt_bytes_loop (9223372036854775807 div 1000) 1000 0 = (1000 ^ Suc ex, ex) \<and>
    1000 ^ Suc ex \<le> (9223372036854775807 :: int) \<and> FormatBytes 9223372036854775807 \<noteq> None"
  using FormatBytes_returns [of 9223372036854775807] by auto

definition alertFmtBytes :: "int \<Rightarrow> string" where "alertFmtBytes b = the (FormatBytes b)"

section \<open>Clock times\<close>

text \<open>\<open>time.Parse("15:04", s)\<close>: an hour of one or two digits, a colon, exactly two digits of
  minutes, and nothing else.\<close>

definition parse_minute :: "int \<Rightarrow> string \<Rightarrow> (int \<times> int) option" where
  "parse_minute h s =
     (case s of
        [a, b] \<Rightarrow>
          if is_digit a \<and> is_digit b then
            (let m = int (10 * digit_val a + digit_val b)
             in if m < 60 \<and> h < 24 then Some (h, m) else None)
          else None
      | _ \<Rightarrow> None)"

definition parse_clock :: "string \<Rightarrow> (int \<times> int) option" where
  "parse_clock s =
     (case s of
        a # b # rest \<Rightarrow>
          if is_digit a \<and> is_digit b then
            (case rest of
               c # rest' \<Rightarrow> if c = CHR '':'' then
                   parse_minute (int (10 * digit_val a + digit_val b)) rest' else None
             | [] \<Rightarrow> None)
          else if is_digit a \<and> b = CHR '':'' then parse_minute (int (digit_val a)) rest
          else None
      | _ \<Rightarrow> None)"

text \<open>\<open>Format("15:04")\<close>\<close>

definition format_clock :: "int \<Rightarrow> int \<Rightarrow> string" where
  "format_clock h m = pad2 h @ '':'' @ pad2 m"

text \<open>Parsing yields the clock time on a fixed day; adding the lead time moves it on that day's
  24-hour dial.\<close>

definition DefaultPVEExpectedFinishTime :: "string \<Rightarrow> string" where
  "DefaultPVEExpectedFinishTime sendTime =
     (let (h, m) = (case parse_clock sendTime of Some t \<Rightarrow> t | None \<Rightarrow> (8, 0));
          t = (60 * h + m - 5) mod 1440
      in format_clock (t div 60) (t mod 60))"

lemma parse_clock_range: "parse_clock s = Some (h, m) \<Longrightarrow> 0 \<le> h \<and> h < 24 \<and> 0 \<le> m \<and> m < 60"
  by (auto simp: parse_clock_def parse_minute_def Let_def split: list.splits if_splits)

lemma pad2_two_digits:
  assumes "0 \<le> n" "n < 100"
  shows "pad2 n = [digit_char (nat n div 10), digit_char (nat n mod 10)]"
proof (cases "n < 10")
  case True
  with assms have "nat n < 10" by simp
  then have "show_nat (nat n) = [digit_char (nat n)]" "nat n div 10 = 0" "nat n mod 10 = nat n"
    by (simp_all add: show_nat.simps [of "nat n"])
  moreover have "digit_char 0 = CHR ''0''" by code_simp
  ultimately show ?thesis using True assms by (simp add: pad2_def show_int_def)
next
  case False
  with assms have "10 \<le> nat n" "nat n < 100" by auto
  then have "show_nat (nat n) = [digit_char (nat n div 10), digit_char (nat n mod 10)]"
    by (simp add: show_nat.simps [of "nat n"] show_nat.simps [of "nat n div 10"])
  with False assms show ?thesis by (simp add: pad2_def show_int_def)
qed

lemma parse_format_clock:
  assumes "0 \<le> h" "h < 24" "0 \<le> m" "m < 60"
  shows "parse_clock (format_clock h m) = Some (h, m)"
proof -
  have d: "n div 10 < 10" "n mod 10 < 10" if "n < 100" for n :: nat using that by auto
  have r: "int (10 * (nat n div 10) + nat n mod 10) = n" if "0 \<le> n" for n
    using that by simp
  have "nat h < 100" "nat m < 100" using assms by auto
  then show ?thesis
    using assms r [of h] r [of m]
    by (simp add: format_clock_def pad2_two_digits parse_clock_def parse_minute_def d Let_def
        del: of_nat_add of_nat_mult)
qed

end
