(* ===== verification/Staleness.thy ===== *)
theory Staleness
  imports Domain_Format
begin

text \<open>
  The staleness rules of \<open>internal/service/report.go\<close>: when is the last PVE report of a
  server too old, given the weekdays on which its VMs are backed up and the hour by which the
  night's job must have reported.

  A \<open>time.Location\<close> is the lookup function of package \<open>time\<close>: for a Unix second the zone
  offset in force and the interval of seconds over which it is. Civil dates are their day
  numbers (1970-01-01 is day 0, a Thursday), which stand one to one for the year, month and
  day that \<open>time.Date\<close> takes; \<open>go_date\<close> follows \<open>time.Date\<close>'s search for the zone of
  a wall-clock time.

  Results of store queries are arguments (\<open>None\<close> is a query error), so the functions here are
  the decision logic of the methods of \<open>ReportService\<close>.
\<close>

section \<open>Locations and civil dates\<close>

record zone =
  zn_offset :: int
  zn_start :: int
  zn_end :: int

type_synonym location = "int \<Rightarrow> zone"

definition local_secs :: "location \<Rightarrow> time \<Rightarrow> int" where
  "local_secs loc t = unix t + zn_offset (loc (unix t))"

definition local_day :: "location \<Rightarrow> time \<Rightarrow> int" where
  "local_day loc t = local_secs loc t div 86400"

definition weekday_of_day :: "int \<Rightarrow> weekday" where
  "weekday_of_day d = weekday_of_num (d + 4)"

definition weekday_at :: "location \<Rightarrow> time \<Rightarrow> weekday" where
  "weekday_at loc t = weekday_of_day (local_day loc t)"

text \<open>\<open>time.Date\<close> for a day number, the seconds since its midnight and the nanoseconds.\<close>

definition go_date :: "location \<Rightarrow> int \<Rightarrow> int \<Rightarrow> int \<Rightarrow> time" where
  "go_date loc day secs ns =
     (let wall = day * 86400 + secs;
          z = loc wall;
          offset = zn_offset z
      in if offset = 0 then from_unix wall + ns
         else let utc = wall - offset;
                  offset' = (if utc < zn_start z \<or> utc \<ge> zn_end z then zn_offset (loc utc) else offset)
              in from_unix (wall - offset') + ns)"

text \<open>\<open>Time.AddDate(0, 0, n)\<close>\<close>

definition add_days :: "location \<Rightarrow> time \<Rightarrow> int \<Rightarrow> time" where
  "add_days loc t n =
     go_date loc (local_day loc t + n) (local_secs loc t mod 86400) (t mod 1000000000)"

section \<open>Staleness of a report\<close>

definition IsStale :: "location \<Rightarrow> time \<Rightarrow> time \<Rightarrow> bool" where
  "IsStale tz now reportedAt \<longleftrightarrow> local_day tz now \<noteq> local_day tz reportedAt"

text \<open>The set of weekdays on which some VM that is not excluded has a backup, in the order the
  code enters them.\<close>

definition expected_days :: "vm_backup_config list \<Rightarrow> weekday set" where
  "expected_days configs = {d. \<exists>c \<in> set configs. \<not> vbc_IsExcluded c \<and> VMScheduledForDay c d}"

definition all_weekdays :: "weekday list" where
  "all_weekdays = [Sunday, Monday, Tuesday, Wednesday, Thursday, Friday, Saturday]"

definition is_expected :: "vm_backup_config list \<Rightarrow> weekday \<Rightarrow> bool" where
  "is_expected configs d \<longleftrightarrow> list_ex (\<lambda>c. \<not> vbc_IsExcluded c \<and> VMScheduledForDay c d) configs"

definition no_expected :: "vm_backup_config list \<Rightarrow> bool" where
  "no_expected configs \<longleftrightarrow> \<not> list_ex (is_expected configs) all_weekdays"

definition msg_no_active :: string where
  "msg_no_active = ''sin backups activos configurados''"

definition msg_today :: string where
  "msg_today = ''No se ha recibido el reporte de hoy''"

definition msg_last_day :: string where
  "msg_last_day = ''no se ha recibido reporte del '' @ [CHR 0xC3, CHR 0xBA] @ ''ltimo d'' @
     [CHR 0xC3, CHR 0xAD] @ ''a de backup''"

definition msg_no_reports :: string where
  "msg_no_reports = ''no se han recibido reportes''"

text \<open>The loop over \<open>i\<close>: the start of the first expected day whose window has closed.\<close>

fun stale_scan :: "location \<Rightarrow> time \<Rightarrow> vm_backup_config list \<Rightarrow> int \<Rightarrow> int \<Rightarrow> int list \<Rightarrow> time option" where
  "stale_scan tz now configs finishHour finishMinute [] = None"
| "stale_scan tz now configs finishHour finishMinute (i # is) =
     (let candidate = add_days tz now (- i)
      in if \<not> is_expected configs (weekday_at tz candidate) then
           stale_scan tz now configs finishHour finishMinute is
         else
           let dayStart = go_date tz (local_day tz candidate) 0 0;
               cutoff = t_add (add_days tz dayStart 1)
                          (wrap64 (wrap64 (finishHour * hour) + wrap64 (finishMinute * minute)))
           in if t_before now cutoff then stale_scan tz now configs finishHour finishMinute is
              else Some dayStart)"

definition lookback :: "int list" where
  "lookback = [1, 2, 3, 4, 5, 6, 7, 8, 9, 10, 11, 12, 13, 14]"

definition isStaleForConfigsAt ::
  "location \<Rightarrow> time \<Rightarrow> time \<Rightarrow> vm_backup_config list \<Rightarrow> int \<Rightarrow> int \<Rightarrow> bool \<times> string" where
  "isStaleForConfigsAt tz now reportedAt configs finishHour finishMinute =
     (if no_expected configs then (False, msg_no_active)
      else case stale_scan tz now configs finishHour finishMinute lookback of
        Some dayStart \<Rightarrow> (t_before reportedAt dayStart, msg_last_day)
      | None \<Rightarrow> (IsStale tz now reportedAt, msg_today))"

definition expectedFinishFromAlertConfig :: "pve_alert_config \<Rightarrow> string \<Rightarrow> int \<times> int" where
  "expectedFinishFromAlertConfig cfg globalFinishTime =
     (case Option.bind (pvec_ExpectedFinishTime cfg) parse_clock of
        Some hm \<Rightarrow> hm
      | None \<Rightarrow> (case parse_clock globalFinishTime of Some hm \<Rightarrow> hm | None \<Rightarrow> (9, 0)))"

definition IsStaleForLoadedPVEConfig ::
  "location \<Rightarrow> time \<Rightarrow> time \<Rightarrow> vm_backup_config list \<Rightarrow> pve_alert_config \<Rightarrow> string \<Rightarrow> bool \<Rightarrow>
   bool \<times> string" where
  "IsStaleForLoadedPVEConfig tz now reportedAt configs alertCfg globalFinishTime noVMsConfirmed =
     (if PVEStaleSuppressed configs alertCfg noVMsConfirmed then (False, msg_no_active)
      else case expectedFinishFromAlertConfig alertCfg globalFinishTime of
        (finishHour, finishMinute) \<Rightarrow>
          isStaleForConfigsAt tz now reportedAt configs finishHour finishMinute)"

section \<open>Staleness from the store\<close>

text \<open>The global cutoff, \<open>[]\<close> when the email configuration cannot be read.\<close>

definition globalPVEExpectedFinishTime :: "string option \<Rightarrow> string" where
  "globalPVEExpectedFinishTime emailFinish = (case emailFinish of None \<Rightarrow> [] | Some s \<Rightarrow> s)"

definition expectedFinishTimeByServerID ::
  "pve_alert_config option \<Rightarrow> string option \<Rightarrow> int \<times> int" where
  "expectedFinishTimeByServerID alertCfg emailFinish =
     (case alertCfg of
        None \<Rightarrow> (9, 0)
      | Some cfg \<Rightarrow> expectedFinishFromAlertConfig cfg (globalPVEExpectedFinishTime emailFinish))"

definition expectedFinishTime ::
  "pve_server option \<Rightarrow> pve_alert_config option \<Rightarrow> string option \<Rightarrow> int \<times> int" where
  "expectedFinishTime sv alertCfg emailFinish =
     (case sv of
        None \<Rightarrow> (9, 0)
      | Some _ \<Rightarrow> expectedFinishTimeByServerID alertCfg emailFinish)"

definition no_vms_confirmed :: "pve_server \<Rightarrow> bool" where
  "no_vms_confirmed sv \<longleftrightarrow> pves_BackupInventoryKnown sv \<and> \<not> pves_HasBackupVMs sv"

text \<open>On an error \<open>GetPVEAlertConfig\<close> still yields a configuration without overrides.\<close>

definition alert_cfg_or_empty :: "int \<Rightarrow> pve_alert_config option \<Rightarrow> pve_alert_config" where
  "alert_cfg_or_empty serverID q = or_zero (zero_pve_alert_config\<lparr>pvec_ServerID := serverID\<rparr>) q"

definition IsStaleForServerID ::
  "location \<Rightarrow> time \<Rightarrow> time \<Rightarrow> int \<Rightarrow> vm_backup_config list option \<Rightarrow> pve_alert_config option \<Rightarrow>
   pve_server option \<Rightarrow> string option \<Rightarrow> bool \<times> string" where
  "IsStaleForServerID tz now reportedAt serverID configsQ alertQ serverQ emailFinish =
     (case configsQ of
        None \<Rightarrow> (IsStale tz now reportedAt, msg_today)
      | Some configs \<Rightarrow>
          (let alertCfg = alert_cfg_or_empty serverID alertQ;
               noVMs = (case serverQ of None \<Rightarrow> False | Some sv \<Rightarrow> no_vms_confirmed sv)
           in if PVEStaleSuppressed configs alertCfg noVMs then (False, msg_no_active)
              else case expectedFinishTimeByServerID alertQ emailFinish of
                (finishHour, finishMinute) \<Rightarrow>
                  isStaleForConfigsAt tz now reportedAt configs finishHour finishMinute))"

text \<open>The variant by name repeats the scan inline and falls back to \<open>IsStale\<close> when no weekday
  is expected.\<close>

definition IsStaleForServer ::
  "location \<Rightarrow> time \<Rightarrow> time \<Rightarrow> vm_backup_config list option \<Rightarrow> pve_server option \<Rightarrow>
   pve_alert_config option \<Rightarrow> string option \<Rightarrow> bool \<times> string" where
  "IsStaleForServer tz now reportedAt configsQ serverQ alertQ emailFinish =
     (case configsQ of
        None \<Rightarrow> (IsStale tz now reportedAt, msg_today)
      | Some configs \<Rightarrow>
          (let alertCfg = (case serverQ of None \<Rightarrow> zero_pve_alert_config
                           | Some sv \<Rightarrow> alert_cfg_or_empty (pves_ID sv) alertQ);
               noVMs = (case serverQ of None \<Rightarrow> False | Some sv \<Rightarrow> no_vms_confirmed sv)
           in if PVEStaleSuppressed configs alertCfg noVMs then (False, msg_no_active)
              else if no_expected configs then (IsStale tz now reportedAt, msg_today)
              else case expectedFinishTime serverQ alertQ emailFinish of
                (finishHour, finishMinute) \<Rightarrow>
                  (case stale_scan tz now configs finishHour finishMinute lookback of
                     Some dayStart \<Rightarrow> (t_before reportedAt dayStart, msg_last_day)
                   | None \<Rightarrow> (IsStale tz now reportedAt, msg_today))))"

section \<open>Lemmas\<close>

lemma is_expected_iff: "is_expected configs d \<longleftrightarrow> d \<in> expected_days configs"
  by (auto simp: is_expected_def expected_days_def list_ex_iff)

lemma in_all_weekdays [simp]: "d \<in> set all_weekdays"
  by (cases d) (simp_all add: all_weekdays_def)

lemma no_expected_iff: "no_expected configs \<longleftrightarrow> expected_days configs = {}"
  by (auto simp: no_expected_def list_ex_iff is_expected_iff)

lemma expectedFinish_range:
  "expectedFinishFromAlertConfig cfg g = (h, m) \<Longrightarrow> 0 \<le> h \<and> h < 24 \<and> 0 \<le> m \<and> m < 60"
  by (auto simp: expectedFinishFromAlertConfig_def bind_eq_Some_conv
      dest: parse_clock_range split: option.splits)

subsection \<open>Zones without transitions\<close>

text \<open>A location whose offset never changes, such as UTC.\<close>

definition fixed_zone :: "location \<Rightarrow> int \<Rightarrow> bool" where
  "fixed_zone loc off \<longleftrightarrow> (\<forall>s. zn_offset (loc s) = off)"

definition utc_zone :: location where
  "utc_zone s = \<lparr>zn_offset = 0, zn_start = - (2 ^ 63), zn_end = 2 ^ 63 - 1\<rparr>"

lemma fixed_zone_utc [simp]: "fixed_zone utc_zone 0"
  by (simp add: fixed_zone_def utc_zone_def)

lemma go_date_fixed: "fixed_zone loc off \<Longrightarrow> go_date loc d s ns = from_unix (d * 86400 + s - off) + ns"
  by (simp add: go_date_def fixed_zone_def Let_def)

lemma unix_from_unix_add: "0 \<le> ns \<Longrightarrow> ns < 1000000000 \<Longrightarrow> unix (from_unix s + ns) = s"
  by (simp add: unix_def from_unix_def)

lemma local_day_go_date:
  assumes "fixed_zone loc off" "0 \<le> s" "s < 86400" "0 \<le> ns" "ns < 1000000000"
  shows "local_day loc (go_date loc d s ns) = d"
  using assms by (simp add: go_date_fixed local_day_def local_secs_def unix_from_unix_add fixed_zone_def)

lemma local_day_add_days:
  "fixed_zone loc off \<Longrightarrow> local_day loc (add_days loc t n) = local_day loc t + n"
  unfolding add_days_def by (rule local_day_go_date) simp_all

text \<open>The start of a civil day in a zone without transitions.\<close>

definition day_start :: "int \<Rightarrow> int \<Rightarrow> time" where
  "day_start off d = from_unix (d * 86400 - off)"

lemma go_date_midnight: "fixed_zone loc off \<Longrightarrow> go_date loc d 0 0 = day_start off d"
  by (simp add: go_date_fixed day_start_def)

lemma add_days_midnight:
  assumes "fixed_zone loc off"
  shows "add_days loc (day_start off d) n = day_start off (d + n)"
proof -
  have "local_secs loc (day_start off d) = d * 86400"
    using assms by (simp add: local_secs_def day_start_def fixed_zone_def)
  then show ?thesis
    using assms by (simp add: add_days_def local_day_def go_date_fixed day_start_def from_unix_def)
qed

lemma day_start_Suc: "day_start off (d + 1) = day_start off d + 24 * hour"
  by (simp add: day_start_def from_unix_def hour_def algebra_simps)

lemma day_start_mono: "d \<le> e \<Longrightarrow> day_start off d \<le> day_start off e"
  by (simp add: day_start_def from_unix_def)

lemma day_start_le_now:
  assumes "fixed_zone loc off"
  shows "day_start off (local_day loc now) \<le> now"
proof -
  have "local_day loc now * 86400 \<le> unix now + off"
    using assms zdiv_bounds(1) [of 86400 "unix now + off"]
    by (simp add: local_day_def local_secs_def fixed_zone_def)
  then have "from_unix (local_day loc now * 86400 - off) \<le> from_unix (unix now)"
    by (simp add: from_unix_def)
  also have "\<dots> \<le> now" by (rule from_unix_le)
  finally show ?thesis by (simp add: day_start_def)
qed

subsection \<open>The scan finds the last closed backup day\<close>

text \<open>Abstractly, backup day \<open>d\<close> closes at the finish time on the morning of \<open>d + 1\<close>.\<close>

definition day_closes :: "int \<Rightarrow> int \<Rightarrow> int \<Rightarrow> int \<Rightarrow> time" where
  "day_closes off h m d = day_start off (d + 1) + h * hour + m * minute"

definition closed_backup_day ::
  "int \<Rightarrow> time \<Rightarrow> vm_backup_config list \<Rightarrow> int \<Rightarrow> int \<Rightarrow> int \<Rightarrow> int \<Rightarrow> bool" where
  "closed_backup_day off now configs h m today d \<longleftrightarrow>
     d < today \<and> weekday_of_day d \<in> expected_days configs \<and> day_closes off h m d \<le> now"

lemma clock_dur:
  assumes "0 \<le> h" "h < 24" "0 \<le> m" "m < 60"
  shows "wrap64 (wrap64 (h * hour) + wrap64 (m * minute)) = h * hour + m * minute"
    and "h * hour + m * minute < 24 * hour"
  using assms by (simp_all add: hour_def minute_def is_int64_def)

lemma stale_scan_fixed:
  assumes "fixed_zone loc off" "0 \<le> h" "h < 24" "0 \<le> m" "m < 60"
  shows "stale_scan loc now configs h m is =
     map_option (\<lambda>i. day_start off (local_day loc now - i))
       (find (\<lambda>i. weekday_of_day (local_day loc now - i) \<in> expected_days configs \<and>
                  day_closes off h m (local_day loc now - i) \<le> now) is)"
proof (induction "is")
  case (Cons i "is")
  have d: "local_day loc (add_days loc now (- i)) = local_day loc now - i"
    using local_day_add_days [OF assms(1)] by simp
  have c: "t_before now (t_add (add_days loc (day_start off (local_day loc now - i)) 1)
       (wrap64 (wrap64 (h * hour) + wrap64 (m * minute)))) \<longleftrightarrow>
     \<not> day_closes off h m (local_day loc now - i) \<le> now"
    using assms by (simp add: add_days_midnight clock_dur day_closes_def t_add_def
        t_before_def not_le add.assoc)
  show ?case
    using Cons.IH assms(1)
    by (auto simp: Let_def weekday_at_def d c is_expected_iff go_date_midnight)
qed simp

lemma weekday_of_day_period: "weekday_of_day d = weekday_of_day e \<longleftrightarrow> d mod 7 = e mod 7"
  unfolding weekday_of_day_def weekday_of_num_eq_iff by (simp add: mod_eq_dvd_iff)

lemma weekday_occurs:
  obtains i where "2 \<le> i" "i \<le> 8" "weekday_of_day (today - i) = wd"
proof -
  obtain e where e: "weekday_of_day e = wd"
    by (metis weekday_of_day_def weekday_of_num_num diff_add_cancel)
  let ?i = "(today - e - 2) mod 7 + 2"
  have "today - ?i - e = (today - e - 2) - (today - e - 2) mod 7" by simp
  then have "7 dvd today - ?i - e" by (simp only: dvd_minus_mod)
  then have "(today - ?i) mod 7 = e mod 7" by (simp only: mod_eq_dvd_iff)
  then have "weekday_of_day (today - ?i) = wd"
    unfolding e [symmetric] by (simp only: weekday_of_day_period)
  moreover have "2 \<le> ?i" "?i \<le> 8"
    using pos_mod_bound [of 7 "today - e - 2"] pos_mod_sign [of 7 "today - e - 2"] by simp_all
  ultimately show ?thesis using that by blast
qed

lemma old_days_closed:
  assumes "fixed_zone loc off" "0 \<le> h" "h < 24" "0 \<le> m" "m < 60" "2 \<le> i"
  shows "day_closes off h m (local_day loc now - i) \<le> now"
proof -
  let ?t = "local_day loc now"
  have "day_closes off h m (?t - i) \<le> day_start off (?t - i + 1 + 1)"
    using clock_dur(2) [OF assms(2-5)] day_start_Suc [of off "?t - i + 1"]
    by (simp add: day_closes_def)
  also have "\<dots> \<le> day_start off ?t" using assms(6) by (intro day_start_mono) simp
  also have "\<dots> \<le> now" by (rule day_start_le_now [OF assms(1)])
  finally show ?thesis .
qed

text \<open>In a list of consecutive offsets, the first hit is the latest day.\<close>

lemma find_lookback:
  assumes "find P lookback = Some i"
  shows "P i" "1 \<le> i" "i \<le> 14" "\<And>j. 1 \<le> j \<Longrightarrow> j < i \<Longrightarrow> \<not> P j"
proof -
  have eq: "lookback = map (\<lambda>k. int (Suc k)) [0..<14]"
    by (simp add: lookback_def upt_rec)
  from assms obtain k where k: "k < 14" "P (int (Suc k))" "i = int (Suc k)"
    and first: "\<forall>j<k. \<not> P (int (Suc j))"
    by (auto simp: find_Some_iff eq)
  from k show "P i" "1 \<le> i" "i \<le> 14" by auto
  fix j assume j: "1 \<le> j" "j < i"
  then have "j = int (Suc (nat j - 1))" "nat j - 1 < k" using k(3) by auto
  with first show "\<not> P j" by metis
qed

lemma find_lookback_total:
  assumes "P i" "1 \<le> i" "i \<le> 14"
  shows "find P lookback \<noteq> None"
proof -
  have "i \<in> set lookback" using assms(2,3) unfolding lookback_def by simp presburger
  with assms(1) show ?thesis by (auto simp: find_None_iff)
qed

lemma stale_scan_latest:
  assumes z: "fixed_zone loc off" and fin: "0 \<le> h" "h < 24" "0 \<le> m" "m < 60"
    and ne: "expected_days configs \<noteq> {}"
  obtains d where "stale_scan loc now configs h m lookback = Some (day_start off d)"
    and "closed_backup_day off now configs h m (local_day loc now) d"
    and "\<And>e. closed_backup_day off now configs h m (local_day loc now) e \<Longrightarrow> e \<le> d"
proof -
  let ?t = "local_day loc now"
  let ?P = "\<lambda>i. weekday_of_day (?t - i) \<in> expected_days configs \<and> day_closes off h m (?t - i) \<le> now"
  from ne obtain wd where wd: "wd \<in> expected_days configs" by blast
  obtain i0 where i0: "2 \<le> i0" "i0 \<le> 8" "weekday_of_day (?t - i0) = wd" by (rule weekday_occurs)
  have "?P i0" using i0 wd old_days_closed [OF z fin i0(1)] by simp
  then obtain i where i: "find ?P lookback = Some i"
    using find_lookback_total [of ?P i0] i0 by auto
  note fl = find_lookback [OF i]
  have "stale_scan loc now configs h m lookback = Some (day_start off (?t - i))"
    by (simp add: stale_scan_fixed [OF z fin] i)
  moreover have "closed_backup_day off now configs h m ?t (?t - i)"
    using fl(1,2) by (simp add: closed_backup_day_def)
  moreover have "e \<le> ?t - i" if "closed_backup_day off now configs h m ?t e" for e
  proof (rule ccontr)
    assume "\<not> e \<le> ?t - i"
    then have "1 \<le> ?t - e" "?t - e < i" using that by (auto simp: closed_backup_day_def)
    with fl(4) [of "?t - e"] that show False by (simp add: closed_backup_day_def)
  qed
  ultimately show ?thesis using that by blast
qed

end
