(* ===== verification/Alert_Base.thy ===== *)
theory Alert_Base
  imports Staleness
begin

text \<open>
  The inputs of the alert engine (\<open>internal/service/alertengine.go\<close>): the resolved thresholds
  \<open>AlertConfigs\<close>, the batched view \<open>AlertData\<close> of one run, and the priority and formatting
  helpers the evaluators share. A Go map indexed by a database key is a partial function; the
  zero value is read at an absent key, as in Go.

  The clock and the process environment are explicit: an evaluator takes the reading \<open>now\<close> of
  \<open>time.Now()\<close> (all readings of one evaluator coincide in the model), the local time zone of
  the process where it uses one, and a value standing for the \<open>*ReportService\<close>, which holds
  the configured zone and clock.
\<close>

section \<open>Configuration and data of one run\<close>

record report_service =
  rs_tz :: location
  rs_now :: time

record alert_data =
  ad_PVEServers :: "pve_server list"
  ad_PVEReports :: "int \<rightharpoonup> pve_report"
  ad_PVEStorages :: "int \<rightharpoonup> pve_storage list"
  ad_PVEStorageInfo :: "int \<rightharpoonup> pve_storage_info"
  ad_PVETasks :: "int \<rightharpoonup> pve_backup_task list"
  ad_PVEBackupConfigs :: "int \<rightharpoonup> vm_backup_config list"
  ad_PVEHeartbeats :: "int \<rightharpoonup> server_heartbeat"
  ad_PBSServers :: "pbs_server list"
  ad_PBSReports :: "int \<rightharpoonup> pbs_report"
  ad_PBSStores :: "int \<rightharpoonup> pbs_store list"
  ad_PBSSnapshots :: "int \<rightharpoonup> pbs_snapshot list"
  ad_PBSTasks :: "int \<rightharpoonup> pbs_task list"
  ad_PBSHeartbeats :: "int \<rightharpoonup> server_heartbeat"
  ad_WindowsServers :: "windows_server list"
  ad_WindowsReports :: "int \<rightharpoonup> windows_report list"
  ad_WindowsDisks :: "int \<rightharpoonup> windows_disk list"
  ad_WindowsHeartbeats :: "int \<rightharpoonup> server_heartbeat"

record alert_configs =
  ac_GlobalDiskPct :: int
  ac_GlobalWindowsDiskPct :: int
  ac_GlobalStaleHours :: int
  ac_GlobalBackupErr :: bool
  ac_GlobalPVEExpectedFinishTime :: string
  ac_GlobalPVEHeartbeatMinutes :: int
  ac_Report :: "report_service option"
  ac_PVEConfigs :: "int \<rightharpoonup> pve_alert_config"
  ac_PVEVMConfigs :: "int \<rightharpoonup> pve_vm_alert_config list"
  ac_PBSConfigs :: "int \<rightharpoonup> pbs_alert_config"
  ac_WindowsConfigs :: "int \<rightharpoonup> windows_alert_config"
  ac_Data :: "alert_data option"

text \<open>Errors: a failed store query, with what the store reported.\<close>

datatype alert_error = StoreError string | PartialAlertsError "alert_error list"

type_synonym alert_result = "alert_error + alert list"

text \<open>
  The queries the engine reads the store with. The outcome of each is a parameter of the run: a
  store error, or the rows. A query that builds a Go map returns its entries in the order the
  map is ranged over, which Go leaves open; a query given a list of keys is a function of them.
\<close>

record email_thresholds =
  ec_AlertDiskPct :: int
  ec_AlertWindowsDiskPct :: int
  ec_AlertBackupErr :: bool
  ec_AlertPBSStaleHours :: int
  ec_AlertPVEExpectedFinishTime :: string
  ec_AlertPVEHeartbeatMinutes :: int

record alert_loader =
  q_GetEmailConfig :: "alert_error + email_thresholds"
  q_ListPVEServers :: "alert_error + pve_server list"
  q_ListPBSServers :: "alert_error + pbs_server list"
  q_ListWindowsServers :: "alert_error + windows_server list"
  q_GetLatestPVEReports :: "alert_error + (int \<times> pve_report) list"
  q_GetLatestPBSReports :: "alert_error + (int \<times> pbs_report) list"
  q_GetRecentWindowsReportsByServer :: "int list \<Rightarrow> int \<Rightarrow> alert_error + (int \<times> windows_report list) list"
  q_ListPVEVMBackupConfigsByServer :: "alert_error + (int \<times> vm_backup_config list) list"
  q_ListServerHeartbeatsByType :: "string \<Rightarrow> alert_error + (int \<times> server_heartbeat) list"
  q_GetPVEBackupTasksForReports :: "int list \<Rightarrow> alert_error + (int \<times> pve_backup_task list) list"
  q_GetPVEStoragesForReports :: "int list \<Rightarrow> alert_error + (int \<times> pve_storage list) list"
  q_GetPVEStorageInfoForStorages :: "int list \<Rightarrow> alert_error + (int \<times> pve_storage_info) list"
  q_GetPBSStoresForReports :: "int list \<Rightarrow> alert_error + (int \<times> pbs_store list) list"
  q_GetPBSTasksForReports :: "int list \<Rightarrow> alert_error + (int \<times> pbs_task list) list"
  q_GetPBSSnapshotsForStores :: "int list \<Rightarrow> alert_error + (int \<times> pbs_snapshot list) list"
  q_GetWindowsDisksForReports :: "int list \<Rightarrow> alert_error + (int \<times> windows_disk list) list"
  q_ListPVEAlertConfigs :: "alert_error + (int \<times> pve_alert_config) list"
  q_ListPVEVMAlertConfigs :: "alert_error + (int \<times> pve_vm_alert_config list) list"
  q_ListPBSAlertConfigs :: "alert_error + (int \<times> pbs_alert_config) list"
  q_ListWindowsAlertConfigs :: "alert_error + (int \<times> windows_alert_config) list"

definition loadAlertData :: "alert_loader \<Rightarrow> alert_error + alert_data" where
  "loadAlertData st =
     bind_err (q_ListPVEServers st) (\<lambda>pveServers.
     bind_err (q_ListPBSServers st) (\<lambda>pbsServers.
     bind_err (q_ListWindowsServers st) (\<lambda>windowsServers.
     bind_err (q_GetLatestPVEReports st) (\<lambda>pveReports.
     bind_err (q_GetLatestPBSReports st) (\<lambda>pbsReports.
     bind_err (q_GetRecentWindowsReportsByServer st (map wins_ID windowsServers) 2) (\<lambda>windowsReports.
     bind_err (q_ListPVEVMBackupConfigsByServer st) (\<lambda>pveBackupConfigs.
     bind_err (q_ListServerHeartbeatsByType st ''pve'') (\<lambda>pveHeartbeats.
     bind_err (q_ListServerHeartbeatsByType st ''pbs'') (\<lambda>pbsHeartbeats.
     bind_err (q_ListServerHeartbeatsByType st ''windows'') (\<lambda>windowsHeartbeats.
     let pveReportIDs = map (\<lambda>(_, report). pver_ID report) pveReports in
     bind_err (q_GetPVEBackupTasksForReports st pveReportIDs) (\<lambda>pveTasks.
     bind_err (q_GetPVEStoragesForReports st pveReportIDs) (\<lambda>pveStorages.
     let pveStorageIDs = concat (map (\<lambda>(_, storages). map pvest_ID storages) pveStorages) in
     bind_err (q_GetPVEStorageInfoForStorages st pveStorageIDs) (\<lambda>pveStorageInfo.
     let pbsReportIDs = map (\<lambda>(_, report). pbsr_ID report) pbsReports in
     bind_err (q_GetPBSStoresForReports st pbsReportIDs) (\<lambda>pbsStores.
     bind_err (q_GetPBSTasksForReports st pbsReportIDs) (\<lambda>pbsTasks.
     let pbsStoreIDs = concat (map (\<lambda>(_, stores). map pbsd_ID stores) pbsStores) in
     bind_err (q_GetPBSSnapshotsForStores st pbsStoreIDs) (\<lambda>pbsSnapshots.
     let windowsReportIDs = concat (map (\<lambda>(_, reports). map winr_ID reports) windowsReports) in
     bind_err (q_GetWindowsDisksForReports st windowsReportIDs) (\<lambda>windowsDisks.
     Inr \<lparr>ad_PVEServers = pveServers, ad_PVEReports = map_of pveReports,
       ad_PVEStorages = map_of pveStorages, ad_PVEStorageInfo = map_of pveStorageInfo,
       ad_PVETasks = map_of pveTasks, ad_PVEBackupConfigs = map_of pveBackupConfigs,
       ad_PVEHeartbeats = map_of pveHeartbeats,
       ad_PBSServers = pbsServers, ad_PBSReports = map_of pbsReports,
       ad_PBSStores = map_of pbsStores, ad_PBSSnapshots = map_of pbsSnapshots,
       ad_PBSTasks = map_of pbsTasks, ad_PBSHeartbeats = map_of pbsHeartbeats,
       ad_WindowsServers = windowsServers, ad_WindowsReports = map_of windowsReports,
       ad_WindowsDisks = map_of windowsDisks,
       ad_WindowsHeartbeats = map_of windowsHeartbeats\<rparr>)))))))))))))))))"

definition ensureAlertData :: "alert_loader \<Rightarrow> alert_configs \<Rightarrow> alert_error + alert_configs" where
  "ensureAlertData st cfg =
     (case ac_Data cfg of
        Some _ \<Rightarrow> Inr cfg
      | None \<Rightarrow> bind_err (loadAlertData st) (\<lambda>data. Inr (cfg\<lparr>ac_Data := Some data\<rparr>)))"

text \<open>Every evaluator starts by ensuring its data and returns the load error otherwise.\<close>

definition with_data ::
  "alert_loader \<Rightarrow> alert_configs \<Rightarrow> (alert_configs \<Rightarrow> alert_data \<Rightarrow> alert list) \<Rightarrow> alert_result" where
  "with_data st cfg body =
     (case ensureAlertData st cfg of
        Inl e \<Rightarrow> Inl e
      | Inr cfg' \<Rightarrow> (case ac_Data cfg' of
            None \<Rightarrow> Inl (StoreError ''nil alert data'')
          | Some d \<Rightarrow> Inr (body cfg' d)))"

text \<open>Reading the maps of the configuration and of the data.\<close>

abbreviation pve_cfg :: "alert_configs \<Rightarrow> int \<Rightarrow> pve_alert_config" where
  "pve_cfg cfg i \<equiv> or_zero zero_pve_alert_config (ac_PVEConfigs cfg i)"

abbreviation pbs_cfg :: "alert_configs \<Rightarrow> int \<Rightarrow> pbs_alert_config" where
  "pbs_cfg cfg i \<equiv> or_zero zero_pbs_alert_config (ac_PBSConfigs cfg i)"

abbreviation slice :: "(int \<rightharpoonup> 'a list) \<Rightarrow> int \<Rightarrow> 'a list" where
  "slice m i \<equiv> or_zero [] (m i)"

section \<open>Priority resolution\<close>

definition resolveBackupErr :: "pve_alert_config \<Rightarrow> pve_vm_alert_config option \<Rightarrow> bool \<Rightarrow> bool" where
  "resolveBackupErr svCfg vmCfg global =
     (case Option.bind vmCfg pvevc_BackupErr of
        Some v \<Rightarrow> v \<noteq> 0
      | None \<Rightarrow> (case pvec_BackupErr svCfg of Some v \<Rightarrow> v \<noteq> 0 | None \<Rightarrow> global))"

fun findVMConfig :: "pve_vm_alert_config list \<Rightarrow> int \<Rightarrow> pve_vm_alert_config option" where
  "findVMConfig [] vmid = None"
| "findVMConfig (c # configs) vmid =
     (if pvevc_VMID c = vmid then Some c else findVMConfig configs vmid)"

fun vm_excluded_loop :: "vm_backup_config list \<Rightarrow> string \<Rightarrow> bool" where
  "vm_excluded_loop [] want = False"
| "vm_excluded_loop (config # configs) want =
     (if vbc_VMID config = want then vbc_IsExcluded config else vm_excluded_loop configs want)"

definition pveVMBackupExcluded :: "vm_backup_config list \<Rightarrow> int \<Rightarrow> bool" where
  "pveVMBackupExcluded configs vmid = vm_excluded_loop configs (show_int vmid)"

definition pveBackupStatusAlertable :: "string \<Rightarrow> bool" where
  "pveBackupStatusAlertable status0 =
     (let status = trim_space status0
      in status \<noteq> [] \<and> \<not> PVEBackupStatusOK status \<and> \<not> PVEBackupStatusWarning status)"

definition alertDiskSeverity :: "int \<Rightarrow> string" where
  "alertDiskSeverity pct = (if pct \<ge> 95 then AlertSeverityCritical else AlertSeverityWarning)"

text \<open>\<open>int(float64(used) / float64(total) * 100)\<close>\<close>

definition usage_pct :: "int \<Rightarrow> int \<Rightarrow> int" where
  "usage_pct used tot = f64_to_int (f64_mul (f64_div (f64_of_int used) (f64_of_int tot)) 100)"

definition currentHostSwap ::
  "server_heartbeat \<Rightarrow> host_swap \<Rightarrow> time \<Rightarrow> bool \<Rightarrow> host_swap \<times> bool" where
  "currentHostSwap hb report reportTime hasReport =
     (if hb_SwapReported hb \<and> (\<not> hasReport \<or> \<not> t_before (hb_LastSeenAt hb) reportTime) then
        (\<lparr>swap_Total = hb_SwapTotal hb, swap_Used = hb_SwapUsed hb, swap_Enabled = hb_SwapEnabled hb\<rparr>, True)
      else (report, hasReport))"

section \<open>Messages\<close>

definition vm_label :: "string \<Rightarrow> string \<Rightarrow> string" where
  "vm_label name vmid = (if name = [] then ''VM '' @ vmid else name)"

definition hostSwapMessage :: "int \<Rightarrow> int \<Rightarrow> string" where
  "hostSwapMessage used tot =
     (if tot \<le> 0 then ''El host tiene swap activa''
      else if used > 0 then
        ''Swap activa: '' @ alertFmtBytes used @ '' usados de '' @ alertFmtBytes tot
      else ''Swap activa: '' @ alertFmtBytes tot @ '' configurados, sin uso actual'')"

text \<open>Whole days until an instant: \<open>int(fullTime.Sub(now).Hours() / 24)\<close>.\<close>

definition days_left :: "time \<Rightarrow> time \<Rightarrow> int" where
  "days_left fullTime now = f64_to_int (f64_div (dur_hours (t_sub fullTime now)) 24)"

definition pbsDiskMessage :: "int \<Rightarrow> int \<Rightarrow> int \<Rightarrow> int \<Rightarrow> time \<Rightarrow> string" where
  "pbsDiskMessage pct used tot estimatedFullDate now =
     (let msg = show_int pct @ ''% usado ('' @ alertFmtBytes used @ '' / '' @ alertFmtBytes tot @ '')''
      in if estimatedFullDate = 0 then msg
         else let fullTime = from_unix estimatedFullDate
              in if \<not> t_after fullTime now then
                   msg @ ''; estimaci'' @ [CHR 0xC3, CHR 0xB3] @ ''n de llenado vencida''
                 else let daysLeft = days_left fullTime now
                   in if daysLeft < 1 then
                        msg @ ''; estimaci'' @ [CHR 0xC3, CHR 0xB3] @ ''n: menos de 1 d'' @
                          [CHR 0xC3, CHR 0xAD] @ ''a''
                      else msg @ ''; estimaci'' @ [CHR 0xC3, CHR 0xB3] @ ''n: '' @ show_int daysLeft @
                          '' d'' @ [CHR 0xC3, CHR 0xAD] @ ''as'')"

section \<open>Alert identifiers\<close>

text \<open>The identifier of an alert is its type, its server type and the server's key, joined by
  colons, then the rest. Two alerts of one type and server type share an identifier only when
  they share the server and the rest.\<close>

definition alert_id :: "string \<Rightarrow> string \<Rightarrow> int \<Rightarrow> string \<Rightarrow> string" where
  "alert_id kind stype serverID rest = kind @ '':'' @ stype @ '':'' @ show_int serverID @ rest"

lemma alert_id_sub_inject:
  "alert_id kind stype i ('':'' @ r) = alert_id kind stype j ('':'' @ s) \<longleftrightarrow> i = j \<and> r = s"
proof
  assume "alert_id kind stype i ('':'' @ r) = alert_id kind stype j ('':'' @ s)"
  then have "show_int i @ CHR '':'' # r = show_int j @ CHR '':'' # s" by (simp add: alert_id_def)
  then have "show_int i = show_int j \<and> r = s"
    by (rule split_at_sep) (rule show_int_no_colon)+
  then show "i = j \<and> r = s" by simp
qed simp

lemma alert_id_inject: "alert_id kind stype i [] = alert_id kind stype j [] \<longleftrightarrow> i = j"
  by (simp add: alert_id_def)

section \<open>Usage percentages\<close>

lemma hundred_exact: "f64_round 100 = 100" "f64_round 1 = 1"
  using f64_round_of_nat_exact [of 100] f64_round_of_nat_exact [of 1] by simp_all

lemma f64_of_int_mono: "0 \<le> a \<Longrightarrow> a \<le> b \<Longrightarrow> f64_of_int a \<le> f64_of_int b"
  by (simp add: f64_of_int_def f64_round_mono)

lemma f64_of_int_nonneg [simp]: "0 \<le> a \<Longrightarrow> 0 \<le> f64_of_int a"
  by (simp add: f64_of_int_def f64_round_nonneg)

lemma f64_of_int_pos [simp]: "0 < a \<Longrightarrow> 0 < f64_of_int a"
  by (simp add: f64_of_int_def f64_round_pos)

lemma usage_ratio_mono:
  assumes "0 \<le> u" "u \<le> v" "0 < t"
  shows "f64_div (f64_of_int u) (f64_of_int t) \<le> f64_div (f64_of_int v) (f64_of_int t)"
    and "0 \<le> f64_div (f64_of_int u) (f64_of_int t)"
proof -
  have q: "f64_of_int u / f64_of_int t \<le> f64_of_int v / f64_of_int t"
    using assms by (intro divide_right_mono f64_of_int_mono) auto
  have p: "0 \<le> f64_of_int u / f64_of_int t" using assms by simp
  from p q show "f64_div (f64_of_int u) (f64_of_int t) \<le> f64_div (f64_of_int v) (f64_of_int t)"
    unfolding f64_div_def by (rule f64_round_mono)
  from p show "0 \<le> f64_div (f64_of_int u) (f64_of_int t)"
    unfolding f64_div_def by (rule f64_round_nonneg)
qed

lemma usage_pct_mono:
  assumes "0 \<le> u" "u \<le> v" "0 < t"
  shows "usage_pct u t \<le> usage_pct v t"
proof -
  note r = usage_ratio_mono [OF assms]
  have "f64_mul (f64_div (f64_of_int u) (f64_of_int t)) 100
      \<le> f64_mul (f64_div (f64_of_int v) (f64_of_int t)) 100"
    unfolding f64_mul_def using r by (intro f64_round_mono mult_right_mono) auto
  moreover have "0 \<le> f64_mul (f64_div (f64_of_int u) (f64_of_int t)) 100"
    unfolding f64_mul_def using r by (intro f64_round_nonneg) auto
  ultimately show ?thesis unfolding usage_pct_def by (intro f64_to_int_mono)
qed

lemma usage_pct_full: "0 < t \<Longrightarrow> usage_pct t t = 100"
proof -
  assume "0 < t"
  then have "f64_of_int t / f64_of_int t = 1" by (metis divide_self f64_of_int_pos less_irrefl)
  then show ?thesis
    using f64_to_int_of_int [of 100]
    by (simp add: usage_pct_def f64_div_def f64_mul_def hundred_exact)
qed

lemma usage_pct_0 [simp]: "usage_pct 0 t = 0"
  by (simp add: usage_pct_def f64_of_int_def f64_div_def f64_mul_def f64_to_int_def)

text \<open>Four roundings, each off by at most one part in \<open>2 ^ 53\<close>, move a percentage of at most
  100 by less than one.\<close>

abbreviation (input) ulp :: rat where "ulp \<equiv> 1 / 2 ^ 53"

lemma f64_round_between:
  assumes "0 \<le> x"
  shows "x * (1 - ulp) \<le> f64_round x" "f64_round x \<le> x * (1 + ulp)"
proof -
  have "\<bar>f64_round x - x\<bar> \<le> x / 2 ^ 53"
    using f64_round_error [of x] assms by (cases "x = 0") auto
  then have "\<bar>f64_round x - x\<bar> \<le> x * ulp" by (simp only: times_divide_eq_right mult_1_right)
  moreover have "x * (1 - k) \<le> r \<and> r \<le> x * (1 + k)" if "\<bar>r - x\<bar> \<le> x * k" for r k :: rat
    using that by (auto simp: algebra_simps abs_le_iff)
  ultimately show "x * (1 - ulp) \<le> f64_round x" "f64_round x \<le> x * (1 + ulp)" by blast+
qed

lemma usage_pct_upper:
  assumes "0 \<le> u" "u \<le> t" "0 < t"
  shows "f64_mul (f64_div (f64_of_int u) (f64_of_int t)) 100 < of_int (100 * u) / of_int t + 1"
proof -
  let ?q = "of_int u / of_int t :: rat"
  have q: "0 \<le> ?q" "?q \<le> 1" using assms by simp_all
  have "f64_of_int u \<le> of_int u * (1 + ulp)"
    unfolding f64_of_int_def using assms by (intro f64_round_between) simp
  moreover have lt: "of_int t * (1 - ulp) \<le> f64_of_int t"
    unfolding f64_of_int_def using assms by (intro f64_round_between) simp
  ultimately have "f64_of_int u / f64_of_int t \<le> (of_int u * (1 + ulp)) / (of_int t * (1 - ulp))"
    using assms by (intro frac_le) simp_all
  also have "\<dots> = ?q * ((1 + ulp) / (1 - ulp))" by simp
  finally have a: "f64_of_int u / f64_of_int t \<le> ?q * ((1 + ulp) / (1 - ulp))" .
  have "f64_div (f64_of_int u) (f64_of_int t) \<le> f64_of_int u / f64_of_int t * (1 + ulp)"
    unfolding f64_div_def using assms by (intro f64_round_between) simp
  also have "\<dots> \<le> ?q * ((1 + ulp) / (1 - ulp)) * (1 + ulp)"
    using a by (intro mult_right_mono) simp_all
  finally have b: "f64_div (f64_of_int u) (f64_of_int t) \<le> ?q * ((1 + ulp) / (1 - ulp)) * (1 + ulp)" .
  have "f64_mul (f64_div (f64_of_int u) (f64_of_int t)) 100
      \<le> f64_div (f64_of_int u) (f64_of_int t) * 100 * (1 + ulp)"
    unfolding f64_mul_def using usage_ratio_mono(2) [OF assms]
    by (intro f64_round_between) simp
  also have "\<dots> \<le> ?q * ((1 + ulp) / (1 - ulp)) * (1 + ulp) * 100 * (1 + ulp)"
    using b by (intro mult_right_mono) simp_all
  also have "\<dots> = ?q * 100 + ?q * (((1 + ulp) / (1 - ulp)) * (1 + ulp) * 100 * (1 + ulp) - 100)"
    by (simp add: algebra_simps)
  also have "\<dots> \<le> ?q * 100 + 1 * (((1 + ulp) / (1 - ulp)) * (1 + ulp) * 100 * (1 + ulp) - 100)"
    using q by (intro add_left_mono mult_right_mono) simp_all
  also have "\<dots> < ?q * 100 + 1" by simp
  finally show ?thesis by (simp add: algebra_simps)
qed

lemma usage_pct_lower:
  assumes "0 \<le> u" "u \<le> t" "0 < t"
  shows "of_int (100 * u) / of_int t - 1 < f64_mul (f64_div (f64_of_int u) (f64_of_int t)) 100"
proof -
  let ?q = "of_int u / of_int t :: rat"
  have q: "0 \<le> ?q" "?q \<le> 1" using assms by simp_all
  have "of_int u * (1 - ulp) \<le> f64_of_int u"
    unfolding f64_of_int_def using assms by (intro f64_round_between) simp
  moreover have ut: "f64_of_int t \<le> of_int t * (1 + ulp)"
    unfolding f64_of_int_def using assms by (intro f64_round_between) simp
  ultimately have "(of_int u * (1 - ulp)) / (of_int t * (1 + ulp)) \<le> f64_of_int u / f64_of_int t"
    using assms by (intro frac_le) simp_all
  then have a: "?q * ((1 - ulp) / (1 + ulp)) \<le> f64_of_int u / f64_of_int t" by simp
  have "?q * ((1 - ulp) / (1 + ulp)) * (1 - ulp) \<le> f64_of_int u / f64_of_int t * (1 - ulp)"
    using a by (intro mult_right_mono) simp_all
  also have "\<dots> \<le> f64_div (f64_of_int u) (f64_of_int t)"
    unfolding f64_div_def using assms by (intro f64_round_between) simp
  finally have b: "?q * ((1 - ulp) / (1 + ulp)) * (1 - ulp) \<le> f64_div (f64_of_int u) (f64_of_int t)" .
  have "?q * 100 - 1 < ?q * 100 + 1 * (((1 - ulp) / (1 + ulp)) * (1 - ulp) * 100 * (1 - ulp) - 100)"
    by simp
  also have "\<dots> \<le> ?q * 100 + ?q * (((1 - ulp) / (1 + ulp)) * (1 - ulp) * 100 * (1 - ulp) - 100)"
    using q by (intro add_left_mono mult_right_mono_neg) simp_all
  also have "\<dots> = ?q * ((1 - ulp) / (1 + ulp)) * (1 - ulp) * 100 * (1 - ulp)"
    by (simp add: algebra_simps)
  also have "\<dots> \<le> f64_div (f64_of_int u) (f64_of_int t) * 100 * (1 - ulp)"
    using b by (intro mult_right_mono) simp_all
  also have "\<dots> \<le> f64_mul (f64_div (f64_of_int u) (f64_of_int t)) 100"
    unfolding f64_mul_def using usage_ratio_mono(2) [OF assms]
    by (intro f64_round_between) simp
  finally show ?thesis by (simp add: algebra_simps)
qed

lemma usage_pct_close:
  assumes "0 \<le> u" "u \<le> t" "0 < t"
  shows "\<bar>usage_pct u t - 100 * u div t\<bar> \<le> 1"
proof -
  let ?m = "f64_mul (f64_div (f64_of_int u) (f64_of_int t)) 100"
  have nn: "0 \<le> ?m"
    unfolding f64_mul_def using usage_ratio_mono(2) [OF assms] by (intro f64_round_nonneg) simp
  have fl: "\<lfloor>of_int (100 * u) / (of_int t :: rat)\<rfloor> = 100 * u div t"
    by (rule floor_divide_of_int_eq)
  have "\<lfloor>?m\<rfloor> \<le> \<lfloor>of_int (100 * u) / of_int t + (1 :: rat)\<rfloor>"
    using usage_pct_upper [OF assms] by (intro floor_mono) simp
  moreover have "\<lfloor>of_int (100 * u) / of_int t - (1 :: rat)\<rfloor> \<le> \<lfloor>?m\<rfloor>"
    using usage_pct_lower [OF assms] by (intro floor_mono) simp
  ultimately have "\<lfloor>?m\<rfloor> \<le> 100 * u div t + 1" "100 * u div t - 1 \<le> \<lfloor>?m\<rfloor>"
    using fl by simp_all
  then show ?thesis using nn by (simp add: usage_pct_def f64_to_int_def)
qed

text \<open>C40: the percentage of a disk that the alerts compare with their thresholds, computed in floating
  point and truncated, lies between 0 and 100, is 100 for a full disk, grows with the used space and
  is off by at most one percent from the exact one. It can be off: 29 of 100 bytes count as 28 percent.\<close>

theorem usage_pct_accuracy:
  assumes "0 \<le> used" "used \<le> tot" "0 < tot"
  shows "0 \<le> usage_pct used tot \<and> usage_pct used tot \<le> usage_pct tot tot \<and> usage_pct tot tot = 100 \<and>
    \<bar>usage_pct used tot - 100 * used div tot\<bar> \<le> 1 \<and> usage_pct 29 100 = 28"
proof (intro conjI)
  show "0 \<le> usage_pct used tot" using usage_pct_mono [of 0 used tot] assms by simp
  show "usage_pct used tot \<le> usage_pct tot tot" using usage_pct_mono [OF assms(1,2,3)] .
  show "usage_pct tot tot = 100" using usage_pct_full [OF assms(3)] .
  show "\<bar>usage_pct used tot - 100 * used div tot\<bar> \<le> 1" using usage_pct_close [OF assms] .
  show "usage_pct 29 100 = 28" by code_simp
qed

theorem usage_pct_accuracy_witness:
  "\<bar>usage_pct 29 100 - 29\<bar> \<le> 1 \<and> usage_pct 29 100 = 28"
  using usage_pct_accuracy [of 29 100] by simp

end
