(* ===== verification/Alert_PVE.thy ===== *)
theory Alert_PVE
  imports Alert_Base
begin

text \<open>
  The PVE evaluators of \<open>internal/service/alertengine.go\<close>: disk usage, backup errors, backup
  size, missing and unknown VMs, stale reports and heartbeats, with the swap evaluator, which
  covers PVE and PBS hosts. Each evaluator is a loop over the servers of the run; its body is a
  definition of its own returning the alerts of one server, so \<open>continue\<close> is the empty list.
\<close>

section \<open>Disk usage\<close>

definition pve_disk_storage ::
  "time \<Rightarrow> alert_data \<Rightarrow> pve_server \<Rightarrow> int \<Rightarrow> pve_storage \<Rightarrow> alert list" where
  "pve_disk_storage now d sv threshold stg =
     (if \<not> contains_str (pvest_Content stg) ''backup'' then []
      else case ad_PVEStorageInfo d (pvest_ID stg) of
        None \<Rightarrow> []
      | Some info \<Rightarrow>
          if pvesi_Total info = 0 then []
          else let pct = usage_pct (pvesi_Used info) (pvesi_Total info)
            in if pct < threshold then []
               else [zero_alert\<lparr>
                 al_ID := alert_id ''disk'' ''pve'' (pves_ID sv) ('':'' @ pvest_Storage stg),
                 al_ServerName := pves_DisplayName sv, al_ServerID := pves_ID sv,
                 al_ServerType := ''pve'',
                 al_StoreName := pvest_Storage stg,
                 al_Type := AlertTypeDisk,
                 al_Severity := alertDiskSeverity pct,
                 al_Title := ''Disco casi lleno'',
                 al_Message := show_int pct @ ''% usado ('' @ alertFmtBytes (pvesi_Used info) @
                   '' / '' @ alertFmtBytes (pvesi_Total info) @ '')'',
                 al_Value := show_int pct,
                 al_Threshold := show_int threshold @ ''%'',
                 al_DetectedAt := now\<rparr>])"

definition pve_disk_server :: "time \<Rightarrow> alert_configs \<Rightarrow> alert_data \<Rightarrow> pve_server \<Rightarrow> alert list" where
  "pve_disk_server now cfg d sv =
     (let threshold = opt_override (ac_GlobalDiskPct cfg) (pvec_DiskPct (pve_cfg cfg (pves_ID sv)))
      in if threshold = 0 then []
         else case ad_PVEReports d (pves_ID sv) of
           None \<Rightarrow> []
         | Some rep \<Rightarrow>
             concat (map (pve_disk_storage now d sv threshold) (slice (ad_PVEStorages d) (pver_ID rep))))"

definition evalPVEDisk :: "time \<Rightarrow> alert_loader \<Rightarrow> alert_configs \<Rightarrow> alert_result" where
  "evalPVEDisk now st cfg =
     with_data st cfg (\<lambda>cfg d. concat (map (pve_disk_server now cfg d) (ad_PVEServers d)))"

section \<open>Backup errors\<close>

definition title_backup_failed :: string where "title_backup_failed = ''Backup fallido''"

definition pve_job_alert :: "time \<Rightarrow> pve_server \<Rightarrow> string \<Rightarrow> alert" where
  "pve_job_alert now sv status = zero_alert\<lparr>
     al_ID := alert_id ''backup_error'' ''pve'' (pves_ID sv) [],
     al_ServerName := pves_DisplayName sv, al_ServerID := pves_ID sv, al_ServerType := ''pve'',
     al_Type := AlertTypeBackupError,
     al_Severity := AlertSeverityCritical,
     al_Title := title_backup_failed,
     al_Message := [CHR 0xC3, CHR 0x9A] @ ''ltimo job: '' @ status,
     al_DetectedAt := now\<rparr>"

definition pve_task_error ::
  "time \<Rightarrow> alert_configs \<Rightarrow> pve_server \<Rightarrow> pve_vm_alert_config list \<Rightarrow> vm_backup_config list \<Rightarrow>
   pve_backup_task \<Rightarrow> alert list" where
  "pve_task_error now cfg sv vmCfgs backupCfgs t =
     (if \<not> pveBackupStatusAlertable (pvet_Status t) then []
      else if pveVMBackupExcluded backupCfgs (pvet_VMID t) then []
      else if \<not> resolveBackupErr (pve_cfg cfg (pves_ID sv)) (findVMConfig vmCfgs (pvet_VMID t))
                 (ac_GlobalBackupErr cfg) then []
      else let name = vm_label (pvet_VMName t) (show_int (pvet_VMID t))
        in [zero_alert\<lparr>
          al_ID := alert_id ''backup_error'' ''pve'' (pves_ID sv) ('':'' @ show_int (pvet_VMID t)),
          al_ServerName := pves_DisplayName sv, al_ServerID := pves_ID sv, al_ServerType := ''pve'',
          al_VMID := pvet_VMID t, al_VMName := name,
          al_Type := AlertTypeBackupError,
          al_Severity := AlertSeverityCritical,
          al_Title := title_backup_failed,
          al_Message := name @ '': '' @ pvet_Status t,
          al_DetectedAt := now\<rparr>])"

definition pve_backup_errors_server ::
  "time \<Rightarrow> alert_configs \<Rightarrow> alert_data \<Rightarrow> pve_server \<Rightarrow> alert list" where
  "pve_backup_errors_server now cfg d sv =
     (let svCfg = pve_cfg cfg (pves_ID sv);
          vmCfgs = slice (ac_PVEVMConfigs cfg) (pves_ID sv);
          backupCfgs = slice (ad_PVEBackupConfigs d) (pves_ID sv)
      in if backupCfgs \<noteq> [] \<and> \<not> HasActiveVMBackupConfigs backupCfgs then []
         else case ad_PVEReports d (pves_ID sv) of
           None \<Rightarrow> []
         | Some rep \<Rightarrow>
             (let tasks = slice (ad_PVETasks d) (pver_ID rep);
                  status = trim_space (pver_BackupStatus rep)
              in if tasks = [] then
                   (if \<not> pveBackupStatusAlertable status then []
                    else if \<not> resolveBackupErr svCfg None (ac_GlobalBackupErr cfg) then []
                    else [pve_job_alert now sv status])
                 else
                   (let hasTaskFailure = list_ex (\<lambda>t. pveBackupStatusAlertable (pvet_Status t)) tasks
                    in concat (map (pve_task_error now cfg sv vmCfgs backupCfgs) tasks) @
                       (if \<not> hasTaskFailure \<and> pveBackupStatusAlertable status \<and>
                           resolveBackupErr svCfg None (ac_GlobalBackupErr cfg)
                        then [pve_job_alert now sv status] else []))))"

definition evalPVEBackupErrors :: "time \<Rightarrow> alert_loader \<Rightarrow> alert_configs \<Rightarrow> alert_result" where
  "evalPVEBackupErrors now st cfg =
     with_data st cfg (\<lambda>cfg d. concat (map (pve_backup_errors_server now cfg d) (ad_PVEServers d)))"

section \<open>Backup size\<close>

definition pve_task_size ::
  "time \<Rightarrow> pve_server \<Rightarrow> pve_vm_alert_config list \<Rightarrow> vm_backup_config list \<Rightarrow> pve_backup_task \<Rightarrow>
   alert list" where
  "pve_task_size now sv vmCfgs backupCfgs t =
     (if pveVMBackupExcluded backupCfgs (pvet_VMID t) then []
      else case Option.bind (findVMConfig vmCfgs (pvet_VMID t)) pvevc_MinSizeMB of
        None \<Rightarrow> []
      | Some minMB \<Rightarrow>
          (let minBytes = wrap64 (wrap64 (minMB * 1024) * 1024)
           in if pvet_Size t \<ge> minBytes then []
              else let name = vm_label (pvet_VMName t) (show_int (pvet_VMID t))
                in [zero_alert\<lparr>
                  al_ID := alert_id ''backup_size'' ''pve'' (pves_ID sv) ('':'' @ show_int (pvet_VMID t)),
                  al_ServerName := pves_DisplayName sv, al_ServerID := pves_ID sv,
                  al_ServerType := ''pve'',
                  al_VMID := pvet_VMID t, al_VMName := name,
                  al_Type := AlertTypeBackupSize,
                  al_Severity := AlertSeverityWarning,
                  al_Title := ''Backup demasiado peque'' @ [CHR 0xC3, CHR 0xB1] @ ''o'',
                  al_Message := name @ '': '' @ alertFmtBytes (pvet_Size t) @ '' (m'' @
                    [CHR 0xC3, CHR 0xAD] @ ''n. '' @ show_int minMB @ '' MB)'',
                  al_Value := alertFmtBytes (pvet_Size t),
                  al_Threshold := show_int minMB @ '' MB'',
                  al_DetectedAt := now\<rparr>]))"

definition pve_backup_size_server ::
  "time \<Rightarrow> alert_configs \<Rightarrow> alert_data \<Rightarrow> pve_server \<Rightarrow> alert list" where
  "pve_backup_size_server now cfg d sv =
     (let vmCfgs = slice (ac_PVEVMConfigs cfg) (pves_ID sv);
          backupCfgs = slice (ad_PVEBackupConfigs d) (pves_ID sv)
      in if backupCfgs \<noteq> [] \<and> \<not> HasActiveVMBackupConfigs backupCfgs then []
         else if \<not> list_ex (\<lambda>vc. pvevc_MinSizeMB vc \<noteq> None) vmCfgs then []
         else case ad_PVEReports d (pves_ID sv) of
           None \<Rightarrow> []
         | Some rep \<Rightarrow>
             concat (map (pve_task_size now sv vmCfgs backupCfgs) (slice (ad_PVETasks d) (pver_ID rep))))"

definition evalPVEBackupSize :: "time \<Rightarrow> alert_loader \<Rightarrow> alert_configs \<Rightarrow> alert_result" where
  "evalPVEBackupSize now st cfg =
     with_data st cfg (\<lambda>cfg d. concat (map (pve_backup_size_server now cfg d) (ad_PVEServers d)))"

section \<open>Stale reports\<close>

definition pve_stale_alert :: "time \<Rightarrow> pve_server \<Rightarrow> string \<Rightarrow> alert" where
  "pve_stale_alert now sv reason = zero_alert\<lparr>
     al_ID := alert_id ''pve_stale'' ''pve'' (pves_ID sv) [],
     al_ServerName := pves_DisplayName sv, al_ServerID := pves_ID sv, al_ServerType := ''pve'',
     al_Type := AlertTypePVEStale,
     al_Severity := AlertSeverityCritical,
     al_Title := ''Sin reporte'',
     al_Message := reason,
     al_DetectedAt := now\<rparr>"

definition pve_stale_server :: "time \<Rightarrow> alert_configs \<Rightarrow> alert_data \<Rightarrow> pve_server \<Rightarrow> alert list" where
  "pve_stale_server now cfg d sv =
     (let configs = slice (ad_PVEBackupConfigs d) (pves_ID sv);
          noVMs = no_vms_confirmed sv
      in if PVEStaleSuppressed configs (pve_cfg cfg (pves_ID sv)) noVMs then []
         else case ad_PVEReports d (pves_ID sv) of
           None \<Rightarrow> [pve_stale_alert now sv msg_no_reports]
         | Some rep \<Rightarrow>
             (let (stale, reason) =
                (case ac_Report cfg of
                   None \<Rightarrow> (pver_IsStale rep, pver_StaleReason rep)
                 | Some r \<Rightarrow>
                     IsStaleForLoadedPVEConfig (rs_tz r) (rs_now r) (pver_ReportedAt rep) configs
                       ((pve_cfg cfg (pves_ID sv))\<lparr>pvec_ServerID := pves_ID sv\<rparr>)
                       (ac_GlobalPVEExpectedFinishTime cfg) noVMs)
              in if \<not> stale then []
                 else [pve_stale_alert now sv (if reason = [] then ''sin reporte reciente'' else reason)]))"

definition evalPVEStale :: "time \<Rightarrow> alert_loader \<Rightarrow> alert_configs \<Rightarrow> alert_result" where
  "evalPVEStale now st cfg =
     with_data st cfg (\<lambda>cfg d. concat (map (pve_stale_server now cfg d) (ad_PVEServers d)))"

section \<open>Heartbeats\<close>

definition heartbeat_threshold :: "alert_configs \<Rightarrow> duration" where
  "heartbeat_threshold cfg = wrap64 (ac_GlobalPVEHeartbeatMinutes cfg * minute)"

definition msg_no_signal :: string where
  "msg_no_signal = ''No se recibe se'' @ [CHR 0xC3, CHR 0xB1] @ ''al del servidor''"

definition pve_heartbeat_server ::
  "time \<Rightarrow> alert_configs \<Rightarrow> alert_data \<Rightarrow> pve_server \<Rightarrow> alert list" where
  "pve_heartbeat_server now cfg d sv =
     (case ad_PVEHeartbeats d (pves_ID sv) of
        None \<Rightarrow> []
      | Some hb \<Rightarrow>
          (let age = t_sub now (hb_LastSeenAt hb)
           in if age \<le> heartbeat_threshold cfg then []
              else [zero_alert\<lparr>
                al_ID := alert_id ''pve_heartbeat'' ''pve'' (pves_ID sv) [],
                al_ServerName := pves_DisplayName sv, al_ServerID := pves_ID sv,
                al_ServerType := ''pve'',
                al_Type := AlertTypePVEHeartbeat,
                al_Severity := AlertSeverityCritical,
                al_Title := ''Servidor offline'',
                al_Message := msg_no_signal @ '' desde hace '' @ alertFmtAge age,
                al_Value := alertFmtAge age,
                al_Threshold := show_int (ac_GlobalPVEHeartbeatMinutes cfg) @ '' min'',
                al_DetectedAt := now\<rparr>]))"

definition evalPVEHeartbeat :: "time \<Rightarrow> alert_loader \<Rightarrow> alert_configs \<Rightarrow> alert_result" where
  "evalPVEHeartbeat now st cfg =
     (if ac_GlobalPVEHeartbeatMinutes cfg \<le> 0 then Inr []
      else with_data st cfg (\<lambda>cfg d. concat (map (pve_heartbeat_server now cfg d) (ad_PVEServers d))))"

section \<open>Swap\<close>

definition swap_alert :: "time \<Rightarrow> string \<Rightarrow> int \<Rightarrow> string \<Rightarrow> host_swap \<Rightarrow> alert" where
  "swap_alert now stype serverID displayName swap = zero_alert\<lparr>
     al_ID := alert_id ''swap'' stype serverID [],
     al_ServerName := displayName, al_ServerID := serverID, al_ServerType := stype,
     al_Type := AlertTypeSwap,
     al_Severity := AlertSeverityWarning,
     al_Title := ''Swap activa'',
     al_Message := hostSwapMessage (swap_Used swap) (swap_Total swap),
     al_Value := alertFmtBytes (swap_Used swap),
     al_Threshold := ''swap desactivada'',
     al_DetectedAt := now\<rparr>"

definition zero_host_swap :: host_swap where
  "zero_host_swap = \<lparr>swap_Total = 0, swap_Used = 0, swap_Enabled = False\<rparr>"

definition pve_swap_server :: "time \<Rightarrow> alert_configs \<Rightarrow> alert_data \<Rightarrow> pve_server \<Rightarrow> alert list" where
  "pve_swap_server now cfg d sv =
     (if (case ac_PVEConfigs cfg (pves_ID sv) of None \<Rightarrow> False
          | Some svCfg \<Rightarrow> pvec_SwapAlert svCfg = Some 0) then []
      else
        (let rep = ad_PVEReports d (pves_ID sv);
             reportSwap = (case rep of None \<Rightarrow> zero_host_swap
               | Some r \<Rightarrow> \<lparr>swap_Total = pver_SwapTotal r, swap_Used = pver_SwapUsed r,
                           swap_Enabled = pver_SwapEnabled r\<rparr>);
             reportTime = (case rep of None \<Rightarrow> zero_time | Some r \<Rightarrow> pver_ReportedAt r);
             (swap, known) = currentHostSwap
               (or_zero zero_server_heartbeat (ad_PVEHeartbeats d (pves_ID sv)))
               reportSwap reportTime (rep \<noteq> None)
         in if \<not> known \<or> \<not> swap_Enabled swap then []
            else [swap_alert now ''pve'' (pves_ID sv) (pves_DisplayName sv) swap]))"

definition pbs_swap_server :: "time \<Rightarrow> alert_configs \<Rightarrow> alert_data \<Rightarrow> pbs_server \<Rightarrow> alert list" where
  "pbs_swap_server now cfg d sv =
     (if (case ac_PBSConfigs cfg (pbss_ID sv) of None \<Rightarrow> False
          | Some svCfg \<Rightarrow> pbsc_SwapAlert svCfg = Some 0) then []
      else
        (let rep = ad_PBSReports d (pbss_ID sv);
             reportSwap = (case rep of None \<Rightarrow> zero_host_swap
               | Some r \<Rightarrow> \<lparr>swap_Total = pbsr_SwapTotal r, swap_Used = pbsr_SwapUsed r,
                           swap_Enabled = pbsr_SwapEnabled r\<rparr>);
             reportTime = (case rep of None \<Rightarrow> zero_time | Some r \<Rightarrow> pbsr_ReportedAt r);
             (swap, known) = currentHostSwap
               (or_zero zero_server_heartbeat (ad_PBSHeartbeats d (pbss_ID sv)))
               reportSwap reportTime (rep \<noteq> None)
         in if \<not> known \<or> \<not> swap_Enabled swap then []
            else [swap_alert now ''pbs'' (pbss_ID sv) (pbss_DisplayName sv) swap]))"

definition evalHostSwap :: "time \<Rightarrow> alert_loader \<Rightarrow> alert_configs \<Rightarrow> alert_result" where
  "evalHostSwap now st cfg =
     with_data st cfg (\<lambda>cfg d.
       concat (map (pve_swap_server now cfg d) (ad_PVEServers d)) @
       concat (map (pbs_swap_server now cfg d) (ad_PBSServers d)))"

section \<open>Missing and unknown VMs\<close>

text \<open>\<open>strconv.ParseInt(s, 10, 64)\<close> with its error dropped: 0 for a malformed number, the nearest
  bound for one out of range.\<close>

definition parse_int64 :: "string \<Rightarrow> int" where
  "parse_int64 s =
     (let (neg, ds) = (case s of
            c # r \<Rightarrow> if c = CHR ''-'' then (True, r) else if c = CHR ''+'' then (False, r) else (False, s)
          | [] \<Rightarrow> (False, []))
      in if ds = [] \<or> \<not> list_all is_digit ds then 0
         else sat64 (if neg then - int (read_nat ds) else int (read_nat ds)))"

definition pve_missing_vm_config ::
  "time \<Rightarrow> pve_server \<Rightarrow> weekday \<Rightarrow> pve_backup_task list \<Rightarrow> vm_backup_config \<Rightarrow> alert list" where
  "pve_missing_vm_config now sv jobDay tasks c =
     (if vbc_IsExcluded c \<or> \<not> VMScheduledForDay c jobDay \<or>
         vbc_VMID c \<in> set (map (\<lambda>t. show_int (pvet_VMID t)) tasks) then []
      else let name = vm_label (vbc_VMName c) (vbc_VMID c)
        in [zero_alert\<lparr>
          al_ID := alert_id ''pve_missing_vm'' ''pve'' (pves_ID sv) ('':'' @ vbc_VMID c),
          al_ServerName := pves_DisplayName sv, al_ServerID := pves_ID sv, al_ServerType := ''pve'',
          al_VMID := parse_int64 (vbc_VMID c), al_VMName := name,
          al_Type := AlertTypePVEMissingVM,
          al_Severity := AlertSeverityCritical,
          al_Title := ''VM sin backup'',
          al_Message := name @ '': no aparece en el '' @ [CHR 0xC3, CHR 0xBA] @ ''ltimo job'',
          al_DetectedAt := now\<rparr>])"

definition pve_missing_vm_server ::
  "location \<Rightarrow> time \<Rightarrow> alert_data \<Rightarrow> pve_server \<Rightarrow> alert list" where
  "pve_missing_vm_server local now d sv =
     (case ad_PVEReports d (pves_ID sv) of
        None \<Rightarrow> []
      | Some rep \<Rightarrow>
          (let tasks = slice (ad_PVETasks d) (pver_ID rep);
               configs = slice (ad_PVEBackupConfigs d) (pves_ID sv)
           in case tasks of
                [] \<Rightarrow> []
              | t0 # _ \<Rightarrow>
                  if configs = [] then []
                  else let jobDay = weekday_at local (from_unix (pvet_StartTime t0))
                    in concat (map (pve_missing_vm_config now sv jobDay tasks) configs)))"

definition evalPVEMissingVM :: "location \<Rightarrow> time \<Rightarrow> alert_loader \<Rightarrow> alert_configs \<Rightarrow> alert_result" where
  "evalPVEMissingVM local now st cfg =
     with_data st cfg (\<lambda>cfg d. concat (map (pve_missing_vm_server local now d) (ad_PVEServers d)))"

definition pve_unknown_vm_task ::
  "time \<Rightarrow> pve_server \<Rightarrow> vm_backup_config list \<Rightarrow> pve_backup_task \<Rightarrow> alert list" where
  "pve_unknown_vm_task now sv configs t =
     (if show_int (pvet_VMID t) \<in> set (map vbc_VMID configs) then []
      else let name = vm_label (pvet_VMName t) (show_int (pvet_VMID t))
        in [zero_alert\<lparr>
          al_ID := alert_id ''pve_unknown_vm'' ''pve'' (pves_ID sv) ('':'' @ show_int (pvet_VMID t)),
          al_ServerName := pves_DisplayName sv, al_ServerID := pves_ID sv, al_ServerType := ''pve'',
          al_VMID := pvet_VMID t, al_VMName := name,
          al_Type := AlertTypePVEUnknownVM,
          al_Severity := AlertSeverityWarning,
          al_Title := ''VM no contemplada'',
          al_Message := name @ '': aparece en el job pero no est'' @ [CHR 0xC3, CHR 0xA1] @
            '' en el backup config'',
          al_DetectedAt := now\<rparr>])"

definition pve_unknown_vm_server :: "time \<Rightarrow> alert_data \<Rightarrow> pve_server \<Rightarrow> alert list" where
  "pve_unknown_vm_server now d sv =
     (case ad_PVEReports d (pves_ID sv) of
        None \<Rightarrow> []
      | Some rep \<Rightarrow>
          (let tasks = slice (ad_PVETasks d) (pver_ID rep);
               configs = slice (ad_PVEBackupConfigs d) (pves_ID sv)
           in if tasks = [] then []
              else if configs = [] then []
              else concat (map (pve_unknown_vm_task now sv configs) tasks)))"

definition evalPVEUnknownVM :: "time \<Rightarrow> alert_loader \<Rightarrow> alert_configs \<Rightarrow> alert_result" where
  "evalPVEUnknownVM now st cfg =
     with_data st cfg (\<lambda>cfg d. concat (map (pve_unknown_vm_server now d) (ad_PVEServers d)))"

end
