(* ===== verification/Alert_PBS.thy ===== *)
theory Alert_PBS
  imports Alert_PVE
begin

text \<open>
  The PBS evaluators of \<open>internal/service/alertengine.go\<close>: stale server reports, heartbeats,
  datastore usage, estimated fill date, snapshot verification and failed sync or garbage
  collection tasks. \<open>quote\<close> stands for the verb \<open>%q\<close>, whose table of printable runes is not
  modelled; it only occurs inside messages.
\<close>

section \<open>Stale reports and heartbeats\<close>

definition pbs_stale_alert :: "time \<Rightarrow> pbs_server \<Rightarrow> alert" where
  "pbs_stale_alert now sv = zero_alert\<lparr>
     al_ID := alert_id ''pbs_report_stale'' ''pbs'' (pbss_ID sv) [],
     al_ServerName := pbss_DisplayName sv, al_ServerID := pbss_ID sv, al_ServerType := ''pbs'',
     al_Type := AlertTypePBSReportStale,
     al_Severity := AlertSeverityCritical,
     al_Title := ''Sin reporte'',
     al_DetectedAt := now\<rparr>"

definition pbs_report_stale_server ::
  "time \<Rightarrow> alert_configs \<Rightarrow> alert_data \<Rightarrow> pbs_server \<Rightarrow> alert list" where
  "pbs_report_stale_server now cfg d sv =
     (let staleHours = (case ac_PBSConfigs cfg (pbss_ID sv) of
            None \<Rightarrow> ac_GlobalStaleHours cfg
          | Some svCfg \<Rightarrow> opt_override (ac_GlobalStaleHours cfg) (pbsc_StaleHours svCfg))
      in if staleHours = 0 then []
         else case ad_PBSReports d (pbss_ID sv) of
           None \<Rightarrow> [(pbs_stale_alert now sv)\<lparr>al_Message := msg_no_reports\<rparr>]
         | Some rep \<Rightarrow>
             (let age = t_sub now (pbsr_ReportedAt rep)
              in if age \<le> wrap64 (staleHours * hour) then []
                 else [(pbs_stale_alert now sv)\<lparr>
                   al_Message := [CHR 0xC3, CHR 0x9A] @ ''ltimo reporte hace '' @ alertFmtAge age @
                     '' (umbral '' @ show_int staleHours @ ''h)'',
                   al_Value := alertFmtAge age,
                   al_Threshold := show_int staleHours @ ''h''\<rparr>]))"

definition evalPBSReportStale :: "time \<Rightarrow> alert_loader \<Rightarrow> alert_configs \<Rightarrow> alert_result" where
  "evalPBSReportStale now st cfg =
     with_data st cfg (\<lambda>cfg d. concat (map (pbs_report_stale_server now cfg d) (ad_PBSServers d)))"

definition pbs_heartbeat_server ::
  "time \<Rightarrow> alert_configs \<Rightarrow> alert_data \<Rightarrow> pbs_server \<Rightarrow> alert list" where
  "pbs_heartbeat_server now cfg d sv =
     (case ad_PBSHeartbeats d (pbss_ID sv) of
        None \<Rightarrow> []
      | Some hb \<Rightarrow>
          (let age = t_sub now (hb_LastSeenAt hb)
           in if age \<le> heartbeat_threshold cfg then []
              else [zero_alert\<lparr>
                al_ID := alert_id ''pbs_heartbeat'' ''pbs'' (pbss_ID sv) [],
                al_ServerName := pbss_DisplayName sv, al_ServerID := pbss_ID sv,
                al_ServerType := ''pbs'',
                al_Type := AlertTypePBSHeartbeat,
                al_Severity := AlertSeverityCritical,
                al_Title := ''Servidor offline'',
                al_Message := msg_no_signal @ '' PBS desde hace '' @ alertFmtAge age,
                al_Value := alertFmtAge age,
                al_Threshold := show_int (ac_GlobalPVEHeartbeatMinutes cfg) @ '' min'',
                al_DetectedAt := now\<rparr>]))"

definition evalPBSHeartbeat :: "time \<Rightarrow> alert_loader \<Rightarrow> alert_configs \<Rightarrow> alert_result" where
  "evalPBSHeartbeat now st cfg =
     (if ac_GlobalPVEHeartbeatMinutes cfg \<le> 0 then Inr []
      else with_data st cfg (\<lambda>cfg d. concat (map (pbs_heartbeat_server now cfg d) (ad_PBSServers d))))"

section \<open>Datastore usage\<close>

definition pbs_disk_store :: "time \<Rightarrow> pbs_server \<Rightarrow> int \<Rightarrow> pbs_store \<Rightarrow> alert list" where
  "pbs_disk_store now sv threshold ds =
     (if pbsd_Total ds = 0 then []
      else let pct = usage_pct (pbsd_Used ds) (pbsd_Total ds)
        in if pct < threshold then []
           else [zero_alert\<lparr>
             al_ID := alert_id ''disk'' ''pbs'' (pbss_ID sv) ('':'' @ pbsd_Store ds),
             al_ServerName := pbss_DisplayName sv, al_ServerID := pbss_ID sv, al_ServerType := ''pbs'',
             al_StoreName := pbsd_Store ds,
             al_Type := AlertTypeDisk,
             al_Severity := alertDiskSeverity pct,
             al_Title := ''Disco casi lleno'',
             al_Message := pbsDiskMessage pct (pbsd_Used ds) (pbsd_Total ds) (pbsd_EstimatedFullDate ds) now,
             al_Value := show_int pct,
             al_Threshold := show_int threshold @ ''%'',
             al_DetectedAt := now\<rparr>])"

definition pbs_disk_server :: "time \<Rightarrow> alert_configs \<Rightarrow> alert_data \<Rightarrow> pbs_server \<Rightarrow> alert list" where
  "pbs_disk_server now cfg d sv =
     (let threshold = opt_override (ac_GlobalDiskPct cfg) (pbsc_DiskPct (pbs_cfg cfg (pbss_ID sv)))
      in if threshold = 0 then []
         else case ad_PBSReports d (pbss_ID sv) of
           None \<Rightarrow> []
         | Some rep \<Rightarrow> concat (map (pbs_disk_store now sv threshold) (slice (ad_PBSStores d) (pbsr_ID rep))))"

definition evalPBSDisk :: "time \<Rightarrow> alert_loader \<Rightarrow> alert_configs \<Rightarrow> alert_result" where
  "evalPBSDisk now st cfg =
     with_data st cfg (\<lambda>cfg d. concat (map (pbs_disk_server now cfg d) (ad_PBSServers d)))"

section \<open>Estimated fill date\<close>

text \<open>The civil date of a day number: day of the month and month, for the layout \<open>02 Jan\<close>.\<close>

definition civil_of_day :: "int \<Rightarrow> int \<times> int" where
  "civil_of_day z0 =
     (let z = z0 + 719468;
          doe = z mod 146097;
          yoe = (doe - doe div 1460 + doe div 36524 - doe div 146096) div 365;
          doy = doe - (365 * yoe + yoe div 4 - yoe div 100);
          mp = (5 * doy + 2) div 153
      in (doy - (153 * mp + 2) div 5 + 1, if mp < 10 then mp + 3 else mp - 9))"

definition month_names :: "string list" where
  "month_names = [''Jan'', ''Feb'', ''Mar'', ''Apr'', ''May'', ''Jun'', ''Jul'', ''Aug'', ''Sep'',
     ''Oct'', ''Nov'', ''Dec'']"

definition format_day_month :: "location \<Rightarrow> time \<Rightarrow> string" where
  "format_day_month local t =
     (let (dd, mm) = civil_of_day (local_day local t) in pad2 dd @ '' '' @ month_names ! nat (mm - 1))"

definition word_dias :: string where "word_dias = '' d'' @ [CHR 0xC3, CHR 0xAD] @ ''as''"

definition pbs_fill_store ::
  "location \<Rightarrow> time \<Rightarrow> pbs_server \<Rightarrow> int \<Rightarrow> pbs_store \<Rightarrow> alert list" where
  "pbs_fill_store local now sv threshold ds =
     (if pbsd_EstimatedFullDate ds = 0 then []
      else let fullTime = from_unix (pbsd_EstimatedFullDate ds)
        in if \<not> t_after fullTime now then []
           else let daysLeft = days_left fullTime now
             in if daysLeft \<ge> threshold then []
                else [zero_alert\<lparr>
                  al_ID := alert_id ''pbs_fill'' ''pbs'' (pbss_ID sv) ('':'' @ pbsd_Store ds),
                  al_ServerName := pbss_DisplayName sv, al_ServerID := pbss_ID sv,
                  al_ServerType := ''pbs'',
                  al_StoreName := pbsd_Store ds,
                  al_Type := AlertTypePBSFill,
                  al_Severity := (if daysLeft < 7 then AlertSeverityCritical else AlertSeverityWarning),
                  al_Title := ''Disco se llena pronto'',
                  al_Message := ''Se llenar'' @ [CHR 0xC3, CHR 0xA1] @ '' en '' @ show_int daysLeft @
                    word_dias @ '' ('' @ format_day_month local fullTime @ '')'',
                  al_Value := show_int daysLeft @ word_dias,
                  al_Threshold := show_int threshold @ word_dias,
                  al_DetectedAt := now\<rparr>])"

definition pbs_fill_server ::
  "location \<Rightarrow> time \<Rightarrow> alert_configs \<Rightarrow> alert_data \<Rightarrow> pbs_server \<Rightarrow> alert list" where
  "pbs_fill_server local now cfg d sv =
     (case pbsc_DaysUntilFull (pbs_cfg cfg (pbss_ID sv)) of
        None \<Rightarrow> []
      | Some threshold \<Rightarrow>
          if threshold = 0 then []
          else case ad_PBSReports d (pbss_ID sv) of
            None \<Rightarrow> []
          | Some rep \<Rightarrow>
              concat (map (pbs_fill_store local now sv threshold) (slice (ad_PBSStores d) (pbsr_ID rep))))"

definition evalPBSFill :: "location \<Rightarrow> time \<Rightarrow> alert_loader \<Rightarrow> alert_configs \<Rightarrow> alert_result" where
  "evalPBSFill local now st cfg =
     with_data st cfg (\<lambda>cfg d. concat (map (pbs_fill_server local now cfg d) (ad_PBSServers d)))"

section \<open>Verification\<close>

definition pbs_verify_snapshot :: "time \<Rightarrow> pbs_server \<Rightarrow> pbs_store \<Rightarrow> pbs_snapshot \<Rightarrow> alert list" where
  "pbs_verify_snapshot now sv ds sn =
     (if pbsn_VerificationState sn = [] \<or> pbsn_VerificationState sn = ''ok'' then []
      else [zero_alert\<lparr>
        al_ID := alert_id ''pbs_verify'' ''pbs'' (pbss_ID sv)
          ('':'' @ pbsd_Store ds @ '':'' @ pbsn_BackupType sn @ ''/'' @ pbsn_BackupID sn),
        al_ServerName := pbss_DisplayName sv, al_ServerID := pbss_ID sv, al_ServerType := ''pbs'',
        al_StoreName := pbsd_Store ds,
        al_Type := AlertTypePBSVerify,
        al_Severity := AlertSeverityWarning,
        al_Title := ''Verificaci'' @ [CHR 0xC3, CHR 0xB3] @ ''n fallida'',
        al_Message := pbsn_BackupType sn @ ''/'' @ pbsn_BackupID sn @ '': verificaci'' @
          [CHR 0xC3, CHR 0xB3] @ ''n '' @ pbsn_VerificationState sn,
        al_Value := pbsn_VerificationState sn,
        al_DetectedAt := now\<rparr>])"

definition pbs_verify_server :: "time \<Rightarrow> alert_configs \<Rightarrow> alert_data \<Rightarrow> pbs_server \<Rightarrow> alert list" where
  "pbs_verify_server now cfg d sv =
     (if \<not> pbsc_VerifyAlert (pbs_cfg cfg (pbss_ID sv)) then []
      else case ad_PBSReports d (pbss_ID sv) of
        None \<Rightarrow> []
      | Some rep \<Rightarrow>
          concat (map (\<lambda>ds. concat (map (pbs_verify_snapshot now sv ds) (slice (ad_PBSSnapshots d) (pbsd_ID ds))))
            (slice (ad_PBSStores d) (pbsr_ID rep))))"

definition evalPBSVerify :: "time \<Rightarrow> alert_loader \<Rightarrow> alert_configs \<Rightarrow> alert_result" where
  "evalPBSVerify now st cfg =
     with_data st cfg (\<lambda>cfg d. concat (map (pbs_verify_server now cfg d) (ad_PBSServers d)))"

section \<open>Failed tasks\<close>

definition pbsTaskAlertKey :: "pbs_task \<Rightarrow> string" where
  "pbsTaskAlertKey task =
     (let key = (if pbst_JobID task = [] then pbst_Remote task @ ''-'' @ pbst_Store task else pbst_JobID task);
          key' = map (\<lambda>c. if c = CHR '':'' \<or> c = CHR ''/'' \<or> c = CHR '' '' then CHR ''_'' else c) key
      in if key' = [] then ''unknown'' else key')"

definition pbsTaskAlertID :: "string \<Rightarrow> int \<Rightarrow> pbs_task \<Rightarrow> string" where
  "pbsTaskAlertID alertType serverID task =
     alert_id alertType ''pbs'' serverID ('':'' @ pbsTaskAlertKey task)"

definition pbsTaskFailureAlert ::
  "(string \<Rightarrow> string) \<Rightarrow> pbs_task \<Rightarrow> string \<times> string \<times> string \<times> string" where
  "pbsTaskFailureAlert quote task =
     (if pbst_TaskType task = ''gc'' then
        (AlertTypePBSGCFailed, ''Garbage collection fallida'',
         ''Garbage collection datastore '' @ quote (pbst_Store task) @ '' fallida: '' @ pbst_Status task,
         pbst_Store task)
      else
        (let storeName = (if pbst_RemoteStore task \<noteq> [] then pbst_RemoteStore task else pbst_Store task);
             remote = (if pbst_Remote task = [] then pbst_JobID task else pbst_Remote task);
             datastore = (if pbst_RemoteStore task = [] then pbst_Store task else pbst_RemoteStore task)
         in (AlertTypePBSSyncFailed, ''Sincronizaci'' @ [CHR 0xC3, CHR 0xB3] @ ''n remota fallida'',
             ''Sync remote '' @ quote remote @ '' datastore '' @ quote datastore @ '' fallida: '' @
               pbst_Status task,
             storeName)))"

definition pbs_task_failure ::
  "(string \<Rightarrow> string) \<Rightarrow> time \<Rightarrow> pbs_server \<Rightarrow> pbs_task \<Rightarrow> alert list" where
  "pbs_task_failure quote now sv task =
     (if \<not> PBSTaskFailed task then []
      else case pbsTaskFailureAlert quote task of
        (alertType, title, message, storeName) \<Rightarrow>
          [zero_alert\<lparr>
            al_ID := pbsTaskAlertID alertType (pbss_ID sv) task,
            al_ServerName := pbss_DisplayName sv, al_ServerID := pbss_ID sv, al_ServerType := ''pbs'',
            al_StoreName := storeName,
            al_Type := alertType,
            al_Severity := AlertSeverityCritical,
            al_Title := title,
            al_Message := message,
            al_Value := pbst_Status task,
            al_DetectedAt := now\<rparr>])"

definition pbs_task_failures_server ::
  "(string \<Rightarrow> string) \<Rightarrow> time \<Rightarrow> alert_data \<Rightarrow> pbs_server \<Rightarrow> alert list" where
  "pbs_task_failures_server quote now d sv =
     (case ad_PBSReports d (pbss_ID sv) of
        None \<Rightarrow> []
      | Some report \<Rightarrow>
          concat (map (pbs_task_failure quote now sv) (slice (ad_PBSTasks d) (pbsr_ID report))))"

definition evalPBSTaskFailures ::
  "(string \<Rightarrow> string) \<Rightarrow> time \<Rightarrow> alert_loader \<Rightarrow> alert_configs \<Rightarrow> alert_result" where
  "evalPBSTaskFailures quote now st cfg =
     with_data st cfg (\<lambda>cfg d. concat (map (pbs_task_failures_server quote now d) (ad_PBSServers d)))"

end
