(* ===== verification/Alert_Windows.thy ===== *)
theory Alert_Windows
  imports Alert_PBS
begin

text \<open>
  The Windows evaluators of \<open>internal/service/alertengine.go\<close>: disk usage, heartbeats, disk
  health and volumes that disappeared between the last two reports.
\<close>

definition isWindowsLogicalAlertDisk :: "windows_disk \<Rightarrow> bool" where
  "isWindowsLogicalAlertDisk disk =
     (let name = trim_space (wind_Name disk);
          driveType = trim_space (to_lower (wind_DriveType disk))
      in if driveType \<noteq> [] \<and> driveType \<noteq> ''fixed'' then False
         else case name of
           [a, b] \<Rightarrow> b = CHR '':'' \<and>
             ((CHR ''A'' \<le> a \<and> a \<le> CHR ''Z'') \<or> (CHR ''a'' \<le> a \<and> a \<le> CHR ''z''))
         | _ \<Rightarrow> False)"

section \<open>Disk usage\<close>

definition windows_disk_usage :: "time \<Rightarrow> windows_server \<Rightarrow> int \<Rightarrow> windows_disk \<Rightarrow> alert list" where
  "windows_disk_usage now sv threshold disk =
     (if \<not> isWindowsLogicalAlertDisk disk then []
      else if wind_Total disk \<le> 0 then []
      else let pct = usage_pct (wind_Used disk) (wind_Total disk)
        in if pct < threshold then []
           else [zero_alert\<lparr>
             al_ID := alert_id ''disk'' ''windows'' (wins_ID sv) ('':'' @ wind_Name disk),
             al_ServerName := wins_DisplayName sv, al_ServerID := wins_ID sv,
             al_ServerType := ''windows'',
             al_StoreName := wind_Name disk,
             al_Type := AlertTypeDisk,
             al_Severity := AlertSeverityCritical,
             al_Title := ''Disco casi lleno'',
             al_Message := wind_Name disk @ '' al '' @ show_int pct @ ''% ('' @
               alertFmtBytes (wind_Free disk) @ '' libre)'',
             al_Value := show_int pct @ ''%'',
             al_Threshold := show_int threshold @ ''%'',
             al_DetectedAt := now\<rparr>])"

definition windows_disk_server ::
  "time \<Rightarrow> alert_configs \<Rightarrow> alert_data \<Rightarrow> windows_server \<Rightarrow> alert list" where
  "windows_disk_server now cfg d sv =
     (let threshold = (case ac_WindowsConfigs cfg (wins_ID sv) of
            None \<Rightarrow> ac_GlobalWindowsDiskPct cfg
          | Some svCfg \<Rightarrow> opt_override (ac_GlobalWindowsDiskPct cfg) (winc_DiskPct svCfg))
      in if threshold \<le> 0 then []
         else case slice (ad_WindowsReports d) (wins_ID sv) of
           [] \<Rightarrow> []
         | r0 # _ \<Rightarrow>
             concat (map (windows_disk_usage now sv threshold) (slice (ad_WindowsDisks d) (winr_ID r0))))"

definition evalWindowsDisk :: "time \<Rightarrow> alert_loader \<Rightarrow> alert_configs \<Rightarrow> alert_result" where
  "evalWindowsDisk now st cfg =
     with_data st cfg (\<lambda>cfg d. concat (map (windows_disk_server now cfg d) (ad_WindowsServers d)))"

section \<open>Heartbeats\<close>

definition windows_last_seen :: "alert_data \<Rightarrow> windows_server \<Rightarrow> time" where
  "windows_last_seen d sv =
     (let lastSeen = (case ad_WindowsHeartbeats d (wins_ID sv) of
            None \<Rightarrow> zero_time | Some hb \<Rightarrow> hb_LastSeenAt hb)
      in if is_zero lastSeen then
           (case slice (ad_WindowsReports d) (wins_ID sv) of
              [] \<Rightarrow> lastSeen
            | r0 # _ \<Rightarrow> winr_ReportedAt r0)
         else lastSeen)"

definition windows_heartbeat_server ::
  "time \<Rightarrow> alert_configs \<Rightarrow> alert_data \<Rightarrow> windows_server \<Rightarrow> alert list" where
  "windows_heartbeat_server now cfg d sv =
     (let lastSeen = windows_last_seen d sv
      in if is_zero lastSeen then []
         else let age = t_sub now lastSeen
           in if age \<le> heartbeat_threshold cfg then []
              else [zero_alert\<lparr>
                al_ID := alert_id ''windows_heartbeat'' ''windows'' (wins_ID sv) [],
                al_ServerName := wins_DisplayName sv, al_ServerID := wins_ID sv,
                al_ServerType := ''windows'',
                al_Type := AlertTypeWindowsHeartbeat,
                al_Severity := AlertSeverityCritical,
                al_Title := ''Servidor offline'',
                al_Message := ''No se recibe senal del servidor Windows desde hace '' @ alertFmtAge age,
                al_Value := alertFmtAge age,
                al_Threshold := show_int (ac_GlobalPVEHeartbeatMinutes cfg) @ '' min'',
                al_DetectedAt := now\<rparr>])"

definition evalWindowsHeartbeat :: "time \<Rightarrow> alert_loader \<Rightarrow> alert_configs \<Rightarrow> alert_result" where
  "evalWindowsHeartbeat now st cfg =
     (if ac_GlobalPVEHeartbeatMinutes cfg \<le> 0 then Inr []
      else with_data st cfg
        (\<lambda>cfg d. concat (map (windows_heartbeat_server now cfg d) (ad_WindowsServers d))))"

section \<open>Disk health\<close>

definition windows_disk_health_alert :: "time \<Rightarrow> windows_server \<Rightarrow> windows_disk \<Rightarrow> alert list" where
  "windows_disk_health_alert now sv disk =
     (if \<not> isWindowsLogicalAlertDisk disk then []
      else let health = trim_space (to_lower (wind_Health disk))
        in if health = [] \<or> health = ''ok'' \<or> health = ''healthy'' \<or> health = ''normal'' then []
           else [zero_alert\<lparr>
             al_ID := alert_id ''windows_disk_health'' ''windows'' (wins_ID sv) ('':'' @ wind_Name disk),
             al_ServerName := wins_DisplayName sv, al_ServerID := wins_ID sv,
             al_ServerType := ''windows'',
             al_StoreName := wind_Name disk,
             al_Type := AlertTypeWindowsDiskHealth,
             al_Severity := AlertSeverityCritical,
             al_Title := ''Salud de disco'',
             al_Message := wind_Name disk @ '' informa estado '' @ wind_Health disk,
             al_Value := wind_Health disk,
             al_DetectedAt := now\<rparr>])"

definition windows_disk_health_server :: "time \<Rightarrow> alert_data \<Rightarrow> windows_server \<Rightarrow> alert list" where
  "windows_disk_health_server now d sv =
     (case slice (ad_WindowsReports d) (wins_ID sv) of
        [] \<Rightarrow> []
      | r0 # _ \<Rightarrow>
          concat (map (windows_disk_health_alert now sv) (slice (ad_WindowsDisks d) (winr_ID r0))))"

definition evalWindowsDiskHealth :: "time \<Rightarrow> alert_loader \<Rightarrow> alert_configs \<Rightarrow> alert_result" where
  "evalWindowsDiskHealth now st cfg =
     with_data st cfg (\<lambda>cfg d. concat (map (windows_disk_health_server now d) (ad_WindowsServers d)))"

section \<open>Missing volumes\<close>

definition volume_name :: "windows_disk \<Rightarrow> string" where
  "volume_name disk = to_upper (trim_space (wind_Name disk))"

definition windows_missing_volume ::
  "time \<Rightarrow> windows_server \<Rightarrow> string list \<Rightarrow> windows_disk \<Rightarrow> alert list" where
  "windows_missing_volume now sv currentNames disk =
     (if \<not> isWindowsLogicalAlertDisk disk then []
      else let name = volume_name disk
        in if name \<in> set currentNames then []
           else [zero_alert\<lparr>
             al_ID := alert_id ''windows_volume_missing'' ''windows'' (wins_ID sv) ('':'' @ name),
             al_ServerName := wins_DisplayName sv, al_ServerID := wins_ID sv,
             al_ServerType := ''windows'',
             al_StoreName := name,
             al_Type := AlertTypeWindowsVolumeGone,
             al_Severity := AlertSeverityCritical,
             al_Title := ''Volumen no detectado'',
             al_Message := name @ '' aparec'' @ [CHR 0xC3, CHR 0xAD] @
               ''a en el reporte anterior y no aparece en el '' @ [CHR 0xC3, CHR 0xBA] @ ''ltimo reporte'',
             al_Value := name,
             al_DetectedAt := now\<rparr>])"

definition windows_missing_volume_server :: "time \<Rightarrow> alert_data \<Rightarrow> windows_server \<Rightarrow> alert list" where
  "windows_missing_volume_server now d sv =
     (case slice (ad_WindowsReports d) (wins_ID sv) of
        r0 # r1 # _ \<Rightarrow>
          (let current = slice (ad_WindowsDisks d) (winr_ID r0);
               previous = slice (ad_WindowsDisks d) (winr_ID r1);
               currentNames = map volume_name (filter isWindowsLogicalAlertDisk current)
           in concat (map (windows_missing_volume now sv currentNames) previous))
      | _ \<Rightarrow> [])"

definition evalWindowsMissingVolume :: "time \<Rightarrow> alert_loader \<Rightarrow> alert_configs \<Rightarrow> alert_result" where
  "evalWindowsMissingVolume now st cfg =
     with_data st cfg (\<lambda>cfg d. concat (map (windows_missing_volume_server now d) (ad_WindowsServers d)))"

end
