(* ===== verification/Mute_Store.thy ===== *)
theory Mute_Store
  imports Domain_Format
begin

text \<open>
  Windows in which alerts are muted: the maintenance windows of servers
  (\<open>internal/store/maintenance.go\<close>) and the suppressions of single alerts
  (\<open>internal/store/suppressions.go\<close>). Both tables hold an expiry in whole seconds and a reason per
  key, and both promise the same contract, the locale \<open>mute_windows\<close>.

  A row of an SQL table is an entry of an association list keyed by the table's primary key.
\<close>

section \<open>Rows\<close>

record mute_row =
  mr_until :: int
  mr_reason :: string

type_synonym maintenance_table = "(string \<times> int, mute_row) table"
type_synonym suppression_table = "(string, mute_row) table"

section \<open>Server maintenance\<close>

definition ServerMaintenanceKey :: "string \<Rightarrow> int \<Rightarrow> string" where
  "ServerMaintenanceKey serverType serverID = serverType @ '':'' @ show_int serverID"

definition UpsertServerMaintenance ::
  "string \<Rightarrow> int \<Rightarrow> time \<Rightarrow> string \<Rightarrow> maintenance_table \<Rightarrow> maintenance_table" where
  "UpsertServerMaintenance serverType serverID until reason =
     tbl_put (trim_space serverType, serverID) \<lparr>mr_until = unix until, mr_reason = trim_space reason\<rparr>"

definition DeleteServerMaintenance :: "string \<Rightarrow> int \<Rightarrow> maintenance_table \<Rightarrow> maintenance_table" where
  "DeleteServerMaintenance serverType serverID = tbl_del (serverType, serverID)"

definition scanServerMaintenance :: "time \<Rightarrow> (string \<times> int) \<times> mute_row \<Rightarrow> server_maintenance" where
  "scanServerMaintenance now row =
     (case row of ((serverType, serverID), r) \<Rightarrow>
        \<lparr>sm_ServerType = serverType, sm_ServerID = serverID, sm_Until = from_unix (mr_until r),
         sm_Reason = mr_reason r, sm_Active = t_after (from_unix (mr_until r)) now\<rparr>)"

definition GetServerMaintenance ::
  "time \<Rightarrow> string \<Rightarrow> int \<Rightarrow> maintenance_table \<Rightarrow> server_maintenance option" where
  "GetServerMaintenance now serverType serverID t =
     map_option (\<lambda>r. scanServerMaintenance now ((serverType, serverID), r))
       (tbl_get t (serverType, serverID))"

text \<open>The query keeps the rows that expire after the current second, the loop those still active.\<close>

definition GetActiveServerMaintenances ::
  "time \<Rightarrow> maintenance_table \<Rightarrow> (string, server_maintenance) table" where
  "GetActiveServerMaintenances now t =
     foldl (\<lambda>out m. if sm_Active m then tbl_put (ServerMaintenanceKey (sm_ServerType m) (sm_ServerID m)) m out
                    else out)
       [] (map (scanServerMaintenance now) (filter (\<lambda>(_, r). mr_until r > unix now) t))"

section \<open>Alert suppressions\<close>

definition UpsertAlertSuppression ::
  "string \<Rightarrow> time \<Rightarrow> string \<Rightarrow> suppression_table \<Rightarrow> suppression_table" where
  "UpsertAlertSuppression alertID until reason = tbl_put alertID \<lparr>mr_until = unix until, mr_reason = reason\<rparr>"

definition DeleteAlertSuppression :: "string \<Rightarrow> suppression_table \<Rightarrow> suppression_table" where
  "DeleteAlertSuppression alertID = tbl_del alertID"

definition GetActiveSuppressions :: "time \<Rightarrow> suppression_table \<Rightarrow> (string, time) table" where
  "GetActiveSuppressions now t =
     foldl (\<lambda>result (i, r). tbl_put i (from_unix (mr_until r)) result)
       [] (filter (\<lambda>(_, r). mr_until r > unix now) t)"

record alert_suppression =
  as_AlertID :: string
  as_Until :: time
  as_Reason :: string
  as_Active :: bool

definition GetAlertSuppression :: "time \<Rightarrow> string \<Rightarrow> suppression_table \<Rightarrow> alert_suppression option" where
  "GetAlertSuppression now alertID t =
     map_option (\<lambda>r. \<lparr>as_AlertID = alertID, as_Until = from_unix (mr_until r), as_Reason = mr_reason r,
                     as_Active = t_after (from_unix (mr_until r)) now\<rparr>)
       (tbl_get t alertID)"

section \<open>The contract of a table of windows\<close>

locale mute_windows =
  fixes upsert :: "'k \<Rightarrow> time \<Rightarrow> string \<Rightarrow> 's \<Rightarrow> 's"
    and delete :: "'k \<Rightarrow> 's \<Rightarrow> 's"
    and muted :: "time \<Rightarrow> 's \<Rightarrow> 'k \<Rightarrow> bool"
    and canon :: "'k \<Rightarrow> 'k"
    and ok :: "'s \<Rightarrow> bool"
  assumes ok_upsert: "ok s \<Longrightarrow> ok (upsert k until reason s)"
    and ok_delete: "ok s \<Longrightarrow> ok (delete k s)"
    and muted_upsert: "ok s \<Longrightarrow>
      muted now (upsert k until reason s) j \<longleftrightarrow> (if j = canon k then unix now < unix until else muted now s j)"
    and muted_delete: "ok s \<Longrightarrow> muted now (delete k s) j \<longleftrightarrow> j \<noteq> k \<and> muted now s j"
    and muted_expires: "ok s \<Longrightarrow> now \<le> later \<Longrightarrow> muted later s k \<Longrightarrow> muted now s k"
begin

text \<open>A window ends with the second its expiry falls in, and never mutes after its expiry.\<close>

lemma window_ends:
  assumes "ok s" "until \<le> now" shows "\<not> muted now (upsert k until reason s) (canon k)"
proof -
  have "unix until \<le> unix now" using assms(2) by (simp add: unix_def zdiv_mono1)
  then show ?thesis using assms(1) by (simp add: muted_upsert)
qed

lemma window_lasts:
  assumes "ok s" "t_add now second \<le> until" shows "muted now (upsert k until reason s) (canon k)"
  using assms unix_less_second [OF assms(2)] by (simp add: muted_upsert)

lemma last_upsert_wins:
  assumes "ok s"
  shows "muted now (upsert k u2 r2 (upsert k u1 r1 s)) j \<longleftrightarrow> muted now (upsert k u2 r2 s) j"
  using assms by (simp add: muted_upsert ok_upsert)

lemma delete_unmutes:
  assumes "ok s"
  shows "muted now (delete (canon k) (upsert k u r s)) j \<longleftrightarrow> j \<noteq> canon k \<and> muted now s j"
  using assms by (auto simp: muted_delete ok_upsert muted_upsert)

end

section \<open>The two tables keep the contract\<close>

lemma ServerMaintenanceKey_inject [simp]:
  "ServerMaintenanceKey s i = ServerMaintenanceKey t j \<longleftrightarrow> s = t \<and> i = j"
proof
  assume "ServerMaintenanceKey s i = ServerMaintenanceKey t j"
  then have "rev (s @ CHR '':'' # show_int i) = rev (t @ CHR '':'' # show_int j)"
    by (simp only: ServerMaintenanceKey_def append_Cons append_Nil)
  then have "rev (show_int i) @ CHR '':'' # rev s = rev (show_int j) @ CHR '':'' # rev t"
    by (simp only: rev_append rev.simps append_assoc append_Cons append_Nil)
  then have "rev (show_int i) = rev (show_int j) \<and> rev s = rev t"
    by (rule split_at_sep) simp_all
  then show "s = t \<and> i = j" by simp
qed simp

definition in_maintenance :: "time \<Rightarrow> maintenance_table \<Rightarrow> string \<times> int \<Rightarrow> bool" where
  "in_maintenance now t k \<longleftrightarrow>
     tbl_get (GetActiveServerMaintenances now t) (ServerMaintenanceKey (fst k) (snd k)) \<noteq> None"

definition is_suppressed :: "time \<Rightarrow> suppression_table \<Rightarrow> string \<Rightarrow> bool" where
  "is_suppressed now t i \<longleftrightarrow> tbl_get (GetActiveSuppressions now t) i \<noteq> None"

text \<open>The loop's second test, in nanoseconds, agrees with the query's, in seconds.\<close>

lemma in_maintenance_iff:
  "tbl_ok t \<Longrightarrow> in_maintenance now t k \<longleftrightarrow> (\<exists>r. tbl_get t k = Some r \<and> unix now < mr_until r)"
  unfolding in_maintenance_def GetActiveServerMaintenances_def tbl_get_foldl_put
  by (cases k) (force simp: scanServerMaintenance_def from_unix_after_iff tbl_get_in [symmetric])

lemma is_suppressed_iff:
  "tbl_ok t \<Longrightarrow> is_suppressed now t i \<longleftrightarrow> (\<exists>r. tbl_get t i = Some r \<and> unix now < mr_until r)"
  using tbl_get_foldl_put [of "\<lambda>_. True" fst "\<lambda>x. from_unix (mr_until (snd x))" "[]"
      "filter (\<lambda>(_, r). mr_until r > unix now) t" i]
  unfolding is_suppressed_def GetActiveSuppressions_def
  by (force simp: case_prod_unfold tbl_get_in [symmetric])

lemma unix_mono: "t \<le> u \<Longrightarrow> unix t \<le> unix u"
  by (simp add: unix_def zdiv_mono1)

interpretation maint: mute_windows
  "\<lambda>(s, i). UpsertServerMaintenance s i" "\<lambda>(s, i). DeleteServerMaintenance s i"
  in_maintenance "\<lambda>(s, i). (trim_space s, i)" tbl_ok
  by unfold_locales
    (auto simp: UpsertServerMaintenance_def DeleteServerMaintenance_def in_maintenance_iff tbl_simps
      split: if_splits dest: unix_mono)

interpretation supp: mute_windows
  UpsertAlertSuppression DeleteAlertSuppression is_suppressed "\<lambda>i. i" tbl_ok
  by unfold_locales
    (auto simp: UpsertAlertSuppression_def DeleteAlertSuppression_def is_suppressed_iff tbl_simps
      split: if_splits dest: unix_mono)

end
