(* ===== verification/Alert_Engine.thy ===== *)
theory Alert_Engine
  imports Alert_Windows Mute_Store
begin

text \<open>
  The alert engine of \<open>internal/service/alertengine.go\<close>: the registry of evaluators, \<open>RunAll\<close>,
  the loading of the configuration and the maintenance filter. The locale \<open>alert_evaluator\<close> is
  the contract of the type \<open>AlertEvaluator\<close>, and every registered evaluator interprets it.
\<close>

section \<open>The registry and its run\<close>

type_synonym alert_evaluator_fn = "alert_loader \<Rightarrow> alert_configs \<Rightarrow> alert_result"

definition evaluators :: "(string \<Rightarrow> string) \<Rightarrow> location \<Rightarrow> time \<Rightarrow> alert_evaluator_fn list" where
  "evaluators quote local now =
     [evalPVEDisk now,
      evalPVEBackupErrors now,
      evalPVEBackupSize now,
      evalPVEMissingVM local now,
      evalPVEUnknownVM now,
      evalPVEStale now,
      evalPVEHeartbeat now,
      evalHostSwap now,
      evalPBSReportStale now,
      evalPBSHeartbeat now,
      evalPBSDisk now,
      evalPBSFill local now,
      evalPBSVerify now,
      evalPBSTaskFailures quote now,
      evalWindowsDisk now,
      evalWindowsHeartbeat now,
      evalWindowsDiskHealth now,
      evalWindowsMissingVolume now]"

definition IsPartialAlertsError :: "alert_error option \<Rightarrow> bool" where
  "IsPartialAlertsError err = (case err of Some (PartialAlertsError _) \<Rightarrow> True | _ \<Rightarrow> False)"

text \<open>The loop of \<open>RunAll\<close>: the alerts and the evaluator errors, both in registry order.\<close>

fun run_loop ::
  "alert_evaluator_fn list \<Rightarrow> alert_loader \<Rightarrow> alert_configs \<Rightarrow> alert list \<Rightarrow> alert_error list \<Rightarrow>
   alert list \<times> alert_error list" where
  "run_loop [] st cfg all errs = (all, errs)"
| "run_loop (eval # evs) st cfg all errs =
     (case eval st cfg of
        Inl err \<Rightarrow> run_loop evs st cfg all (errs @ [err])
      | Inr alerts \<Rightarrow> run_loop evs st cfg (all @ alerts) errs)"

definition RunAll_of :: "alert_evaluator_fn list \<Rightarrow> alert_loader \<Rightarrow> alert_configs \<Rightarrow> alert list \<times> alert_error option" where
  "RunAll_of evs st cfg =
     (case ensureAlertData st cfg of
        Inl err \<Rightarrow> ([], Some err)
      | Inr cfg' \<Rightarrow>
          (case run_loop evs st cfg' [] [] of (all, evaluatorErrors) \<Rightarrow>
             (all, if evaluatorErrors \<noteq> [] then Some (PartialAlertsError evaluatorErrors) else None)))"

definition RunAll ::
  "(string \<Rightarrow> string) \<Rightarrow> location \<Rightarrow> time \<Rightarrow> alert_loader \<Rightarrow> alert_configs \<Rightarrow> alert list \<times> alert_error option" where
  "RunAll quote local now = RunAll_of (evaluators quote local now)"

section \<open>Loading the configuration\<close>

definition store_each :: "('a \<Rightarrow> int) \<Rightarrow> ('a \<Rightarrow> 'v) \<Rightarrow> 'a list \<Rightarrow> int \<rightharpoonup> 'v" where
  "store_each key val xs = foldl (\<lambda>m x. m(key x \<mapsto> val x)) Map.empty xs"

definition LoadAlertConfigs :: "alert_loader \<Rightarrow> alert_error + alert_configs" where
  "LoadAlertConfigs st =
     bind_err (q_GetEmailConfig st) (\<lambda>emailCfg.
     bind_err (loadAlertData st) (\<lambda>data.
     bind_err (q_ListPVEAlertConfigs st) (\<lambda>pveConfigs.
     bind_err (q_ListPVEVMAlertConfigs st) (\<lambda>pveVMConfigs.
     bind_err (q_ListPBSAlertConfigs st) (\<lambda>pbsConfigs.
     bind_err (q_ListWindowsAlertConfigs st) (\<lambda>windowsConfigs.
     Inr \<lparr>ac_GlobalDiskPct = ec_AlertDiskPct emailCfg,
       ac_GlobalWindowsDiskPct = ec_AlertWindowsDiskPct emailCfg,
       ac_GlobalStaleHours = ec_AlertPBSStaleHours emailCfg,
       ac_GlobalBackupErr = ec_AlertBackupErr emailCfg,
       ac_GlobalPVEExpectedFinishTime = ec_AlertPVEExpectedFinishTime emailCfg,
       ac_GlobalPVEHeartbeatMinutes = ec_AlertPVEHeartbeatMinutes emailCfg,
       ac_Report = None,
       ac_PVEConfigs = store_each pves_ID
         (\<lambda>sv. (or_zero zero_pve_alert_config (map_of pveConfigs (pves_ID sv)))\<lparr>pvec_ServerID := pves_ID sv\<rparr>)
         (ad_PVEServers data),
       ac_PVEVMConfigs = store_each pves_ID (\<lambda>sv. or_zero [] (map_of pveVMConfigs (pves_ID sv)))
         (ad_PVEServers data),
       ac_PBSConfigs = store_each pbss_ID
         (\<lambda>sv. (case map_of pbsConfigs (pbss_ID sv) of
                  Some svCfg \<Rightarrow> svCfg
                | None \<Rightarrow> zero_pbs_alert_config\<lparr>pbsc_VerifyAlert := True\<rparr>)\<lparr>pbsc_ServerID := pbss_ID sv\<rparr>)
         (ad_PBSServers data),
       ac_WindowsConfigs = store_each wins_ID
         (\<lambda>sv. (or_zero zero_windows_alert_config (map_of windowsConfigs (wins_ID sv)))\<lparr>winc_ServerID := wins_ID sv\<rparr>)
         (ad_WindowsServers data),
       ac_Data = Some data\<rparr>))))))"

definition CurrentAlertsRaw ::
  "(string \<Rightarrow> string) \<Rightarrow> location \<Rightarrow> time \<Rightarrow> alert_loader \<Rightarrow> report_service option \<Rightarrow>
   alert list \<times> alert_error option" where
  "CurrentAlertsRaw quote local now st rep =
     (case LoadAlertConfigs st of
        Inl err \<Rightarrow> ([], Some err)
      | Inr cfg \<Rightarrow> RunAll quote local now st (cfg\<lparr>ac_Report := rep\<rparr>))"

section \<open>The maintenance filter\<close>

text \<open>\<open>mt\<close> is the outcome of reading the maintenance table, whose error leaves the alerts as they are.\<close>

definition FilterMaintenanceAlerts ::
  "time \<Rightarrow> alert_error + maintenance_table \<Rightarrow> alert list \<Rightarrow> alert list" where
  "FilterMaintenanceAlerts now mt alerts =
     (if alerts = [] then alerts
      else case mt of
        Inl _ \<Rightarrow> alerts
      | Inr t \<Rightarrow>
          (let maintenance = GetActiveServerMaintenances now t
           in if maintenance = [] then alerts
              else filter (\<lambda>alert. tbl_get maintenance
                     (ServerMaintenanceKey (al_ServerType alert) (al_ServerID alert)) = None) alerts))"

definition CurrentAlerts ::
  "(string \<Rightarrow> string) \<Rightarrow> location \<Rightarrow> time \<Rightarrow> alert_loader \<Rightarrow> alert_error + maintenance_table \<Rightarrow>
   report_service option \<Rightarrow> alert_error + alert list" where
  "CurrentAlerts quote local now st mt rep =
     (case CurrentAlertsRaw quote local now st rep of
        (alerts, err) \<Rightarrow>
          (case err of
             Some e \<Rightarrow> if IsPartialAlertsError err then Inr (FilterMaintenanceAlerts now mt alerts) else Inl e
           | None \<Rightarrow> Inr (FilterMaintenanceAlerts now mt alerts)))"

section \<open>What every alert satisfies\<close>

text \<open>The server an alert names: a registered one of the right kind, with its display name.\<close>

definition registered :: "alert_data \<Rightarrow> string \<Rightarrow> int \<Rightarrow> string \<Rightarrow> bool" where
  "registered d stype i name \<longleftrightarrow>
     (stype = ''pve'' \<and> (i, name) \<in> (\<lambda>sv. (pves_ID sv, pves_DisplayName sv)) ` set (ad_PVEServers d)) \<or>
     (stype = ''pbs'' \<and> (i, name) \<in> (\<lambda>sv. (pbss_ID sv, pbss_DisplayName sv)) ` set (ad_PBSServers d)) \<or>
     (stype = ''windows'' \<and> (i, name) \<in> (\<lambda>sv. (wins_ID sv, wins_DisplayName sv)) ` set (ad_WindowsServers d))"

definition has_alert_id :: "alert \<Rightarrow> bool" where
  "has_alert_id a \<longleftrightarrow> has_prefix (al_ID a) (alert_id (al_Type a) (al_ServerType a) (al_ServerID a) [])"

definition raised_for :: "time \<Rightarrow> string set \<Rightarrow> alert_data \<Rightarrow> alert \<Rightarrow> bool" where
  "raised_for now kinds d a \<longleftrightarrow>
     registered d (al_ServerType a) (al_ServerID a) (al_ServerName a) \<and>
     al_Type a \<in> kinds \<and>
     (al_Severity a = AlertSeverityCritical \<or> al_Severity a = AlertSeverityWarning) \<and>
     has_alert_id a \<and>
     al_DetectedAt a = now"

lemma raised_for_mono: "raised_for now K d a \<Longrightarrow> K \<subseteq> L \<Longrightarrow> raised_for now L d a"
  by (auto simp: raised_for_def)

lemma alert_id_prefix [simp]: "has_prefix (alert_id k s i r) (alert_id k s i [])"
  by (simp add: has_prefix_def alert_id_def)

lemma ensureAlertData_data:
  "ensureAlertData st cfg = Inr cfg' \<Longrightarrow> \<exists>d. ac_Data cfg' = Some d"
  by (auto simp: ensureAlertData_def bind_err_Inr split: option.splits)

text \<open>The contract of an evaluator: it fails only when the data cannot be loaded, and every alert
  it returns is about a registered server.\<close>

locale alert_evaluator =
  fixes eval :: alert_evaluator_fn
    and now :: time
    and kinds :: "string set"
  assumes eval_fails: "eval st cfg = Inl e \<Longrightarrow> ensureAlertData st cfg = Inl e"
    and eval_raises: "\<lbrakk>ensureAlertData st cfg = Inr cfg'; ac_Data cfg' = Some d; eval st cfg = Inr alerts;
                       a \<in> set alerts\<rbrakk> \<Longrightarrow> raised_for now kinds d a"
begin

lemma eval_loaded:
  assumes "ac_Data cfg = Some d"
  obtains alerts where "eval st cfg = Inr alerts" "\<And>a. a \<in> set alerts \<Longrightarrow> raised_for now kinds d a"
proof (cases "eval st cfg")
  case (Inl e)
  then show ?thesis using eval_fails [OF Inl] assms by (simp add: ensureAlertData_def)
next
  case (Inr alerts)
  then show ?thesis using that eval_raises [of st cfg cfg d alerts] assms
    by (simp add: ensureAlertData_def)
qed

end

text \<open>A registry of evaluators that keep the contract.\<close>

locale alert_registry =
  fixes evs :: "alert_evaluator_fn list"
    and now :: time
    and kinds :: "string set"
  assumes members: "eval \<in> set evs \<Longrightarrow> \<exists>K \<subseteq> kinds. alert_evaluator eval now K"
begin

lemma member_loaded:
  assumes "eval \<in> set evs" "ac_Data cfg = Some d"
  obtains alerts where "eval st cfg = Inr alerts" "\<And>a. a \<in> set alerts \<Longrightarrow> raised_for now kinds d a"
proof -
  obtain K where K: "K \<subseteq> kinds" "alert_evaluator eval now K" using members assms(1) by blast
  then show ?thesis
    by (meson alert_evaluator.eval_loaded assms(2) raised_for_mono that)
qed

lemma run_loop_members:
  assumes "ac_Data cfg = Some d" "set es \<subseteq> set evs"
  shows "run_loop es st cfg all errs = (all @ concat (map (\<lambda>eval. projr (eval st cfg)) es), errs)"
  using assms(2)
proof (induction es arbitrary: all)
  case (Cons eval es)
  then have "eval \<in> set evs" by simp
  then obtain alerts where "eval st cfg = Inr alerts" using assms(1) by (rule member_loaded)
  then show ?case using Cons by simp
qed simp

lemma RunAll_of_loaded:
  assumes "ensureAlertData st cfg = Inr cfg'"
  shows "RunAll_of evs st cfg = (concat (map (\<lambda>eval. projr (eval st cfg')) evs), None)"
proof -
  obtain d where "ac_Data cfg' = Some d" using ensureAlertData_data [OF assms] by blast
  then show ?thesis using assms run_loop_members [of cfg' d evs st "[]" "[]"]
    by (simp add: RunAll_of_def)
qed

lemma RunAll_of_raised:
  assumes "ensureAlertData st cfg = Inr cfg'" "ac_Data cfg' = Some d"
    and "a \<in> set (fst (RunAll_of evs st cfg))"
  shows "raised_for now kinds d a"
proof -
  from assms(3) obtain eval where e: "eval \<in> set evs" "a \<in> set (projr (eval st cfg'))"
    by (auto simp: RunAll_of_loaded [OF assms(1)])
  obtain alerts where "eval st cfg' = Inr alerts" "\<And>a. a \<in> set alerts \<Longrightarrow> raised_for now kinds d a"
    using member_loaded [OF e(1) assms(2), of st] by blast
  then show ?thesis using e(2) by simp
qed

end

section \<open>Every registered evaluator keeps the contract\<close>

text \<open>An evaluator that is a loop over the data keeps the contract when its body does.\<close>

lemma with_data_evaluator:
  assumes eval: "\<And>st cfg. eval st cfg = with_data st cfg body"
    and body: "\<And>cfg d a. a \<in> set (body cfg d) \<Longrightarrow> raised_for now kinds d a"
  shows "alert_evaluator eval now kinds"
proof
  show "ensureAlertData st cfg = Inl e" if "eval st cfg = Inl e" for st cfg e
  proof (cases "ensureAlertData st cfg")
    case (Inr cfg')
    then show ?thesis using that ensureAlertData_data [OF Inr] by (auto simp: eval with_data_def)
  qed (use that in \<open>simp add: eval with_data_def\<close>)
  show "raised_for now kinds d a"
    if "ensureAlertData st cfg = Inr cfg'" "ac_Data cfg' = Some d" "eval st cfg = Inr alerts"
      "a \<in> set alerts" for st cfg cfg' d alerts a
    using that by (auto simp: eval with_data_def intro: body)
qed

text \<open>An evaluator behind a switch keeps the contract too.\<close>

lemma guarded_evaluator:
  assumes eval: "\<And>st cfg. eval st cfg = (if P cfg then Inr [] else with_data st cfg body)"
    and body: "\<And>cfg d a. a \<in> set (body cfg d) \<Longrightarrow> raised_for now kinds d a"
  shows "alert_evaluator eval now kinds"
proof -
  note w = with_data_evaluator [of "\<lambda>st cfg. with_data st cfg body", OF refl body]
  show ?thesis
    by unfold_locales
      (auto simp: eval split: if_splits intro: alert_evaluator.eval_fails [OF w] alert_evaluator.eval_raises [OF w])
qed

text \<open>The part of the contract an alert keeps whatever the data: the server it was raised for.\<close>

definition about :: "time \<Rightarrow> string set \<Rightarrow> string \<Rightarrow> int \<Rightarrow> string \<Rightarrow> alert \<Rightarrow> bool" where
  "about now kinds stype i name a \<longleftrightarrow>
     al_ServerType a = stype \<and> al_ServerID a = i \<and> al_ServerName a = name \<and> al_Type a \<in> kinds \<and>
     (al_Severity a = AlertSeverityCritical \<or> al_Severity a = AlertSeverityWarning) \<and>
     has_alert_id a \<and> al_DetectedAt a = now"

lemma about_raised: "about now kinds stype i name a \<Longrightarrow> registered d stype i name \<Longrightarrow> raised_for now kinds d a"
  by (simp add: about_def raised_for_def)

lemma list_all_concat_map [intro!]: "(\<And>x. list_all P (f x)) \<Longrightarrow> list_all P (concat (map f xs))"
  by (induction xs) simp_all

text \<open>A loop over the servers of one kind raises alerts about registered servers.\<close>

lemma pve_loop:
  assumes "\<And>sv. list_all (about now K ''pve'' (pves_ID sv) (pves_DisplayName sv)) (body sv)"
    and "a \<in> set (concat (map body (ad_PVEServers d)))"
  shows "raised_for now K d a"
proof -
  obtain sv where sv: "sv \<in> set (ad_PVEServers d)" "a \<in> set (body sv)" using assms(2) by auto
  then have "registered d ''pve'' (pves_ID sv) (pves_DisplayName sv)" by (auto simp: registered_def)
  moreover have "about now K ''pve'' (pves_ID sv) (pves_DisplayName sv) a"
    using assms(1) [of sv] sv(2) by (simp add: list_all_iff)
  ultimately show ?thesis by (rule about_raised [rotated])
qed

lemma pbs_loop:
  assumes "\<And>sv. list_all (about now K ''pbs'' (pbss_ID sv) (pbss_DisplayName sv)) (body sv)"
    and "a \<in> set (concat (map body (ad_PBSServers d)))"
  shows "raised_for now K d a"
proof -
  obtain sv where sv: "sv \<in> set (ad_PBSServers d)" "a \<in> set (body sv)" using assms(2) by auto
  then have "registered d ''pbs'' (pbss_ID sv) (pbss_DisplayName sv)" by (auto simp: registered_def)
  moreover have "about now K ''pbs'' (pbss_ID sv) (pbss_DisplayName sv) a"
    using assms(1) [of sv] sv(2) by (simp add: list_all_iff)
  ultimately show ?thesis by (rule about_raised [rotated])
qed

lemma windows_loop:
  assumes "\<And>sv. list_all (about now K ''windows'' (wins_ID sv) (wins_DisplayName sv)) (body sv)"
    and "a \<in> set (concat (map body (ad_WindowsServers d)))"
  shows "raised_for now K d a"
proof -
  obtain sv where sv: "sv \<in> set (ad_WindowsServers d)" "a \<in> set (body sv)" using assms(2) by auto
  then have "registered d ''windows'' (wins_ID sv) (wins_DisplayName sv)" by (auto simp: registered_def)
  moreover have "about now K ''windows'' (wins_ID sv) (wins_DisplayName sv) a"
    using assms(1) [of sv] sv(2) by (simp add: list_all_iff)
  ultimately show ?thesis by (rule about_raised [rotated])
qed

text \<open>The alerts of one item: a storage, a task, a VM, a datastore, a snapshot or a disk.\<close>

lemmas about_defs = about_def has_alert_id_def Let_def

lemma about_pve_disk_storage [intro!]:
  "list_all (about now {AlertTypeDisk} ''pve'' (pves_ID sv) (pves_DisplayName sv)) (pve_disk_storage now d sv threshold stg)"
  by (simp add: pve_disk_storage_def alertDiskSeverity_def about_defs split: option.split)

lemma about_pve_task_error [intro!]:
  "list_all (about now {AlertTypeBackupError} ''pve'' (pves_ID sv) (pves_DisplayName sv)) (pve_task_error now cfg sv vmCfgs backupCfgs t)"
  by (simp add: pve_task_error_def about_defs split: option.split)

lemma about_pve_task_size [intro!]:
  "list_all (about now {AlertTypeBackupSize} ''pve'' (pves_ID sv) (pves_DisplayName sv)) (pve_task_size now sv vmCfgs backupCfgs t)"
  by (simp add: pve_task_size_def about_defs split: option.split)

lemma about_pve_missing_vm_config [intro!]:
  "list_all (about now {AlertTypePVEMissingVM} ''pve'' (pves_ID sv) (pves_DisplayName sv)) (pve_missing_vm_config now sv jobDay tasks c)"
  by (simp add: pve_missing_vm_config_def about_defs split: option.split)

lemma about_pve_unknown_vm_task [intro!]:
  "list_all (about now {AlertTypePVEUnknownVM} ''pve'' (pves_ID sv) (pves_DisplayName sv)) (pve_unknown_vm_task now sv configs t)"
  by (simp add: pve_unknown_vm_task_def about_defs split: option.split)

lemma about_pbs_disk_store [intro!]:
  "list_all (about now {AlertTypeDisk} ''pbs'' (pbss_ID sv) (pbss_DisplayName sv)) (pbs_disk_store now sv threshold ds)"
  by (simp add: pbs_disk_store_def alertDiskSeverity_def about_defs split: option.split)

lemma about_pbs_fill_store [intro!]:
  "list_all (about now {AlertTypePBSFill} ''pbs'' (pbss_ID sv) (pbss_DisplayName sv)) (pbs_fill_store local now sv threshold ds)"
  by (simp add: pbs_fill_store_def about_defs split: option.split)

lemma about_pbs_verify_snapshot [intro!]:
  "list_all (about now {AlertTypePBSVerify} ''pbs'' (pbss_ID sv) (pbss_DisplayName sv)) (pbs_verify_snapshot now sv ds sn)"
  by (simp add: pbs_verify_snapshot_def about_defs split: option.split)

lemma about_windows_disk_usage [intro!]:
  "list_all (about now {AlertTypeDisk} ''windows'' (wins_ID sv) (wins_DisplayName sv)) (windows_disk_usage now sv threshold disk)"
  by (simp add: windows_disk_usage_def about_defs split: option.split)

lemma about_windows_disk_health_alert [intro!]:
  "list_all (about now {AlertTypeWindowsDiskHealth} ''windows'' (wins_ID sv) (wins_DisplayName sv)) (windows_disk_health_alert now sv disk)"
  by (simp add: windows_disk_health_alert_def about_defs split: option.split)

lemma about_windows_missing_volume [intro!]:
  "list_all (about now {AlertTypeWindowsVolumeGone} ''windows'' (wins_ID sv) (wins_DisplayName sv)) (windows_missing_volume now sv names disk)"
  by (simp add: windows_missing_volume_def about_defs split: option.split)

lemma about_pve_job_alert [simp]:
  "about now {AlertTypeBackupError} ''pve'' (pves_ID sv) (pves_DisplayName sv) (pve_job_alert now sv status)"
  by (simp add: pve_job_alert_def about_defs)

lemma about_pve_stale_alert [simp]:
  "about now {AlertTypePVEStale} ''pve'' (pves_ID sv) (pves_DisplayName sv) (pve_stale_alert now sv reason)"
  by (simp add: pve_stale_alert_def about_defs)

lemma about_swap_alert [simp]: "about now {AlertTypeSwap} stype i name (swap_alert now stype i name swap)"
  by (simp add: swap_alert_def about_defs)

lemma about_pbs_task_failure [intro!]:
  "list_all (about now {AlertTypePBSSyncFailed, AlertTypePBSGCFailed} ''pbs'' (pbss_ID sv) (pbss_DisplayName sv))
     (pbs_task_failure quote now sv task)"
  by (simp add: pbs_task_failure_def pbsTaskFailureAlert_def pbsTaskAlertID_def about_defs)

text \<open>The alerts of one server.\<close>

lemma about_pve_disk_server:
  "list_all (about now {AlertTypeDisk} ''pve'' (pves_ID sv) (pves_DisplayName sv)) (pve_disk_server now cfg d sv)"
  by (auto simp: pve_disk_server_def Let_def  split: option.split list.split prod.split)

lemma about_pve_backup_errors_server:
  "list_all (about now {AlertTypeBackupError} ''pve'' (pves_ID sv) (pves_DisplayName sv)) (pve_backup_errors_server now cfg d sv)"
  by (auto simp: pve_backup_errors_server_def Let_def  split: option.split list.split prod.split)

lemma about_pve_backup_size_server:
  "list_all (about now {AlertTypeBackupSize} ''pve'' (pves_ID sv) (pves_DisplayName sv)) (pve_backup_size_server now cfg d sv)"
  by (auto simp: pve_backup_size_server_def Let_def  split: option.split list.split prod.split)

lemma about_pve_missing_vm_server:
  "list_all (about now {AlertTypePVEMissingVM} ''pve'' (pves_ID sv) (pves_DisplayName sv)) (pve_missing_vm_server local now d sv)"
  by (auto simp: pve_missing_vm_server_def Let_def  split: option.split list.split prod.split)

lemma about_pve_unknown_vm_server:
  "list_all (about now {AlertTypePVEUnknownVM} ''pve'' (pves_ID sv) (pves_DisplayName sv)) (pve_unknown_vm_server now d sv)"
  by (auto simp: pve_unknown_vm_server_def Let_def  split: option.split list.split prod.split)

lemma about_pve_stale_server:
  "list_all (about now {AlertTypePVEStale} ''pve'' (pves_ID sv) (pves_DisplayName sv)) (pve_stale_server now cfg d sv)"
  by (auto simp: pve_stale_server_def Let_def  split: option.split list.split prod.split)

lemma about_pve_heartbeat_server:
  "list_all (about now {AlertTypePVEHeartbeat} ''pve'' (pves_ID sv) (pves_DisplayName sv)) (pve_heartbeat_server now cfg d sv)"
  by (auto simp: pve_heartbeat_server_def Let_def about_defs split: option.split list.split prod.split)

lemma about_pve_swap_server:
  "list_all (about now {AlertTypeSwap} ''pve'' (pves_ID sv) (pves_DisplayName sv)) (pve_swap_server now cfg d sv)"
  by (auto simp: pve_swap_server_def Let_def  split: option.split list.split prod.split)

lemma about_pbs_swap_server:
  "list_all (about now {AlertTypeSwap} ''pbs'' (pbss_ID sv) (pbss_DisplayName sv)) (pbs_swap_server now cfg d sv)"
  by (auto simp: pbs_swap_server_def Let_def  split: option.split list.split prod.split)

lemma about_pbs_report_stale_server:
  "list_all (about now {AlertTypePBSReportStale} ''pbs'' (pbss_ID sv) (pbss_DisplayName sv)) (pbs_report_stale_server now cfg d sv)"
  by (auto simp: pbs_report_stale_server_def Let_def pbs_stale_alert_def about_defs split: option.split list.split prod.split)

lemma about_pbs_heartbeat_server:
  "list_all (about now {AlertTypePBSHeartbeat} ''pbs'' (pbss_ID sv) (pbss_DisplayName sv)) (pbs_heartbeat_server now cfg d sv)"
  by (auto simp: pbs_heartbeat_server_def Let_def about_defs split: option.split list.split prod.split)

lemma about_pbs_disk_server:
  "list_all (about now {AlertTypeDisk} ''pbs'' (pbss_ID sv) (pbss_DisplayName sv)) (pbs_disk_server now cfg d sv)"
  by (auto simp: pbs_disk_server_def Let_def  split: option.split list.split prod.split)

lemma about_pbs_fill_server:
  "list_all (about now {AlertTypePBSFill} ''pbs'' (pbss_ID sv) (pbss_DisplayName sv)) (pbs_fill_server local now cfg d sv)"
  by (auto simp: pbs_fill_server_def Let_def  split: option.split list.split prod.split)

lemma about_pbs_verify_server:
  "list_all (about now {AlertTypePBSVerify} ''pbs'' (pbss_ID sv) (pbss_DisplayName sv)) (pbs_verify_server now cfg d sv)"
  by (auto simp: pbs_verify_server_def Let_def  split: option.split list.split prod.split)

lemma about_pbs_task_failures_server:
  "list_all (about now {AlertTypePBSSyncFailed, AlertTypePBSGCFailed} ''pbs'' (pbss_ID sv) (pbss_DisplayName sv)) (pbs_task_failures_server quote now d sv)"
  by (auto simp: pbs_task_failures_server_def Let_def  split: option.split list.split prod.split)

lemma about_windows_disk_server:
  "list_all (about now {AlertTypeDisk} ''windows'' (wins_ID sv) (wins_DisplayName sv)) (windows_disk_server now cfg d sv)"
  by (auto simp: windows_disk_server_def Let_def  split: option.split list.split prod.split)

lemma about_windows_heartbeat_server:
  "list_all (about now {AlertTypeWindowsHeartbeat} ''windows'' (wins_ID sv) (wins_DisplayName sv)) (windows_heartbeat_server now cfg d sv)"
  by (auto simp: windows_heartbeat_server_def Let_def about_defs split: option.split list.split prod.split)

lemma about_windows_disk_health_server:
  "list_all (about now {AlertTypeWindowsDiskHealth} ''windows'' (wins_ID sv) (wins_DisplayName sv)) (windows_disk_health_server now d sv)"
  by (auto simp: windows_disk_health_server_def Let_def  split: option.split list.split prod.split)

lemma about_windows_missing_volume_server:
  "list_all (about now {AlertTypeWindowsVolumeGone} ''windows'' (wins_ID sv) (wins_DisplayName sv)) (windows_missing_volume_server now d sv)"
  by (auto simp: windows_missing_volume_server_def Let_def  split: option.split list.split prod.split)

text \<open>The eighteen evaluators.\<close>

interpretation pve_disk: alert_evaluator "evalPVEDisk now" now "{AlertTypeDisk}" for now
  by (rule with_data_evaluator [OF evalPVEDisk_def]) (erule pve_loop [rotated], rule about_pve_disk_server)

interpretation pve_backup_errors: alert_evaluator "evalPVEBackupErrors now" now "{AlertTypeBackupError}" for now
  by (rule with_data_evaluator [OF evalPVEBackupErrors_def]) (erule pve_loop [rotated], rule about_pve_backup_errors_server)

interpretation pve_backup_size: alert_evaluator "evalPVEBackupSize now" now "{AlertTypeBackupSize}" for now
  by (rule with_data_evaluator [OF evalPVEBackupSize_def]) (erule pve_loop [rotated], rule about_pve_backup_size_server)

interpretation pve_missing_vm: alert_evaluator "evalPVEMissingVM local now" now "{AlertTypePVEMissingVM}" for local now
  by (rule with_data_evaluator [OF evalPVEMissingVM_def]) (erule pve_loop [rotated], rule about_pve_missing_vm_server)

interpretation pve_unknown_vm: alert_evaluator "evalPVEUnknownVM now" now "{AlertTypePVEUnknownVM}" for now
  by (rule with_data_evaluator [OF evalPVEUnknownVM_def]) (erule pve_loop [rotated], rule about_pve_unknown_vm_server)

interpretation pve_stale: alert_evaluator "evalPVEStale now" now "{AlertTypePVEStale}" for now
  by (rule with_data_evaluator [OF evalPVEStale_def]) (erule pve_loop [rotated], rule about_pve_stale_server)

interpretation pve_heartbeat: alert_evaluator "evalPVEHeartbeat now" now "{AlertTypePVEHeartbeat}" for now
  by (rule guarded_evaluator [OF evalPVEHeartbeat_def]) (erule pve_loop [rotated], rule about_pve_heartbeat_server)

interpretation pbs_report_stale: alert_evaluator "evalPBSReportStale now" now "{AlertTypePBSReportStale}" for now
  by (rule with_data_evaluator [OF evalPBSReportStale_def]) (erule pbs_loop [rotated], rule about_pbs_report_stale_server)

interpretation pbs_heartbeat: alert_evaluator "evalPBSHeartbeat now" now "{AlertTypePBSHeartbeat}" for now
  by (rule guarded_evaluator [OF evalPBSHeartbeat_def]) (erule pbs_loop [rotated], rule about_pbs_heartbeat_server)

interpretation pbs_disk: alert_evaluator "evalPBSDisk now" now "{AlertTypeDisk}" for now
  by (rule with_data_evaluator [OF evalPBSDisk_def]) (erule pbs_loop [rotated], rule about_pbs_disk_server)

interpretation pbs_fill: alert_evaluator "evalPBSFill local now" now "{AlertTypePBSFill}" for local now
  by (rule with_data_evaluator [OF evalPBSFill_def]) (erule pbs_loop [rotated], rule about_pbs_fill_server)

interpretation pbs_verify: alert_evaluator "evalPBSVerify now" now "{AlertTypePBSVerify}" for now
  by (rule with_data_evaluator [OF evalPBSVerify_def]) (erule pbs_loop [rotated], rule about_pbs_verify_server)

interpretation pbs_task_failures: alert_evaluator "evalPBSTaskFailures quote now" now "{AlertTypePBSSyncFailed, AlertTypePBSGCFailed}" for quote now
  by (rule with_data_evaluator [OF evalPBSTaskFailures_def]) (erule pbs_loop [rotated], rule about_pbs_task_failures_server)

interpretation windows_disk: alert_evaluator "evalWindowsDisk now" now "{AlertTypeDisk}" for now
  by (rule with_data_evaluator [OF evalWindowsDisk_def]) (erule windows_loop [rotated], rule about_windows_disk_server)

interpretation windows_heartbeat: alert_evaluator "evalWindowsHeartbeat now" now "{AlertTypeWindowsHeartbeat}" for now
  by (rule guarded_evaluator [OF evalWindowsHeartbeat_def]) (erule windows_loop [rotated], rule about_windows_heartbeat_server)

interpretation windows_disk_health: alert_evaluator "evalWindowsDiskHealth now" now "{AlertTypeWindowsDiskHealth}" for now
  by (rule with_data_evaluator [OF evalWindowsDiskHealth_def]) (erule windows_loop [rotated], rule about_windows_disk_health_server)

interpretation windows_missing_volume: alert_evaluator "evalWindowsMissingVolume now" now "{AlertTypeWindowsVolumeGone}" for now
  by (rule with_data_evaluator [OF evalWindowsMissingVolume_def]) (erule windows_loop [rotated], rule about_windows_missing_volume_server)

interpretation host_swap: alert_evaluator "evalHostSwap now" now "{AlertTypeSwap}" for now
  by (rule with_data_evaluator [OF evalHostSwap_def])
    (auto simp del: set_concat set_map
      intro: pve_loop [OF about_pve_swap_server] pbs_loop [OF about_pbs_swap_server])

section \<open>The registry\<close>

definition alert_types :: "string list" where
  "alert_types = [AlertTypeDisk, AlertTypeBackupError, AlertTypeBackupSize, AlertTypePBSFill,
     AlertTypePBSVerify, AlertTypePBSSyncFailed, AlertTypePBSGCFailed, AlertTypePVEStale,
     AlertTypePVEHeartbeat, AlertTypePBSReportStale, AlertTypePBSHeartbeat, AlertTypePVEMissingVM,
     AlertTypePVEUnknownVM, AlertTypeSwap, AlertTypeWindowsHeartbeat, AlertTypeWindowsDiskHealth,
     AlertTypeWindowsVolumeGone]"

lemma alert_types_no_colon: "k \<in> set alert_types \<Longrightarrow> CHR '':'' \<notin> set k \<and> k \<noteq> []"
  by (auto simp: alert_types_def)

lemmas evaluator_contracts =
  pve_disk.alert_evaluator_axioms pve_backup_errors.alert_evaluator_axioms pve_backup_size.alert_evaluator_axioms
  pve_missing_vm.alert_evaluator_axioms pve_unknown_vm.alert_evaluator_axioms pve_stale.alert_evaluator_axioms
  pve_heartbeat.alert_evaluator_axioms host_swap.alert_evaluator_axioms pbs_report_stale.alert_evaluator_axioms
  pbs_heartbeat.alert_evaluator_axioms pbs_disk.alert_evaluator_axioms pbs_fill.alert_evaluator_axioms
  pbs_verify.alert_evaluator_axioms pbs_task_failures.alert_evaluator_axioms windows_disk.alert_evaluator_axioms
  windows_heartbeat.alert_evaluator_axioms windows_disk_health.alert_evaluator_axioms windows_missing_volume.alert_evaluator_axioms

lemma registry_member: "alert_evaluator eval now K \<Longrightarrow> K \<subseteq> L \<Longrightarrow> \<exists>K\<subseteq>L. alert_evaluator eval now K"
  by blast

interpretation registry: alert_registry "evaluators quote local now" now "set alert_types" for quote local now
proof
  show "\<exists>K\<subseteq>set alert_types. alert_evaluator eval now K" if "eval \<in> set (evaluators quote local now)" for eval
    using that unfolding evaluators_def list.set insert_iff empty_iff
    by (elim disjE FalseE)
      (erule ssubst, rule registry_member, rule evaluator_contracts, simp add: alert_types_def)+
qed

lemma in_RunAll:
  assumes "ensureAlertData st cfg = Inr cfg'" "eval \<in> set (evaluators quote local now)"
    and "a \<in> set (projr (eval st cfg'))"
  shows "a \<in> set (fst (RunAll quote local now st cfg))"
  using assms by (auto simp: RunAll_def registry.RunAll_of_loaded [OF assms(1)])

text \<open>One PVE server and its heartbeat, for the instances below.\<close>

definition sample_server :: pve_server where
  "sample_server = \<lparr>pves_ID = 1, pves_Name = ''pve1'', pves_DisplayName = ''pve1'', pves_IP = [],
     pves_PublicIP = [], pves_ClientVersion = [], pves_MachineID = [], pves_APIKeyID = 0,
     pves_BackupInventoryKnown = False, pves_HasBackupVMs = False, pves_IsDeleted = False,
     pves_CreatedAt = 0, pves_UpdatedAt = 0\<rparr>"

definition sample_data :: alert_data where
  "sample_data = \<lparr>ad_PVEServers = [sample_server], ad_PVEReports = Map.empty, ad_PVEStorages = Map.empty,
     ad_PVEStorageInfo = Map.empty, ad_PVETasks = Map.empty, ad_PVEBackupConfigs = Map.empty,
     ad_PVEHeartbeats = [1 \<mapsto> zero_server_heartbeat\<lparr>hb_LastSeenAt := 0\<rparr>],
     ad_PBSServers = [], ad_PBSReports = Map.empty, ad_PBSStores = Map.empty, ad_PBSSnapshots = Map.empty,
     ad_PBSTasks = Map.empty, ad_PBSHeartbeats = Map.empty, ad_WindowsServers = [],
     ad_WindowsReports = Map.empty, ad_WindowsDisks = Map.empty, ad_WindowsHeartbeats = Map.empty\<rparr>"

definition sample_configs :: alert_configs where
  "sample_configs = \<lparr>ac_GlobalDiskPct = 80, ac_GlobalWindowsDiskPct = 90, ac_GlobalStaleHours = 48,
     ac_GlobalBackupErr = True, ac_GlobalPVEExpectedFinishTime = ''08:00'', ac_GlobalPVEHeartbeatMinutes = 5,
     ac_Report = None, ac_PVEConfigs = Map.empty, ac_PVEVMConfigs = Map.empty, ac_PBSConfigs = Map.empty,
     ac_WindowsConfigs = Map.empty, ac_Data = Some sample_data\<rparr>"

lemma sample_loaded [simp]:
  "ensureAlertData st sample_configs = Inr sample_configs" "ac_Data sample_configs = Some sample_data"
  by (simp_all add: ensureAlertData_def sample_configs_def)

text \<open>\<open>RunAll\<close> returns an error exactly when the data of the run cannot be loaded, and then no
  alert; otherwise it returns the alerts of all registered evaluators, in registry order and with
  no evaluator failing. In particular it never returns a \<open>PartialAlertsError\<close>.\<close>

theorem RunAll_outcome:
  "RunAll quote local now st cfg =
     (case ensureAlertData st cfg of
        Inl e \<Rightarrow> ([], Some e)
      | Inr cfg' \<Rightarrow> (concat (map (\<lambda>eval. projr (eval st cfg')) (evaluators quote local now)), None))"
  using registry.RunAll_of_loaded [of st cfg]
  by (auto simp: RunAll_def RunAll_of_def split: sum.split)



end
