(* ===== verification/Alert_State.thy ===== *)
theory Alert_State
  imports Alert_Engine "HOL-Library.Multiset"
begin

text \<open>
  The persisted alert states (\<open>internal/store/alert_state.go\<close>, and the delivery rows of
  \<open>internal/store/telegram.go\<close>): the tables \<open>alert_states\<close>, \<open>alert_state_events\<close> and
  \<open>telegram_alert_deliveries\<close>, the transaction that records an evaluation, the marks the
  notification channels leave, and the pruning of old history.

  A table is an association list keyed by its primary key. The database errors of the
  model are the violated constraints of the schema (\<open>internal/db/migrations\<close>); a transaction that fails leaves the database as it
  was. The loop over \<open>existing\<close>, a Go map, runs in the order of the table, which is arbitrary.
\<close>

section \<open>Tables\<close>

record alert_state =
  st_is_present :: bool
  st_severity :: string
  st_title :: string
  st_message :: string
  st_server_name :: string
  st_server_type :: string
  st_server_id :: int
  st_store_name :: string
  st_vmid :: int
  st_vm_name :: string
  st_first_seen_at :: time
  st_last_seen_at :: time
  st_updated_at :: time
  st_last_critical_email_at :: "time option"
  st_resolution_email_pending :: bool
  st_last_critical_push_at :: "time option"
  st_resolution_push_pending :: bool

record telegram_delivery =
  td_active_sent_at :: "time option"
  td_resolution_sent_at :: "time option"

record destination_row =
  dr_user_id :: int
  dr_chat_id :: string
  dr_chat_title :: string
  dr_chat_type :: string
  dr_created_at :: time
  dr_updated_at :: time

record alert_db =
  adb_states :: "(string, alert_state) table"
  adb_events :: "alert_state_event list"
  adb_next_event :: int
  adb_telegram :: "(string \<times> int, telegram_delivery) table"
  adb_destinations :: "(int, destination_row) table"
  adb_next_destination :: int

datatype db_error = UniqueViolation string | ForeignKeyViolation string

definition empty_alert_db :: alert_db where
  "empty_alert_db = \<lparr>adb_states = [], adb_events = [], adb_next_event = 1, adb_telegram = [],
     adb_destinations = [], adb_next_destination = 1\<rparr>"

section \<open>Statements\<close>

definition insertAlertState :: "alert \<Rightarrow> time \<Rightarrow> alert_db \<Rightarrow> db_error + alert_db" where
  "insertAlertState alert now db =
     (if tbl_get (adb_states db) (al_ID alert) \<noteq> None then Inl (UniqueViolation (al_ID alert))
      else Inr (db\<lparr>adb_states := tbl_put (al_ID alert)
        \<lparr>st_is_present = True, st_severity = al_Severity alert, st_title = al_Title alert,
         st_message = al_Message alert, st_server_name = al_ServerName alert,
         st_server_type = al_ServerType alert, st_server_id = al_ServerID alert,
         st_store_name = al_StoreName alert, st_vmid = al_VMID alert, st_vm_name = al_VMName alert,
         st_first_seen_at = now, st_last_seen_at = now, st_updated_at = now,
         st_last_critical_email_at = None, st_resolution_email_pending = False,
         st_last_critical_push_at = None, st_resolution_push_pending = False\<rparr>
        (adb_states db)\<rparr>))"

definition refreshed :: "alert \<Rightarrow> time \<Rightarrow> alert_state \<Rightarrow> alert_state" where
  "refreshed alert now row = row\<lparr>
     st_is_present := True, st_severity := al_Severity alert, st_title := al_Title alert,
     st_message := al_Message alert, st_server_name := al_ServerName alert,
     st_server_type := al_ServerType alert, st_server_id := al_ServerID alert,
     st_store_name := al_StoreName alert, st_vmid := al_VMID alert, st_vm_name := al_VMName alert,
     st_resolution_email_pending := False, st_resolution_push_pending := False,
     st_last_seen_at := now, st_updated_at := now\<rparr>"

text \<open>An UPDATE of the rows whose key satisfies a condition.\<close>

definition update_states ::
  "(string \<Rightarrow> alert_state \<Rightarrow> bool) \<Rightarrow> (alert_state \<Rightarrow> alert_state) \<Rightarrow> alert_db \<Rightarrow> alert_db" where
  "update_states P f db =
     db\<lparr>adb_states := tbl_mapf (\<lambda>i row. Some (if P i row then f row else row)) (adb_states db)\<rparr>"

definition updateAlertState :: "alert \<Rightarrow> time \<Rightarrow> alert_db \<Rightarrow> alert_db" where
  "updateAlertState alert now = update_states (\<lambda>i _. i = al_ID alert) (refreshed alert now)"

definition insertAlertEvent :: "time \<Rightarrow> alert_state_event \<Rightarrow> alert_db \<Rightarrow> alert_db" where
  "insertAlertEvent now entry db =
     db\<lparr>adb_events := adb_events db @
          [entry\<lparr>ev_ID := adb_next_event db, ev_CreatedAt := from_unix (unix now)\<rparr>],
        adb_next_event := adb_next_event db + 1\<rparr>"

definition InsertAlertStateEvent :: "time \<Rightarrow> alert_state_event \<Rightarrow> alert_db \<Rightarrow> alert_db" where
  "InsertAlertStateEvent now entry db = insertAlertEvent now entry db"

definition alertEventFromAlert :: "alert \<Rightarrow> string \<Rightarrow> string \<Rightarrow> alert_state_event" where
  "alertEventFromAlert alert eventType note =
     \<lparr>ev_ID = 0, ev_AlertID = al_ID alert, ev_EventType = eventType, ev_Severity = al_Severity alert,
      ev_Title = al_Title alert, ev_Message = al_Message alert, ev_ServerName = al_ServerName alert,
      ev_ServerType = al_ServerType alert, ev_ServerID = al_ServerID alert,
      ev_StoreName = al_StoreName alert, ev_VMID = al_VMID alert, ev_VMName = al_VMName alert,
      ev_Note = note, ev_CreatedAt = zero_time\<rparr>"

definition alertEventFromState :: "string \<Rightarrow> alert_state \<Rightarrow> string \<Rightarrow> string \<Rightarrow> alert_state_event" where
  "alertEventFromState alertID state eventType note =
     \<lparr>ev_ID = 0, ev_AlertID = alertID, ev_EventType = eventType, ev_Severity = st_severity state,
      ev_Title = st_title state, ev_Message = st_message state, ev_ServerName = st_server_name state,
      ev_ServerType = st_server_type state, ev_ServerID = st_server_id state,
      ev_StoreName = st_store_name state, ev_VMID = st_vmid state, ev_VMName = st_vm_name state,
      ev_Note = note, ev_CreatedAt = zero_time\<rparr>"

section \<open>Recording an evaluation\<close>

fun sync_present ::
  "time \<Rightarrow> (string, alert_state) table \<Rightarrow> alert list \<Rightarrow> alert_db \<Rightarrow> db_error + alert_db" where
  "sync_present now existing [] db = Inr db"
| "sync_present now existing (alert # alerts) db =
     (case tbl_get existing (al_ID alert) of
        None \<Rightarrow>
          bind_err (insertAlertState alert now db) (\<lambda>db1.
            sync_present now existing alerts
              (insertAlertEvent now (alertEventFromAlert alert ''appeared'' []) db1))
      | Some state \<Rightarrow>
          (let db1 = (if \<not> st_is_present state then
                 (insertAlertEvent now (alertEventFromAlert alert ''appeared'' []) db)
                   \<lparr>adb_telegram := filter (\<lambda>((i, _), _). i \<noteq> al_ID alert) (adb_telegram db)\<rparr>
               else db)
           in sync_present now existing alerts (updateAlertState alert now db1)))"

definition resolved_row :: "time \<Rightarrow> alert_state \<Rightarrow> alert_state" where
  "resolved_row now row = row\<lparr>
     st_is_present := False,
     st_resolution_email_pending :=
       (if st_last_critical_email_at row \<noteq> None \<and> st_severity row = AlertSeverityCritical then True
        else st_resolution_email_pending row),
     st_resolution_push_pending :=
       (if st_last_critical_push_at row \<noteq> None \<and> st_severity row = AlertSeverityCritical then True
        else st_resolution_push_pending row),
     st_last_critical_email_at := None,
     st_last_critical_push_at := None,
     st_updated_at := now\<rparr>"

fun sync_missing ::
  "time \<Rightarrow> bool \<Rightarrow> string set \<Rightarrow> (string, alert_state) table \<Rightarrow> alert_db \<Rightarrow> alert_db" where
  "sync_missing now resolveMissing current [] db = db"
| "sync_missing now resolveMissing current ((alertID, state) # existing) db =
     (if \<not> resolveMissing \<or> \<not> st_is_present state \<or> alertID \<in> current then
        sync_missing now resolveMissing current existing db
      else
        sync_missing now resolveMissing current existing
          (insertAlertEvent now (alertEventFromState alertID state ''resolved'' [])
            (update_states (\<lambda>i _. i = alertID) (resolved_row now) db)))"

definition syncAlertStates :: "time \<Rightarrow> alert list \<Rightarrow> bool \<Rightarrow> alert_db \<Rightarrow> db_error + alert_db" where
  "syncAlertStates now alerts resolveMissing db =
     (let existing = adb_states db
      in bind_err (sync_present now existing alerts db) (\<lambda>db1.
           Inr (sync_missing now resolveMissing (al_ID ` set alerts) existing db1)))"

definition SyncAlertStates :: "time \<Rightarrow> alert list \<Rightarrow> alert_db \<Rightarrow> db_error + alert_db" where
  "SyncAlertStates now alerts db = syncAlertStates now alerts True db"

definition SyncPartialAlertStates :: "time \<Rightarrow> alert list \<Rightarrow> alert_db \<Rightarrow> db_error + alert_db" where
  "SyncPartialAlertStates now alerts db = syncAlertStates now alerts False db"

definition SyncAlertStatesFor :: "time \<Rightarrow> alert list \<Rightarrow> alert_error option \<Rightarrow> alert_db \<Rightarrow> db_error + alert_db" where
  "SyncAlertStatesFor now alerts runErr db =
     (if IsPartialAlertsError runErr then SyncPartialAlertStates now alerts db
      else SyncAlertStates now alerts db)"

text \<open>The database after an attempt: a failed transaction is rolled back.\<close>

definition committed :: "alert_db \<Rightarrow> db_error + alert_db \<Rightarrow> alert_db" where
  "committed db r = (case r of Inl _ \<Rightarrow> db | Inr db' \<Rightarrow> db')"

section \<open>Reading the snapshot\<close>

definition type_of_id :: "string \<Rightarrow> string" where
  "type_of_id i = takeWhile (\<lambda>c. c \<noteq> CHR '':'') i"

text \<open>\<open>idx > 0\<close>: an identifier that starts with a colon keeps its whole text as its type.\<close>

definition present_type :: "string \<Rightarrow> string" where
  "present_type i = (if CHR '':'' \<in> set i \<and> type_of_id i \<noteq> [] then type_of_id i else i)"

definition alert_of_state :: "string \<Rightarrow> alert_state \<Rightarrow> alert" where
  "alert_of_state i row = zero_alert\<lparr>
     al_ID := i, al_Severity := st_severity row, al_Title := st_title row, al_Message := st_message row,
     al_ServerName := st_server_name row, al_ServerType := st_server_type row,
     al_ServerID := st_server_id row, al_StoreName := st_store_name row,
     al_VMID := st_vmid row, al_VMName := st_vm_name row\<rparr>"

definition ListPresentAlerts :: "alert_db \<Rightarrow> alert list" where
  "ListPresentAlerts db =
     map (\<lambda>(i, row). (alert_of_state i row)\<lparr>al_DetectedAt := st_last_seen_at row, al_Type := present_type i\<rparr>)
       (sort_key fst (filter (\<lambda>(_, row). st_is_present row) (adb_states db)))"

definition GetAlertStateEventInfo :: "string \<Rightarrow> alert_db \<Rightarrow> alert_state_event option" where
  "GetAlertStateEventInfo alertID db =
     map_option (\<lambda>row. alertEventFromState alertID row [] []) (tbl_get (adb_states db) alertID)"

text \<open>\<open>ORDER BY created_at DESC LIMIT n OFFSET k\<close>; equal instants keep the order of the table.\<close>

definition event_limit :: "int \<Rightarrow> int" where
  "event_limit limit = (if limit \<le> 0 \<or> limit > 500 then 100 else limit)"

definition ListAlertStateEventsPage :: "int \<Rightarrow> int \<Rightarrow> alert_db \<Rightarrow> alert_state_event list" where
  "ListAlertStateEventsPage limit offset db =
     take (nat (event_limit limit)) (drop (nat (if offset < 0 then 0 else offset))
       (sort_key (\<lambda>ev. - ev_CreatedAt ev) (adb_events db)))"

definition ListAlertStateEventsForAlert :: "string \<Rightarrow> int \<Rightarrow> alert_db \<Rightarrow> alert_state_event list" where
  "ListAlertStateEventsForAlert alertID limit db =
     take (nat (event_limit limit))
       (sort_key (\<lambda>ev. - ev_CreatedAt ev) (filter (\<lambda>ev. ev_AlertID ev = alertID) (adb_events db)))"

section \<open>The effect of the statements\<close>

definition is_present :: "alert_db \<Rightarrow> string \<Rightarrow> bool" where
  "is_present db i \<longleftrightarrow> (case tbl_get (adb_states db) i of None \<Rightarrow> False | Some row \<Rightarrow> st_is_present row)"

lemma insertAlertEvent_simps [simp]:
  "adb_states (insertAlertEvent now e db) = adb_states db"
  "adb_telegram (insertAlertEvent now e db) = adb_telegram db"
  "adb_destinations (insertAlertEvent now e db) = adb_destinations db"
  "adb_next_destination (insertAlertEvent now e db) = adb_next_destination db"
  "is_present (insertAlertEvent now e db) i = is_present db i"
  by (simp_all add: insertAlertEvent_def is_present_def)

lemma update_states_simps [simp]:
  "adb_events (update_states P f db) = adb_events db"
  "adb_next_event (update_states P f db) = adb_next_event db"
  "adb_telegram (update_states P f db) = adb_telegram db"
  "adb_destinations (update_states P f db) = adb_destinations db"
  "adb_next_destination (update_states P f db) = adb_next_destination db"
  by (simp_all add: update_states_def)

lemma get_update_states [tbl_simps]:
  "tbl_get (adb_states (update_states P f db)) i =
     map_option (\<lambda>row. if P i row then f row else row) (tbl_get (adb_states db) i)"
  by (simp add: update_states_def tbl_get_mapf_total)

lemma keys_update_states [simp]: "map fst (adb_states (update_states P f db)) = map fst (adb_states db)"
  by (simp add: update_states_def tbl_mapf_total)

text \<open>The lifecycle events, as pairs of type and alert.\<close>

definition lifecycle :: "alert_db \<Rightarrow> (string \<times> string) list" where
  "lifecycle db = map (\<lambda>ev. (ev_EventType ev, ev_AlertID ev)) (adb_events db)"

lemma lifecycle_insertAlertEvent [simp]:
  "lifecycle (insertAlertEvent now e db) = lifecycle db @ [(ev_EventType e, ev_AlertID e)]"
  by (simp add: lifecycle_def insertAlertEvent_def)

lemma lifecycle_update_states [simp]: "lifecycle (update_states P f db) = lifecycle db"
  by (simp add: lifecycle_def)

lemma lifecycle_other [simp]: "lifecycle (db\<lparr>adb_telegram := t\<rparr>) = lifecycle db"
  "lifecycle (db\<lparr>adb_states := ss\<rparr>) = lifecycle db"
  by (simp_all add: lifecycle_def)

lemma event_fields [simp]:
  "ev_EventType (alertEventFromAlert a k n) = k" "ev_AlertID (alertEventFromAlert a k n) = al_ID a"
  "ev_EventType (alertEventFromState i row k n) = k" "ev_AlertID (alertEventFromState i row k n) = i"
  by (simp_all add: alertEventFromAlert_def alertEventFromState_def)

lemma row_present [simp]:
  "st_is_present (refreshed a now row)" "\<not> st_is_present (resolved_row now row)"
  by (simp_all add: refreshed_def resolved_row_def)

section \<open>The first loop: present alerts\<close>

text \<open>The alerts with no row yet.\<close>

definition fresh_ids :: "(string, alert_state) table \<Rightarrow> alert list \<Rightarrow> string list" where
  "fresh_ids existing alerts = filter (\<lambda>i. tbl_get existing i = None) (map al_ID alerts)"

text \<open>The rows the transaction read are still there.\<close>

definition covers :: "alert_db \<Rightarrow> (string, alert_state) table \<Rightarrow> bool" where
  "covers db existing \<longleftrightarrow> (\<forall>i. tbl_get existing i \<noteq> None \<longrightarrow> tbl_get (adb_states db) i \<noteq> None)"

lemma covers_refl [simp]: "covers db (adb_states db)"
  by (simp add: covers_def)

lemma covers_simps [simp]:
  "covers (insertAlertEvent now e db) ex = covers db ex"
  "covers (db\<lparr>adb_telegram := t\<rparr>) ex = covers db ex"
  "covers (updateAlertState a now db) ex = covers db ex"
  by (simp_all add: covers_def updateAlertState_def tbl_simps)

lemma is_present_updateAlertState:
  "covers db ex \<Longrightarrow> tbl_get ex (al_ID a) \<noteq> None \<Longrightarrow>
   is_present (updateAlertState a now db) i \<longleftrightarrow> is_present db i \<or> i = al_ID a"
  by (auto simp: is_present_def updateAlertState_def covers_def tbl_simps split: option.split)

lemma get_updateAlertState:
  "tbl_get (adb_states (updateAlertState a now db)) i =
     map_option (\<lambda>row. if i = al_ID a then refreshed a now row else row) (tbl_get (adb_states db) i)"
  by (simp add: updateAlertState_def tbl_simps)

lemma is_present_telegram [simp]: "is_present (db\<lparr>adb_telegram := t\<rparr>) i = is_present db i"
  by (simp add: is_present_def)

lemma lifecycle_updateAlertState [simp]: "lifecycle (updateAlertState a now db) = lifecycle db"
  by (simp add: updateAlertState_def)

lemma insertAlertState_Inr:
  assumes "insertAlertState a now db = Inr db'"
  shows "is_present db' i \<longleftrightarrow> is_present db i \<or> i = al_ID a"
    and "lifecycle db' = lifecycle db"
    and "covers db ex \<Longrightarrow> covers db' ex"
    and "tbl_get (adb_states db') i \<noteq> None \<longleftrightarrow> tbl_get (adb_states db) i \<noteq> None \<or> i = al_ID a"
  using assms
  by (auto simp: insertAlertState_def is_present_def covers_def tbl_simps split: if_splits option.splits)

text \<open>The database before the row of an alert with a row is refreshed.\<close>

definition reappear :: "time \<Rightarrow> alert \<Rightarrow> alert_state \<Rightarrow> alert_db \<Rightarrow> alert_db" where
  "reappear now a row db =
     (if \<not> st_is_present row then
        (insertAlertEvent now (alertEventFromAlert a ''appeared'' []) db)
          \<lparr>adb_telegram := filter (\<lambda>((i, _), _). i \<noteq> al_ID a) (adb_telegram db)\<rparr>
      else db)"

lemma reappear_simps [simp]:
  "adb_states (reappear now a row db) = adb_states db"
  "is_present (reappear now a row db) i = is_present db i"
  "covers (reappear now a row db) ex = covers db ex"
  "lifecycle (reappear now a row db) =
     lifecycle db @ (if st_is_present row then [] else [(''appeared'', al_ID a)])"
  by (simp_all add: reappear_def)

lemma sync_present_Cons:
  "sync_present now existing (a # alerts) db =
     (case tbl_get existing (al_ID a) of
        None \<Rightarrow> bind_err (insertAlertState a now db) (\<lambda>db1.
          sync_present now existing alerts (insertAlertEvent now (alertEventFromAlert a ''appeared'' []) db1))
      | Some row \<Rightarrow> sync_present now existing alerts (updateAlertState a now (reappear now a row db)))"
  by (simp add: reappear_def Let_def split: option.split)

declare sync_present.simps(2) [simp del]

definition was_present :: "(string, alert_state) table \<Rightarrow> string \<Rightarrow> bool" where
  "was_present existing i \<longleftrightarrow> (case tbl_get existing i of None \<Rightarrow> False | Some row \<Rightarrow> st_is_present row)"

lemma sync_present_result:
  assumes "sync_present now existing alerts db = Inr db'" "covers db existing"
  shows "(is_present db' i \<longleftrightarrow> is_present db i \<or> i \<in> al_ID ` set alerts) \<and>
    lifecycle db' = lifecycle db @
      map (\<lambda>a. (''appeared'', al_ID a)) (filter (\<lambda>a. \<not> was_present existing (al_ID a)) alerts)"
  using assms
proof (induction alerts arbitrary: db)
  case (Cons a alerts)
  show ?case
  proof (cases "tbl_get existing (al_ID a)")
    case None
    then obtain db1 where ins: "insertAlertState a now db = Inr db1"
      and rest: "sync_present now existing alerts
        (insertAlertEvent now (alertEventFromAlert a ''appeared'' []) db1) = Inr db'"
      using Cons.prems(1) by (auto simp: sync_present_Cons bind_err_Inr)
    note step = insertAlertState_Inr [OF ins]
    show ?thesis using Cons.IH [OF rest] step(3) [OF Cons.prems(2)] None
      by (simp add: step(1,2) was_present_def)
  next
    case (Some row)
    then have rest: "sync_present now existing alerts (updateAlertState a now (reappear now a row db)) = Inr db'"
      using Cons.prems(1) by (simp add: sync_present_Cons)
    show ?thesis using Cons.IH [OF rest] Cons.prems(2) Some
      by (simp add: is_present_updateAlertState [of _ existing] was_present_def)
  qed
qed simp

text \<open>It fails exactly when two of the alerts with no row share their identifier.\<close>

lemma sync_present_fails:
  assumes "covers db existing"
  shows "(\<exists>e. sync_present now existing alerts db = Inl e) \<longleftrightarrow>
    \<not> distinct (fresh_ids existing alerts) \<or>
    (\<exists>i\<in>set (fresh_ids existing alerts). tbl_get (adb_states db) i \<noteq> None)"
  using assms
proof (induction alerts arbitrary: db)
  case (Cons a alerts)
  show ?case
  proof (cases "tbl_get existing (al_ID a)")
    case None
    then have fresh: "fresh_ids existing (a # alerts) = al_ID a # fresh_ids existing alerts"
      by (simp add: fresh_ids_def)
    show ?thesis
    proof (cases "insertAlertState a now db")
      case (Inl e)
      then show ?thesis using None by (auto simp: sync_present_Cons fresh insertAlertState_def split: if_splits)
    next
      case (Inr db1)
      note step = insertAlertState_Inr [OF Inr]
      have "tbl_get (adb_states db) (al_ID a) = None"
        using Inr by (simp add: insertAlertState_def split: if_splits)
      then show ?thesis
        using Cons.IH [of "insertAlertEvent now (alertEventFromAlert a ''appeared'' []) db1"]
          step(3) [OF Cons.prems] None
        by (simp add: sync_present_Cons fresh Inr step(4) [unfolded not_None_eq]) blast
    qed
  next
    case (Some row)
    then have "fresh_ids existing (a # alerts) = fresh_ids existing alerts"
      by (simp add: fresh_ids_def)
    then show ?thesis
      using Cons.IH [of "updateAlertState a now (reappear now a row db)"] Cons.prems Some
      by (simp add: sync_present_Cons get_updateAlertState)
  qed
qed (simp add: fresh_ids_def)

section \<open>The second loop: missing alerts\<close>

lemma is_present_resolve [simp]:
  "is_present (update_states (\<lambda>i _. i = j) (resolved_row now) db) i \<longleftrightarrow> is_present db i \<and> i \<noteq> j"
  by (auto simp: is_present_def tbl_simps split: option.split)

lemma sync_missing_present:
  "is_present (sync_missing now resolve current existing db) i \<longleftrightarrow>
     is_present db i \<and> \<not> (resolve \<and> i \<notin> current \<and> (\<exists>row. (i, row) \<in> set existing \<and> st_is_present row))"
  by (induction now resolve current existing db rule: sync_missing.induct) auto

lemma sync_missing_lifecycle:
  "lifecycle (sync_missing now resolve current existing db) = lifecycle db @
     (if resolve then map (\<lambda>(i, _). (''resolved'', i))
        (filter (\<lambda>(i, row). st_is_present row \<and> i \<notin> current) existing) else [])"
  by (induction now resolve current existing db rule: sync_missing.induct) auto

section \<open>Recording a whole evaluation\<close>

lemma was_present_states [simp]: "was_present (adb_states db) i = is_present db i"
  by (simp add: was_present_def is_present_def)

lemma present_row_in:
  "tbl_ok (adb_states db) \<Longrightarrow> (\<exists>row. (i, row) \<in> set (adb_states db) \<and> st_is_present row) \<longleftrightarrow> is_present db i"
  by (auto simp: tbl_get_in is_present_def split: option.split)

lemma sync_loops:
  assumes "syncAlertStates now alerts resolve db = Inr db'"
  obtains db1 where "sync_present now (adb_states db) alerts db = Inr db1"
    and "db' = sync_missing now resolve (al_ID ` set alerts) (adb_states db) db1"
  using assms by (auto simp: syncAlertStates_def Let_def bind_err_Inr)

lemma sync_present_ids:
  assumes "syncAlertStates now alerts resolve db = Inr db'" "tbl_ok (adb_states db)"
  shows "is_present db' i \<longleftrightarrow> i \<in> al_ID ` set alerts \<or> is_present db i \<and> \<not> resolve"
proof -
  obtain db1 where db1: "sync_present now (adb_states db) alerts db = Inr db1"
    and db': "db' = sync_missing now resolve (al_ID ` set alerts) (adb_states db) db1"
    using assms(1) by (rule sync_loops)
  show ?thesis
    using sync_present_result [OF db1 covers_refl, of i] present_row_in [OF assms(2), of i]
    by (auto simp: db' sync_missing_present)
qed

lemma sync_lifecycle:
  assumes "syncAlertStates now alerts resolve db = Inr db'"
  shows "lifecycle db' = lifecycle db @
    map (\<lambda>a. (''appeared'', al_ID a)) (filter (\<lambda>a. \<not> is_present db (al_ID a)) alerts) @
    (if resolve then map (\<lambda>(i, _). (''resolved'', i))
       (filter (\<lambda>(i, row). st_is_present row \<and> i \<notin> al_ID ` set alerts) (adb_states db)) else [])"
proof -
  obtain db1 where db1: "sync_present now (adb_states db) alerts db = Inr db1"
    and db': "db' = sync_missing now resolve (al_ID ` set alerts) (adb_states db) db1"
    using assms(1) by (rule sync_loops)
  show ?thesis
    using sync_present_result [OF db1 covers_refl] by (simp add: db' sync_missing_lifecycle)
qed

lemma sync_fails_iff:
  "(\<exists>e. syncAlertStates now alerts resolve db = Inl e) \<longleftrightarrow> \<not> distinct (fresh_ids (adb_states db) alerts)"
  using sync_present_fails [OF covers_refl, of now db alerts]
  by (auto simp: syncAlertStates_def Let_def bind_err_Inl fresh_ids_def)

text \<open>The row of an alert after an evaluation.\<close>

lemma sync_present_row_other:
  "sync_present now existing alerts db = Inr db' \<Longrightarrow> i \<notin> al_ID ` set alerts \<Longrightarrow>
   tbl_get (adb_states db') i = tbl_get (adb_states db) i"
  by (induction alerts arbitrary: db)
    (auto simp: sync_present_Cons bind_err_Inr insertAlertState_def get_updateAlertState tbl_simps
      option.map_ident split: option.splits if_splits)

lemma was_present_Cons:
  "was_present ((j, row) # t) i \<longleftrightarrow> (if i = j then st_is_present row else was_present t i)"
  by (simp add: was_present_def tbl_get_def)

lemma sync_missing_row:
  "tbl_ok existing \<Longrightarrow> tbl_get (adb_states (sync_missing now resolve current existing db)) i =
     (if resolve \<and> i \<notin> current \<and> was_present existing i
      then map_option (resolved_row now) (tbl_get (adb_states db) i) else tbl_get (adb_states db) i)"
proof (induction now resolve current existing db rule: sync_missing.induct)
  case (2 now resolve current j state existing db)
  have absent: "\<not> was_present existing j" and ok: "tbl_ok existing"
    using "2.prems" by (simp_all add: tbl_ok_def tbl_get_def was_present_def map_of_eq_None_iff split: option.split)
      (metis fst_eqD image_eqI map_of_SomeD)
  show ?case
  proof (cases "\<not> resolve \<or> \<not> st_is_present state \<or> j \<in> current")
    case True
    then show ?thesis using "2.IH"(1) [OF True ok] absent by (auto simp: was_present_Cons)
  next
    case False
    then show ?thesis using "2.IH"(2) [OF False ok] absent
      by (cases "i = j") (auto simp: was_present_Cons tbl_simps option.map_ident)
  qed
qed (simp add: was_present_def)

lemma sync_row_resolved:
  assumes "syncAlertStates now alerts resolve db = Inr db'" "tbl_ok (adb_states db)"
    and "i \<notin> al_ID ` set alerts"
  shows "tbl_get (adb_states db') i =
    (if resolve \<and> is_present db i then map_option (resolved_row now) (tbl_get (adb_states db) i)
     else tbl_get (adb_states db) i)"
proof -
  obtain db1 where db1: "sync_present now (adb_states db) alerts db = Inr db1"
    and db': "db' = sync_missing now resolve (al_ID ` set alerts) (adb_states db) db1"
    using assms(1) by (rule sync_loops)
  show ?thesis
    using sync_present_row_other [OF db1 assms(3)] assms(3) by (simp add: db' sync_missing_row [OF assms(2)])
qed

text \<open>What a row keeps of an alert: everything but the value, the threshold, the type and the date.\<close>

definition kept :: "alert \<Rightarrow> alert" where
  "kept a = a\<lparr>al_Value := [], al_Threshold := [], al_Type := [], al_DetectedAt := zero_time\<rparr>"

definition records :: "time \<Rightarrow> alert \<Rightarrow> alert_state option \<Rightarrow> bool" where
  "records now a r = (case r of None \<Rightarrow> False | Some row \<Rightarrow>
     st_is_present row \<and> st_last_seen_at row = now \<and> alert_of_state (al_ID a) row = kept a)"

lemma records_refreshed [simp]: "records now a (Some (refreshed a now row))"
  by (simp add: records_def refreshed_def alert_of_state_def kept_def zero_alert_def)

lemma records_inserted:
  "insertAlertState a now db = Inr db' \<Longrightarrow> records now a (tbl_get (adb_states db') (al_ID a))"
  by (auto simp: insertAlertState_def records_def alert_of_state_def kept_def zero_alert_def tbl_simps
      split: if_splits)

lemma sync_present_records:
  assumes "sync_present now existing alerts db = Inr db'" "covers db existing"
    and "distinct (map al_ID alerts)" "a \<in> set alerts"
  shows "records now a (tbl_get (adb_states db') (al_ID a))"
  using assms
proof (induction alerts arbitrary: db)
  case (Cons b alerts)
  obtain db1 where rest: "sync_present now existing alerts db1 = Inr db'" and cov: "covers db1 existing"
    and rec: "records now b (tbl_get (adb_states db1) (al_ID b))"
  proof (cases "tbl_get existing (al_ID b)")
    case None
    then obtain db1 where ins: "insertAlertState b now db = Inr db1"
      and "sync_present now existing alerts
        (insertAlertEvent now (alertEventFromAlert b ''appeared'' []) db1) = Inr db'"
      using Cons.prems(1) by (auto simp: sync_present_Cons bind_err_Inr)
    then show ?thesis using that insertAlertState_Inr(3) [OF ins Cons.prems(2)] records_inserted [OF ins] by simp
  next
    case (Some row)
    then obtain row' where "tbl_get (adb_states db) (al_ID b) = Some row'"
      using Cons.prems(2) by (auto simp: covers_def)
    then show ?thesis using that Cons.prems(1,2) Some
      by (simp add: sync_present_Cons get_updateAlertState)
  qed
  show ?case
  proof (cases "a = b")
    case True
    then have "al_ID a \<notin> al_ID ` set alerts" using Cons.prems(3) by simp
    then show ?thesis using sync_present_row_other [OF rest] rec True by simp
  next
    case False
    then show ?thesis using Cons.IH [OF rest cov] Cons.prems(3,4) by simp
  qed
qed simp

lemma sync_records:
  assumes "syncAlertStates now alerts resolve db = Inr db'" "tbl_ok (adb_states db)"
    and "distinct (map al_ID alerts)" "a \<in> set alerts"
  shows "records now a (tbl_get (adb_states db') (al_ID a))"
proof -
  obtain db1 where db1: "sync_present now (adb_states db) alerts db = Inr db1"
    and db': "db' = sync_missing now resolve (al_ID ` set alerts) (adb_states db) db1"
    using assms(1) by (rule sync_loops)
  show ?thesis
    using sync_present_records [OF db1 covers_refl assms(3,4)] assms(4)
    by (simp add: db' sync_missing_row [OF assms(2)])
qed

lemma tbl_ok_update_states [simp]: "tbl_ok (adb_states (update_states P f db)) \<longleftrightarrow> tbl_ok (adb_states db)"
  by (simp add: update_states_def)

lemma tbl_ok_updateAlertState [simp]:
  "tbl_ok (adb_states (updateAlertState a now db)) \<longleftrightarrow> tbl_ok (adb_states db)"
  by (simp add: updateAlertState_def)

lemma tbl_ok_sync_present:
  "sync_present now existing alerts db = Inr db' \<Longrightarrow> tbl_ok (adb_states db) \<Longrightarrow> tbl_ok (adb_states db')"
proof (induction alerts arbitrary: db)
  case (Cons a alerts)
  show ?case
  proof (cases "tbl_get existing (al_ID a)")
    case None
    then show ?thesis using Cons.prems
      by (auto simp: sync_present_Cons bind_err_Inr insertAlertState_def split: if_splits
          intro!: Cons.IH [of "insertAlertEvent now (alertEventFromAlert a ''appeared'' []) _"])
  next
    case (Some row)
    then show ?thesis using Cons by (simp add: sync_present_Cons)
  qed
qed simp

lemma tbl_ok_sync_missing [simp]:
  "tbl_ok (adb_states (sync_missing now resolve current existing db)) \<longleftrightarrow> tbl_ok (adb_states db)"
  by (induction now resolve current existing db rule: sync_missing.induct) simp_all

lemma tbl_ok_sync:
  assumes "syncAlertStates now alerts resolve db = Inr db'" "tbl_ok (adb_states db)"
  shows "tbl_ok (adb_states db')"
  using assms(1) by (rule sync_loops) (simp add: tbl_ok_sync_present [OF _ assms(2)])

lemma sync_succeeds:
  assumes "distinct (fresh_ids (adb_states db) alerts)"
  obtains db' where "syncAlertStates now alerts resolve db = Inr db'"
  using assms sync_fails_iff [of now alerts resolve db] by (cases "syncAlertStates now alerts resolve db") auto

lemmas sync_unfold = SyncAlertStates_def SyncPartialAlertStates_def

lemma present_type_alert:
  assumes "has_alert_id a" "al_Type a \<in> set alert_types"
  shows "present_type (al_ID a) = al_Type a"
proof -
  obtain r where "al_ID a = al_Type a @ CHR '':'' # r"
    using assms(1) by (auto simp: has_alert_id_def has_prefix_def alert_id_def append_eq_append_conv_if take_add)
      (metis append_Cons append_assoc append_take_drop_id)
  moreover have "takeWhile (\<lambda>c. c \<noteq> CHR '':'') (al_Type a @ CHR '':'' # r) = al_Type a"
    using alert_types_no_colon [OF assms(2)] by (subst takeWhile_append2) auto
  ultimately show ?thesis
    using alert_types_no_colon [OF assms(2)] by (simp add: present_type_def type_of_id_def)
qed

lemma read_back:
  assumes "records now a (Some row)" "has_alert_id a" "al_Type a \<in> set alert_types"
  shows "(alert_of_state (al_ID a) row)\<lparr>al_DetectedAt := st_last_seen_at row, al_Type := present_type (al_ID a)\<rparr> =
    a\<lparr>al_Value := [], al_Threshold := [], al_DetectedAt := now\<rparr>"
  using assms(1) by (simp add: records_def kept_def present_type_alert [OF assms(2,3)])

lemma map_al_ID_list_present:
  "map al_ID (ListPresentAlerts db) = map fst (sort_key fst (filter (\<lambda>(_, row). st_is_present row) (adb_states db)))"
  by (simp add: ListPresentAlerts_def alert_of_state_def case_prod_unfold)

lemma sorted_list_present:
  assumes "tbl_ok (adb_states db)"
  shows "sorted (map al_ID (ListPresentAlerts db)) \<and> distinct (map al_ID (ListPresentAlerts db))"
proof -
  let ?rows = "filter (\<lambda>(_, row). st_is_present row) (adb_states db)"
  have "distinct (map fst ?rows)" using assms by (simp add: tbl_ok_def distinct_map_filter)
  moreover have "mset (map fst (sort_key fst ?rows)) = mset (map fst ?rows)" by simp
  ultimately have "distinct (map fst (sort_key fst ?rows))" by (metis mset_eq_imp_distinct_iff)
  then show ?thesis by (simp only: map_al_ID_list_present sorted_sort_key)
qed

lemma list_present_roundtrip:
  assumes "syncAlertStates now alerts True db = Inr db'" "tbl_ok (adb_states db)"
    and "distinct (map al_ID alerts)"
    and "\<forall>a\<in>set alerts. has_alert_id a \<and> al_Type a \<in> set alert_types"
  shows "set (ListPresentAlerts db') =
      (\<lambda>a. a\<lparr>al_Value := [], al_Threshold := [], al_DetectedAt := now\<rparr>) ` set alerts \<and>
    sorted (map al_ID (ListPresentAlerts db')) \<and> distinct (map al_ID (ListPresentAlerts db'))"
proof -
  have ok: "tbl_ok (adb_states db')" using tbl_ok_sync [OF assms(1,2)] .
  have rec: "\<exists>row. tbl_get (adb_states db') (al_ID a) = Some row \<and> records now a (Some row)" if "a \<in> set alerts" for a
    using sync_records [OF assms(1-3) that] by (auto simp: records_def split: option.splits)
  have mem: "x \<in> set (ListPresentAlerts db') \<longleftrightarrow> (\<exists>i row. tbl_get (adb_states db') i = Some row \<and> st_is_present row \<and>
    x = (alert_of_state i row)\<lparr>al_DetectedAt := st_last_seen_at row, al_Type := present_type i\<rparr>)" for x
    by (auto simp: ListPresentAlerts_def tbl_get_in [OF ok, symmetric] image_iff)
  have "x \<in> set (ListPresentAlerts db') \<longleftrightarrow>
      x \<in> (\<lambda>a. a\<lparr>al_Value := [], al_Threshold := [], al_DetectedAt := now\<rparr>) ` set alerts" for x
  proof
    assume "x \<in> set (ListPresentAlerts db')"
    then obtain i row where row: "tbl_get (adb_states db') i = Some row" "st_is_present row"
      and x: "x = (alert_of_state i row)\<lparr>al_DetectedAt := st_last_seen_at row, al_Type := present_type i\<rparr>"
      using mem by blast
    then have "is_present db' i" by (simp add: is_present_def)
    then obtain a where a: "a \<in> set alerts" "i = al_ID a" using sync_present_ids [OF assms(1,2)] by auto
    then have "x = a\<lparr>al_Value := [], al_Threshold := [], al_DetectedAt := now\<rparr>"
      using rec [OF a(1)] row x read_back assms(4) by fastforce
    then show "x \<in> (\<lambda>a. a\<lparr>al_Value := [], al_Threshold := [], al_DetectedAt := now\<rparr>) ` set alerts" using a(1) by blast
  next
    assume "x \<in> (\<lambda>a. a\<lparr>al_Value := [], al_Threshold := [], al_DetectedAt := now\<rparr>) ` set alerts"
    then obtain a where a: "a \<in> set alerts" "x = a\<lparr>al_Value := [], al_Threshold := [], al_DetectedAt := now\<rparr>"
      by blast
    then obtain row where row: "tbl_get (adb_states db') (al_ID a) = Some row" "records now a (Some row)"
      using rec by blast
    then have "st_is_present row" by (simp add: records_def)
    then show "x \<in> set (ListPresentAlerts db')"
      unfolding mem using row a read_back [OF row(2)] assms(4) by metis
  qed
  then show ?thesis using sorted_list_present [OF ok] by blast
qed

text \<open>Two alerts and a database that holds the first, for the instances below.\<close>

definition sample_alert :: "int \<Rightarrow> alert" where
  "sample_alert i = zero_alert\<lparr>al_ID := alert_id ''swap'' ''pve'' i [], al_ServerType := ''pve'',
     al_ServerID := i, al_Type := AlertTypeSwap, al_Severity := AlertSeverityCritical\<rparr>"

definition sample_db :: alert_db where
  "sample_db = committed empty_alert_db (SyncAlertStates 1 [sample_alert 1] empty_alert_db)"

lemma sample_db_ok [simp]: "tbl_ok (adb_states sample_db)"
  by code_simp

lemma sample_present [simp]: "is_present sample_db (al_ID (sample_alert 1))"
  by code_simp

lemma sample_ids [simp]: "al_ID (sample_alert i) = al_ID (sample_alert j) \<longleftrightarrow> i = j"
  by (simp add: sample_alert_def alert_id_inject)

lemma sample_sync:
  obtains db' where "syncAlertStates now [sample_alert 2] resolve sample_db = Inr db'"
  by (rule sync_succeeds [of sample_db "[sample_alert 2]"]) (simp add: fresh_ids_def)

section \<open>Properties\<close>

text \<open>C1: after a complete evaluation is recorded, the alerts present in the database are exactly
  the alerts of that evaluation, whatever was present before.\<close>

theorem SyncAlertStates_present:
  assumes "SyncAlertStates now alerts db = Inr db'" "tbl_ok (adb_states db)"
  shows "is_present db' i \<longleftrightarrow> i \<in> al_ID ` set alerts"
  using sync_present_ids [OF assms(1) [unfolded sync_unfold] assms(2)] by simp

theorem SyncAlertStates_present_witness:
  "\<exists>db'. SyncAlertStates 2 [sample_alert 2] sample_db = Inr db' \<and>
     \<not> is_present db' (al_ID (sample_alert 1)) \<and> is_present db' (al_ID (sample_alert 2))"
proof -
  obtain db' where sync: "SyncAlertStates 2 [sample_alert 2] sample_db = Inr db'"
    unfolding sync_unfold by (rule sample_sync)
  then show ?thesis using SyncAlertStates_present [OF sync sample_db_ok] by simp
qed

text \<open>Recording a partial evaluation never resolves an alert: what was present stays present,
  and no \<open>resolved\<close> event is written.\<close>

theorem SyncPartialAlertStates_present:
  assumes "SyncPartialAlertStates now alerts db = Inr db'" "tbl_ok (adb_states db)"
  shows "(is_present db' i \<longleftrightarrow> is_present db i \<or> i \<in> al_ID ` set alerts) \<and>
    lifecycle db' = lifecycle db @
      map (\<lambda>a. (''appeared'', al_ID a)) (filter (\<lambda>a. \<not> is_present db (al_ID a)) alerts)"
  using sync_present_ids [OF assms(1) [unfolded sync_unfold] assms(2)]
    sync_lifecycle [OF assms(1) [unfolded sync_unfold]] by auto

theorem SyncPartialAlertStates_present_witness:
  "\<exists>db'. SyncPartialAlertStates 2 [sample_alert 2] sample_db = Inr db' \<and>
     is_present db' (al_ID (sample_alert 1)) \<and> is_present db' (al_ID (sample_alert 2))"
proof -
  obtain db' where sync: "SyncPartialAlertStates 2 [sample_alert 2] sample_db = Inr db'"
    unfolding sync_unfold by (rule sample_sync)
  then show ?thesis using SyncPartialAlertStates_present [OF sync sample_db_ok] by simp
qed

text \<open>Recording a complete evaluation writes one \<open>appeared\<close> event for each of its alerts that
  was not present and one \<open>resolved\<close> event for each present alert it lacks, and no other event.\<close>

theorem SyncAlertStates_events:
  assumes "SyncAlertStates now alerts db = Inr db'"
  shows "lifecycle db' = lifecycle db @
    map (\<lambda>a. (''appeared'', al_ID a)) (filter (\<lambda>a. \<not> is_present db (al_ID a)) alerts) @
    map (\<lambda>(i, _). (''resolved'', i))
      (filter (\<lambda>(i, row). st_is_present row \<and> i \<notin> al_ID ` set alerts) (adb_states db))"
  using sync_lifecycle [OF assms [unfolded sync_unfold]] by simp

theorem SyncAlertStates_events_witness:
  "\<exists>db'. SyncAlertStates 2 [sample_alert 2] sample_db = Inr db' \<and>
     lifecycle db' = [(''appeared'', al_ID (sample_alert 1)), (''appeared'', al_ID (sample_alert 2)),
       (''resolved'', al_ID (sample_alert 1))]"
proof -
  obtain db' where sync: "SyncAlertStates 2 [sample_alert 2] sample_db = Inr db'"
    unfolding sync_unfold by (rule sample_sync)
  have "lifecycle sample_db @
    map (\<lambda>a. (''appeared'', al_ID a)) (filter (\<lambda>a. \<not> is_present sample_db (al_ID a)) [sample_alert 2]) @
    map (\<lambda>(i, _). (''resolved'', i))
      (filter (\<lambda>(i, row). st_is_present row \<and> i \<notin> al_ID ` set [sample_alert 2]) (adb_states sample_db)) =
    [(''appeared'', al_ID (sample_alert 1)), (''appeared'', al_ID (sample_alert 2)),
       (''resolved'', al_ID (sample_alert 1))]"
    by code_simp
  then show ?thesis using sync SyncAlertStates_events [OF sync] by simp
qed

text \<open>Recording the same evaluation again succeeds, writes no event and changes which alerts
  are present in nothing.\<close>

theorem SyncAlertStates_idempotent:
  assumes "SyncAlertStates now alerts db = Inr db'" "tbl_ok (adb_states db)"
  shows "\<exists>db''. SyncAlertStates later alerts db' = Inr db'' \<and> lifecycle db'' = lifecycle db' \<and>
    (\<forall>i. is_present db'' i = is_present db' i)"
proof -
  note sync = assms(1) [unfolded sync_unfold]
  have ok: "tbl_ok (adb_states db')" using tbl_ok_sync [OF sync assms(2)] .
  have present: "is_present db' i \<longleftrightarrow> i \<in> al_ID ` set alerts" for i
    using sync_present_ids [OF sync assms(2)] by simp
  then have rows: "tbl_get (adb_states db') (al_ID a) \<noteq> None" if "a \<in> set alerts" for a
    using that by (force simp: is_present_def split: option.splits)
  then have "fresh_ids (adb_states db') alerts = []" by (auto simp: fresh_ids_def filter_empty_conv)
  then obtain db'' where again: "syncAlertStates later alerts True db' = Inr db''"
    using sync_succeeds [of db' alerts] by auto
  have "filter (\<lambda>a. \<not> is_present db' (al_ID a)) alerts = []"
    by (simp add: filter_empty_conv present)
  moreover have "filter (\<lambda>(i, row). st_is_present row \<and> i \<notin> al_ID ` set alerts) (adb_states db') = []"
    using present_row_in [OF ok] present by (fastforce simp: filter_empty_conv)
  ultimately have "lifecycle db'' = lifecycle db'" using sync_lifecycle [OF again] by simp
  moreover have "is_present db'' i = is_present db' i" for i
    using sync_present_ids [OF again ok] present by simp
  ultimately show ?thesis using again by (auto simp: sync_unfold)
qed

theorem SyncAlertStates_idempotent_witness:
  "\<exists>db' db''. SyncAlertStates 2 [sample_alert 2] sample_db = Inr db' \<and>
     SyncAlertStates 3 [sample_alert 2] db' = Inr db'' \<and> lifecycle db'' = lifecycle db'"
proof -
  obtain db' where sync: "SyncAlertStates 2 [sample_alert 2] sample_db = Inr db'"
    unfolding sync_unfold by (rule sample_sync)
  then show ?thesis using SyncAlertStates_idempotent [OF sync sample_db_ok, of 3] by blast
qed

text \<open>Recording an evaluation fails, and is rolled back, exactly when two of its alerts that
  have no row yet share an identifier.\<close>

theorem SyncAlertStates_fails_iff:
  "(\<exists>e. SyncAlertStates now alerts db = Inl e) \<longleftrightarrow> \<not> distinct (fresh_ids (adb_states db) alerts)"
  by (simp only: sync_unfold sync_fails_iff)

text \<open>When an evaluation lacks a present alert, its row is marked absent; a resolution email
  becomes due exactly if the row is critical and a critical email was sent (or one was already
  due), likewise for push, and both sent marks are cleared.\<close>

theorem SyncAlertStates_resolves:
  assumes "SyncAlertStates now alerts db = Inr db'" "tbl_ok (adb_states db)"
    and "i \<notin> al_ID ` set alerts" "tbl_get (adb_states db) i = Some row" "st_is_present row"
  shows "\<exists>row'. tbl_get (adb_states db') i = Some row' \<and> \<not> st_is_present row' \<and>
    (st_resolution_email_pending row' \<longleftrightarrow> st_resolution_email_pending row \<or>
       st_severity row = AlertSeverityCritical \<and> st_last_critical_email_at row \<noteq> None) \<and>
    (st_resolution_push_pending row' \<longleftrightarrow> st_resolution_push_pending row \<or>
       st_severity row = AlertSeverityCritical \<and> st_last_critical_push_at row \<noteq> None) \<and>
    st_last_critical_email_at row' = None \<and> st_last_critical_push_at row' = None"
proof -
  have "tbl_get (adb_states db') i = Some (resolved_row now row)"
    using sync_row_resolved [OF assms(1) [unfolded sync_unfold] assms(2,3)] assms(4,5)
    by (simp add: is_present_def)
  then show ?thesis by (auto simp: resolved_row_def)
qed

theorem SyncAlertStates_resolves_witness:
  "\<exists>db' row'. SyncAlertStates 2 [sample_alert 2] sample_db = Inr db' \<and>
     tbl_get (adb_states db') (al_ID (sample_alert 1)) = Some row' \<and> \<not> st_is_present row' \<and>
     \<not> st_resolution_email_pending row'"
proof -
  obtain db' where sync: "SyncAlertStates 2 [sample_alert 2] sample_db = Inr db'"
    unfolding sync_unfold by (rule sample_sync)
  obtain row where row: "tbl_get (adb_states sample_db) (al_ID (sample_alert 1)) = Some row" "st_is_present row"
    using sample_present by (auto simp: is_present_def split: option.splits)
  have "map_option (\<lambda>r. (st_last_critical_email_at r, st_resolution_email_pending r))
    (tbl_get (adb_states sample_db) (al_ID (sample_alert 1))) = Some (None, False)" by code_simp
  then show ?thesis
    using sync SyncAlertStates_resolves [OF sync sample_db_ok _ row] row(1) by auto
qed

text \<open>Reading back what was recorded: after a complete evaluation with distinct identifiers,
  \<open>ListPresentAlerts\<close> returns, by increasing identifier, the alerts of the evaluation with their
  type recovered from the identifier; only the value and the threshold are lost, and the date is
  that of the evaluation.\<close>

theorem ListPresentAlerts_roundtrip:
  assumes "SyncAlertStates now alerts db = Inr db'" "tbl_ok (adb_states db)"
    and "distinct (map al_ID alerts)"
    and "\<forall>a\<in>set alerts. has_alert_id a \<and> al_Type a \<in> set alert_types"
  shows "set (ListPresentAlerts db') =
      (\<lambda>a. a\<lparr>al_Value := [], al_Threshold := [], al_DetectedAt := now\<rparr>) ` set alerts \<and>
    sorted (map al_ID (ListPresentAlerts db')) \<and> distinct (map al_ID (ListPresentAlerts db'))"
  using list_present_roundtrip [OF assms(1) [unfolded sync_unfold] assms(2-4)] by blast

theorem ListPresentAlerts_roundtrip_witness:
  "\<exists>db'. SyncAlertStates 2 [sample_alert 2] sample_db = Inr db' \<and>
     set (ListPresentAlerts db') = {(sample_alert 2)\<lparr>al_DetectedAt := 2\<rparr>}"
proof -
  obtain db' where sync: "SyncAlertStates 2 [sample_alert 2] sample_db = Inr db'"
    unfolding sync_unfold by (rule sample_sync)
  have "has_alert_id (sample_alert 2) \<and> al_Type (sample_alert 2) \<in> set alert_types"
    by (simp add: sample_alert_def has_alert_id_def alert_types_def)
  then show ?thesis using sync ListPresentAlerts_roundtrip [OF sync sample_db_ok]
    by (simp add: sample_alert_def zero_alert_def)
qed

end
