(* ===== verification/Alert_Delivery.thy ===== *)
theory Alert_Delivery
  imports Alert_State
begin

text \<open>
  The delivery state of the notification channels, kept in the alert tables
  (\<open>internal/store/alert_state.go\<close>, \<open>internal/store/telegram.go\<close>): what was sent by email, by Web
  Push and per Telegram destination, which resolutions are pending, the Telegram destinations, and
  the pruning of history that is delivered on every channel.
\<close>

section \<open>Email and push\<close>

definition ListCriticalPushSentAlertIDs :: "string list \<Rightarrow> alert_db \<Rightarrow> string list" where
  "ListCriticalPushSentAlertIDs alertIDs db =
     (if alertIDs = [] then []
      else map fst (filter (\<lambda>(i, row). i \<in> set alertIDs \<and> st_is_present row \<and>
        st_last_critical_push_at row \<noteq> None) (adb_states db)))"

definition MarkAlertCriticalPushesSent :: "string list \<Rightarrow> time \<Rightarrow> alert_db \<Rightarrow> alert_db" where
  "MarkAlertCriticalPushesSent alertIDs sentAt db =
     (if alertIDs = [] then db
      else update_states (\<lambda>i row. st_is_present row \<and> i \<in> set alertIDs)
        (\<lambda>row. row\<lparr>st_last_critical_push_at := Some sentAt, st_updated_at := sentAt\<rparr>) db)"

definition GetAlertCriticalEmailSentAt :: "string \<Rightarrow> alert_db \<Rightarrow> time option" where
  "GetAlertCriticalEmailSentAt alertID db =
     (case tbl_get (adb_states db) alertID of
        None \<Rightarrow> None
      | Some row \<Rightarrow> if st_is_present row then st_last_critical_email_at row else None)"

definition ListCriticalEmailSentAlertIDs :: "string list \<Rightarrow> alert_db \<Rightarrow> string list" where
  "ListCriticalEmailSentAlertIDs alertIDs db =
     (if alertIDs = [] then []
      else map fst (filter (\<lambda>(i, row). i \<in> set alertIDs \<and> st_is_present row \<and>
        st_last_critical_email_at row \<noteq> None) (adb_states db)))"

definition MarkAlertCriticalEmailSent :: "string \<Rightarrow> time \<Rightarrow> alert_db \<Rightarrow> alert_db" where
  "MarkAlertCriticalEmailSent alertID sentAt =
     update_states (\<lambda>i _. i = alertID)
       (\<lambda>row. row\<lparr>st_last_critical_email_at := Some sentAt, st_updated_at := sentAt\<rparr>)"

definition MarkAlertCriticalEmailsSent :: "string list \<Rightarrow> time \<Rightarrow> alert_db \<Rightarrow> alert_db" where
  "MarkAlertCriticalEmailsSent alertIDs sentAt db =
     (if alertIDs = [] then db
      else update_states (\<lambda>i _. i \<in> set alertIDs)
        (\<lambda>row. row\<lparr>st_last_critical_email_at := Some sentAt, st_updated_at := sentAt\<rparr>) db)"

text \<open>Pending resolutions, last updated first.\<close>

definition pending_alerts :: "(string \<times> alert_state) list \<Rightarrow> alert list" where
  "pending_alerts rows =
     map (\<lambda>(i, row). (alert_of_state i row)\<lparr>al_Type := type_of_id i\<rparr>)
       (sort_key (\<lambda>(_, row). - st_updated_at row) rows)"

definition ListPendingAlertResolutionEmails :: "alert_db \<Rightarrow> alert list" where
  "ListPendingAlertResolutionEmails db =
     pending_alerts (filter (\<lambda>(_, row). st_resolution_email_pending row \<and> \<not> st_is_present row) (adb_states db))"

definition MarkAlertResolutionEmailSent :: "string \<Rightarrow> time \<Rightarrow> alert_db \<Rightarrow> alert_db" where
  "MarkAlertResolutionEmailSent alertID sentAt =
     update_states (\<lambda>i _. i = alertID)
       (\<lambda>row. row\<lparr>st_resolution_email_pending := False, st_updated_at := sentAt\<rparr>)"

definition MarkAlertResolutionEmailsSent :: "string list \<Rightarrow> time \<Rightarrow> alert_db \<Rightarrow> alert_db" where
  "MarkAlertResolutionEmailsSent alertIDs sentAt db =
     (if alertIDs = [] then db
      else update_states (\<lambda>i _. i \<in> set alertIDs)
        (\<lambda>row. row\<lparr>st_resolution_email_pending := False, st_updated_at := sentAt\<rparr>) db)"

definition ListPendingAlertResolutionPushes :: "alert_db \<Rightarrow> alert list" where
  "ListPendingAlertResolutionPushes db =
     pending_alerts (filter (\<lambda>(_, row). st_resolution_push_pending row \<and> \<not> st_is_present row) (adb_states db))"

definition MarkAlertResolutionPushesSent :: "string list \<Rightarrow> time \<Rightarrow> alert_db \<Rightarrow> alert_db" where
  "MarkAlertResolutionPushesSent alertIDs sentAt db =
     (if alertIDs = [] then db
      else update_states (\<lambda>i row. \<not> st_is_present row \<and> i \<in> set alertIDs)
        (\<lambda>row. row\<lparr>st_resolution_push_pending := False, st_updated_at := sentAt\<rparr>) db)"

section \<open>Telegram\<close>

text \<open>A destination is unique per user and per chat; deleting one deletes its deliveries.\<close>

definition destination_of_user :: "int \<Rightarrow> alert_db \<Rightarrow> int option" where
  "destination_of_user userID db =
     map_option fst (List.find (\<lambda>(_, r). dr_user_id r = userID) (adb_destinations db))"

definition UpsertTelegramDestination ::
  "time \<Rightarrow> int \<Rightarrow> string \<Rightarrow> string \<Rightarrow> alert_db \<Rightarrow> db_error + (int \<times> alert_db)" where
  "UpsertTelegramDestination now userID chatID chatTitle db =
     (let dests = adb_destinations db
      in case destination_of_user userID db of
        Some i \<Rightarrow>
          if list_ex (\<lambda>(j, r). j \<noteq> i \<and> dr_chat_id r = chatID) dests then Inl (UniqueViolation chatID)
          else Inr (i, db\<lparr>adb_destinations := tbl_mapf (\<lambda>j r. Some (if j = i then
                 r\<lparr>dr_chat_id := chatID, dr_chat_title := chatTitle, dr_chat_type := ''private'',
                   dr_updated_at := from_unix (unix now)\<rparr> else r)) dests\<rparr>)
      | None \<Rightarrow>
          if list_ex (\<lambda>(_, r). dr_chat_id r = chatID) dests then Inl (UniqueViolation chatID)
          else (let i = adb_next_destination db
            in Inr (i, db\<lparr>adb_destinations := dests @ [(i,
                 \<lparr>dr_user_id = userID, dr_chat_id = chatID, dr_chat_title = chatTitle,
                  dr_chat_type = ''private'', dr_created_at = from_unix (unix now),
                  dr_updated_at = from_unix (unix now)\<rparr>)],
                 adb_next_destination := i + 1\<rparr>)))"

definition delete_destinations :: "(destination_row \<Rightarrow> bool) \<Rightarrow> alert_db \<Rightarrow> alert_db" where
  "delete_destinations P db =
     (let kept = filter (\<lambda>(_, r). \<not> P r) (adb_destinations db)
      in db\<lparr>adb_destinations := kept,
            adb_telegram := filter (\<lambda>((_, dest), _). dest \<in> fst ` set kept) (adb_telegram db)\<rparr>)"

definition DeleteTelegramDestinationForUser :: "int \<Rightarrow> alert_db \<Rightarrow> alert_db" where
  "DeleteTelegramDestinationForUser userID = delete_destinations (\<lambda>r. dr_user_id r = userID)"

definition DeleteAllTelegramDestinations :: "alert_db \<Rightarrow> alert_db" where
  "DeleteAllTelegramDestinations = delete_destinations (\<lambda>_. True)"

definition CountTelegramDestinations :: "alert_db \<Rightarrow> int" where
  "CountTelegramDestinations db = int (length (adb_destinations db))"

definition ListCriticalTelegramSentAlertIDs :: "int \<Rightarrow> string list \<Rightarrow> alert_db \<Rightarrow> string list" where
  "ListCriticalTelegramSentAlertIDs destinationID alertIDs db =
     (if alertIDs = [] then []
      else map (\<lambda>((i, _), _). i) (filter (\<lambda>((i, dest), r). dest = destinationID \<and> i \<in> set alertIDs \<and>
        td_active_sent_at r \<noteq> None) (adb_telegram db)))"

fun mark_telegrams :: "int \<Rightarrow> string list \<Rightarrow> time \<Rightarrow> alert_db \<Rightarrow> db_error + alert_db" where
  "mark_telegrams destinationID [] sentAt db = Inr db"
| "mark_telegrams destinationID (alertID # alertIDs) sentAt db =
     (if tbl_get (adb_states db) alertID = None then Inl (ForeignKeyViolation alertID)
      else if tbl_get (adb_destinations db) destinationID = None then Inl (ForeignKeyViolation alertID)
      else mark_telegrams destinationID alertIDs sentAt
        (db\<lparr>adb_telegram := tbl_put (alertID, destinationID)
           \<lparr>td_active_sent_at = Some sentAt, td_resolution_sent_at = None\<rparr> (adb_telegram db)\<rparr>))"

definition MarkAlertCriticalTelegramsSent ::
  "int \<Rightarrow> string list \<Rightarrow> time \<Rightarrow> alert_db \<Rightarrow> db_error + alert_db" where
  "MarkAlertCriticalTelegramsSent destinationID alertIDs sentAt db =
     (if alertIDs = [] then Inr db else mark_telegrams destinationID alertIDs sentAt db)"

definition ListPendingAlertResolutionTelegrams :: "int \<Rightarrow> alert_db \<Rightarrow> alert list" where
  "ListPendingAlertResolutionTelegrams destinationID db =
     pending_alerts (filter (\<lambda>(i, row). \<not> st_is_present row \<and>
       (case tbl_get (adb_telegram db) (i, destinationID) of
          None \<Rightarrow> False
        | Some r \<Rightarrow> td_active_sent_at r \<noteq> None \<and> td_resolution_sent_at r = None)) (adb_states db))"

definition MarkAlertResolutionTelegramsSent :: "int \<Rightarrow> string list \<Rightarrow> time \<Rightarrow> alert_db \<Rightarrow> alert_db" where
  "MarkAlertResolutionTelegramsSent destinationID alertIDs sentAt db =
     (if alertIDs = [] then db
      else db\<lparr>adb_telegram := tbl_mapf (\<lambda>(i, dest) r. Some
        (if dest = destinationID \<and> i \<in> set alertIDs then r\<lparr>td_resolution_sent_at := Some sentAt\<rparr> else r))
        (adb_telegram db)\<rparr>)"

section \<open>Pruning\<close>

text \<open>\<open>created_at\<close> is kept in whole seconds and compared as such; deleting a state deletes its
  Telegram deliveries.\<close>

definition prunable :: "time \<Rightarrow> alert_db \<Rightarrow> string \<Rightarrow> alert_state \<Rightarrow> bool" where
  "prunable cutoff db i row \<longleftrightarrow>
     \<not> st_is_present row \<and> \<not> st_resolution_email_pending row \<and> \<not> st_resolution_push_pending row \<and>
     st_updated_at row < cutoff \<and>
     \<not> list_ex (\<lambda>((j, _), r). j = i \<and> td_active_sent_at r \<noteq> None \<and> td_resolution_sent_at r = None)
       (adb_telegram db)"

definition DeleteOldAlertHistory :: "time \<Rightarrow> alert_db \<Rightarrow> int \<times> int \<times> alert_db" where
  "DeleteOldAlertHistory cutoff db =
     (let events = filter (\<lambda>ev. \<not> unix (ev_CreatedAt ev) < unix cutoff) (adb_events db);
          states = filter (\<lambda>(i, row). \<not> prunable cutoff db i row) (adb_states db)
      in (int (length (adb_events db) - length events), int (length (adb_states db) - length states),
          db\<lparr>adb_events := events, adb_states := states,
             adb_telegram := filter (\<lambda>((i, _), _). i \<in> fst ` set states) (adb_telegram db)\<rparr>))"

section \<open>The invariant of the tables\<close>

text \<open>What the schema promises: primary keys, foreign keys, one destination per user and per chat.\<close>

definition refs_ok :: "(string \<times> int, telegram_delivery) table \<Rightarrow> string set \<Rightarrow> int set \<Rightarrow> bool" where
  "refs_ok t alerts dests \<longleftrightarrow> (\<forall>k \<in> fst ` set t. fst k \<in> alerts \<and> snd k \<in> dests)"

lemma refs_ok_mono: "refs_ok t A D \<Longrightarrow> A \<subseteq> A' \<Longrightarrow> D \<subseteq> D' \<Longrightarrow> refs_ok t A' D'"
  unfolding refs_ok_def by blast

lemma refs_ok_filter [simp]: "refs_ok t A D \<Longrightarrow> refs_ok (filter P t) A D"
  by (auto simp: refs_ok_def)

lemma refs_ok_filter_dests: "refs_ok t A D \<Longrightarrow> refs_ok (filter (\<lambda>((_, dest), _). dest \<in> E) t) A E"
  by (force simp: refs_ok_def)

lemma refs_ok_filter_alerts: "refs_ok t A D \<Longrightarrow> refs_ok (filter (\<lambda>((i, _), _). i \<in> B) t) B D"
  by (force simp: refs_ok_def)

lemma refs_ok_put [simp]: "refs_ok (tbl_put (i, dest) r t) A D \<longleftrightarrow> refs_ok t A D \<and> i \<in> A \<and> dest \<in> D"
  by (auto simp: refs_ok_def)

text \<open>The keys handed out so far are below the next one.\<close>

definition ids_below :: "int \<Rightarrow> (int, 'v) table \<Rightarrow> bool" where
  "ids_below n t \<longleftrightarrow> (\<forall>k \<in> fst ` set t. k < n)"

lemma ids_below_filter [simp]: "ids_below n t \<Longrightarrow> ids_below n (filter P t)"
  by (auto simp: ids_below_def)

lemma ids_below_fresh: "ids_below n t \<Longrightarrow> n \<notin> fst ` set t"
  unfolding ids_below_def by blast

lemma ids_below_snoc: "ids_below n t \<Longrightarrow> ids_below (n + 1) (t @ [(n, v)])"
  by (fastforce simp: ids_below_def)

definition schema_ok :: "alert_db \<Rightarrow> bool" where
  "schema_ok db \<longleftrightarrow>
     tbl_ok (adb_states db) \<and> tbl_ok (adb_telegram db) \<and> tbl_ok (adb_destinations db) \<and>
     refs_ok (adb_telegram db) (fst ` set (adb_states db)) (fst ` set (adb_destinations db)) \<and>
     distinct (map (dr_user_id \<circ> snd) (adb_destinations db)) \<and>
     distinct (map (dr_chat_id \<circ> snd) (adb_destinations db)) \<and>
     ids_below (adb_next_destination db) (adb_destinations db)"

text \<open>What the marks mean: a pushed alert is present, a pending resolution is of an absent one.\<close>

definition row_ok :: "alert_state \<Rightarrow> bool" where
  "row_ok row \<longleftrightarrow>
     (st_last_critical_push_at row \<noteq> None \<longrightarrow> st_is_present row) \<and>
     (st_resolution_push_pending row \<longrightarrow> \<not> st_is_present row) \<and>
     (st_resolution_email_pending row \<longrightarrow> \<not> st_is_present row)"

definition marks_ok :: "alert_db \<Rightarrow> bool" where
  "marks_ok db \<longleftrightarrow> (\<forall>i. case tbl_get (adb_states db) i of None \<Rightarrow> True | Some row \<Rightarrow> row_ok row)"

lemma marks_okD: "marks_ok db \<Longrightarrow> tbl_get (adb_states db) i = Some row \<Longrightarrow> row_ok row"
  unfolding marks_ok_def by (metis option.simps(5))

lemma marks_okI: "(\<And>i row. tbl_get (adb_states db) i = Some row \<Longrightarrow> row_ok row) \<Longrightarrow> marks_ok db"
  by (auto simp: marks_ok_def split: option.split)

lemma marks_ok_update_states:
  assumes "marks_ok db" "\<And>i row. row_ok row \<Longrightarrow> P i row \<Longrightarrow> row_ok (f row)"
  shows "marks_ok (update_states P f db)"
  by (rule marks_okI) (auto simp: tbl_simps dest!: marks_okD [OF assms(1)] intro: assms(2))

lemma marks_ok_congs [simp]:
  "marks_ok (insertAlertEvent now e db) = marks_ok db"
  "marks_ok (db\<lparr>adb_telegram := t\<rparr>) = marks_ok db"
  "marks_ok (db\<lparr>adb_destinations := ds\<rparr>) = marks_ok db"
  "marks_ok (db\<lparr>adb_next_destination := n\<rparr>) = marks_ok db"
  "marks_ok (db\<lparr>adb_events := es\<rparr>) = marks_ok db"
  by (simp_all add: marks_ok_def)

lemma keys_states: "i \<in> fst ` set (adb_states db) \<longleftrightarrow> tbl_get (adb_states db) i \<noteq> None"
  by (simp add: tbl_get_def map_of_eq_None_iff)

lemma keys_update_states_set [simp]:
  "fst ` set (adb_states (update_states P f db)) = fst ` set (adb_states db)"
  by (metis keys_update_states set_map)

lemma schema_ok_update_states [simp]: "schema_ok (update_states P f db) = schema_ok db"
  by (simp add: schema_ok_def)

lemma schema_ok_insertAlertEvent [simp]: "schema_ok (insertAlertEvent now e db) = schema_ok db"
  by (simp add: schema_ok_def)

lemma schema_ok_fewer_deliveries:
  "schema_ok db \<Longrightarrow> schema_ok (db\<lparr>adb_telegram := filter P (adb_telegram db)\<rparr>)"
  by (auto simp: schema_ok_def tbl_ok_def distinct_map_filter)

lemma schema_ok_more_rows:
  "schema_ok db \<Longrightarrow> tbl_ok ss \<Longrightarrow> fst ` set (adb_states db) \<subseteq> fst ` set ss \<Longrightarrow>
   schema_ok (db\<lparr>adb_states := ss\<rparr>)"
  by (auto simp: schema_ok_def intro: refs_ok_mono)

lemma insertAlertState_keeps:
  assumes "insertAlertState a now db = Inr db'" "schema_ok db" "marks_ok db"
  shows "schema_ok db' \<and> marks_ok db'"
proof -
  obtain row where db': "db' = db\<lparr>adb_states := tbl_put (al_ID a) row (adb_states db)\<rparr>" and "row_ok row"
    using assms(1) by (auto simp: insertAlertState_def row_ok_def split: if_splits)
  then have "marks_ok db'" using assms(3) by (auto simp: marks_ok_def tbl_simps)
  moreover have "schema_ok db'" unfolding db'
    using assms(2) by (intro schema_ok_more_rows) (auto simp: schema_ok_def)
  ultimately show ?thesis by blast
qed

lemma row_ok_refreshed: "row_ok row \<Longrightarrow> row_ok (refreshed a now row)"
  by (simp add: row_ok_def refreshed_def)

lemma row_ok_resolved: "row_ok row \<Longrightarrow> row_ok (resolved_row now row)"
  by (auto simp: row_ok_def resolved_row_def)

lemma sync_present_ok:
  "sync_present now existing alerts db = Inr db' \<Longrightarrow> schema_ok db \<Longrightarrow> marks_ok db \<Longrightarrow>
   schema_ok db' \<and> marks_ok db'"
proof (induction alerts arbitrary: db)
  case (Cons a alerts)
  show ?case
  proof (cases "tbl_get existing (al_ID a)")
    case None
    then obtain db1 where ins: "insertAlertState a now db = Inr db1"
      and rest: "sync_present now existing alerts
        (insertAlertEvent now (alertEventFromAlert a ''appeared'' []) db1) = Inr db'"
      using Cons.prems(1) by (auto simp: sync_present_Cons bind_err_Inr)
    show ?thesis using Cons.IH [OF rest] insertAlertState_keeps [OF ins Cons.prems(2,3)] by simp
  next
    case (Some row)
    have "schema_ok (reappear now a row db) \<and> marks_ok (reappear now a row db)"
      using Cons.prems(2,3) schema_ok_fewer_deliveries [of "insertAlertEvent now _ db"]
      by (simp add: reappear_def)
    then have "schema_ok (updateAlertState a now (reappear now a row db)) \<and>
        marks_ok (updateAlertState a now (reappear now a row db))"
      by (auto simp: updateAlertState_def intro: marks_ok_update_states row_ok_refreshed)
    then show ?thesis using Cons.prems(1) Some Cons.IH by (simp add: sync_present_Cons)
  qed
qed simp

lemma sync_missing_ok:
  "schema_ok db \<Longrightarrow> marks_ok db \<Longrightarrow>
   schema_ok (sync_missing now resolve current existing db) \<and> marks_ok (sync_missing now resolve current existing db)"
  by (induction now resolve current existing db rule: sync_missing.induct)
    (simp_all add: marks_ok_update_states row_ok_resolved)

lemma sync_ok:
  assumes "syncAlertStates now alerts resolve db = Inr db'" "schema_ok db" "marks_ok db"
  shows "schema_ok db' \<and> marks_ok db'"
  using assms(1) by (rule sync_loops) (use sync_present_ok [OF _ assms(2,3)] sync_missing_ok in blast)

lemma mark_telegrams_ok:
  "mark_telegrams dest ids t db = Inr db' \<Longrightarrow> schema_ok db \<Longrightarrow> marks_ok db \<Longrightarrow> schema_ok db' \<and> marks_ok db'"
proof (induction dest ids t db rule: mark_telegrams.induct)
  case (2 dest i ids t db)
  let ?db1 = "db\<lparr>adb_telegram := tbl_put (i, dest)
    \<lparr>td_active_sent_at = Some t, td_resolution_sent_at = None\<rparr> (adb_telegram db)\<rparr>"
  have row: "tbl_get (adb_states db) i \<noteq> None" "tbl_get (adb_destinations db) dest \<noteq> None"
    and rest: "mark_telegrams dest ids t ?db1 = Inr db'"
    using "2.prems"(1) by (auto split: if_splits)
  have "i \<in> fst ` set (adb_states db)" "dest \<in> fst ` set (adb_destinations db)"
    using row by (simp_all add: tbl_get_def map_of_eq_None_iff)
  then have "schema_ok ?db1" using "2.prems"(2) by (simp add: schema_ok_def)
  then show ?case using "2.IH" row rest "2.prems"(3) by simp
qed simp

lemma find_user_row:
  "destination_of_user u db = Some i \<Longrightarrow> \<exists>r. (i, r) \<in> set (adb_destinations db) \<and> dr_user_id r = u"
  by (auto simp: destination_of_user_def find_Some_iff) (metis nth_mem)

lemma no_user_row: "destination_of_user u db = None \<Longrightarrow> u \<notin> set (map (dr_user_id \<circ> snd) (adb_destinations db))"
  by (force simp: destination_of_user_def find_None_iff)

text \<open>Giving one row of a table with distinct chats a chat no other row has keeps them distinct.\<close>

lemma distinct_chat_update:
  assumes "tbl_ok t" "distinct (map (dr_chat_id \<circ> snd) t)"
    and "\<forall>(j, r) \<in> set t. j \<noteq> i \<longrightarrow> dr_chat_id r \<noteq> c" "\<And>r. dr_chat_id (f r) = c"
  shows "distinct (map (dr_chat_id \<circ> snd) (tbl_mapf (\<lambda>j r. Some (if j = i then f r else r)) t))"
proof -
  have inj: "inj_on (dr_chat_id \<circ> snd) (set t)" "distinct t"
    using assms(1,2) by (simp_all add: distinct_map tbl_ok_def)
  have rows: "tbl_mapf (\<lambda>j r. Some (if j = i then f r else r)) t = map (\<lambda>(j, r). (j, if j = i then f r else r)) t"
    by (induction t) auto
  have "inj_on (\<lambda>(j, r). if j = i then c else dr_chat_id r) (set t)"
  proof (rule inj_onI, clarify, rule conjI)
    fix j r k q assume in_t: "(j, r) \<in> set t" "(k, q) \<in> set t"
      and eq: "(if j = i then c else dr_chat_id r) = (if k = i then c else dr_chat_id q)"
    show "j = k" using in_t eq assms(3) inj(1) by (fastforce simp: inj_on_def split: if_splits)
    then show "r = q" using in_t assms(1) by (metis tbl_get_in option.inject)
  qed
  then have "distinct (map (\<lambda>(j, r). if j = i then c else dr_chat_id r) t)"
    using inj(2) by (simp add: distinct_map)
  moreover have "(dr_chat_id \<circ> snd) \<circ> (\<lambda>(j, r). (j, if j = i then f r else r)) =
      (\<lambda>(j, r). if j = i then c else dr_chat_id r)"
    by (auto simp: assms(4))
  ultimately show ?thesis unfolding rows map_map by simp
qed

lemma user_ids_mapf:
  "(\<And>r. dr_user_id (f r) = dr_user_id r) \<Longrightarrow>
   map (dr_user_id \<circ> snd) (tbl_mapf (\<lambda>j r. Some (if j = i then f r else r)) t) = map (dr_user_id \<circ> snd) t"
  by (induction t) auto

lemma keys_mapf_total: "fst ` set (tbl_mapf (\<lambda>k v. Some (f k v)) t) = fst ` set t"
  by (metis set_map tbl_mapf_total)

lemma ids_below_mapf: "ids_below n (tbl_mapf (\<lambda>k v. Some (f k v)) t) = ids_below n t"
  unfolding ids_below_def keys_mapf_total ..

lemma UpsertTelegramDestination_ok:
  assumes "UpsertTelegramDestination now u c title db = Inr (i, db')" "schema_ok db"
  shows "schema_ok db' \<and> marks_ok db' = marks_ok db"
proof (cases "destination_of_user u db")
  case None
  note free = no_user_row [OF None]
  from None assms(1) have "c \<notin> set (map (dr_chat_id \<circ> snd) (adb_destinations db))"
    by (auto simp: UpsertTelegramDestination_def Let_def list_ex_iff split: if_splits)
  moreover have "refs_ok (adb_telegram db) (fst ` set (adb_states db))
      (insert k (fst ` set (adb_destinations db)))" for k
    using assms(2) by (auto simp: schema_ok_def intro: refs_ok_mono)
  moreover have "adb_next_destination db \<notin> fst ` set (adb_destinations db)"
    using assms(2) by (simp add: schema_ok_def ids_below_fresh)
  ultimately show ?thesis using assms free None
    by (auto simp: UpsertTelegramDestination_def Let_def schema_ok_def tbl_ok_def ids_below_snoc split: if_splits)
next
  case (Some j)
  have "\<forall>(k, r) \<in> set (adb_destinations db). k \<noteq> j \<longrightarrow> dr_chat_id r \<noteq> c"
    using assms(1) Some by (auto simp: UpsertTelegramDestination_def list_ex_iff Let_def split: if_splits)
  then show ?thesis using assms Some
    by (auto simp: UpsertTelegramDestination_def Let_def schema_ok_def user_ids_mapf keys_mapf_total
        ids_below_mapf split: if_splits intro!: distinct_chat_update)
qed

lemma delete_destinations_ok: "schema_ok db \<Longrightarrow> schema_ok (delete_destinations P db)"
  by (auto simp: schema_ok_def delete_destinations_def tbl_ok_def distinct_map_filter Let_def
      intro!: refs_ok_filter_dests)

lemma row_ok_marks:
  "row_ok row \<Longrightarrow> st_is_present row \<Longrightarrow> row_ok (row\<lparr>st_last_critical_push_at := x, st_updated_at := t\<rparr>)"
  "row_ok row \<Longrightarrow> row_ok (row\<lparr>st_last_critical_email_at := x, st_updated_at := t\<rparr>)"
  "row_ok row \<Longrightarrow> row_ok (row\<lparr>st_resolution_email_pending := False, st_updated_at := t\<rparr>)"
  "row_ok row \<Longrightarrow> row_ok (row\<lparr>st_resolution_push_pending := False, st_updated_at := t\<rparr>)"
  by (auto simp: row_ok_def)

lemma tbl_ok_filter [simp]: "tbl_ok t \<Longrightarrow> tbl_ok (filter P t)"
  by (simp add: tbl_ok_def distinct_map_filter)

lemma filter_get:
  "tbl_ok t \<Longrightarrow> tbl_get (filter P t) k = Some v \<longleftrightarrow> tbl_get t k = Some v \<and> P (k, v)"
  using tbl_get_in [of t k v] tbl_get_in [of "filter P t" k v] by auto

lemma DeleteOldAlertHistory_ok:
  assumes "DeleteOldAlertHistory cutoff db = (n, m, db')" "schema_ok db" "marks_ok db"
  shows "schema_ok db' \<and> marks_ok db'"
  using assms
  by (auto simp: DeleteOldAlertHistory_def Let_def schema_ok_def filter_get
      intro!: marks_okI refs_ok_filter_alerts dest: marks_okD)

lemma refs_ok_mapf: "refs_ok (tbl_mapf (\<lambda>k v. Some (f k v)) t) A D = refs_ok t A D"
  unfolding refs_ok_def keys_mapf_total ..

section \<open>The store as a state machine\<close>

text \<open>One step of the store: any of the operations above, in any order and interleaving. A failed
  transaction leaves the database as it was and is no step.\<close>

inductive db_step :: "alert_db \<Rightarrow> alert_db \<Rightarrow> bool" where
  sync: "syncAlertStates now alerts resolve db = Inr db' \<Longrightarrow> db_step db db'"
| event: "db_step db (InsertAlertStateEvent now e db)"
| push_sent: "db_step db (MarkAlertCriticalPushesSent ids t db)"
| push_resolved: "db_step db (MarkAlertResolutionPushesSent ids t db)"
| email_sent: "db_step db (MarkAlertCriticalEmailsSent ids t db)"
| email_resolved: "db_step db (MarkAlertResolutionEmailsSent ids t db)"
| telegram_sent: "MarkAlertCriticalTelegramsSent dest ids t db = Inr db' \<Longrightarrow> db_step db db'"
| telegram_resolved: "db_step db (MarkAlertResolutionTelegramsSent dest ids t db)"
| link: "UpsertTelegramDestination now u c title db = Inr (i, db') \<Longrightarrow> db_step db db'"
| unlink: "db_step db (DeleteTelegramDestinationForUser u db)"
| unlink_all: "db_step db (DeleteAllTelegramDestinations db)"
| prune: "DeleteOldAlertHistory cutoff db = (n, m, db') \<Longrightarrow> db_step db db'"

inductive db_reachable :: "alert_db \<Rightarrow> bool" where
  start: "db_reachable empty_alert_db"
| step: "db_reachable db \<Longrightarrow> db_step db db' \<Longrightarrow> db_reachable db'"

lemma db_step_ok:
  assumes "db_step db db'" "schema_ok db" "marks_ok db"
  shows "schema_ok db' \<and> marks_ok db'"
  using assms
proof (induction rule: db_step.induct)
  case (sync now alerts resolve db db')
  then show ?case using sync_ok by blast
next
  case (push_sent db ids t)
  then show ?case by (auto simp: MarkAlertCriticalPushesSent_def intro!: marks_ok_update_states row_ok_marks)
next
  case (push_resolved db ids t)
  then show ?case by (auto simp: MarkAlertResolutionPushesSent_def intro!: marks_ok_update_states row_ok_marks)
next
  case (email_sent db ids t)
  then show ?case by (auto simp: MarkAlertCriticalEmailsSent_def intro!: marks_ok_update_states row_ok_marks)
next
  case (email_resolved db ids t)
  then show ?case by (auto simp: MarkAlertResolutionEmailsSent_def intro!: marks_ok_update_states row_ok_marks)
next
  case (telegram_sent dest ids t db db')
  then show ?case using mark_telegrams_ok
    by (auto simp: MarkAlertCriticalTelegramsSent_def split: if_splits)
next
  case (telegram_resolved db dest ids t)
  then show ?case
    by (auto simp: MarkAlertResolutionTelegramsSent_def schema_ok_def case_prod_unfold refs_ok_mapf)
next
  case (link now u c title db i db')
  then show ?case using UpsertTelegramDestination_ok by blast
next
  case (unlink db u)
  then show ?case
    by (auto simp: DeleteTelegramDestinationForUser_def delete_destinations_ok)
      (simp add: delete_destinations_def Let_def)
next
  case (unlink_all db)
  then show ?case
    by (auto simp: DeleteAllTelegramDestinations_def delete_destinations_ok)
      (simp add: delete_destinations_def Let_def)
next
  case (prune cutoff db n m db')
  then show ?case using DeleteOldAlertHistory_ok by blast
qed (simp add: InsertAlertStateEvent_def)

lemma db_reachable_ok: "db_reachable db \<Longrightarrow> schema_ok db \<and> marks_ok db"
proof (induction rule: db_reachable.induct)
  case start
  show ?case by (simp add: schema_ok_def marks_ok_def empty_alert_db_def refs_ok_def ids_below_def)
qed (blast dest: db_step_ok)

section \<open>Notification channels\<close>

text \<open>
  What the notifier relies on from a channel: a query that tells which of some alerts the channel
  already announced, and a mark that records an announcement. \<open>here\<close> says the alert has the row
  the mark is kept in.
\<close>

locale delivery_channel =
  fixes sent :: "string list \<Rightarrow> 'db \<Rightarrow> string list"
    and mark :: "string list \<Rightarrow> time \<Rightarrow> 'db \<Rightarrow> 'e + 'db"
    and here :: "'db \<Rightarrow> string \<Rightarrow> bool"
    and ok :: "'db \<Rightarrow> bool"
  assumes sent_asked: "i \<in> set (sent ids db) \<Longrightarrow> i \<in> set ids"
    and sent_local: "\<lbrakk>i \<in> set ids; i \<in> set js\<rbrakk> \<Longrightarrow> i \<in> set (sent ids db) \<longleftrightarrow> i \<in> set (sent js db)"
    and sent_mark: "\<lbrakk>ok db; mark ids t db = Inr db'\<rbrakk> \<Longrightarrow>
      i \<in> set (sent js db') \<longleftrightarrow> i \<in> set js \<and> (i \<in> set (sent js db) \<or> i \<in> set ids \<and> here db i)"
begin

text \<open>The alerts a run still has to announce, and what is left after announcing them.\<close>

definition unsent :: "string list \<Rightarrow> 'db \<Rightarrow> string list" where
  "unsent ids db = filter (\<lambda>i. i \<notin> set (sent ids db)) ids"

lemma unsent_after_mark:
  assumes "ok db" "mark (unsent ids db) t db = Inr db'" "\<forall>i\<in>set ids. here db i"
  shows "unsent ids db' = []"
  using assms(3) by (auto simp: unsent_def filter_empty_conv sent_mark [OF assms(1,2)])

lemma mark_keeps_sent:
  assumes "ok db" "mark ids t db = Inr db'" "i \<in> set (sent js db)"
  shows "i \<in> set (sent js db')"
  using assms(3) sent_asked by (simp add: sent_mark [OF assms(1,2)])

end

lemma sent_rows:
  "tbl_ok (adb_states db) \<Longrightarrow>
   i \<in> set (if ids = [] then [] else map fst (filter (\<lambda>(i, row). i \<in> set ids \<and> Q row) (adb_states db))) \<longleftrightarrow>
   i \<in> set ids \<and> (case tbl_get (adb_states db) i of None \<Rightarrow> False | Some row \<Rightarrow> Q row)"
  by (auto simp: tbl_get_in image_iff split: option.split)

lemma sent_push:
  "tbl_ok (adb_states db) \<Longrightarrow> i \<in> set (ListCriticalPushSentAlertIDs ids db) \<longleftrightarrow>
   i \<in> set ids \<and> (case tbl_get (adb_states db) i of None \<Rightarrow> False
     | Some row \<Rightarrow> st_is_present row \<and> st_last_critical_push_at row \<noteq> None)"
  unfolding ListCriticalPushSentAlertIDs_def by (rule sent_rows)

lemma sent_email:
  "tbl_ok (adb_states db) \<Longrightarrow> i \<in> set (ListCriticalEmailSentAlertIDs ids db) \<longleftrightarrow>
   i \<in> set ids \<and> (case tbl_get (adb_states db) i of None \<Rightarrow> False
     | Some row \<Rightarrow> st_is_present row \<and> st_last_critical_email_at row \<noteq> None)"
  unfolding ListCriticalEmailSentAlertIDs_def by (rule sent_rows)

lemma sent_telegram:
  "i \<in> set (ListCriticalTelegramSentAlertIDs dest ids db) \<longleftrightarrow>
   i \<in> set ids \<and> (\<exists>r. ((i, dest), r) \<in> set (adb_telegram db) \<and> td_active_sent_at r \<noteq> None)"
  by (force simp: ListCriticalTelegramSentAlertIDs_def image_iff)

lemma get_mark_push [tbl_simps]:
  "tbl_get (adb_states (MarkAlertCriticalPushesSent ids t db)) i =
     map_option (\<lambda>row. if st_is_present row \<and> i \<in> set ids
       then row\<lparr>st_last_critical_push_at := Some t, st_updated_at := t\<rparr> else row) (tbl_get (adb_states db) i)"
  by (auto simp: MarkAlertCriticalPushesSent_def tbl_simps option.map_ident)

lemma get_mark_email [tbl_simps]:
  "tbl_get (adb_states (MarkAlertCriticalEmailsSent ids t db)) i =
     map_option (\<lambda>row. if i \<in> set ids
       then row\<lparr>st_last_critical_email_at := Some t, st_updated_at := t\<rparr> else row) (tbl_get (adb_states db) i)"
  by (auto simp: MarkAlertCriticalEmailsSent_def tbl_simps option.map_ident)

lemma tbl_ok_marks [simp]:
  "tbl_ok (adb_states (MarkAlertCriticalPushesSent ids t db)) \<longleftrightarrow> tbl_ok (adb_states db)"
  "tbl_ok (adb_states (MarkAlertCriticalEmailsSent ids t db)) \<longleftrightarrow> tbl_ok (adb_states db)"
  by (simp_all add: MarkAlertCriticalPushesSent_def MarkAlertCriticalEmailsSent_def)

interpretation push: delivery_channel
  ListCriticalPushSentAlertIDs "\<lambda>ids t db. Inr (MarkAlertCriticalPushesSent ids t db)" is_present
  "\<lambda>db. tbl_ok (adb_states db)"
proof
  fix i ids js db db' t
  show "i \<in> set (ListCriticalPushSentAlertIDs ids db) \<Longrightarrow> i \<in> set ids"
    by (auto simp: ListCriticalPushSentAlertIDs_def split: if_splits)
  show "i \<in> set ids \<Longrightarrow> i \<in> set js \<Longrightarrow>
    i \<in> set (ListCriticalPushSentAlertIDs ids db) \<longleftrightarrow> i \<in> set (ListCriticalPushSentAlertIDs js db)"
    by (auto simp: ListCriticalPushSentAlertIDs_def split: if_splits)
  assume "tbl_ok (adb_states db)" "Inr (MarkAlertCriticalPushesSent ids t db) = (Inr db' :: 'e + alert_db)"
  then show "i \<in> set (ListCriticalPushSentAlertIDs js db') \<longleftrightarrow>
    i \<in> set js \<and> (i \<in> set (ListCriticalPushSentAlertIDs js db) \<or> i \<in> set ids \<and> is_present db i)"
    by (auto simp: sent_push is_present_def tbl_simps split: option.splits if_splits)
qed

interpretation email: delivery_channel
  ListCriticalEmailSentAlertIDs "\<lambda>ids t db. Inr (MarkAlertCriticalEmailsSent ids t db)" is_present
  "\<lambda>db. tbl_ok (adb_states db)"
proof
  fix i ids js db db' t
  show "i \<in> set (ListCriticalEmailSentAlertIDs ids db) \<Longrightarrow> i \<in> set ids"
    by (auto simp: ListCriticalEmailSentAlertIDs_def split: if_splits)
  show "i \<in> set ids \<Longrightarrow> i \<in> set js \<Longrightarrow>
    i \<in> set (ListCriticalEmailSentAlertIDs ids db) \<longleftrightarrow> i \<in> set (ListCriticalEmailSentAlertIDs js db)"
    by (auto simp: ListCriticalEmailSentAlertIDs_def split: if_splits)
  assume "tbl_ok (adb_states db)" "Inr (MarkAlertCriticalEmailsSent ids t db) = (Inr db' :: 'e + alert_db)"
  then show "i \<in> set (ListCriticalEmailSentAlertIDs js db') \<longleftrightarrow>
    i \<in> set js \<and> (i \<in> set (ListCriticalEmailSentAlertIDs js db) \<or> i \<in> set ids \<and> is_present db i)"
    by (auto simp: sent_email is_present_def tbl_simps split: option.splits if_splits)
qed

lemma get_mark_telegrams:
  "mark_telegrams dest ids t db = Inr db' \<Longrightarrow>
   tbl_get (adb_telegram db') k = (if snd k = dest \<and> fst k \<in> set ids
     then Some \<lparr>td_active_sent_at = Some t, td_resolution_sent_at = None\<rparr> else tbl_get (adb_telegram db) k)"
  by (induction dest ids t db rule: mark_telegrams.induct)
    (auto simp: tbl_simps split: if_splits)

lemma tbl_ok_mark_telegrams:
  "mark_telegrams dest ids t db = Inr db' \<Longrightarrow> tbl_ok (adb_telegram db) \<Longrightarrow> tbl_ok (adb_telegram db')"
  by (induction dest ids t db rule: mark_telegrams.induct) (auto split: if_splits)

interpretation telegram: delivery_channel
  "ListCriticalTelegramSentAlertIDs dest" "MarkAlertCriticalTelegramsSent dest" "\<lambda>_ _. True"
  "\<lambda>db. tbl_ok (adb_telegram db)" for dest
proof
  fix i ids js db db' t
  show "i \<in> set (ListCriticalTelegramSentAlertIDs dest ids db) \<Longrightarrow> i \<in> set ids"
    by (simp add: sent_telegram)
  show "i \<in> set ids \<Longrightarrow> i \<in> set js \<Longrightarrow>
    i \<in> set (ListCriticalTelegramSentAlertIDs dest ids db) \<longleftrightarrow> i \<in> set (ListCriticalTelegramSentAlertIDs dest js db)"
    by (simp add: sent_telegram)
  assume ok: "tbl_ok (adb_telegram db)" and mark: "MarkAlertCriticalTelegramsSent dest ids t db = Inr db'"
  show "i \<in> set (ListCriticalTelegramSentAlertIDs dest js db') \<longleftrightarrow>
    i \<in> set js \<and> (i \<in> set (ListCriticalTelegramSentAlertIDs dest js db) \<or> i \<in> set ids \<and> True)"
  proof (cases "ids = []")
    case False
    then have m: "mark_telegrams dest ids t db = Inr db'"
      using mark by (simp add: MarkAlertCriticalTelegramsSent_def)
    show ?thesis
      by (auto simp: sent_telegram tbl_get_in [OF ok] tbl_get_in [OF tbl_ok_mark_telegrams [OF m ok]]
          get_mark_telegrams [OF m])
  qed (use mark in \<open>auto simp: MarkAlertCriticalTelegramsSent_def sent_telegram\<close>)
qed

section \<open>Marks across evaluations\<close>

text \<open>The marks in a row, if there is one: when it was last emailed and last pushed.\<close>

definition sent_marks :: "alert_db \<Rightarrow> string \<Rightarrow> time option \<times> time option" where
  "sent_marks db i = (case tbl_get (adb_states db) i of None \<Rightarrow> (None, None)
     | Some row \<Rightarrow> (st_last_critical_email_at row, st_last_critical_push_at row))"

lemma sent_marks_simps [simp]:
  "sent_marks (insertAlertEvent now e db) i = sent_marks db i"
  "sent_marks (reappear now a row db) i = sent_marks db i"
  "sent_marks (updateAlertState a now db) i = sent_marks db i"
  by (auto simp: sent_marks_def get_updateAlertState refreshed_def split: option.split)

lemma sent_marks_insert: "insertAlertState a now db = Inr db' \<Longrightarrow> sent_marks db' i = sent_marks db i"
  by (auto simp: insertAlertState_def sent_marks_def tbl_simps split: if_splits option.splits)

lemma sent_marks_sync_present:
  "sync_present now existing alerts db = Inr db' \<Longrightarrow> sent_marks db' i = sent_marks db i"
  by (induction alerts arbitrary: db)
    (auto simp: sync_present_Cons bind_err_Inr split: option.splits dest: sent_marks_insert)

lemma sent_marks_sync:
  assumes "syncAlertStates now alerts resolve db = Inr db'" "tbl_ok (adb_states db)" "i \<in> al_ID ` set alerts"
  shows "sent_marks db' i = sent_marks db i"
proof -
  obtain db1 where db1: "sync_present now (adb_states db) alerts db = Inr db1"
    and db': "db' = sync_missing now resolve (al_ID ` set alerts) (adb_states db) db1"
    using assms(1) by (rule sync_loops)
  show ?thesis using sent_marks_sync_present [OF db1, of i] assms(3)
    by (simp add: sent_marks_def db' sync_missing_row [OF assms(2)])
qed

lemma absent_not_pushed:
  assumes "marks_ok db" "\<not> is_present db i" shows "snd (sent_marks db i) = None"
  using assms by (auto simp: sent_marks_def is_present_def row_ok_def split: option.splits dest!: marks_okD)

section \<open>Properties\<close>

text \<open>C9: in every state the store can reach, through any interleaving of its operations, primary
  keys are unique, every Telegram delivery belongs to an existing alert and destination, users and
  chats have one destination each, an alert marked as pushed is present, and a pending resolution
  notice belongs to an absent alert.\<close>

theorem reachable_tables_ok:
  assumes "db_reachable db"
  shows "schema_ok db \<and> marks_ok db"
  by (rule db_reachable_ok [OF assms])

theorem reachable_tables_ok_witness: "schema_ok sample_db \<and> marks_ok sample_db \<and> adb_states sample_db \<noteq> []"
proof -
  have "SyncAlertStates 1 [sample_alert 1] empty_alert_db = Inr sample_db" by code_simp
  then have "db_reachable sample_db"
    unfolding sync_unfold by (rule db_reachable.step [OF db_reachable.start db_step.sync])
  moreover have "adb_states sample_db \<noteq> []" by code_simp
  ultimately show ?thesis using reachable_tables_ok by blast
qed

text \<open>C11: an alert that was absent and appears again is announced by push again: in every
  reachable state, after the evaluation in which it reappears is recorded, the push channel does
  not count it as sent.\<close>

theorem reappeared_alert_not_push_sent:
  assumes "db_reachable db" "\<not> is_present db i"
    and "syncAlertStates now alerts resolve db = Inr db'" "i \<in> al_ID ` set alerts"
  shows "i \<notin> set (ListCriticalPushSentAlertIDs ids db')"
proof -
  have ok: "tbl_ok (adb_states db)" "marks_ok db" using db_reachable_ok [OF assms(1)] by (simp_all add: schema_ok_def)
  have "snd (sent_marks db' i) = None"
    using sent_marks_sync [OF assms(3) ok(1) assms(4)] absent_not_pushed [OF ok(2) assms(2)] by simp
  then show ?thesis using tbl_ok_sync [OF assms(3) ok(1)]
    by (auto simp: sent_push sent_marks_def split: option.splits)
qed

theorem reappeared_alert_not_push_sent_witness:
  "\<exists>db'. syncAlertStates 1 [sample_alert 1] True empty_alert_db = Inr db' \<and>
     al_ID (sample_alert 1) \<notin> set (ListCriticalPushSentAlertIDs [al_ID (sample_alert 1)] db')"
proof -
  have "SyncAlertStates 1 [sample_alert 1] empty_alert_db = Inr sample_db" by code_simp
  then have sync: "syncAlertStates 1 [sample_alert 1] True empty_alert_db = Inr sample_db" by (simp add: sync_unfold)
  have absent: "\<not> is_present empty_alert_db (al_ID (sample_alert 1))" by code_simp
  show ?thesis using sync reappeared_alert_not_push_sent [OF db_reachable.start absent sync] by simp
qed

definition race_db :: alert_db where
  "race_db =
     (let db1 = committed empty_alert_db (SyncAlertStates 1 [sample_alert 1] empty_alert_db);
          db2 = committed db1 (SyncAlertStates 2 [] db1);
          db3 = MarkAlertCriticalEmailsSent [al_ID (sample_alert 1)] 3 db2
      in committed db3 (SyncAlertStates 4 [sample_alert 1] db3))"


end
