(* ===== verification/Notifications.thy ===== *)
theory Notifications
  imports Alert_Delivery
begin

text \<open>
  The immediate notifications of \<open>internal/service/immediate_notifications.go\<close>: which critical
  alerts and resolutions each channel still has to announce, the dispatch by email, Web Push and
  Telegram, the retry backoff after SMTP failures, the batching of emails
  (\<open>internal/store/email_batch.go\<close>), and the run that ties them to the alert engine.

  Sending is outside the model: the outcome of each attempt is a parameter, a function of what is
  sent. The goroutine that pushes runs before the other channels; the channels keep their marks in
  different columns, so only the column \<open>updated_at\<close> could tell the order.
\<close>

section \<open>Selecting alerts\<close>

definition AlertTypePBSStale :: string where "AlertTypePBSStale = ''pbs_stale''"

definition shouldSendImmediateCriticalEmail :: "alert \<Rightarrow> bool" where
  "shouldSendImmediateCriticalEmail a =
     (if al_Severity a \<noteq> AlertSeverityCritical then False
      else if al_Type a = AlertTypePBSReportStale \<or> al_Type a = AlertTypePBSStale then False
      else True)"

definition alertIDs :: "alert list \<Rightarrow> string list" where
  "alertIDs alerts = map al_ID alerts"

definition alertLink :: "alert list \<Rightarrow> string" where
  "alertLink alerts =
     (case alerts of
        [a] \<Rightarrow>
          if (al_ServerType a = ''pve'' \<or> al_ServerType a = ''pbs'' \<or> al_ServerType a = ''windows'') \<and>
             al_ServerID a > 0
          then ''/servers/'' @ al_ServerType a @ ''/'' @ show_int (al_ServerID a)
          else ''/alerts''
      | _ \<Rightarrow> ''/alerts'')"

definition criticalAlertsPending ::
  "alert list \<Rightarrow> (string, time) table \<Rightarrow> (string list \<Rightarrow> 'e + string list) \<Rightarrow> 'e + alert list" where
  "criticalAlertsPending alerts suppressed sentLookup =
     (let candidates = filter (\<lambda>a. shouldSendImmediateCriticalEmail a \<and> tbl_get suppressed (al_ID a) = None) alerts
      in bind_err (sentLookup (alertIDs candidates)) (\<lambda>sent.
           Inr (filter (\<lambda>a. al_ID a \<notin> set sent) candidates)))"

definition criticalAlertsPendingEmail ::
  "alert list \<Rightarrow> (string, time) table \<Rightarrow> alert_db \<Rightarrow> db_error + alert list" where
  "criticalAlertsPendingEmail alerts suppressed db =
     criticalAlertsPending alerts suppressed (\<lambda>ids. Inr (ListCriticalEmailSentAlertIDs ids db))"

definition criticalAlertsPendingPush ::
  "alert list \<Rightarrow> (string, time) table \<Rightarrow> alert_db \<Rightarrow> db_error + alert list" where
  "criticalAlertsPendingPush alerts suppressed db =
     criticalAlertsPending alerts suppressed (\<lambda>ids. Inr (ListCriticalPushSentAlertIDs ids db))"

definition criticalAlertsPendingTelegram ::
  "int \<Rightarrow> alert list \<Rightarrow> (string, time) table \<Rightarrow> alert_db \<Rightarrow> db_error + alert list" where
  "criticalAlertsPendingTelegram destinationID alerts suppressed db =
     criticalAlertsPending alerts suppressed (\<lambda>ids. Inr (ListCriticalTelegramSentAlertIDs destinationID ids db))"

section \<open>Email\<close>

text \<open>The backoff of \<open>smtpBackoff\<close>; its mutex makes each method one step.\<close>

record smtp_backoff =
  sb_until :: time
  sb_delay :: duration

definition smtpBackoffMin :: duration where "smtpBackoffMin = minute"
definition smtpBackoffMax :: duration where "smtpBackoffMax = 30 * minute"

definition no_backoff :: smtp_backoff where
  "no_backoff = \<lparr>sb_until = zero_time, sb_delay = 0\<rparr>"

definition backoff_active :: "time \<Rightarrow> smtp_backoff \<Rightarrow> bool" where
  "backoff_active now b = t_before now (sb_until b)"

definition backoff_record :: "bool \<Rightarrow> time \<Rightarrow> smtp_backoff \<Rightarrow> smtp_backoff" where
  "backoff_record failed now b =
     (if \<not> failed then b\<lparr>sb_until := zero_time, sb_delay := 0\<rparr>
      else let delay = min (max (wrap64 (sb_delay b * 2)) smtpBackoffMin) smtpBackoffMax
        in b\<lparr>sb_delay := delay, sb_until := t_add now delay\<rparr>)"

text \<open>The table \<open>alert_email_batch\<close> has at most one row, the second the first update is pending since.\<close>

definition AlertEmailBatchDue :: "int \<Rightarrow> bool \<Rightarrow> time \<Rightarrow> int option \<Rightarrow> bool \<times> int option" where
  "AlertEmailBatchDue minutes pending now batch =
     (if \<not> pending \<or> minutes = 0 then (pending, None)
      else let since = (case batch of None \<Rightarrow> unix now | Some s \<Rightarrow> s)
        in (\<not> t_before now (t_add (from_unix since) (wrap64 (minutes * minute))), Some since))"

definition ClearAlertEmailBatch :: "int option \<Rightarrow> int option" where
  "ClearAlertEmailBatch batch = None"

text \<open>What is sent: a digest of both kinds, or one kind per message.\<close>

datatype alert_email =
    DigestEmail "alert list" "alert list"
  | CriticalEmail "alert list"
  | ResolvedEmail "alert list"

definition email_subject :: "alert_email \<Rightarrow> string" where
  "email_subject m = (case m of
     DigestEmail selected resolved \<Rightarrow> ''Probakgo incidencias: '' @ show_int (int (length selected)) @
       '' activa(s), '' @ show_int (int (length resolved)) @ '' resuelta(s)''
   | CriticalEmail selected \<Rightarrow> ''Probakgo alerta cr'' @ [CHR 0xC3, CHR 0xAD] @ ''tica: '' @
       show_int (int (length selected)) @ '' alerta(s) activa(s)''
   | ResolvedEmail resolved \<Rightarrow> ''Probakgo alerta resuelta: '' @ show_int (int (length resolved)) @ '' alerta(s)'')"

record notify_state =
  ns_db :: alert_db
  ns_batch :: "int option"
  ns_backoff :: smtp_backoff
  ns_outbox :: "alert_email list"

datatype notify_error = SendFailed | StateError db_error | ConfigError string | RunError alert_error

text \<open>\<open>deliver\<close>: one attempt, recorded in the backoff. \<open>send\<close> tells whether the server accepts it.\<close>

definition deliver ::
  "(alert_email \<Rightarrow> bool) \<Rightarrow> time \<Rightarrow> alert_email \<Rightarrow> notify_state \<Rightarrow> bool \<times> notify_state" where
  "deliver send now m s =
     (send m, s\<lparr>ns_backoff := backoff_record (\<not> send m) now (ns_backoff s),
                ns_outbox := (if send m then ns_outbox s @ [m] else ns_outbox s)\<rparr>)"

definition email_digest ::
  "(alert_email \<Rightarrow> bool) \<Rightarrow> time \<Rightarrow> alert list \<Rightarrow> alert list \<Rightarrow> notify_state \<Rightarrow> notify_error option \<times> notify_state" where
  "email_digest send now selected resolved s =
     (case deliver send now (DigestEmail selected resolved) s of
        (False, s1) \<Rightarrow> (Some SendFailed, s1)
      | (True, s1) \<Rightarrow>
          (None, s1\<lparr>ns_db := MarkAlertResolutionEmailsSent (alertIDs resolved) now
                      (MarkAlertCriticalEmailsSent (alertIDs selected) now (ns_db s1)),
                    ns_batch := ClearAlertEmailBatch (ns_batch s1)\<rparr>))"

definition email_active ::
  "(alert_email \<Rightarrow> bool) \<Rightarrow> time \<Rightarrow> alert list \<Rightarrow> notify_state \<Rightarrow> notify_error option \<times> notify_state" where
  "email_active send now selected s =
     (if selected = [] then (None, s)
      else case deliver send now (CriticalEmail selected) s of
        (False, s1) \<Rightarrow> (Some SendFailed, s1)
      | (True, s1) \<Rightarrow>
          (None, s1\<lparr>ns_db := MarkAlertCriticalEmailsSent (alertIDs selected) now (ns_db s1)\<rparr>))"

definition email_resolved ::
  "(alert_email \<Rightarrow> bool) \<Rightarrow> time \<Rightarrow> alert list \<Rightarrow> notify_state \<Rightarrow> notify_error option \<times> notify_state" where
  "email_resolved send now resolved s =
     (if resolved = [] then (None, s)
      else case deliver send now (ResolvedEmail resolved) s of
        (False, s1) \<Rightarrow> (Some SendFailed, s1)
      | (True, s1) \<Rightarrow>
          (None, s1\<lparr>ns_db := MarkAlertResolutionEmailsSent (alertIDs resolved) now (ns_db s1)\<rparr>))"

definition dispatchImmediateEmail ::
  "(alert_email \<Rightarrow> bool) \<Rightarrow> int \<Rightarrow> alert list \<Rightarrow> (string, time) table \<Rightarrow> time \<Rightarrow> notify_state \<Rightarrow>
   notify_error option \<times> notify_state" where
  "dispatchImmediateEmail send batchMinutes alerts suppressed now s =
     (case criticalAlertsPendingEmail alerts suppressed (ns_db s) of
        Inl e \<Rightarrow> (Some (StateError e), s)
      | Inr selected \<Rightarrow>
          (let resolved = ListPendingAlertResolutionEmails (ns_db s);
               (due, batch) = AlertEmailBatchDue batchMinutes (length selected + length resolved > 0) now (ns_batch s);
               s1 = s\<lparr>ns_batch := batch\<rparr>
           in if \<not> due \<or> backoff_active now (ns_backoff s1) then (None, s1)
              else if batchMinutes > 0 then email_digest send now selected resolved s1
              else case email_active send now selected s1 of
                (Some e, s2) \<Rightarrow> (Some e, s2)
              | (None, s2) \<Rightarrow>
                  (case email_resolved send now resolved s2 of
                     (Some e, s3) \<Rightarrow> (Some e, s3)
                   | (None, s3) \<Rightarrow> (None, s3\<lparr>ns_batch := ClearAlertEmailBatch (ns_batch s3)\<rparr>))))"

section \<open>Web Push\<close>

text \<open>\<open>delivered\<close> is the number of subscriptions the sender reached.\<close>

definition dispatchPush ::
  "(alert list \<Rightarrow> string \<Rightarrow> bool \<Rightarrow> nat) \<Rightarrow> time \<Rightarrow> alert list \<Rightarrow> string \<Rightarrow> bool \<Rightarrow> alert_db \<Rightarrow> alert_db" where
  "dispatchPush delivered now alerts linkURL resolved db =
     (if delivered alerts linkURL resolved = 0 then db
      else if resolved then MarkAlertResolutionPushesSent (alertIDs alerts) now db
      else MarkAlertCriticalPushesSent (alertIDs alerts) now db)"

text \<open>The goroutine of the push channel.\<close>

definition push_channel ::
  "(alert list \<Rightarrow> string \<Rightarrow> bool \<Rightarrow> nat) \<Rightarrow> time \<Rightarrow> alert list \<Rightarrow> (string, time) table \<Rightarrow> alert_db \<Rightarrow> alert_db" where
  "push_channel delivered now alerts suppressed db =
     (let db1 = (case criticalAlertsPendingPush alerts suppressed db of
            Inl _ \<Rightarrow> db
          | Inr selected \<Rightarrow>
              if selected \<noteq> [] then dispatchPush delivered now selected (alertLink selected) False db else db);
          resolved = ListPendingAlertResolutionPushes db1
      in if resolved \<noteq> [] then dispatchPush delivered now resolved ''/alerts'' True db1 else db1)"

section \<open>Telegram\<close>

text \<open>One destination: the new alerts, then the resolutions. An error of one step does not keep the
  other from running. \<open>send\<close> tells whether the message reached the chat.\<close>

definition telegram_destination ::
  "(int \<Rightarrow> alert list \<Rightarrow> string \<Rightarrow> bool \<Rightarrow> bool) \<Rightarrow> alert list \<Rightarrow> (string, time) table \<Rightarrow> time \<Rightarrow> int \<Rightarrow>
   alert_db \<Rightarrow> notify_error list \<times> alert_db" where
  "telegram_destination send alerts suppressed now dest db =
     (let (errs1, db1) =
        (case criticalAlertsPendingTelegram dest alerts suppressed db of
           Inl e \<Rightarrow> ([StateError e], db)
         | Inr selected \<Rightarrow>
             if selected = [] then ([], db)
             else if \<not> send dest selected (alertLink selected) False then ([SendFailed], db)
             else case MarkAlertCriticalTelegramsSent dest (alertIDs selected) now db of
               Inl e \<Rightarrow> ([StateError e], db)
             | Inr db' \<Rightarrow> ([], db'));
          resolved = ListPendingAlertResolutionTelegrams dest db1
      in if resolved = [] then (errs1, db1)
         else if \<not> send dest resolved ''/alerts'' True then (errs1 @ [SendFailed], db1)
         else (errs1, MarkAlertResolutionTelegramsSent dest (alertIDs resolved) now db1))"

fun telegram_loop ::
  "(int \<Rightarrow> alert list \<Rightarrow> string \<Rightarrow> bool \<Rightarrow> bool) \<Rightarrow> alert list \<Rightarrow> (string, time) table \<Rightarrow> time \<Rightarrow> int list \<Rightarrow>
   alert_db \<Rightarrow> notify_error list \<times> alert_db" where
  "telegram_loop send alerts suppressed now [] db = ([], db)"
| "telegram_loop send alerts suppressed now (dest # dests) db =
     (case telegram_destination send alerts suppressed now dest db of
        (errs, db1) \<Rightarrow>
          (case telegram_loop send alerts suppressed now dests db1 of
             (errs', db2) \<Rightarrow> (errs @ errs', db2)))"

text \<open>\<open>dests\<close>: the active destinations, or None when the sender is off.\<close>

definition dispatchTelegram ::
  "(int \<Rightarrow> alert list \<Rightarrow> string \<Rightarrow> bool \<Rightarrow> bool) \<Rightarrow> (db_error + int list) option \<Rightarrow> alert list \<Rightarrow>
   (string, time) table \<Rightarrow> time \<Rightarrow> alert_db \<Rightarrow> notify_error list \<times> alert_db" where
  "dispatchTelegram send dests alerts suppressed now db =
     (case dests of
        None \<Rightarrow> ([], db)
      | Some (Inl e) \<Rightarrow> ([StateError e], db)
      | Some (Inr ds) \<Rightarrow> telegram_loop send alerts suppressed now ds db)"

section \<open>One run\<close>

fun split_on :: "char \<Rightarrow> string \<Rightarrow> string list" where
  "split_on c [] = [[]]"
| "split_on c (x # xs) =
     (if x = c then [] # split_on c xs
      else case split_on c xs of w # ws \<Rightarrow> (x # w) # ws | [] \<Rightarrow> [[x]])"

definition parseRecipients :: "string \<Rightarrow> string list" where
  "parseRecipients raw = filter (\<lambda>s. s \<noteq> []) (map trim_space (split_on (CHR '','') raw))"

record email_settings =
  es_CriticalAlertsEnabled :: bool
  es_SMTPUser :: string
  es_SMTPPass :: string
  es_Recipients :: string
  es_AlertEmailBatchMinutes :: int

text \<open>What a run meets: the notification lock, the settings, the senders that are ready and how
  they fare, and the mute tables.\<close>

record notify_env =
  ne_locked :: bool
  ne_email :: "alert_error + email_settings"
  ne_send_email :: "alert_email \<Rightarrow> bool"
  ne_push :: "(alert list \<Rightarrow> string \<Rightarrow> bool \<Rightarrow> nat) option"
  ne_telegram :: "(db_error + int list) option"
  ne_send_telegram :: "int \<Rightarrow> alert list \<Rightarrow> string \<Rightarrow> bool \<Rightarrow> bool"
  ne_maintenance :: "alert_error + maintenance_table"
  ne_suppressions :: "alert_error + suppression_table"

definition email_config_error :: "email_settings \<Rightarrow> notify_error option" where
  "email_config_error cfg =
     (if \<not> es_CriticalAlertsEnabled cfg then None
      else if es_SMTPUser cfg = [] \<or> es_SMTPPass cfg = [] then Some (ConfigError ''SMTP credentials not configured'')
      else if parseRecipients (es_Recipients cfg) = [] then Some (ConfigError ''no email recipients configured'')
      else None)"

definition run_errors :: "alert_error option \<Rightarrow> notify_error list" where
  "run_errors e = (case e of None \<Rightarrow> [] | Some err \<Rightarrow> [RunError err])"

text \<open>The delivery part of a run, after the evaluation is recorded.\<close>

definition deliver_all ::
  "notify_env \<Rightarrow> email_settings \<Rightarrow> time \<Rightarrow> alert list \<Rightarrow> notify_state \<Rightarrow> notify_error list \<times> notify_state" where
  "deliver_all env cfg now rawAlerts s =
     (let alerts = FilterMaintenanceAlerts now (ne_maintenance env) rawAlerts;
          suppressed = (case ne_suppressions env of Inl _ \<Rightarrow> [] | Inr t \<Rightarrow> GetActiveSuppressions now t);
          s1 = (case ne_push env of
             None \<Rightarrow> s
           | Some delivered \<Rightarrow> s\<lparr>ns_db := push_channel delivered now alerts suppressed (ns_db s)\<rparr>);
          (telegramErr, db2) =
            dispatchTelegram (ne_send_telegram env) (ne_telegram env) alerts suppressed now (ns_db s1);
          s2 = s1\<lparr>ns_db := db2\<rparr>
      in case email_config_error cfg of
           Some e \<Rightarrow> (telegramErr @ [e], s2)
         | None \<Rightarrow>
             if es_CriticalAlertsEnabled cfg then
               (case dispatchImmediateEmail (ne_send_email env) (es_AlertEmailBatchMinutes cfg) alerts suppressed now s2 of
                  (Some e, s3) \<Rightarrow> (telegramErr @ [e], s3)
                | (None, s3) \<Rightarrow> (telegramErr, s3))
             else (telegramErr, s2))"

definition sendImmediateCriticalAlerts ::
  "(string \<Rightarrow> string) \<Rightarrow> location \<Rightarrow> notify_env \<Rightarrow> alert_loader \<Rightarrow> report_service option \<Rightarrow> time \<Rightarrow>
   notify_state \<Rightarrow> notify_error list \<times> notify_state" where
  "sendImmediateCriticalAlerts quote local env st rep now s =
     (if rep \<noteq> None \<and> ne_locked env then ([], s)
      else case ne_email env of
        Inl e \<Rightarrow> ([RunError e], s)
      | Inr cfg \<Rightarrow>
          (case CurrentAlertsRaw quote local now st rep of
             (rawAlerts, runErr) \<Rightarrow>
               if runErr \<noteq> None \<and> \<not> IsPartialAlertsError runErr then (run_errors runErr, s)
               else case SyncAlertStatesFor now rawAlerts runErr (ns_db s) of
                 Inl e \<Rightarrow> (run_errors runErr @ [StateError e], s)
               | Inr db1 \<Rightarrow>
                   (let s1 = s\<lparr>ns_db := db1\<rparr>
                    in if \<not> es_CriticalAlertsEnabled cfg \<and> ne_push env = None \<and> ne_telegram env = None
                       then (run_errors runErr, s1)
                       else case deliver_all env cfg now rawAlerts s1 of
                         (errs, s2) \<Rightarrow> (run_errors runErr @ errs, s2))))"

section \<open>Selection\<close>

definition announceable :: "(string, time) table \<Rightarrow> alert \<Rightarrow> bool" where
  "announceable suppressed a \<longleftrightarrow>
     shouldSendImmediateCriticalEmail a \<and> tbl_get suppressed (al_ID a) = None"

lemma criticalAlertsPending_Inr:
  "criticalAlertsPending alerts suppressed (\<lambda>ids. Inr (sent ids)) =
     Inr (filter (\<lambda>a. announceable suppressed a \<and>
       al_ID a \<notin> set (sent (alertIDs (filter (announceable suppressed) alerts)))) alerts)"
  by (simp add: criticalAlertsPending_def announceable_def [abs_def] Let_def conj_ac)

text \<open>A channel that keeps its contract never selects the same alert twice while its row stays.\<close>

context delivery_channel
begin

lemma pending_after_mark:
  assumes "ok db"
    and sel: "criticalAlertsPending alerts suppressed (\<lambda>ids. Inr (sent ids db)) = (Inr selected :: 'f + alert list)"
    and mark: "mark (alertIDs selected) t db = Inr db'"
    and here: "\<forall>a\<in>set alerts. here db (al_ID a)"
  shows "criticalAlertsPending alerts suppressed (\<lambda>ids. Inr (sent ids db')) = (Inr [] :: 'f + alert list)"
proof -
  let ?ids = "alertIDs (filter (announceable suppressed) alerts)"
  have selected: "selected = filter (\<lambda>a. announceable suppressed a \<and> al_ID a \<notin> set (sent ?ids db)) alerts"
    using sel by (simp add: criticalAlertsPending_Inr)
  have "al_ID a \<in> set (sent ?ids db')" if "a \<in> set alerts" "announceable suppressed a" for a
    using that here by (auto simp: sent_mark [OF assms(1) mark] alertIDs_def selected)
  then show ?thesis by (auto simp: criticalAlertsPending_Inr filter_empty_conv)
qed

end

section \<open>The backoff\<close>

definition backoff_ok :: "smtp_backoff \<Rightarrow> bool" where
  "backoff_ok b \<longleftrightarrow> sb_delay b = 0 \<or> smtpBackoffMin \<le> sb_delay b \<and> sb_delay b \<le> smtpBackoffMax"

lemmas backoff_defs = backoff_record_def backoff_ok_def smtpBackoffMin_def smtpBackoffMax_def minute_def

lemma backoff_double:
  assumes "0 \<le> d" "d \<le> smtpBackoffMax" shows "wrap64 (d * 2) = d * 2"
  using assms by (intro wrap64_id) (simp add: is_int64_def smtpBackoffMax_def minute_def)

text \<open>The delay after a number of consecutive failures.\<close>

fun backoff_after :: "nat \<Rightarrow> time \<Rightarrow> smtp_backoff \<Rightarrow> smtp_backoff" where
  "backoff_after 0 now b = b"
| "backoff_after (Suc n) now b = backoff_record True now (backoff_after n now b)"

lemma backoff_delay_step:
  assumes "sb_delay b = min (2 ^ n * minute) smtpBackoffMax"
  shows "sb_delay (backoff_record True now b) = min (2 ^ Suc n * minute) smtpBackoffMax"
proof -
  let ?p = "(2::int) ^ n"
  have p: "1 \<le> ?p" by simp
  have b: "0 \<le> sb_delay b" "sb_delay b \<le> smtpBackoffMax"
    using assms p by (auto simp: smtpBackoffMax_def minute_def min_def)
  have "min (max (x * 2) m) k = min (2 * p * m) k"
    if "x = min (p * m) k" "1 \<le> p" "0 < m" "m \<le> k" for x p m k :: int
  proof (cases "p * m \<le> k")
    case True
    have "m \<le> p * m" using that by (simp add: mult_le_cancel_right1)
    then show ?thesis using that True by (simp add: max_def mult.commute mult.left_commute)
  next
    case False
    then show ?thesis using that by (auto simp: min_def max_def)
  qed
  from this [OF assms p] show ?thesis
    by (simp add: backoff_record_def backoff_double [OF b] Let_def smtpBackoffMin_def smtpBackoffMax_def minute_def)
qed

lemma backoff_delay_after:
  "sb_delay (backoff_after (Suc n) now no_backoff) = min (2 ^ n * minute) smtpBackoffMax"
proof (induction n)
  case 0
  show ?case by (simp add: backoff_record_def no_backoff_def wrap64_def smtpBackoffMin_def smtpBackoffMax_def minute_def)
next
  case (Suc n)
  show ?case using backoff_delay_step [OF Suc] by simp
qed

section \<open>Email dispatch\<close>

lemma get_mark_resolution_email [tbl_simps]:
  "tbl_get (adb_states (MarkAlertResolutionEmailsSent ids t db)) i =
     map_option (\<lambda>row. if i \<in> set ids
       then row\<lparr>st_resolution_email_pending := False, st_updated_at := t\<rparr> else row) (tbl_get (adb_states db) i)"
  by (auto simp: MarkAlertResolutionEmailsSent_def tbl_simps option.map_ident)

lemma tbl_ok_mark_resolution_email [simp]:
  "tbl_ok (adb_states (MarkAlertResolutionEmailsSent ids t db)) \<longleftrightarrow> tbl_ok (adb_states db)"
  by (simp add: MarkAlertResolutionEmailsSent_def)

lemma set_sent_email_resolution:
  "tbl_ok (adb_states db) \<Longrightarrow>
   set (ListCriticalEmailSentAlertIDs ids (MarkAlertResolutionEmailsSent js t db)) =
   set (ListCriticalEmailSentAlertIDs ids db)"
  by (auto simp: sent_email tbl_simps split: option.splits if_splits)

lemma pendingEmail_cong:
  "(\<And>ids. set (ListCriticalEmailSentAlertIDs ids db) = set (ListCriticalEmailSentAlertIDs ids db')) \<Longrightarrow>
   criticalAlertsPendingEmail alerts suppressed db = criticalAlertsPendingEmail alerts suppressed db'"
  by (simp add: criticalAlertsPendingEmail_def criticalAlertsPending_Inr)

definition resolution_due :: "alert_db \<Rightarrow> string \<Rightarrow> bool" where
  "resolution_due db i \<longleftrightarrow> (case tbl_get (adb_states db) i of None \<Rightarrow> False
     | Some row \<Rightarrow> st_resolution_email_pending row \<and> \<not> st_is_present row)"

lemma ids_pending_alerts: "set (alertIDs (pending_alerts rows)) = fst ` set rows"
  by (simp add: alertIDs_def pending_alerts_def alert_of_state_def case_prod_unfold image_image)

lemma ids_resolution_emails:
  "tbl_ok (adb_states db) \<Longrightarrow> i \<in> set (alertIDs (ListPendingAlertResolutionEmails db)) \<longleftrightarrow> resolution_due db i"
  unfolding ListPendingAlertResolutionEmails_def ids_pending_alerts resolution_due_def
  by (auto simp: tbl_get_in image_iff split: option.split)

lemma no_resolution_emails:
  "tbl_ok (adb_states db) \<Longrightarrow> ListPendingAlertResolutionEmails db = [] \<longleftrightarrow> (\<forall>i. \<not> resolution_due db i)"
proof -
  assume ok: "tbl_ok (adb_states db)"
  have "ListPendingAlertResolutionEmails db = [] \<longleftrightarrow> set (alertIDs (ListPendingAlertResolutionEmails db)) = {}"
    by (simp add: alertIDs_def)
  also have "\<dots> \<longleftrightarrow> (\<forall>i. i \<notin> set (alertIDs (ListPendingAlertResolutionEmails db)))"
    by (rule all_not_in_conv [symmetric])
  finally show ?thesis by (simp add: ids_resolution_emails [OF ok])
qed

lemma resolution_due_marks [simp]:
  "resolution_due (MarkAlertCriticalEmailsSent ids t db) i = resolution_due db i"
  "resolution_due (MarkAlertResolutionEmailsSent ids t db) i \<longleftrightarrow> resolution_due db i \<and> i \<notin> set ids"
  by (auto simp: resolution_due_def tbl_simps split: option.split)

lemma pendingEmail_after_mark:
  assumes "tbl_ok (adb_states db)" "criticalAlertsPendingEmail alerts suppressed db = Inr selected"
    and "\<forall>a\<in>set alerts. is_present db (al_ID a)"
  shows "criticalAlertsPendingEmail alerts suppressed (MarkAlertCriticalEmailsSent (alertIDs selected) t db) = Inr []"
  using email.pending_after_mark [OF assms(1) assms(2) [unfolded criticalAlertsPendingEmail_def] refl assms(3)]
  by (simp add: criticalAlertsPendingEmail_def)

lemma email_all_marked:
  assumes "tbl_ok (adb_states db)" "criticalAlertsPendingEmail alerts suppressed db = Inr selected"
    and "\<forall>a\<in>set alerts. is_present db (al_ID a)"
    and "db' = MarkAlertResolutionEmailsSent (alertIDs (ListPendingAlertResolutionEmails db)) t
      (MarkAlertCriticalEmailsSent (alertIDs selected) t db)"
  shows "criticalAlertsPendingEmail alerts suppressed db' = Inr [] \<and> ListPendingAlertResolutionEmails db' = []"
proof -
  have "criticalAlertsPendingEmail alerts suppressed db' =
      criticalAlertsPendingEmail alerts suppressed (MarkAlertCriticalEmailsSent (alertIDs selected) t db)"
    by (rule pendingEmail_cong) (simp add: assms(1,4) set_sent_email_resolution)
  moreover have "ListPendingAlertResolutionEmails db' = []"
    using assms(1) by (simp add: assms(4) no_resolution_emails ids_resolution_emails)
  ultimately show ?thesis using pendingEmail_after_mark [OF assms(1-3)] by simp
qed

lemma mark_none [simp]:
  "MarkAlertCriticalEmailsSent [] t db = db" "MarkAlertResolutionEmailsSent [] t db = db"
  by (simp_all add: MarkAlertCriticalEmailsSent_def MarkAlertResolutionEmailsSent_def)

text \<open>The outcomes of a dispatch: nothing due, everything sent and marked, or a failure.\<close>

lemma dispatch_sent:
  assumes run: "dispatchImmediateEmail send minutes alerts suppressed now s = (None, s')"
    and sent: "ns_outbox s' \<noteq> ns_outbox s"
    and sel: "criticalAlertsPendingEmail alerts suppressed (ns_db s) = Inr selected"
  shows "ns_db s' = MarkAlertResolutionEmailsSent (alertIDs (ListPendingAlertResolutionEmails (ns_db s))) now
      (MarkAlertCriticalEmailsSent (alertIDs selected) now (ns_db s))"
  using run sent
  by (auto simp: dispatchImmediateEmail_def sel Let_def email_digest_def email_active_def email_resolved_def
      deliver_def alertIDs_def split: prod.splits if_splits bool.splits option.splits)

text \<open>The alerts a message announces, and those it reports as resolved.\<close>

fun active_of :: "alert_email \<Rightarrow> alert list" where
  "active_of (DigestEmail selected _) = selected"
| "active_of (CriticalEmail selected) = selected"
| "active_of (ResolvedEmail _) = []"

fun resolved_of :: "alert_email \<Rightarrow> alert list" where
  "resolved_of (DigestEmail _ resolved) = resolved"
| "resolved_of (CriticalEmail _) = []"
| "resolved_of (ResolvedEmail resolved) = resolved"

lemma dispatch_outbox:
  assumes sel: "criticalAlertsPendingEmail alerts suppressed (ns_db s) = Inr selected"
    and run: "dispatchImmediateEmail send minutes alerts suppressed now s = (r, s')"
  obtains new where "ns_outbox s' = ns_outbox s @ new"
    and "\<And>m. m \<in> set new \<Longrightarrow> send m \<and> set (active_of m) \<subseteq> set selected \<and>
      set (resolved_of m) \<subseteq> set (ListPendingAlertResolutionEmails (ns_db s))"
proof -
  have "\<exists>new. ns_outbox s' = ns_outbox s @ new \<and> (\<forall>m\<in>set new. send m \<and> set (active_of m) \<subseteq> set selected \<and>
      set (resolved_of m) \<subseteq> set (ListPendingAlertResolutionEmails (ns_db s)))"
    using run
    by (auto simp: dispatchImmediateEmail_def sel Let_def email_digest_def email_active_def email_resolved_def
        deliver_def split: prod.splits if_splits bool.splits option.splits)
  then show ?thesis using that by blast
qed

lemma dispatch_refused:
  assumes "\<And>m. \<not> send m"
    and "dispatchImmediateEmail send minutes alerts suppressed now s = (r, s')"
  shows "ns_db s' = ns_db s \<and> ns_outbox s' = ns_outbox s"
  using assms
  by (auto simp: dispatchImmediateEmail_def Let_def email_digest_def email_active_def email_resolved_def
      deliver_def split: sum.splits prod.splits if_splits bool.splits option.splits)

section \<open>Properties\<close>


definition sample_notify :: notify_state where
  "sample_notify = \<lparr>ns_db = sample_db, ns_batch = None, ns_backoff = no_backoff, ns_outbox = []\<rparr>"


text \<open>An email announces only alerts of the run that are critical, not of a stale-report type,
  not suppressed and not emailed since they appeared, and reports as resolved only alerts whose
  resolution is due; the muted and the already announced stay silent.\<close>

theorem email_announces_only_pending:
  assumes "dispatchImmediateEmail send minutes alerts suppressed now s = (r, s')"
    and "m \<in> set (ns_outbox s')" "m \<notin> set (ns_outbox s)" "a \<in> set (active_of m)"
  shows "a \<in> set alerts \<and> al_Severity a = AlertSeverityCritical \<and> al_Type a \<noteq> AlertTypePBSReportStale \<and>
    tbl_get suppressed (al_ID a) = None \<and>
    al_ID a \<notin> set (ListCriticalEmailSentAlertIDs [al_ID a] (ns_db s))"
proof -
  let ?ids = "alertIDs (filter (announceable suppressed) alerts)"
  let ?sel = "filter (\<lambda>a. announceable suppressed a \<and> al_ID a \<notin> set (ListCriticalEmailSentAlertIDs ?ids (ns_db s))) alerts"
  have sel: "criticalAlertsPendingEmail alerts suppressed (ns_db s) = Inr ?sel"
    by (simp add: criticalAlertsPendingEmail_def criticalAlertsPending_Inr)
  have "a \<in> set ?sel"
    using dispatch_outbox [OF sel assms(1)] assms(2-4) by (metis Un_iff set_append subsetD)
  then show ?thesis
    using email.sent_local [of "al_ID a" "[al_ID a]" ?ids "ns_db s"]
    by (auto simp: announceable_def shouldSendImmediateCriticalEmail_def alertIDs_def split: if_splits)
qed

theorem email_announces_only_pending_witness:
  "\<exists>s' m. dispatchImmediateEmail (\<lambda>_. True) 0 [sample_alert 1] [] 5 sample_notify = (None, s') \<and>
     m \<in> set (ns_outbox s') \<and> sample_alert 1 \<in> set (active_of m) \<and>
     al_ID (sample_alert 1) \<notin> set (ListCriticalEmailSentAlertIDs [al_ID (sample_alert 1)] (ns_db sample_notify))"
proof -
  let ?r = "dispatchImmediateEmail (\<lambda>_. True) 0 [sample_alert 1] [] 5 sample_notify"
  have run: "?r = (None, snd ?r)" and out: "ns_outbox (snd ?r) = [CriticalEmail [sample_alert 1]]" by code_simp+
  then show ?thesis
    using email_announces_only_pending [OF run, of "CriticalEmail [sample_alert 1]" "sample_alert 1"]
    by (auto simp: sample_notify_def)
qed

text \<open>When the mail server refuses every message, the delivery state stays as it was: every
  alert and every resolution is still pending for the next attempt.\<close>

theorem email_failure_keeps_pending:
  assumes "\<forall>m. \<not> send m" "dispatchImmediateEmail send minutes alerts suppressed now s = (r, s')"
  shows "ns_db s' = ns_db s \<and> ns_outbox s' = ns_outbox s"
  using dispatch_refused [OF _ assms(2)] assms(1) by blast

theorem email_failure_keeps_pending_witness:
  "\<exists>s'. dispatchImmediateEmail (\<lambda>_. False) 0 [sample_alert 1] [] 5 sample_notify = (Some SendFailed, s') \<and>
     ns_db s' = ns_db sample_notify"
proof -
  let ?r = "dispatchImmediateEmail (\<lambda>_. False) 0 [sample_alert 1] [] 5 sample_notify"
  have run: "?r = (Some SendFailed, snd ?r)" by code_simp
  then show ?thesis using email_failure_keeps_pending [OF _ run] by auto
qed

text \<open>The wait after consecutive SMTP failures is one minute, doubled at each further failure,
  and never more than thirty minutes; it blocks sending exactly until it has passed, and a
  delivery clears it.\<close>

theorem smtp_backoff_schedule:
  "sb_delay (backoff_after (Suc n) now no_backoff) = min (2 ^ n * minute) (30 * minute) \<and>
   (backoff_active t (backoff_after (Suc n) now no_backoff) \<longleftrightarrow> t < now + min (2 ^ n * minute) (30 * minute)) \<and>
   backoff_record False t (backoff_after (Suc n) now no_backoff) = no_backoff"
proof -
  let ?b = "backoff_after (Suc n) now no_backoff"
  have d: "sb_delay ?b = min (2 ^ n * minute) (30 * minute)"
    by (simp only: backoff_delay_after smtpBackoffMax_def)
  moreover have "sb_until ?b = now + sb_delay ?b"
    by (simp add: backoff_record_def Let_def t_add_def)
  ultimately show ?thesis
    by (simp add: backoff_active_def t_before_def backoff_record_def no_backoff_def del: backoff_after.simps)
qed

text \<open>With a batch window of some minutes, the first pending update opens the window, and the
  batch is due exactly when the window has passed since the second it opened in.\<close>

theorem email_batch_window:
  assumes "0 < minutes" "is_int64 (minutes * minute)"
  shows "fst (AlertEmailBatchDue minutes True t (snd (AlertEmailBatchDue minutes True opened None))) \<longleftrightarrow>
    from_unix (unix opened) + minutes * minute \<le> t"
  using assms by (auto simp: AlertEmailBatchDue_def Let_def t_before_def t_add_def)

theorem email_batch_window_witness:
  "\<not> fst (AlertEmailBatchDue 15 True (10 * minute) (snd (AlertEmailBatchDue 15 True 0 None))) \<and>
   fst (AlertEmailBatchDue 15 True (15 * minute) (snd (AlertEmailBatchDue 15 True 0 None)))"
  by (simp add: email_batch_window is_int64_def minute_def from_unix_def unix_def)

text \<open>C15: a run whose evaluation holds two alerts with one identifier and no row yet delivers
  nothing on any channel: the recording fails, the run returns its error and leaves the database,
  the batch, the backoff and the outbox as they were.\<close>

theorem duplicate_ids_block_delivery:
  assumes "CurrentAlertsRaw quote local now st rep = (alerts, None)"
    and "\<not> distinct (fresh_ids (adb_states (ns_db s)) alerts)"
    and "ne_email env = Inr cfg" "\<not> ne_locked env"
  shows "\<exists>e. sendImmediateCriticalAlerts quote local env st rep now s = ([StateError e], s)"
proof -
  obtain e where "syncAlertStates now alerts True (ns_db s) = Inl e"
    using sync_fails_iff [of now alerts True "ns_db s"] assms(2) by blast
  then show ?thesis using assms
    by (simp add: sendImmediateCriticalAlerts_def SyncAlertStatesFor_def IsPartialAlertsError_def
        sync_unfold run_errors_def)
qed

text \<open>One PVE server whose last report lists two failed backups of VM 100.\<close>

definition failed_task :: pve_backup_task where
  "failed_task = \<lparr>pvet_ID = 0, pvet_ReportID = 7, pvet_VMID = 100, pvet_VMName = ''web'',
     pvet_Status = ''job errors'', pvet_StartTime = 0, pvet_EndTime = 0, pvet_Duration = 0,
     pvet_Size = 0, pvet_Filename = []\<rparr>"

definition dup_loader :: alert_loader where
  "dup_loader = \<lparr>
     q_GetEmailConfig = Inr \<lparr>ec_AlertDiskPct = 80, ec_AlertWindowsDiskPct = 90, ec_AlertBackupErr = True,
       ec_AlertPBSStaleHours = 48, ec_AlertPVEExpectedFinishTime = ''08:00'', ec_AlertPVEHeartbeatMinutes = 0\<rparr>,
     q_ListPVEServers = Inr [sample_server], q_ListPBSServers = Inr [], q_ListWindowsServers = Inr [],
     q_GetLatestPVEReports = Inr [(1, \<lparr>pver_ID = 7, pver_ServerID = 1, pver_ReportedAt = 0, pver_IsStale = False,
       pver_StaleReason = [], pver_BackupStatus = ''job errors'', pver_BackupStarttime = 0, pver_BackupEndtime = 0,
       pver_BackupDuration = 0, pver_SwapTotal = 0, pver_SwapUsed = 0, pver_SwapEnabled = False\<rparr>)],
     q_GetLatestPBSReports = Inr [], q_GetRecentWindowsReportsByServer = (\<lambda>_ _. Inr []),
     q_ListPVEVMBackupConfigsByServer = Inr [], q_ListServerHeartbeatsByType = (\<lambda>_. Inr []),
     q_GetPVEBackupTasksForReports = (\<lambda>_. Inr [(7, [failed_task, failed_task])]),
     q_GetPVEStoragesForReports = (\<lambda>_. Inr []), q_GetPVEStorageInfoForStorages = (\<lambda>_. Inr []),
     q_GetPBSStoresForReports = (\<lambda>_. Inr []), q_GetPBSTasksForReports = (\<lambda>_. Inr []),
     q_GetPBSSnapshotsForStores = (\<lambda>_. Inr []), q_GetWindowsDisksForReports = (\<lambda>_. Inr []),
     q_ListPVEAlertConfigs = Inr [], q_ListPVEVMAlertConfigs = Inr [], q_ListPBSAlertConfigs = Inr [],
     q_ListWindowsAlertConfigs = Inr []\<rparr>"

definition dup_env :: notify_env where
  "dup_env = \<lparr>ne_locked = False, ne_email = Inr \<lparr>es_CriticalAlertsEnabled = True, es_SMTPUser = ''u'',
     es_SMTPPass = ''p'', es_Recipients = ''a@b'', es_AlertEmailBatchMinutes = 0\<rparr>,
     ne_send_email = (\<lambda>_. True), ne_push = None, ne_telegram = None, ne_send_telegram = (\<lambda>_ _ _ _. True),
     ne_maintenance = Inr [], ne_suppressions = Inr []\<rparr>"

theorem duplicate_ids_block_delivery_witness:
  "\<exists>e. sendImmediateCriticalAlerts (\<lambda>s. s) utc_zone dup_env dup_loader None hour sample_notify =
     ([StateError e], sample_notify)"
proof -
  let ?r = "CurrentAlertsRaw (\<lambda>s. s) utc_zone hour dup_loader None"
  have run: "?r = (fst ?r, None)" and ids: "map al_ID (fst ?r) = [''backup_error:pve:1:100'', ''backup_error:pve:1:100'']"
    by code_simp+
  have "fresh_ids (adb_states (ns_db sample_notify)) (fst ?r) =
      filter (\<lambda>i. tbl_get (adb_states sample_db) i = None) (map al_ID (fst ?r))"
    by (simp add: fresh_ids_def sample_notify_def)
  also have "\<dots> = [''backup_error:pve:1:100'', ''backup_error:pve:1:100'']"
    unfolding ids by code_simp
  finally show ?thesis
    using duplicate_ids_block_delivery [OF run, of sample_notify dup_env] by (simp add: dup_env_def)
qed

end
