(* ===== verification/Rate_Limit.thy ===== *)
theory Rate_Limit
  imports Go_Base
begin

text \<open>
  The fixed-window limiter of \<open>internal/ratelimit/ratelimit.go\<close>. Its mutex makes \<open>allow\<close>, \<open>Blocked\<close>
  and a round of \<open>cleanup\<close> atomic, so a run is a sequence of them, each with the clock reading it
  took. The counter is a machine integer that would need \<open>2 ^ 63\<close> requests in one window to wrap;
  it is an integer here.
\<close>

section \<open>The limiter\<close>

record bucket =
  bk_count :: int
  bk_reset :: time

record limiter =
  lim_buckets :: "(string, bucket) table"
  lim_max :: int
  lim_window :: duration

definition New_limiter :: "int \<Rightarrow> duration \<Rightarrow> limiter" where
  "New_limiter maxReq window = \<lparr>lim_buckets = [], lim_max = maxReq, lim_window = window\<rparr>"

definition limiter_cleanup :: "time \<Rightarrow> limiter \<Rightarrow> limiter" where
  "limiter_cleanup now l =
     l\<lparr>lim_buckets := tbl_mapf (\<lambda>_ b. if t_after now (bk_reset b) then None else Some b) (lim_buckets l)\<rparr>"

definition allow :: "string \<Rightarrow> time \<Rightarrow> limiter \<Rightarrow> bool \<times> limiter" where
  "allow ip now l =
     (case tbl_get (lim_buckets l) ip of
        None \<Rightarrow>
          (True, l\<lparr>lim_buckets := tbl_put ip \<lparr>bk_count = 1, bk_reset = t_add now (lim_window l)\<rparr> (lim_buckets l)\<rparr>)
      | Some b \<Rightarrow>
          if t_after now (bk_reset b) then
            (True, l\<lparr>lim_buckets := tbl_put ip \<lparr>bk_count = 1, bk_reset = t_add now (lim_window l)\<rparr> (lim_buckets l)\<rparr>)
          else
            (let b' = b\<lparr>bk_count := bk_count b + 1\<rparr>
             in (bk_count b' \<le> lim_max l, l\<lparr>lim_buckets := tbl_put ip b' (lim_buckets l)\<rparr>)))"

definition AllowKey :: "string \<Rightarrow> time \<Rightarrow> limiter \<Rightarrow> bool \<times> limiter" where
  "AllowKey key now l = allow key now l"

definition Blocked :: "string \<Rightarrow> time \<Rightarrow> limiter \<Rightarrow> bool" where
  "Blocked key now l =
     (case tbl_get (lim_buckets l) key of
        None \<Rightarrow> False
      | Some b \<Rightarrow> t_before now (bk_reset b) \<and> bk_count b \<ge> lim_max l)"

section \<open>Runs\<close>

datatype lim_event = Request string time | Cleanup time

fun event_time :: "lim_event \<Rightarrow> time" where
  "event_time (Request _ t) = t"
| "event_time (Cleanup t) = t"

text \<open>The answers a run gives to the requests of one key.\<close>

fun answers :: "string \<Rightarrow> limiter \<Rightarrow> lim_event list \<Rightarrow> bool list" where
  "answers k l [] = []"
| "answers k l (Request ip t # evs) =
     (case allow ip t l of (r, l') \<Rightarrow> (if ip = k then r # answers k l' evs else answers k l' evs))"
| "answers k l (Cleanup t # evs) = answers k (limiter_cleanup t l) evs"

fun requests :: "string \<Rightarrow> lim_event list \<Rightarrow> nat" where
  "requests k [] = 0"
| "requests k (Request ip t # evs) = (if ip = k then Suc (requests k evs) else requests k evs)"
| "requests k (Cleanup t # evs) = requests k evs"

lemma allow_simps [simp]:
  "lim_max (snd (allow ip t l)) = lim_max l" "lim_window (snd (allow ip t l)) = lim_window l"
  by (auto simp: allow_def Let_def split: option.split)

lemma allow_ok [simp]: "tbl_ok (lim_buckets l) \<Longrightarrow> tbl_ok (lim_buckets (snd (allow ip t l)))"
  by (auto simp: allow_def Let_def split: option.split)

lemma cleanup_ok [simp]: "tbl_ok (lim_buckets l) \<Longrightarrow> tbl_ok (lim_buckets (limiter_cleanup t l))"
  by (simp add: limiter_cleanup_def)

lemma allow_other: "ip \<noteq> k \<Longrightarrow> tbl_get (lim_buckets (snd (allow ip t l))) k = tbl_get (lim_buckets l) k"
  by (auto simp: allow_def Let_def tbl_simps split: option.split)

lemma cleanup_live:
  "tbl_ok (lim_buckets l) \<Longrightarrow> tbl_get (lim_buckets l) k = Some b \<Longrightarrow> t \<le> bk_reset b \<Longrightarrow>
   tbl_get (lim_buckets (limiter_cleanup t l)) k = Some b"
  by (simp add: limiter_cleanup_def tbl_simps t_after_def)

text \<open>While a window is open its key is answered by its position in the window alone.\<close>

lemma answers_open_window:
  assumes "tbl_ok (lim_buckets l)" "tbl_get (lim_buckets l) k = Some b"
    and "\<And>e. e \<in> set evs \<Longrightarrow> event_time e \<le> bk_reset b"
  shows "answers k l evs = map (\<lambda>i. bk_count b + int i \<le> lim_max l) [1..<Suc (requests k evs)]"
  using assms
proof (induction k l evs arbitrary: b rule: answers.induct)
  case (2 k l ip t evs)
  obtain r l' where a: "allow ip t l = (r, l')" by (cases "allow ip t l")
  have l': "tbl_ok (lim_buckets l')" "lim_max l' = lim_max l"
    using allow_ok [OF "2.prems"(1), of ip t] allow_simps(1) [of ip t l] a by simp_all
  have t: "t \<le> bk_reset b" using "2.prems"(3) [of "Request ip t"] by simp
  show ?case
  proof (cases "ip = k")
    case True
    let ?b' = "b\<lparr>bk_count := bk_count b + 1\<rparr>"
    have r: "r = (bk_count b + 1 \<le> lim_max l)" and get: "tbl_get (lim_buckets l') k = Some ?b'"
      using a "2.prems"(2) True t by (auto simp: allow_def Let_def t_after_def tbl_simps)
    have "answers k l' evs = map (\<lambda>i. bk_count ?b' + int i \<le> lim_max l') [1..<Suc (requests k evs)]"
      by (rule "2.IH"(1) [OF a [symmetric] True l'(1) get]) (use "2.prems"(3) in auto)
    then show ?thesis using a True r l'(2)
      by (simp add: upt_conv_Cons map_Suc_upt [symmetric] comp_def algebra_simps del: upt_Suc)
  next
    case False
    have "tbl_get (lim_buckets l') k = Some b" using allow_other [OF False, of t l] a "2.prems"(2) by simp
    then have "answers k l' evs = map (\<lambda>i. bk_count b + int i \<le> lim_max l') [1..<Suc (requests k evs)]"
      by (intro "2.IH"(2) [OF a [symmetric] False l'(1)]) (use "2.prems"(3) in auto)
    then show ?thesis using a False l'(2) by simp
  qed
next
  case (3 k l t evs)
  have "tbl_get (lim_buckets (limiter_cleanup t l)) k = Some b"
    using cleanup_live [OF "3.prems"(1,2)] "3.prems"(3) [of "Cleanup t"] by simp
  then show ?case using "3.IH" [OF cleanup_ok [OF "3.prems"(1)]] "3.prems"(3)
    by (simp add: limiter_cleanup_def)
qed simp

section \<open>Properties\<close>



text \<open>\<open>Blocked\<close> foretells \<open>allow\<close> without counting: except at the very instant a window ends, it
  holds exactly when the next request of the key would be refused.\<close>

theorem Blocked_iff_refused:
  assumes "\<forall>b. tbl_get (lim_buckets l) k = Some b \<longrightarrow> now \<noteq> bk_reset b"
  shows "Blocked k now l \<longleftrightarrow> \<not> fst (allow k now l)"
  using assms
  by (auto simp: Blocked_def allow_def Let_def t_before_def t_after_def split: option.split)

theorem Blocked_iff_refused_witness:
  "Blocked ''a'' 1 (snd (allow ''a'' 0 (New_limiter 1 minute))) \<and>
   \<not> fst (allow ''a'' 1 (snd (allow ''a'' 0 (New_limiter 1 minute))))"
proof -
  let ?l = "snd (allow ''a'' 0 (New_limiter 1 minute))"
  have "\<forall>b. tbl_get (lim_buckets ?l) ''a'' = Some b \<longrightarrow> 1 \<noteq> bk_reset b"
    by (simp add: allow_def New_limiter_def tbl_simps t_add_def minute_def)
  moreover have "Blocked ''a'' 1 ?l" by code_simp
  ultimately show ?thesis using Blocked_iff_refused [of ?l "''a''" 1] by blast
qed

end
