(* ===== verification/Netip.thy ===== *)
theory Netip
  imports Go_Base
begin

text \<open>
  The part of Go's \<open>net/netip\<close> the server uses to key and match client addresses: \<open>ParseAddr\<close>,
  \<open>Unmap\<close>, \<open>Is4In6\<close>, \<open>Addr.Prefix\<close> for IPv6, its text form, and \<open>Prefix.Contains\<close>. An IPv4 address
  is its four octets, an IPv6 address its eight 16-bit fields and its zone.
\<close>

datatype addr = Addr4 "nat list" | Addr6 "nat list" string

section \<open>IPv4\<close>

text \<open>The loop of \<open>parseIPv4Fields\<close>: \<open>prevDot\<close> tells that the previous byte was a dot (or there is
  none), \<open>digLen\<close> and \<open>val\<close> describe the current octet.\<close>

fun parse4_loop :: "string \<Rightarrow> bool \<Rightarrow> nat \<Rightarrow> nat \<Rightarrow> nat list \<Rightarrow> nat list option" where
  "parse4_loop [] prevDot digLen val fields =
     (if length fields < 3 then None else Some (fields @ [val]))"
| "parse4_loop (c # s) prevDot digLen val fields =
     (if is_digit c then
        (if digLen = 1 \<and> val = 0 then None
         else let v = val * 10 + digit_val c
           in if v > 255 then None else parse4_loop s False (digLen + 1) v fields)
      else if c = CHR ''.'' then
        (if prevDot \<or> s = [] then None
         else if length fields = 3 then None
         else parse4_loop s True 0 0 (fields @ [val]))
      else None)"

definition parseIPv4Fields :: "string \<Rightarrow> nat list option" where
  "parseIPv4Fields s = parse4_loop s True 0 0 []"

section \<open>IPv6\<close>

definition hex_val :: "char \<Rightarrow> nat option" where
  "hex_val c =
     (let n = of_char c :: nat
      in if 48 \<le> n \<and> n \<le> 57 then Some (n - 48)
         else if 97 \<le> n \<and> n \<le> 102 then Some (n - 87)
         else if 65 \<le> n \<and> n \<le> 70 then Some (n - 55)
         else None)"

text \<open>The leading hexadecimal digits: their number, their value and the rest; more than four digits
  are an error.\<close>

fun hex_field :: "string \<Rightarrow> nat \<Rightarrow> nat \<Rightarrow> (nat \<times> nat \<times> string) option" where
  "hex_field [] off acc = Some (off, acc, [])"
| "hex_field (c # s) off acc =
     (case hex_val c of
        None \<Rightarrow> Some (off, acc, c # s)
      | Some v \<Rightarrow> if off > 3 then None else hex_field s (off + 1) (acc * 16 + v))"

text \<open>The loop over fields. \<open>fuel\<close> is the number of fields still free, as the source stops at 16
  bytes; \<open>ell\<close> is the position of the ellipsis, counted in fields.\<close>

fun parse6_loop :: "nat \<Rightarrow> string \<Rightarrow> nat option \<Rightarrow> nat list \<Rightarrow> (nat list \<times> nat option \<times> string) option" where
  "parse6_loop 0 s ell fields = Some (fields, ell, s)"
| "parse6_loop (Suc fuel) s ell fields =
     (case hex_field s 0 0 of
        None \<Rightarrow> None
      | Some (off, acc, rest) \<Rightarrow>
          if off = 0 then None
          else case rest of
            [] \<Rightarrow> Some (fields @ [acc], ell, [])
          | c # rest' \<Rightarrow>
              if c = CHR ''.'' then
                (if ell = None \<and> length fields \<noteq> 6 then None
                 else if length fields + 2 > 8 then None
                 else case parseIPv4Fields s of
                   Some [a, b, c', d] \<Rightarrow> Some (fields @ [a * 256 + b, c' * 256 + d], ell, [])
                 | _ \<Rightarrow> None)
              else if c \<noteq> CHR '':'' then None
              else case rest' of
                [] \<Rightarrow> None
              | c2 # rest2 \<Rightarrow>
                  if c2 = CHR '':'' then
                    (if ell \<noteq> None then None
                     else if rest2 = [] then Some (fields @ [acc], Some (length fields + 1), [])
                     else parse6_loop fuel rest2 (Some (length fields + 1)) (fields @ [acc]))
                  else parse6_loop fuel rest' ell (fields @ [acc]))"

definition expand6 :: "nat list \<Rightarrow> nat option \<Rightarrow> nat list option" where
  "expand6 fields ell =
     (if length fields < 8 then
        (case ell of
           None \<Rightarrow> None
         | Some e \<Rightarrow> Some (take e fields @ replicate (8 - length fields) 0 @ drop e fields))
      else if ell \<noteq> None then None
      else Some fields)"

text \<open>The fields of the rest of the text, expanded; the whole text has to be used.\<close>

definition finish6 :: "string \<Rightarrow> string \<Rightarrow> nat option \<Rightarrow> addr option" where
  "finish6 zone s ell =
     (case parse6_loop 8 s ell [] of
        Some (fields, ell', []) \<Rightarrow> map_option (\<lambda>g. Addr6 g zone) (expand6 fields ell')
      | _ \<Rightarrow> None)"

definition parseIPv6 :: "string \<Rightarrow> addr option" where
  "parseIPv6 inp =
     (let s = takeWhile (\<lambda>c. c \<noteq> CHR ''%'') inp;
          tail = dropWhile (\<lambda>c. c \<noteq> CHR ''%'') inp;
          zone = drop 1 tail
      in if tail \<noteq> [] \<and> zone = [] then None
         else if take 2 s = ''::'' then
           (if drop 2 s = [] then Some (Addr6 (replicate 8 0) zone) else finish6 zone (drop 2 s) (Some 0))
         else finish6 zone s None)"

text \<open>The first dot, colon or percent sign decides the family.\<close>

definition ParseAddr :: "string \<Rightarrow> addr option" where
  "ParseAddr s =
     (case List.find (\<lambda>c. c = CHR ''.'' \<or> c = CHR '':'' \<or> c = CHR ''%'') s of
        None \<Rightarrow> None
      | Some c \<Rightarrow>
          if c = CHR ''.'' then map_option Addr4 (parseIPv4Fields s)
          else if c = CHR '':'' then parseIPv6 s
          else None)"

section \<open>Operations\<close>

definition Is6 :: "addr \<Rightarrow> bool" where
  "Is6 a = (case a of Addr4 _ \<Rightarrow> False | Addr6 _ _ \<Rightarrow> True)"

definition Is4In6 :: "addr \<Rightarrow> bool" where
  "Is4In6 a = (case a of Addr4 _ \<Rightarrow> False | Addr6 g _ \<Rightarrow> take 6 g = [0, 0, 0, 0, 0, 65535])"

definition Unmap :: "addr \<Rightarrow> addr" where
  "Unmap a =
     (if Is4In6 a then
        (case a of
           Addr6 g _ \<Rightarrow> Addr4 [g ! 6 div 256, g ! 6 mod 256, g ! 7 div 256, g ! 7 mod 256]
         | Addr4 f \<Rightarrow> Addr4 f)
      else a)"

definition hexdigits :: string where "hexdigits = ''0123456789abcdef''"

fun hex_text :: "nat \<Rightarrow> string" where
  "hex_text n = (if n < 16 then [hexdigits ! n] else hex_text (n div 16) @ [hexdigits ! (n mod 16)])"

declare hex_text.simps [simp del]

text \<open>\<open>appendTo6\<close>: the first longest run of at least two zero fields is written \<open>::\<close>.\<close>

definition zero_run :: "nat list \<Rightarrow> nat \<Rightarrow> nat" where
  "zero_run g i = length (takeWhile (\<lambda>x. x = 0) (drop i g))"

fun longest_run :: "nat list \<Rightarrow> nat list \<Rightarrow> nat \<times> nat \<Rightarrow> nat \<times> nat" where
  "longest_run g [] best = best"
| "longest_run g (i # is) best =
     (let l = zero_run g i
      in longest_run g is (if l \<ge> 2 \<and> l > snd best then (i, l) else best))"

fun join_colon :: "string list \<Rightarrow> string" where
  "join_colon [] = []"
| "join_colon [x] = x"
| "join_colon (x # y # xs) = x @ '':'' @ join_colon (y # xs)"

definition text6 :: "nat list \<Rightarrow> string" where
  "text6 g =
     (let (start, l) = longest_run g [0..<8] (0, 0)
      in if l = 0 then join_colon (map hex_text g)
         else join_colon (map hex_text (take start g)) @ ''::'' @ join_colon (map hex_text (drop (start + l) g)))"

text \<open>\<open>addr.Prefix(64)\<close> of an IPv6 address, as text: the lower half cleared, the zone dropped.\<close>

definition prefix64_text :: "nat list \<Rightarrow> string" where
  "prefix64_text g = text6 (take 4 g @ [0, 0, 0, 0]) @ ''/64''"

text \<open>A network prefix: the bits of its address, most significant first, and its length.\<close>

record prefix =
  pfx_addr :: addr
  pfx_bits :: nat

definition octet_bits :: "nat \<Rightarrow> nat \<Rightarrow> bool list" where
  "octet_bits w n = map (\<lambda>i. odd (n div 2 ^ (w - 1 - i))) [0..<w]"

definition addr_bits :: "addr \<Rightarrow> bool list" where
  "addr_bits a = (case a of
     Addr4 f \<Rightarrow> concat (map (octet_bits 8) f)
   | Addr6 g _ \<Rightarrow> concat (map (octet_bits 16) g))"

definition same_family :: "addr \<Rightarrow> addr \<Rightarrow> bool" where
  "same_family a b \<longleftrightarrow> Is6 a = Is6 b"

definition has_zone :: "addr \<Rightarrow> bool" where
  "has_zone a = (case a of Addr4 _ \<Rightarrow> False | Addr6 _ z \<Rightarrow> z \<noteq> [])"

definition prefix_contains :: "prefix \<Rightarrow> addr \<Rightarrow> bool" where
  "prefix_contains p a \<longleftrightarrow>
     \<not> has_zone a \<and> same_family (pfx_addr p) a \<and>
     take (pfx_bits p) (addr_bits (pfx_addr p)) = take (pfx_bits p) (addr_bits a)"

section \<open>What a parsed address is made of\<close>

text \<open>A slash is no part of an address outside the zone: the text of a prefix is never an address.\<close>

lemma hex_val_slash [simp]: "hex_val CHR ''/'' = None"
  by (simp add: hex_val_def)

lemma hex_field_consumed:
  "hex_field s off acc = Some (off', acc', rest) \<Longrightarrow> \<exists>pre. s = pre @ rest \<and> CHR ''/'' \<notin> set pre"
proof (induction s off acc rule: hex_field.induct)
  case (2 c s off acc)
  show ?case
  proof (cases "hex_val c")
    case (Some v)
    then have "\<exists>pre. s = pre @ rest \<and> CHR ''/'' \<notin> set pre"
      using 2 by (auto split: if_splits)
    then obtain pre where "s = pre @ rest" "CHR ''/'' \<notin> set pre" by blast
    moreover have "c \<noteq> CHR ''/''" using Some by auto
    ultimately have "c # s = (c # pre) @ rest \<and> CHR ''/'' \<notin> set (c # pre)" by simp
    then show ?thesis by blast
  qed (use "2.prems" in auto)
qed simp

lemma parse4_no_slash:
  "parse4_loop s prevDot digLen val fs = Some r \<Longrightarrow> CHR ''/'' \<notin> set s"
  by (induction s prevDot digLen val fs rule: parse4_loop.induct)
    (auto simp: Let_def is_digit_def split: if_splits)

lemma parse6_consumed:
  "parse6_loop fuel s ell fs = Some (fs', ell', rest) \<Longrightarrow> \<exists>pre. s = pre @ rest \<and> CHR ''/'' \<notin> set pre"
proof (induction fuel s ell fs rule: parse6_loop.induct)
  case (2 fuel s ell fs)
  obtain off acc r where h: "hex_field s 0 0 = Some (off, acc, r)"
    using "2.prems" by (auto split: option.splits)
  obtain pre where pre: "s = pre @ r" "CHR ''/'' \<notin> set pre" using hex_field_consumed [OF h] by blast
  have off: "off \<noteq> 0" using "2.prems" h by (auto split: if_splits)
  show ?case
  proof (cases r)
    case Nil
    then show ?thesis using "2.prems" h off pre by auto
  next
    case (Cons c r')
    consider (dot) "c = CHR ''.''" | (colon) "c = CHR '':''"
      using "2.prems" h off Cons by (auto split: if_splits)
    then show ?thesis
    proof cases
      case dot
      then have "\<exists>q. parseIPv4Fields s = Some q" and "rest = []"
        using "2.prems" h off Cons by (auto split: if_splits option.splits list.splits)
      then show ?thesis using parse4_no_slash by (auto simp: parseIPv4Fields_def)
    next
      case colon
      obtain c2 r2 where r': "r' = c2 # r2"
        using "2.prems" h off Cons colon by (auto split: list.splits)
      have "\<exists>q. c2 # r2 = q @ rest \<and> CHR ''/'' \<notin> set q"
      proof (cases "c2 = CHR '':''")
        case True
        then have "r2 = [] \<and> rest = [] \<or> (\<exists>q. r2 = q @ rest \<and> CHR ''/'' \<notin> set q)"
          using "2.prems" "2.IH"(1) [OF h refl refl off Cons _ _ r' True] h off Cons colon r'
          by (auto split: if_splits)
        then obtain q where "r2 = q @ rest" "CHR ''/'' \<notin> set q" by auto
        then have "c2 # r2 = (c2 # q) @ rest \<and> CHR ''/'' \<notin> set (c2 # q)" using True by simp
        then show ?thesis by blast
      next
        case False
        then show ?thesis using "2.prems" "2.IH"(2) [OF h refl refl off Cons _ _ r' False] h off Cons colon r'
          by auto
      qed
      then obtain q where q: "c2 # r2 = q @ rest" "CHR ''/'' \<notin> set q" by blast
      then have "s = (pre @ c # q) @ rest \<and> CHR ''/'' \<notin> set (pre @ c # q)"
        using pre Cons r' colon by auto
      then show ?thesis by blast
    qed
  qed
qed simp

lemma ParseAddr_no_slash:
  assumes "ParseAddr s = Some a" "CHR ''%'' \<notin> set s"
  shows "CHR ''/'' \<notin> set s"
proof -
  have whole: "takeWhile (\<lambda>c. c \<noteq> CHR ''%'') s = s" "dropWhile (\<lambda>c. c \<noteq> CHR ''%'') s = []"
    using assms(2) by (auto simp: takeWhile_eq_all_conv dropWhile_eq_Nil_conv)
  have loop: "CHR ''/'' \<notin> set t" if "finish6 z t ell = Some a" for z t ell
    using that parse6_consumed [of 8 t ell "[]"] by (auto simp: finish6_def split: option.splits list.splits)
  show ?thesis
  proof (cases "take 2 s = ''::''")
    case True
    obtain r where "s = take 2 s @ r" by (rule that [OF append_take_drop_id [symmetric]])
    then have r: "s = CHR '':'' # CHR '':'' # r" unfolding True by (simp only: append_Cons append_Nil)
    have "parseIPv6 s = Some a" using assms(1) by (simp add: ParseAddr_def r)
    then have "drop 2 s = [] \<or> finish6 [] (drop 2 s) (Some 0) = Some a"
      by (simp add: parseIPv6_def whole True split: if_splits)
    then have "CHR ''/'' \<notin> set r" using loop by (auto simp: r)
    then show ?thesis by (simp add: r)
  next
    case False
    then show ?thesis using assms(1)
      by (auto simp: ParseAddr_def parseIPv6_def whole parseIPv4Fields_def Let_def
          split: option.splits if_splits dest!: parse4_no_slash dest: loop)
  qed
qed

text \<open>The text of an address has neither a slash nor a percent sign.\<close>

lemma hex_text_chars: "c \<in> set (hex_text n) \<Longrightarrow> c \<in> set hexdigits"
proof (induction n rule: hex_text.induct)
  case (1 n)
  show ?case
  proof (cases "n < 16")
    case True
    then have "hexdigits ! n \<in> set hexdigits" by (intro nth_mem) (simp add: hexdigits_def)
    then show ?thesis using "1.prems" True by (simp add: hex_text.simps)
  next
    case False
    then have "c \<in> set (hex_text (n div 16)) \<or> c = hexdigits ! (n mod 16)"
      using "1.prems" by (auto simp: hex_text.simps [of n])
    moreover have "hexdigits ! (n mod 16) \<in> set hexdigits" by (rule nth_mem) (simp add: hexdigits_def)
    ultimately show ?thesis using 1 False by auto
  qed
qed

lemma join_colon_chars: "c \<in> set (join_colon xs) \<Longrightarrow> c = CHR '':'' \<or> (\<exists>x\<in>set xs. c \<in> set x)"
  by (induction xs rule: join_colon.induct) auto

lemma join_hex_chars: "c \<in> set (join_colon (map hex_text g)) \<Longrightarrow> c = CHR '':'' \<or> c \<in> set hexdigits"
  by (auto dest!: join_colon_chars dest: hex_text_chars)

lemma text6_chars: "c \<in> set (text6 g) \<Longrightarrow> c = CHR '':'' \<or> c \<in> set hexdigits"
  by (auto simp: text6_def split: prod.splits if_splits dest!: join_hex_chars)

lemma prefix_text_no_addr: "ParseAddr (prefix64_text g) = None"
proof (rule ccontr)
  assume "ParseAddr (prefix64_text g) \<noteq> None"
  then obtain a where "ParseAddr (prefix64_text g) = Some a" by blast
  moreover have "CHR ''%'' \<notin> set (prefix64_text g)"
    by (auto simp: prefix64_text_def hexdigits_def dest!: text6_chars)
  ultimately have "CHR ''/'' \<notin> set (prefix64_text g)" by (rule ParseAddr_no_slash)
  then show False by (simp add: prefix64_text_def)
qed

end
