(* ===== verification/Banhammer.thy ===== *)
theory Banhammer
  imports Netip "HOL-Library.Multiset"
begin

text \<open>
  The progressive bans of \<open>internal/ratelimit/banhammer.go\<close> and their table in
  \<open>internal/store/ip_bans.go\<close>. The mutex makes every method one step, taken with the clock reading
  the method takes. A write to the store that fails is ignored by the source; the model's writes
  succeed. The table keeps instants in whole seconds, as RFC 3339 text.
\<close>

section \<open>The table of bans\<close>

record ip_ban =
  ib_IP :: string
  ib_BanCount :: int
  ib_BanExpiry :: "time option"
  ib_BannedAt :: time

definition rfc3339 :: "time \<Rightarrow> time" where
  "rfc3339 t = from_unix (unix t)"

definition stored_ban :: "ip_ban \<Rightarrow> ip_ban" where
  "stored_ban b = b\<lparr>ib_BanExpiry := map_option rfc3339 (ib_BanExpiry b), ib_BannedAt := rfc3339 (ib_BannedAt b)\<rparr>"

type_synonym ban_table = "(string, ip_ban) table"

definition ListIPBans :: "ban_table \<Rightarrow> ip_ban list" where
  "ListIPBans t = sort_key (\<lambda>b. - ib_BannedAt b) (map snd t)"

definition UpsertIPBan :: "ip_ban \<Rightarrow> ban_table \<Rightarrow> ban_table" where
  "UpsertIPBan b t = tbl_put (ib_IP b) (stored_ban b) t"

definition DeleteIPBan :: "string \<Rightarrow> ban_table \<Rightarrow> ban_table" where
  "DeleteIPBan ip t = tbl_del ip t"

section \<open>The banhammer\<close>

definition permanentExpiry :: time where "permanentExpiry = from_unix 253370764800"

record ip_state =
  is_failures :: "time list"
  is_banExpiry :: time
  is_banCount :: int
  is_bannedAt :: time

definition zero_ip_state :: ip_state where
  "zero_ip_state = \<lparr>is_failures = [], is_banExpiry = zero_time, is_banCount = 0, is_bannedAt = zero_time\<rparr>"

record banhammer =
  bh_states :: "(string, ip_state) table"
  bh_store :: "ban_table option"
  bh_maxFails :: int
  bh_window :: duration
  bh_banDurs :: "duration list"
  bh_trusted :: "prefix list"
  bh_proxies :: "prefix list"

definition NewBanhammer :: "int \<Rightarrow> duration \<Rightarrow> ban_table option \<Rightarrow> duration list \<Rightarrow> banhammer" where
  "NewBanhammer maxFails window store banDurs =
     \<lparr>bh_states = [], bh_store = store, bh_maxFails = maxFails, bh_window = window,
      bh_banDurs = (if banDurs = [] then [24 * hour] else banDurs),
      bh_trusted = [], bh_proxies = []\<rparr>"

definition SetTrustedNetworks :: "prefix list \<Rightarrow> prefix list \<Rightarrow> banhammer \<Rightarrow> banhammer" where
  "SetTrustedNetworks trusted proxies b = b\<lparr>bh_trusted := trusted, bh_proxies := proxies\<rparr>"

definition isTrusted :: "string \<Rightarrow> banhammer \<Rightarrow> bool" where
  "isTrusted ip b =
     (case ParseAddr ip of
        None \<Rightarrow> False
      | Some a0 \<Rightarrow>
          (let a = Unmap a0
           in if list_ex (\<lambda>p. prefix_contains p a) (bh_proxies b) then False
              else list_ex (\<lambda>p. prefix_contains p a) (bh_trusted b)))"

definition load_ban :: "time \<Rightarrow> ip_ban \<Rightarrow> ip_state" where
  "load_ban now ban =
     (let s = zero_ip_state\<lparr>is_banCount := ib_BanCount ban, is_bannedAt := ib_BannedAt ban\<rparr>
      in case ib_BanExpiry ban of
           None \<Rightarrow> s\<lparr>is_banExpiry := permanentExpiry\<rparr>
         | Some e \<Rightarrow> if t_after e now then s\<lparr>is_banExpiry := e\<rparr> else s)"

definition load_bans :: "time \<Rightarrow> ip_ban list \<Rightarrow> (string, ip_state) table \<Rightarrow> (string, ip_state) table" where
  "load_bans now bans states = foldl (\<lambda>t ban. tbl_put (ib_IP ban) (load_ban now ban) t) states bans"

definition Load :: "time \<Rightarrow> banhammer \<Rightarrow> banhammer" where
  "Load now b =
     (case bh_store b of
        None \<Rightarrow> b
      | Some st \<Rightarrow> b\<lparr>bh_states := load_bans now (ListIPBans st) (bh_states b)\<rparr>)"

text \<open>The rank is the number of bans imposed before, which starts at zero and only grows: the model
  gives no meaning to a negative one, where the source would panic.\<close>

definition banDurFor :: "int \<Rightarrow> banhammer \<Rightarrow> duration" where
  "banDurFor n b =
     (if n \<ge> int (length (bh_banDurs b)) then last (bh_banDurs b) else bh_banDurs b ! nat n)"

definition BanKey :: "string \<Rightarrow> string" where
  "BanKey ip =
     (case ParseAddr ip of
        None \<Rightarrow> ip
      | Some a \<Rightarrow>
          if \<not> Is6 a \<or> Is4In6 a then ip
          else case a of Addr6 g _ \<Rightarrow> prefix64_text g | Addr4 _ \<Rightarrow> ip)"

definition getOrCreate :: "string \<Rightarrow> banhammer \<Rightarrow> ip_state" where
  "getOrCreate ip b = or_zero zero_ip_state (tbl_get (bh_states b) ip)"

definition banned_at :: "time \<Rightarrow> ip_state \<Rightarrow> bool" where
  "banned_at now s \<longleftrightarrow>
     \<not> is_zero (is_banExpiry s) \<and> (is_banExpiry s = permanentExpiry \<or> t_before now (is_banExpiry s))"

definition cleanupAt :: "time \<Rightarrow> banhammer \<Rightarrow> banhammer" where
  "cleanupAt now b =
     (let cutoff = t_add now (- bh_window b)
      in b\<lparr>bh_states := tbl_mapf (\<lambda>_ s.
           if banned_at now s then Some s
           else let hasRecent = list_ex (\<lambda>t. t_after t cutoff) (is_failures s)
             in if \<not> hasRecent \<and> is_banCount s = 0 then None
                else if \<not> hasRecent then Some (s\<lparr>is_failures := []\<rparr>)
                else Some s) (bh_states b)\<rparr>)"

definition IsBanned :: "string \<Rightarrow> time \<Rightarrow> banhammer \<Rightarrow> (bool \<times> duration) \<times> banhammer" where
  "IsBanned ip0 now b =
     (if isTrusted ip0 b then ((False, 0), b)
      else let ip = BanKey ip0
        in case tbl_get (bh_states b) ip of
             None \<Rightarrow> ((False, 0), b)
           | Some s \<Rightarrow>
               if is_zero (is_banExpiry s) then ((False, 0), b)
               else if is_banExpiry s = permanentExpiry then ((True, -1), b)
               else let remaining = t_sub (is_banExpiry s) now
                 in if remaining \<le> 0 then
                      ((False, 0), b\<lparr>bh_states := tbl_put ip
                         (s\<lparr>is_banExpiry := zero_time, is_failures := []\<rparr>) (bh_states b)\<rparr>)
                    else ((True, remaining), b))"

text \<open>The ban imposed on a key, in memory and in the store.\<close>

definition impose :: "string \<Rightarrow> time \<Rightarrow> ip_state \<Rightarrow> banhammer \<Rightarrow> banhammer" where
  "impose ip now s b =
     (let dur = banDurFor (is_banCount s) b;
          s' = s\<lparr>is_banCount := is_banCount s + 1, is_bannedAt := now, is_failures := [],
                 is_banExpiry := (if dur = 0 then permanentExpiry else t_add now dur)\<rparr>;
          ban = \<lparr>ib_IP = ip, ib_BanCount = is_banCount s',
                 ib_BanExpiry = (if dur = 0 then None else Some (is_banExpiry s')), ib_BannedAt = now\<rparr>
      in b\<lparr>bh_states := tbl_put ip s' (bh_states b),
           bh_store := map_option (UpsertIPBan ban) (bh_store b)\<rparr>)"

definition RecordFailure :: "string \<Rightarrow> time \<Rightarrow> banhammer \<Rightarrow> bool \<times> banhammer" where
  "RecordFailure ip0 now b =
     (if isTrusted ip0 b then (False, b)
      else let ip = BanKey ip0; s = getOrCreate ip b
        in if banned_at now s then (False, b)
           else let cutoff = t_add now (- bh_window b);
                    valid = filter (\<lambda>t. t_after t cutoff) (is_failures s) @ [now];
                    s1 = s\<lparr>is_failures := valid\<rparr>
             in if int (length valid) < bh_maxFails b then
                  (False, b\<lparr>bh_states := tbl_put ip s1 (bh_states b)\<rparr>)
                else (True, impose ip now s1 b))"

definition ClearFailures :: "string \<Rightarrow> banhammer \<Rightarrow> banhammer" where
  "ClearFailures ip0 b =
     b\<lparr>bh_states := tbl_mapf (\<lambda>k s. Some (if k = BanKey ip0 then s\<lparr>is_failures := []\<rparr> else s)) (bh_states b)\<rparr>"

definition UnbanKeys :: "string \<Rightarrow> string list" where
  "UnbanKeys ip = (let key = BanKey ip in if key \<noteq> ip then [ip, key] else [ip])"

definition UnbanIP :: "string \<Rightarrow> banhammer \<Rightarrow> banhammer" where
  "UnbanIP ip b =
     foldl (\<lambda>b key. b\<lparr>bh_states := tbl_del key (bh_states b), bh_store := map_option (DeleteIPBan key) (bh_store b)\<rparr>)
       b (UnbanKeys ip)"

definition ListBanned :: "time \<Rightarrow> banhammer \<Rightarrow> ip_ban list" where
  "ListBanned now b =
     map (\<lambda>(ip, s). \<lparr>ib_IP = ip, ib_BanCount = is_banCount s,
            ib_BanExpiry = (if is_banExpiry s \<noteq> permanentExpiry then Some (is_banExpiry s) else None),
            ib_BannedAt = is_bannedAt s\<rparr>)
       (filter (\<lambda>(_, s). \<not> is_zero (is_banExpiry s) \<and>
          \<not> (is_banExpiry s \<noteq> permanentExpiry \<and> t_after now (is_banExpiry s))) (bh_states b))"

section \<open>The contract of the ban store\<close>

text \<open>The interface \<open>BanStore\<close>: what a list shows after an upsert and a delete.\<close>

locale ban_store =
  fixes list_bans :: "'s \<Rightarrow> ip_ban list"
    and upsert :: "ip_ban \<Rightarrow> 's \<Rightarrow> 's"
    and delete :: "string \<Rightarrow> 's \<Rightarrow> 's"
    and kept :: "ip_ban \<Rightarrow> ip_ban"
    and ok :: "'s \<Rightarrow> bool"
  assumes one_per_ip: "ok s \<Longrightarrow> distinct (map ib_IP (list_bans s))"
    and list_upsert: "ok s \<Longrightarrow>
      c \<in> set (list_bans (upsert b s)) \<longleftrightarrow> c = kept b \<or> c \<in> set (list_bans s) \<and> ib_IP c \<noteq> ib_IP b"
    and list_delete: "ok s \<Longrightarrow> c \<in> set (list_bans (delete ip s)) \<longleftrightarrow> c \<in> set (list_bans s) \<and> ib_IP c \<noteq> ip"
    and ok_upsert: "ok s \<Longrightarrow> ok (upsert b s)"
    and ok_delete: "ok s \<Longrightarrow> ok (delete ip s)"
    and kept_ip [simp]: "ib_IP (kept b) = ib_IP b"

lemma find_by_key: "distinct (map f xs) \<Longrightarrow> x \<in> set xs \<Longrightarrow> List.find (\<lambda>y. f y = f x) xs = Some x"
  by (induction xs) force+

lemma load_bans_get:
  assumes "distinct (map ib_IP bans)"
  shows "tbl_get (load_bans now bans states) k =
    (case List.find (\<lambda>b. ib_IP b = k) bans of Some ban \<Rightarrow> Some (load_ban now ban) | None \<Rightarrow> tbl_get states k)"
  using assms
proof (induction bans arbitrary: states)
  case (Cons ban bans)
  have "List.find (\<lambda>b. ib_IP b = k) bans = None" if "ib_IP ban = k"
    using Cons.prems that by (auto simp: find_None_iff image_iff)
  then show ?case using Cons by (auto simp: load_bans_def tbl_simps split: option.split)
qed (simp add: load_bans_def)

context ban_store
begin

text \<open>Loading the bans into an empty memory shows what the store lists.\<close>

lemma load_listed:
  assumes "ok s" "b \<in> set (list_bans s)"
  shows "tbl_get (load_bans now (list_bans s) []) (ib_IP b) = Some (load_ban now b)"
proof -
  have "List.find (\<lambda>c. ib_IP c = ib_IP b) (list_bans s) = Some b"
    using one_per_ip [OF assms(1)] assms(2) by (rule find_by_key)
  then show ?thesis by (simp add: load_bans_get [OF one_per_ip [OF assms(1)]])
qed

end

text \<open>A table whose keys are the addresses of its rows.\<close>

definition ban_table_ok :: "ban_table \<Rightarrow> bool" where
  "ban_table_ok t \<longleftrightarrow> tbl_ok t \<and> (\<forall>(ip, b) \<in> set t. ib_IP b = ip)"

lemma ban_table_get: "ban_table_ok t \<Longrightarrow> b \<in> snd ` set t \<longleftrightarrow> tbl_get t (ib_IP b) = Some b"
  by (force simp: ban_table_ok_def tbl_get_in [symmetric])

lemma ban_table_okI:
  "tbl_ok t \<Longrightarrow> (\<And>ip b. tbl_get t ip = Some b \<Longrightarrow> ib_IP b = ip) \<Longrightarrow> ban_table_ok t"
  by (auto simp: ban_table_ok_def tbl_get_in)

lemma ban_table_ok_ip: "ban_table_ok t \<Longrightarrow> tbl_get t ip = Some b \<Longrightarrow> ib_IP b = ip"
  by (auto simp: ban_table_ok_def tbl_get_in [symmetric])

lemma stored_ban_ip [simp]: "ib_IP (stored_ban b) = ib_IP b"
  by (simp add: stored_ban_def)

lemma ban_table_ok_upsert: "ban_table_ok t \<Longrightarrow> ban_table_ok (UpsertIPBan b t)"
  by (rule ban_table_okI)
    (auto simp: UpsertIPBan_def tbl_simps ban_table_ok_def split: if_splits dest: ban_table_ok_ip [unfolded ban_table_ok_def, rotated])

lemma ban_table_ok_delete: "ban_table_ok t \<Longrightarrow> ban_table_ok (DeleteIPBan ip t)"
  by (rule ban_table_okI)
    (auto simp: DeleteIPBan_def tbl_simps ban_table_ok_def split: if_splits dest: ban_table_ok_ip [unfolded ban_table_ok_def, rotated])

lemma get_bans:
  "tbl_get (UpsertIPBan b t) ip = (if ip = ib_IP b then Some (stored_ban b) else tbl_get t ip)"
  "tbl_get (DeleteIPBan j t) ip = (if ip = j then None else tbl_get t ip)"
  by (simp_all add: UpsertIPBan_def DeleteIPBan_def tbl_simps)

lemma set_ListIPBans: "set (ListIPBans t) = snd ` set t"
  by (simp add: ListIPBans_def)

interpretation ip_bans: ban_store ListIPBans UpsertIPBan DeleteIPBan stored_ban ban_table_ok
proof
  fix s :: ban_table and b c :: ip_ban and ip :: string
  assume ok: "ban_table_ok s"
  have "map ib_IP (map snd s) = map fst s" using ok by (auto simp: ban_table_ok_def)
  moreover have "mset (map ib_IP (ListIPBans s)) = mset (map ib_IP (map snd s))"
    by (simp add: ListIPBans_def multiset.map_comp)
  ultimately have "mset (map ib_IP (ListIPBans s)) = mset (map fst s)" by (simp only:)
  then show "distinct (map ib_IP (ListIPBans s))"
    using ok by (metis ban_table_ok_def mset_eq_imp_distinct_iff tbl_ok_def)
  show "c \<in> set (ListIPBans (UpsertIPBan b s)) \<longleftrightarrow>
      c = stored_ban b \<or> c \<in> set (ListIPBans s) \<and> ib_IP c \<noteq> ib_IP b"
    using ok by (auto simp: set_ListIPBans ban_table_get [OF ban_table_ok_upsert [OF ok]] ban_table_get
        get_bans)
  show "c \<in> set (ListIPBans (DeleteIPBan ip s)) \<longleftrightarrow> c \<in> set (ListIPBans s) \<and> ib_IP c \<noteq> ip"
    using ok by (auto simp: set_ListIPBans ban_table_get [OF ban_table_ok_delete [OF ok]] ban_table_get
        get_bans)
  show "ban_table_ok (UpsertIPBan b s)" "ban_table_ok (DeleteIPBan ip s)"
    using ok by (rule ban_table_ok_upsert ban_table_ok_delete)+
qed simp

section \<open>Failures and bans\<close>

text \<open>A run of failed logins from one address, with what each call returned.\<close>

fun record_all :: "string \<Rightarrow> time list \<Rightarrow> banhammer \<Rightarrow> bool list \<times> banhammer" where
  "record_all ip [] b = ([], b)"
| "record_all ip (t # ts) b =
     (case RecordFailure ip t b of (r, b1) \<Rightarrow> (case record_all ip ts b1 of (rs, b2) \<Rightarrow> (r # rs, b2)))"

lemma isTrusted_cong:
  "bh_trusted b = bh_trusted b' \<Longrightarrow> bh_proxies b = bh_proxies b' \<Longrightarrow> isTrusted ip b = isTrusted ip b'"
  unfolding isTrusted_def by (simp only:)

lemma isTrusted_states [simp]: "isTrusted ip (b\<lparr>bh_states := x\<rparr>) = isTrusted ip b"
  by (rule isTrusted_cong) simp_all

lemma not_banned_zero: "is_banExpiry s = zero_time \<Longrightarrow> \<not> banned_at now s"
  by (simp add: banned_at_def is_zero_def)

text \<open>A failure below the limit only adds its instant.\<close>

lemma RecordFailure_below:
  assumes "\<not> isTrusted ip b" "\<not> banned_at now (getOrCreate (BanKey ip) b)"
    and "\<forall>t\<in>set (is_failures (getOrCreate (BanKey ip) b)). now - bh_window b < t"
    and "int (length (is_failures (getOrCreate (BanKey ip) b))) + 1 < bh_maxFails b"
  shows "RecordFailure ip now b = (False, b\<lparr>bh_states := tbl_put (BanKey ip)
    ((getOrCreate (BanKey ip) b)\<lparr>is_failures := is_failures (getOrCreate (BanKey ip) b) @ [now]\<rparr>) (bh_states b)\<rparr>)"
proof -
  have "filter (\<lambda>t. t_after t (t_add now (- bh_window b))) (is_failures (getOrCreate (BanKey ip) b)) =
      is_failures (getOrCreate (BanKey ip) b)"
    using assms(3) by (auto simp: filter_id_conv t_after_def t_add_def)
  then show ?thesis using assms by (simp add: RecordFailure_def Let_def)
qed

lemma RecordFailure_limit:
  assumes "\<not> isTrusted ip b" "\<not> banned_at now (getOrCreate (BanKey ip) b)"
    and "\<forall>t\<in>set (is_failures (getOrCreate (BanKey ip) b)). now - bh_window b < t"
    and "int (length (is_failures (getOrCreate (BanKey ip) b))) + 1 \<ge> bh_maxFails b"
  shows "RecordFailure ip now b = (True, impose (BanKey ip) now
    ((getOrCreate (BanKey ip) b)\<lparr>is_failures := is_failures (getOrCreate (BanKey ip) b) @ [now]\<rparr>) b)"
proof -
  have "filter (\<lambda>t. t_after t (t_add now (- bh_window b))) (is_failures (getOrCreate (BanKey ip) b)) =
      is_failures (getOrCreate (BanKey ip) b)"
    using assms(3) by (auto simp: filter_id_conv t_after_def t_add_def)
  then show ?thesis using assms by (simp add: RecordFailure_def Let_def)
qed

lemma getOrCreate_put [simp]: "getOrCreate k (b\<lparr>bh_states := tbl_put k s t\<rparr>) = s"
  by (simp add: getOrCreate_def tbl_simps)

lemma record_all_below:
  assumes "\<not> isTrusted ip b" "is_banExpiry (getOrCreate (BanKey ip) b) = zero_time"
    and "\<forall>f\<in>set (is_failures (getOrCreate (BanKey ip) b) @ ts). \<forall>t\<in>set ts. t - bh_window b < f"
    and "int (length (is_failures (getOrCreate (BanKey ip) b)) + length ts) < bh_maxFails b"
  shows "\<exists>b'. record_all ip ts b = (replicate (length ts) False, b') \<and>
    getOrCreate (BanKey ip) b' = (getOrCreate (BanKey ip) b)\<lparr>is_failures := is_failures (getOrCreate (BanKey ip) b) @ ts\<rparr> \<and>
    (\<exists>ss. b' = b\<lparr>bh_states := ss\<rparr>)"
  using assms
proof (induction ts arbitrary: b)
  case Nil
  then show ?case by (auto intro: exI [of _ "bh_states b"])
next
  case (Cons t ts)
  let ?k = "BanKey ip" and ?s = "getOrCreate (BanKey ip) b"
  let ?b1 = "b\<lparr>bh_states := tbl_put ?k (?s\<lparr>is_failures := is_failures ?s @ [t]\<rparr>) (bh_states b)\<rparr>"
  have r: "RecordFailure ip t b = (False, ?b1)"
    by (rule RecordFailure_below) (use Cons.prems not_banned_zero in auto)
  obtain b' ss where "record_all ip ts ?b1 = (replicate (length ts) False, b')"
    "getOrCreate ?k b' = (getOrCreate ?k ?b1)\<lparr>is_failures := is_failures (getOrCreate ?k ?b1) @ ts\<rparr>"
    "b' = ?b1\<lparr>bh_states := ss\<rparr>"
    using Cons.IH [of ?b1] Cons.prems by auto
  then show ?case by (auto simp: r)
qed

section \<open>Being banned\<close>

lemma sat64_pos: "sat64 x \<le> 0 \<longleftrightarrow> x \<le> 0"
  by (auto simp: sat64_def min_def max_def)

lemma IsBanned_iff:
  "fst (fst (IsBanned ip now b)) \<longleftrightarrow> \<not> isTrusted ip b \<and> banned_at now (getOrCreate (BanKey ip) b)"
  by (auto simp: IsBanned_def Let_def banned_at_def getOrCreate_def zero_ip_state_def is_zero_def
      t_sub_def sat64_pos t_before_def split: option.split)

lemma impose_simps [simp]:
  "bh_trusted (impose k t s b) = bh_trusted b" "bh_proxies (impose k t s b) = bh_proxies b"
  "isTrusted ip (impose k t s b) = isTrusted ip b"
proof -
  show t: "bh_trusted (impose k t s b) = bh_trusted b" and p: "bh_proxies (impose k t s b) = bh_proxies b"
    by (simp_all add: impose_def Let_def)
  show "isTrusted ip (impose k t s b) = isTrusted ip b" by (rule isTrusted_cong [OF t p])
qed

lemma getOrCreate_impose:
  "getOrCreate k (impose k t s b) = s\<lparr>is_banCount := is_banCount s + 1, is_bannedAt := t, is_failures := [],
     is_banExpiry := (if banDurFor (is_banCount s) b = 0 then permanentExpiry
       else t_add t (banDurFor (is_banCount s) b))\<rparr>"
  by (simp add: impose_def Let_def getOrCreate_def tbl_simps)

lemma store_impose:
  "bh_store (impose k t s b) = map_option (UpsertIPBan
     \<lparr>ib_IP = k, ib_BanCount = is_banCount s + 1,
      ib_BanExpiry = (if banDurFor (is_banCount s) b = 0 then None else Some (t_add t (banDurFor (is_banCount s) b))),
      ib_BannedAt = t\<rparr>) (bh_store b)"
  by (simp add: impose_def Let_def cong: option.map_cong)

text \<open>An instant a ban of some length can end at: after the epoch and before the sentinel.\<close>

definition plain_instant :: "time \<Rightarrow> bool" where
  "plain_instant t \<longleftrightarrow> 0 \<le> t \<and> t < permanentExpiry"

lemma plain_instant_zero: "plain_instant t \<Longrightarrow> t \<noteq> zero_time \<and> t \<noteq> permanentExpiry"
  by (auto simp: plain_instant_def zero_time_def)

lemma permanent_not_zero [simp]: "permanentExpiry \<noteq> zero_time"
  by (simp add: permanentExpiry_def zero_time_def from_unix_def)

lemma banned_imposed:
  assumes "banDurFor (is_banCount s) b \<noteq> 0 \<Longrightarrow> plain_instant (t + banDurFor (is_banCount s) b)"
  shows "banned_at now (getOrCreate k (impose k t s b)) \<longleftrightarrow>
    banDurFor (is_banCount s) b = 0 \<or> now < t + banDurFor (is_banCount s) b"
  using assms plain_instant_zero
  by (auto simp: getOrCreate_impose banned_at_def is_zero_def t_before_def t_add_def)

text \<open>What a call that returned true did.\<close>

lemma RecordFailure_True:
  assumes "RecordFailure ip t b = (True, b')"
  obtains s where "b' = impose (BanKey ip) t s b" "is_banCount s = is_banCount (getOrCreate (BanKey ip) b)"
    "\<not> isTrusted ip b" "\<not> banned_at t (getOrCreate (BanKey ip) b)"
  using assms by (auto simp: RecordFailure_def Let_def split: if_splits)

text \<open>A restarted server: the same store and settings, nothing in memory, and the bans loaded.\<close>

definition restarted :: "time \<Rightarrow> banhammer \<Rightarrow> banhammer" where
  "restarted now b = Load now (b\<lparr>bh_states := []\<rparr>)"

lemma isTrusted_restarted [simp]: "isTrusted ip (restarted now b) = isTrusted ip b"
proof -
  have "bh_trusted (restarted now b) = bh_trusted b" "bh_proxies (restarted now b) = bh_proxies b"
    by (simp_all add: restarted_def Load_def split: option.split)
  then show ?thesis by (rule isTrusted_cong)
qed

lemma restarted_get:
  "bh_store b = Some st \<Longrightarrow> tbl_get (bh_states (restarted now b)) k = tbl_get (load_bans now (ListIPBans st) []) k"
  by (simp add: restarted_def Load_def)

lemma restarted_imposed:
  assumes "bh_store b = Some st" "ban_table_ok st"
  shows "getOrCreate k (restarted now (impose k t s b)) =
    load_ban now (stored_ban \<lparr>ib_IP = k, ib_BanCount = is_banCount s + 1,
      ib_BanExpiry = (if banDurFor (is_banCount s) b = 0 then None else Some (t_add t (banDurFor (is_banCount s) b))),
      ib_BannedAt = t\<rparr>)"
proof -
  let ?ban = "\<lparr>ib_IP = k, ib_BanCount = is_banCount s + 1,
    ib_BanExpiry = (if banDurFor (is_banCount s) b = 0 then None else Some (t_add t (banDurFor (is_banCount s) b))),
    ib_BannedAt = t\<rparr>"
  have st: "bh_store (impose k t s b) = Some (UpsertIPBan ?ban st)"
    by (simp only: store_impose assms(1) option.map)
  have "stored_ban ?ban \<in> set (ListIPBans (UpsertIPBan ?ban st))"
    by (simp add: ip_bans.list_upsert [OF assms(2)])
  from ip_bans.load_listed [OF ban_table_ok_upsert [OF assms(2)] this, of now]
  have "tbl_get (load_bans now (ListIPBans (UpsertIPBan ?ban st)) []) k = Some (load_ban now (stored_ban ?ban))" by simp
  then show ?thesis unfolding getOrCreate_def restarted_get [OF st] by simp
qed

lemma banned_loaded:
  assumes "\<And>e. ib_BanExpiry ban = Some e \<Longrightarrow> plain_instant e"
  shows "banned_at now (load_ban now ban) \<longleftrightarrow> (case ib_BanExpiry ban of None \<Rightarrow> True | Some e \<Rightarrow> now < e)"
  using assms plain_instant_zero
  by (auto simp: banned_at_def load_ban_def Let_def is_zero_def t_after_def t_before_def zero_ip_state_def
      split: option.split)

lemma plain_rfc3339: "plain_instant t \<Longrightarrow> plain_instant (rfc3339 t)"
  using from_unix_le [of t] by (auto simp: plain_instant_def rfc3339_def from_unix_def unix_def)

section \<open>Properties\<close>


text \<open>C20: a ban outlives a restart: after the call that imposed it, a server restarted from the same
  store still bans the address, up to the whole second the ban ends in (for ever if permanent),
  and counts the offence for the next ban.\<close>

theorem ban_survives_restart:
  assumes "RecordFailure ip t b = (True, b')" "bh_store b = Some st" "ban_table_ok st"
    and "dur = banDurFor (is_banCount (getOrCreate (BanKey ip) b)) b"
    and "dur \<noteq> 0 \<longrightarrow> plain_instant (t + dur)"
  shows "(fst (fst (IsBanned ip now (restarted now b'))) \<longleftrightarrow> dur = 0 \<or> now < rfc3339 (t + dur)) \<and>
    is_banCount (getOrCreate (BanKey ip) (restarted now b')) = is_banCount (getOrCreate (BanKey ip) b) + 1"
proof -
  obtain s where s: "b' = impose (BanKey ip) t s b" "is_banCount s = is_banCount (getOrCreate (BanKey ip) b)"
    "\<not> isTrusted ip b" using RecordFailure_True [OF assms(1)] by metis
  let ?ban = "stored_ban \<lparr>ib_IP = BanKey ip, ib_BanCount = is_banCount s + 1,
    ib_BanExpiry = (if dur = 0 then None else Some (t_add t dur)), ib_BannedAt = t\<rparr>"
  have get: "getOrCreate (BanKey ip) (restarted now b') = load_ban now ?ban"
    using restarted_imposed [OF assms(2,3)] s assms(4) by simp
  have "banned_at now (load_ban now ?ban) \<longleftrightarrow> dur = 0 \<or> now < rfc3339 (t + dur)"
    using banned_loaded [of ?ban now] plain_rfc3339 assms(5)
    by (auto simp: stored_ban_def t_add_def split: if_splits)
  moreover have "is_banCount (load_ban now ?ban) = is_banCount s + 1"
    by (simp add: load_ban_def Let_def stored_ban_def split: option.split)
  ultimately show ?thesis using s get by (simp add: IsBanned_iff)
qed

text \<open>Two failures an hour, the first ban of a day and later ones for ever.\<close>

definition sample_banhammer :: banhammer where
  "sample_banhammer = NewBanhammer 2 hour (Some []) [24 * hour, 0]"


theorem ban_survives_restart_witness:
  "fst (fst (IsBanned ''192.0.2.1'' (20 * hour)
     (restarted (20 * hour) (snd (RecordFailure ''192.0.2.1'' hour (snd (RecordFailure ''192.0.2.1'' 1 sample_banhammer)))))))"
proof -
  let ?b = "snd (RecordFailure ''192.0.2.1'' 1 sample_banhammer)"
  let ?b' = "snd (RecordFailure ''192.0.2.1'' hour ?b)"
  have r: "RecordFailure ''192.0.2.1'' hour ?b = (True, ?b')" by code_simp
  have st: "bh_store ?b = Some []" by code_simp
  have dur: "24 * hour = banDurFor (is_banCount (getOrCreate (BanKey ''192.0.2.1'') ?b)) ?b" by code_simp
  have p: "24 * hour \<noteq> 0 \<longrightarrow> plain_instant (hour + 24 * hour)" by code_simp
  have "20 * hour < rfc3339 (hour + 24 * hour)" by code_simp
  moreover have "ban_table_ok []" by (simp add: ban_table_ok_def)
  ultimately show ?thesis
    using ban_survives_restart [OF r st _ dur p, of "20 * hour"] by blast
qed

text \<open>Lifting a ban lifts it for good: the address is not banned afterwards, neither in the running
  server nor in one restarted from the store, and its offences start again at zero.\<close>

theorem UnbanIP_lifts:
  assumes "bh_store b = Some st" "ban_table_ok st"
  shows "getOrCreate (BanKey ip) (UnbanIP ip b) = zero_ip_state \<and>
    getOrCreate (BanKey ip) (restarted now' (UnbanIP ip b)) = zero_ip_state \<and>
    \<not> fst (fst (IsBanned ip now (UnbanIP ip b))) \<and>
    \<not> fst (fst (IsBanned ip now (restarted now' (UnbanIP ip b))))"
proof -
  have key: "BanKey ip \<in> set (UnbanKeys ip)" by (simp add: UnbanKeys_def Let_def)
  define st' where "st' = foldl (\<lambda>t key. DeleteIPBan key t) st (UnbanKeys ip)"
  have un: "bh_store (UnbanIP ip b) = Some st'" "tbl_get (bh_states (UnbanIP ip b)) (BanKey ip) = None"
    by (simp_all add: UnbanIP_def UnbanKeys_def Let_def st'_def assms(1) tbl_simps)
  have ok: "ban_table_ok st'"
    using assms(2) by (simp add: st'_def UnbanKeys_def Let_def ip_bans.ok_delete)
  have "c \<notin> set (ListIPBans st')" if "ib_IP c = BanKey ip" for c
    using that assms(2) by (auto simp: st'_def UnbanKeys_def Let_def ip_bans.ok_delete ip_bans.list_delete)
  then have "List.find (\<lambda>c. ib_IP c = BanKey ip) (ListIPBans st') = None" by (auto simp: find_None_iff)
  then have "tbl_get (bh_states (restarted now' (UnbanIP ip b))) (BanKey ip) = None"
    by (simp add: restarted_get [OF un(1)] load_bans_get [OF ip_bans.one_per_ip [OF ok]])
  then show ?thesis using un by (simp add: getOrCreate_def IsBanned_iff not_banned_zero zero_ip_state_def)
qed

theorem UnbanIP_lifts_witness:
  "\<not> fst (fst (IsBanned ''192.0.2.1'' (2 * hour) (UnbanIP ''192.0.2.1''
      (snd (record_all ''192.0.2.1'' [1, 2] sample_banhammer)))))"
proof -
  let ?b = "snd (record_all ''192.0.2.1'' [1, 2] sample_banhammer)"
  have "bh_store ?b = Some (the (bh_store ?b))" "ban_table_ok (the (bh_store ?b))"
    by code_simp+
  then show ?thesis using UnbanIP_lifts [of ?b "the (bh_store ?b)"] by blast
qed

text \<open>The hourly cleanup drops no failure that a later call would count.\<close>

lemma cleaned_failures:
  assumes "now \<le> t" "\<not> list_ex (\<lambda>u. t_after u (t_add now (- w))) us"
  shows "filter (\<lambda>u. t_after u (t_add t (- w))) us = []"
  using assms by (auto simp: filter_empty_conv list_ex_iff t_after_def t_add_def)

lemma cleaned_state:
  fixes k :: string
  assumes "tbl_ok (bh_states b)" "now \<le> t"
  defines "s \<equiv> getOrCreate k b" and "s' \<equiv> getOrCreate k (cleanupAt now b)"
  shows "banned_at t s' = banned_at t s" "is_banCount s' = is_banCount s"
    "filter (\<lambda>u. t_after u (t_add t (- bh_window b))) (is_failures s') =
     filter (\<lambda>u. t_after u (t_add t (- bh_window b))) (is_failures s)"
proof -
  have later: "\<not> banned_at t s" if "\<not> banned_at now s"
    using that assms(2) by (auto simp: banned_at_def t_before_def)
  have "s' = s \<or> s' = s\<lparr>is_failures := []\<rparr> \<and> \<not> list_ex (\<lambda>u. t_after u (t_add now (- bh_window b))) (is_failures s) \<or>
      s' = zero_ip_state \<and> is_banCount s = 0 \<and> \<not> banned_at now s \<and>
      \<not> list_ex (\<lambda>u. t_after u (t_add now (- bh_window b))) (is_failures s)"
    using assms(1) unfolding s_def s'_def getOrCreate_def cleanupAt_def Let_def
    by (cases "tbl_get (bh_states b) k") (simp_all add: tbl_simps)
  then consider "s' = s" | "s' = s\<lparr>is_failures := []\<rparr>" "\<not> list_ex (\<lambda>u. t_after u (t_add now (- bh_window b))) (is_failures s)"
    | "s' = zero_ip_state" "is_banCount s = 0" "\<not> banned_at now s"
      "\<not> list_ex (\<lambda>u. t_after u (t_add now (- bh_window b))) (is_failures s)" by blast
  then show "banned_at t s' = banned_at t s" "is_banCount s' = is_banCount s"
    "filter (\<lambda>u. t_after u (t_add t (- bh_window b))) (is_failures s') =
     filter (\<lambda>u. t_after u (t_add t (- bh_window b))) (is_failures s)"
    by (cases; use later cleaned_failures [OF assms(2)] in \<open>auto simp: banned_at_def zero_ip_state_def is_zero_def\<close>)+
qed

text \<open>The hourly cleanup is invisible: whatever was asked before, a later call answers the same
  with and without it, both whether an address is banned and whether a failure bans it.\<close>

theorem cleanup_unobservable:
  assumes "tbl_ok (bh_states b)" "now \<le> t"
  shows "fst (fst (IsBanned ip t (cleanupAt now b))) = fst (fst (IsBanned ip t b)) \<and>
    fst (RecordFailure ip t (cleanupAt now b)) = fst (RecordFailure ip t b)"
proof -
  have "isTrusted ip (cleanupAt now b) = isTrusted ip b" "bh_window (cleanupAt now b) = bh_window b"
    "bh_maxFails (cleanupAt now b) = bh_maxFails b"
    by (simp_all add: cleanupAt_def Let_def)
  then show ?thesis using cleaned_state [OF assms, of "BanKey ip"]
    by (simp add: IsBanned_iff RecordFailure_def Let_def)
qed

theorem cleanup_unobservable_witness:
  "fst (RecordFailure ''192.0.2.1'' 3 (cleanupAt 2 (snd (RecordFailure ''192.0.2.1'' 1 sample_banhammer))))"
proof -
  let ?b = "snd (RecordFailure ''192.0.2.1'' 1 sample_banhammer)"
  have "tbl_ok (bh_states ?b)" "fst (RecordFailure ''192.0.2.1'' 3 ?b)" by code_simp+
  then show ?thesis using cleanup_unobservable [of ?b 2 3 "''192.0.2.1''"] by simp
qed

text \<open>Two IPv6 addresses that agree in their first 64 bits share one ban key whatever their last
  64 bits and zones, and a key is its own key, so a key read back from the table unbans itself.\<close>

theorem BanKey_groups:
  assumes "ParseAddr ip = Some (Addr6 g z)" "ParseAddr ip' = Some (Addr6 g' z')"
    and "take 4 g = take 4 g'" "\<not> Is4In6 (Addr6 g z)" "\<not> Is4In6 (Addr6 g' z')"
  shows "BanKey ip = BanKey ip' \<and> BanKey (BanKey ip) = BanKey ip"
  using assms by (simp add: BanKey_def Is6_def prefix_text_no_addr) (simp add: prefix64_text_def)

theorem BanKey_groups_witness:
  "BanKey ''2001:db8::1'' = BanKey ''2001:db8:0:0:aa::%eth0''"
proof -
  have a: "ParseAddr ''2001:db8::1'' = Some (Addr6 [8193, 3512, 0, 0, 0, 0, 0, 1] [])" by code_simp
  have b: "ParseAddr ''2001:db8:0:0:aa::%eth0'' = Some (Addr6 [8193, 3512, 0, 0, 170, 0, 0, 0] ''eth0'')"
    by code_simp
  have "\<not> Is4In6 (Addr6 [8193, 3512, 0, 0, 0, 0, 0, 1] [])"
    "\<not> Is4In6 (Addr6 [8193, 3512, 0, 0, 170, 0, 0, 0] ''eth0'')" by (simp_all add: Is4In6_def)
  from BanKey_groups [OF a b _ this] show ?thesis by simp
qed

end
