(* ===== verification/Sql_Table.thy ===== *)
theory Sql_Table
  imports Go_Base "HOL-Library.Multiset"
begin

text \<open>
  The SQLite tables the stores of \<open>internal/store\<close> work on. A table with an \<open>AUTOINCREMENT\<close>
  primary key is the list of its rows in the order of their keys and the last key given out, which
  is never given out again. The server opens one connection (\<open>internal/db/db.go\<close>), so every
  statement and every transaction is one step; a transaction that fails leaves the tables as they
  were. A statement without \<open>ORDER BY\<close> yields its rows in the order of their keys; ties of an
  \<open>ORDER BY\<close> come in that order too, unless the index the query runs on says otherwise.
  \<open>CURRENT_TIMESTAMP\<close> and the function \<open>sqliteUTC\<close> cut an instant to whole seconds.
\<close>

section \<open>Rows and keys\<close>

datatype sql_error = NoRows | NotUnique string | NoParent string | NullScan string | Refused string

record 'r auto_table =
  at_rows :: "'r list"
  at_seq :: int

definition at_empty :: "'r auto_table" where "at_empty = \<lparr>at_rows = [], at_seq = 0\<rparr>"

definition at_insert :: "(int \<Rightarrow> 'r) \<Rightarrow> 'r auto_table \<Rightarrow> int \<times> 'r auto_table" where
  "at_insert mk t = (at_seq t + 1, \<lparr>at_rows = at_rows t @ [mk (at_seq t + 1)], at_seq = at_seq t + 1\<rparr>)"

definition at_update :: "('r \<Rightarrow> bool) \<Rightarrow> ('r \<Rightarrow> 'r) \<Rightarrow> 'r auto_table \<Rightarrow> 'r auto_table" where
  "at_update P f t = t\<lparr>at_rows := map (\<lambda>r. if P r then f r else r) (at_rows t)\<rparr>"

definition at_delete :: "('r \<Rightarrow> bool) \<Rightarrow> 'r auto_table \<Rightarrow> 'r auto_table" where
  "at_delete P t = t\<lparr>at_rows := filter (\<lambda>r. \<not> P r) (at_rows t)\<rparr>"

definition at_select :: "('r \<Rightarrow> bool) \<Rightarrow> 'r auto_table \<Rightarrow> 'r list" where
  "at_select P t = filter P (at_rows t)"

definition at_first :: "('r \<Rightarrow> bool) \<Rightarrow> 'r auto_table \<Rightarrow> 'r option" where
  "at_first P t = List.find P (at_rows t)"

definition at_has :: "('r \<Rightarrow> bool) \<Rightarrow> 'r auto_table \<Rightarrow> bool" where
  "at_has P t = list_ex P (at_rows t)"

text \<open>The keys of a table ascend strictly, are positive and were given out.\<close>

definition at_ok :: "('r \<Rightarrow> int) \<Rightarrow> 'r auto_table \<Rightarrow> bool" where
  "at_ok idf t \<longleftrightarrow> sorted_wrt (<) (map idf (at_rows t)) \<and>
     (\<forall>r\<in>set (at_rows t). 0 < idf r \<and> idf r \<le> at_seq t) \<and> 0 \<le> at_seq t"

named_theorems table_simps \<open>rows and keys after a statement\<close>

lemma at_rows_simps [table_simps]:
  "at_rows at_empty = []"
  "at_rows (snd (at_insert mk t)) = at_rows t @ [mk (at_seq t + 1)]"
  "at_rows (at_update P f t) = map (\<lambda>r. if P r then f r else r) (at_rows t)"
  "at_rows (at_delete P t) = filter (\<lambda>r. \<not> P r) (at_rows t)"
  "fst (at_insert mk t) = at_seq t + 1"
  "at_seq (snd (at_insert mk t)) = at_seq t + 1"
  "at_seq (at_update P f t) = at_seq t"
  "at_seq (at_delete P t) = at_seq t"
  by (simp_all add: at_empty_def at_insert_def at_update_def at_delete_def)

lemma at_has_iff: "at_has P t \<longleftrightarrow> (\<exists>r\<in>set (at_rows t). P r)"
  by (auto simp: at_has_def list_ex_iff)

lemma at_first_Some: "at_first P t = Some r \<Longrightarrow> r \<in> set (at_rows t) \<and> P r"
  by (auto simp: at_first_def find_Some_iff)

lemma at_first_None: "at_first P t = None \<longleftrightarrow> (\<forall>r\<in>set (at_rows t). \<not> P r)"
  by (auto simp: at_first_def find_None_iff)

lemma at_first_select: "at_first P t = (case at_select P t of [] \<Rightarrow> None | r # _ \<Rightarrow> Some r)"
proof -
  have "List.find P rows = (case filter P rows of [] \<Rightarrow> None | r # _ \<Rightarrow> Some r)" for rows
    by (induction rows) auto
  then show ?thesis by (simp add: at_first_def at_select_def)
qed

lemma at_first_unique:
  assumes "r \<in> set (at_rows t)" "P r" "\<And>s. s \<in> set (at_rows t) \<Longrightarrow> P s \<Longrightarrow> s = r"
  shows "at_first P t = Some r"
proof (cases "at_first P t")
  case None
  then show ?thesis using assms(1,2) by (simp add: at_first_None)
next
  case (Some s)
  then show ?thesis using at_first_Some [of P t s] assms(3) by auto
qed

lemma find_map_same:
  assumes "\<And>r. P (g r) = P r"
  shows "List.find P (map g xs) = map_option g (List.find P xs)"
  using assms by (induction xs) auto

lemma at_first_update:
  assumes "\<And>r. P (f r) = P r"
  shows "at_first P (at_update Q f t) = map_option (\<lambda>r. if Q r then f r else r) (at_first P t)"
  unfolding at_first_def at_rows_simps using assms by (intro find_map_same) auto

lemma find_append: "List.find P (xs @ ys) = (case List.find P xs of None \<Rightarrow> List.find P ys | Some x \<Rightarrow> Some x)"
  by (induction xs) auto

lemma at_first_insert:
  "at_first P (snd (at_insert mk t)) =
     (case at_first P t of Some r \<Rightarrow> Some r | None \<Rightarrow> if P (mk (at_seq t + 1)) then Some (mk (at_seq t + 1)) else None)"
  by (simp add: at_first_def at_rows_simps find_append split: option.split)

section \<open>The key invariant\<close>

lemma at_ok_empty [simp]: "at_ok idf at_empty"
  by (simp add: at_ok_def at_empty_def)

lemma at_ok_insert:
  assumes "at_ok idf t" "idf (mk (at_seq t + 1)) = at_seq t + 1"
  shows "at_ok idf (snd (at_insert mk t))"
  using assms by (fastforce simp: at_ok_def table_simps sorted_wrt_append)

lemma at_ok_update:
  assumes "at_ok idf t" "\<And>r. idf (f r) = idf r"
  shows "at_ok idf (at_update P f t)"
proof -
  have "map idf (at_rows (at_update P f t)) = map idf (at_rows t)"
    using assms(2) by (simp add: table_simps)
  moreover have "idf r \<in> idf ` set (at_rows t)" if "r \<in> set (at_rows (at_update P f t))" for r
    using that assms(2) by (auto simp: table_simps image_iff)
  ultimately show ?thesis using assms(1) unfolding at_ok_def by (fastforce simp: at_rows_simps(7))
qed

lemma sorted_wrt_filter_map: "sorted_wrt R (map f xs) \<Longrightarrow> sorted_wrt R (map f (filter P xs))"
  by (induction xs) auto

lemma at_ok_delete: "at_ok idf t \<Longrightarrow> at_ok idf (at_delete P t)"
  by (auto simp: at_ok_def table_simps intro: sorted_wrt_filter_map)

lemma at_ok_id_inj:
  assumes "at_ok idf t" "r \<in> set (at_rows t)" "s \<in> set (at_rows t)" "idf r = idf s"
  shows "r = s"
proof -
  have "distinct (map idf (at_rows t))"
    using assms(1) by (auto simp: at_ok_def strict_sorted_iff)
  then show ?thesis using assms(2-) by (auto simp: distinct_map inj_on_def)
qed

lemma at_first_id:
  assumes "at_ok idf t" "r \<in> set (at_rows t)" "\<And>s. P s \<longleftrightarrow> idf s = idf r"
  shows "at_first P t = Some r"
  using assms by (intro at_first_unique) (auto intro: at_ok_id_inj)

lemma at_ok_fresh: "at_ok idf t \<Longrightarrow> r \<in> set (at_rows t) \<Longrightarrow> idf r < at_seq t + 1"
  by (auto simp: at_ok_def)

lemma at_ok_bounds: "at_ok idf t \<Longrightarrow> r \<in> set (at_rows t) \<Longrightarrow> 0 < idf r \<and> idf r \<le> at_seq t"
  by (auto simp: at_ok_def)

text \<open>Inserting several rows, each by one statement.\<close>

fun at_insert_all :: "('a \<Rightarrow> int \<Rightarrow> 'r) \<Rightarrow> 'a list \<Rightarrow> 'r auto_table \<Rightarrow> 'r auto_table" where
  "at_insert_all mk [] t = t"
| "at_insert_all mk (x # xs) t = at_insert_all mk xs (snd (at_insert (mk x) t))"

text \<open>The rows a run of inserts adds, numbered after a given key.\<close>

fun numbered :: "('a \<Rightarrow> int \<Rightarrow> 'r) \<Rightarrow> int \<Rightarrow> 'a list \<Rightarrow> 'r list" where
  "numbered mk n [] = []"
| "numbered mk n (x # xs) = mk x (n + 1) # numbered mk (n + 1) xs"

lemma at_insert_all_rows [table_simps]:
  "at_rows (at_insert_all mk xs t) = at_rows t @ numbered mk (at_seq t) xs"
  "at_seq (at_insert_all mk xs t) = at_seq t + int (length xs)"
  by (induction xs arbitrary: t) (simp_all add: table_simps)

lemma at_insert_all_append: "at_insert_all mk (xs @ ys) t = at_insert_all mk ys (at_insert_all mk xs t)"
  by (induction xs arbitrary: t) simp_all

lemma at_ok_insert_all:
  "at_ok idf t \<Longrightarrow> (\<And>x n. idf (mk x n) = n) \<Longrightarrow> at_ok idf (at_insert_all mk xs t)"
  by (induction xs arbitrary: t) (auto intro: at_ok_insert)

lemma length_numbered [simp]: "length (numbered mk n xs) = length xs"
  by (induction xs arbitrary: n) simp_all

lemma numbered_append: "numbered mk n (xs @ ys) = numbered mk n xs @ numbered mk (n + int (length xs)) ys"
  by (induction xs arbitrary: n) (simp_all add: add_ac)

lemma numbered_map: "(\<And>x m. f (mk x m) = g x) \<Longrightarrow> map f (numbered mk n xs) = map g xs"
  by (induction xs arbitrary: n) simp_all

lemma set_numbered: "r \<in> set (numbered mk n xs) \<Longrightarrow> \<exists>x\<in>set xs. \<exists>m. n < m \<and> m \<le> n + int (length xs) \<and> r = mk x m"
proof (induction xs arbitrary: n)
  case (Cons x xs)
  then consider "r = mk x (n + 1)" | "r \<in> set (numbered mk (n + 1) xs)" by auto
  then show ?case
  proof cases
    case 2
    from Cons.IH [OF this] obtain y m where "y \<in> set xs" "n + 1 < m" "m \<le> n + 1 + int (length xs)" "r = mk y m"
      by blast
    then show ?thesis by (intro bexI [of _ y] exI [of _ m]) auto
  qed (auto intro: exI [of _ "n + 1"])
qed simp

lemma filter_numbered:
  assumes "\<And>x m. x \<in> set xs \<Longrightarrow> P (mk x m) = b"
  shows "filter P (numbered mk n xs) = (if b then numbered mk n xs else [])"
  using assms by (induction xs arbitrary: n) auto

section \<open>References\<close>

text \<open>Every row of a child table refers to a row of its parent.\<close>

definition refs_in :: "('c \<Rightarrow> int) \<Rightarrow> ('p \<Rightarrow> int) \<Rightarrow> 'c auto_table \<Rightarrow> 'p auto_table \<Rightarrow> bool" where
  "refs_in fk idf c p \<longleftrightarrow> fk ` set (at_rows c) \<subseteq> idf ` set (at_rows p)"

lemma refs_in_empty [simp]: "refs_in fk idf at_empty p"
  by (simp add: refs_in_def at_rows_simps)

lemma refs_in_bound: "refs_in fk idf c p \<Longrightarrow> at_ok idf p \<Longrightarrow> x \<in> set (at_rows c) \<Longrightarrow> fk x < at_seq p + 1"
  unfolding refs_in_def by (metis at_ok_fresh image_iff image_subset_iff)

lemma refs_in_parent: "refs_in fk idf c p \<Longrightarrow> x \<in> set (at_rows c) \<Longrightarrow> at_has (\<lambda>r. idf r = fk x) p"
  unfolding refs_in_def at_has_iff by (metis image_iff image_subset_iff)

text \<open>No child of a parent that is not there.\<close>

lemma refs_in_absent: "refs_in fk idf c p \<Longrightarrow> \<not> at_has (\<lambda>r. idf r = k) p \<Longrightarrow> \<not> at_has (\<lambda>x. fk x = k \<and> P x) c"
  using refs_in_parent [of fk idf c p] by (auto simp: at_has_iff)

lemma refs_in_parent_insert: "refs_in fk idf c p \<Longrightarrow> refs_in fk idf c (snd (at_insert mk p))"
  by (auto simp: refs_in_def at_rows_simps)

lemma refs_in_child_insert:
  "refs_in fk idf c p \<Longrightarrow> at_has (\<lambda>r. idf r = fk (mk (at_seq c + 1))) p \<Longrightarrow> refs_in fk idf (snd (at_insert mk c)) p"
  by (force simp: refs_in_def at_rows_simps at_has_iff)

lemma refs_in_child_insert_all:
  "refs_in fk idf c p \<Longrightarrow> (\<And>x n. x \<in> set xs \<Longrightarrow> at_has (\<lambda>r. idf r = fk (mk x n)) p) \<Longrightarrow>
   refs_in fk idf (at_insert_all mk xs c) p"
  by (induction xs arbitrary: c) (simp_all add: refs_in_child_insert)

lemma refs_in_parent_update:
  assumes "refs_in fk idf c p" "\<And>r. idf (f r) = idf r"
  shows "refs_in fk idf c (at_update P f p)"
proof -
  have "idf ` set (at_rows (at_update P f p)) = idf ` set (at_rows p)"
    unfolding at_rows_simps set_map image_image using assms(2) by (intro image_cong) auto
  then show ?thesis using assms(1) by (simp only: refs_in_def)
qed

text \<open>Deleting parents and the children that refer to them.\<close>

lemma refs_in_delete:
  assumes "refs_in fk idf c p" "\<And>x y. x \<in> set (at_rows c) \<Longrightarrow> y \<in> set (at_rows p) \<Longrightarrow> idf y = fk x \<Longrightarrow> Q y \<Longrightarrow> P x"
  shows "refs_in fk idf (at_delete P c) (at_delete Q p)"
proof -
  have "fk x \<in> idf ` {y \<in> set (at_rows p). \<not> Q y}" if "x \<in> set (at_rows c)" "\<not> P x" for x
  proof -
    obtain y where "y \<in> set (at_rows p)" "idf y = fk x"
      using assms(1) \<open>x \<in> set (at_rows c)\<close> unfolding refs_in_def by (metis image_iff image_subset_iff)
    then show ?thesis using assms(2) that by (metis (mono_tags, lifting) image_eqI mem_Collect_eq)
  qed
  then show ?thesis by (auto simp: refs_in_def at_rows_simps)
qed

lemma refs_in_subset: "refs_in fk idf c p \<Longrightarrow> refs_in fk idf (at_delete P c) p"
  by (auto simp: refs_in_def at_rows_simps)

lemma filter_delete_same:
  assumes "\<And>x. x \<in> set (at_rows t) \<Longrightarrow> Q x \<Longrightarrow> \<not> P x"
  shows "filter Q (at_rows (at_delete P t)) = filter Q (at_rows t)"
  unfolding at_rows_simps filter_filter using assms by (intro filter_cong) auto

text \<open>Children inserted under the key the parent table gives out next: they are the children of that
  key, and the children of every other key are those there were.\<close>

lemma filter_new_rows:
  assumes "\<And>x n. fk (mk x n) = k" "\<And>r. r \<in> set (at_rows t) \<Longrightarrow> fk r \<noteq> k"
  shows "filter (\<lambda>r. fk r = j) (at_rows (at_insert_all mk xs t)) =
    (if j = k then numbered mk (at_seq t) xs else filter (\<lambda>r. fk r = j) (at_rows t))"
proof -
  have "filter (\<lambda>r. fk r = j) (numbered mk (at_seq t) xs) = (if j = k then numbered mk (at_seq t) xs else [])"
    using assms(1) filter_numbered [of xs "\<lambda>r. fk r = j" mk "j = k"] by auto
  moreover have "filter (\<lambda>r. fk r = k) (at_rows t) = []" using assms(2) by (simp add: filter_empty_conv)
  ultimately show ?thesis by (simp add: table_simps)
qed

lemma fresh_children:
  assumes "refs_in fk idf c p" "at_ok idf p" "\<And>x n. fk (mk x n) = at_seq p + 1"
  shows "filter (\<lambda>r. fk r = j) (at_rows (at_insert_all mk xs c)) =
    (if j = at_seq p + 1 then numbered mk (at_seq c) xs else filter (\<lambda>r. fk r = j) (at_rows c))"
proof (rule filter_new_rows)
  show "fk (mk x n) = at_seq p + 1" for x n by (rule assms(3))
  show "fk r \<noteq> at_seq p + 1" if "r \<in> set (at_rows c)" for r
    using refs_in_bound [OF assms(1,2) that] by simp
qed

lemma no_children_yet:
  assumes "refs_in fk idf c p" "at_ok idf p"
  shows "filter (\<lambda>r. fk r = at_seq p + 1) (at_rows c) = []"
  using refs_in_bound [OF assms] by (fastforce simp: filter_empty_conv)

section \<open>Report tokens\<close>

text \<open>The unique index on the server and the token of a report, which leaves out empty tokens.\<close>

definition tokens_once :: "('r \<Rightarrow> int) \<Rightarrow> ('r \<Rightarrow> string) \<Rightarrow> 'r auto_table \<Rightarrow> bool" where
  "tokens_once srv tok t \<longleftrightarrow> (\<forall>r\<in>set (at_rows t). \<forall>s\<in>set (at_rows t).
     tok r \<noteq> [] \<longrightarrow> tok r = tok s \<longrightarrow> srv r = srv s \<longrightarrow> r = s)"

lemma tokens_once_empty [simp]: "tokens_once srv tok at_empty"
  by (simp add: tokens_once_def at_rows_simps)

lemma tokens_once_delete: "tokens_once srv tok t \<Longrightarrow> tokens_once srv tok (at_delete P t)"
  by (simp add: tokens_once_def at_rows_simps)

lemma tokens_once_insert:
  assumes "tokens_once srv tok t" "\<And>n. srv (mk n) = s" "\<And>n. tok (mk n) = k"
    and new: "k = [] \<or> \<not> at_has (\<lambda>r. srv r = s \<and> tok r = k) t"
  shows "tokens_once srv tok (snd (at_insert mk t))"
proof -
  have "r = mk (at_seq t + 1) \<longleftrightarrow> r' = mk (at_seq t + 1)"
    if "r \<in> set (at_rows t) \<or> r = mk (at_seq t + 1)" "r' \<in> set (at_rows t) \<or> r' = mk (at_seq t + 1)"
      "tok r \<noteq> []" "tok r = tok r'" "srv r = srv r'" for r r'
    using that new assms(2,3) unfolding at_has_iff by metis
  then show ?thesis using assms(1) unfolding tokens_once_def at_rows_simps set_append by (metis Un_iff empty_iff list.set(1,2) insert_iff)
qed

text \<open>A loop whose body may fail.\<close>

fun each_err :: "('a \<Rightarrow> 's \<Rightarrow> 'e + 's) \<Rightarrow> 'a list \<Rightarrow> 's \<Rightarrow> 'e + 's" where
  "each_err f [] s = Inr s"
| "each_err f (x # xs) s = bind_err (f x s) (each_err f xs)"

section \<open>Queries\<close>

text \<open>Rows collected into a Go map by a key: one entry per key, the rows of the key in their order.\<close>

definition group_rows :: "('r \<Rightarrow> int) \<Rightarrow> 'r list \<Rightarrow> (int \<times> 'r list) list" where
  "group_rows key rows = map (\<lambda>k. (k, filter (\<lambda>r. key r = k) rows)) (remdups (map key rows))"

lemma group_rows_get:
  "map_of (group_rows key rows) k =
     (if k \<in> key ` set rows then Some (filter (\<lambda>r. key r = k) rows) else None)"
  by (auto simp: group_rows_def map_of_map_restrict restrict_map_def)

lemma group_rows_slice: "or_zero [] (map_of (group_rows key rows) k) = filter (\<lambda>r. key r = k) rows"
proof (cases "k \<in> key ` set rows")
  case False
  then have "filter (\<lambda>r. key r = k) rows = []" by (auto simp: filter_empty_conv)
  then show ?thesis using False by (simp add: group_rows_get)
qed (simp add: group_rows_get)

text \<open>The last row read wins when a map holds one row per key.\<close>

definition index_rows :: "('r \<Rightarrow> int) \<Rightarrow> 'r list \<Rightarrow> (int \<times> 'r) list" where
  "index_rows key rows = foldl (\<lambda>m r. tbl_put (key r) r m) [] rows"

lemma index_rows_get_acc:
  "tbl_get (foldl (\<lambda>m r. tbl_put (key r) r m) m rows) k =
     (case List.find (\<lambda>r. key r = k) (rev rows) of Some r \<Rightarrow> Some r | None \<Rightarrow> tbl_get m k)"
proof (induction rows arbitrary: m)
  case (Cons r rows)
  show ?case unfolding foldl_Cons Cons.IH by (auto simp: find_append tbl_simps split: option.split)
qed simp

lemma index_rows_get: "map_of (index_rows key rows) k = List.find (\<lambda>r. key r = k) (rev rows)"
  using index_rows_get_acc [of key "[]" rows k] by (simp add: index_rows_def tbl_get_def split: option.splits)

text \<open>\<open>ORDER BY f DESC, id DESC\<close>: the rows are stored by ascending key, so the newest of equals comes
  first.\<close>

definition newest_first :: "('r \<Rightarrow> int) \<Rightarrow> 'r list \<Rightarrow> 'r list" where
  "newest_first f rows = sort_key (\<lambda>r. - f r) (rev rows)"

lemma set_newest_first [simp]: "set (newest_first f rows) = set rows"
  by (simp add: newest_first_def)

text \<open>\<open>LIMIT n OFFSET m\<close>; a negative limit is no limit and a negative offset is none.\<close>

definition sql_page :: "int \<Rightarrow> int \<Rightarrow> 'r list \<Rightarrow> 'r list" where
  "sql_page limit offset rows =
     (let rest = drop (nat offset) rows in if limit < 0 then rest else take (nat limit) rest)"

definition sql_now :: "time \<Rightarrow> time" where
  "sql_now t = from_unix (unix t)"

lemma sql_now_le: "sql_now t \<le> t"
  by (simp add: sql_now_def from_unix_le)

lemma sql_now_mono: "t \<le> u \<Longrightarrow> sql_now t \<le> sql_now u"
  by (simp add: sql_now_def from_unix_def unix_def zdiv_mono1)

lemma newest_first_latest:
  assumes "rows \<noteq> []" "\<And>r. r \<in> set rows \<Longrightarrow> f r \<le> f (last rows)"
  shows "hd (newest_first f rows) = last rows"
proof -
  obtain xs where rev: "rev rows = last rows # xs" using assms(1) by (metis append_butlast_last_id rev_eq_Cons_iff rev_rev_ident)
  have "\<forall>x\<in>set xs. - f (last rows) \<le> - f x"
    using assms(2) rev by (metis neg_le_iff_le list.set_intros(2) set_rev)
  then have "insort_key (\<lambda>r. - f r) (last rows) (sort_key (\<lambda>r. - f r) xs) = last rows # sort_key (\<lambda>r. - f r) xs"
    by (intro insort_is_Cons) auto
  then show ?thesis by (simp add: newest_first_def rev)
qed

end
