(* ===== verification/Api_Keys.thy ===== *)
theory Api_Keys
  imports Sql_Table
begin

text \<open>
  The keys the clients authenticate with: the sealed values of \<open>internal/secretbox/secretbox.go\<close>, the
  table of \<open>internal/store/apikey.go\<close>, the check of \<open>internal/service/auth.go\<close> and the binding of a
  key to one server name of \<open>internal/api/handlers/authz.go\<close>.

  The cipher and the keyed hash of the Go library are parameters: what opens a sealed text and what
  the hash separates are named hypotheses. The random bytes an operation draws are arguments.
  Between two statements of a request other requests may run statements of their own: an argument
  \<open>env\<close> says what they did before the statement with that number.
\<close>

section \<open>Sealed values\<close>

record secret_box =
  sb_seal :: "string \<Rightarrow> string \<Rightarrow> string"
  sb_open :: "string \<Rightarrow> string option"
  sb_hash :: "string \<Rightarrow> string"

definition secret_prefix :: string where "secret_prefix = ''enc:v1:''"

definition IsEncrypted :: "string \<Rightarrow> bool" where
  "IsEncrypted value = has_prefix value secret_prefix"

definition Encrypt :: "secret_box \<Rightarrow> string \<Rightarrow> string \<Rightarrow> string" where
  "Encrypt b nonce value =
     (if value = [] \<or> IsEncrypted value then value else secret_prefix @ sb_seal b nonce value)"

definition Decrypt :: "secret_box \<Rightarrow> string \<Rightarrow> string option" where
  "Decrypt b value =
     (if value = [] \<or> \<not> IsEncrypted value then Some value else sb_open b (drop (length secret_prefix) value))"

definition LookupHash :: "secret_box \<Rightarrow> string \<Rightarrow> string" where
  "LookupHash b value = sb_hash b value"

text \<open>The hypothesis on the cipher: a sealed text opens to what was sealed.\<close>

definition opens_sealed :: "secret_box \<Rightarrow> bool" where
  "opens_sealed b \<longleftrightarrow> (\<forall>nonce v. sb_open b (sb_seal b nonce v) = Some v)"

text \<open>The hypothesis on the hash: it is never empty and tells a value from all others.\<close>

definition hash_tells :: "secret_box \<Rightarrow> string \<Rightarrow> bool" where
  "hash_tells b v \<longleftrightarrow> sb_hash b v \<noteq> [] \<and> (\<forall>w. sb_hash b w = sb_hash b v \<longrightarrow> w = v)"

lemma has_prefix_append [simp]: "has_prefix (p @ s) p"
  by (simp add: has_prefix_def)

lemma IsEncrypted_sealed [simp]: "IsEncrypted (secret_prefix @ s)"
  by (simp add: IsEncrypted_def)

lemma Decrypt_Encrypt: "opens_sealed b \<Longrightarrow> \<not> IsEncrypted v \<Longrightarrow> Decrypt b (Encrypt b nonce v) = Some v"
  by (auto simp: Encrypt_def Decrypt_def opens_sealed_def secret_prefix_def IsEncrypted_def has_prefix_def)

section \<open>The table of keys\<close>

record api_key =
  k_ID :: int
  k_Key :: string
  k_Name :: string
  k_KeyType :: string
  k_IsActive :: bool
  k_MachineID :: string
  k_LastUsed :: "time option"
  k_ServerName :: string
  k_ServerURL :: string
  k_CreatedAt :: time

record api_key_row =
  akr_ID :: int
  akr_Key :: string
  akr_KeyHash :: string
  akr_Name :: string
  akr_KeyType :: string
  akr_IsActive :: bool
  akr_MachineID :: "string option"
  akr_LastUsed :: "time option"
  akr_ServerName :: "string option"
  akr_ServerURL :: string
  akr_CreatedAt :: time

type_synonym key_table = "api_key_row auto_table"

abbreviation null_text :: "string option \<Rightarrow> string" where "null_text x \<equiv> or_zero [] x"

definition scanAPIKey :: "secret_box option \<Rightarrow> api_key_row \<Rightarrow> sql_error + api_key" where
  "scanAPIKey secrets r =
     (case (case secrets of None \<Rightarrow> Some (akr_Key r) | Some b \<Rightarrow> Decrypt b (akr_Key r)) of
        None \<Rightarrow> Inl (Refused ''decrypt API key'')
      | Some key \<Rightarrow>
          Inr \<lparr>k_ID = akr_ID r, k_Key = key, k_Name = akr_Name r, k_KeyType = akr_KeyType r,
            k_IsActive = akr_IsActive r, k_MachineID = null_text (akr_MachineID r),
            k_LastUsed = akr_LastUsed r, k_ServerName = null_text (akr_ServerName r),
            k_ServerURL = akr_ServerURL r, k_CreatedAt = akr_CreatedAt r\<rparr>)"

definition query_key :: "secret_box option \<Rightarrow> (api_key_row \<Rightarrow> bool) \<Rightarrow> key_table \<Rightarrow> sql_error + api_key" where
  "query_key secrets P t = (case at_first P t of None \<Rightarrow> Inl NoRows | Some r \<Rightarrow> scanAPIKey secrets r)"

text \<open>\<open>key NOT LIKE 'enc:%'\<close>, which ignores the case of ASCII letters.\<close>

definition stored_plain :: "api_key_row \<Rightarrow> bool" where
  "stored_plain r \<longleftrightarrow> \<not> has_prefix (map lower_char (akr_Key r)) ''enc:''"

definition protectAPIKeyValue :: "secret_box \<Rightarrow> string \<Rightarrow> int \<Rightarrow> string \<Rightarrow> key_table \<Rightarrow> sql_error + key_table" where
  "protectAPIKeyValue b nonce i key t =
     (let encrypted = Encrypt b nonce key; keyHash = LookupHash b key
      in if at_has (\<lambda>r. akr_ID r \<noteq> i \<and> (akr_Key r = encrypted \<or> keyHash \<noteq> [] \<and> akr_KeyHash r = keyHash)) t
         then Inl (NotUnique ''api_keys'')
         else Inr (at_update (\<lambda>r. akr_ID r = i) (\<lambda>r. r\<lparr>akr_Key := encrypted, akr_KeyHash := keyHash\<rparr>) t))"

definition GetAPIKeyByValue ::
  "secret_box option \<Rightarrow> string \<Rightarrow> string \<Rightarrow> key_table \<Rightarrow> (sql_error + api_key) \<times> key_table" where
  "GetAPIKeyByValue secrets nonce key t =
     (let byHash = (case secrets of
            None \<Rightarrow> Inl NoRows
          | Some b \<Rightarrow> query_key secrets (\<lambda>r. akr_KeyHash r = LookupHash b key) t)
      in if byHash \<noteq> Inl NoRows then (byHash, t)
         else if IsEncrypted key then (Inl NoRows, t)
         else case query_key secrets (\<lambda>r. akr_Key r = key \<and> stored_plain r) t of
           Inl e \<Rightarrow> (Inl e, t)
         | Inr k \<Rightarrow> (case secrets of
               None \<Rightarrow> (Inr k, t)
             | Some b \<Rightarrow> (case protectAPIKeyValue b nonce (k_ID k) key t of
                   Inl e \<Rightarrow> (Inl e, t)
                 | Inr t' \<Rightarrow> (Inr k, t'))))"

definition GetAPIKey :: "secret_box option \<Rightarrow> int \<Rightarrow> key_table \<Rightarrow> sql_error + api_key" where
  "GetAPIKey secrets i t = query_key secrets (\<lambda>r. akr_ID r = i) t"

definition new_api_key_row :: "string \<Rightarrow> string \<Rightarrow> string \<Rightarrow> string \<Rightarrow> string \<Rightarrow> time \<Rightarrow> int \<Rightarrow> api_key_row" where
  "new_api_key_row key keyHash name serverName serverURL now i =
     \<lparr>akr_ID = i, akr_Key = key, akr_KeyHash = keyHash, akr_Name = name, akr_KeyType = ''server'',
      akr_IsActive = True, akr_MachineID = None, akr_LastUsed = None, akr_ServerName = Some serverName,
      akr_ServerURL = serverURL, akr_CreatedAt = sql_now now\<rparr>"

text \<open>\<open>raw\<close> is the hexadecimal text of the random bytes of the new key.\<close>

definition CreateAPIKey ::
  "secret_box option \<Rightarrow> string \<Rightarrow> string \<Rightarrow> string \<Rightarrow> string \<Rightarrow> string \<Rightarrow> time \<Rightarrow> key_table \<Rightarrow>
   (sql_error + api_key) \<times> key_table" where
  "CreateAPIKey secrets nonce raw name0 serverName0 serverURL0 now t =
     (let key = ''pbk-'' @ raw;
          serverName = trim_space serverName0; serverURL = trim_space serverURL0;
          name = (if trim_space name0 = [] then serverName else trim_space name0);
          storedKey = (case secrets of None \<Rightarrow> key | Some b \<Rightarrow> Encrypt b nonce key);
          keyHash = (case secrets of None \<Rightarrow> [] | Some b \<Rightarrow> LookupHash b key)
      in if at_has (\<lambda>r. akr_Key r = storedKey \<or> keyHash \<noteq> [] \<and> akr_KeyHash r = keyHash) t
         then (Inl (NotUnique ''api_keys''), t)
         else let (i, t') = at_insert (new_api_key_row storedKey keyHash name serverName serverURL now) t
              in (GetAPIKey secrets i t', t'))"

definition apiKeyLastUsedResolution :: duration where "apiKeyLastUsedResolution = minute"

definition UpdateAPIKeyLastUsed :: "int \<Rightarrow> time \<Rightarrow> key_table \<Rightarrow> key_table" where
  "UpdateAPIKeyLastUsed i now t =
     at_update (\<lambda>r. akr_ID r = i \<and> (case akr_LastUsed r of None \<Rightarrow> True
         | Some u \<Rightarrow> u < t_add now (- apiKeyLastUsedResolution)))
       (\<lambda>r. r\<lparr>akr_LastUsed := Some now\<rparr>) t"

definition BindAPIKeyMachineID :: "int \<Rightarrow> string \<Rightarrow> key_table \<Rightarrow> bool \<times> key_table" where
  "BindAPIKeyMachineID i machineID t =
     (let unbound = (\<lambda>r. akr_ID r = i \<and> null_text (akr_MachineID r) = [])
      in (length (at_select unbound t) = 1, at_update unbound (\<lambda>r. r\<lparr>akr_MachineID := Some machineID\<rparr>) t))"

text \<open>SQL's \<open>TRIM\<close> strips spaces only.\<close>

definition sql_trim :: "string \<Rightarrow> string" where
  "sql_trim s = rev (dropWhile (\<lambda>c. c = CHR '' '') (rev (dropWhile (\<lambda>c. c = CHR '' '') s)))"

definition BindAPIKeyServerName :: "int \<Rightarrow> string \<Rightarrow> key_table \<Rightarrow> bool \<times> key_table" where
  "BindAPIKeyServerName i serverName t =
     (let unbound = (\<lambda>r. akr_ID r = i \<and> sql_trim (null_text (akr_ServerName r)) = [])
      in (length (at_select unbound t) = 1, at_update unbound (\<lambda>r. r\<lparr>akr_ServerName := Some serverName\<rparr>) t))"

definition UnbindAPIKeyServer :: "int \<Rightarrow> key_table \<Rightarrow> key_table" where
  "UnbindAPIKeyServer i t =
     at_update (\<lambda>r. akr_ID r = i) (\<lambda>r. r\<lparr>akr_MachineID := Some [], akr_ServerName := Some []\<rparr>) t"

definition ToggleAPIKey :: "int \<Rightarrow> key_table \<Rightarrow> key_table" where
  "ToggleAPIKey i t = at_update (\<lambda>r. akr_ID r = i) (\<lambda>r. r\<lparr>akr_IsActive := \<not> akr_IsActive r\<rparr>) t"

definition UpdateAPIKey :: "int \<Rightarrow> string \<Rightarrow> string \<Rightarrow> string \<Rightarrow> key_table \<Rightarrow> key_table" where
  "UpdateAPIKey i name0 serverName0 serverURL0 t =
     (let serverName = trim_space serverName0;
          name = (if trim_space name0 = [] then serverName else trim_space name0)
      in at_update (\<lambda>r. akr_ID r = i)
           (\<lambda>r. r\<lparr>akr_Name := name, akr_ServerName := Some serverName, akr_ServerURL := trim_space serverURL0\<rparr>) t)"

definition DeleteAPIKey :: "int \<Rightarrow> key_table \<Rightarrow> key_table" where
  "DeleteAPIKey i t = at_delete (\<lambda>r. akr_ID r = i) t"

section \<open>Authentication\<close>

datatype auth_error = ErrInvalidKey | ErrKeyType | ErrMachineID string

text \<open>The machine the key is bound to, binding it first if it has none.\<close>

definition bind_machine ::
  "secret_box option \<Rightarrow> (nat \<Rightarrow> key_table \<Rightarrow> key_table) \<Rightarrow> api_key \<Rightarrow> string \<Rightarrow> key_table \<Rightarrow>
   (auth_error + string) \<times> key_table" where
  "bind_machine secrets env k machineID t =
     (if k_MachineID k \<noteq> [] then (Inr (k_MachineID k), t)
      else case BindAPIKeyMachineID (k_ID k) machineID (env 0 t) of
        (True, t') \<Rightarrow> (Inr machineID, t')
      | (False, t') \<Rightarrow>
          (case GetAPIKey secrets (k_ID k) (env 1 t') of
             Inl _ \<Rightarrow> (Inl ErrInvalidKey, env 1 t')
           | Inr current \<Rightarrow> (Inr (k_MachineID current), env 1 t')))"

definition ValidateServerKey ::
  "secret_box option \<Rightarrow> (nat \<Rightarrow> key_table \<Rightarrow> key_table) \<Rightarrow> string \<Rightarrow> string \<Rightarrow> string \<Rightarrow> time \<Rightarrow> key_table \<Rightarrow>
   (auth_error + api_key) \<times> key_table" where
  "ValidateServerKey secrets env nonce rawKey machineID now t =
     (case GetAPIKeyByValue secrets nonce rawKey t of
        (Inl _, t1) \<Rightarrow> (Inl ErrInvalidKey, t1)
      | (Inr k, t1) \<Rightarrow>
          if \<not> k_IsActive k then (Inl ErrInvalidKey, t1)
          else if k_KeyType k \<noteq> ''server'' then (Inl ErrKeyType, t1)
          else if machineID = [] then (Inl (ErrMachineID ''missing X-Machine-ID''), t1)
          else case bind_machine secrets env k machineID t1 of
            (Inl e, t2) \<Rightarrow> (Inl e, t2)
          | (Inr mid, t2) \<Rightarrow>
              if mid \<noteq> machineID then (Inl (ErrMachineID ''key bound to different machine''), t2)
              else (Inr (k\<lparr>k_MachineID := mid\<rparr>), UpdateAPIKeyLastUsed (k_ID k) now (env 2 t2)))"

definition ExtractBearer :: "string \<Rightarrow> string" where
  "ExtractBearer header =
     (if has_prefix header ''Bearer '' then trim_space (drop 7 header) else trim_space header)"

section \<open>Authorization\<close>

text \<open>A refused request: its status and the start of its message.\<close>

type_synonym http_error = "int \<times> string"

definition requireKeyServer ::
  "secret_box option \<Rightarrow> (nat \<Rightarrow> key_table \<Rightarrow> key_table) \<Rightarrow> api_key option \<Rightarrow> string \<Rightarrow> key_table \<Rightarrow>
   (http_error + api_key) \<times> key_table" where
  "requireKeyServer secrets env ctxKey serverName0 t =
     (case ctxKey of
        None \<Rightarrow> (Inl (401, ''invalid or inactive API key''), t)
      | Some k \<Rightarrow>
          let serverName = trim_space serverName0; differs = (403, ''API key is bound to a different server'')
          in if serverName = [] then (Inl (400, ''server name is required''), t)
             else if trim_space (k_ServerName k) = [] then
               (case BindAPIKeyServerName (k_ID k) serverName (env 0 t) of
                  (True, t') \<Rightarrow> (Inr (k\<lparr>k_ServerName := serverName\<rparr>), t')
                | (False, t') \<Rightarrow>
                    (case GetAPIKey secrets (k_ID k) (env 1 t') of
                       Inl _ \<Rightarrow> (Inl (500, ''internal server error''), env 1 t')
                     | Inr current \<Rightarrow>
                         if trim_space (k_ServerName current) \<noteq> serverName then (Inl differs, env 1 t')
                         else (Inr (k\<lparr>k_ServerName := k_ServerName current\<rparr>), env 1 t')))
             else if trim_space (k_ServerName k) \<noteq> serverName then (Inl differs, t)
             else (Inr k, t))"

definition keyMayReadServer :: "api_key \<Rightarrow> string \<Rightarrow> http_error option" where
  "keyMayReadServer k serverName0 =
     (let serverName = trim_space serverName0; bound = trim_space (k_ServerName k)
      in if serverName = [] then Some (400, ''server name is required'')
         else if bound \<noteq> [] \<and> bound \<noteq> serverName then Some (403, ''API key is bound to a different server'')
         else None)"

text \<open>\<open>strconv.Atoi\<close>\<close>

definition Atoi :: "string \<Rightarrow> int option" where
  "Atoi s =
     (let neg = has_prefix s ''-''; ds = (if neg \<or> has_prefix s ''+'' then drop 1 s else s);
          n = (if neg then - int (read_nat ds) else int (read_nat ds))
      in if ds \<noteq> [] \<and> list_all is_digit ds \<and> is_int64 n then Some n else None)"

definition validVMID :: "string \<Rightarrow> bool" where
  "validVMID vmid = (case Atoi vmid of None \<Rightarrow> False | Some n \<Rightarrow> n \<ge> 100 \<and> n \<le> 999999999 \<and> show_int n = vmid)"

section \<open>Who a key is bound to\<close>

definition bound_machine :: "key_table \<Rightarrow> int \<Rightarrow> string" where
  "bound_machine t i = (case at_first (\<lambda>r. akr_ID r = i) t of None \<Rightarrow> [] | Some r \<Rightarrow> null_text (akr_MachineID r))"

definition keeps_bindings :: "key_table \<Rightarrow> key_table \<Rightarrow> bool" where
  "keeps_bindings t t' \<longleftrightarrow> (\<forall>i. bound_machine t i \<noteq> [] \<longrightarrow> bound_machine t' i = bound_machine t i)"

lemma keeps_refl [simp]: "keeps_bindings t t"
  by (simp add: keeps_bindings_def)

lemma keeps_trans: "keeps_bindings t u \<Longrightarrow> keeps_bindings u v \<Longrightarrow> keeps_bindings t v"
  by (simp add: keeps_bindings_def)

lemma keeps_update:
  assumes "\<And>r. akr_ID (f r) = akr_ID r"
    and "\<And>r. Q r \<Longrightarrow> null_text (akr_MachineID r) \<noteq> [] \<Longrightarrow> akr_MachineID (f r) = akr_MachineID r"
  shows "keeps_bindings t (at_update Q f t)"
  using assms by (auto simp: keeps_bindings_def bound_machine_def at_first_update split: option.splits)

lemma keeps_insert: "keeps_bindings t (snd (at_insert mk t))"
  by (auto simp: keeps_bindings_def bound_machine_def at_first_insert split: option.splits)

lemma keys_ok_update: "at_ok akr_ID t \<Longrightarrow> (\<And>r. akr_ID (f r) = akr_ID r) \<Longrightarrow> at_ok akr_ID (at_update Q f t)"
  by (rule at_ok_update)

lemma CreateAPIKey_table:
  "snd (CreateAPIKey secrets nonce raw n sn su now t) = t \<or>
   (\<exists>key h n' sn' su'. snd (CreateAPIKey secrets nonce raw n sn su now t) =
      snd (at_insert (new_api_key_row key h n' sn' su' now) t))"
  unfolding CreateAPIKey_def Let_def case_prod_unfold by (split if_split) (simp, blast)

lemma GetAPIKeyByValue_table:
  "snd (GetAPIKeyByValue secrets nonce key t) = t \<or>
   (\<exists>i e h. snd (GetAPIKeyByValue secrets nonce key t) =
      at_update (\<lambda>r. akr_ID r = i) (\<lambda>r. r\<lparr>akr_Key := e, akr_KeyHash := h\<rparr>) t)"
proof (cases secrets)
  case None
  then show ?thesis by (simp add: GetAPIKeyByValue_def split: sum.split)
next
  case (Some b)
  have "(\<exists>i e h. t' = at_update (\<lambda>r. akr_ID r = i) (\<lambda>r. r\<lparr>akr_Key := e, akr_KeyHash := h\<rparr>) t)"
    if "protectAPIKeyValue b nonce i key t = Inr t'" for i t'
    using that by (auto simp: protectAPIKeyValue_def Let_def split: if_splits)
  then show ?thesis using Some by (auto simp: GetAPIKeyByValue_def Let_def split: sum.split)
qed

lemma new_row_id [simp]: "akr_ID (new_api_key_row key h n sn su now i) = i"
  by (simp add: new_api_key_row_def)

text \<open>The statements requests and administrators run on the table, other than lifting a binding and
  deleting a key.\<close>

inductive key_step :: "secret_box option \<Rightarrow> key_table \<Rightarrow> key_table \<Rightarrow> bool" for secrets where
  Lookup: "key_step secrets t (snd (GetAPIKeyByValue secrets nonce key t))"
| Create: "key_step secrets t (snd (CreateAPIKey secrets nonce raw n sn su now t))"
| Used: "key_step secrets t (UpdateAPIKeyLastUsed i now t)"
| Machine: "key_step secrets t (snd (BindAPIKeyMachineID i m t))"
| Server: "key_step secrets t (snd (BindAPIKeyServerName i sn t))"
| Toggle: "key_step secrets t (ToggleAPIKey i t)"
| Edit: "key_step secrets t (UpdateAPIKey i n sn su t)"

lemma key_step_keeps: "key_step secrets t t' \<Longrightarrow> at_ok akr_ID t \<Longrightarrow> keeps_bindings t t' \<and> at_ok akr_ID t'"
proof (induction rule: key_step.induct)
  case (Lookup t nonce key)
  then show ?case
    using GetAPIKeyByValue_table [of secrets nonce key t] by (auto simp: keeps_update keys_ok_update)
next
  case (Create t nonce raw n sn su now)
  then show ?case
    using CreateAPIKey_table [of secrets nonce raw n sn su now t] by (auto simp: keeps_insert at_ok_insert)
next
  case (Machine t i m)
  then show ?case
    by (auto simp: BindAPIKeyMachineID_def Let_def intro!: keeps_update keys_ok_update)
qed (auto simp: UpdateAPIKeyLastUsed_def BindAPIKeyServerName_def ToggleAPIKey_def UpdateAPIKey_def Let_def
    intro!: keeps_update keys_ok_update)

lemma key_steps_keep:
  "(key_step secrets)\<^sup>*\<^sup>* t t' \<Longrightarrow> at_ok akr_ID t \<Longrightarrow> keeps_bindings t t' \<and> at_ok akr_ID t'"
proof (induction rule: rtranclp_induct)
  case (step u v)
  then show ?case using key_step_keeps [of secrets u v] keeps_trans by blast
qed simp

text \<open>Other requests in between: any number of these statements.\<close>

definition interleaved :: "secret_box option \<Rightarrow> (nat \<Rightarrow> key_table \<Rightarrow> key_table) \<Rightarrow> bool" where
  "interleaved secrets env \<longleftrightarrow> (\<forall>n t. (key_step secrets)\<^sup>*\<^sup>* t (env n t))"

lemma interleaved_keeps:
  "interleaved secrets env \<Longrightarrow> at_ok akr_ID t \<Longrightarrow> keeps_bindings t (env n t) \<and> at_ok akr_ID (env n t)"
  using key_steps_keep [of secrets t "env n t"] by (simp add: interleaved_def)

lemma query_key_row:
  assumes "query_key secrets P t = Inr k"
  obtains r where "at_first P t = Some r" "k_ID k = akr_ID r" "k_MachineID k = null_text (akr_MachineID r)"
    "k_IsActive k = akr_IsActive r"
  using assms by (auto simp: query_key_def scanAPIKey_def split: option.splits)

lemma GetAPIKeyByValue_row:
  assumes "fst (GetAPIKeyByValue secrets nonce key t) = Inr k"
  obtains P where "query_key secrets P t = Inr k"
  using assms by (auto simp: GetAPIKeyByValue_def Let_def split: option.splits sum.splits if_splits)

lemma GetAPIKeyByValue_bound:
  assumes "at_ok akr_ID t" "GetAPIKeyByValue secrets nonce key t = (Inr k, t1)"
  shows "bound_machine t1 (k_ID k) = k_MachineID k \<and> at_ok akr_ID t1 \<and> keeps_bindings t t1"
proof -
  have step: "key_step secrets t t1" using Lookup [of secrets t nonce key] assms(2) by simp
  obtain P where "query_key secrets P t = Inr k" using GetAPIKeyByValue_row assms(2) by (metis fst_conv)
  then obtain r where r: "at_first P t = Some r" "k_ID k = akr_ID r" "k_MachineID k = null_text (akr_MachineID r)"
    by (rule query_key_row)
  have row: "at_first (\<lambda>s. akr_ID s = akr_ID r) t = Some r"
    using at_first_Some [OF r(1)] assms(1) by (intro at_first_id) auto
  have "bound_machine t1 (akr_ID r) = null_text (akr_MachineID r)"
    using GetAPIKeyByValue_table [of secrets nonce key t] row assms(2)
    by (auto simp: bound_machine_def at_first_update)
  then show ?thesis using key_step_keeps [OF step assms(1)] r by simp
qed

lemma GetAPIKey_bound:
  "GetAPIKey secrets i t = Inr k \<Longrightarrow> k_ID k = i \<and> k_MachineID k = bound_machine t i"
  by (auto simp: GetAPIKey_def bound_machine_def elim!: query_key_row dest: at_first_Some)

lemma BindAPIKeyMachineID_bound:
  assumes "at_ok akr_ID t" "BindAPIKeyMachineID i m t = (True, t')"
  shows "bound_machine t' i = m"
proof -
  let ?Q = "\<lambda>r. akr_ID r = i \<and> null_text (akr_MachineID r) = []"
  obtain r where "at_select ?Q t = [r]"
    using assms(2) by (auto simp: BindAPIKeyMachineID_def Let_def length_Suc_conv)
  then have r: "r \<in> set (at_rows t)" "?Q r"
    unfolding at_select_def by (simp_all add: filter_eq_Cons_iff) auto
  then have "at_first (\<lambda>s. akr_ID s = i) t = Some r" using assms(1) by (intro at_first_id) auto
  then show ?thesis
    using assms(2) r(2) by (auto simp: BindAPIKeyMachineID_def Let_def bound_machine_def at_first_update)
qed

lemma bind_machine_bound:
  assumes ok: "at_ok akr_ID t" and env: "interleaved secrets env"
    and k: "bound_machine t (k_ID k) = k_MachineID k" and b: "bind_machine secrets env k m t = (Inr mid, t')"
  shows "bound_machine t' (k_ID k) = mid \<and> at_ok akr_ID t' \<and> keeps_bindings t t'"
proof (cases "k_MachineID k = []")
  case False
  then show ?thesis using b k ok by (simp add: bind_machine_def)
next
  case True
  obtain bound t0 where bind: "BindAPIKeyMachineID (k_ID k) m (env 0 t) = (bound, t0)" by force
  have e0: "keeps_bindings t (env 0 t)" "at_ok akr_ID (env 0 t)" using interleaved_keeps [OF env ok] by blast+
  have t0: "keeps_bindings (env 0 t) t0" "at_ok akr_ID t0"
    using key_step_keeps [OF Machine [of secrets "env 0 t" "k_ID k" m] e0(2)] bind by simp_all
  have e1: "keeps_bindings t0 (env 1 t0)" "at_ok akr_ID (env 1 t0)" using interleaved_keeps [OF env t0(2)] by blast+
  show ?thesis
  proof (cases bound)
    case bd: True
    then show ?thesis
      using b True bind BindAPIKeyMachineID_bound [OF e0(2)] e0 t0 keeps_trans by (auto simp: bind_machine_def)
  next
    case False
    then obtain cur where "GetAPIKey secrets (k_ID k) (env 1 t0) = Inr cur" "mid = k_MachineID cur" "t' = env 1 t0"
      using b True bind by (auto simp: bind_machine_def split: sum.splits)
    then show ?thesis using GetAPIKey_bound e0 t0 e1 keeps_trans by metis
  qed
qed

text \<open>When a request passes the check of its key, the key is bound to the machine the request
  names, which is not empty, whatever other requests did meanwhile; and no binding of any key
  changed.\<close>

lemma ValidateServerKey_bound:
  assumes "at_ok akr_ID t" "interleaved secrets env"
    and "ValidateServerKey secrets env nonce rawKey machineID now t = (Inr k, t')"
  shows "machineID \<noteq> [] \<and> bound_machine t' (k_ID k) = machineID \<and> keeps_bindings t t' \<and> at_ok akr_ID t'"
proof -
  obtain k0 t1 t2 where look: "GetAPIKeyByValue secrets nonce rawKey t = (Inr k0, t1)"
    and bind: "bind_machine secrets env k0 machineID t1 = (Inr machineID, t2)" and m: "machineID \<noteq> []"
    and k: "k_ID k = k_ID k0" and t': "t' = UpdateAPIKeyLastUsed (k_ID k0) now (env 2 t2)"
    using assms(3) by (auto simp: ValidateServerKey_def split: prod.splits sum.splits if_splits)
  have t1: "bound_machine t1 (k_ID k0) = k_MachineID k0" "at_ok akr_ID t1" "keeps_bindings t t1"
    using GetAPIKeyByValue_bound [OF assms(1) look] by blast+
  have t2: "bound_machine t2 (k_ID k0) = machineID" "at_ok akr_ID t2" "keeps_bindings t1 t2"
    using bind_machine_bound [OF t1(2) assms(2) t1(1) bind] by blast+
  have e2: "keeps_bindings t2 (env 2 t2)" "at_ok akr_ID (env 2 t2)" using interleaved_keeps [OF assms(2) t2(2)] by blast+
  have "keeps_bindings (env 2 t2) t'" "at_ok akr_ID t'"
    using key_step_keeps [OF Used [of secrets "env 2 t2" "k_ID k0" now] e2(2)] t' by simp_all
  moreover from this have "keeps_bindings t2 t'" using e2 keeps_trans by blast
  ultimately show ?thesis using m k t1 t2 keeps_trans by (metis keeps_bindings_def)
qed

text \<open>C22: one key serves one machine: however many requests run at the same time and in between, two
  requests that pass with the same key name the same machine, until an administrator lifts the
  binding or deletes the key.\<close>

theorem one_machine_per_key:
  assumes "at_ok akr_ID t" "interleaved secrets env" "interleaved secrets env'"
    and "ValidateServerKey secrets env nonce raw m now t = (Inr k, t1)"
    and "(key_step secrets)\<^sup>*\<^sup>* t1 t2"
    and "ValidateServerKey secrets env' nonce' raw' m' now' t2 = (Inr k', t3)" and "k_ID k' = k_ID k"
  shows "m' = m"
proof -
  have t1: "m \<noteq> []" "bound_machine t1 (k_ID k) = m" "at_ok akr_ID t1"
    using ValidateServerKey_bound [OF assms(1,2,4)] by blast+
  have t2: "keeps_bindings t1 t2" "at_ok akr_ID t2" using key_steps_keep [OF assms(5) t1(3)] by blast+
  have "bound_machine t3 (k_ID k') = m'" "keeps_bindings t2 t3"
    using ValidateServerKey_bound [OF t2(2) assms(3,6)] by blast+
  then show ?thesis using t1 t2 assms(7) by (metis keeps_bindings_def)
qed

text \<open>A cipher and a hash that meet the hypotheses, and a machine that binds the key of the table while
  another request is between its statements.\<close>

definition sample_box :: secret_box where
  "sample_box = \<lparr>sb_seal = (\<lambda>nonce v. v), sb_open = Some, sb_hash = (\<lambda>v. CHR ''#'' # v)\<rparr>"

lemma sample_box_ok: "opens_sealed sample_box" "hash_tells sample_box v"
  by (auto simp: opens_sealed_def hash_tells_def sample_box_def)

definition sample_keys :: key_table where
  "sample_keys = snd (CreateAPIKey (Some sample_box) [] ''01'' ''office'' ''pve1'' [] 0 at_empty)"

definition rival :: "nat \<Rightarrow> key_table \<Rightarrow> key_table" where
  "rival n t = (if n = 0 then snd (BindAPIKeyMachineID 1 ''m2'' t) else t)"

lemma interleaved_rival: "interleaved secrets rival"
  by (auto simp: interleaved_def rival_def intro: r_into_rtranclp Machine)

theorem one_machine_per_key_witness:
  "fst (ValidateServerKey (Some sample_box) rival [] ''pbk-01'' ''m1'' 0 sample_keys) =
     Inl (ErrMachineID ''key bound to different machine'') \<and>
   \<not> (\<exists>k. fst (ValidateServerKey (Some sample_box) rival [] ''pbk-01'' ''m3'' 0
      (snd (ValidateServerKey (Some sample_box) rival [] ''pbk-01'' ''m2'' 0 sample_keys))) = Inr k \<and> k_ID k = 1)"
proof (intro conjI notI)
  let ?v = "ValidateServerKey (Some sample_box) rival [] ''pbk-01''"
  show "fst (?v ''m1'' 0 sample_keys) = Inl (ErrMachineID ''key bound to different machine'')" by code_simp
  have ok: "at_ok akr_ID sample_keys" by code_simp
  obtain k1 where first: "?v ''m2'' 0 sample_keys = (Inr k1, snd (?v ''m2'' 0 sample_keys))" and id1: "k_ID k1 = 1"
  proof -
    have "case fst (?v ''m2'' 0 sample_keys) of Inl _ \<Rightarrow> False | Inr k \<Rightarrow> k_ID k = 1" by code_simp
    then show thesis using that by (cases "fst (?v ''m2'' 0 sample_keys)") (auto simp: prod_eq_iff)
  qed
  assume "\<exists>k. fst (?v ''m3'' 0 (snd (?v ''m2'' 0 sample_keys))) = Inr k \<and> k_ID k = 1"
  then obtain k where "?v ''m3'' 0 (snd (?v ''m2'' 0 sample_keys)) =
      (Inr k, snd (?v ''m3'' 0 (snd (?v ''m2'' 0 sample_keys))))" "k_ID k = k_ID k1"
    using id1 by (auto simp: prod_eq_iff)
  from one_machine_per_key [OF ok interleaved_rival interleaved_rival first rtranclp.rtrancl_refl this]
  show False by simp
qed

text \<open>The row a creation adds.\<close>

lemma CreateAPIKey_row:
  assumes "at_ok akr_ID t" "CreateAPIKey secrets nonce raw n sn su now t = (Inr k, t')"
  obtains r where "\<And>P. at_first P t = None \<Longrightarrow> P r \<Longrightarrow> at_first P t' = Some r" "scanAPIKey secrets r = Inr k"
    "akr_Key r = (case secrets of None \<Rightarrow> ''pbk-'' @ raw | Some b \<Rightarrow> Encrypt b nonce (''pbk-'' @ raw))"
    "akr_KeyHash r = (case secrets of None \<Rightarrow> [] | Some b \<Rightarrow> LookupHash b (''pbk-'' @ raw))"
    "\<And>s. s \<in> set (at_rows t) \<Longrightarrow> akr_Key s \<noteq> akr_Key r \<and> (akr_KeyHash r \<noteq> [] \<longrightarrow> akr_KeyHash s \<noteq> akr_KeyHash r)"
proof -
  let ?key = "case secrets of None \<Rightarrow> ''pbk-'' @ raw | Some b \<Rightarrow> Encrypt b nonce (''pbk-'' @ raw)"
  let ?h = "case secrets of None \<Rightarrow> [] | Some b \<Rightarrow> LookupHash b (''pbk-'' @ raw)"
  obtain n' sn' su' where new: "t' = snd (at_insert (new_api_key_row ?key ?h n' sn' su' now) t)"
      "GetAPIKey secrets (at_seq t + 1) t' = Inr k"
    and fresh: "\<not> at_has (\<lambda>r. akr_Key r = ?key \<or> ?h \<noteq> [] \<and> akr_KeyHash r = ?h) t"
    using assms(2) unfolding CreateAPIKey_def Let_def case_prod_unfold at_rows_simps by (auto split: if_splits)
  let ?r = "new_api_key_row ?key ?h n' sn' su' now (at_seq t + 1)"
  have none: "at_first (\<lambda>s. akr_ID s = at_seq t + 1) t = None"
    using at_ok_fresh [OF assms(1)] by (force simp: at_first_None)
  have "at_first (\<lambda>s. akr_ID s = at_seq t + 1) t' = Some ?r"
    unfolding new(1) at_first_insert by (simp add: none)
  then have scan: "scanAPIKey secrets ?r = Inr k" using new(2) by (simp add: GetAPIKey_def query_key_def)
  have keys: "akr_Key ?r = ?key" "akr_KeyHash ?r = ?h" by (simp_all add: new_api_key_row_def)
  show thesis
  proof (rule that [OF _ scan keys])
    show "at_first P t' = Some ?r" if "at_first P t = None" "P ?r" for P
      unfolding new(1) at_first_insert using that by simp
    show "akr_Key s \<noteq> akr_Key ?r \<and> (akr_KeyHash ?r \<noteq> [] \<longrightarrow> akr_KeyHash s \<noteq> akr_KeyHash ?r)"
      if "s \<in> set (at_rows t)" for s
      using fresh that unfolding keys at_has_iff by blast
  qed
qed

text \<open>C23: a new key is found by its value, by the hash when values are sealed and by the text when
  they are not, and the value read back is the one the client was given.\<close>

theorem created_key_found:
  assumes "at_ok akr_ID t" "CreateAPIKey secrets nonce raw n sn su now t = (Inr k, t')"
    and "\<forall>b. secrets = Some b \<longrightarrow> opens_sealed b \<and> hash_tells b (''pbk-'' @ raw)"
  shows "GetAPIKeyByValue secrets nonce' (''pbk-'' @ raw) t' = (Inr k, t') \<and> k_Key k = ''pbk-'' @ raw"
proof -
  let ?key = "''pbk-'' @ raw"
  have plain: "\<not> IsEncrypted ?key" by (simp add: IsEncrypted_def has_prefix_def secret_prefix_def)
  obtain r where first: "\<And>P. at_first P t = None \<Longrightarrow> P r \<Longrightarrow> at_first P t' = Some r"
    and scan: "scanAPIKey secrets r = Inr k"
    and keys: "akr_Key r = (case secrets of None \<Rightarrow> ?key | Some b \<Rightarrow> Encrypt b nonce ?key)"
      "akr_KeyHash r = (case secrets of None \<Rightarrow> [] | Some b \<Rightarrow> LookupHash b ?key)"
    and fresh: "\<And>s. s \<in> set (at_rows t) \<Longrightarrow>
      akr_Key s \<noteq> akr_Key r \<and> (akr_KeyHash r \<noteq> [] \<longrightarrow> akr_KeyHash s \<noteq> akr_KeyHash r)"
    using CreateAPIKey_row [OF assms(1,2)] by blast
  show ?thesis
  proof (cases secrets)
    case None
    have "stored_plain r" using keys None by (simp add: stored_plain_def has_prefix_def lower_char_def)
    then have "at_first (\<lambda>s. akr_Key s = ?key \<and> stored_plain s) t' = Some r"
      using keys None fresh by (intro first) (auto simp: at_first_None)
    then show ?thesis using scan plain keys None
      by (auto simp: GetAPIKeyByValue_def query_key_def scanAPIKey_def)
  next
    case (Some b)
    then have b: "opens_sealed b" "LookupHash b ?key \<noteq> []"
      using assms(3) by (auto simp: hash_tells_def LookupHash_def)
    then have "at_first (\<lambda>s. akr_KeyHash s = LookupHash b ?key) t' = Some r"
      using keys Some fresh by (intro first) (auto simp: at_first_None)
    moreover have "k_Key k = ?key"
      using scan Some keys Decrypt_Encrypt [OF b(1) plain] by (auto simp: scanAPIKey_def)
    ultimately show ?thesis using scan Some by (simp add: GetAPIKeyByValue_def query_key_def)
  qed
qed

theorem created_key_found_witness:
  "case fst (GetAPIKeyByValue (Some sample_box) [] ''pbk-01'' sample_keys) of Inl _ \<Rightarrow> False | Inr k \<Rightarrow> k_Key k = ''pbk-01''"
proof -
  let ?c = "CreateAPIKey (Some sample_box) [] ''01'' ''office'' ''pve1'' [] 0 at_empty"
  have "case fst ?c of Inl _ \<Rightarrow> False | Inr _ \<Rightarrow> True" by code_simp
  then obtain k where "?c = (Inr k, sample_keys)"
    by (cases "fst ?c") (auto simp: prod_eq_iff sample_keys_def)
  from created_key_found [OF at_ok_empty this] show ?thesis by (simp add: sample_box_ok)
qed

text \<open>Every stored hash is the hash of a plain value.\<close>

definition hashes_plain :: "key_table \<Rightarrow> secret_box \<Rightarrow> bool" where
  "hashes_plain t b \<longleftrightarrow> (\<forall>r\<in>set (at_rows t). akr_KeyHash r = [] \<or> (\<exists>v. \<not> IsEncrypted v \<and> akr_KeyHash r = sb_hash b v))"

lemma hashes_plain_update:
  assumes "hashes_plain t b" "\<And>r. akr_KeyHash (f r) = akr_KeyHash r \<or> (\<exists>v. \<not> IsEncrypted v \<and> akr_KeyHash (f r) = sb_hash b v)"
  shows "hashes_plain (at_update Q f t) b"
  unfolding hashes_plain_def at_rows_simps
proof
  fix r assume "r \<in> set (map (\<lambda>r. if Q r then f r else r) (at_rows t))"
  then obtain s where "s \<in> set (at_rows t)" "r = (if Q s then f s else s)" by auto
  then show "akr_KeyHash r = [] \<or> (\<exists>v. \<not> IsEncrypted v \<and> akr_KeyHash r = sb_hash b v)"
    using assms(1) assms(2) [of s] unfolding hashes_plain_def by (metis (full_types))
qed

lemma hashes_plain_lookup: "hashes_plain t b \<Longrightarrow> hashes_plain (snd (GetAPIKeyByValue (Some b) nonce key t)) b"
  by (auto simp: GetAPIKeyByValue_def protectAPIKeyValue_def LookupHash_def Let_def
      intro!: hashes_plain_update split: sum.split)

lemma hashes_plain_create: "hashes_plain t b \<Longrightarrow> hashes_plain (snd (CreateAPIKey (Some b) nonce raw n sn su now t)) b"
proof -
  have "\<not> IsEncrypted (''pbk-'' @ raw)" by (simp add: IsEncrypted_def has_prefix_def secret_prefix_def)
  then show "hashes_plain t b \<Longrightarrow> hashes_plain (snd (CreateAPIKey (Some b) nonce raw n sn su now t)) b"
    unfolding CreateAPIKey_def Let_def case_prod_unfold
    by (auto simp: hashes_plain_def at_rows_simps new_api_key_row_def LookupHash_def)
qed

lemma hashes_plain_steps:
  "(key_step (Some b))\<^sup>*\<^sup>* t t' \<Longrightarrow> hashes_plain t b \<Longrightarrow> hashes_plain t' b"
proof (induction rule: rtranclp_induct)
  case (step u v)
  from step.hyps(2) have "hashes_plain u b \<longrightarrow> hashes_plain v b"
    by (cases rule: key_step.cases)
      (auto simp: UpdateAPIKeyLastUsed_def BindAPIKeyMachineID_def BindAPIKeyServerName_def ToggleAPIKey_def
        UpdateAPIKey_def Let_def intro: hashes_plain_lookup hashes_plain_create intro!: hashes_plain_update)
  then show ?case using step by blast
qed

text \<open>A sealed text is never a credential: whoever reads the ciphertext of a key in the database
  cannot log in with it, neither on a server that seals values nor on one that does not.\<close>

theorem sealed_text_no_credential:
  assumes "list_all (\<lambda>r. akr_KeyHash r = []) (at_rows t0)" "(key_step (Some b))\<^sup>*\<^sup>* t0 t"
    and "IsEncrypted key" "hash_tells b key"
  shows "fst (GetAPIKeyByValue (Some b) nonce key t) = Inl NoRows \<and> fst (GetAPIKeyByValue None nonce key t) = Inl NoRows"
proof -
  have "hashes_plain t0 b" using assms(1) by (auto simp: hashes_plain_def list_all_iff)
  then have "hashes_plain t b" by (rule hashes_plain_steps [OF assms(2)])
  then have "at_first (\<lambda>r. akr_KeyHash r = LookupHash b key) t = None"
    using assms(3,4) unfolding at_first_None hashes_plain_def hash_tells_def LookupHash_def by metis
  then show ?thesis using assms(3) by (simp add: GetAPIKeyByValue_def query_key_def)
qed

theorem sealed_text_no_credential_witness:
  "fst (GetAPIKeyByValue (Some sample_box) [] ''enc:v1:pbk-01'' sample_keys) = Inl NoRows \<and>
   map akr_Key (at_rows sample_keys) = [''enc:v1:pbk-01'']"
proof
  have "(key_step (Some sample_box))\<^sup>*\<^sup>* at_empty sample_keys"
    unfolding sample_keys_def by (rule r_into_rtranclp) (rule Create)
  moreover have "IsEncrypted ''enc:v1:pbk-01''" by code_simp
  ultimately show "fst (GetAPIKeyByValue (Some sample_box) [] ''enc:v1:pbk-01'' sample_keys) = Inl NoRows"
    using sealed_text_no_credential [of at_empty sample_box sample_keys "''enc:v1:pbk-01''" "[]"]
    by (simp add: sample_box_ok at_rows_simps)
  show "map akr_Key (at_rows sample_keys) = [''enc:v1:pbk-01'']" by code_simp
qed

section \<open>VM identifiers\<close>

text \<open>An accepted VM identifier is the canonical text of a number Proxmox uses.\<close>

lemma validVMID_iff: "validVMID v \<longleftrightarrow> (\<exists>n. 100 \<le> n \<and> n \<le> 999999999 \<and> v = show_int n)"
proof
  assume "\<exists>n. 100 \<le> n \<and> n \<le> 999999999 \<and> v = show_int n"
  then obtain n where n: "100 \<le> n" "n \<le> 999999999" "v = show_nat (nat n)" by (auto simp: show_int_def)
  have digits: "list_all is_digit v" using show_nat_digits by (auto simp: n(3) list_all_iff)
  then have "\<not> has_prefix v ''-''" "\<not> has_prefix v ''+''"
    by (cases v; auto simp: has_prefix_def is_digit_def)+
  moreover have "is_int64 n" using n by (simp add: is_int64_def)
  ultimately have "Atoi v = Some n" using n digits by (simp add: Atoi_def)
  then show "validVMID v" using n by (simp add: validVMID_def show_int_def)
qed (auto simp: validVMID_def split: option.splits)

end
