(* ===== verification/Server_Store.thy ===== *)
theory Server_Store
  imports Api_Keys Domain_Model
begin

text \<open>
  The registered servers: the tables \<open>pve_servers\<close>, \<open>pbs_servers\<close> and \<open>windows_servers\<close> of
  \<open>internal/store/pve.go\<close>, \<open>pbs.go\<close>, \<open>windows.go\<close> and \<open>server_identity.go\<close>, and the heartbeats of
  \<open>internal/store/heartbeat.go\<close>. The three tables share their columns and the statements on them, so
  the statements are stated once, for a row that may carry more columns: the inventory of a PVE
  server. A column the schema lets be \<open>NULL\<close> is an \<open>option\<close>; scanning \<open>NULL\<close> into a Go string is an
  error. An API key identifies at most one server of a table, by a unique index.
\<close>

section \<open>Rows\<close>

record server_row =
  sr_ID :: int
  sr_Name :: string
  sr_IP :: "string option"
  sr_PublicIP :: "string option"
  sr_ClientVersion :: "string option"
  sr_MachineID :: "string option"
  sr_APIKeyID :: "int option"
  sr_IsDeleted :: bool
  sr_CreatedAt :: time
  sr_UpdatedAt :: time

record pve_server_row = server_row +
  sr_BackupInventoryKnown :: bool
  sr_HasBackupVMs :: bool

type_synonym pve_server_table = "pve_server_row auto_table"
type_synonym plain_server_table = "server_row auto_table"

text \<open>What a client tells about itself.\<close>

record server_facts =
  sf_Name :: string
  sf_IP :: string
  sf_PublicIP :: string
  sf_ClientVersion :: string
  sf_MachineID :: string

definition new_server ::
  "'a \<Rightarrow> server_facts \<Rightarrow> int option \<Rightarrow> time \<Rightarrow> int \<Rightarrow> 'a server_row_scheme" where
  "new_server extra f key now i =
     \<lparr>sr_ID = i, sr_Name = sf_Name f, sr_IP = Some (sf_IP f), sr_PublicIP = Some (sf_PublicIP f),
      sr_ClientVersion = Some (sf_ClientVersion f), sr_MachineID = Some (sf_MachineID f),
      sr_APIKeyID = key, sr_IsDeleted = False, sr_CreatedAt = sql_now now, sr_UpdatedAt = sql_now now,
      \<dots> = extra\<rparr>"

definition set_facts :: "server_facts \<Rightarrow> time \<Rightarrow> 'a server_row_scheme \<Rightarrow> 'a server_row_scheme" where
  "set_facts f now r = r\<lparr>sr_IP := Some (sf_IP f), sr_PublicIP := Some (sf_PublicIP f),
     sr_ClientVersion := Some (sf_ClientVersion f), sr_MachineID := Some (sf_MachineID f),
     sr_UpdatedAt := sql_now now\<rparr>"

section \<open>Registering a server\<close>

text \<open>The unique index on \<open>api_key_id\<close> and, for Windows, the reference to the table of keys: \<open>valid\<close>
  says which keys may be referred to. The row \<open>i\<close> is the one being changed.\<close>

definition key_conflict :: "(int \<Rightarrow> bool) \<Rightarrow> int \<Rightarrow> int \<Rightarrow> 'a server_row_scheme auto_table \<Rightarrow> sql_error option" where
  "key_conflict valid key i t =
     (if at_has (\<lambda>r. sr_APIKeyID r = Some key \<and> sr_ID r \<noteq> i) t then Some (NotUnique ''api_key_id'')
      else if \<not> valid key then Some (NoParent ''api_keys'') else None)"

definition upsert_server ::
  "'a \<Rightarrow> server_facts \<Rightarrow> time \<Rightarrow> 'a server_row_scheme auto_table \<Rightarrow>
   (sql_error + int) \<times> 'a server_row_scheme auto_table" where
  "upsert_server extra f now t =
     (case at_first (\<lambda>r. sr_Name r = sf_Name f \<and> \<not> sr_IsDeleted r) t of
        None \<Rightarrow> (case at_insert (new_server extra f None now) t of (i, t') \<Rightarrow> (Inr i, t'))
      | Some r \<Rightarrow> (Inr (sr_ID r), at_update (\<lambda>s. sr_ID s = sr_ID r) (set_facts f now) t))"

definition legacy_server :: "string \<Rightarrow> string \<Rightarrow> 'a server_row_scheme \<Rightarrow> bool" where
  "legacy_server name machineID r \<longleftrightarrow>
     sr_Name r = name \<and> sr_MachineID r = Some machineID \<and> sr_APIKeyID r = None \<and> \<not> sr_IsDeleted r"

definition insert_keyed_server ::
  "(int \<Rightarrow> bool) \<Rightarrow> int \<Rightarrow> (int \<Rightarrow> 'a server_row_scheme) \<Rightarrow> 'a server_row_scheme auto_table \<Rightarrow>
   (sql_error + int) \<times> 'a server_row_scheme auto_table" where
  "insert_keyed_server valid key mk t =
     (case key_conflict valid key 0 t of
        Some e \<Rightarrow> (Inl e, t)
      | None \<Rightarrow> (case at_insert mk t of (i, t') \<Rightarrow> (Inr i, t')))"

definition upsert_server_for_key ::
  "(int \<Rightarrow> bool) \<Rightarrow> 'a \<Rightarrow> int \<Rightarrow> server_facts \<Rightarrow> time \<Rightarrow> 'a server_row_scheme auto_table \<Rightarrow>
   (sql_error + int) \<times> 'a server_row_scheme auto_table" where
  "upsert_server_for_key valid extra key f now t =
     (if key \<le> 0 then upsert_server extra f now t
      else case at_first (\<lambda>r. sr_APIKeyID r = Some key \<and> \<not> sr_IsDeleted r) t of
        Some r \<Rightarrow> (Inr (sr_ID r),
          at_update (\<lambda>s. sr_ID s = sr_ID r) (\<lambda>s. (set_facts f now s)\<lparr>sr_Name := sf_Name f\<rparr>) t)
      | None \<Rightarrow>
          (case at_first (legacy_server (sf_Name f) (sf_MachineID f)) t of
             Some r \<Rightarrow>
               (case key_conflict valid key (sr_ID r) t of
                  Some e \<Rightarrow> (Inl e, t)
                | None \<Rightarrow> (Inr (sr_ID r),
                    at_update (\<lambda>s. sr_ID s = sr_ID r) (\<lambda>s. (set_facts f now s)\<lparr>sr_APIKeyID := Some key\<rparr>) t))
           | None \<Rightarrow> insert_keyed_server valid key (new_server extra f (Some key) now) t))"

abbreviation no_inventory :: "unit pve_server_row_ext" where
  "no_inventory \<equiv> pve_server_row.fields False False"

definition UpsertPVEServer :: "server_facts \<Rightarrow> time \<Rightarrow> pve_server_table \<Rightarrow> (sql_error + int) \<times> pve_server_table" where
  "UpsertPVEServer = upsert_server no_inventory"

definition UpsertPVEServerForAPIKey ::
  "int \<Rightarrow> server_facts \<Rightarrow> time \<Rightarrow> pve_server_table \<Rightarrow> (sql_error + int) \<times> pve_server_table" where
  "UpsertPVEServerForAPIKey = upsert_server_for_key (\<lambda>_. True) no_inventory"

definition UpsertPBSServer :: "server_facts \<Rightarrow> time \<Rightarrow> plain_server_table \<Rightarrow> (sql_error + int) \<times> plain_server_table" where
  "UpsertPBSServer = upsert_server ()"

definition UpsertPBSServerForAPIKey ::
  "int \<Rightarrow> server_facts \<Rightarrow> time \<Rightarrow> plain_server_table \<Rightarrow> (sql_error + int) \<times> plain_server_table" where
  "UpsertPBSServerForAPIKey = upsert_server_for_key (\<lambda>_. True) ()"

definition UpsertWindowsServer :: "server_facts \<Rightarrow> time \<Rightarrow> plain_server_table \<Rightarrow> (sql_error + int) \<times> plain_server_table" where
  "UpsertWindowsServer = upsert_server ()"

definition UpsertWindowsServerForAPIKey ::
  "key_table \<Rightarrow> int \<Rightarrow> server_facts \<Rightarrow> time \<Rightarrow> plain_server_table \<Rightarrow> (sql_error + int) \<times> plain_server_table" where
  "UpsertWindowsServerForAPIKey keys = upsert_server_for_key (\<lambda>key. at_has (\<lambda>k. akr_ID k = key) keys) ()"

text \<open>The row written for a key that asks for its configuration before its first report: the
  addresses and the version stay \<open>NULL\<close>.\<close>

definition bare_server :: "string \<Rightarrow> string \<Rightarrow> int \<Rightarrow> time \<Rightarrow> int \<Rightarrow> pve_server_row" where
  "bare_server name machineID key now i =
     \<lparr>sr_ID = i, sr_Name = name, sr_IP = None, sr_PublicIP = None, sr_ClientVersion = None,
      sr_MachineID = Some machineID, sr_APIKeyID = Some key, sr_IsDeleted = False,
      sr_CreatedAt = sql_now now, sr_UpdatedAt = sql_now now,
      sr_BackupInventoryKnown = False, sr_HasBackupVMs = False\<rparr>"

definition ResolvePVEServerForAPIKey ::
  "int \<Rightarrow> string \<Rightarrow> string \<Rightarrow> time \<Rightarrow> pve_server_table \<Rightarrow> (sql_error + int) \<times> pve_server_table" where
  "ResolvePVEServerForAPIKey key name machineID now t =
     (if key \<le> 0 then (Inl (Refused ''api key id is required''), t)
      else case at_first (\<lambda>r. sr_APIKeyID r = Some key \<and> \<not> sr_IsDeleted r) t of
        Some r \<Rightarrow> (Inr (sr_ID r), t)
      | None \<Rightarrow>
          (case at_first (legacy_server name machineID) t of
             Some r \<Rightarrow>
               (case key_conflict (\<lambda>_. True) key (sr_ID r) t of
                  Some e \<Rightarrow> (Inl e, t)
                | None \<Rightarrow> (Inr (sr_ID r), at_update (\<lambda>s. sr_ID s = sr_ID r)
                    (\<lambda>s. s\<lparr>sr_APIKeyID := Some key, sr_UpdatedAt := sql_now now\<rparr>) t))
           | None \<Rightarrow> insert_keyed_server (\<lambda>_. True) key (bare_server name machineID key now) t))"

text \<open>\<open>ORDER BY api_key_id IS NULL LIMIT 1\<close>: a server of the key before a legacy one.\<close>

definition FindPVEServerForAPIKey :: "int \<Rightarrow> string \<Rightarrow> string \<Rightarrow> pve_server_table \<Rightarrow> int option" where
  "FindPVEServerForAPIKey key name machineID t =
     (case sort_key (\<lambda>r. sr_APIKeyID r = None)
        (at_select (\<lambda>r. \<not> sr_IsDeleted r \<and> (sr_APIKeyID r = Some key \<or> legacy_server name machineID r)) t) of
        [] \<Rightarrow> None
      | r # _ \<Rightarrow> Some (sr_ID r))"

definition SetPVEBackupInventory :: "int \<Rightarrow> bool \<Rightarrow> time \<Rightarrow> pve_server_table \<Rightarrow> sql_error + pve_server_table" where
  "SetPVEBackupInventory serverID hasVMs now t =
     (if at_has (\<lambda>r. sr_ID r = serverID \<and> \<not> sr_IsDeleted r) t then
        Inr (at_update (\<lambda>r. sr_ID r = serverID \<and> \<not> sr_IsDeleted r)
          (\<lambda>r. r\<lparr>sr_BackupInventoryKnown := True, sr_HasBackupVMs := hasVMs, sr_UpdatedAt := sql_now now\<rparr>) t)
      else Inl NoRows)"

definition soft_delete_server :: "int \<Rightarrow> time \<Rightarrow> 'a server_row_scheme auto_table \<Rightarrow> 'a server_row_scheme auto_table" where
  "soft_delete_server i now t = at_update (\<lambda>r. sr_ID r = i) (\<lambda>r. r\<lparr>sr_IsDeleted := True, sr_UpdatedAt := now\<rparr>) t"

definition DeletePVEServer :: "int \<Rightarrow> time \<Rightarrow> pve_server_table \<Rightarrow> pve_server_table" where
  "DeletePVEServer = soft_delete_server"

definition DeletePBSServer :: "int \<Rightarrow> time \<Rightarrow> plain_server_table \<Rightarrow> plain_server_table" where
  "DeletePBSServer = soft_delete_server"

section \<open>Reading servers\<close>

definition display_name :: "key_table \<Rightarrow> 'a server_row_scheme \<Rightarrow> string" where
  "display_name keys r =
     (case Option.bind (sr_APIKeyID r) (\<lambda>i. at_first (\<lambda>k. akr_ID k = i) keys) of
        None \<Rightarrow> sr_Name r
      | Some k \<Rightarrow> if akr_Name k = [] then sr_Name r else akr_Name k)"

text \<open>\<open>rows.Scan\<close> of a \<open>NULL\<close> into a string fails.\<close>

definition scan_text :: "string \<Rightarrow> string option \<Rightarrow> sql_error + string" where
  "scan_text column v = (case v of None \<Rightarrow> Inl (NullScan column) | Some s \<Rightarrow> Inr s)"

definition scan_facts :: "'a server_row_scheme \<Rightarrow> sql_error + server_facts" where
  "scan_facts r =
     bind_err (scan_text ''ip'' (sr_IP r)) (\<lambda>ip.
     bind_err (scan_text ''public_ip'' (sr_PublicIP r)) (\<lambda>publicIP.
     bind_err (scan_text ''client_version'' (sr_ClientVersion r)) (\<lambda>version.
     bind_err (scan_text ''machine_id'' (sr_MachineID r)) (\<lambda>machineID.
     Inr \<lparr>sf_Name = sr_Name r, sf_IP = ip, sf_PublicIP = publicIP, sf_ClientVersion = version,
       sf_MachineID = machineID\<rparr>))))"

definition scan_pve_server :: "key_table \<Rightarrow> pve_server_row \<Rightarrow> sql_error + pve_server" where
  "scan_pve_server keys r = bind_err (scan_facts r) (\<lambda>f.
     Inr \<lparr>pves_ID = sr_ID r, pves_Name = sr_Name r, pves_DisplayName = display_name keys r,
       pves_IP = sf_IP f, pves_PublicIP = sf_PublicIP f, pves_ClientVersion = sf_ClientVersion f,
       pves_MachineID = sf_MachineID f, pves_APIKeyID = or_zero 0 (sr_APIKeyID r),
       pves_BackupInventoryKnown = sr_BackupInventoryKnown r, pves_HasBackupVMs = sr_HasBackupVMs r,
       pves_IsDeleted = sr_IsDeleted r, pves_CreatedAt = sr_CreatedAt r, pves_UpdatedAt = sr_UpdatedAt r\<rparr>)"

definition scan_pbs_server :: "key_table \<Rightarrow> server_row \<Rightarrow> sql_error + pbs_server" where
  "scan_pbs_server keys r = bind_err (scan_facts r) (\<lambda>f.
     Inr \<lparr>pbss_ID = sr_ID r, pbss_Name = sr_Name r, pbss_DisplayName = display_name keys r,
       pbss_IP = sf_IP f, pbss_PublicIP = sf_PublicIP f, pbss_ClientVersion = sf_ClientVersion f,
       pbss_MachineID = sf_MachineID f, pbss_APIKeyID = or_zero 0 (sr_APIKeyID r),
       pbss_IsDeleted = sr_IsDeleted r, pbss_CreatedAt = sr_CreatedAt r, pbss_UpdatedAt = sr_UpdatedAt r\<rparr>)"

definition scan_windows_server :: "key_table \<Rightarrow> server_row \<Rightarrow> sql_error + windows_server" where
  "scan_windows_server keys r = bind_err (scan_facts r) (\<lambda>f.
     Inr \<lparr>wins_ID = sr_ID r, wins_Name = sr_Name r, wins_DisplayName = display_name keys r,
       wins_IP = sf_IP f, wins_PublicIP = sf_PublicIP f, wins_ClientVersion = sf_ClientVersion f,
       wins_MachineID = sf_MachineID f, wins_APIKeyID = or_zero 0 (sr_APIKeyID r),
       wins_IsDeleted = sr_IsDeleted r, wins_CreatedAt = sr_CreatedAt r, wins_UpdatedAt = sr_UpdatedAt r\<rparr>)"

text \<open>Reading the rows of a query one by one; the first row that does not scan ends it.\<close>

fun scan_rows :: "('r \<Rightarrow> 'e + 'a) \<Rightarrow> 'r list \<Rightarrow> 'e + 'a list" where
  "scan_rows scan [] = Inr []"
| "scan_rows scan (r # rs) = bind_err (scan r) (\<lambda>x. bind_err (scan_rows scan rs) (\<lambda>xs. Inr (x # xs)))"

definition listed_servers :: "key_table \<Rightarrow> 'a server_row_scheme auto_table \<Rightarrow> 'a server_row_scheme list" where
  "listed_servers keys t = sort_key (display_name keys) (at_select (\<lambda>r. \<not> sr_IsDeleted r) t)"

definition server_by_id :: "int \<Rightarrow> 'a server_row_scheme auto_table \<Rightarrow> 'a server_row_scheme option" where
  "server_by_id i t = at_first (\<lambda>r. sr_ID r = i \<and> \<not> sr_IsDeleted r) t"

text \<open>\<open>ORDER BY api_key_id IS NULL, id LIMIT 1\<close>\<close>

definition server_by_name :: "string \<Rightarrow> 'a server_row_scheme auto_table \<Rightarrow> 'a server_row_scheme option" where
  "server_by_name name t =
     (case sort_key (\<lambda>r. sr_APIKeyID r = None) (at_select (\<lambda>r. sr_Name r = name \<and> \<not> sr_IsDeleted r) t) of
        [] \<Rightarrow> None | r # _ \<Rightarrow> Some r)"

definition scan_one :: "('r \<Rightarrow> sql_error + 'a) \<Rightarrow> 'r option \<Rightarrow> sql_error + 'a" where
  "scan_one scan r = (case r of None \<Rightarrow> Inl NoRows | Some r \<Rightarrow> scan r)"

definition ListPVEServers :: "key_table \<Rightarrow> pve_server_table \<Rightarrow> sql_error + pve_server list" where
  "ListPVEServers keys t = scan_rows (scan_pve_server keys) (listed_servers keys t)"

definition GetPVEServer :: "key_table \<Rightarrow> int \<Rightarrow> pve_server_table \<Rightarrow> sql_error + pve_server" where
  "GetPVEServer keys i t = scan_one (scan_pve_server keys) (server_by_id i t)"

definition GetPVEServerByName :: "key_table \<Rightarrow> string \<Rightarrow> pve_server_table \<Rightarrow> sql_error + pve_server" where
  "GetPVEServerByName keys name t = scan_one (scan_pve_server keys) (server_by_name name t)"

definition ListPBSServers :: "key_table \<Rightarrow> plain_server_table \<Rightarrow> sql_error + pbs_server list" where
  "ListPBSServers keys t = scan_rows (scan_pbs_server keys) (listed_servers keys t)"

definition GetPBSServer :: "key_table \<Rightarrow> int \<Rightarrow> plain_server_table \<Rightarrow> sql_error + pbs_server" where
  "GetPBSServer keys i t = scan_one (scan_pbs_server keys) (server_by_id i t)"

definition GetPBSServerByName :: "key_table \<Rightarrow> string \<Rightarrow> plain_server_table \<Rightarrow> sql_error + pbs_server" where
  "GetPBSServerByName keys name t = scan_one (scan_pbs_server keys) (server_by_name name t)"

definition ListWindowsServers :: "key_table \<Rightarrow> plain_server_table \<Rightarrow> sql_error + windows_server list" where
  "ListWindowsServers keys t = scan_rows (scan_windows_server keys) (listed_servers keys t)"

definition GetWindowsServer :: "key_table \<Rightarrow> int \<Rightarrow> plain_server_table \<Rightarrow> sql_error + windows_server" where
  "GetWindowsServer keys i t = scan_one (scan_windows_server keys) (server_by_id i t)"

definition GetWindowsServerByName :: "key_table \<Rightarrow> string \<Rightarrow> plain_server_table \<Rightarrow> sql_error + windows_server" where
  "GetWindowsServerByName keys name t = scan_one (scan_windows_server keys) (server_by_name name t)"

definition live_of_key :: "int \<Rightarrow> 'a server_row_scheme auto_table \<Rightarrow> 'a server_row_scheme option" where
  "live_of_key key t = at_first (\<lambda>r. sr_APIKeyID r = Some key \<and> \<not> sr_IsDeleted r) t"

definition GetWindowsServerByAPIKey :: "key_table \<Rightarrow> int \<Rightarrow> plain_server_table \<Rightarrow> sql_error + windows_server" where
  "GetWindowsServerByAPIKey keys key t =
     (case live_of_key key t of None \<Rightarrow> Inl NoRows | Some r \<Rightarrow> GetWindowsServer keys (sr_ID r) t)"

definition ServerPublicIPForAPIKey ::
  "string \<Rightarrow> int \<Rightarrow> pve_server_table \<Rightarrow> plain_server_table \<Rightarrow> plain_server_table \<Rightarrow> sql_error + string" where
  "ServerPublicIPForAPIKey serverType key pve pbs windows =
     (let public = (\<lambda>r. case r of None \<Rightarrow> Inl NoRows | Some ip \<Rightarrow> Inr (null_text ip))
      in if serverType = ''pve'' then public (map_option sr_PublicIP (live_of_key key pve))
         else if serverType = ''pbs'' then public (map_option sr_PublicIP (live_of_key key pbs))
         else if serverType = ''windows'' then public (map_option sr_PublicIP (live_of_key key windows))
         else Inl (Refused ''invalid server type''))"

section \<open>Heartbeats\<close>

record heartbeat_row =
  hbr_ID :: int
  hbr_ServerType :: string
  hbr_ServerID :: int
  hbr_Hostname :: string
  hbr_IP :: string
  hbr_PublicIP :: string
  hbr_ClientVersion :: string
  hbr_MachineID :: string
  hbr_SwapTotal :: "int option"
  hbr_SwapUsed :: "int option"
  hbr_SwapEnabled :: "bool option"
  hbr_LastSeenAt :: time
  hbr_CreatedAt :: time
  hbr_UpdatedAt :: time

type_synonym heartbeat_table = "heartbeat_row auto_table"

definition heartbeat_of :: "string \<Rightarrow> int \<Rightarrow> heartbeat_row \<Rightarrow> bool" where
  "heartbeat_of serverType serverID r \<longleftrightarrow> hbr_ServerType r = serverType \<and> hbr_ServerID r = serverID"

text \<open>\<open>COALESCE(excluded.x, x)\<close>\<close>

definition coalesce :: "'a option \<Rightarrow> 'a option \<Rightarrow> 'a option" where
  "coalesce x y = (case x of None \<Rightarrow> y | Some _ \<Rightarrow> x)"

definition UpsertServerHeartbeat :: "server_heartbeat \<Rightarrow> time \<Rightarrow> heartbeat_table \<Rightarrow> heartbeat_table" where
  "UpsertServerHeartbeat hb now t =
     (let lastSeen = (if is_zero (hb_LastSeenAt hb) then now else hb_LastSeenAt hb);
          swapTotal = (if hb_SwapReported hb then Some (hb_SwapTotal hb) else None);
          swapUsed = (if hb_SwapReported hb then Some (hb_SwapUsed hb) else None);
          swapEnabled = (if hb_SwapReported hb then Some (hb_SwapEnabled hb) else None);
          same = heartbeat_of (hb_ServerType hb) (hb_ServerID hb)
      in if at_has same t then
           at_update same (\<lambda>r. r\<lparr>hbr_Hostname := hb_Hostname hb, hbr_IP := hb_IP hb,
             hbr_PublicIP := hb_PublicIP hb, hbr_ClientVersion := hb_ClientVersion hb,
             hbr_MachineID := hb_MachineID hb,
             hbr_SwapTotal := coalesce swapTotal (hbr_SwapTotal r),
             hbr_SwapUsed := coalesce swapUsed (hbr_SwapUsed r),
             hbr_SwapEnabled := coalesce swapEnabled (hbr_SwapEnabled r),
             hbr_LastSeenAt := lastSeen, hbr_UpdatedAt := sql_now now\<rparr>) t
         else snd (at_insert (\<lambda>i. \<lparr>hbr_ID = i, hbr_ServerType = hb_ServerType hb,
             hbr_ServerID = hb_ServerID hb, hbr_Hostname = hb_Hostname hb, hbr_IP = hb_IP hb,
             hbr_PublicIP = hb_PublicIP hb, hbr_ClientVersion = hb_ClientVersion hb,
             hbr_MachineID = hb_MachineID hb, hbr_SwapTotal = swapTotal, hbr_SwapUsed = swapUsed,
             hbr_SwapEnabled = swapEnabled, hbr_LastSeenAt = lastSeen,
             hbr_CreatedAt = sql_now now, hbr_UpdatedAt = sql_now now\<rparr>) t))"

definition setHeartbeatSwap :: "int option \<Rightarrow> int option \<Rightarrow> bool option \<Rightarrow> server_heartbeat \<Rightarrow> server_heartbeat" where
  "setHeartbeatSwap tot used enabled hb =
     (case enabled of
        None \<Rightarrow> hb
      | Some e \<Rightarrow> hb\<lparr>hb_SwapReported := True, hb_SwapTotal := or_zero 0 tot, hb_SwapUsed := or_zero 0 used,
          hb_SwapEnabled := e\<rparr>)"

definition scan_heartbeat :: "heartbeat_row \<Rightarrow> server_heartbeat" where
  "scan_heartbeat r = setHeartbeatSwap (hbr_SwapTotal r) (hbr_SwapUsed r) (hbr_SwapEnabled r)
     \<lparr>hb_ID = hbr_ID r, hb_ServerType = hbr_ServerType r, hb_ServerID = hbr_ServerID r,
      hb_Hostname = hbr_Hostname r, hb_IP = hbr_IP r, hb_PublicIP = hbr_PublicIP r,
      hb_ClientVersion = hbr_ClientVersion r, hb_MachineID = hbr_MachineID r, hb_SwapTotal = 0,
      hb_SwapUsed = 0, hb_SwapEnabled = False, hb_SwapReported = False,
      hb_LastSeenAt = hbr_LastSeenAt r, hb_CreatedAt = hbr_CreatedAt r, hb_UpdatedAt = hbr_UpdatedAt r\<rparr>"

definition GetServerHeartbeat :: "string \<Rightarrow> int \<Rightarrow> heartbeat_table \<Rightarrow> sql_error + server_heartbeat" where
  "GetServerHeartbeat serverType serverID t =
     (case at_first (heartbeat_of serverType serverID) t of None \<Rightarrow> Inl NoRows | Some r \<Rightarrow> Inr (scan_heartbeat r))"

definition ListServerHeartbeatsByType :: "string \<Rightarrow> heartbeat_table \<Rightarrow> (int \<times> server_heartbeat) list" where
  "ListServerHeartbeatsByType serverType t =
     index_rows hb_ServerID (map scan_heartbeat (at_select (\<lambda>r. hbr_ServerType r = serverType) t))"

section \<open>The contract of a registry\<close>

text \<open>A table whose keys ascend and in which no API key identifies two servers.\<close>

definition keys_once :: "'a server_row_scheme set \<Rightarrow> bool" where
  "keys_once R \<longleftrightarrow> (\<forall>r\<in>R. \<forall>s\<in>R. sr_APIKeyID r \<noteq> None \<longrightarrow> sr_APIKeyID r = sr_APIKeyID s \<longrightarrow> r = s)"

definition registry_ok :: "'a server_row_scheme auto_table \<Rightarrow> bool" where
  "registry_ok t \<longleftrightarrow> at_ok sr_ID t \<and> keys_once (set (at_rows t))"

lemma keys_onceD: "keys_once R \<Longrightarrow> r \<in> R \<Longrightarrow> s \<in> R \<Longrightarrow> sr_APIKeyID r = Some k \<Longrightarrow> sr_APIKeyID s = Some k \<Longrightarrow> r = s"
  unfolding keys_once_def by (metis option.distinct(1))

lemma keys_once_subset: "keys_once R \<Longrightarrow> S \<subseteq> R \<Longrightarrow> keys_once S"
  by (auto simp: keys_once_def)

lemma keys_once_insert:
  assumes "keys_once R" "\<And>s. s \<in> R \<Longrightarrow> sr_APIKeyID x \<noteq> None \<Longrightarrow> sr_APIKeyID s \<noteq> sr_APIKeyID x"
  shows "keys_once (insert x R)"
  unfolding keys_once_def
proof (intro ballI impI)
  fix r s assume rs: "r \<in> insert x R" "s \<in> insert x R" "sr_APIKeyID r \<noteq> None" "sr_APIKeyID r = sr_APIKeyID s"
  show "r = s"
  proof (cases "r = x \<or> s = x")
    case True
    then show ?thesis using rs assms(2) [of r] assms(2) [of s] by (elim disjE insertE) metis+
  next
    case False
    then have "r \<in> R" "s \<in> R" using rs(1,2) by blast+
    then show ?thesis using assms(1) rs(3,4) unfolding keys_once_def by blast
  qed
qed

definition has_facts :: "server_facts \<Rightarrow> 'a server_row_scheme \<Rightarrow> bool" where
  "has_facts f r \<longleftrightarrow> sr_Name r = sf_Name f \<and> sr_IP r = Some (sf_IP f) \<and> sr_PublicIP r = Some (sf_PublicIP f) \<and>
     sr_ClientVersion r = Some (sf_ClientVersion f) \<and> sr_MachineID r = Some (sf_MachineID f)"

text \<open>Registering on behalf of a key: the key owns one live server, which is the one returned and
  holds what the client told; no server of another key is touched or taken over; a key that has
  a server keeps it.\<close>

locale server_registry =
  fixes upsert :: "int \<Rightarrow> server_facts \<Rightarrow> time \<Rightarrow> 'a server_row_scheme auto_table \<Rightarrow>
    (sql_error + int) \<times> 'a server_row_scheme auto_table"
  assumes upsert_ok: "registry_ok t \<Longrightarrow> 0 < key \<Longrightarrow> upsert key f now t = (Inr i, t') \<Longrightarrow> registry_ok t'"
    and upsert_live: "registry_ok t \<Longrightarrow> 0 < key \<Longrightarrow> upsert key f now t = (Inr i, t') \<Longrightarrow>
      \<exists>r. live_of_key key t' = Some r \<and> sr_ID r = i \<and> has_facts f r"
    and upsert_others: "registry_ok t \<Longrightarrow> 0 < key \<Longrightarrow> upsert key f now t = (Inr i, t') \<Longrightarrow>
      r \<in> set (at_rows t) \<Longrightarrow> sr_ID r \<noteq> i \<Longrightarrow> r \<in> set (at_rows t')"
    and upsert_claims: "registry_ok t \<Longrightarrow> 0 < key \<Longrightarrow> upsert key f now t = (Inr i, t') \<Longrightarrow>
      r \<in> set (at_rows t) \<Longrightarrow> sr_ID r = i \<Longrightarrow> sr_APIKeyID r = None \<or> sr_APIKeyID r = Some key"
    and upsert_same: "registry_ok t \<Longrightarrow> 0 < key \<Longrightarrow> live_of_key key t = Some r \<Longrightarrow>
      fst (upsert key f now t) = Inr (sr_ID r)"

context server_registry
begin

lemma live_row: "live_of_key key t = Some r \<Longrightarrow> r \<in> set (at_rows t) \<and> sr_APIKeyID r = Some key \<and> \<not> sr_IsDeleted r"
  unfolding live_of_key_def by (drule at_first_Some) simp

lemma identity_kept:
  assumes "registry_ok t" "0 < key" "upsert key f now t = (Inr i, t')"
  shows "fst (upsert key f' now' t') = Inr i"
  using upsert_live [OF assms] upsert_same [OF upsert_ok [OF assms] assms(2)] by blast

lemma identity_of_one_key:
  assumes "registry_ok t" "0 < key" "0 < key'" "key \<noteq> key'"
    and "upsert key f now t = (Inr i, t')" "upsert key' f' now' t' = (Inr j, t'')"
  shows "i \<noteq> j \<and> fst (upsert key f'' now'' t'') = Inr i"
proof -
  have ok': "registry_ok t'" by (rule upsert_ok [OF assms(1,2,5)])
  obtain r where r: "live_of_key key t' = Some r" "sr_ID r = i" using upsert_live [OF assms(1,2,5)] by blast
  note row = live_row [OF r(1)]
  have ne: "i \<noteq> j"
    using upsert_claims [OF ok' assms(3,6) conjunct1 [OF row]] row r(2) assms(4) by auto
  have "r \<in> set (at_rows t'')" using upsert_others [OF ok' assms(3,6)] row r(2) ne by blast
  moreover have "registry_ok t''" by (rule upsert_ok [OF ok' assms(3,6)])
  ultimately have "live_of_key key t'' = Some r"
    unfolding live_of_key_def registry_ok_def using row keys_onceD by (intro at_first_unique) blast+
  then show ?thesis using ne r(2) upsert_same [OF \<open>registry_ok t''\<close> assms(2)] by blast
qed

end

text \<open>The shared statements meet the contract, whatever columns a row has.\<close>

lemma facts_set:
  "has_facts f ((set_facts f now r)\<lparr>sr_Name := sf_Name f\<rparr>)"
  "sr_Name r = sf_Name f \<Longrightarrow> has_facts f ((set_facts f now r)\<lparr>sr_APIKeyID := k\<rparr>)"
  "has_facts f (new_server extra f k now i)"
  by (simp_all add: has_facts_def set_facts_def new_server_def)

lemma set_facts_keeps [simp]:
  "sr_ID (set_facts f now r) = sr_ID r" "sr_APIKeyID (set_facts f now r) = sr_APIKeyID r"
  "sr_IsDeleted (set_facts f now r) = sr_IsDeleted r" "sr_Name (set_facts f now r) = sr_Name r"
  by (simp_all add: set_facts_def)

lemma new_server_simps [simp]:
  "sr_ID (new_server extra f k now i) = i" "sr_APIKeyID (new_server extra f k now i) = k"
  "sr_IsDeleted (new_server extra f k now i) = False"
  by (simp_all add: new_server_def)

text \<open>Changing the one row with a given key of the table.\<close>

lemma update_one:
  assumes "at_ok sr_ID t" "r \<in> set (at_rows t)" "\<And>s. sr_ID (g s) = sr_ID s"
  shows "set (at_rows (at_update (\<lambda>s. sr_ID s = sr_ID r) g t)) = insert (g r) {s \<in> set (at_rows t). sr_ID s \<noteq> sr_ID r}"
  using assms by (auto simp: at_rows_simps image_iff dest: at_ok_id_inj [OF assms(1)])

lemma registry_update:
  assumes "registry_ok t" "r \<in> set (at_rows t)" "\<And>s. sr_ID (g s) = sr_ID s"
    and "\<And>s. s \<in> set (at_rows t) \<Longrightarrow> sr_ID s \<noteq> sr_ID r \<Longrightarrow> sr_APIKeyID (g r) \<noteq> None \<Longrightarrow> sr_APIKeyID s \<noteq> sr_APIKeyID (g r)"
  shows "registry_ok (at_update (\<lambda>s. sr_ID s = sr_ID r) g t)"
proof -
  have ok: "at_ok sr_ID t" using assms(1) by (simp add: registry_ok_def)
  have "at_ok sr_ID (at_update (\<lambda>s. sr_ID s = sr_ID r) g t)" using ok assms(3) by (rule at_ok_update)
  moreover have "keys_once (insert (g r) {s \<in> set (at_rows t). sr_ID s \<noteq> sr_ID r})"
    using assms(1,4) by (intro keys_once_insert) (auto simp: registry_ok_def elim: keys_once_subset)
  ultimately show ?thesis unfolding registry_ok_def update_one [OF ok assms(2,3)] by simp
qed

lemma registry_insert:
  assumes "registry_ok t" "sr_ID (mk (at_seq t + 1)) = at_seq t + 1"
    and "\<And>s. s \<in> set (at_rows t) \<Longrightarrow> sr_APIKeyID (mk (at_seq t + 1)) \<noteq> None \<Longrightarrow> sr_APIKeyID s \<noteq> sr_APIKeyID (mk (at_seq t + 1))"
  shows "registry_ok (snd (at_insert mk t))"
  using assms keys_once_insert [of "set (at_rows t)" "mk (at_seq t + 1)"]
  by (simp add: registry_ok_def at_ok_insert at_rows_simps)

lemma key_conflict_None: "key_conflict valid key i t = None \<longleftrightarrow>
    valid key \<and> (\<forall>s\<in>set (at_rows t). sr_APIKeyID s = Some key \<longrightarrow> sr_ID s = i)"
  by (auto simp: key_conflict_def at_has_iff)

text \<open>The three ways an upsert for a key succeeds.\<close>

lemma upsert_for_key_cases:
  assumes "0 < key" "upsert_server_for_key valid extra key f now t = (Inr i, t')"
  obtains
    (known) r where "live_of_key key t = Some r" "i = sr_ID r"
      "t' = at_update (\<lambda>s. sr_ID s = sr_ID r) (\<lambda>s. (set_facts f now s)\<lparr>sr_Name := sf_Name f\<rparr>) t"
  | (legacy) r where "live_of_key key t = None" "at_first (legacy_server (sf_Name f) (sf_MachineID f)) t = Some r"
      "i = sr_ID r" "key_conflict valid key (sr_ID r) t = None"
      "t' = at_update (\<lambda>s. sr_ID s = sr_ID r) (\<lambda>s. (set_facts f now s)\<lparr>sr_APIKeyID := Some key\<rparr>) t"
  | (new) "live_of_key key t = None" "key_conflict valid key 0 t = None" "i = at_seq t + 1"
      "t' = snd (at_insert (new_server extra f (Some key) now) t)"
  using assms unfolding upsert_server_for_key_def insert_keyed_server_def live_of_key_def at_insert_def
  by (auto split: option.splits)

lemma registry_of_upsert: "server_registry (upsert_server_for_key valid extra)"
proof
  fix t t' :: "'a server_row_scheme auto_table" and key i :: int and f now
  assume ok: "registry_ok t" and key: "0 < key"
  have ids: "at_ok sr_ID t" using ok by (simp add: registry_ok_def)
  have uniq: "s = r" if "r \<in> set (at_rows t)" "s \<in> set (at_rows t)" "sr_APIKeyID r = Some k" "sr_APIKeyID s = Some k"
    for r s k using keys_onceD [of "set (at_rows t)" s r k] ok that unfolding registry_ok_def by blast
  show "fst (upsert_server_for_key valid extra key f now t) = Inr (sr_ID r)" if "live_of_key key t = Some r" for r
    using that key by (simp add: upsert_server_for_key_def live_of_key_def)
  assume up: "upsert_server_for_key valid extra key f now t = (Inr i, t')"
  have "registry_ok t' \<and> (\<exists>r\<in>set (at_rows t'). sr_APIKeyID r = Some key \<and> \<not> sr_IsDeleted r \<and> sr_ID r = i \<and> has_facts f r) \<and>
    (\<forall>r\<in>set (at_rows t). sr_ID r \<noteq> i \<longrightarrow> r \<in> set (at_rows t')) \<and>
    (\<forall>r\<in>set (at_rows t). sr_ID r = i \<longrightarrow> sr_APIKeyID r = None \<or> sr_APIKeyID r = Some key)"
    using key up
  proof (cases rule: upsert_for_key_cases)
    case (known r)
    note row = at_first_Some [OF known(1) [unfolded live_of_key_def]]
    have r: "r \<in> set (at_rows t)" "sr_APIKeyID r = Some key" "\<not> sr_IsDeleted r"
      using row by blast+
    let ?g = "\<lambda>s. (set_facts f now s)\<lparr>sr_Name := sf_Name f\<rparr>"
    have "registry_ok t'" unfolding known(3)
    proof (rule registry_update [OF ok r(1)])
      show "sr_APIKeyID s \<noteq> sr_APIKeyID (?g r)" if "s \<in> set (at_rows t)" "sr_ID s \<noteq> sr_ID r" for s
        using uniq [OF r(1) that(1) r(2)] r(2) that(2) by auto
    qed simp
    moreover have "set (at_rows t') = insert (?g r) {s \<in> set (at_rows t). sr_ID s \<noteq> sr_ID r}"
      unfolding known(3) by (rule update_one [OF ids r(1)]) simp
    ultimately show ?thesis using r known(2) facts_set(1) [of f now r] at_ok_id_inj [OF ids _ r(1)] by auto
  next
    case (legacy r)
    then have r: "r \<in> set (at_rows t)" "sr_APIKeyID r = None" "\<not> sr_IsDeleted r" "sr_Name r = sf_Name f"
      using at_first_Some [OF legacy(2)] by (auto simp: legacy_server_def)
    let ?g = "\<lambda>s. (set_facts f now s)\<lparr>sr_APIKeyID := Some key\<rparr>"
    have "registry_ok t'" unfolding legacy(5)
      by (rule registry_update [OF ok r(1)]) (use legacy(4) in \<open>auto simp: key_conflict_None\<close>)
    moreover have "set (at_rows t') = insert (?g r) {s \<in> set (at_rows t). sr_ID s \<noteq> sr_ID r}"
      unfolding legacy(5) by (rule update_one [OF ids r(1)]) simp
    ultimately show ?thesis using r legacy(3) facts_set(2) [OF r(4)] at_ok_id_inj [OF ids _ r(1)] by auto
  next
    case new
    have none: "sr_APIKeyID s \<noteq> Some key" if "s \<in> set (at_rows t)" for s
      using new(2) that at_ok_bounds [OF ids that] by (auto simp: key_conflict_None)
    have "registry_ok t'" unfolding new(4)
      by (rule registry_insert [OF ok]) (use none in auto)
    moreover have "sr_ID r \<noteq> i" if "r \<in> set (at_rows t)" for r using at_ok_fresh [OF ids that] new(3) by simp
    ultimately show ?thesis using new(3,4) facts_set(3) by (auto simp: at_rows_simps)
  qed
  then have ok': "registry_ok t'"
    and live: "\<exists>r\<in>set (at_rows t'). sr_APIKeyID r = Some key \<and> \<not> sr_IsDeleted r \<and> sr_ID r = i \<and> has_facts f r"
    and others: "\<And>r. r \<in> set (at_rows t) \<Longrightarrow> sr_ID r \<noteq> i \<Longrightarrow> r \<in> set (at_rows t')"
    and claims: "\<And>r. r \<in> set (at_rows t) \<Longrightarrow> sr_ID r = i \<Longrightarrow> sr_APIKeyID r = None \<or> sr_APIKeyID r = Some key"
    by blast+
  show "registry_ok t'" by (rule ok')
  show "r \<in> set (at_rows t')" if "r \<in> set (at_rows t)" "sr_ID r \<noteq> i" for r using others that by blast
  show "sr_APIKeyID r = None \<or> sr_APIKeyID r = Some key" if "r \<in> set (at_rows t)" "sr_ID r = i" for r
    using claims that by blast
  from live obtain r where r: "r \<in> set (at_rows t')" "sr_APIKeyID r = Some key" "\<not> sr_IsDeleted r" "sr_ID r = i" "has_facts f r"
    by blast
  have "live_of_key key t' = Some r"
    unfolding live_of_key_def using r ok' keys_onceD unfolding registry_ok_def by (intro at_first_unique) blast+
  then show "\<exists>r. live_of_key key t' = Some r \<and> sr_ID r = i \<and> has_facts f r" using r by blast
qed

interpretation pve_registry: server_registry UpsertPVEServerForAPIKey
  unfolding UpsertPVEServerForAPIKey_def by (rule registry_of_upsert)

interpretation pbs_registry: server_registry UpsertPBSServerForAPIKey
  unfolding UpsertPBSServerForAPIKey_def by (rule registry_of_upsert)

interpretation windows_registry: server_registry "UpsertWindowsServerForAPIKey keys" for keys
  unfolding UpsertWindowsServerForAPIKey_def by (rule registry_of_upsert)

section \<open>Properties\<close>

text \<open>The reports of one key always go to one PVE server, and never to that of another key: after
  a key and then another one registered, in whatever names and machines they did, the two own
  different servers and the first still owns the one it had.\<close>

theorem pve_server_identity:
  assumes "registry_ok t" "0 < key" "0 < key'" "key \<noteq> key'"
    and "UpsertPVEServerForAPIKey key f now t = (Inr i, t')"
    and "UpsertPVEServerForAPIKey key' f' now' t' = (Inr j, t'')"
  shows "i \<noteq> j \<and> fst (UpsertPVEServerForAPIKey key f'' now'' t'') = Inr i"
  using assms by (rule pve_registry.identity_of_one_key)

definition sample_facts :: server_facts where
  "sample_facts = \<lparr>sf_Name = ''pve1'', sf_IP = ''10.0.0.1'', sf_PublicIP = [], sf_ClientVersion = ''1.0'',
     sf_MachineID = ''m1''\<rparr>"

lemma registry_ok_empty [simp]: "registry_ok at_empty"
  by (simp add: registry_ok_def at_rows_simps keys_once_def)

theorem pve_server_identity_witness:
  "fst (UpsertPVEServerForAPIKey 7 sample_facts 3
     (snd (UpsertPVEServerForAPIKey 8 sample_facts 2 (snd (UpsertPVEServerForAPIKey 7 sample_facts 1 at_empty))))) = Inr 1"
proof -
  let ?t1 = "snd (UpsertPVEServerForAPIKey 7 sample_facts 1 at_empty)"
  let ?t2 = "snd (UpsertPVEServerForAPIKey 8 sample_facts 2 ?t1)"
  have a: "UpsertPVEServerForAPIKey 7 sample_facts 1 at_empty = (Inr 1, ?t1)" by code_simp
  have b: "UpsertPVEServerForAPIKey 8 sample_facts 2 ?t1 = (Inr 2, ?t2)" by code_simp
  from pve_server_identity [OF registry_ok_empty _ _ _ a b, of sample_facts 3] show ?thesis by simp
qed

lemma scan_rows_fails:
  assumes "r \<in> set rs" "scan r = Inl e"
  shows "\<exists>e. scan_rows scan rs = Inl e"
  using assms
proof (induction rs)
  case (Cons x rs)
  show ?case
  proof (cases "scan x")
    case (Inr y)
    then have "r \<in> set rs" using Cons.prems by auto
    then show ?thesis using Cons.IH Cons.prems(2) Inr by auto
  qed simp
qed simp

text \<open>A key that asks for its backup configuration before its server has reported is given a row that
  no listing can read.\<close>

lemma bare_server_breaks_listing:
  assumes "live_of_key key t = None" "at_first (legacy_server name machineID) t = None"
    and "ResolvePVEServerForAPIKey key name machineID now t = (Inr i, t')"
  shows "\<exists>e. ListPVEServers keys t' = Inl e"
proof -
  have "t' = snd (at_insert (bare_server name machineID key now) t)"
    using assms by (auto simp: ResolvePVEServerForAPIKey_def live_of_key_def insert_keyed_server_def at_insert_def
        split: if_splits option.splits)
  then have "bare_server name machineID key now (at_seq t + 1) \<in> set (listed_servers keys t')"
    by (simp add: listed_servers_def at_select_def at_rows_simps bare_server_def)
  moreover have "scan_pve_server keys (bare_server name machineID key now (at_seq t + 1)) = Inl (NullScan ''ip'')"
    by (simp add: scan_pve_server_def scan_facts_def scan_text_def bare_server_def)
  ultimately show ?thesis unfolding ListPVEServers_def by (rule scan_rows_fails)
qed

text \<open>Reading back a heartbeat: a report of the swap replaces the one before, a heartbeat without one
  keeps it.\<close>

lemma heartbeat_roundtrip:
  fixes hb :: server_heartbeat and t :: heartbeat_table
  defines "before \<equiv> at_first (heartbeat_of (hb_ServerType hb) (hb_ServerID hb)) t"
  shows "\<exists>r. at_first (heartbeat_of (hb_ServerType hb) (hb_ServerID hb)) (UpsertServerHeartbeat hb now t) = Some r \<and>
    hbr_LastSeenAt r = (if is_zero (hb_LastSeenAt hb) then now else hb_LastSeenAt hb) \<and>
    hbr_SwapEnabled r = (if hb_SwapReported hb then Some (hb_SwapEnabled hb) else Option.bind before hbr_SwapEnabled) \<and>
    hbr_SwapTotal r = (if hb_SwapReported hb then Some (hb_SwapTotal hb) else Option.bind before hbr_SwapTotal) \<and>
    hbr_SwapUsed r = (if hb_SwapReported hb then Some (hb_SwapUsed hb) else Option.bind before hbr_SwapUsed)"
proof (cases before)
  case None
  then have "\<not> at_has (heartbeat_of (hb_ServerType hb) (hb_ServerID hb)) t"
    by (auto simp: before_def at_first_None at_has_iff)
  then show ?thesis using None
    by (simp add: UpsertServerHeartbeat_def Let_def at_first_insert before_def [symmetric])
      (simp add: heartbeat_of_def)
next
  case (Some r)
  then have "at_has (heartbeat_of (hb_ServerType hb) (hb_ServerID hb)) t" "heartbeat_of (hb_ServerType hb) (hb_ServerID hb) r"
    using at_first_Some by (fastforce simp: before_def at_has_iff)+
  then show ?thesis using Some
    by (simp add: UpsertServerHeartbeat_def Let_def at_first_update heartbeat_of_def before_def coalesce_def)
qed

end
