(* ===== verification/Report_Payload.thy ===== *)
theory Report_Payload
  imports Domain_Model
begin

text \<open>
  The requests the clients post, from \<open>internal/domain/api.go\<close>, and the checks the server makes on
  them before it stores anything, from \<open>internal/domain/validation.go\<close>. A request is what the JSON
  decoder yields; a raw message is the value it holds, with its text where the value is neither a
  string nor a truth value.
\<close>

section \<open>Requests\<close>

datatype raw_message = RawAbsent | RawNull | RawString string | RawBool bool | RawOther string

record backup_status =
  bs_Status :: raw_message
  bs_StartTime :: int
  bs_EndTime :: int
  bs_Duration :: int

text \<open>\<open>json.Unmarshal\<close> of \<open>null\<close> into a string succeeds and leaves it empty; an absent value
  decodes neither as a string nor as a truth value, and its text is empty.\<close>

definition StatusString :: "backup_status option \<Rightarrow> string" where
  "StatusString b =
     (case b of
        None \<Rightarrow> []
      | Some s \<Rightarrow> (case bs_Status s of
            RawString t \<Rightarrow> t
          | RawNull \<Rightarrow> []
          | RawBool v \<Rightarrow> if v then ''OK'' else ''ERROR''
          | RawAbsent \<Rightarrow> []
          | RawOther t \<Rightarrow> t))"

record backup_task_payload =
  btp_VMID :: int
  btp_VMName :: string
  btp_Status :: string
  btp_StartTime :: int
  btp_EndTime :: int
  btp_Duration :: int
  btp_Size :: int
  btp_Filename :: string

record storage_info_payload =
  sip_Total :: int
  sip_Used :: int
  sip_Avail :: int
  sip_UsedPct :: rat
  sip_Active :: bool
  sip_Enabled :: bool
  sip_Lvl :: int

record content_data_payload =
  cdp_VMID :: int
  cdp_Format :: string
  cdp_Size :: int
  cdp_Content :: string
  cdp_VolID :: string
  cdp_CTime :: int
  cdp_Subtype :: string
  cdp_Notes :: string
  cdp_Verification :: string

text \<open>\<open>PruneBackups\<close> is the text \<open>json.Marshal\<close> gives for the raw message.\<close>

record storage_payload =
  sp_Digest :: string
  sp_PruneBackups :: string
  sp_Shared :: bool
  sp_Server :: string
  sp_Storage :: string
  sp_Path :: string
  sp_Content :: string
  sp_Type :: string
  sp_Status :: string
  sp_StorageInfo :: "storage_info_payload list"
  sp_ContentData :: "content_data_payload list"

record pve_report_request =
  prq_ReportID :: string
  prq_Hostname :: string
  prq_IPAddress :: string
  prq_PublicIP :: string
  prq_ClientVersion :: string
  prq_MachineID :: string
  prq_SwapTotal :: int
  prq_SwapUsed :: int
  prq_SwapEnabled :: bool
  prq_LastBackupStatus :: "backup_status option"
  prq_Storages :: "storage_payload list"
  prq_BackupTasks :: "backup_task_payload list"

record pbs_group_payload =
  pgp_BackupType :: string
  pgp_BackupID :: string
  pgp_LastBackup :: int
  pgp_BackupCount :: int
  pgp_Owner :: string
  pgp_Comment :: string
  pgp_VerificationState :: string
  pgp_Size :: int

record gc_status_payload =
  gcp_DiskBytes :: int
  gcp_DiskChunks :: int
  gcp_IndexDataBytes :: int
  gcp_IndexFileCount :: int
  gcp_PendingBytes :: int
  gcp_PendingChunks :: int
  gcp_RemovedBad :: int
  gcp_RemovedBytes :: int
  gcp_RemovedChunks :: int
  gcp_StillBad :: int
  gcp_UPID :: string

record pbs_datastore_payload =
  pdp_Store :: string
  pdp_Total :: int
  pdp_Used :: int
  pdp_Avail :: int
  pdp_EstimatedFullDate :: int
  pdp_MountStatus :: string
  pdp_HistoryStart :: int
  pdp_HistoryDelta :: int
  pdp_History :: "rat option list"
  pdp_GCStatus :: "gc_status_payload option"
  pdp_Groups :: "pbs_group_payload list"

record pbs_task_payload =
  ptp_TaskType :: string
  ptp_JobID :: string
  ptp_Remote :: string
  ptp_RemoteStore :: string
  ptp_Store :: string
  ptp_Status :: string
  ptp_StartTime :: int
  ptp_EndTime :: int
  ptp_UPID :: string

record pbs_information =
  pbi_Data :: "pbs_datastore_payload list"
  pbi_Tasks :: "pbs_task_payload list"

record pbs_report_request =
  brq_ReportID :: string
  brq_Hostname :: string
  brq_IPAddress :: string
  brq_PublicIP :: string
  brq_ClientVersion :: string
  brq_MachineID :: string
  brq_SwapTotal :: int
  brq_SwapUsed :: int
  brq_SwapEnabled :: bool
  brq_PBSInformation :: pbs_information

record windows_disk_payload =
  wdp_Name :: string
  wdp_Label :: string
  wdp_FileSystem :: string
  wdp_DriveType :: string
  wdp_Total :: int
  wdp_Used :: int
  wdp_Free :: int
  wdp_Health :: string

record windows_report_request =
  wrq_ReportID :: string
  wrq_Hostname :: string
  wrq_IPAddress :: string
  wrq_PublicIP :: string
  wrq_ClientVersion :: string
  wrq_MachineID :: string
  wrq_Disks :: "windows_disk_payload list"

record heartbeat_request =
  hrq_Hostname :: string
  hrq_ServerType :: string
  hrq_IPAddress :: string
  hrq_PublicIP :: string
  hrq_ClientVersion :: string
  hrq_MachineID :: string
  hrq_SwapTotal :: int
  hrq_SwapUsed :: int
  hrq_SwapEnabled :: "bool option"

section \<open>Validation\<close>

text \<open>The result is the error, or \<open>None\<close> for \<open>nil\<close>.\<close>

definition maxHostnameLength :: nat where "maxHostnameLength = 255"
definition maxReportIDLength :: nat where "maxReportIDLength = 128"
definition maxMetadataLength :: nat where "maxMetadataLength = 512"

definition report_id_char :: "char \<Rightarrow> bool" where
  "report_id_char c =
     (let n = of_char c :: nat
      in 97 \<le> n \<and> n \<le> 122 \<or> 65 \<le> n \<and> n \<le> 90 \<or> 48 \<le> n \<and> n \<le> 57 \<or> c \<in> set ''._:-'')"

definition validReportID :: "string \<Rightarrow> bool" where
  "validReportID value \<longleftrightarrow> list_all report_id_char value \<and> value \<noteq> []"

text \<open>The four metadata are ranged over as a Go map: when several are too long, the source may name
  any of them where the model names the first.\<close>

definition metadata_error :: "(string \<times> string) list \<Rightarrow> string option" where
  "metadata_error entries =
     map_option (\<lambda>(name, _). name @ '' is too long'')
       (List.find (\<lambda>(_, value). length value > maxMetadataLength) entries)"

definition validateReportIdentity ::
  "string \<Rightarrow> string \<Rightarrow> string \<Rightarrow> string \<Rightarrow> string \<Rightarrow> string \<Rightarrow> string option" where
  "validateReportIdentity reportID hostname ip publicIP clientVersion machineID =
     (if trim_space hostname = [] then Some ''hostname is required''
      else if length hostname > maxHostnameLength then Some ''hostname is too long''
      else if length reportID > maxReportIDLength \<or> (reportID \<noteq> [] \<and> \<not> validReportID reportID)
        then Some ''report_id is invalid''
      else metadata_error [(''ip_address'', ip), (''public_ip'', publicIP),
             (''client_version'', clientVersion), (''machine_id'', machineID)])"

fun pve_storages_error :: "nat \<Rightarrow> storage_payload list \<Rightarrow> string option" where
  "pve_storages_error contentItems [] = None"
| "pve_storages_error contentItems (storage # storages) =
     (if length (sp_Storage storage) > maxMetadataLength then Some ''storage name is too long''
      else if length (sp_StorageInfo storage) > 16 then Some ''too many storage info entries''
      else if contentItems + length (sp_ContentData storage) > 20000
        then Some ''too many storage content entries''
      else if list_ex (\<lambda>info. sip_Total info < 0 \<or> sip_Used info < 0 \<or> sip_Avail info < 0) (sp_StorageInfo storage)
        then Some ''storage byte values cannot be negative''
      else if list_ex (\<lambda>content. cdp_VMID content < 0 \<or> cdp_Size content < 0) (sp_ContentData storage)
        then Some ''storage content values cannot be negative''
      else pve_storages_error (contentItems + length (sp_ContentData storage)) storages)"

definition Validate_PVE :: "pve_report_request \<Rightarrow> string option" where
  "Validate_PVE r =
     (case validateReportIdentity (prq_ReportID r) (prq_Hostname r) (prq_IPAddress r) (prq_PublicIP r)
             (prq_ClientVersion r) (prq_MachineID r) of
        Some err \<Rightarrow> Some err
      | None \<Rightarrow>
          if prq_SwapTotal r < 0 \<or> prq_SwapUsed r < 0 then Some ''swap values cannot be negative''
          else if length (prq_Storages r) > 256 then Some ''too many storages''
          else if length (prq_BackupTasks r) > 10000 then Some ''too many backup tasks''
          else case pve_storages_error 0 (prq_Storages r) of
            Some err \<Rightarrow> Some err
          | None \<Rightarrow>
              if list_ex (\<lambda>task. btp_VMID task < 0 \<or> btp_StartTime task < 0 \<or> btp_EndTime task < 0 \<or>
                   btp_Duration task < 0 \<or> btp_Size task < 0) (prq_BackupTasks r)
              then Some ''backup task values cannot be negative''
              else None)"

fun pbs_datastores_error :: "nat \<Rightarrow> pbs_datastore_payload list \<Rightarrow> string option" where
  "pbs_datastores_error groups [] = None"
| "pbs_datastores_error groups (datastore # datastores) =
     (if length (pdp_Store datastore) > maxMetadataLength then Some ''datastore name is too long''
      else if pdp_Total datastore < 0 \<or> pdp_Used datastore < 0 \<or> pdp_Avail datastore < 0
        then Some ''datastore byte values cannot be negative''
      else if length (pdp_History datastore) > 10000 then Some ''datastore history is too large''
      else if groups + length (pdp_Groups datastore) > 50000 then Some ''too many backup groups''
      else if list_ex (\<lambda>g. pgp_LastBackup g < 0 \<or> pgp_BackupCount g < 0 \<or> pgp_Size g < 0) (pdp_Groups datastore)
        then Some ''backup group values cannot be negative''
      else pbs_datastores_error (groups + length (pdp_Groups datastore)) datastores)"

definition Validate_PBS :: "pbs_report_request \<Rightarrow> string option" where
  "Validate_PBS r =
     (case validateReportIdentity (brq_ReportID r) (brq_Hostname r) (brq_IPAddress r) (brq_PublicIP r)
             (brq_ClientVersion r) (brq_MachineID r) of
        Some err \<Rightarrow> Some err
      | None \<Rightarrow>
          if brq_SwapTotal r < 0 \<or> brq_SwapUsed r < 0 then Some ''swap values cannot be negative''
          else if length (pbi_Data (brq_PBSInformation r)) > 256 then Some ''too many datastores''
          else if length (pbi_Tasks (brq_PBSInformation r)) > 10000 then Some ''too many maintenance tasks''
          else pbs_datastores_error 0 (pbi_Data (brq_PBSInformation r)))"

fun windows_disks_error :: "windows_disk_payload list \<Rightarrow> string option" where
  "windows_disks_error [] = None"
| "windows_disks_error (disk # disks) =
     (if length (wdp_Name disk) > maxMetadataLength then Some ''disk name is too long''
      else if wdp_Total disk < 0 \<or> wdp_Used disk < 0 \<or> wdp_Free disk < 0
        then Some ''disk byte values cannot be negative''
      else windows_disks_error disks)"

definition Validate_Windows :: "windows_report_request \<Rightarrow> string option" where
  "Validate_Windows r =
     (case validateReportIdentity (wrq_ReportID r) (wrq_Hostname r) (wrq_IPAddress r) (wrq_PublicIP r)
             (wrq_ClientVersion r) (wrq_MachineID r) of
        Some err \<Rightarrow> Some err
      | None \<Rightarrow>
          if length (wrq_Disks r) > 512 then Some ''too many disks''
          else windows_disks_error (wrq_Disks r))"

definition Validate_Heartbeat :: "heartbeat_request \<Rightarrow> string option" where
  "Validate_Heartbeat r =
     (case validateReportIdentity [] (hrq_Hostname r) (hrq_IPAddress r) (hrq_PublicIP r)
             (hrq_ClientVersion r) (hrq_MachineID r) of
        Some err \<Rightarrow> Some err
      | None \<Rightarrow>
          if hrq_SwapTotal r < 0 \<or> hrq_SwapUsed r < 0 then Some ''swap values cannot be negative''
          else None)"

section \<open>What is accepted\<close>

lemma metadata_ok_iff: "metadata_error entries = None \<longleftrightarrow> (\<forall>(_, v)\<in>set entries. length v \<le> maxMetadataLength)"
  by (auto simp: metadata_error_def find_None_iff not_less)

lemma pve_storages_ok_iff:
  "pve_storages_error n storages = None \<longleftrightarrow>
     n + length (concat (map sp_ContentData storages)) \<le> 20000 \<and>
     list_all (\<lambda>s. length (sp_Storage s) \<le> maxMetadataLength \<and> length (sp_StorageInfo s) \<le> 16 \<and>
       list_all (\<lambda>i. 0 \<le> sip_Total i \<and> 0 \<le> sip_Used i \<and> 0 \<le> sip_Avail i) (sp_StorageInfo s) \<and>
       list_all (\<lambda>c. 0 \<le> cdp_VMID c \<and> 0 \<le> cdp_Size c) (sp_ContentData s)) storages \<or> storages = []"
proof (induction n storages rule: pve_storages_error.induct)
  case (2 n s storages)
  then show ?case by (cases "storages = []") (auto simp: list_ex_negated not_less)
qed simp

lemma pbs_datastores_ok_iff:
  "pbs_datastores_error n ds = None \<longleftrightarrow>
     n + length (concat (map pdp_Groups ds)) \<le> 50000 \<and>
     list_all (\<lambda>d. length (pdp_Store d) \<le> maxMetadataLength \<and> length (pdp_History d) \<le> 10000 \<and>
       0 \<le> pdp_Total d \<and> 0 \<le> pdp_Used d \<and> 0 \<le> pdp_Avail d \<and>
       list_all (\<lambda>g. 0 \<le> pgp_LastBackup g \<and> 0 \<le> pgp_BackupCount g \<and> 0 \<le> pgp_Size g) (pdp_Groups d)) ds \<or> ds = []"
proof (induction n ds rule: pbs_datastores_error.induct)
  case (2 n d ds)
  then show ?case by (cases "ds = []") (auto simp: list_ex_negated not_less)
qed simp

lemma windows_disks_ok_iff:
  "windows_disks_error ds = None \<longleftrightarrow>
     (\<forall>d\<in>set ds. length (wdp_Name d) \<le> maxMetadataLength \<and> 0 \<le> wdp_Total d \<and> 0 \<le> wdp_Used d \<and> 0 \<le> wdp_Free d)"
  by (induction ds) (auto simp: not_less)

text \<open>An identity the server accepts.\<close>

definition identity_ok :: "string \<Rightarrow> string \<Rightarrow> string list \<Rightarrow> bool" where
  "identity_ok reportID hostname metadata \<longleftrightarrow>
     trim_space hostname \<noteq> [] \<and> length hostname \<le> 255 \<and> length reportID \<le> 128 \<and>
     list_all report_id_char reportID \<and> (\<forall>m\<in>set metadata. length m \<le> 512)"

lemma identity_ok_iff:
  "validateReportIdentity rid host a b c d = None \<longleftrightarrow> identity_ok rid host [a, b, c, d]"
  by (auto simp: validateReportIdentity_def identity_ok_def metadata_ok_iff validReportID_def
      maxHostnameLength_def maxReportIDLength_def maxMetadataLength_def)

text \<open>A PVE report is accepted exactly when its identity is well formed, it is within the limits
  on the number of storages, tasks, capacity entries and contents (the contents counted over all
  storages), and no byte count, identifier or time it carries is negative.\<close>

theorem Validate_PVE_accepts:
  "Validate_PVE r = None \<longleftrightarrow>
     identity_ok (prq_ReportID r) (prq_Hostname r)
       [prq_IPAddress r, prq_PublicIP r, prq_ClientVersion r, prq_MachineID r] \<and>
     0 \<le> prq_SwapTotal r \<and> 0 \<le> prq_SwapUsed r \<and>
     length (prq_Storages r) \<le> 256 \<and> length (prq_BackupTasks r) \<le> 10000 \<and>
     length (concat (map sp_ContentData (prq_Storages r))) \<le> 20000 \<and>
     list_all (\<lambda>s. length (sp_Storage s) \<le> 512 \<and> length (sp_StorageInfo s) \<le> 16 \<and>
       list_all (\<lambda>i. 0 \<le> sip_Total i \<and> 0 \<le> sip_Used i \<and> 0 \<le> sip_Avail i) (sp_StorageInfo s) \<and>
       list_all (\<lambda>c. 0 \<le> cdp_VMID c \<and> 0 \<le> cdp_Size c) (sp_ContentData s)) (prq_Storages r) \<and>
     list_all (\<lambda>t. 0 \<le> btp_VMID t \<and> 0 \<le> btp_StartTime t \<and> 0 \<le> btp_EndTime t \<and> 0 \<le> btp_Duration t \<and>
       0 \<le> btp_Size t) (prq_BackupTasks r)"
proof -
  have storages: "pve_storages_error 0 (prq_Storages r) = None \<longleftrightarrow>
      length (concat (map sp_ContentData (prq_Storages r))) \<le> 20000 \<and>
      list_all (\<lambda>s. length (sp_Storage s) \<le> 512 \<and> length (sp_StorageInfo s) \<le> 16 \<and>
        list_all (\<lambda>i. 0 \<le> sip_Total i \<and> 0 \<le> sip_Used i \<and> 0 \<le> sip_Avail i) (sp_StorageInfo s) \<and>
        list_all (\<lambda>c. 0 \<le> cdp_VMID c \<and> 0 \<le> cdp_Size c) (sp_ContentData s)) (prq_Storages r)"
    by (auto simp: pve_storages_ok_iff maxMetadataLength_def)
  have tasks: "list_ex (\<lambda>t. btp_VMID t < 0 \<or> btp_StartTime t < 0 \<or> btp_EndTime t < 0 \<or>
        btp_Duration t < 0 \<or> btp_Size t < 0) (prq_BackupTasks r) \<longleftrightarrow>
      \<not> list_all (\<lambda>t. 0 \<le> btp_VMID t \<and> 0 \<le> btp_StartTime t \<and> 0 \<le> btp_EndTime t \<and> 0 \<le> btp_Duration t \<and>
        0 \<le> btp_Size t) (prq_BackupTasks r)"
    by (simp add: list_ex_negated not_less)
  have "Validate_PVE r = None \<longleftrightarrow>
      validateReportIdentity (prq_ReportID r) (prq_Hostname r) (prq_IPAddress r) (prq_PublicIP r)
        (prq_ClientVersion r) (prq_MachineID r) = None \<and>
      0 \<le> prq_SwapTotal r \<and> 0 \<le> prq_SwapUsed r \<and> length (prq_Storages r) \<le> 256 \<and>
      length (prq_BackupTasks r) \<le> 10000 \<and> pve_storages_error 0 (prq_Storages r) = None \<and>
      list_all (\<lambda>t. 0 \<le> btp_VMID t \<and> 0 \<le> btp_StartTime t \<and> 0 \<le> btp_EndTime t \<and> 0 \<le> btp_Duration t \<and>
        0 \<le> btp_Size t) (prq_BackupTasks r)"
    unfolding Validate_PVE_def tasks by (simp add: not_less split: option.split)
  then show ?thesis by (simp only: identity_ok_iff storages conj_assoc)
qed

end
