(* ===== verification/Report_Log.thy ===== *)
theory Report_Log
  imports Sql_Table
begin

text \<open>
  What a report store promises, whatever the kind of server: it is a log of reports. Posting a report
  for a registered server appends it, unless the server has already posted one with the same token;
  pruning drops the reports before a cutoff. The locale \<open>report_log\<close> states this of a store, and
  shows that any history of posts and prunings leaves the log the history says, in which no token of
  a server occurs twice. The stores of the three kinds of server interpret it.
\<close>

section \<open>Histories\<close>

datatype 'q report_event = Post int 'q time | Prune time

fun event_server :: "'q report_event \<Rightarrow> int option" where
  "event_server (Post s q now) = Some s"
| "event_server (Prune cutoff) = None"

text \<open>A history run on a store; a post that fails leaves the store as it was.\<close>

fun run_event ::
  "(int \<Rightarrow> 'q \<Rightarrow> time \<Rightarrow> 'db \<Rightarrow> sql_error + 'db) \<Rightarrow> (time \<Rightarrow> 'db \<Rightarrow> int \<times> 'db) \<Rightarrow> 'q report_event \<Rightarrow> 'db \<Rightarrow> 'db" where
  "run_event store prune (Post s q now) db = (case store s q now db of Inl _ \<Rightarrow> db | Inr db' \<Rightarrow> db')"
| "run_event store prune (Prune cutoff) db = snd (prune cutoff db)"

definition run_events ::
  "(int \<Rightarrow> 'q \<Rightarrow> time \<Rightarrow> 'db \<Rightarrow> sql_error + 'db) \<Rightarrow> (time \<Rightarrow> 'db \<Rightarrow> int \<times> 'db) \<Rightarrow> 'q report_event list \<Rightarrow> 'db \<Rightarrow> 'db" where
  "run_events store prune evs db = foldl (\<lambda>db e. run_event store prune e db) db evs"

text \<open>The same history on a log: a report in the log is its server, its token, its arrival and its
  content.\<close>

record 'c log_entry =
  le_server :: int
  le_token :: string
  le_at :: time
  le_content :: 'c

definition has_token :: "int \<Rightarrow> string \<Rightarrow> 'c log_entry list \<Rightarrow> bool" where
  "has_token s k log \<longleftrightarrow> k \<noteq> [] \<and> list_ex (\<lambda>e. le_server e = s \<and> le_token e = k) log"

definition log_post :: "('q \<Rightarrow> string) \<Rightarrow> ('q \<Rightarrow> 'c) \<Rightarrow> int \<Rightarrow> 'q \<Rightarrow> time \<Rightarrow> 'c log_entry list \<Rightarrow> 'c log_entry list" where
  "log_post tok content s q now log =
     (if has_token s (tok q) log then log
      else log @ [\<lparr>le_server = s, le_token = tok q, le_at = sql_now now, le_content = content q\<rparr>])"

definition log_prune :: "time \<Rightarrow> 'c log_entry list \<Rightarrow> 'c log_entry list" where
  "log_prune cutoff log = filter (\<lambda>e. sql_now cutoff \<le> le_at e) log"

fun log_event :: "('q \<Rightarrow> string) \<Rightarrow> ('q \<Rightarrow> 'c) \<Rightarrow> 'q report_event \<Rightarrow> 'c log_entry list \<Rightarrow> 'c log_entry list" where
  "log_event tok content (Post s q now) log = log_post tok content s q now log"
| "log_event tok content (Prune cutoff) log = log_prune cutoff log"

definition log_events :: "('q \<Rightarrow> string) \<Rightarrow> ('q \<Rightarrow> 'c) \<Rightarrow> 'q report_event list \<Rightarrow> 'c log_entry list \<Rightarrow> 'c log_entry list" where
  "log_events tok content evs log = foldl (\<lambda>log e. log_event tok content e log) log evs"

text \<open>No token of a server twice.\<close>

definition log_once :: "'c log_entry list \<Rightarrow> bool" where
  "log_once log \<longleftrightarrow> distinct (map (\<lambda>e. (le_server e, le_token e)) (filter (\<lambda>e. le_token e \<noteq> []) log))"

lemma log_once_Nil [simp]: "log_once []"
  by (simp add: log_once_def)

lemma log_once_event: "log_once log \<Longrightarrow> log_once (log_event tok content e log)"
proof (cases e)
  case (Post s q now)
  then show "log_once log \<Longrightarrow> log_once (log_event tok content e log)"
    by (auto simp: log_once_def log_post_def has_token_def list_ex_iff)
next
  case (Prune cutoff)
  assume once: "log_once log"
  have "filter (\<lambda>e. le_token e \<noteq> []) (log_prune cutoff log) =
      filter (\<lambda>e. sql_now cutoff \<le> le_at e) (filter (\<lambda>e. le_token e \<noteq> []) log)"
    by (simp add: log_prune_def filter_filter conj_commute)
  then show "log_once (log_event tok content e log)" using once
    by (simp only: Prune log_event.simps log_once_def distinct_map_filter)
qed

lemma log_once_events: "log_once log \<Longrightarrow> log_once (log_events tok content evs log)"
  unfolding log_events_def by (induction evs arbitrary: log) (simp_all add: log_once_event)

lemma log_events_Cons [simp]:
  "log_events tok content [] log = log"
  "log_events tok content (e # evs) log = log_events tok content evs (log_event tok content e log)"
  by (simp_all add: log_events_def)

lemma run_events_Cons [simp]:
  "run_events store prune [] db = db"
  "run_events store prune (e # evs) db = run_events store prune evs (run_event store prune e db)"
  by (simp_all add: run_events_def)

section \<open>The contract\<close>

locale report_log =
  fixes ok :: "'db \<Rightarrow> bool"
    and known :: "'db \<Rightarrow> int \<Rightarrow> bool"
    and log :: "'db \<Rightarrow> 'c log_entry list"
    and tok :: "'q \<Rightarrow> string"
    and content :: "'q \<Rightarrow> 'c"
    and store :: "int \<Rightarrow> 'q \<Rightarrow> time \<Rightarrow> 'db \<Rightarrow> sql_error + 'db"
    and prune :: "time \<Rightarrow> 'db \<Rightarrow> int \<times> 'db"
  assumes store_known: "ok db \<Longrightarrow> known db s \<Longrightarrow>
      \<exists>db'. store s q now db = Inr db' \<and> ok db' \<and> known db' = known db \<and> log db' = log_post tok content s q now (log db)"
    and store_unknown: "ok db \<Longrightarrow> \<not> known db s \<Longrightarrow> \<exists>e. store s q now db = Inl e"
    and prune_log: "ok db \<Longrightarrow> ok (snd (prune cutoff db)) \<and> known (snd (prune cutoff db)) = known db \<and>
      log (snd (prune cutoff db)) = log_prune cutoff (log db) \<and>
      fst (prune cutoff db) = int (length (log db)) - int (length (log_prune cutoff (log db)))"
begin

lemma store_run:
  "ok db \<Longrightarrow> known db s \<Longrightarrow> store s q now db = Inr db' \<Longrightarrow>
   ok db' \<and> known db' = known db \<and> log db' = log_post tok content s q now (log db)"
  using store_known [of db s q now] by auto

text \<open>A post succeeds exactly for a registered server.\<close>

lemma store_succeeds_iff: "ok db \<Longrightarrow> (\<exists>db'. store s q now db = Inr db') \<longleftrightarrow> known db s"
  using store_known [of db s q now] store_unknown [of db s q now] by (metis Inl_Inr_False)

text \<open>A client that posts again with the same token, since it did not see the answer, changes nothing.\<close>

lemma retry:
  assumes "ok db" "tok q' = tok q" "tok q \<noteq> []" "store s q now db = Inr db1" "store s q' later db1 = Inr db2"
  shows "log db2 = log db1"
proof -
  have "known db s" using assms(1,4) store_unknown by (metis Inl_Inr_False)
  then have "ok db1" "known db1 s" "log db1 = log_post tok content s q now (log db)"
    using store_run [OF assms(1) _ assms(4)] by auto
  then have "log db2 = log_post tok content s q' later (log db1)" "has_token s (tok q) (log db1)"
    using store_run [OF _ _ assms(5)] assms(3) by (auto simp: log_post_def has_token_def list_ex_iff)
  then show ?thesis using assms(2) by (simp add: log_post_def)
qed

text \<open>Any history: the store holds what the history leaves on the log.\<close>

theorem history:
  assumes "ok db" "\<And>e s. e \<in> set evs \<Longrightarrow> event_server e = Some s \<Longrightarrow> known db s"
  shows "ok (run_events store prune evs db) \<and> known (run_events store prune evs db) = known db \<and>
    log (run_events store prune evs db) = log_events tok content evs (log db)"
  using assms
proof (induction evs arbitrary: db)
  case (Cons e evs)
  have step: "ok (run_event store prune e db) \<and> known (run_event store prune e db) = known db \<and>
      log (run_event store prune e db) = log_event tok content e (log db)"
  proof (cases e)
    case (Post s q now)
    then have "known db s" using Cons.prems(2) [of e s] by simp
    then show ?thesis using store_known [OF Cons.prems(1), of s q now] Post by auto
  next
    case (Prune cutoff)
    then show ?thesis using prune_log [OF Cons.prems(1), of cutoff] by simp
  qed
  then have "\<And>e' s. e' \<in> set evs \<Longrightarrow> event_server e' = Some s \<Longrightarrow> known (run_event store prune e db) s"
    using Cons.prems(2) by fastforce
  then show ?case using Cons.IH [of "run_event store prune e db"] step by simp
qed simp

end

end
