(* ===== verification/Pve_Store.thy ===== *)
theory Pve_Store
  imports Server_Store Report_Payload Report_Log Staleness
begin

text \<open>
  The stored PVE reports of \<open>internal/store/pve.go\<close>: six tables, the transaction that stores a
  report, the queries on it and the pruning of old reports. A statement that would break a
  reference or a unique index fails, and with it the transaction.

  The tables refine a simple idea, a list of reports each with its storages and tasks: \<open>pve_views\<close>
  reads that list from the tables.
\<close>

section \<open>Tables\<close>

record pve_report_row = pve_report +
  pver_token :: string

record pve_db =
  pd_servers :: pve_server_table
  pd_reports :: "pve_report_row auto_table"
  pd_storages :: "pve_storage auto_table"
  pd_infos :: "pve_storage_info auto_table"
  pd_contents :: "pve_storage_content auto_table"
  pd_tasks :: "pve_backup_task auto_table"

definition empty_pve_db :: pve_db where
  "empty_pve_db = \<lparr>pd_servers = at_empty, pd_reports = at_empty, pd_storages = at_empty,
     pd_infos = at_empty, pd_contents = at_empty, pd_tasks = at_empty\<rparr>"

section \<open>Storing a report\<close>

definition new_pve_report ::
  "int \<Rightarrow> backup_status option \<Rightarrow> host_swap \<Rightarrow> string \<Rightarrow> time \<Rightarrow> int \<Rightarrow> pve_report_row" where
  "new_pve_report serverID bs swap token now i =
     \<lparr>pver_ID = i, pver_ServerID = serverID, pver_ReportedAt = sql_now now, pver_IsStale = False,
      pver_StaleReason = [], pver_BackupStatus = StatusString bs,
      pver_BackupStarttime = (case bs of None \<Rightarrow> 0 | Some b \<Rightarrow> bs_StartTime b),
      pver_BackupEndtime = (case bs of None \<Rightarrow> 0 | Some b \<Rightarrow> bs_EndTime b),
      pver_BackupDuration = (case bs of None \<Rightarrow> 0 | Some b \<Rightarrow> bs_Duration b),
      pver_SwapTotal = swap_Total swap, pver_SwapUsed = swap_Used swap,
      pver_SwapEnabled = swap_Enabled swap, pver_token = token\<rparr>"

definition insertPVEReportWithSwap ::
  "int \<Rightarrow> backup_status option \<Rightarrow> host_swap \<Rightarrow> string \<Rightarrow> time \<Rightarrow> pve_db \<Rightarrow> sql_error + int \<times> pve_db" where
  "insertPVEReportWithSwap serverID bs swap token now db =
     (if \<not> at_has (\<lambda>s. sr_ID s = serverID) (pd_servers db) then Inl (NoParent ''pve_servers'')
      else if token \<noteq> [] \<and> at_has (\<lambda>r. pver_ServerID r = serverID \<and> pver_token r = token) (pd_reports db)
        then Inl (NotUnique ''pve_reports'')
      else case at_insert (new_pve_report serverID bs swap token now) (pd_reports db) of
        (i, t) \<Rightarrow> Inr (i, db\<lparr>pd_reports := t\<rparr>))"

definition InsertPVEReportWithSwap ::
  "int \<Rightarrow> backup_status option \<Rightarrow> host_swap \<Rightarrow> time \<Rightarrow> pve_db \<Rightarrow> sql_error + int \<times> pve_db" where
  "InsertPVEReportWithSwap serverID bs swap now db = insertPVEReportWithSwap serverID bs swap [] now db"

definition InsertPVEReport :: "int \<Rightarrow> backup_status option \<Rightarrow> time \<Rightarrow> pve_db \<Rightarrow> sql_error + int \<times> pve_db" where
  "InsertPVEReport serverID bs now db =
     InsertPVEReportWithSwap serverID bs \<lparr>swap_Total = 0, swap_Used = 0, swap_Enabled = False\<rparr> now db"

definition new_pve_storage :: "int \<Rightarrow> storage_payload \<Rightarrow> int \<Rightarrow> pve_storage" where
  "new_pve_storage reportID st i =
     \<lparr>pvest_ID = i, pvest_ReportID = reportID, pvest_Storage = sp_Storage st, pvest_Path = sp_Path st,
      pvest_Content = sp_Content st, pvest_Type = sp_Type st, pvest_Status = sp_Status st,
      pvest_Shared = sp_Shared st, pvest_Server = sp_Server st, pvest_Digest = sp_Digest st,
      pvest_PruneBackups = sp_PruneBackups st\<rparr>"

definition insertPVEStorage :: "int \<Rightarrow> storage_payload \<Rightarrow> pve_db \<Rightarrow> sql_error + int \<times> pve_db" where
  "insertPVEStorage reportID st db =
     (if \<not> at_has (\<lambda>r. pver_ID r = reportID) (pd_reports db) then Inl (NoParent ''pve_reports'')
      else case at_insert (new_pve_storage reportID st) (pd_storages db) of
        (i, t) \<Rightarrow> Inr (i, db\<lparr>pd_storages := t\<rparr>))"

definition new_pve_info :: "int \<Rightarrow> storage_info_payload \<Rightarrow> int \<Rightarrow> pve_storage_info" where
  "new_pve_info storageID info i =
     \<lparr>pvesi_ID = i, pvesi_StorageID = storageID, pvesi_Total = sip_Total info, pvesi_Used = sip_Used info,
      pvesi_Avail = sip_Avail info, pvesi_UsedPct = sip_UsedPct info, pvesi_Active = sip_Active info,
      pvesi_Enabled = sip_Enabled info, pvesi_Lvl = sip_Lvl info\<rparr>"

definition insertPVEStorageInfo :: "int \<Rightarrow> storage_info_payload \<Rightarrow> pve_db \<Rightarrow> sql_error + pve_db" where
  "insertPVEStorageInfo storageID info db =
     (if \<not> at_has (\<lambda>s. pvest_ID s = storageID) (pd_storages db) then Inl (NoParent ''pve_storages'')
      else Inr (db\<lparr>pd_infos := snd (at_insert (new_pve_info storageID info) (pd_infos db))\<rparr>))"

definition new_pve_content :: "int \<Rightarrow> content_data_payload \<Rightarrow> int \<Rightarrow> pve_storage_content" where
  "new_pve_content storageID c i =
     \<lparr>pvesc_ID = i, pvesc_StorageID = storageID, pvesc_VMID = cdp_VMID c, pvesc_Format = cdp_Format c,
      pvesc_Size = cdp_Size c, pvesc_Content = cdp_Content c, pvesc_VolID = cdp_VolID c,
      pvesc_CTime = cdp_CTime c, pvesc_Subtype = cdp_Subtype c, pvesc_Notes = cdp_Notes c,
      pvesc_Verification = cdp_Verification c\<rparr>"

definition insertPVEStorageContent :: "int \<Rightarrow> content_data_payload \<Rightarrow> pve_db \<Rightarrow> sql_error + pve_db" where
  "insertPVEStorageContent storageID c db =
     (if \<not> at_has (\<lambda>s. pvest_ID s = storageID) (pd_storages db) then Inl (NoParent ''pve_storages'')
      else Inr (db\<lparr>pd_contents := snd (at_insert (new_pve_content storageID c) (pd_contents db))\<rparr>))"

definition new_pve_task :: "int \<Rightarrow> backup_task_payload \<Rightarrow> int \<Rightarrow> pve_backup_task" where
  "new_pve_task reportID t i =
     \<lparr>pvet_ID = i, pvet_ReportID = reportID, pvet_VMID = btp_VMID t, pvet_VMName = btp_VMName t,
      pvet_Status = btp_Status t, pvet_StartTime = btp_StartTime t, pvet_EndTime = btp_EndTime t,
      pvet_Duration = btp_Duration t, pvet_Size = btp_Size t, pvet_Filename = btp_Filename t\<rparr>"

definition insertPVEBackupTask :: "int \<Rightarrow> backup_task_payload \<Rightarrow> pve_db \<Rightarrow> sql_error + pve_db" where
  "insertPVEBackupTask reportID t db =
     (if \<not> at_has (\<lambda>r. pver_ID r = reportID) (pd_reports db) then Inl (NoParent ''pve_reports'')
      else Inr (db\<lparr>pd_tasks := snd (at_insert (new_pve_task reportID t) (pd_tasks db))\<rparr>))"

definition insert_storage_data :: "int \<Rightarrow> storage_payload \<Rightarrow> pve_db \<Rightarrow> sql_error + pve_db" where
  "insert_storage_data reportID storage db =
     bind_err (insertPVEStorage reportID storage db) (\<lambda>(storageID, db).
     bind_err (each_err (insertPVEStorageInfo storageID) (sp_StorageInfo storage) db) (\<lambda>db.
     each_err (insertPVEStorageContent storageID) (sp_ContentData storage) db))"

definition request_swap :: "pve_report_request \<Rightarrow> host_swap" where
  "request_swap req = \<lparr>swap_Total = prq_SwapTotal req, swap_Used = prq_SwapUsed req, swap_Enabled = prq_SwapEnabled req\<rparr>"

definition InsertPVEReportData :: "int \<Rightarrow> pve_report_request \<Rightarrow> time \<Rightarrow> pve_db \<Rightarrow> sql_error + pve_db" where
  "InsertPVEReportData serverID req now db =
     (if prq_ReportID req \<noteq> [] \<and>
         at_has (\<lambda>r. pver_ServerID r = serverID \<and> pver_token r = prq_ReportID req) (pd_reports db)
      then Inr db
      else
        bind_err (insertPVEReportWithSwap serverID (prq_LastBackupStatus req) (request_swap req)
          (prq_ReportID req) now db) (\<lambda>(reportID, db).
        bind_err (each_err (insert_storage_data reportID) (prq_Storages req) db) (\<lambda>db.
        each_err (insertPVEBackupTask reportID) (prq_BackupTasks req) db)))"

section \<open>Queries\<close>

abbreviation scan_pve_report :: "pve_report_row \<Rightarrow> pve_report" where "scan_pve_report \<equiv> pve_report.truncate"

definition pve_reports_of :: "int \<Rightarrow> pve_db \<Rightarrow> pve_report_row list" where
  "pve_reports_of serverID db =
     newest_first pver_ReportedAt (at_select (\<lambda>r. pver_ServerID r = serverID) (pd_reports db))"

definition GetLatestPVEReport :: "int \<Rightarrow> pve_db \<Rightarrow> sql_error + pve_report" where
  "GetLatestPVEReport serverID db =
     (case pve_reports_of serverID db of [] \<Rightarrow> Inl NoRows | r # _ \<Rightarrow> Inr (scan_pve_report r))"

definition GetLatestPVEReports :: "pve_db \<Rightarrow> (int \<times> pve_report) list" where
  "GetLatestPVEReports db = index_rows pver_ServerID (map scan_pve_report
     (at_select (\<lambda>r. map_option pver_ID (case pve_reports_of (pver_ServerID r) db of [] \<Rightarrow> None | l # _ \<Rightarrow> Some l) =
        Some (pver_ID r)) (pd_reports db)))"

definition ListPVEReportsPage :: "int \<Rightarrow> int \<Rightarrow> int \<Rightarrow> pve_db \<Rightarrow> pve_report list" where
  "ListPVEReportsPage serverID limit offset db = map scan_pve_report (sql_page limit offset (pve_reports_of serverID db))"

definition ListPVEReports :: "int \<Rightarrow> int \<Rightarrow> pve_db \<Rightarrow> pve_report list" where
  "ListPVEReports serverID limit db = map scan_pve_report (sql_page limit 0 (pve_reports_of serverID db))"

definition CountPVEReports :: "int \<Rightarrow> pve_db \<Rightarrow> int" where
  "CountPVEReports serverID db = int (length (at_select (\<lambda>r. pver_ServerID r = serverID) (pd_reports db)))"

text \<open>The reports of the last days: \<open>time.Now().AddDate(0, 0, -days)\<close> in the zone of the process.\<close>

definition pve_reports_since :: "location \<Rightarrow> int \<Rightarrow> int \<Rightarrow> time \<Rightarrow> pve_db \<Rightarrow> pve_report_row list" where
  "pve_reports_since loc serverID days now db =
     filter (\<lambda>r. sql_now (add_days loc now (- days)) \<le> pver_ReportedAt r) (pve_reports_of serverID db)"

definition ListPVEReportsByDays :: "location \<Rightarrow> int \<Rightarrow> int \<Rightarrow> time \<Rightarrow> pve_db \<Rightarrow> pve_report list" where
  "ListPVEReportsByDays loc serverID days now db = map scan_pve_report (pve_reports_since loc serverID days now db)"

definition ListPVEReportsByDaysPage :: "location \<Rightarrow> int \<Rightarrow> int \<Rightarrow> int \<Rightarrow> int \<Rightarrow> time \<Rightarrow> pve_db \<Rightarrow> pve_report list" where
  "ListPVEReportsByDaysPage loc serverID days limit offset now db =
     map scan_pve_report (sql_page limit offset (pve_reports_since loc serverID days now db))"

definition CountPVEReportsByDays :: "location \<Rightarrow> int \<Rightarrow> int \<Rightarrow> time \<Rightarrow> pve_db \<Rightarrow> int" where
  "CountPVEReportsByDays loc serverID days now db = int (length (pve_reports_since loc serverID days now db))"

definition GetPVEStoragesForReport :: "int \<Rightarrow> pve_db \<Rightarrow> pve_storage list" where
  "GetPVEStoragesForReport reportID db = at_select (\<lambda>s. pvest_ReportID s = reportID) (pd_storages db)"

definition GetPVEStoragesForReports :: "int list \<Rightarrow> pve_db \<Rightarrow> (int \<times> pve_storage list) list" where
  "GetPVEStoragesForReports reportIDs db = group_rows pvest_ReportID
     (sort_key pvest_ReportID (sort_key pvest_Storage (at_select (\<lambda>s. pvest_ReportID s \<in> set reportIDs) (pd_storages db))))"

definition GetPVEStorageContent :: "int \<Rightarrow> pve_db \<Rightarrow> pve_storage_content list" where
  "GetPVEStorageContent storageID db =
     sort_key (\<lambda>c. - pvesc_CTime c) (at_select (\<lambda>c. pvesc_StorageID c = storageID) (pd_contents db))"

definition GetPVEStorageContentForStorages :: "int list \<Rightarrow> pve_db \<Rightarrow> (int \<times> pve_storage_content list) list" where
  "GetPVEStorageContentForStorages storageIDs db = group_rows pvesc_StorageID
     (sort_key pvesc_StorageID (sort_key (\<lambda>c. - pvesc_CTime c)
       (at_select (\<lambda>c. pvesc_StorageID c \<in> set storageIDs) (pd_contents db))))"

definition GetPVEStorageInfo :: "int \<Rightarrow> pve_db \<Rightarrow> sql_error + pve_storage_info" where
  "GetPVEStorageInfo storageID db =
     (case at_first (\<lambda>i. pvesi_StorageID i = storageID) (pd_infos db) of None \<Rightarrow> Inl NoRows | Some i \<Rightarrow> Inr i)"

definition GetPVEStorageInfoForStorages :: "int list \<Rightarrow> pve_db \<Rightarrow> (int \<times> pve_storage_info) list" where
  "GetPVEStorageInfoForStorages storageIDs db =
     index_rows pvesi_StorageID (at_select (\<lambda>i. pvesi_StorageID i \<in> set storageIDs) (pd_infos db))"

definition GetPVEBackupTasksForReport :: "int \<Rightarrow> pve_db \<Rightarrow> pve_backup_task list" where
  "GetPVEBackupTasksForReport reportID db =
     sort_key pvet_VMID (at_select (\<lambda>t. pvet_ReportID t = reportID) (pd_tasks db))"

definition GetPVEBackupTasksForReports :: "int list \<Rightarrow> pve_db \<Rightarrow> (int \<times> pve_backup_task list) list" where
  "GetPVEBackupTasksForReports reportIDs db = group_rows pvet_ReportID
     (sort_key pvet_ReportID (sort_key pvet_VMID (at_select (\<lambda>t. pvet_ReportID t \<in> set reportIDs) (pd_tasks db))))"

definition MarkPVEReportStale :: "int \<Rightarrow> string \<Rightarrow> pve_db \<Rightarrow> pve_db" where
  "MarkPVEReportStale reportID reason db =
     db\<lparr>pd_reports := at_update (\<lambda>r. pver_ID r = reportID)
       (\<lambda>r. r\<lparr>pver_IsStale := True, pver_StaleReason := reason\<rparr>) (pd_reports db)\<rparr>"

text \<open>The five deletions of one transaction, in the order of the source. The subqueries select the
  reports that satisfy a condition and the storages of such reports.\<close>

definition pve_report_in :: "(pve_report_row \<Rightarrow> bool) \<Rightarrow> pve_db \<Rightarrow> int \<Rightarrow> bool" where
  "pve_report_in P db i \<longleftrightarrow> at_has (\<lambda>r. pver_ID r = i \<and> P r) (pd_reports db)"

definition pve_storage_in :: "(pve_report_row \<Rightarrow> bool) \<Rightarrow> pve_db \<Rightarrow> int \<Rightarrow> bool" where
  "pve_storage_in P db i \<longleftrightarrow>
     at_has (\<lambda>s. pvest_ID s = i \<and> pve_report_in P db (pvest_ReportID s)) (pd_storages db)"

definition DeleteOldPVEReports :: "time \<Rightarrow> pve_db \<Rightarrow> int \<times> pve_db" where
  "DeleteOldPVEReports cutoff db0 =
     (let old = (\<lambda>r. pver_ReportedAt r < sql_now cutoff);
          db1 = db0\<lparr>pd_contents := at_delete (\<lambda>c. pve_storage_in old db0 (pvesc_StorageID c)) (pd_contents db0)\<rparr>;
          db2 = db1\<lparr>pd_infos := at_delete (\<lambda>i. pve_storage_in old db1 (pvesi_StorageID i)) (pd_infos db1)\<rparr>;
          db3 = db2\<lparr>pd_storages := at_delete (\<lambda>s. pve_report_in old db2 (pvest_ReportID s)) (pd_storages db2)\<rparr>;
          db4 = db3\<lparr>pd_tasks := at_delete (\<lambda>t. pve_report_in old db3 (pvet_ReportID t)) (pd_tasks db3)\<rparr>
      in (int (length (at_select old (pd_reports db4))), db4\<lparr>pd_reports := at_delete old (pd_reports db4)\<rparr>))"

section \<open>The reports the tables hold\<close>

text \<open>A report as the client sent it, with what the server added: its server, its arrival and its
  staleness mark.\<close>

record pve_view =
  pv_ServerID :: int
  pv_Token :: string
  pv_ReportedAt :: time
  pv_Stale :: "bool \<times> string"
  pv_Backup :: "string \<times> int \<times> int \<times> int"
  pv_Swap :: host_swap
  pv_Storages :: "storage_payload list"
  pv_Tasks :: "backup_task_payload list"

definition info_view :: "pve_storage_info \<Rightarrow> storage_info_payload" where
  "info_view i = \<lparr>sip_Total = pvesi_Total i, sip_Used = pvesi_Used i, sip_Avail = pvesi_Avail i,
     sip_UsedPct = pvesi_UsedPct i, sip_Active = pvesi_Active i, sip_Enabled = pvesi_Enabled i,
     sip_Lvl = pvesi_Lvl i\<rparr>"

definition content_view :: "pve_storage_content \<Rightarrow> content_data_payload" where
  "content_view c = \<lparr>cdp_VMID = pvesc_VMID c, cdp_Format = pvesc_Format c, cdp_Size = pvesc_Size c,
     cdp_Content = pvesc_Content c, cdp_VolID = pvesc_VolID c, cdp_CTime = pvesc_CTime c,
     cdp_Subtype = pvesc_Subtype c, cdp_Notes = pvesc_Notes c, cdp_Verification = pvesc_Verification c\<rparr>"

definition task_view :: "pve_backup_task \<Rightarrow> backup_task_payload" where
  "task_view t = \<lparr>btp_VMID = pvet_VMID t, btp_VMName = pvet_VMName t, btp_Status = pvet_Status t,
     btp_StartTime = pvet_StartTime t, btp_EndTime = pvet_EndTime t, btp_Duration = pvet_Duration t,
     btp_Size = pvet_Size t, btp_Filename = pvet_Filename t\<rparr>"

definition storage_view :: "pve_storage_info list \<Rightarrow> pve_storage_content list \<Rightarrow> pve_storage \<Rightarrow> storage_payload" where
  "storage_view infos contents s =
     \<lparr>sp_Digest = pvest_Digest s, sp_PruneBackups = pvest_PruneBackups s, sp_Shared = pvest_Shared s,
      sp_Server = pvest_Server s, sp_Storage = pvest_Storage s, sp_Path = pvest_Path s,
      sp_Content = pvest_Content s, sp_Type = pvest_Type s, sp_Status = pvest_Status s,
      sp_StorageInfo = map info_view (filter (\<lambda>i. pvesi_StorageID i = pvest_ID s) infos),
      sp_ContentData = map content_view (filter (\<lambda>c. pvesc_StorageID c = pvest_ID s) contents)\<rparr>"

definition storages_view :: "pve_db \<Rightarrow> int \<Rightarrow> storage_payload list" where
  "storages_view db reportID =
     map (storage_view (at_rows (pd_infos db)) (at_rows (pd_contents db)))
       (filter (\<lambda>s. pvest_ReportID s = reportID) (at_rows (pd_storages db)))"

definition tasks_view :: "pve_db \<Rightarrow> int \<Rightarrow> backup_task_payload list" where
  "tasks_view db reportID = map task_view (filter (\<lambda>t. pvet_ReportID t = reportID) (at_rows (pd_tasks db)))"

definition report_view :: "pve_db \<Rightarrow> pve_report_row \<Rightarrow> pve_view" where
  "report_view db r =
     \<lparr>pv_ServerID = pver_ServerID r, pv_Token = pver_token r, pv_ReportedAt = pver_ReportedAt r,
      pv_Stale = (pver_IsStale r, pver_StaleReason r),
      pv_Backup = (pver_BackupStatus r, pver_BackupStarttime r, pver_BackupEndtime r, pver_BackupDuration r),
      pv_Swap = \<lparr>swap_Total = pver_SwapTotal r, swap_Used = pver_SwapUsed r, swap_Enabled = pver_SwapEnabled r\<rparr>,
      pv_Storages = storages_view db (pver_ID r), pv_Tasks = tasks_view db (pver_ID r)\<rparr>"

definition pve_views :: "pve_db \<Rightarrow> pve_view list" where
  "pve_views db = map (report_view db) (at_rows (pd_reports db))"

text \<open>The view of a request that arrives.\<close>

definition request_view :: "int \<Rightarrow> pve_report_request \<Rightarrow> time \<Rightarrow> pve_view" where
  "request_view serverID req now =
     \<lparr>pv_ServerID = serverID, pv_Token = prq_ReportID req, pv_ReportedAt = sql_now now, pv_Stale = (False, []),
      pv_Backup = (StatusString (prq_LastBackupStatus req),
        case prq_LastBackupStatus req of None \<Rightarrow> (0, 0, 0)
          | Some b \<Rightarrow> (bs_StartTime b, bs_EndTime b, bs_Duration b)),
      pv_Swap = request_swap req, pv_Storages = prq_Storages req, pv_Tasks = prq_BackupTasks req\<rparr>"

section \<open>The invariant of the tables\<close>

definition pve_ids_ok :: "pve_db \<Rightarrow> bool" where
  "pve_ids_ok db \<longleftrightarrow> at_ok sr_ID (pd_servers db) \<and> at_ok pver_ID (pd_reports db) \<and> at_ok pvest_ID (pd_storages db) \<and>
     at_ok pvesi_ID (pd_infos db) \<and> at_ok pvesc_ID (pd_contents db) \<and> at_ok pvet_ID (pd_tasks db)"

definition pve_refs_ok :: "pve_db \<Rightarrow> bool" where
  "pve_refs_ok db \<longleftrightarrow> refs_in pver_ServerID sr_ID (pd_reports db) (pd_servers db) \<and>
     refs_in pvest_ReportID pver_ID (pd_storages db) (pd_reports db) \<and>
     refs_in pvesi_StorageID pvest_ID (pd_infos db) (pd_storages db) \<and>
     refs_in pvesc_StorageID pvest_ID (pd_contents db) (pd_storages db) \<and>
     refs_in pvet_ReportID pver_ID (pd_tasks db) (pd_reports db)"

definition pve_tokens_ok :: "pve_db \<Rightarrow> bool" where
  "pve_tokens_ok db \<longleftrightarrow> tokens_once pver_ServerID pver_token (pd_reports db)"

definition pve_ok :: "pve_db \<Rightarrow> bool" where
  "pve_ok db \<longleftrightarrow> pve_ids_ok db \<and> pve_refs_ok db \<and> pve_tokens_ok db"

lemma new_row_ids [simp]:
  "pver_ID (new_pve_report s b w k now i) = i" "pvest_ID (new_pve_storage r st i) = i"
  "pvesi_ID (new_pve_info s f i) = i" "pvesc_ID (new_pve_content s c i) = i" "pvet_ID (new_pve_task r t i) = i"
  "pver_ServerID (new_pve_report s b w k now i) = s" "pvest_ReportID (new_pve_storage r st i) = r"
  "pvesi_StorageID (new_pve_info s f i) = s" "pvesc_StorageID (new_pve_content s c i) = s"
  "pvet_ReportID (new_pve_task r t i) = r" "pver_token (new_pve_report s b w k now i) = k"
  by (simp_all add: new_pve_report_def new_pve_storage_def new_pve_info_def new_pve_content_def new_pve_task_def)

lemma new_row_views [simp]:
  "info_view (new_pve_info s f i) = f" "content_view (new_pve_content s c i) = c" "task_view (new_pve_task r t i) = t"
  by (simp_all add: info_view_def content_view_def task_view_def new_pve_info_def new_pve_content_def new_pve_task_def)

section \<open>The loops of the transaction\<close>

lemma insert_infos:
  "at_has (\<lambda>s. pvest_ID s = sid) (pd_storages db) \<Longrightarrow>
   each_err (insertPVEStorageInfo sid) xs db = Inr (db\<lparr>pd_infos := at_insert_all (new_pve_info sid) xs (pd_infos db)\<rparr>)"
  by (induction xs arbitrary: db) (simp_all add: insertPVEStorageInfo_def)

lemma insert_contents:
  "at_has (\<lambda>s. pvest_ID s = sid) (pd_storages db) \<Longrightarrow>
   each_err (insertPVEStorageContent sid) xs db =
     Inr (db\<lparr>pd_contents := at_insert_all (new_pve_content sid) xs (pd_contents db)\<rparr>)"
  by (induction xs arbitrary: db) (simp_all add: insertPVEStorageContent_def)

lemma insert_tasks:
  "at_has (\<lambda>r. pver_ID r = rid) (pd_reports db) \<Longrightarrow>
   each_err (insertPVEBackupTask rid) xs db = Inr (db\<lparr>pd_tasks := at_insert_all (new_pve_task rid) xs (pd_tasks db)\<rparr>)"
  by (induction xs arbitrary: db) (simp_all add: insertPVEBackupTask_def)

definition with_storage :: "int \<Rightarrow> storage_payload \<Rightarrow> pve_db \<Rightarrow> pve_db" where
  "with_storage rid st db =
     (let sid = at_seq (pd_storages db) + 1
      in db\<lparr>pd_storages := snd (at_insert (new_pve_storage rid st) (pd_storages db)),
            pd_infos := at_insert_all (new_pve_info sid) (sp_StorageInfo st) (pd_infos db),
            pd_contents := at_insert_all (new_pve_content sid) (sp_ContentData st) (pd_contents db)\<rparr>)"

lemma insert_storage_step:
  assumes "at_has (\<lambda>r. pver_ID r = rid) (pd_reports db)"
  shows "insert_storage_data rid st db = Inr (with_storage rid st db)"
proof -
  have "at_has (\<lambda>s. pvest_ID s = at_seq (pd_storages db) + 1)
      (snd (at_insert (new_pve_storage rid st) (pd_storages db)))"
    by (simp add: at_has_iff at_rows_simps)
  then show ?thesis using assms
    by (simp add: insert_storage_data_def insertPVEStorage_def case_prod_unfold at_rows_simps insert_infos
        insert_contents with_storage_def Let_def)
qed

text \<open>One more storage: the reports it does not belong to look the same, its own has it at the end.\<close>

lemma with_storage_ok:
  assumes "pve_ids_ok db" "pve_refs_ok db" "at_has (\<lambda>r. pver_ID r = rid) (pd_reports db)"
  shows "pve_ids_ok (with_storage rid st db) \<and> pve_refs_ok (with_storage rid st db)"
proof -
  have "at_has (\<lambda>s. pvest_ID s = at_seq (pd_storages db) + 1)
      (snd (at_insert (new_pve_storage rid st) (pd_storages db)))"
    by (simp add: at_has_iff at_rows_simps)
  then show ?thesis using assms
    by (auto simp: pve_ids_ok_def pve_refs_ok_def with_storage_def Let_def
        intro!: at_ok_insert at_ok_insert_all refs_in_child_insert refs_in_child_insert_all
        intro: refs_in_parent_insert)
qed

lemma with_storage_view:
  assumes "pve_ids_ok db" "pve_refs_ok db"
  shows "storages_view (with_storage rid st db) j = storages_view db j @ (if j = rid then [st] else [])"
proof -
  let ?sid = "at_seq (pd_storages db) + 1" and ?db = "with_storage rid st db"
  have ids: "at_ok pvest_ID (pd_storages db)" using assms(1) by (simp add: pve_ids_ok_def)
  have refs: "refs_in pvesi_StorageID pvest_ID (pd_infos db) (pd_storages db)"
    "refs_in pvesc_StorageID pvest_ID (pd_contents db) (pd_storages db)"
    using assms(2) by (simp_all add: pve_refs_ok_def)
  have infos: "filter (\<lambda>i. pvesi_StorageID i = k) (at_rows (pd_infos ?db)) =
      (if k = ?sid then numbered (new_pve_info ?sid) (at_seq (pd_infos db)) (sp_StorageInfo st)
       else filter (\<lambda>i. pvesi_StorageID i = k) (at_rows (pd_infos db)))" for k
    using fresh_children [OF refs(1) ids, of "new_pve_info ?sid"] by (simp add: with_storage_def Let_def)
  have contents: "filter (\<lambda>i. pvesc_StorageID i = k) (at_rows (pd_contents ?db)) =
      (if k = ?sid then numbered (new_pve_content ?sid) (at_seq (pd_contents db)) (sp_ContentData st)
       else filter (\<lambda>i. pvesc_StorageID i = k) (at_rows (pd_contents db)))" for k
    using fresh_children [OF refs(2) ids, of "new_pve_content ?sid"] by (simp add: with_storage_def Let_def)
  have same: "storage_view (at_rows (pd_infos ?db)) (at_rows (pd_contents ?db)) s =
      storage_view (at_rows (pd_infos db)) (at_rows (pd_contents db)) s" if "s \<in> set (at_rows (pd_storages db))" for s
    using at_ok_fresh [OF ids that] by (simp add: storage_view_def infos contents)
  have new: "storage_view (at_rows (pd_infos ?db)) (at_rows (pd_contents ?db)) (new_pve_storage rid st ?sid) = st"
    by (simp add: storage_view_def infos contents numbered_map [where g = "\<lambda>x. x"]) (simp add: new_pve_storage_def)
  have "at_rows (pd_storages ?db) = at_rows (pd_storages db) @ [new_pve_storage rid st ?sid]"
    by (simp add: with_storage_def Let_def at_rows_simps)
  then show ?thesis using same new by (auto simp: storages_view_def)
qed

lemma insert_storages:
  assumes "pve_ids_ok db" "pve_refs_ok db" "at_has (\<lambda>r. pver_ID r = rid) (pd_reports db)"
  shows "\<exists>db'. each_err (insert_storage_data rid) sts db = Inr db' \<and> pve_ids_ok db' \<and> pve_refs_ok db' \<and>
    pd_servers db' = pd_servers db \<and> pd_reports db' = pd_reports db \<and> pd_tasks db' = pd_tasks db \<and>
    (\<forall>j. storages_view db' j = storages_view db j @ (if j = rid then sts else []))"
  using assms
proof (induction sts arbitrary: db)
  case (Cons st sts)
  let ?db = "with_storage rid st db"
  have keep: "pd_servers ?db = pd_servers db" "pd_reports ?db = pd_reports db" "pd_tasks ?db = pd_tasks db"
    by (simp_all add: with_storage_def Let_def)
  have ok: "pve_ids_ok ?db" "pve_refs_ok ?db" using with_storage_ok [OF Cons.prems] by blast+
  from Cons.IH [OF this] Cons.prems(3) obtain db' where
    "each_err (insert_storage_data rid) sts ?db = Inr db'" "pve_ids_ok db'" "pve_refs_ok db'"
    "pd_servers db' = pd_servers db" "pd_reports db' = pd_reports db" "pd_tasks db' = pd_tasks db"
    "\<forall>j. storages_view db' j = storages_view ?db j @ (if j = rid then sts else [])"
    unfolding keep by blast
  then show ?case
    using Cons.prems(3) by (auto simp: insert_storage_step with_storage_view [OF Cons.prems(1,2)])
qed simp

section \<open>Refinement\<close>

lemma tasks_view_insert:
  assumes "pve_ids_ok db" "pve_refs_ok db" "rid = at_seq (pd_reports db) + 1" "pd_tasks db' = pd_tasks db"
  shows "tasks_view (db'\<lparr>pd_tasks := at_insert_all (new_pve_task rid) ts (pd_tasks db')\<rparr>) j =
    (if j = rid then ts else tasks_view db j)"
proof -
  have "filter (\<lambda>t. pvet_ReportID t = j) (at_rows (at_insert_all (new_pve_task rid) ts (pd_tasks db))) =
      (if j = rid then numbered (new_pve_task rid) (at_seq (pd_tasks db)) ts
       else filter (\<lambda>t. pvet_ReportID t = j) (at_rows (pd_tasks db)))"
    using assms(1,2) unfolding assms(3) pve_ids_ok_def pve_refs_ok_def
    by (intro fresh_children [where idf = pver_ID]) simp_all
  then show ?thesis by (simp add: tasks_view_def assms(4) numbered_map [where g = "\<lambda>x. x"])
qed

lemma storages_view_fresh: "pve_refs_ok db \<Longrightarrow> pve_ids_ok db \<Longrightarrow> storages_view db (at_seq (pd_reports db) + 1) = []"
  by (simp add: storages_view_def pve_refs_ok_def pve_ids_ok_def no_children_yet [where fk = pvest_ReportID and idf = pver_ID])

lemma duplicate_view:
  "at_has (\<lambda>r. pver_ServerID r = s \<and> pver_token r = k) (pd_reports db) \<longleftrightarrow>
   list_ex (\<lambda>v. pv_ServerID v = s \<and> pv_Token v = k) (pve_views db)"
  by (auto simp: at_has_iff pve_views_def report_view_def list_ex_iff)

lemma insert_new_report:
  assumes ok: "pve_ok db" and srv: "at_has (\<lambda>s. sr_ID s = serverID) (pd_servers db)"
    and new: "\<not> (prq_ReportID req \<noteq> [] \<and>
      at_has (\<lambda>r. pver_ServerID r = serverID \<and> pver_token r = prq_ReportID req) (pd_reports db))"
  shows "\<exists>db'. InsertPVEReportData serverID req now db = Inr db' \<and> pve_ok db' \<and> pd_servers db' = pd_servers db \<and>
    pve_views db' = pve_views db @ [request_view serverID req now]"
proof -
  let ?rid = "at_seq (pd_reports db) + 1"
  let ?mk = "new_pve_report serverID (prq_LastBackupStatus req) (request_swap req) (prq_ReportID req) now"
  let ?db1 = "db\<lparr>pd_reports := snd (at_insert ?mk (pd_reports db))\<rparr>"
  have ids: "pve_ids_ok db" and refs: "pve_refs_ok db" using ok by (simp_all add: pve_ok_def)
  have ids1: "pve_ids_ok ?db1" using ids by (simp add: pve_ids_ok_def at_ok_insert)
  have refs1: "pve_refs_ok ?db1"
    using refs srv by (auto simp: pve_refs_ok_def intro: refs_in_parent_insert refs_in_child_insert)
  have rid: "at_has (\<lambda>r. pver_ID r = ?rid) (pd_reports ?db1)" by (simp add: at_has_iff at_rows_simps)
  obtain db2 where db2: "each_err (insert_storage_data ?rid) (prq_Storages req) ?db1 = Inr db2"
      "pve_ids_ok db2" "pve_refs_ok db2" "pd_servers db2 = pd_servers db" "pd_reports db2 = pd_reports ?db1"
      "pd_tasks db2 = pd_tasks db"
    and views: "\<And>j. storages_view db2 j = storages_view ?db1 j @ (if j = ?rid then prq_Storages req else [])"
    using insert_storages [OF ids1 refs1 rid, of "prq_Storages req"] by auto
  let ?db3 = "db2\<lparr>pd_tasks := at_insert_all (new_pve_task ?rid) (prq_BackupTasks req) (pd_tasks db2)\<rparr>"
  have run: "InsertPVEReportData serverID req now db = Inr ?db3"
    using new srv rid db2(1,5)
    by (auto simp: InsertPVEReportData_def insertPVEReportWithSwap_def case_prod_unfold at_rows_simps insert_tasks)
  have ids3: "pve_ids_ok ?db3" using db2(2) by (simp add: pve_ids_ok_def at_ok_insert_all)
  have refs3: "pve_refs_ok ?db3" using db2(3) rid unfolding db2(5) [symmetric]
    by (auto simp: pve_refs_ok_def intro!: refs_in_child_insert_all)
  have "pve_tokens_ok ?db3"
    using ok new unfolding pve_ok_def pve_tokens_ok_def
    by (auto simp: db2(5) intro!: tokens_once_insert [where s = serverID and k = "prq_ReportID req"])
  then have "pve_ok ?db3" using ids3 refs3 by (simp add: pve_ok_def)
  moreover have "pve_views ?db3 = pve_views db @ [request_view serverID req now]"
  proof -
    have sv: "storages_view ?db3 j = (if j = ?rid then prq_Storages req else storages_view db j)" for j
      using views [of j] storages_view_fresh [OF refs ids] by (simp add: storages_view_def)
    have tv: "tasks_view ?db3 j = (if j = ?rid then prq_BackupTasks req else tasks_view db j)" for j
      by (rule tasks_view_insert [OF ids refs refl db2(6)])
    have "report_view ?db3 r = report_view db r" if "r \<in> set (at_rows (pd_reports db))" for r
      using at_ok_fresh [OF _ that, of pver_ID] ids by (auto simp: report_view_def sv tv pve_ids_ok_def)
    moreover have "report_view ?db3 (?mk ?rid) = request_view serverID req now"
      by (simp add: report_view_def sv tv) (simp add: request_view_def new_pve_report_def request_swap_def split: option.split)
    ultimately show ?thesis by (simp add: pve_views_def db2(5) at_rows_simps)
  qed
  ultimately show ?thesis using run db2(4) by auto
qed

lemma insert_report_views:
  assumes "pve_ok db" "at_has (\<lambda>s. sr_ID s = serverID) (pd_servers db)"
  shows "\<exists>db'. InsertPVEReportData serverID req now db = Inr db' \<and> pve_ok db' \<and> pd_servers db' = pd_servers db \<and>
    pve_views db' =
      (if prq_ReportID req \<noteq> [] \<and>
          list_ex (\<lambda>v. pv_ServerID v = serverID \<and> pv_Token v = prq_ReportID req) (pve_views db)
       then pve_views db else pve_views db @ [request_view serverID req now])"
proof (cases "prq_ReportID req \<noteq> [] \<and>
    at_has (\<lambda>r. pver_ServerID r = serverID \<and> pver_token r = prq_ReportID req) (pd_reports db)")
  case True
  then show ?thesis using assms(1) by (simp add: InsertPVEReportData_def duplicate_view)
next
  case False
  then have "\<not> (prq_ReportID req \<noteq> [] \<and>
      list_ex (\<lambda>v. pv_ServerID v = serverID \<and> pv_Token v = prq_ReportID req) (pve_views db))"
    using duplicate_view [of serverID "prq_ReportID req" db] by blast
  then show ?thesis using insert_new_report [OF assms False, of now] by auto
qed

text \<open>C34: storing a report is appending it to the list of reports: for a known server the transaction
  succeeds, and the tables then hold the reports they held and the new one with every storage,
  capacity, content and task exactly as sent; a report whose token the server has already is not
  stored again.\<close>

theorem InsertPVEReportData_refines:
  assumes "pve_ok db" "at_has (\<lambda>s. sr_ID s = serverID) (pd_servers db)"
  shows "\<exists>db'. InsertPVEReportData serverID req now db = Inr db' \<and> pve_ok db' \<and>
    pve_views db' =
      (if prq_ReportID req \<noteq> [] \<and>
          list_ex (\<lambda>v. pv_ServerID v = serverID \<and> pv_Token v = prq_ReportID req) (pve_views db)
       then pve_views db else pve_views db @ [request_view serverID req now])"
  using insert_report_views [OF assms] by blast

definition sample_pve_request :: pve_report_request where
  "sample_pve_request =
     \<lparr>prq_ReportID = ''r1'', prq_Hostname = ''pve1'', prq_IPAddress = ''10.0.0.1'', prq_PublicIP = [],
      prq_ClientVersion = ''1.0'', prq_MachineID = ''m1'', prq_SwapTotal = 0, prq_SwapUsed = 0,
      prq_SwapEnabled = False, prq_LastBackupStatus = None,
      prq_Storages = [\<lparr>sp_Digest = [], sp_PruneBackups = ''null'', sp_Shared = False, sp_Server = [],
        sp_Storage = ''local'', sp_Path = ''/var'', sp_Content = ''backup'', sp_Type = ''dir'', sp_Status = ''available'',
        sp_StorageInfo = [\<lparr>sip_Total = 100, sip_Used = 97, sip_Avail = 3, sip_UsedPct = 97, sip_Active = True,
          sip_Enabled = True, sip_Lvl = 0\<rparr>], sp_ContentData = []\<rparr>],
      prq_BackupTasks = [\<lparr>btp_VMID = 101, btp_VMName = ''web'', btp_Status = ''ERROR'', btp_StartTime = 10,
        btp_EndTime = 20, btp_Duration = 10, btp_Size = 0, btp_Filename = []\<rparr>]\<rparr>"

definition sample_pve_db :: pve_db where
  "sample_pve_db = empty_pve_db\<lparr>pd_servers := snd (UpsertPVEServerForAPIKey 7 sample_facts 1 at_empty)\<rparr>"

lemma sample_pve_ok: "pve_ok sample_pve_db"
proof -
  have "at_ok sr_ID (pd_servers sample_pve_db)" by code_simp
  then show ?thesis
    by (simp add: pve_ok_def pve_ids_ok_def pve_refs_ok_def pve_tokens_ok_def sample_pve_db_def empty_pve_db_def at_rows_simps)
qed

theorem InsertPVEReportData_refines_witness:
  "\<exists>db'. InsertPVEReportData 1 sample_pve_request 5 sample_pve_db = Inr db' \<and>
     map pv_Storages (pve_views db') = [prq_Storages sample_pve_request]"
proof -
  have "at_has (\<lambda>s. sr_ID s = 1) (pd_servers sample_pve_db)" by code_simp
  moreover have "pve_views sample_pve_db = []" by code_simp
  ultimately show ?thesis
    using InsertPVEReportData_refines [OF sample_pve_ok, of 1 sample_pve_request 5] by (auto simp: request_view_def)
qed

section \<open>Pruning\<close>

text \<open>The tables without the reports that satisfy a condition.\<close>

definition without_pve_reports :: "(pve_report_row \<Rightarrow> bool) \<Rightarrow> pve_db \<Rightarrow> pve_db" where
  "without_pve_reports P db = db\<lparr>
     pd_reports := at_delete P (pd_reports db),
     pd_storages := at_delete (\<lambda>s. pve_report_in P db (pvest_ReportID s)) (pd_storages db),
     pd_infos := at_delete (\<lambda>i. pve_storage_in P db (pvesi_StorageID i)) (pd_infos db),
     pd_contents := at_delete (\<lambda>c. pve_storage_in P db (pvesc_StorageID c)) (pd_contents db),
     pd_tasks := at_delete (\<lambda>t. pve_report_in P db (pvet_ReportID t)) (pd_tasks db)\<rparr>"

lemma DeleteOld_tables:
  "snd (DeleteOldPVEReports cutoff db) = without_pve_reports (\<lambda>r. pver_ReportedAt r < sql_now cutoff) db"
  "fst (DeleteOldPVEReports cutoff db) = int (length (at_select (\<lambda>r. pver_ReportedAt r < sql_now cutoff) (pd_reports db)))"
  by (simp_all add: DeleteOldPVEReports_def without_pve_reports_def Let_def pve_storage_in_def pve_report_in_def)

lemma pve_report_in_iff:
  "pve_ids_ok db \<Longrightarrow> r \<in> set (at_rows (pd_reports db)) \<Longrightarrow> pve_report_in P db (pver_ID r) \<longleftrightarrow> P r"
  unfolding pve_report_in_def at_has_iff pve_ids_ok_def by (blast dest: at_ok_id_inj)

lemma pve_storage_in_iff:
  "pve_ids_ok db \<Longrightarrow> s \<in> set (at_rows (pd_storages db)) \<Longrightarrow>
   pve_storage_in P db (pvest_ID s) \<longleftrightarrow> pve_report_in P db (pvest_ReportID s)"
  unfolding pve_storage_in_def at_has_iff pve_ids_ok_def by (blast dest: at_ok_id_inj)

lemma without_pve_ok:
  assumes "pve_ok db"
  shows "pve_ok (without_pve_reports P db)"
proof -
  let ?db = "without_pve_reports P db"
  have ids: "pve_ids_ok db" and refs: "pve_refs_ok db" and tok: "pve_tokens_ok db" using assms by (simp_all add: pve_ok_def)
  have "pve_ids_ok ?db" using ids by (simp add: without_pve_reports_def pve_ids_ok_def at_ok_delete)
  moreover have "pve_refs_ok ?db"
    using refs unfolding without_pve_reports_def pve_refs_ok_def
    by (auto simp: pve_storage_in_def pve_report_in_def at_has_iff intro!: refs_in_delete intro: refs_in_subset)
  moreover have "pve_tokens_ok ?db"
    using tok unfolding without_pve_reports_def pve_tokens_ok_def by (simp add: tokens_once_delete)
  ultimately show ?thesis by (simp add: pve_ok_def)
qed

lemma kept_report_view:
  assumes "pve_ids_ok db" "r \<in> set (at_rows (pd_reports db))" "\<not> P r"
  shows "report_view (without_pve_reports P db) r = report_view db r"
proof -
  let ?db = "without_pve_reports P db"
  have kept: "\<not> pve_report_in P db (pver_ID r)" using pve_report_in_iff [OF assms(1,2)] assms(3) by simp
  have tasks: "filter (\<lambda>t. pvet_ReportID t = pver_ID r) (at_rows (pd_tasks ?db)) =
      filter (\<lambda>t. pvet_ReportID t = pver_ID r) (at_rows (pd_tasks db))"
    unfolding without_pve_reports_def using kept by (simp, intro filter_delete_same) auto
  have storages: "filter (\<lambda>s. pvest_ReportID s = pver_ID r) (at_rows (pd_storages ?db)) =
      filter (\<lambda>s. pvest_ReportID s = pver_ID r) (at_rows (pd_storages db))"
    unfolding without_pve_reports_def using kept by (simp, intro filter_delete_same) auto
  have "storage_view (at_rows (pd_infos ?db)) (at_rows (pd_contents ?db)) s =
      storage_view (at_rows (pd_infos db)) (at_rows (pd_contents db)) s"
    if "s \<in> set (at_rows (pd_storages db))" "pvest_ReportID s = pver_ID r" for s
  proof -
    have "\<not> pve_storage_in P db (pvest_ID s)" using pve_storage_in_iff [OF assms(1) that(1)] that(2) kept by simp
    then have "filter (\<lambda>i. pvesi_StorageID i = pvest_ID s) (at_rows (pd_infos ?db)) =
        filter (\<lambda>i. pvesi_StorageID i = pvest_ID s) (at_rows (pd_infos db))"
      "filter (\<lambda>c. pvesc_StorageID c = pvest_ID s) (at_rows (pd_contents ?db)) =
        filter (\<lambda>c. pvesc_StorageID c = pvest_ID s) (at_rows (pd_contents db))"
      unfolding without_pve_reports_def by (simp, intro filter_delete_same, auto)+
    then show ?thesis by (simp add: storage_view_def)
  qed
  then have "storages_view ?db (pver_ID r) = storages_view db (pver_ID r)"
    unfolding storages_view_def storages by (intro map_cong) auto
  then show ?thesis by (simp add: report_view_def tasks_view_def tasks)
qed

lemma without_pve_views:
  assumes "pve_ids_ok db" "\<And>r. P r \<longleftrightarrow> Q (report_view db r)"
  shows "pve_views (without_pve_reports P db) = filter (\<lambda>v. \<not> Q v) (pve_views db)"
proof -
  let ?db = "without_pve_reports P db"
  have "pve_views ?db = map (report_view ?db) (filter (\<lambda>r. \<not> P r) (at_rows (pd_reports db)))"
    by (simp add: pve_views_def without_pve_reports_def at_rows_simps)
  also have "\<dots> = map (report_view db) (filter (\<lambda>r. \<not> P r) (at_rows (pd_reports db)))"
    using kept_report_view [OF assms(1)] by (intro map_cong) auto
  finally show ?thesis by (simp add: pve_views_def filter_map comp_def assms(2))
qed

lemma prune_views:
  assumes "pve_ok db"
  shows "pve_ok (snd (DeleteOldPVEReports cutoff db)) \<and>
    pve_views (snd (DeleteOldPVEReports cutoff db)) = filter (\<lambda>v. sql_now cutoff \<le> pv_ReportedAt v) (pve_views db) \<and>
    fst (DeleteOldPVEReports cutoff db) = int (length (filter (\<lambda>v. pv_ReportedAt v < sql_now cutoff) (pve_views db)))"
proof -
  have "pve_views (snd (DeleteOldPVEReports cutoff db)) = filter (\<lambda>v. \<not> pv_ReportedAt v < sql_now cutoff) (pve_views db)"
    unfolding DeleteOld_tables(1) using assms by (intro without_pve_views) (simp_all add: pve_ok_def report_view_def)
  then show ?thesis using without_pve_ok [OF assms]
    by (simp add: DeleteOld_tables pve_views_def filter_map comp_def report_view_def at_select_def not_less)
qed

text \<open>Pruning removes whole reports: afterwards the tables hold exactly the reports that are not
  older than the cutoff, each still complete, no row of a removed report is left behind, and the
  number returned is the number removed.\<close>

theorem DeleteOldPVEReports_refines:
  assumes "pve_ok db"
  shows "pve_ok (snd (DeleteOldPVEReports cutoff db)) \<and>
    pve_views (snd (DeleteOldPVEReports cutoff db)) = filter (\<lambda>v. sql_now cutoff \<le> pv_ReportedAt v) (pve_views db) \<and>
    fst (DeleteOldPVEReports cutoff db) = int (length (filter (\<lambda>v. pv_ReportedAt v < sql_now cutoff) (pve_views db)))"
  by (rule prune_views [OF assms])

theorem DeleteOldPVEReports_refines_witness:
  "pve_views (snd (DeleteOldPVEReports (2 * hour) sample_pve_db)) = [] \<and> pve_ok sample_pve_db"
  using DeleteOldPVEReports_refines [OF sample_pve_ok, of "2 * hour"] sample_pve_ok
  by (simp add: pve_views_def sample_pve_db_def empty_pve_db_def at_rows_simps)

section \<open>The contract of a report log\<close>

type_synonym pve_content = "(string \<times> int \<times> int \<times> int) \<times> host_swap \<times> storage_payload list \<times> backup_task_payload list"

definition pve_entry :: "pve_view \<Rightarrow> pve_content log_entry" where
  "pve_entry v = \<lparr>le_server = pv_ServerID v, le_token = pv_Token v, le_at = pv_ReportedAt v,
     le_content = (pv_Backup v, pv_Swap v, pv_Storages v, pv_Tasks v)\<rparr>"

definition pve_log :: "pve_db \<Rightarrow> pve_content log_entry list" where
  "pve_log db = map pve_entry (pve_views db)"

definition pve_request_content :: "pve_report_request \<Rightarrow> pve_content" where
  "pve_request_content req = le_content (pve_entry (request_view 0 req 0))"

definition pve_known :: "pve_db \<Rightarrow> int \<Rightarrow> bool" where
  "pve_known db s \<longleftrightarrow> at_has (\<lambda>v. sr_ID v = s) (pd_servers db)"

lemma pve_entry_request:
  "pve_entry (request_view s req now) =
     \<lparr>le_server = s, le_token = prq_ReportID req, le_at = sql_now now, le_content = pve_request_content req\<rparr>"
  by (simp add: pve_request_content_def pve_entry_def request_view_def)

lemma pve_log_token: "has_token s k (pve_log db) \<longleftrightarrow> k \<noteq> [] \<and> list_ex (\<lambda>v. pv_ServerID v = s \<and> pv_Token v = k) (pve_views db)"
  by (simp add: has_token_def pve_log_def pve_entry_def list_ex_iff)

lemma prune_pve_count:
  "length (filter (\<lambda>v. pv_ReportedAt v < c) vs) + length (filter (\<lambda>v. c \<le> pv_ReportedAt v) vs) = length vs"
  using sum_length_filter_compl [of "\<lambda>v. pv_ReportedAt v < c" vs] by (simp add: not_less)

interpretation pve_reports: report_log pve_ok pve_known pve_log prq_ReportID pve_request_content
  InsertPVEReportData DeleteOldPVEReports
proof unfold_locales
  fix db s req now cutoff
  assume ok: "pve_ok db"
  show "\<exists>db'. InsertPVEReportData s req now db = Inr db' \<and> pve_ok db' \<and> pve_known db' = pve_known db \<and>
      pve_log db' = log_post prq_ReportID pve_request_content s req now (pve_log db)" if "pve_known db s"
    using insert_report_views [OF ok, of s req now] that
    by (auto simp: pve_known_def [abs_def] log_post_def pve_log_token pve_entry_request) (auto simp: pve_log_def pve_entry_request)
  show "\<exists>e. InsertPVEReportData s req now db = Inl e" if "\<not> pve_known db s"
    using that ok refs_in_absent [of pver_ServerID sr_ID "pd_reports db" "pd_servers db" s "\<lambda>r. pver_token r = prq_ReportID req"]
    by (auto simp: InsertPVEReportData_def insertPVEReportWithSwap_def pve_known_def pve_ok_def pve_refs_ok_def)
  have "length (pve_log db) = length (filter (\<lambda>v. pv_ReportedAt v < sql_now cutoff) (pve_views db)) +
      length (log_prune cutoff (pve_log db))"
    using prune_pve_count [of "sql_now cutoff" "pve_views db"]
    by (simp add: pve_log_def log_prune_def filter_map comp_def pve_entry_def)
  moreover have "pve_log (snd (DeleteOldPVEReports cutoff db)) = log_prune cutoff (pve_log db)"
    using prune_views [OF ok, of cutoff] by (simp add: pve_log_def log_prune_def filter_map comp_def pve_entry_def)
  ultimately show "pve_ok (snd (DeleteOldPVEReports cutoff db)) \<and>
      pve_known (snd (DeleteOldPVEReports cutoff db)) = pve_known db \<and>
      pve_log (snd (DeleteOldPVEReports cutoff db)) = log_prune cutoff (pve_log db) \<and>
      fst (DeleteOldPVEReports cutoff db) = int (length (pve_log db)) - int (length (log_prune cutoff (pve_log db)))"
    using prune_views [OF ok, of cutoff] by (simp add: pve_known_def [abs_def] DeleteOld_tables(1) without_pve_reports_def)
qed

section \<open>The latest report\<close>

lemma newest_pve_report:
  assumes "at_rows (pd_reports db) = rs @ [r]" "\<And>x. x \<in> set rs \<Longrightarrow> pver_ServerID x = pver_ServerID r \<Longrightarrow> pver_ReportedAt x \<le> pver_ReportedAt r"
  shows "GetLatestPVEReport (pver_ServerID r) db = Inr (scan_pve_report r)"
proof -
  let ?rows = "at_select (\<lambda>x. pver_ServerID x = pver_ServerID r) (pd_reports db)"
  have rows: "?rows = filter (\<lambda>x. pver_ServerID x = pver_ServerID r) rs @ [r]" by (simp add: at_select_def assms(1))
  have "hd (pve_reports_of (pver_ServerID r) db) = r" unfolding pve_reports_of_def
    using newest_first_latest [of ?rows pver_ReportedAt] assms(2) by (auto simp: rows)
  moreover have "pve_reports_of (pver_ServerID r) db \<noteq> []"
    by (metis empty_set in_set_conv_decomp pve_reports_of_def rows set_newest_first emptyE)
  ultimately show ?thesis by (cases "pve_reports_of (pver_ServerID r) db") (simp_all add: GetLatestPVEReport_def)
qed

end
