(* ===== verification/Pbs_Store.thy ===== *)
theory Pbs_Store
  imports Server_Store Report_Payload Report_Log Domain_Model
begin

text \<open>
  The stored PBS reports of \<open>internal/store/pbs.go\<close>: a report has datastores and maintenance tasks, a
  datastore has its usage history, at most one garbage collection status and its backup groups. The
  tables refine the log of \<open>Report_Log\<close>: \<open>pbs_log\<close> reads it from the tables, each entry with the
  \<open>pbs_information\<close> the client sent.
\<close>

section \<open>Tables\<close>

record pbs_report_row = pbs_report +
  pbsr_token :: string

record pbs_store_history =
  pbsh_ID :: int
  pbsh_StoreID :: int
  pbsh_Position :: int
  pbsh_Value :: "rat option"

record pbs_gc_status =
  pbsg_ID :: int
  pbsg_StoreID :: int
  pbsg_DiskBytes :: int
  pbsg_DiskChunks :: int
  pbsg_IndexDataBytes :: int
  pbsg_IndexFileCount :: int
  pbsg_PendingBytes :: int
  pbsg_PendingChunks :: int
  pbsg_RemovedBad :: int
  pbsg_RemovedBytes :: int
  pbsg_RemovedChunks :: int
  pbsg_StillBad :: int
  pbsg_UPID :: string

record pbs_db =
  bd_servers :: plain_server_table
  bd_reports :: "pbs_report_row auto_table"
  bd_stores :: "pbs_store auto_table"
  bd_history :: "pbs_store_history auto_table"
  bd_gcs :: "pbs_gc_status auto_table"
  bd_snapshots :: "pbs_snapshot auto_table"
  bd_tasks :: "pbs_task auto_table"

definition empty_pbs_db :: pbs_db where
  "empty_pbs_db = \<lparr>bd_servers = at_empty, bd_reports = at_empty, bd_stores = at_empty,
     bd_history = at_empty, bd_gcs = at_empty, bd_snapshots = at_empty, bd_tasks = at_empty\<rparr>"

section \<open>Storing a report\<close>

definition new_pbs_report :: "int \<Rightarrow> host_swap \<Rightarrow> string \<Rightarrow> time \<Rightarrow> int \<Rightarrow> pbs_report_row" where
  "new_pbs_report serverID swap token now i =
     \<lparr>pbsr_ID = i, pbsr_ServerID = serverID, pbsr_ReportedAt = sql_now now, pbsr_IsStale = False,
      pbsr_StaleReason = [], pbsr_SwapTotal = swap_Total swap, pbsr_SwapUsed = swap_Used swap,
      pbsr_SwapEnabled = swap_Enabled swap, pbsr_token = token\<rparr>"

definition insertPBSReportWithSwap ::
  "int \<Rightarrow> host_swap \<Rightarrow> string \<Rightarrow> time \<Rightarrow> pbs_db \<Rightarrow> sql_error + int \<times> pbs_db" where
  "insertPBSReportWithSwap serverID swap token now db =
     (if \<not> at_has (\<lambda>s. sr_ID s = serverID) (bd_servers db) then Inl (NoParent ''pbs_servers'')
      else if token \<noteq> [] \<and> at_has (\<lambda>r. pbsr_ServerID r = serverID \<and> pbsr_token r = token) (bd_reports db)
        then Inl (NotUnique ''pbs_reports'')
      else case at_insert (new_pbs_report serverID swap token now) (bd_reports db) of
        (i, t) \<Rightarrow> Inr (i, db\<lparr>bd_reports := t\<rparr>))"

definition InsertPBSReportWithSwap :: "int \<Rightarrow> host_swap \<Rightarrow> time \<Rightarrow> pbs_db \<Rightarrow> sql_error + int \<times> pbs_db" where
  "InsertPBSReportWithSwap serverID swap now db = insertPBSReportWithSwap serverID swap [] now db"

definition InsertPBSReport :: "int \<Rightarrow> time \<Rightarrow> pbs_db \<Rightarrow> sql_error + int \<times> pbs_db" where
  "InsertPBSReport serverID now db =
     InsertPBSReportWithSwap serverID \<lparr>swap_Total = 0, swap_Used = 0, swap_Enabled = False\<rparr> now db"

definition new_pbs_store :: "int \<Rightarrow> pbs_datastore_payload \<Rightarrow> int \<Rightarrow> pbs_store" where
  "new_pbs_store reportID ds i =
     \<lparr>pbsd_ID = i, pbsd_ReportID = reportID, pbsd_Store = pdp_Store ds, pbsd_Total = pdp_Total ds,
      pbsd_Used = pdp_Used ds, pbsd_Avail = pdp_Avail ds, pbsd_EstimatedFullDate = pdp_EstimatedFullDate ds,
      pbsd_MountStatus = pdp_MountStatus ds, pbsd_HistoryStart = pdp_HistoryStart ds,
      pbsd_HistoryDelta = pdp_HistoryDelta ds\<rparr>"

definition insertPBSStore :: "int \<Rightarrow> pbs_datastore_payload \<Rightarrow> pbs_db \<Rightarrow> sql_error + int \<times> pbs_db" where
  "insertPBSStore reportID ds db =
     (if \<not> at_has (\<lambda>r. pbsr_ID r = reportID) (bd_reports db) then Inl (NoParent ''pbs_reports'')
      else case at_insert (new_pbs_store reportID ds) (bd_stores db) of
        (i, t) \<Rightarrow> Inr (i, db\<lparr>bd_stores := t\<rparr>))"

definition new_pbs_history :: "int \<Rightarrow> nat \<times> rat option \<Rightarrow> int \<Rightarrow> pbs_store_history" where
  "new_pbs_history storeID p i =
     \<lparr>pbsh_ID = i, pbsh_StoreID = storeID, pbsh_Position = int (fst p), pbsh_Value = snd p\<rparr>"

definition insert_history_point :: "int \<Rightarrow> nat \<times> rat option \<Rightarrow> pbs_db \<Rightarrow> sql_error + pbs_db" where
  "insert_history_point storeID p db =
     (if \<not> at_has (\<lambda>s. pbsd_ID s = storeID) (bd_stores db) then Inl (NoParent ''pbs_stores'')
      else Inr (db\<lparr>bd_history := snd (at_insert (new_pbs_history storeID p) (bd_history db))\<rparr>))"

definition insertPBSStoreHistory :: "int \<Rightarrow> rat option list \<Rightarrow> pbs_db \<Rightarrow> sql_error + pbs_db" where
  "insertPBSStoreHistory storeID history db =
     (if history = [] then Inr db else each_err (insert_history_point storeID) (enumerate 0 history) db)"

definition new_pbs_snapshot :: "int \<Rightarrow> pbs_group_payload \<Rightarrow> int \<Rightarrow> pbs_snapshot" where
  "new_pbs_snapshot storeID g i =
     \<lparr>pbsn_ID = i, pbsn_StoreID = storeID, pbsn_BackupType = pgp_BackupType g, pbsn_BackupID = pgp_BackupID g,
      pbsn_LastBackup = pgp_LastBackup g, pbsn_BackupCount = pgp_BackupCount g, pbsn_Owner = pgp_Owner g,
      pbsn_Comment = pgp_Comment g, pbsn_VerificationState = pgp_VerificationState g, pbsn_Size = pgp_Size g\<rparr>"

definition insertPBSSnapshot :: "int \<Rightarrow> pbs_group_payload \<Rightarrow> pbs_db \<Rightarrow> sql_error + pbs_db" where
  "insertPBSSnapshot storeID g db =
     (if \<not> at_has (\<lambda>s. pbsd_ID s = storeID) (bd_stores db) then Inl (NoParent ''pbs_stores'')
      else Inr (db\<lparr>bd_snapshots := snd (at_insert (new_pbs_snapshot storeID g) (bd_snapshots db))\<rparr>))"

definition new_pbs_gc :: "int \<Rightarrow> gc_status_payload \<Rightarrow> int \<Rightarrow> pbs_gc_status" where
  "new_pbs_gc storeID gc i =
     \<lparr>pbsg_ID = i, pbsg_StoreID = storeID, pbsg_DiskBytes = gcp_DiskBytes gc, pbsg_DiskChunks = gcp_DiskChunks gc,
      pbsg_IndexDataBytes = gcp_IndexDataBytes gc, pbsg_IndexFileCount = gcp_IndexFileCount gc,
      pbsg_PendingBytes = gcp_PendingBytes gc, pbsg_PendingChunks = gcp_PendingChunks gc,
      pbsg_RemovedBad = gcp_RemovedBad gc, pbsg_RemovedBytes = gcp_RemovedBytes gc,
      pbsg_RemovedChunks = gcp_RemovedChunks gc, pbsg_StillBad = gcp_StillBad gc, pbsg_UPID = gcp_UPID gc\<rparr>"

definition insertPBSGCStatus :: "int \<Rightarrow> gc_status_payload option \<Rightarrow> pbs_db \<Rightarrow> sql_error + pbs_db" where
  "insertPBSGCStatus storeID gc db =
     (case gc of None \<Rightarrow> Inr db
      | Some gc \<Rightarrow>
          if \<not> at_has (\<lambda>s. pbsd_ID s = storeID) (bd_stores db) then Inl (NoParent ''pbs_stores'')
          else Inr (db\<lparr>bd_gcs := snd (at_insert (new_pbs_gc storeID gc) (bd_gcs db))\<rparr>))"

definition new_pbs_task :: "int \<Rightarrow> pbs_task_payload \<Rightarrow> int \<Rightarrow> pbs_task" where
  "new_pbs_task reportID t i =
     \<lparr>pbst_ID = i, pbst_ReportID = reportID, pbst_TaskType = ptp_TaskType t, pbst_JobID = ptp_JobID t,
      pbst_Remote = ptp_Remote t, pbst_RemoteStore = ptp_RemoteStore t, pbst_Store = ptp_Store t,
      pbst_Status = ptp_Status t, pbst_StartTime = ptp_StartTime t, pbst_EndTime = ptp_EndTime t,
      pbst_UPID = ptp_UPID t\<rparr>"

definition insertPBSTask :: "int \<Rightarrow> pbs_task_payload \<Rightarrow> pbs_db \<Rightarrow> sql_error + pbs_db" where
  "insertPBSTask reportID t db =
     (if \<not> at_has (\<lambda>r. pbsr_ID r = reportID) (bd_reports db) then Inl (NoParent ''pbs_reports'')
      else Inr (db\<lparr>bd_tasks := snd (at_insert (new_pbs_task reportID t) (bd_tasks db))\<rparr>))"

definition insert_store_data :: "int \<Rightarrow> pbs_datastore_payload \<Rightarrow> pbs_db \<Rightarrow> sql_error + pbs_db" where
  "insert_store_data reportID ds db =
     bind_err (insertPBSStore reportID ds db) (\<lambda>(storeID, db).
     bind_err (insertPBSStoreHistory storeID (pdp_History ds) db) (\<lambda>db.
     bind_err (insertPBSGCStatus storeID (pdp_GCStatus ds) db) (\<lambda>db.
     each_err (insertPBSSnapshot storeID) (pdp_Groups ds) db)))"

definition InsertPBSReportData ::
  "int \<Rightarrow> string \<Rightarrow> host_swap \<Rightarrow> pbs_information \<Rightarrow> time \<Rightarrow> pbs_db \<Rightarrow> sql_error + pbs_db" where
  "InsertPBSReportData serverID reportToken swap info now db =
     (if reportToken \<noteq> [] \<and>
         at_has (\<lambda>r. pbsr_ServerID r = serverID \<and> pbsr_token r = reportToken) (bd_reports db)
      then Inr db
      else
        bind_err (insertPBSReportWithSwap serverID swap reportToken now db) (\<lambda>(reportID, db).
        bind_err (each_err (insert_store_data reportID) (pbi_Data info) db) (\<lambda>db.
        each_err (insertPBSTask reportID) (pbi_Tasks info) db)))"

section \<open>Queries\<close>

abbreviation scan_pbs_report :: "pbs_report_row \<Rightarrow> pbs_report" where "scan_pbs_report \<equiv> pbs_report.truncate"

definition GetPBSSnapshotsForStore :: "int \<Rightarrow> pbs_db \<Rightarrow> pbs_snapshot list" where
  "GetPBSSnapshotsForStore storeID db = sort_key pbsn_BackupType (sort_key pbsn_BackupID
     (at_select (\<lambda>n. pbsn_StoreID n = storeID) (bd_snapshots db)))"

definition GetPBSSnapshotsForStores :: "int list \<Rightarrow> pbs_db \<Rightarrow> (int \<times> pbs_snapshot list) list" where
  "GetPBSSnapshotsForStores storeIDs db = group_rows pbsn_StoreID
     (sort_key pbsn_StoreID (sort_key pbsn_BackupType (sort_key pbsn_BackupID
       (at_select (\<lambda>n. pbsn_StoreID n \<in> set storeIDs) (bd_snapshots db)))))"

definition GetPBSTasksForReport :: "int \<Rightarrow> pbs_db \<Rightarrow> pbs_task list" where
  "GetPBSTasksForReport reportID db =
     sort_key pbst_TaskType (sort_key pbst_JobID (sort_key pbst_Remote (sort_key pbst_Store
       (at_select (\<lambda>t. pbst_ReportID t = reportID) (bd_tasks db)))))"

definition GetPBSTasksForReports :: "int list \<Rightarrow> pbs_db \<Rightarrow> (int \<times> pbs_task list) list" where
  "GetPBSTasksForReports reportIDs db = group_rows pbst_ReportID
     (sort_key pbst_ReportID (sort_key pbst_TaskType (sort_key pbst_JobID
       (at_select (\<lambda>t. pbst_ReportID t \<in> set reportIDs) (bd_tasks db)))))"

definition pbs_reports_of :: "int \<Rightarrow> pbs_db \<Rightarrow> pbs_report_row list" where
  "pbs_reports_of serverID db =
     newest_first pbsr_ReportedAt (at_select (\<lambda>r. pbsr_ServerID r = serverID) (bd_reports db))"

definition GetLatestPBSReport :: "int \<Rightarrow> pbs_db \<Rightarrow> sql_error + pbs_report" where
  "GetLatestPBSReport serverID db =
     (case pbs_reports_of serverID db of [] \<Rightarrow> Inl NoRows | r # _ \<Rightarrow> Inr (scan_pbs_report r))"

definition GetLatestPBSReports :: "pbs_db \<Rightarrow> (int \<times> pbs_report) list" where
  "GetLatestPBSReports db = index_rows pbsr_ServerID (map scan_pbs_report
     (at_select (\<lambda>r. map_option pbsr_ID (case pbs_reports_of (pbsr_ServerID r) db of [] \<Rightarrow> None | l # _ \<Rightarrow> Some l) =
        Some (pbsr_ID r)) (bd_reports db)))"

definition ListPBSReports :: "int \<Rightarrow> int \<Rightarrow> pbs_db \<Rightarrow> pbs_report list" where
  "ListPBSReports serverID limit db = map scan_pbs_report (sql_page limit 0 (pbs_reports_of serverID db))"

definition ListPBSReportsPage :: "int \<Rightarrow> int \<Rightarrow> int \<Rightarrow> pbs_db \<Rightarrow> pbs_report list" where
  "ListPBSReportsPage serverID limit offset db = map scan_pbs_report (sql_page limit offset (pbs_reports_of serverID db))"

definition CountPBSReports :: "int \<Rightarrow> pbs_db \<Rightarrow> int" where
  "CountPBSReports serverID db = int (length (at_select (\<lambda>r. pbsr_ServerID r = serverID) (bd_reports db)))"

definition GetPBSStoresForReport :: "int \<Rightarrow> pbs_db \<Rightarrow> pbs_store list" where
  "GetPBSStoresForReport reportID db = at_select (\<lambda>s. pbsd_ReportID s = reportID) (bd_stores db)"

definition GetPBSStoresForReports :: "int list \<Rightarrow> pbs_db \<Rightarrow> (int \<times> pbs_store list) list" where
  "GetPBSStoresForReports reportIDs db = group_rows pbsd_ReportID
     (sort_key pbsd_ReportID (sort_key pbsd_Store (at_select (\<lambda>s. pbsd_ReportID s \<in> set reportIDs) (bd_stores db))))"

definition GetPBSGCStatus :: "int \<Rightarrow> pbs_db \<Rightarrow> pbs_gc_status option" where
  "GetPBSGCStatus storeID db = at_first (\<lambda>g. pbsg_StoreID g = storeID) (bd_gcs db)"

definition GetPBSGCStatusForStores :: "int list \<Rightarrow> pbs_db \<Rightarrow> (int \<times> pbs_gc_status) list" where
  "GetPBSGCStatusForStores storeIDs db =
     index_rows pbsg_StoreID (at_select (\<lambda>g. pbsg_StoreID g \<in> set storeIDs) (bd_gcs db))"

definition GetPBSHistory :: "int \<Rightarrow> pbs_db \<Rightarrow> rat option list" where
  "GetPBSHistory storeID db =
     map pbsh_Value (sort_key pbsh_Position (at_select (\<lambda>h. pbsh_StoreID h = storeID) (bd_history db)))"

definition GetPBSHistoryForStores :: "int list \<Rightarrow> pbs_db \<Rightarrow> (int \<times> rat option list) list" where
  "GetPBSHistoryForStores storeIDs db =
     map (\<lambda>(k, hs). (k, map pbsh_Value hs)) (group_rows pbsh_StoreID
       (sort_key pbsh_StoreID (sort_key pbsh_Position
         (at_select (\<lambda>h. pbsh_StoreID h \<in> set storeIDs) (bd_history db)))))"

text \<open>The six deletions of one transaction, in the order of the source.\<close>

definition pbs_report_in :: "(pbs_report_row \<Rightarrow> bool) \<Rightarrow> pbs_db \<Rightarrow> int \<Rightarrow> bool" where
  "pbs_report_in P db i \<longleftrightarrow> at_has (\<lambda>r. pbsr_ID r = i \<and> P r) (bd_reports db)"

definition pbs_store_in :: "(pbs_report_row \<Rightarrow> bool) \<Rightarrow> pbs_db \<Rightarrow> int \<Rightarrow> bool" where
  "pbs_store_in P db i \<longleftrightarrow>
     at_has (\<lambda>s. pbsd_ID s = i \<and> pbs_report_in P db (pbsd_ReportID s)) (bd_stores db)"

definition DeleteOldPBSReports :: "time \<Rightarrow> pbs_db \<Rightarrow> int \<times> pbs_db" where
  "DeleteOldPBSReports cutoff db0 =
     (let old = (\<lambda>r. pbsr_ReportedAt r < sql_now cutoff);
          db1 = db0\<lparr>bd_tasks := at_delete (\<lambda>t. pbs_report_in old db0 (pbst_ReportID t)) (bd_tasks db0)\<rparr>;
          db2 = db1\<lparr>bd_history := at_delete (\<lambda>h. pbs_store_in old db1 (pbsh_StoreID h)) (bd_history db1)\<rparr>;
          db3 = db2\<lparr>bd_gcs := at_delete (\<lambda>g. pbs_store_in old db2 (pbsg_StoreID g)) (bd_gcs db2)\<rparr>;
          db4 = db3\<lparr>bd_snapshots := at_delete (\<lambda>n. pbs_store_in old db3 (pbsn_StoreID n)) (bd_snapshots db3)\<rparr>;
          db5 = db4\<lparr>bd_stores := at_delete (\<lambda>s. pbs_report_in old db4 (pbsd_ReportID s)) (bd_stores db4)\<rparr>
      in (int (length (at_select old (bd_reports db5))), db5\<lparr>bd_reports := at_delete old (bd_reports db5)\<rparr>))"

section \<open>The log the tables hold\<close>

definition pbs_gc_view :: "pbs_gc_status \<Rightarrow> gc_status_payload" where
  "pbs_gc_view g = \<lparr>gcp_DiskBytes = pbsg_DiskBytes g, gcp_DiskChunks = pbsg_DiskChunks g,
     gcp_IndexDataBytes = pbsg_IndexDataBytes g, gcp_IndexFileCount = pbsg_IndexFileCount g,
     gcp_PendingBytes = pbsg_PendingBytes g, gcp_PendingChunks = pbsg_PendingChunks g,
     gcp_RemovedBad = pbsg_RemovedBad g, gcp_RemovedBytes = pbsg_RemovedBytes g,
     gcp_RemovedChunks = pbsg_RemovedChunks g, gcp_StillBad = pbsg_StillBad g, gcp_UPID = pbsg_UPID g\<rparr>"

definition pbs_group_view :: "pbs_snapshot \<Rightarrow> pbs_group_payload" where
  "pbs_group_view n = \<lparr>pgp_BackupType = pbsn_BackupType n, pgp_BackupID = pbsn_BackupID n,
     pgp_LastBackup = pbsn_LastBackup n, pgp_BackupCount = pbsn_BackupCount n, pgp_Owner = pbsn_Owner n,
     pgp_Comment = pbsn_Comment n, pgp_VerificationState = pbsn_VerificationState n, pgp_Size = pbsn_Size n\<rparr>"

definition pbs_task_view :: "pbs_task \<Rightarrow> pbs_task_payload" where
  "pbs_task_view t = \<lparr>ptp_TaskType = pbst_TaskType t, ptp_JobID = pbst_JobID t, ptp_Remote = pbst_Remote t,
     ptp_RemoteStore = pbst_RemoteStore t, ptp_Store = pbst_Store t, ptp_Status = pbst_Status t,
     ptp_StartTime = pbst_StartTime t, ptp_EndTime = pbst_EndTime t, ptp_UPID = pbst_UPID t\<rparr>"

definition pbs_store_view :: "pbs_db \<Rightarrow> pbs_store \<Rightarrow> pbs_datastore_payload" where
  "pbs_store_view db s =
     \<lparr>pdp_Store = pbsd_Store s, pdp_Total = pbsd_Total s, pdp_Used = pbsd_Used s, pdp_Avail = pbsd_Avail s,
      pdp_EstimatedFullDate = pbsd_EstimatedFullDate s, pdp_MountStatus = pbsd_MountStatus s,
      pdp_HistoryStart = pbsd_HistoryStart s, pdp_HistoryDelta = pbsd_HistoryDelta s,
      pdp_History = GetPBSHistory (pbsd_ID s) db,
      pdp_GCStatus = map_option pbs_gc_view (GetPBSGCStatus (pbsd_ID s) db),
      pdp_Groups = map pbs_group_view (at_select (\<lambda>n. pbsn_StoreID n = pbsd_ID s) (bd_snapshots db))\<rparr>"

definition pbs_stores_view :: "pbs_db \<Rightarrow> int \<Rightarrow> pbs_datastore_payload list" where
  "pbs_stores_view db reportID = map (pbs_store_view db) (GetPBSStoresForReport reportID db)"

definition pbs_tasks_view :: "pbs_db \<Rightarrow> int \<Rightarrow> pbs_task_payload list" where
  "pbs_tasks_view db reportID = map pbs_task_view (at_select (\<lambda>t. pbst_ReportID t = reportID) (bd_tasks db))"

definition pbs_entry :: "pbs_db \<Rightarrow> pbs_report_row \<Rightarrow> (host_swap \<times> pbs_information) log_entry" where
  "pbs_entry db r =
     \<lparr>le_server = pbsr_ServerID r, le_token = pbsr_token r, le_at = pbsr_ReportedAt r,
      le_content = (\<lparr>swap_Total = pbsr_SwapTotal r, swap_Used = pbsr_SwapUsed r, swap_Enabled = pbsr_SwapEnabled r\<rparr>,
        \<lparr>pbi_Data = pbs_stores_view db (pbsr_ID r), pbi_Tasks = pbs_tasks_view db (pbsr_ID r)\<rparr>)\<rparr>"

definition pbs_log :: "pbs_db \<Rightarrow> (host_swap \<times> pbs_information) log_entry list" where
  "pbs_log db = map (pbs_entry db) (at_rows (bd_reports db))"

section \<open>The invariant of the tables\<close>

definition pbs_ids_ok :: "pbs_db \<Rightarrow> bool" where
  "pbs_ids_ok db \<longleftrightarrow> at_ok sr_ID (bd_servers db) \<and> at_ok pbsr_ID (bd_reports db) \<and> at_ok pbsd_ID (bd_stores db) \<and>
     at_ok pbsh_ID (bd_history db) \<and> at_ok pbsg_ID (bd_gcs db) \<and> at_ok pbsn_ID (bd_snapshots db) \<and> at_ok pbst_ID (bd_tasks db)"

definition pbs_refs_ok :: "pbs_db \<Rightarrow> bool" where
  "pbs_refs_ok db \<longleftrightarrow> refs_in pbsr_ServerID sr_ID (bd_reports db) (bd_servers db) \<and>
     refs_in pbsd_ReportID pbsr_ID (bd_stores db) (bd_reports db) \<and>
     refs_in pbsh_StoreID pbsd_ID (bd_history db) (bd_stores db) \<and>
     refs_in pbsg_StoreID pbsd_ID (bd_gcs db) (bd_stores db) \<and>
     refs_in pbsn_StoreID pbsd_ID (bd_snapshots db) (bd_stores db) \<and>
     refs_in pbst_ReportID pbsr_ID (bd_tasks db) (bd_reports db)"

definition pbs_ok :: "pbs_db \<Rightarrow> bool" where
  "pbs_ok db \<longleftrightarrow> pbs_ids_ok db \<and> pbs_refs_ok db \<and> tokens_once pbsr_ServerID pbsr_token (bd_reports db)"

lemma new_pbs_rows [simp]:
  "pbsr_ID (new_pbs_report s w k now i) = i" "pbsr_ServerID (new_pbs_report s w k now i) = s"
  "pbsr_token (new_pbs_report s w k now i) = k"
  "pbsd_ID (new_pbs_store r ds i) = i" "pbsd_ReportID (new_pbs_store r ds i) = r"
  "pbsh_ID (new_pbs_history d p i) = i" "pbsh_StoreID (new_pbs_history d p i) = d"
  "pbsh_Position (new_pbs_history d p i) = int (fst p)" "pbsh_Value (new_pbs_history d p i) = snd p"
  "pbsg_ID (new_pbs_gc d g i) = i" "pbsg_StoreID (new_pbs_gc d g i) = d"
  "pbsn_ID (new_pbs_snapshot d n i) = i" "pbsn_StoreID (new_pbs_snapshot d n i) = d"
  "pbst_ID (new_pbs_task r t i) = i" "pbst_ReportID (new_pbs_task r t i) = r"
  "pbs_gc_view (new_pbs_gc d g i) = g" "pbs_group_view (new_pbs_snapshot d n i) = n"
  "pbs_task_view (new_pbs_task r t i) = t"
  by (simp_all add: new_pbs_report_def new_pbs_store_def new_pbs_history_def new_pbs_gc_def new_pbs_snapshot_def
      new_pbs_task_def pbs_gc_view_def pbs_group_view_def pbs_task_view_def)

section \<open>The loops of the transaction\<close>

lemma insert_history_points:
  "at_has (\<lambda>s. pbsd_ID s = d) (bd_stores db) \<Longrightarrow>
   each_err (insert_history_point d) ps db = Inr (db\<lparr>bd_history := at_insert_all (new_pbs_history d) ps (bd_history db)\<rparr>)"
  by (induction ps arbitrary: db) (simp_all add: insert_history_point_def)

lemma insert_history:
  "at_has (\<lambda>s. pbsd_ID s = d) (bd_stores db) \<Longrightarrow> insertPBSStoreHistory d hs db =
     Inr (db\<lparr>bd_history := at_insert_all (new_pbs_history d) (enumerate 0 hs) (bd_history db)\<rparr>)"
  by (simp add: insertPBSStoreHistory_def insert_history_points)

lemma insert_gc:
  "at_has (\<lambda>s. pbsd_ID s = d) (bd_stores db) \<Longrightarrow> insertPBSGCStatus d gc db =
     Inr (db\<lparr>bd_gcs := at_insert_all (new_pbs_gc d) (case gc of None \<Rightarrow> [] | Some g \<Rightarrow> [g]) (bd_gcs db)\<rparr>)"
  by (simp add: insertPBSGCStatus_def split: option.split)

lemma insert_groups:
  "at_has (\<lambda>s. pbsd_ID s = d) (bd_stores db) \<Longrightarrow> each_err (insertPBSSnapshot d) gs db =
     Inr (db\<lparr>bd_snapshots := at_insert_all (new_pbs_snapshot d) gs (bd_snapshots db)\<rparr>)"
  by (induction gs arbitrary: db) (simp_all add: insertPBSSnapshot_def)

lemma insert_pbs_tasks:
  "at_has (\<lambda>r. pbsr_ID r = rid) (bd_reports db) \<Longrightarrow> each_err (insertPBSTask rid) ts db =
     Inr (db\<lparr>bd_tasks := at_insert_all (new_pbs_task rid) ts (bd_tasks db)\<rparr>)"
  by (induction ts arbitrary: db) (simp_all add: insertPBSTask_def)

definition with_store :: "int \<Rightarrow> pbs_datastore_payload \<Rightarrow> pbs_db \<Rightarrow> pbs_db" where
  "with_store rid ds db =
     (let d = at_seq (bd_stores db) + 1
      in db\<lparr>bd_stores := snd (at_insert (new_pbs_store rid ds) (bd_stores db)),
            bd_history := at_insert_all (new_pbs_history d) (enumerate 0 (pdp_History ds)) (bd_history db),
            bd_gcs := at_insert_all (new_pbs_gc d) (case pdp_GCStatus ds of None \<Rightarrow> [] | Some g \<Rightarrow> [g]) (bd_gcs db),
            bd_snapshots := at_insert_all (new_pbs_snapshot d) (pdp_Groups ds) (bd_snapshots db)\<rparr>)"

lemma new_store_there:
  "at_has (\<lambda>s. pbsd_ID s = at_seq t + 1) (snd (at_insert (new_pbs_store rid ds) t))"
  by (simp add: at_has_iff at_rows_simps)

lemma insert_store_step:
  "at_has (\<lambda>r. pbsr_ID r = rid) (bd_reports db) \<Longrightarrow> insert_store_data rid ds db = Inr (with_store rid ds db)"
  by (simp add: insert_store_data_def insertPBSStore_def case_prod_unfold at_rows_simps new_store_there insert_history
      insert_gc insert_groups with_store_def Let_def)

lemma with_store_ok:
  assumes "pbs_ids_ok db" "pbs_refs_ok db" "at_has (\<lambda>r. pbsr_ID r = rid) (bd_reports db)"
  shows "pbs_ids_ok (with_store rid ds db) \<and> pbs_refs_ok (with_store rid ds db)"
  using assms new_store_there [of "bd_stores db" rid ds]
  by (auto simp: pbs_ids_ok_def pbs_refs_ok_def with_store_def Let_def
      intro!: at_ok_insert at_ok_insert_all refs_in_child_insert refs_in_child_insert_all
      intro: refs_in_parent_insert)

lemma history_in_order:
  "sort_key pbsh_Position (numbered (new_pbs_history d) n (enumerate m hs)) = numbered (new_pbs_history d) n (enumerate m hs)"
proof -
  have "map pbsh_Position (numbered (new_pbs_history d) n (enumerate m hs)) = map (int \<circ> fst) (enumerate m hs)"
    by (simp add: numbered_map)
  also have "\<dots> = map int [m..<m + length hs]" by (simp flip: map_map)
  finally show ?thesis by (intro sort_key_id_if_sorted) (simp add: sorted_map)
qed

lemma with_store_view:
  assumes "pbs_ids_ok db" "pbs_refs_ok db"
  shows "pbs_stores_view (with_store rid ds db) j = pbs_stores_view db j @ (if j = rid then [ds] else [])"
proof -
  let ?d = "at_seq (bd_stores db) + 1" and ?db = "with_store rid ds db"
  have ids: "at_ok pbsd_ID (bd_stores db)" using assms(1) by (simp add: pbs_ids_ok_def)
  have refs: "refs_in pbsh_StoreID pbsd_ID (bd_history db) (bd_stores db)"
    "refs_in pbsg_StoreID pbsd_ID (bd_gcs db) (bd_stores db)"
    "refs_in pbsn_StoreID pbsd_ID (bd_snapshots db) (bd_stores db)"
    using assms(2) by (simp_all add: pbs_refs_ok_def)
  have history: "at_select (\<lambda>h. pbsh_StoreID h = k) (bd_history ?db) =
      (if k = ?d then numbered (new_pbs_history ?d) (at_seq (bd_history db)) (enumerate 0 (pdp_History ds))
       else at_select (\<lambda>h. pbsh_StoreID h = k) (bd_history db))" for k
    using fresh_children [OF refs(1) ids, of "new_pbs_history ?d"] by (simp add: at_select_def with_store_def Let_def)
  have gcs: "at_select (\<lambda>g. pbsg_StoreID g = k) (bd_gcs ?db) =
      (if k = ?d then numbered (new_pbs_gc ?d) (at_seq (bd_gcs db)) (case pdp_GCStatus ds of None \<Rightarrow> [] | Some g \<Rightarrow> [g])
       else at_select (\<lambda>g. pbsg_StoreID g = k) (bd_gcs db))" for k
    using fresh_children [OF refs(2) ids, of "new_pbs_gc ?d"] by (simp add: at_select_def with_store_def Let_def)
  have groups: "at_select (\<lambda>n. pbsn_StoreID n = k) (bd_snapshots ?db) =
      (if k = ?d then numbered (new_pbs_snapshot ?d) (at_seq (bd_snapshots db)) (pdp_Groups ds)
       else at_select (\<lambda>n. pbsn_StoreID n = k) (bd_snapshots db))" for k
    using fresh_children [OF refs(3) ids, of "new_pbs_snapshot ?d"] by (simp add: at_select_def with_store_def Let_def)
  have same: "pbs_store_view ?db s = pbs_store_view db s" if "s \<in> set (at_rows (bd_stores db))" for s
    using at_ok_fresh [OF ids that] by (simp add: pbs_store_view_def GetPBSHistory_def GetPBSGCStatus_def at_first_select history gcs groups)
  have "map snd (enumerate 0 (pdp_History ds)) = pdp_History ds" by simp
  then have new: "pbs_store_view ?db (new_pbs_store rid ds ?d) = ds"
    by (simp add: pbs_store_view_def GetPBSHistory_def GetPBSGCStatus_def at_first_select history gcs groups
        history_in_order numbered_map [where g = "\<lambda>x. x"] numbered_map [where g = snd] split: option.split)
      (simp add: new_pbs_store_def)
  have "at_rows (bd_stores ?db) = at_rows (bd_stores db) @ [new_pbs_store rid ds ?d]"
    by (simp add: with_store_def Let_def at_rows_simps)
  then show ?thesis using same new by (auto simp: pbs_stores_view_def GetPBSStoresForReport_def at_select_def)
qed

lemma insert_stores:
  assumes "pbs_ids_ok db" "pbs_refs_ok db" "at_has (\<lambda>r. pbsr_ID r = rid) (bd_reports db)"
  shows "\<exists>db'. each_err (insert_store_data rid) dss db = Inr db' \<and> pbs_ids_ok db' \<and> pbs_refs_ok db' \<and>
    bd_servers db' = bd_servers db \<and> bd_reports db' = bd_reports db \<and> bd_tasks db' = bd_tasks db \<and>
    (\<forall>j. pbs_stores_view db' j = pbs_stores_view db j @ (if j = rid then dss else []))"
  using assms
proof (induction dss arbitrary: db)
  case (Cons ds dss)
  let ?db = "with_store rid ds db"
  have keep: "bd_servers ?db = bd_servers db" "bd_reports ?db = bd_reports db" "bd_tasks ?db = bd_tasks db"
    by (simp_all add: with_store_def Let_def)
  have ok: "pbs_ids_ok ?db" "pbs_refs_ok ?db" using with_store_ok [OF Cons.prems] by blast+
  from Cons.IH [OF this] Cons.prems(3) obtain db' where
    "each_err (insert_store_data rid) dss ?db = Inr db'" "pbs_ids_ok db'" "pbs_refs_ok db'"
    "bd_servers db' = bd_servers db" "bd_reports db' = bd_reports db" "bd_tasks db' = bd_tasks db"
    "\<forall>j. pbs_stores_view db' j = pbs_stores_view ?db j @ (if j = rid then dss else [])"
    unfolding keep by blast
  then show ?case
    using Cons.prems(3) by (auto simp: insert_store_step with_store_view [OF Cons.prems(1,2)])
qed simp

section \<open>The contract of a report log\<close>

lemma pbs_has_token:
  "k \<noteq> [] \<and> at_has (\<lambda>r. pbsr_ServerID r = s \<and> pbsr_token r = k) (bd_reports db) \<longleftrightarrow> has_token s k (pbs_log db)"
  by (auto simp: at_has_iff has_token_def pbs_log_def pbs_entry_def list_ex_iff)

lemma insert_new_pbs_report:
  assumes ok: "pbs_ok db" and srv: "at_has (\<lambda>s. sr_ID s = serverID) (bd_servers db)"
    and new: "\<not> (tok \<noteq> [] \<and> at_has (\<lambda>r. pbsr_ServerID r = serverID \<and> pbsr_token r = tok) (bd_reports db))"
  shows "\<exists>db'. InsertPBSReportData serverID tok swap info now db = Inr db' \<and> pbs_ok db' \<and> bd_servers db' = bd_servers db \<and>
    pbs_log db' = pbs_log db @ [\<lparr>le_server = serverID, le_token = tok, le_at = sql_now now, le_content = (swap, info)\<rparr>]"
proof -
  let ?rid = "at_seq (bd_reports db) + 1" and ?mk = "new_pbs_report serverID swap tok now"
  let ?db1 = "db\<lparr>bd_reports := snd (at_insert ?mk (bd_reports db))\<rparr>"
  have ids: "pbs_ids_ok db" and refs: "pbs_refs_ok db" and once: "tokens_once pbsr_ServerID pbsr_token (bd_reports db)"
    using ok by (simp_all add: pbs_ok_def)
  have ids1: "pbs_ids_ok ?db1" using ids by (simp add: pbs_ids_ok_def at_ok_insert)
  have refs1: "pbs_refs_ok ?db1"
    using refs srv by (auto simp: pbs_refs_ok_def intro: refs_in_parent_insert refs_in_child_insert)
  have rid: "at_has (\<lambda>r. pbsr_ID r = ?rid) (bd_reports ?db1)" by (simp add: at_has_iff at_rows_simps)
  obtain db2 where db2: "each_err (insert_store_data ?rid) (pbi_Data info) ?db1 = Inr db2"
      "pbs_ids_ok db2" "pbs_refs_ok db2" "bd_servers db2 = bd_servers db" "bd_reports db2 = bd_reports ?db1"
      "bd_tasks db2 = bd_tasks db"
    and views: "\<And>j. pbs_stores_view db2 j = pbs_stores_view ?db1 j @ (if j = ?rid then pbi_Data info else [])"
    using insert_stores [OF ids1 refs1 rid, of "pbi_Data info"] by auto
  let ?db3 = "db2\<lparr>bd_tasks := at_insert_all (new_pbs_task ?rid) (pbi_Tasks info) (bd_tasks db2)\<rparr>"
  have run: "InsertPBSReportData serverID tok swap info now db = Inr ?db3"
    using new srv rid db2(1,5)
    by (auto simp: InsertPBSReportData_def insertPBSReportWithSwap_def case_prod_unfold at_rows_simps insert_pbs_tasks)
  have ids3: "pbs_ids_ok ?db3" using db2(2) by (simp add: pbs_ids_ok_def at_ok_insert_all)
  have refs3: "pbs_refs_ok ?db3" using db2(3) rid unfolding db2(5) [symmetric]
    by (auto simp: pbs_refs_ok_def intro!: refs_in_child_insert_all)
  have "tokens_once pbsr_ServerID pbsr_token (bd_reports ?db3)"
    using once new by (auto simp: db2(5) intro!: tokens_once_insert [where s = serverID and k = tok])
  then have "pbs_ok ?db3" using ids3 refs3 by (simp add: pbs_ok_def)
  moreover have "pbs_log ?db3 = pbs_log db @ [\<lparr>le_server = serverID, le_token = tok, le_at = sql_now now, le_content = (swap, info)\<rparr>]"
  proof -
    have "pbs_stores_view db ?rid = []" using ids refs
      by (simp add: pbs_stores_view_def GetPBSStoresForReport_def at_select_def pbs_ids_ok_def pbs_refs_ok_def
          no_children_yet [where fk = pbsd_ReportID and idf = pbsr_ID])
    then have sv: "pbs_stores_view ?db3 j = (if j = ?rid then pbi_Data info else pbs_stores_view db j)" for j
      using views [of j]
      by (simp add: pbs_stores_view_def GetPBSStoresForReport_def pbs_store_view_def [abs_def] GetPBSHistory_def GetPBSGCStatus_def)
    have tv: "pbs_tasks_view ?db3 j = (if j = ?rid then pbi_Tasks info else pbs_tasks_view db j)" for j
      using fresh_children [where fk = pbst_ReportID and idf = pbsr_ID and c = "bd_tasks db" and p = "bd_reports db"
          and mk = "new_pbs_task ?rid" and xs = "pbi_Tasks info" and j = j] ids refs
      by (simp add: pbs_tasks_view_def at_select_def db2(6) pbs_ids_ok_def pbs_refs_ok_def numbered_map [where g = "\<lambda>x. x"])
    have "pbs_entry ?db3 r = pbs_entry db r" if "r \<in> set (at_rows (bd_reports db))" for r
      using at_ok_fresh [OF _ that, of pbsr_ID] ids by (auto simp: pbs_entry_def sv tv pbs_ids_ok_def)
    moreover have "pbs_entry ?db3 (?mk ?rid) =
        \<lparr>le_server = serverID, le_token = tok, le_at = sql_now now, le_content = (swap, info)\<rparr>"
      by (simp add: pbs_entry_def sv tv) (simp add: new_pbs_report_def)
    ultimately show ?thesis by (simp add: pbs_log_def db2(5) at_rows_simps)
  qed
  ultimately show ?thesis using run db2(4) by auto
qed

definition pbs_known :: "pbs_db \<Rightarrow> int \<Rightarrow> bool" where
  "pbs_known db s \<longleftrightarrow> at_has (\<lambda>v. sr_ID v = s) (bd_servers db)"

definition post_pbs :: "int \<Rightarrow> string \<times> host_swap \<times> pbs_information \<Rightarrow> time \<Rightarrow> pbs_db \<Rightarrow> sql_error + pbs_db" where
  "post_pbs s = (\<lambda>(tok, swap, info). InsertPBSReportData s tok swap info)"

lemma post_pbs_known:
  assumes "pbs_ok db" "pbs_known db s"
  shows "\<exists>db'. post_pbs s q now db = Inr db' \<and> pbs_ok db' \<and> pbs_known db' = pbs_known db \<and>
    pbs_log db' = log_post fst snd s q now (pbs_log db)"
proof (cases q)
  case (fields tok swap info)
  show ?thesis
  proof (cases "has_token s tok (pbs_log db)")
    case True
    then show ?thesis using assms(1)
      by (simp add: fields post_pbs_def InsertPBSReportData_def log_post_def flip: pbs_has_token)
  next
    case False
    then show ?thesis
      using insert_new_pbs_report [of db s tok swap info now] assms
      by (auto simp: fields post_pbs_def log_post_def pbs_known_def [abs_def] pbs_has_token)
  qed
qed

lemma post_pbs_unknown:
  assumes "pbs_ok db" "\<not> pbs_known db s"
  shows "\<exists>e. post_pbs s q now db = Inl e"
proof -
  have "\<not> at_has (\<lambda>r. pbsr_ServerID r = s \<and> pbsr_token r = k) (bd_reports db)" for k
    using assms refs_in_absent [of pbsr_ServerID sr_ID "bd_reports db" "bd_servers db" s "\<lambda>r. pbsr_token r = k"]
    unfolding pbs_ok_def pbs_refs_ok_def pbs_known_def by blast
  then show ?thesis using assms(2)
    by (auto simp: post_pbs_def InsertPBSReportData_def insertPBSReportWithSwap_def pbs_known_def split: prod.split)
qed

section \<open>Pruning\<close>

text \<open>The tables without the reports that satisfy a condition.\<close>

definition without_pbs_reports :: "(pbs_report_row \<Rightarrow> bool) \<Rightarrow> pbs_db \<Rightarrow> pbs_db" where
  "without_pbs_reports P db = db\<lparr>
     bd_reports := at_delete P (bd_reports db),
     bd_stores := at_delete (\<lambda>s. pbs_report_in P db (pbsd_ReportID s)) (bd_stores db),
     bd_history := at_delete (\<lambda>h. pbs_store_in P db (pbsh_StoreID h)) (bd_history db),
     bd_gcs := at_delete (\<lambda>g. pbs_store_in P db (pbsg_StoreID g)) (bd_gcs db),
     bd_snapshots := at_delete (\<lambda>n. pbs_store_in P db (pbsn_StoreID n)) (bd_snapshots db),
     bd_tasks := at_delete (\<lambda>t. pbs_report_in P db (pbst_ReportID t)) (bd_tasks db)\<rparr>"

lemma DeleteOldPBS_tables:
  "snd (DeleteOldPBSReports cutoff db) = without_pbs_reports (\<lambda>r. pbsr_ReportedAt r < sql_now cutoff) db"
  "fst (DeleteOldPBSReports cutoff db) = int (length (at_select (\<lambda>r. pbsr_ReportedAt r < sql_now cutoff) (bd_reports db)))"
  by (simp_all add: DeleteOldPBSReports_def without_pbs_reports_def Let_def pbs_store_in_def pbs_report_in_def)

lemma pbs_report_in_iff:
  "pbs_ids_ok db \<Longrightarrow> r \<in> set (at_rows (bd_reports db)) \<Longrightarrow> pbs_report_in P db (pbsr_ID r) \<longleftrightarrow> P r"
  unfolding pbs_report_in_def at_has_iff pbs_ids_ok_def by (blast dest: at_ok_id_inj)

lemma pbs_store_in_iff:
  "pbs_ids_ok db \<Longrightarrow> s \<in> set (at_rows (bd_stores db)) \<Longrightarrow>
   pbs_store_in P db (pbsd_ID s) \<longleftrightarrow> pbs_report_in P db (pbsd_ReportID s)"
  unfolding pbs_store_in_def at_has_iff pbs_ids_ok_def by (blast dest: at_ok_id_inj)

lemma without_pbs_ok:
  assumes "pbs_ok db"
  shows "pbs_ok (without_pbs_reports P db)"
proof -
  let ?db = "without_pbs_reports P db"
  have "pbs_ids_ok ?db" using assms by (simp add: without_pbs_reports_def pbs_ok_def pbs_ids_ok_def at_ok_delete)
  moreover have "pbs_refs_ok ?db"
    using assms unfolding without_pbs_reports_def pbs_ok_def pbs_refs_ok_def
    by (auto simp: pbs_store_in_def pbs_report_in_def at_has_iff intro!: refs_in_delete intro: refs_in_subset)
  ultimately show ?thesis using assms by (simp add: pbs_ok_def without_pbs_reports_def tokens_once_delete)
qed

lemma kept_pbs_entry:
  assumes "pbs_ids_ok db" "r \<in> set (at_rows (bd_reports db))" "\<not> P r"
  shows "pbs_entry (without_pbs_reports P db) r = pbs_entry db r"
proof -
  let ?db = "without_pbs_reports P db"
  have kept: "\<not> pbs_report_in P db (pbsr_ID r)" using pbs_report_in_iff [OF assms(1,2)] assms(3) by simp
  have tasks: "at_select (\<lambda>t. pbst_ReportID t = pbsr_ID r) (bd_tasks ?db) = at_select (\<lambda>t. pbst_ReportID t = pbsr_ID r) (bd_tasks db)"
    unfolding without_pbs_reports_def at_select_def using kept by (simp, intro filter_delete_same) auto
  have stores: "GetPBSStoresForReport (pbsr_ID r) ?db = GetPBSStoresForReport (pbsr_ID r) db"
    unfolding GetPBSStoresForReport_def without_pbs_reports_def at_select_def using kept by (simp, intro filter_delete_same) auto
  have "pbs_store_view ?db s = pbs_store_view db s" if "s \<in> set (GetPBSStoresForReport (pbsr_ID r) db)" for s
  proof -
    have "\<not> pbs_store_in P db (pbsd_ID s)"
      using that pbs_store_in_iff [OF assms(1)] kept by (auto simp: GetPBSStoresForReport_def at_select_def)
    then have "at_select (\<lambda>h. pbsh_StoreID h = pbsd_ID s) (bd_history ?db) = at_select (\<lambda>h. pbsh_StoreID h = pbsd_ID s) (bd_history db)"
      "at_select (\<lambda>g. pbsg_StoreID g = pbsd_ID s) (bd_gcs ?db) = at_select (\<lambda>g. pbsg_StoreID g = pbsd_ID s) (bd_gcs db)"
      "at_select (\<lambda>n. pbsn_StoreID n = pbsd_ID s) (bd_snapshots ?db) = at_select (\<lambda>n. pbsn_StoreID n = pbsd_ID s) (bd_snapshots db)"
      unfolding without_pbs_reports_def at_select_def by (simp, intro filter_delete_same, auto)+
    then show ?thesis by (simp add: pbs_store_view_def GetPBSHistory_def GetPBSGCStatus_def at_first_select)
  qed
  then have "pbs_stores_view ?db (pbsr_ID r) = pbs_stores_view db (pbsr_ID r)"
    unfolding pbs_stores_view_def stores by (intro map_cong) auto
  then show ?thesis by (simp add: pbs_entry_def pbs_tasks_view_def tasks)
qed

lemma without_pbs_log:
  assumes "pbs_ids_ok db" "\<And>r. P r \<longleftrightarrow> Q (pbs_entry db r)"
  shows "pbs_log (without_pbs_reports P db) = filter (\<lambda>e. \<not> Q e) (pbs_log db)"
proof -
  let ?db = "without_pbs_reports P db"
  have "pbs_log ?db = map (pbs_entry ?db) (filter (\<lambda>r. \<not> P r) (at_rows (bd_reports db)))"
    by (simp add: pbs_log_def without_pbs_reports_def at_rows_simps)
  also have "\<dots> = map (pbs_entry db) (filter (\<lambda>r. \<not> P r) (at_rows (bd_reports db)))"
    using kept_pbs_entry [OF assms(1)] by (intro map_cong) auto
  finally show ?thesis by (simp add: pbs_log_def filter_map comp_def assms(2))
qed

lemma prune_pbs_log:
  assumes "pbs_ok db"
  shows "pbs_log (snd (DeleteOldPBSReports cutoff db)) = log_prune cutoff (pbs_log db)"
proof -
  have "pbs_log (snd (DeleteOldPBSReports cutoff db)) = filter (\<lambda>e. \<not> le_at e < sql_now cutoff) (pbs_log db)"
    unfolding DeleteOldPBS_tables using assms by (intro without_pbs_log) (simp_all add: pbs_ok_def pbs_entry_def)
  then show ?thesis by (simp add: log_prune_def not_less)
qed

lemma prune_pbs_count:
  "fst (DeleteOldPBSReports cutoff db) = int (length (pbs_log db)) - int (length (log_prune cutoff (pbs_log db)))"
proof -
  show ?thesis
    using sum_length_filter_compl [of "\<lambda>r. pbsr_ReportedAt r < sql_now cutoff" "at_rows (bd_reports db)"]
    by (simp add: DeleteOldPBS_tables(2) at_select_def pbs_log_def log_prune_def filter_map comp_def pbs_entry_def not_less)
qed

interpretation pbs_reports: report_log pbs_ok pbs_known pbs_log fst snd post_pbs DeleteOldPBSReports
proof unfold_locales
  fix db s q now cutoff
  assume "pbs_ok db"
  then show "pbs_known db s \<Longrightarrow> \<exists>db'. post_pbs s q now db = Inr db' \<and> pbs_ok db' \<and> pbs_known db' = pbs_known db \<and>
      pbs_log db' = log_post fst snd s q now (pbs_log db)"
    and "\<not> pbs_known db s \<Longrightarrow> \<exists>e. post_pbs s q now db = Inl e"
    by (auto intro: post_pbs_known post_pbs_unknown)
  from \<open>pbs_ok db\<close> show "pbs_ok (snd (DeleteOldPBSReports cutoff db)) \<and>
      pbs_known (snd (DeleteOldPBSReports cutoff db)) = pbs_known db \<and>
      pbs_log (snd (DeleteOldPBSReports cutoff db)) = log_prune cutoff (pbs_log db) \<and>
      fst (DeleteOldPBSReports cutoff db) = int (length (pbs_log db)) - int (length (log_prune cutoff (pbs_log db)))"
    using without_pbs_ok prune_pbs_log prune_pbs_count
    by (simp add: pbs_known_def [abs_def] DeleteOldPBS_tables(1)) (simp add: without_pbs_reports_def)
qed

text \<open>C38: the PBS tables refine a log: after any history of posted reports and prunings, for registered
  servers, the tables hold exactly the log the history leaves, each report with every datastore, its
  usage history, garbage collection status and groups, and every task as the client sent them, and no
  report token of a server is there twice.\<close>

theorem pbs_history_refines:
  assumes "pbs_ok db" "\<And>e s. e \<in> set evs \<Longrightarrow> event_server e = Some s \<Longrightarrow> pbs_known db s" "log_once (pbs_log db)"
  shows "pbs_ok (run_events post_pbs DeleteOldPBSReports evs db) \<and>
    pbs_log (run_events post_pbs DeleteOldPBSReports evs db) = log_events fst snd evs (pbs_log db) \<and>
    log_once (pbs_log (run_events post_pbs DeleteOldPBSReports evs db))"
  using pbs_reports.history [OF assms(1,2)] log_once_events [OF assms(3)] by simp

definition sample_pbs_info :: pbs_information where
  "sample_pbs_info =
     \<lparr>pbi_Data = [\<lparr>pdp_Store = ''ds'', pdp_Total = 100, pdp_Used = 40, pdp_Avail = 60, pdp_EstimatedFullDate = 0,
        pdp_MountStatus = ''mounted'', pdp_HistoryStart = 0, pdp_HistoryDelta = 3600, pdp_History = [Some (1/2), None],
        pdp_GCStatus = None, pdp_Groups = [\<lparr>pgp_BackupType = ''vm'', pgp_BackupID = ''101'', pgp_LastBackup = 10,
          pgp_BackupCount = 3, pgp_Owner = ''root@pam'', pgp_Comment = [], pgp_VerificationState = ''ok'', pgp_Size = 7\<rparr>]\<rparr>],
      pbi_Tasks = []\<rparr>"

definition sample_pbs_db :: pbs_db where
  "sample_pbs_db = empty_pbs_db\<lparr>bd_servers := snd (UpsertPBSServerForAPIKey 7 sample_facts 1 at_empty)\<rparr>"

lemma sample_pbs_ok: "pbs_ok sample_pbs_db"
proof -
  have "at_ok sr_ID (bd_servers sample_pbs_db)" by code_simp
  then show ?thesis
    by (simp add: pbs_ok_def pbs_ids_ok_def pbs_refs_ok_def sample_pbs_db_def empty_pbs_db_def)
qed

theorem pbs_history_refines_witness:
  "map le_content (pbs_log (run_events post_pbs DeleteOldPBSReports
     [Post 1 (''r1'', \<lparr>swap_Total = 0, swap_Used = 0, swap_Enabled = False\<rparr>, sample_pbs_info) 5,
      Post 1 (''r1'', \<lparr>swap_Total = 0, swap_Used = 0, swap_Enabled = False\<rparr>, sample_pbs_info) 9] sample_pbs_db)) =
   [(\<lparr>swap_Total = 0, swap_Used = 0, swap_Enabled = False\<rparr>, sample_pbs_info)]"
proof -
  have "pbs_known sample_pbs_db 1" by code_simp
  moreover have "pbs_log sample_pbs_db = []" by code_simp
  ultimately show ?thesis
    by (subst pbs_history_refines [OF sample_pbs_ok, THEN conjunct2, THEN conjunct1])
      (auto simp: log_post_def has_token_def)
qed

end
