(* ===== verification/Windows_Store.thy ===== *)
theory Windows_Store
  imports Server_Store Report_Payload Report_Log Staleness
begin

text \<open>
  The stored Windows reports of \<open>internal/store/windows.go\<close>: a report has the disks of the host. The
  tables refine the log of \<open>Report_Log\<close>, each entry with the disks the client sent.
\<close>

section \<open>Tables\<close>

record windows_report_row = windows_report +
  winr_token :: string

record windows_db =
  wd_servers :: plain_server_table
  wd_reports :: "windows_report_row auto_table"
  wd_disks :: "windows_disk auto_table"

definition empty_windows_db :: windows_db where
  "empty_windows_db = \<lparr>wd_servers = at_empty, wd_reports = at_empty, wd_disks = at_empty\<rparr>"

section \<open>Storing a report\<close>

definition new_windows_report :: "int \<Rightarrow> string \<Rightarrow> time \<Rightarrow> int \<Rightarrow> windows_report_row" where
  "new_windows_report serverID token now i =
     \<lparr>winr_ID = i, winr_ServerID = serverID, winr_ReportedAt = sql_now now, winr_IsStale = False, winr_token = token\<rparr>"

definition insertWindowsReport :: "int \<Rightarrow> string \<Rightarrow> time \<Rightarrow> windows_db \<Rightarrow> sql_error + int \<times> windows_db" where
  "insertWindowsReport serverID token now db =
     (if \<not> at_has (\<lambda>s. sr_ID s = serverID) (wd_servers db) then Inl (NoParent ''windows_servers'')
      else if token \<noteq> [] \<and> at_has (\<lambda>r. winr_ServerID r = serverID \<and> winr_token r = token) (wd_reports db)
        then Inl (NotUnique ''windows_reports'')
      else case at_insert (new_windows_report serverID token now) (wd_reports db) of
        (i, t) \<Rightarrow> Inr (i, db\<lparr>wd_reports := t\<rparr>))"

definition InsertWindowsReport :: "int \<Rightarrow> time \<Rightarrow> windows_db \<Rightarrow> sql_error + int \<times> windows_db" where
  "InsertWindowsReport serverID now db = insertWindowsReport serverID [] now db"

definition new_windows_disk :: "int \<Rightarrow> windows_disk_payload \<Rightarrow> int \<Rightarrow> windows_disk" where
  "new_windows_disk reportID d i =
     \<lparr>wind_ID = i, wind_ReportID = reportID, wind_Name = wdp_Name d, wind_Label = wdp_Label d,
      wind_FileSystem = wdp_FileSystem d, wind_DriveType = wdp_DriveType d, wind_Total = wdp_Total d,
      wind_Used = wdp_Used d, wind_Free = wdp_Free d, wind_Health = wdp_Health d\<rparr>"

definition insertWindowsDisk :: "int \<Rightarrow> windows_disk_payload \<Rightarrow> windows_db \<Rightarrow> sql_error + windows_db" where
  "insertWindowsDisk reportID d db =
     (if \<not> at_has (\<lambda>r. winr_ID r = reportID) (wd_reports db) then Inl (NoParent ''windows_reports'')
      else Inr (db\<lparr>wd_disks := snd (at_insert (new_windows_disk reportID d) (wd_disks db))\<rparr>))"

definition InsertWindowsReportData :: "int \<Rightarrow> windows_report_request \<Rightarrow> time \<Rightarrow> windows_db \<Rightarrow> sql_error + windows_db" where
  "InsertWindowsReportData serverID req now db =
     (if wrq_ReportID req \<noteq> [] \<and>
         at_has (\<lambda>r. winr_ServerID r = serverID \<and> winr_token r = wrq_ReportID req) (wd_reports db)
      then Inr db
      else
        bind_err (insertWindowsReport serverID (wrq_ReportID req) now db) (\<lambda>(reportID, db).
        each_err (insertWindowsDisk reportID) (wrq_Disks req) db))"

section \<open>Queries\<close>

abbreviation scan_windows_report :: "windows_report_row \<Rightarrow> windows_report" where
  "scan_windows_report \<equiv> windows_report.truncate"

definition windows_reports_of :: "int \<Rightarrow> windows_db \<Rightarrow> windows_report_row list" where
  "windows_reports_of serverID db =
     newest_first winr_ReportedAt (at_select (\<lambda>r. winr_ServerID r = serverID) (wd_reports db))"

definition GetLatestWindowsReport :: "int \<Rightarrow> windows_db \<Rightarrow> sql_error + windows_report" where
  "GetLatestWindowsReport serverID db =
     (case windows_reports_of serverID db of [] \<Rightarrow> Inl NoRows | r # _ \<Rightarrow> Inr (scan_windows_report r))"

definition GetLatestWindowsReports :: "windows_db \<Rightarrow> (int \<times> windows_report) list" where
  "GetLatestWindowsReports db = index_rows winr_ServerID (map scan_windows_report
     (at_select (\<lambda>r. map_option winr_ID (case windows_reports_of (winr_ServerID r) db of [] \<Rightarrow> None | l # _ \<Rightarrow> Some l) =
        Some (winr_ID r)) (wd_reports db)))"

text \<open>The \<open>UNION ALL\<close> of one limited query per requested server.\<close>

definition GetRecentWindowsReportsByServer :: "int list \<Rightarrow> int \<Rightarrow> windows_db \<Rightarrow> (int \<times> windows_report list) list" where
  "GetRecentWindowsReportsByServer serverIDs limit db =
     (if serverIDs = [] \<or> limit \<le> 0 then []
      else group_rows winr_ServerID (map scan_windows_report
        (sort_key winr_ServerID (sort_key (\<lambda>r. - winr_ReportedAt r) (sort_key (\<lambda>r. - winr_ID r)
          (concat (map (\<lambda>s. sql_page limit 0 (windows_reports_of s db)) serverIDs)))))))"

definition ListWindowsReports :: "int \<Rightarrow> int \<Rightarrow> windows_db \<Rightarrow> windows_report list" where
  "ListWindowsReports serverID limit db = map scan_windows_report (sql_page limit 0 (windows_reports_of serverID db))"

definition ListWindowsReportsByDays :: "location \<Rightarrow> int \<Rightarrow> int \<Rightarrow> time \<Rightarrow> windows_db \<Rightarrow> windows_report list" where
  "ListWindowsReportsByDays loc serverID days now db = map scan_windows_report
     (filter (\<lambda>r. sql_now (add_days loc now (- days)) \<le> winr_ReportedAt r) (windows_reports_of serverID db))"

definition ListWindowsReportsPage :: "int \<Rightarrow> int \<Rightarrow> int \<Rightarrow> windows_db \<Rightarrow> windows_report list" where
  "ListWindowsReportsPage serverID limit offset db =
     map scan_windows_report (sql_page limit offset (windows_reports_of serverID db))"

definition CountWindowsReports :: "int \<Rightarrow> windows_db \<Rightarrow> int" where
  "CountWindowsReports serverID db = int (length (at_select (\<lambda>r. winr_ServerID r = serverID) (wd_reports db)))"

definition GetWindowsDisksForReport :: "int \<Rightarrow> windows_db \<Rightarrow> windows_disk list" where
  "GetWindowsDisksForReport reportID db =
     sort_key wind_Name (at_select (\<lambda>d. wind_ReportID d = reportID) (wd_disks db))"

definition GetWindowsDisksForReports :: "int list \<Rightarrow> windows_db \<Rightarrow> (int \<times> windows_disk list) list" where
  "GetWindowsDisksForReports reportIDs db = group_rows wind_ReportID
     (sort_key wind_ReportID (sort_key wind_Name (at_select (\<lambda>d. wind_ReportID d \<in> set reportIDs) (wd_disks db))))"

definition windows_report_in :: "(windows_report_row \<Rightarrow> bool) \<Rightarrow> windows_db \<Rightarrow> int \<Rightarrow> bool" where
  "windows_report_in P db i \<longleftrightarrow> at_has (\<lambda>r. winr_ID r = i \<and> P r) (wd_reports db)"

definition DeleteOldWindowsReports :: "time \<Rightarrow> windows_db \<Rightarrow> int \<times> windows_db" where
  "DeleteOldWindowsReports cutoff db0 =
     (let old = (\<lambda>r. winr_ReportedAt r < sql_now cutoff);
          db1 = db0\<lparr>wd_disks := at_delete (\<lambda>d. windows_report_in old db0 (wind_ReportID d)) (wd_disks db0)\<rparr>
      in (int (length (at_select old (wd_reports db1))), db1\<lparr>wd_reports := at_delete old (wd_reports db1)\<rparr>))"

section \<open>The log the tables hold\<close>

definition windows_disk_view :: "windows_disk \<Rightarrow> windows_disk_payload" where
  "windows_disk_view d = \<lparr>wdp_Name = wind_Name d, wdp_Label = wind_Label d, wdp_FileSystem = wind_FileSystem d,
     wdp_DriveType = wind_DriveType d, wdp_Total = wind_Total d, wdp_Used = wind_Used d, wdp_Free = wind_Free d,
     wdp_Health = wind_Health d\<rparr>"

definition windows_entry :: "windows_db \<Rightarrow> windows_report_row \<Rightarrow> windows_disk_payload list log_entry" where
  "windows_entry db r =
     \<lparr>le_server = winr_ServerID r, le_token = winr_token r, le_at = winr_ReportedAt r,
      le_content = map windows_disk_view (at_select (\<lambda>d. wind_ReportID d = winr_ID r) (wd_disks db))\<rparr>"

definition windows_log :: "windows_db \<Rightarrow> windows_disk_payload list log_entry list" where
  "windows_log db = map (windows_entry db) (at_rows (wd_reports db))"

definition windows_known :: "windows_db \<Rightarrow> int \<Rightarrow> bool" where
  "windows_known db s \<longleftrightarrow> at_has (\<lambda>v. sr_ID v = s) (wd_servers db)"

definition windows_ok :: "windows_db \<Rightarrow> bool" where
  "windows_ok db \<longleftrightarrow> at_ok sr_ID (wd_servers db) \<and> at_ok winr_ID (wd_reports db) \<and> at_ok wind_ID (wd_disks db) \<and>
     refs_in winr_ServerID sr_ID (wd_reports db) (wd_servers db) \<and>
     refs_in wind_ReportID winr_ID (wd_disks db) (wd_reports db) \<and>
     tokens_once winr_ServerID winr_token (wd_reports db)"

lemma new_windows_rows [simp]:
  "winr_ID (new_windows_report s k now i) = i" "winr_ServerID (new_windows_report s k now i) = s"
  "winr_token (new_windows_report s k now i) = k" "winr_ReportedAt (new_windows_report s k now i) = sql_now now"
  "wind_ID (new_windows_disk r d i) = i" "wind_ReportID (new_windows_disk r d i) = r"
  "windows_disk_view (new_windows_disk r d i) = d"
  by (simp_all add: new_windows_report_def new_windows_disk_def windows_disk_view_def)

lemma insert_windows_disks:
  "at_has (\<lambda>r. winr_ID r = rid) (wd_reports db) \<Longrightarrow> each_err (insertWindowsDisk rid) ds db =
     Inr (db\<lparr>wd_disks := at_insert_all (new_windows_disk rid) ds (wd_disks db)\<rparr>)"
  by (induction ds arbitrary: db) (simp_all add: insertWindowsDisk_def)

lemma windows_has_token:
  "k \<noteq> [] \<and> at_has (\<lambda>r. winr_ServerID r = s \<and> winr_token r = k) (wd_reports db) \<longleftrightarrow> has_token s k (windows_log db)"
  by (auto simp: at_has_iff has_token_def windows_log_def windows_entry_def list_ex_iff)

lemma insert_new_windows_report:
  assumes ok: "windows_ok db" and srv: "windows_known db s" and new: "\<not> has_token s (wrq_ReportID req) (windows_log db)"
  shows "\<exists>db'. InsertWindowsReportData s req now db = Inr db' \<and> windows_ok db' \<and> wd_servers db' = wd_servers db \<and>
    windows_log db' = windows_log db @
      [\<lparr>le_server = s, le_token = wrq_ReportID req, le_at = sql_now now, le_content = wrq_Disks req\<rparr>]"
proof -
  let ?rid = "at_seq (wd_reports db) + 1" and ?mk = "new_windows_report s (wrq_ReportID req) now"
  let ?db = "db\<lparr>wd_reports := snd (at_insert ?mk (wd_reports db)),
    wd_disks := at_insert_all (new_windows_disk ?rid) (wrq_Disks req) (wd_disks db)\<rparr>"
  have rid: "at_has (\<lambda>r. winr_ID r = ?rid) (snd (at_insert ?mk (wd_reports db)))" by (simp add: at_has_iff at_rows_simps)
  have fresh: "\<not> (wrq_ReportID req \<noteq> [] \<and>
      at_has (\<lambda>r. winr_ServerID r = s \<and> winr_token r = wrq_ReportID req) (wd_reports db))"
    using new windows_has_token by blast
  then have run: "InsertWindowsReportData s req now db = Inr ?db"
    using srv rid by (auto simp: InsertWindowsReportData_def insertWindowsReport_def windows_known_def case_prod_unfold
        at_rows_simps insert_windows_disks)
  have "windows_ok ?db" using ok srv rid fresh
    by (auto simp: windows_ok_def windows_known_def
        intro!: at_ok_insert at_ok_insert_all tokens_once_insert [where s = s and k = "wrq_ReportID req"]
          refs_in_child_insert refs_in_child_insert_all intro: refs_in_parent_insert)
  moreover have "windows_log ?db = windows_log db @
      [\<lparr>le_server = s, le_token = wrq_ReportID req, le_at = sql_now now, le_content = wrq_Disks req\<rparr>]"
  proof -
    have disks: "at_select (\<lambda>d. wind_ReportID d = j) (wd_disks ?db) =
        (if j = ?rid then numbered (new_windows_disk ?rid) (at_seq (wd_disks db)) (wrq_Disks req)
         else at_select (\<lambda>d. wind_ReportID d = j) (wd_disks db))" for j
      using fresh_children [where fk = wind_ReportID and idf = winr_ID and c = "wd_disks db" and p = "wd_reports db"
          and mk = "new_windows_disk ?rid"] ok by (simp add: at_select_def windows_ok_def)
    have "windows_entry ?db r = windows_entry db r" if "r \<in> set (at_rows (wd_reports db))" for r
      using at_ok_fresh [OF _ that, of winr_ID] ok unfolding windows_ok_def windows_entry_def disks by auto
    moreover have "windows_entry ?db (?mk ?rid) =
        \<lparr>le_server = s, le_token = wrq_ReportID req, le_at = sql_now now, le_content = wrq_Disks req\<rparr>"
      unfolding windows_entry_def disks by (simp add: numbered_map [where g = "\<lambda>x. x"])
    ultimately show ?thesis by (simp add: windows_log_def at_rows_simps)
  qed
  ultimately show ?thesis using run by auto
qed

lemma post_windows_known:
  assumes "windows_ok db" "windows_known db s"
  shows "\<exists>db'. InsertWindowsReportData s req now db = Inr db' \<and> windows_ok db' \<and> windows_known db' = windows_known db \<and>
    windows_log db' = log_post wrq_ReportID wrq_Disks s req now (windows_log db)"
proof (cases "has_token s (wrq_ReportID req) (windows_log db)")
  case True
  then show ?thesis using assms(1) by (simp add: InsertWindowsReportData_def log_post_def flip: windows_has_token)
next
  case False
  then show ?thesis using insert_new_windows_report [OF assms False, of now]
    by (auto simp: log_post_def windows_known_def [abs_def])
qed

lemma post_windows_unknown:
  assumes "windows_ok db" "\<not> windows_known db s"
  shows "\<exists>e. InsertWindowsReportData s req now db = Inl e"
proof -
  have "\<not> at_has (\<lambda>r. winr_ServerID r = s \<and> winr_token r = k) (wd_reports db)" for k
    using assms refs_in_absent [of winr_ServerID sr_ID "wd_reports db" "wd_servers db" s "\<lambda>r. winr_token r = k"]
    unfolding windows_ok_def windows_known_def by blast
  then show ?thesis using assms(2) by (simp add: InsertWindowsReportData_def insertWindowsReport_def windows_known_def)
qed

text \<open>The tables without the reports that satisfy a condition.\<close>

definition without_windows_reports :: "(windows_report_row \<Rightarrow> bool) \<Rightarrow> windows_db \<Rightarrow> windows_db" where
  "without_windows_reports P db = db\<lparr>
     wd_reports := at_delete P (wd_reports db),
     wd_disks := at_delete (\<lambda>d. windows_report_in P db (wind_ReportID d)) (wd_disks db)\<rparr>"

lemma DeleteOldWindows_tables:
  "snd (DeleteOldWindowsReports cutoff db) = without_windows_reports (\<lambda>r. winr_ReportedAt r < sql_now cutoff) db"
  "fst (DeleteOldWindowsReports cutoff db) =
     int (length (at_select (\<lambda>r. winr_ReportedAt r < sql_now cutoff) (wd_reports db)))"
  by (simp_all add: DeleteOldWindowsReports_def without_windows_reports_def Let_def)

lemma without_windows_ok:
  assumes "windows_ok db"
  shows "windows_ok (without_windows_reports P db)"
  using assms unfolding windows_ok_def without_windows_reports_def
  by (auto simp: windows_report_in_def at_has_iff
      intro!: at_ok_delete tokens_once_delete refs_in_delete intro: refs_in_subset)

lemma kept_windows_entry:
  assumes "windows_ok db" "r \<in> set (at_rows (wd_reports db))" "\<not> P r"
  shows "windows_entry (without_windows_reports P db) r = windows_entry db r"
proof -
  have "\<not> windows_report_in P db (winr_ID r)"
    using assms unfolding windows_report_in_def windows_ok_def at_has_iff by (blast dest: at_ok_id_inj)
  then have "at_select (\<lambda>d. wind_ReportID d = winr_ID r) (wd_disks (without_windows_reports P db)) =
      at_select (\<lambda>d. wind_ReportID d = winr_ID r) (wd_disks db)"
    unfolding without_windows_reports_def at_select_def by (simp, intro filter_delete_same) auto
  then show ?thesis by (simp add: windows_entry_def)
qed

lemma without_windows_log:
  assumes "windows_ok db" "\<And>r. P r \<longleftrightarrow> Q (windows_entry db r)"
  shows "windows_log (without_windows_reports P db) = filter (\<lambda>e. \<not> Q e) (windows_log db)"
proof -
  let ?db = "without_windows_reports P db"
  have "windows_log ?db = map (windows_entry ?db) (filter (\<lambda>r. \<not> P r) (at_rows (wd_reports db)))"
    by (simp add: windows_log_def without_windows_reports_def at_rows_simps)
  also have "\<dots> = map (windows_entry db) (filter (\<lambda>r. \<not> P r) (at_rows (wd_reports db)))"
    using kept_windows_entry [OF assms(1)] by (intro map_cong) auto
  finally show ?thesis by (simp add: windows_log_def filter_map comp_def assms(2))
qed

lemma prune_windows_log:
  assumes "windows_ok db"
  shows "windows_log (snd (DeleteOldWindowsReports cutoff db)) = log_prune cutoff (windows_log db)"
proof -
  have "windows_log (snd (DeleteOldWindowsReports cutoff db)) = filter (\<lambda>e. \<not> le_at e < sql_now cutoff) (windows_log db)"
    unfolding DeleteOldWindows_tables using assms by (intro without_windows_log) (simp_all add: windows_entry_def)
  then show ?thesis by (simp add: log_prune_def not_less)
qed

lemma prune_windows_count:
  "fst (DeleteOldWindowsReports cutoff db) = int (length (windows_log db)) - int (length (log_prune cutoff (windows_log db)))"
  using sum_length_filter_compl [of "\<lambda>r. winr_ReportedAt r < sql_now cutoff" "at_rows (wd_reports db)"]
  by (simp add: DeleteOldWindows_tables(2) at_select_def windows_log_def log_prune_def filter_map comp_def windows_entry_def not_less)

interpretation windows_reports: report_log windows_ok windows_known windows_log wrq_ReportID wrq_Disks
  InsertWindowsReportData DeleteOldWindowsReports
proof unfold_locales
  fix db s req now cutoff
  assume ok: "windows_ok db"
  from ok show "windows_known db s \<Longrightarrow> \<exists>db'. InsertWindowsReportData s req now db = Inr db' \<and> windows_ok db' \<and>
      windows_known db' = windows_known db \<and> windows_log db' = log_post wrq_ReportID wrq_Disks s req now (windows_log db)"
    and "\<not> windows_known db s \<Longrightarrow> \<exists>e. InsertWindowsReportData s req now db = Inl e"
    by (auto intro: post_windows_known post_windows_unknown)
  from ok show "windows_ok (snd (DeleteOldWindowsReports cutoff db)) \<and>
      windows_known (snd (DeleteOldWindowsReports cutoff db)) = windows_known db \<and>
      windows_log (snd (DeleteOldWindowsReports cutoff db)) = log_prune cutoff (windows_log db) \<and>
      fst (DeleteOldWindowsReports cutoff db) =
        int (length (windows_log db)) - int (length (log_prune cutoff (windows_log db)))"
    using without_windows_ok prune_windows_log prune_windows_count
    by (simp add: windows_known_def [abs_def] DeleteOldWindows_tables(1)) (simp add: without_windows_reports_def)
qed

text \<open>A Windows client that posts a report again, since it did not see the answer, changes nothing:
  whatever the second body says, the tables hold the reports they held, and a post for a server that
  is not registered fails.\<close>

theorem windows_retry:
  assumes "windows_ok db" "wrq_ReportID req' = wrq_ReportID req" "wrq_ReportID req \<noteq> []"
    and "InsertWindowsReportData s req now db = Inr db1"
  shows "\<exists>db2. InsertWindowsReportData s req' later db1 = Inr db2 \<and> windows_log db2 = windows_log db1 \<and> windows_known db s"
proof -
  have known: "windows_known db s" using windows_reports.store_succeeds_iff [OF assms(1)] assms(4) by blast
  then have "windows_ok db1" "windows_known db1 s" using windows_reports.store_run [OF assms(1) _ assms(4)] by auto
  then obtain db2 where db2: "InsertWindowsReportData s req' later db1 = Inr db2"
    using windows_reports.store_succeeds_iff by blast
  then show ?thesis using windows_reports.retry [OF assms db2] known by blast
qed

definition sample_windows_request :: windows_report_request where
  "sample_windows_request =
     \<lparr>wrq_ReportID = ''w1'', wrq_Hostname = ''win1'', wrq_IPAddress = ''10.0.0.3'', wrq_PublicIP = [],
      wrq_ClientVersion = ''1.0'', wrq_MachineID = ''m3'',
      wrq_Disks = [\<lparr>wdp_Name = ''C:'', wdp_Label = [], wdp_FileSystem = ''NTFS'', wdp_DriveType = ''fixed'',
        wdp_Total = 100, wdp_Used = 95, wdp_Free = 5, wdp_Health = ''OK''\<rparr>]\<rparr>"

definition sample_windows_db :: windows_db where
  "sample_windows_db = empty_windows_db\<lparr>wd_servers := snd (UpsertWindowsServer sample_facts 1 at_empty)\<rparr>"

lemma sample_windows_ok: "windows_ok sample_windows_db"
proof -
  have "at_ok sr_ID (wd_servers sample_windows_db)" by code_simp
  then show ?thesis by (simp add: windows_ok_def sample_windows_db_def empty_windows_db_def)
qed

theorem windows_retry_witness:
  "\<exists>db1 db2. InsertWindowsReportData 1 sample_windows_request 5 sample_windows_db = Inr db1 \<and>
     InsertWindowsReportData 1 (sample_windows_request\<lparr>wrq_Disks := []\<rparr>) 9 db1 = Inr db2 \<and> windows_log db2 = windows_log db1"
proof -
  have "windows_known sample_windows_db 1" by code_simp
  then obtain db1 where "InsertWindowsReportData 1 sample_windows_request 5 sample_windows_db = Inr db1"
    using windows_reports.store_succeeds_iff [OF sample_windows_ok] by blast
  then show ?thesis
    using windows_retry [OF sample_windows_ok, of "sample_windows_request\<lparr>wrq_Disks := []\<rparr>" sample_windows_request 1 5 db1 9]
    by (auto simp: sample_windows_request_def)
qed

end
