(* ===== verification/Config_Store.thy ===== *)
theory Config_Store
  imports Server_Store Alert_Base
begin

text \<open>
  What an administrator configures: which virtual machines are to be backed up on which days
  (\<open>internal/store/backup.go\<close>), the alert thresholds of single servers and machines
  (\<open>internal/store/alert_config.go\<close>) and the global configuration
  (\<open>internal/store/email.go\<close>), whose password is sealed like the API keys.
\<close>

section \<open>Backup schedules of virtual machines\<close>

record vm_config_request =
  vcq_VMID :: string
  vcq_VMName :: string
  vcq_Monday :: bool
  vcq_Tuesday :: bool
  vcq_Wednesday :: bool
  vcq_Thursday :: bool
  vcq_Friday :: bool
  vcq_Saturday :: bool
  vcq_Sunday :: bool

record vm_config_row = vm_backup_config +
  vcr_ServerType :: string
  vcr_ServerID :: int

type_synonym vm_config_table = "vm_config_row auto_table"

abbreviation scanVMConfig :: "vm_config_row \<Rightarrow> vm_backup_config" where "scanVMConfig \<equiv> vm_backup_config.truncate"

definition scanVMConfigs :: "vm_config_row list \<Rightarrow> vm_backup_config list" where
  "scanVMConfigs rows = map scanVMConfig (sort_key vbc_VMID rows)"

definition config_of_name :: "string \<Rightarrow> vm_config_row \<Rightarrow> bool" where
  "config_of_name serverName c \<longleftrightarrow> vbc_ServerName c = serverName \<and> \<not> vbc_IsDeleted c"

definition config_of_server :: "string \<Rightarrow> int \<Rightarrow> vm_config_row \<Rightarrow> bool" where
  "config_of_server serverType serverID c \<longleftrightarrow>
     vcr_ServerType c = serverType \<and> vcr_ServerID c = serverID \<and> \<not> vbc_IsDeleted c"

definition ListVMBackupConfigs :: "string \<Rightarrow> vm_config_table \<Rightarrow> vm_backup_config list" where
  "ListVMBackupConfigs serverName t = scanVMConfigs (at_select (config_of_name serverName) t)"

definition ListVMBackupConfigsForServer :: "string \<Rightarrow> int \<Rightarrow> vm_config_table \<Rightarrow> vm_backup_config list" where
  "ListVMBackupConfigsForServer serverType serverID t = scanVMConfigs (at_select (config_of_server serverType serverID) t)"

definition ListVMBackupConfigsForServerOrName ::
  "string \<Rightarrow> int \<Rightarrow> string \<Rightarrow> pve_server_table \<Rightarrow> vm_config_table \<Rightarrow> vm_backup_config list" where
  "ListVMBackupConfigsForServerOrName serverType serverID serverName servers t =
     (let configs = ListVMBackupConfigsForServer serverType serverID t
      in if configs \<noteq> [] \<or> serverName = [] then configs
         else if serverType = ''pve'' \<and>
           length (at_select (\<lambda>s. sr_Name s = serverName \<and> \<not> sr_IsDeleted s) servers) = 1 \<and>
           at_has (\<lambda>s. sr_ID s = serverID \<and> sr_Name s = serverName \<and> \<not> sr_IsDeleted s) servers
         then scanVMConfigs (at_select (\<lambda>c. vbc_ServerName c = serverName \<and> config_of_server serverType 0 c) t)
         else [])"

text \<open>The join of configurations and servers: by id, or by name for a configuration without a server.\<close>

definition config_joins :: "vm_config_row \<Rightarrow> pve_server_row \<Rightarrow> bool" where
  "config_joins c s \<longleftrightarrow>
     (vcr_ServerID c > 0 \<and> vcr_ServerType c = ''pve'' \<and> vcr_ServerID c = sr_ID s) \<or>
     (vcr_ServerID c = 0 \<and> vbc_ServerName c = sr_Name s)"

definition ListPVEVMBackupConfigsByServer ::
  "pve_server_table \<Rightarrow> vm_config_table \<Rightarrow> (int \<times> vm_backup_config list) list" where
  "ListPVEVMBackupConfigsByServer servers t =
     filter (\<lambda>(_, cs). cs \<noteq> [])
       (map (\<lambda>s. (sr_ID s, scanVMConfigs (at_select (\<lambda>c. \<not> vbc_IsDeleted c \<and> config_joins c s) t)))
         (at_select (\<lambda>s. \<not> sr_IsDeleted s) servers))"

definition new_vm_config :: "string \<Rightarrow> int \<Rightarrow> string \<Rightarrow> vm_config_request \<Rightarrow> time \<Rightarrow> int \<Rightarrow> vm_config_row" where
  "new_vm_config serverType serverID serverName req now i =
     \<lparr>vbc_ID = i, vbc_ServerName = serverName, vbc_VMID = vcq_VMID req, vbc_VMName = vcq_VMName req,
      vbc_Monday = vcq_Monday req, vbc_Tuesday = vcq_Tuesday req, vbc_Wednesday = vcq_Wednesday req,
      vbc_Thursday = vcq_Thursday req, vbc_Friday = vcq_Friday req, vbc_Saturday = vcq_Saturday req,
      vbc_Sunday = vcq_Sunday req, vbc_IsExcluded = False, vbc_IsDeleted = False, vbc_DeletedAt = None,
      vbc_CreatedAt = sql_now now, vcr_ServerType = serverType, vcr_ServerID = serverID\<rparr>"

text \<open>The unique index on the active configurations of a server.\<close>

definition insert_vm_config ::
  "string \<Rightarrow> int \<Rightarrow> string \<Rightarrow> vm_config_request \<Rightarrow> time \<Rightarrow> vm_config_table \<Rightarrow> (sql_error + int) \<times> vm_config_table" where
  "insert_vm_config serverType serverID serverName req now t =
     (if serverID > 0 \<and> at_has (\<lambda>c. config_of_server serverType serverID c \<and> vbc_VMID c = vcq_VMID req) t
      then (Inl (NotUnique ''vm_backup_configs''), t)
      else case at_insert (new_vm_config serverType serverID serverName req now) t of (i, t') \<Rightarrow> (Inr i, t'))"

definition CreateVMBackupConfig ::
  "string \<Rightarrow> vm_config_request \<Rightarrow> time \<Rightarrow> vm_config_table \<Rightarrow> (sql_error + int) \<times> vm_config_table" where
  "CreateVMBackupConfig serverName req now t = insert_vm_config ''pve'' 0 serverName req now t"

definition CreateVMBackupConfigForServer ::
  "string \<Rightarrow> int \<Rightarrow> string \<Rightarrow> vm_config_request \<Rightarrow> time \<Rightarrow> vm_config_table \<Rightarrow> (sql_error + int) \<times> vm_config_table" where
  "CreateVMBackupConfigForServer serverType serverID serverName req now t =
     insert_vm_config serverType serverID serverName req now t"

definition set_schedule :: "vm_config_request \<Rightarrow> vm_config_row \<Rightarrow> vm_config_row" where
  "set_schedule req c =
     c\<lparr>vbc_VMName := vcq_VMName req, vbc_Monday := vcq_Monday req, vbc_Tuesday := vcq_Tuesday req,
       vbc_Wednesday := vcq_Wednesday req, vbc_Thursday := vcq_Thursday req, vbc_Friday := vcq_Friday req,
       vbc_Saturday := vcq_Saturday req, vbc_Sunday := vcq_Sunday req\<rparr>"

definition UpdateVMBackupConfig :: "string \<Rightarrow> string \<Rightarrow> vm_config_request \<Rightarrow> vm_config_table \<Rightarrow> vm_config_table" where
  "UpdateVMBackupConfig serverName vmID req =
     at_update (\<lambda>c. config_of_name serverName c \<and> vbc_VMID c = vmID) (set_schedule req)"

definition UpdateVMBackupConfigForServer ::
  "string \<Rightarrow> int \<Rightarrow> string \<Rightarrow> vm_config_request \<Rightarrow> vm_config_table \<Rightarrow> vm_config_table" where
  "UpdateVMBackupConfigForServer serverType serverID vmID req =
     at_update (\<lambda>c. config_of_server serverType serverID c \<and> vbc_VMID c = vmID) (set_schedule req)"

definition ToggleVMExclude :: "string \<Rightarrow> string \<Rightarrow> vm_config_table \<Rightarrow> vm_config_table" where
  "ToggleVMExclude serverName vmID =
     at_update (\<lambda>c. config_of_name serverName c \<and> vbc_VMID c = vmID) (\<lambda>c. c\<lparr>vbc_IsExcluded := \<not> vbc_IsExcluded c\<rparr>)"

definition ToggleVMExcludeForServer :: "string \<Rightarrow> int \<Rightarrow> string \<Rightarrow> vm_config_table \<Rightarrow> vm_config_table" where
  "ToggleVMExcludeForServer serverType serverID vmID =
     at_update (\<lambda>c. config_of_server serverType serverID c \<and> vbc_VMID c = vmID)
       (\<lambda>c. c\<lparr>vbc_IsExcluded := \<not> vbc_IsExcluded c\<rparr>)"

definition DeleteVMBackupConfig :: "string \<Rightarrow> string \<Rightarrow> time \<Rightarrow> vm_config_table \<Rightarrow> vm_config_table" where
  "DeleteVMBackupConfig serverName vmID now =
     at_update (\<lambda>c. config_of_name serverName c \<and> vbc_VMID c = vmID)
       (\<lambda>c. c\<lparr>vbc_IsDeleted := True, vbc_DeletedAt := Some now\<rparr>)"

definition DeleteVMBackupConfigForServer :: "string \<Rightarrow> int \<Rightarrow> string \<Rightarrow> time \<Rightarrow> vm_config_table \<Rightarrow> vm_config_table" where
  "DeleteVMBackupConfigForServer serverType serverID vmID now =
     at_update (\<lambda>c. config_of_server serverType serverID c \<and> vbc_VMID c = vmID)
       (\<lambda>c. c\<lparr>vbc_IsDeleted := True, vbc_DeletedAt := Some now\<rparr>)"

section \<open>Alert thresholds\<close>

text \<open>One row per server; writing a row of a server that is not registered breaks the reference.\<close>

type_synonym pve_config_table = "(int, pve_alert_config) table"
type_synonym pbs_config_table = "(int, pbs_alert_config) table"
type_synonym windows_config_table = "(int, windows_alert_config) table"
type_synonym pve_vm_config_table = "pve_vm_alert_config auto_table"

definition GetPVEAlertConfig :: "int \<Rightarrow> pve_config_table \<Rightarrow> pve_alert_config" where
  "GetPVEAlertConfig serverID t = or_zero (zero_pve_alert_config\<lparr>pvec_ServerID := serverID\<rparr>) (tbl_get t serverID)"

definition ListPVEAlertConfigs :: "pve_config_table \<Rightarrow> (int \<times> pve_alert_config) list" where
  "ListPVEAlertConfigs t = t"

definition UpsertPVEAlertConfig :: "pve_server_table \<Rightarrow> pve_alert_config \<Rightarrow> pve_config_table \<Rightarrow> sql_error + pve_config_table" where
  "UpsertPVEAlertConfig servers cfg t =
     (if \<not> at_has (\<lambda>s. sr_ID s = pvec_ServerID cfg) servers then Inl (NoParent ''pve_servers'')
      else Inr (tbl_put (pvec_ServerID cfg) cfg t))"

text \<open>The query without an order runs on the unique index of server and machine.\<close>

definition GetPVEVMAlertConfigs :: "int \<Rightarrow> pve_vm_config_table \<Rightarrow> pve_vm_alert_config list" where
  "GetPVEVMAlertConfigs serverID t = sort_key pvevc_VMID (at_select (\<lambda>c. pvevc_ServerID c = serverID) t)"

definition ListPVEVMAlertConfigs :: "pve_vm_config_table \<Rightarrow> (int \<times> pve_vm_alert_config list) list" where
  "ListPVEVMAlertConfigs t =
     group_rows pvevc_ServerID (sort_key pvevc_ServerID (sort_key pvevc_VMID (at_rows t)))"

text \<open>The key of a row that is inserted is a new one; a row that is updated keeps its key.\<close>

definition UpsertPVEVMAlertConfig ::
  "pve_server_table \<Rightarrow> pve_vm_alert_config \<Rightarrow> pve_vm_config_table \<Rightarrow> sql_error + pve_vm_config_table" where
  "UpsertPVEVMAlertConfig servers cfg t =
     (let same = (\<lambda>c. pvevc_ServerID c = pvevc_ServerID cfg \<and> pvevc_VMID c = pvevc_VMID cfg)
      in if \<not> at_has (\<lambda>s. sr_ID s = pvevc_ServerID cfg) servers then Inl (NoParent ''pve_servers'')
         else if at_has same t then
           Inr (at_update same (\<lambda>c. c\<lparr>pvevc_BackupErr := pvevc_BackupErr cfg, pvevc_MinSizeMB := pvevc_MinSizeMB cfg\<rparr>) t)
         else Inr (snd (at_insert (\<lambda>i. cfg\<lparr>pvevc_ID := i\<rparr>) t)))"

definition DeletePVEVMAlertConfig :: "int \<Rightarrow> int \<Rightarrow> pve_vm_config_table \<Rightarrow> pve_vm_config_table" where
  "DeletePVEVMAlertConfig serverID vmid = at_delete (\<lambda>c. pvevc_ServerID c = serverID \<and> pvevc_VMID c = vmid)"

definition GetPBSAlertConfig :: "int \<Rightarrow> pbs_config_table \<Rightarrow> pbs_alert_config" where
  "GetPBSAlertConfig serverID t =
     or_zero (zero_pbs_alert_config\<lparr>pbsc_ServerID := serverID, pbsc_VerifyAlert := True\<rparr>) (tbl_get t serverID)"

definition ListPBSAlertConfigs :: "pbs_config_table \<Rightarrow> (int \<times> pbs_alert_config) list" where
  "ListPBSAlertConfigs t = t"

definition UpsertPBSAlertConfig :: "plain_server_table \<Rightarrow> pbs_alert_config \<Rightarrow> pbs_config_table \<Rightarrow> sql_error + pbs_config_table" where
  "UpsertPBSAlertConfig servers cfg t =
     (if \<not> at_has (\<lambda>s. sr_ID s = pbsc_ServerID cfg) servers then Inl (NoParent ''pbs_servers'')
      else Inr (tbl_put (pbsc_ServerID cfg) cfg t))"

definition GetWindowsAlertConfig :: "int \<Rightarrow> windows_config_table \<Rightarrow> windows_alert_config" where
  "GetWindowsAlertConfig serverID t =
     or_zero (zero_windows_alert_config\<lparr>winc_ServerID := serverID\<rparr>) (tbl_get t serverID)"

definition ListWindowsAlertConfigs :: "windows_config_table \<Rightarrow> (int \<times> windows_alert_config) list" where
  "ListWindowsAlertConfigs t = t"

definition UpsertWindowsAlertConfig ::
  "plain_server_table \<Rightarrow> windows_alert_config \<Rightarrow> windows_config_table \<Rightarrow> sql_error + windows_config_table" where
  "UpsertWindowsAlertConfig servers cfg t =
     (if \<not> at_has (\<lambda>s. sr_ID s = winc_ServerID cfg) servers then Inl (NoParent ''windows_servers'')
      else Inr (tbl_put (winc_ServerID cfg) cfg t))"

section \<open>The global configuration\<close>

record email_config = email_thresholds +
  emc_ID :: int
  emc_SMTPHost :: string
  emc_SMTPPort :: int
  emc_SMTPUser :: string
  emc_SMTPPass :: string
  emc_Recipients :: string
  emc_IsEnabled :: bool
  emc_SendTime :: string
  emc_RetentionMonths :: int
  emc_RetentionEnabled :: bool
  emc_PublicAPIURL :: string
  emc_VPNOnlyAccess :: bool
  emc_AlertEmailBatchMinutes :: int
  emc_CriticalAlertsEnabled :: bool
  emc_EnforceTOTPNonReaders :: bool
  emc_SensitiveActionsRequireTOTP :: bool

definition defaultEmailConfig :: email_config where
  "defaultEmailConfig =
     \<lparr>ec_AlertDiskPct = 85, ec_AlertWindowsDiskPct = 90, ec_AlertBackupErr = True, ec_AlertPBSStaleHours = 48,
      ec_AlertPVEExpectedFinishTime = DefaultPVEExpectedFinishTime ''08:00'', ec_AlertPVEHeartbeatMinutes = 15,
      emc_ID = 0, emc_SMTPHost = [], emc_SMTPPort = 0, emc_SMTPUser = [], emc_SMTPPass = [], emc_Recipients = [],
      emc_IsEnabled = False, emc_SendTime = ''08:00'', emc_RetentionMonths = 3, emc_RetentionEnabled = True,
      emc_PublicAPIURL = [], emc_VPNOnlyAccess = False, emc_AlertEmailBatchMinutes = 0,
      emc_CriticalAlertsEnabled = False, emc_EnforceTOTPNonReaders = False,
      emc_SensitiveActionsRequireTOTP = False\<rparr>"

definition fill_finish_time :: "email_config \<Rightarrow> email_config" where
  "fill_finish_time c =
     (if ec_AlertPVEExpectedFinishTime c = []
      then c\<lparr>ec_AlertPVEExpectedFinishTime := DefaultPVEExpectedFinishTime (emc_SendTime c)\<rparr> else c)"

text \<open>The table holds at most the row with key 1; \<open>secrets\<close> is the box of the store, if it has one.\<close>

definition GetEmailConfig :: "secret_box option \<Rightarrow> email_config option \<Rightarrow> sql_error + email_config" where
  "GetEmailConfig secrets row =
     (case row of
        None \<Rightarrow> Inr defaultEmailConfig
      | Some c \<Rightarrow>
          (case (case secrets of None \<Rightarrow> Some (emc_SMTPPass c) | Some b \<Rightarrow> Decrypt b (emc_SMTPPass c)) of
             None \<Rightarrow> Inl (Refused ''decrypt'')
           | Some pass \<Rightarrow> Inr (fill_finish_time (c\<lparr>emc_SMTPPass := pass\<rparr>))))"

text \<open>The column of the batch window is restricted to 0, 5 and 15 minutes.\<close>

definition upsertEmailConfig ::
  "secret_box option \<Rightarrow> string \<Rightarrow> email_config \<Rightarrow> email_config option \<Rightarrow> sql_error + email_config option" where
  "upsertEmailConfig secrets nonce c row =
     (let c = fill_finish_time c;
          smtpPassword = (case secrets of None \<Rightarrow> emc_SMTPPass c | Some b \<Rightarrow> Encrypt b nonce (emc_SMTPPass c))
      in if emc_AlertEmailBatchMinutes c \<notin> {0, 5, 15} then Inl (Refused ''alert_email_batch_minutes'')
         else Inr (Some (c\<lparr>emc_ID := 1, emc_SMTPPass := smtpPassword\<rparr>)))"

definition UpsertEmailConfig ::
  "secret_box option \<Rightarrow> string \<Rightarrow> email_config \<Rightarrow> email_config option \<Rightarrow> sql_error + email_config option" where
  "UpsertEmailConfig = upsertEmailConfig"

record email_delivery_status =
  eds_LastAttemptAt :: "time option"
  eds_LastSuccessAt :: "time option"
  eds_LastError :: string

definition GetEmailDeliveryStatus :: "email_delivery_status option \<Rightarrow> email_delivery_status option" where
  "GetEmailDeliveryStatus row = row"

definition RecordEmailDelivery :: "string option \<Rightarrow> time \<Rightarrow> email_delivery_status option \<Rightarrow> email_delivery_status option" where
  "RecordEmailDelivery err now row =
     (let lastError = (case err of None \<Rightarrow> [] | Some e \<Rightarrow> trim_space e)
      in if lastError = [] then
           Some \<lparr>eds_LastAttemptAt = Some (sql_now now), eds_LastSuccessAt = Some (sql_now now), eds_LastError = []\<rparr>
         else Some \<lparr>eds_LastAttemptAt = Some (sql_now now),
           eds_LastSuccessAt = Option.bind row eds_LastSuccessAt, eds_LastError = lastError\<rparr>)"

section \<open>One active schedule per machine\<close>

definition vm_configs_once :: "vm_config_table \<Rightarrow> bool" where
  "vm_configs_once t \<longleftrightarrow> (\<forall>c\<in>set (at_rows t). \<forall>d\<in>set (at_rows t).
     0 < vcr_ServerID c \<longrightarrow> \<not> vbc_IsDeleted c \<longrightarrow> config_of_server (vcr_ServerType c) (vcr_ServerID c) d \<longrightarrow>
     vbc_VMID c = vbc_VMID d \<longrightarrow> vbc_ID c = vbc_ID d)"

definition vm_configs_ok :: "vm_config_table \<Rightarrow> bool" where
  "vm_configs_ok t \<longleftrightarrow> at_ok vbc_ID t \<and> vm_configs_once t"

text \<open>An update that keeps the identity of a row and revives none keeps the invariant.\<close>

lemma vm_configs_ok_update:
  assumes "vm_configs_ok t" "\<And>c. vbc_ID (f c) = vbc_ID c" "\<And>c. vcr_ServerID (f c) = vcr_ServerID c"
    "\<And>c. vcr_ServerType (f c) = vcr_ServerType c" "\<And>c. vbc_VMID (f c) = vbc_VMID c"
    "\<And>c. vbc_IsDeleted c \<Longrightarrow> vbc_IsDeleted (f c)"
  shows "vm_configs_ok (at_update P f t)"
proof -
  let ?g = "\<lambda>c. if P c then f c else c"
  have g: "vbc_ID (?g c) = vbc_ID c" "vcr_ServerID (?g c) = vcr_ServerID c" "vcr_ServerType (?g c) = vcr_ServerType c"
    "vbc_VMID (?g c) = vbc_VMID c" "vbc_IsDeleted c \<Longrightarrow> vbc_IsDeleted (?g c)" for c using assms(2-6) by simp_all
  have "vbc_ID (?g c) = vbc_ID (?g d)" if "c \<in> set (at_rows t)" "d \<in> set (at_rows t)" "0 < vcr_ServerID (?g c)"
      "\<not> vbc_IsDeleted (?g c)" "config_of_server (vcr_ServerType (?g c)) (vcr_ServerID (?g c)) (?g d)"
      "vbc_VMID (?g c) = vbc_VMID (?g d)" for c d
    using assms(1) that unfolding vm_configs_ok_def vm_configs_once_def config_of_server_def g(1-4) by (metis g(5))
  then have "vm_configs_once (at_update P f t)"
    unfolding vm_configs_once_def at_rows_simps set_map by blast
  then show ?thesis using assms(1,2) by (simp add: vm_configs_ok_def at_ok_update)
qed

lemma new_vm_config_facts [simp]:
  "vbc_ID (new_vm_config ty s name req now i) = i" "vcr_ServerID (new_vm_config ty s name req now i) = s"
  "vcr_ServerType (new_vm_config ty s name req now i) = ty" "vbc_VMID (new_vm_config ty s name req now i) = vcq_VMID req"
  "\<not> vbc_IsDeleted (new_vm_config ty s name req now i)"
  by (simp_all add: new_vm_config_def)

lemma vm_configs_ok_insert:
  assumes ok: "vm_configs_ok t"
  shows "vm_configs_ok (snd (insert_vm_config ty s name req now t))"
proof (cases "s > 0 \<and> at_has (\<lambda>c. config_of_server ty s c \<and> vbc_VMID c = vcq_VMID req) t")
  case True
  then show ?thesis using ok by (simp add: insert_vm_config_def)
next
  case False
  let ?n = "new_vm_config ty s name req now (at_seq t + 1)"
  have fresh: "0 < s \<Longrightarrow> c \<in> set (at_rows t) \<Longrightarrow> config_of_server ty s c \<Longrightarrow> vbc_VMID c \<noteq> vcq_VMID req" for c
    using False by (auto simp: at_has_iff)
  have "vbc_ID c = vbc_ID d" if "c \<in> set (at_rows t) \<or> c = ?n" "d \<in> set (at_rows t) \<or> d = ?n" "0 < vcr_ServerID c"
      "\<not> vbc_IsDeleted c" "config_of_server (vcr_ServerType c) (vcr_ServerID c) d" "vbc_VMID c = vbc_VMID d" for c d
  proof (cases "c = ?n"; cases "d = ?n")
    assume "c \<noteq> ?n" "d \<noteq> ?n"
    then show ?thesis using that ok unfolding vm_configs_ok_def vm_configs_once_def by metis
  next
    assume "c = ?n" "d \<noteq> ?n"
    then show ?thesis using that fresh [of d] by simp
  next
    assume "c \<noteq> ?n" "d = ?n"
    then show ?thesis using that fresh [of c] by (simp add: config_of_server_def)
  qed simp
  then have "vm_configs_once (snd (at_insert (new_vm_config ty s name req now) t))"
    unfolding vm_configs_once_def at_rows_simps set_append by (metis Un_iff empty_iff insert_iff list.set)
  moreover have "at_ok vbc_ID (snd (at_insert (new_vm_config ty s name req now) t))"
    using ok by (intro at_ok_insert) (simp_all add: vm_configs_ok_def)
  ultimately show ?thesis using False by (auto simp: insert_vm_config_def vm_configs_ok_def case_prod_unfold)
qed

inductive vm_config_step :: "vm_config_table \<Rightarrow> vm_config_table \<Rightarrow> bool" where
  create: "vm_config_step t (snd (CreateVMBackupConfig name req now t))"
| create_for: "vm_config_step t (snd (CreateVMBackupConfigForServer ty s name req now t))"
| update: "vm_config_step t (UpdateVMBackupConfig name vm req t)"
| update_for: "vm_config_step t (UpdateVMBackupConfigForServer ty s vm req t)"
| toggle: "vm_config_step t (ToggleVMExclude name vm t)"
| toggle_for: "vm_config_step t (ToggleVMExcludeForServer ty s vm t)"
| delete: "vm_config_step t (DeleteVMBackupConfig name vm now t)"
| delete_for: "vm_config_step t (DeleteVMBackupConfigForServer ty s vm now t)"

lemma vm_config_step_ok: "vm_config_step t t' \<Longrightarrow> vm_configs_ok t \<Longrightarrow> vm_configs_ok t'"
  by (induction rule: vm_config_step.induct)
    (auto simp: CreateVMBackupConfig_def CreateVMBackupConfigForServer_def UpdateVMBackupConfig_def
      UpdateVMBackupConfigForServer_def ToggleVMExclude_def ToggleVMExcludeForServer_def DeleteVMBackupConfig_def
      DeleteVMBackupConfigForServer_def set_schedule_def intro!: vm_configs_ok_update vm_configs_ok_insert)

text \<open>Whatever happened to the table, a server never has two active schedules for one machine.\<close>

lemma vm_config_unique:
  assumes "vm_config_step\<^sup>*\<^sup>* at_empty t" "0 < s" "c \<in> set (ListVMBackupConfigsForServer ty s t)"
    "d \<in> set (ListVMBackupConfigsForServer ty s t)" "vbc_VMID c = vbc_VMID d"
  shows "c = d"
proof -
  have "vm_configs_ok at_empty" by (simp add: vm_configs_ok_def vm_configs_once_def at_rows_simps)
  with assms(1) have ok: "vm_configs_ok t" by (induction rule: rtranclp_induct) (auto intro: vm_config_step_ok)
  obtain c' d' where cd: "c = scanVMConfig c'" "d = scanVMConfig d'" "c' \<in> set (at_rows t)" "d' \<in> set (at_rows t)"
      "config_of_server ty s c'" "config_of_server ty s d'"
    using assms(3,4) by (auto simp: ListVMBackupConfigsForServer_def scanVMConfigs_def at_select_def)
  have vm: "vbc_VMID c' = vbc_VMID d'" using assms(5) unfolding cd(1,2) by (simp add: vm_backup_config.defs)
  have c': "vcr_ServerType c' = ty" "vcr_ServerID c' = s" "\<not> vbc_IsDeleted c'"
    using cd(5) by (simp_all add: config_of_server_def)
  have once: "vm_configs_once t" and ids: "at_ok vbc_ID t" using ok by (simp_all add: vm_configs_ok_def)
  have "vbc_ID c' = vbc_ID d'"
    using once [unfolded vm_configs_once_def, rule_format, OF cd(3,4)] assms(2) c' cd(6) vm by simp
  from at_ok_id_inj [OF ids cd(3,4) this] show ?thesis by (simp only: cd(1,2))
qed

section \<open>The configuration that is read back\<close>

lemma fill_finish_time_idem: "fill_finish_time (fill_finish_time c) = fill_finish_time c"
  by (auto simp: fill_finish_time_def DefaultPVEExpectedFinishTime_def format_clock_def Let_def split: prod.split)

lemma fill_finish_time_upd:
  "fill_finish_time ((fill_finish_time c)\<lparr>emc_ID := i, emc_SMTPPass := p\<rparr>) = (fill_finish_time c)\<lparr>emc_ID := i, emc_SMTPPass := p\<rparr>"
  by (auto simp: fill_finish_time_def DefaultPVEExpectedFinishTime_def format_clock_def Let_def split: prod.split)

lemma fill_finish_time_pass [simp]: "emc_SMTPPass (fill_finish_time c) = emc_SMTPPass c"
  by (simp add: fill_finish_time_def)

text \<open>What is saved is read back, the password included although the table holds it sealed, and an
  empty finish time is filled in.\<close>

lemma email_config_roundtrip:
  assumes "opens_sealed b" "\<not> IsEncrypted (emc_SMTPPass c)" "UpsertEmailConfig (Some b) nonce c row = Inr row'"
  shows "GetEmailConfig (Some b) row' = Inr ((fill_finish_time c)\<lparr>emc_ID := 1\<rparr>)"
proof -
  have "Decrypt b (Encrypt b nonce (emc_SMTPPass c)) = Some (emc_SMTPPass c)" using Decrypt_Encrypt assms(1,2) by blast
  moreover have "row' = Some ((fill_finish_time c)\<lparr>emc_ID := 1, emc_SMTPPass := Encrypt b nonce (emc_SMTPPass c)\<rparr>)"
    using assms(3) by (auto simp: UpsertEmailConfig_def upsertEmailConfig_def Let_def split: if_splits)
  moreover have "(fill_finish_time c)\<lparr>emc_ID := 1, emc_SMTPPass := emc_SMTPPass c\<rparr> = (fill_finish_time c)\<lparr>emc_ID := 1\<rparr>"
    by (intro email_config.equality) simp_all
  ultimately show ?thesis
    using fill_finish_time_upd [where c = c and i = 1 and p = "emc_SMTPPass c"] by (simp add: GetEmailConfig_def)
qed

end
