(* ===== verification/Monitor_Store.thy ===== *)
theory Monitor_Store
  imports Pve_Store Pbs_Store Windows_Store Config_Store Mute_Store
begin

text \<open>
  The tables about monitored servers together: \<open>store\<close> is what a \<open>Store\<close> of \<open>internal/store\<close> keeps of
  them. On it stand the permanent deletion of a server (\<open>internal/store/server_delete.go\<close>) and
  \<open>store_loader\<close>, the queries the alert engine loads its data with.
\<close>

section \<open>The tables\<close>

record store =
  st_secrets :: "secret_box option"
  st_keys :: key_table
  st_pve :: pve_db
  st_pbs :: pbs_db
  st_windows :: windows_db
  st_heartbeats :: heartbeat_table
  st_maintenance :: maintenance_table
  st_suppressions :: suppression_table
  st_vm_configs :: vm_config_table
  st_pve_configs :: pve_config_table
  st_pve_vm_configs :: pve_vm_config_table
  st_pbs_configs :: pbs_config_table
  st_windows_configs :: windows_config_table
  st_email :: "email_config option"

section \<open>Deleting a server for good\<close>

text \<open>SQLite's \<open>LIKE\<close>: \<open>%\<close> stands for any text, \<open>_\<close> for any character, and letters match in
  either case.\<close>

primrec sql_like :: "string \<Rightarrow> string \<Rightarrow> bool" where
  "sql_like [] s \<longleftrightarrow> s = []"
| "sql_like (p # ps) s \<longleftrightarrow>
     (if p = CHR ''%'' then list_ex (\<lambda>k. sql_like ps (drop k s)) [0..<Suc (length s)]
      else case s of [] \<Rightarrow> False | c # cs \<Rightarrow> (p = CHR ''_'' \<or> lower_char p = lower_char c) \<and> sql_like ps cs)"

definition deleteAlertSuppressionsForServer :: "string \<Rightarrow> int \<Rightarrow> store \<Rightarrow> store" where
  "deleteAlertSuppressionsForServer serverType serverID st =
     (let exact = ''%:'' @ serverType @ '':'' @ show_int serverID;
          prefix = exact @ '':%''
      in st\<lparr>st_suppressions := filter (\<lambda>(alertID, _). \<not> (sql_like exact alertID \<or> sql_like prefix alertID)) (st_suppressions st)\<rparr>)"

text \<open>The statements are in the order of the source, so that no row is deleted while another still
  refers to it.\<close>

definition hardDeletePVEByID :: "int \<Rightarrow> store \<Rightarrow> store" where
  "hardDeletePVEByID i st =
     (let mine = (\<lambda>r. pver_ServerID r = i);
          st1 = st\<lparr>st_heartbeats := at_delete (heartbeat_of ''pve'' i) (st_heartbeats st),
            st_maintenance := tbl_del (''pve'', i) (st_maintenance st),
            st_pve_vm_configs := at_delete (\<lambda>c. pvevc_ServerID c = i) (st_pve_vm_configs st),
            st_pve_configs := tbl_del i (st_pve_configs st),
            st_vm_configs := at_delete (\<lambda>c. vcr_ServerType c = ''pve'' \<and> vcr_ServerID c = i) (st_vm_configs st)\<rparr>;
          db0 = st_pve st1;
          db1 = db0\<lparr>pd_tasks := at_delete (\<lambda>t. pve_report_in mine db0 (pvet_ReportID t)) (pd_tasks db0)\<rparr>;
          db2 = db1\<lparr>pd_contents := at_delete (\<lambda>c. pve_storage_in mine db1 (pvesc_StorageID c)) (pd_contents db1)\<rparr>;
          db3 = db2\<lparr>pd_infos := at_delete (\<lambda>f. pve_storage_in mine db2 (pvesi_StorageID f)) (pd_infos db2)\<rparr>;
          db4 = db3\<lparr>pd_storages := at_delete (\<lambda>s. pve_report_in mine db3 (pvest_ReportID s)) (pd_storages db3)\<rparr>;
          db5 = db4\<lparr>pd_reports := at_delete mine (pd_reports db4)\<rparr>;
          db6 = db5\<lparr>pd_servers := at_delete (\<lambda>s. sr_ID s = i) (pd_servers db5)\<rparr>
      in deleteAlertSuppressionsForServer ''pve'' i (st1\<lparr>st_pve := db6\<rparr>))"

definition hardDeletePBSByID :: "int \<Rightarrow> store \<Rightarrow> store" where
  "hardDeletePBSByID i st =
     (let mine = (\<lambda>r. pbsr_ServerID r = i);
          st1 = st\<lparr>st_heartbeats := at_delete (heartbeat_of ''pbs'' i) (st_heartbeats st),
            st_maintenance := tbl_del (''pbs'', i) (st_maintenance st),
            st_pbs_configs := tbl_del i (st_pbs_configs st)\<rparr>;
          db0 = st_pbs st1;
          db1 = db0\<lparr>bd_tasks := at_delete (\<lambda>t. pbs_report_in mine db0 (pbst_ReportID t)) (bd_tasks db0)\<rparr>;
          db2 = db1\<lparr>bd_snapshots := at_delete (\<lambda>n. pbs_store_in mine db1 (pbsn_StoreID n)) (bd_snapshots db1)\<rparr>;
          db3 = db2\<lparr>bd_history := at_delete (\<lambda>h. pbs_store_in mine db2 (pbsh_StoreID h)) (bd_history db2)\<rparr>;
          db4 = db3\<lparr>bd_gcs := at_delete (\<lambda>g. pbs_store_in mine db3 (pbsg_StoreID g)) (bd_gcs db3)\<rparr>;
          db5 = db4\<lparr>bd_stores := at_delete (\<lambda>s. pbs_report_in mine db4 (pbsd_ReportID s)) (bd_stores db4)\<rparr>;
          db6 = db5\<lparr>bd_reports := at_delete mine (bd_reports db5)\<rparr>;
          db7 = db6\<lparr>bd_servers := at_delete (\<lambda>s. sr_ID s = i) (bd_servers db6)\<rparr>
      in deleteAlertSuppressionsForServer ''pbs'' i (st1\<lparr>st_pbs := db7\<rparr>))"

definition hardDeleteWindowsByID :: "int \<Rightarrow> store \<Rightarrow> store" where
  "hardDeleteWindowsByID i st =
     (let mine = (\<lambda>r. winr_ServerID r = i);
          st1 = st\<lparr>st_heartbeats := at_delete (heartbeat_of ''windows'' i) (st_heartbeats st),
            st_maintenance := tbl_del (''windows'', i) (st_maintenance st),
            st_windows_configs := tbl_del i (st_windows_configs st)\<rparr>;
          db0 = st_windows st1;
          db1 = db0\<lparr>wd_disks := at_delete (\<lambda>d. windows_report_in mine db0 (wind_ReportID d)) (wd_disks db0)\<rparr>;
          db2 = db1\<lparr>wd_reports := at_delete mine (wd_reports db1)\<rparr>;
          db3 = db2\<lparr>wd_servers := at_delete (\<lambda>s. sr_ID s = i) (wd_servers db2)\<rparr>
      in deleteAlertSuppressionsForServer ''windows'' i (st1\<lparr>st_windows := db3\<rparr>))"

text \<open>The ids of the servers a statement selects, in one list before anything is deleted.\<close>

definition serverIDs :: "('a server_row_scheme \<Rightarrow> bool) \<Rightarrow> 'a server_row_scheme auto_table \<Rightarrow> int list" where
  "serverIDs P t = map sr_ID (at_select P t)"

definition named :: "string \<Rightarrow> 'a server_row_scheme \<Rightarrow> bool" where "named name s \<longleftrightarrow> sr_Name s = name"
definition keyed :: "int \<Rightarrow> 'a server_row_scheme \<Rightarrow> bool" where "keyed key s \<longleftrightarrow> sr_APIKeyID s = Some key"
definition legacy :: "string \<Rightarrow> 'a server_row_scheme \<Rightarrow> bool" where
  "legacy name s \<longleftrightarrow> sr_Name s = name \<and> sr_APIKeyID s = None"

definition delete_all :: "(int \<Rightarrow> store \<Rightarrow> store) \<Rightarrow> int list \<Rightarrow> store \<Rightarrow> store" where
  "delete_all delete ids st = foldl (\<lambda>st i. delete i st) st ids"

definition hardDeletePVE :: "string \<Rightarrow> store \<Rightarrow> store" where
  "hardDeletePVE name st = delete_all hardDeletePVEByID (serverIDs (named name) (pd_servers (st_pve st))) st"

definition hardDeletePBS :: "string \<Rightarrow> store \<Rightarrow> store" where
  "hardDeletePBS name st = delete_all hardDeletePBSByID (serverIDs (named name) (bd_servers (st_pbs st))) st"

definition hardDeleteWindows :: "string \<Rightarrow> store \<Rightarrow> store" where
  "hardDeleteWindows name st = delete_all hardDeleteWindowsByID (serverIDs (named name) (wd_servers (st_windows st))) st"

definition hardDeletePVEByAPIKey :: "int \<Rightarrow> store \<Rightarrow> store" where
  "hardDeletePVEByAPIKey key st = delete_all hardDeletePVEByID (serverIDs (keyed key) (pd_servers (st_pve st))) st"

definition hardDeletePBSByAPIKey :: "int \<Rightarrow> store \<Rightarrow> store" where
  "hardDeletePBSByAPIKey key st = delete_all hardDeletePBSByID (serverIDs (keyed key) (bd_servers (st_pbs st))) st"

definition hardDeleteWindowsByAPIKey :: "int \<Rightarrow> store \<Rightarrow> store" where
  "hardDeleteWindowsByAPIKey key st =
     delete_all hardDeleteWindowsByID (serverIDs (keyed key) (wd_servers (st_windows st))) st"

definition hardDeleteLegacyPVE :: "string \<Rightarrow> store \<Rightarrow> store" where
  "hardDeleteLegacyPVE name st = delete_all hardDeletePVEByID (serverIDs (legacy name) (pd_servers (st_pve st))) st"

definition hardDeleteLegacyPBS :: "string \<Rightarrow> store \<Rightarrow> store" where
  "hardDeleteLegacyPBS name st = delete_all hardDeletePBSByID (serverIDs (legacy name) (bd_servers (st_pbs st))) st"

definition hardDeleteLegacyWindows :: "string \<Rightarrow> store \<Rightarrow> store" where
  "hardDeleteLegacyWindows name st =
     delete_all hardDeleteWindowsByID (serverIDs (legacy name) (wd_servers (st_windows st))) st"

definition HardDeleteServerData :: "string \<Rightarrow> store \<Rightarrow> store" where
  "HardDeleteServerData name st = hardDeleteWindows name (hardDeletePBS name (hardDeletePVE name st))"

definition HardDeleteServerDataForAPIKey :: "int \<Rightarrow> string \<Rightarrow> store \<Rightarrow> store" where
  "HardDeleteServerDataForAPIKey key fallbackName st =
     (let st1 = hardDeleteWindowsByAPIKey key (hardDeletePBSByAPIKey key (hardDeletePVEByAPIKey key st))
      in if fallbackName \<noteq> []
         then hardDeleteLegacyWindows fallbackName (hardDeleteLegacyPBS fallbackName (hardDeleteLegacyPVE fallbackName st1))
         else st1)"

section \<open>What the alert engine loads\<close>

definition load_error :: "sql_error + 'a \<Rightarrow> alert_error + 'a" where
  "load_error r = (case r of
     Inl NoRows \<Rightarrow> Inl (StoreError ''no rows'')
   | Inl (NotUnique s) \<Rightarrow> Inl (StoreError s)
   | Inl (NoParent s) \<Rightarrow> Inl (StoreError s)
   | Inl (NullScan s) \<Rightarrow> Inl (StoreError s)
   | Inl (Refused s) \<Rightarrow> Inl (StoreError s)
   | Inr x \<Rightarrow> Inr x)"

definition store_loader :: "store \<Rightarrow> alert_loader" where
  "store_loader st =
     \<lparr>q_GetEmailConfig = load_error (map_sum id email_thresholds.truncate (GetEmailConfig (st_secrets st) (st_email st))),
      q_ListPVEServers = load_error (ListPVEServers (st_keys st) (pd_servers (st_pve st))),
      q_ListPBSServers = load_error (ListPBSServers (st_keys st) (bd_servers (st_pbs st))),
      q_ListWindowsServers = load_error (ListWindowsServers (st_keys st) (wd_servers (st_windows st))),
      q_GetLatestPVEReports = Inr (GetLatestPVEReports (st_pve st)),
      q_GetLatestPBSReports = Inr (GetLatestPBSReports (st_pbs st)),
      q_GetRecentWindowsReportsByServer = (\<lambda>ids n. Inr (GetRecentWindowsReportsByServer ids n (st_windows st))),
      q_ListPVEVMBackupConfigsByServer = Inr (ListPVEVMBackupConfigsByServer (pd_servers (st_pve st)) (st_vm_configs st)),
      q_ListServerHeartbeatsByType = (\<lambda>ty. Inr (ListServerHeartbeatsByType ty (st_heartbeats st))),
      q_GetPVEBackupTasksForReports = (\<lambda>ids. Inr (GetPVEBackupTasksForReports ids (st_pve st))),
      q_GetPVEStoragesForReports = (\<lambda>ids. Inr (GetPVEStoragesForReports ids (st_pve st))),
      q_GetPVEStorageInfoForStorages = (\<lambda>ids. Inr (GetPVEStorageInfoForStorages ids (st_pve st))),
      q_GetPBSStoresForReports = (\<lambda>ids. Inr (GetPBSStoresForReports ids (st_pbs st))),
      q_GetPBSTasksForReports = (\<lambda>ids. Inr (GetPBSTasksForReports ids (st_pbs st))),
      q_GetPBSSnapshotsForStores = (\<lambda>ids. Inr (GetPBSSnapshotsForStores ids (st_pbs st))),
      q_GetWindowsDisksForReports = (\<lambda>ids. Inr (GetWindowsDisksForReports ids (st_windows st))),
      q_ListPVEAlertConfigs = Inr (ListPVEAlertConfigs (st_pve_configs st)),
      q_ListPVEVMAlertConfigs = Inr (ListPVEVMAlertConfigs (st_pve_vm_configs st)),
      q_ListPBSAlertConfigs = Inr (ListPBSAlertConfigs (st_pbs_configs st)),
      q_ListWindowsAlertConfigs = Inr (ListWindowsAlertConfigs (st_windows_configs st))\<rparr>"

section \<open>What a deletion removes\<close>

definition store_ok :: "store \<Rightarrow> bool" where
  "store_ok st \<longleftrightarrow> pve_ok (st_pve st) \<and> pbs_ok (st_pbs st) \<and> windows_ok (st_windows st)"

lemma at_delete_twice: "at_delete P (at_delete Q t) = at_delete (\<lambda>r. P r \<or> Q r) t"
  by (simp add: at_delete_def conj_commute)

definition pve_drop :: "int \<Rightarrow> pve_db \<Rightarrow> pve_db" where
  "pve_drop i db = (without_pve_reports (\<lambda>r. pver_ServerID r = i) db)\<lparr>pd_servers := at_delete (\<lambda>s. sr_ID s = i) (pd_servers db)\<rparr>"

definition pbs_drop :: "int \<Rightarrow> pbs_db \<Rightarrow> pbs_db" where
  "pbs_drop i db = (without_pbs_reports (\<lambda>r. pbsr_ServerID r = i) db)\<lparr>bd_servers := at_delete (\<lambda>s. sr_ID s = i) (bd_servers db)\<rparr>"

definition windows_drop :: "int \<Rightarrow> windows_db \<Rightarrow> windows_db" where
  "windows_drop i db =
     (without_windows_reports (\<lambda>r. winr_ServerID r = i) db)\<lparr>wd_servers := at_delete (\<lambda>s. sr_ID s = i) (wd_servers db)\<rparr>"

lemma pve_drop_log:
  assumes "pve_ok db"
  shows "pve_ok (pve_drop i db)" "pve_log (pve_drop i db) = filter (\<lambda>e. le_server e \<noteq> i) (pve_log db)"
proof -
  let ?P = "\<lambda>r. pver_ServerID r = i"
  have same: "pve_views (pve_drop i db) = pve_views (without_pve_reports ?P db)"
    by (simp add: pve_drop_def pve_views_def report_view_def [abs_def] storages_view_def tasks_view_def)
  have "pve_views (without_pve_reports ?P db) = filter (\<lambda>v. \<not> pv_ServerID v = i) (pve_views db)"
    using assms by (intro without_pve_views) (simp_all add: pve_ok_def report_view_def)
  then show "pve_log (pve_drop i db) = filter (\<lambda>e. le_server e \<noteq> i) (pve_log db)"
    by (simp add: pve_log_def same filter_map comp_def pve_entry_def)
  have "refs_in pver_ServerID sr_ID (at_delete ?P (pd_reports db)) (at_delete (\<lambda>s. sr_ID s = i) (pd_servers db))"
    using assms by (intro refs_in_delete) (auto simp: pve_ok_def pve_refs_ok_def)
  then show "pve_ok (pve_drop i db)" using without_pve_ok [OF assms, of ?P] assms
    by (simp add: pve_ok_def pve_drop_def pve_ids_ok_def pve_refs_ok_def pve_tokens_ok_def without_pve_reports_def at_ok_delete)
qed

lemma pbs_drop_log:
  assumes "pbs_ok db"
  shows "pbs_ok (pbs_drop i db)" "pbs_log (pbs_drop i db) = filter (\<lambda>e. le_server e \<noteq> i) (pbs_log db)"
proof -
  let ?P = "\<lambda>r. pbsr_ServerID r = i"
  have same: "pbs_log (pbs_drop i db) = pbs_log (without_pbs_reports ?P db)"
    by (simp add: pbs_drop_def pbs_log_def pbs_entry_def [abs_def] pbs_stores_view_def pbs_tasks_view_def
        pbs_store_view_def [abs_def] GetPBSStoresForReport_def GetPBSHistory_def GetPBSGCStatus_def)
  have "pbs_log (without_pbs_reports ?P db) = filter (\<lambda>e. \<not> le_server e = i) (pbs_log db)"
    using assms by (intro without_pbs_log) (simp_all add: pbs_ok_def pbs_entry_def)
  then show "pbs_log (pbs_drop i db) = filter (\<lambda>e. le_server e \<noteq> i) (pbs_log db)" by (simp add: same)
  have "refs_in pbsr_ServerID sr_ID (at_delete ?P (bd_reports db)) (at_delete (\<lambda>s. sr_ID s = i) (bd_servers db))"
    using assms by (intro refs_in_delete) (auto simp: pbs_ok_def pbs_refs_ok_def)
  then show "pbs_ok (pbs_drop i db)" using without_pbs_ok [OF assms, of ?P] assms
    by (simp add: pbs_ok_def pbs_drop_def pbs_ids_ok_def pbs_refs_ok_def without_pbs_reports_def at_ok_delete)
qed

lemma windows_drop_log:
  assumes "windows_ok db"
  shows "windows_ok (windows_drop i db)" "windows_log (windows_drop i db) = filter (\<lambda>e. le_server e \<noteq> i) (windows_log db)"
proof -
  let ?P = "\<lambda>r. winr_ServerID r = i"
  have same: "windows_log (windows_drop i db) = windows_log (without_windows_reports ?P db)"
    by (simp add: windows_drop_def windows_log_def windows_entry_def [abs_def])
  have "windows_log (without_windows_reports ?P db) = filter (\<lambda>e. \<not> le_server e = i) (windows_log db)"
    using assms by (intro without_windows_log) (simp_all add: windows_entry_def)
  then show "windows_log (windows_drop i db) = filter (\<lambda>e. le_server e \<noteq> i) (windows_log db)" by (simp add: same)
  have "refs_in winr_ServerID sr_ID (at_delete ?P (wd_reports db)) (at_delete (\<lambda>s. sr_ID s = i) (wd_servers db))"
    using assms by (intro refs_in_delete) (auto simp: windows_ok_def)
  then show "windows_ok (windows_drop i db)" using without_windows_ok [OF assms, of ?P] assms
    by (simp add: windows_ok_def windows_drop_def without_windows_reports_def at_ok_delete)
qed

text \<open>The three deletions by id, table by table.\<close>

lemma hardDelete_tables:
  "st_pve (hardDeletePVEByID i st) = pve_drop i (st_pve st)" "st_pbs (hardDeletePVEByID i st) = st_pbs st"
  "st_windows (hardDeletePVEByID i st) = st_windows st" "st_keys (hardDeletePVEByID i st) = st_keys st"
  "st_heartbeats (hardDeletePVEByID i st) = at_delete (heartbeat_of ''pve'' i) (st_heartbeats st)"
  "st_pve (hardDeletePBSByID i st) = st_pve st" "st_pbs (hardDeletePBSByID i st) = pbs_drop i (st_pbs st)"
  "st_windows (hardDeletePBSByID i st) = st_windows st" "st_keys (hardDeletePBSByID i st) = st_keys st"
  "st_heartbeats (hardDeletePBSByID i st) = at_delete (heartbeat_of ''pbs'' i) (st_heartbeats st)"
  "st_pve (hardDeleteWindowsByID i st) = st_pve st" "st_pbs (hardDeleteWindowsByID i st) = st_pbs st"
  "st_windows (hardDeleteWindowsByID i st) = windows_drop i (st_windows st)" "st_keys (hardDeleteWindowsByID i st) = st_keys st"
  "st_heartbeats (hardDeleteWindowsByID i st) = at_delete (heartbeat_of ''windows'' i) (st_heartbeats st)"
  by (simp_all add: hardDeletePVEByID_def hardDeletePBSByID_def hardDeleteWindowsByID_def Let_def
      deleteAlertSuppressionsForServer_def pve_drop_def without_pve_reports_def pve_storage_in_def pve_report_in_def
      pbs_drop_def without_pbs_reports_def pbs_store_in_def pbs_report_in_def windows_drop_def without_windows_reports_def
      windows_report_in_def)

lemma delete_all_field:
  assumes "\<And>i st. field (delete i st) = F i (field st)"
  shows "field (delete_all delete ids st) = foldl (\<lambda>x i. F i x) (field st) ids"
  unfolding delete_all_def using assms by (induction ids arbitrary: st) simp_all

lemma delete_all_same:
  assumes "\<And>i st. field (delete i st) = field st"
  shows "field (delete_all delete ids st) = field st"
  unfolding delete_all_def using assms by (induction ids arbitrary: st) simp_all

lemma foldl_at_delete: "foldl (\<lambda>t i. at_delete (P i) t) t ids = at_delete (\<lambda>r. \<exists>i\<in>set ids. P i r) t"
proof (induction ids arbitrary: t)
  case Nil
  show ?case by (simp add: at_delete_def)
next
  case (Cons i ids)
  show ?case unfolding foldl_Cons Cons.IH at_delete_twice by (rule arg_cong2 [where f = at_delete]) auto
qed

lemma pve_drop_all:
  "pve_ok db \<Longrightarrow> pve_ok (foldl (\<lambda>db i. pve_drop i db) db ids) \<and>
     pve_log (foldl (\<lambda>db i. pve_drop i db) db ids) = filter (\<lambda>e. le_server e \<notin> set ids) (pve_log db) \<and>
     pd_servers (foldl (\<lambda>db i. pve_drop i db) db ids) = at_delete (\<lambda>s. sr_ID s \<in> set ids) (pd_servers db)"
proof (induction ids arbitrary: db)
  case Nil
  then show ?case by (simp add: at_delete_def)
next
  case (Cons i ids)
  show ?case using Cons.IH [OF pve_drop_log(1) [OF Cons.prems], of i] pve_drop_log(2) [OF Cons.prems, of i]
    by (simp add: pve_drop_def at_delete_twice disj_commute conj_commute)
qed

lemma pbs_drop_all:
  "pbs_ok db \<Longrightarrow> pbs_ok (foldl (\<lambda>db i. pbs_drop i db) db ids) \<and>
     pbs_log (foldl (\<lambda>db i. pbs_drop i db) db ids) = filter (\<lambda>e. le_server e \<notin> set ids) (pbs_log db) \<and>
     bd_servers (foldl (\<lambda>db i. pbs_drop i db) db ids) = at_delete (\<lambda>s. sr_ID s \<in> set ids) (bd_servers db)"
proof (induction ids arbitrary: db)
  case Nil
  then show ?case by (simp add: at_delete_def)
next
  case (Cons i ids)
  show ?case using Cons.IH [OF pbs_drop_log(1) [OF Cons.prems], of i] pbs_drop_log(2) [OF Cons.prems, of i]
    by (simp add: pbs_drop_def at_delete_twice disj_commute conj_commute)
qed

lemma windows_drop_all:
  "windows_ok db \<Longrightarrow> windows_ok (foldl (\<lambda>db i. windows_drop i db) db ids) \<and>
     windows_log (foldl (\<lambda>db i. windows_drop i db) db ids) = filter (\<lambda>e. le_server e \<notin> set ids) (windows_log db) \<and>
     wd_servers (foldl (\<lambda>db i. windows_drop i db) db ids) = at_delete (\<lambda>s. sr_ID s \<in> set ids) (wd_servers db)"
proof (induction ids arbitrary: db)
  case Nil
  then show ?case by (simp add: at_delete_def)
next
  case (Cons i ids)
  show ?case using Cons.IH [OF windows_drop_log(1) [OF Cons.prems], of i] windows_drop_log(2) [OF Cons.prems, of i]
    by (simp add: windows_drop_def at_delete_twice disj_commute conj_commute)
qed

text \<open>A deletion for a key takes the servers of the key and the servers of the name that no key owns.\<close>

definition dies :: "int \<Rightarrow> string \<Rightarrow> 'a server_row_scheme \<Rightarrow> bool" where
  "dies key fallbackName s \<longleftrightarrow> keyed key s \<or> (fallbackName \<noteq> [] \<and> legacy fallbackName s)"

lemma serverIDs_iff: "at_ok sr_ID t \<Longrightarrow> s \<in> set (at_rows t) \<Longrightarrow> sr_ID s \<in> set (serverIDs P t) \<longleftrightarrow> P s"
  unfolding serverIDs_def at_select_def by (auto dest: at_ok_id_inj)

lemma at_delete_cong: "(\<And>r. r \<in> set (at_rows t) \<Longrightarrow> P r \<longleftrightarrow> Q r) \<Longrightarrow> at_delete P t = at_delete Q t"
  unfolding at_delete_def by (metis (mono_tags, lifting) filter_cong)

lemma two_deletions:
  assumes "at_ok sr_ID t" and t1: "t1 = at_delete (\<lambda>s. sr_ID s \<in> set (serverIDs (keyed key) t)) t"
  shows "at_delete (\<lambda>s. sr_ID s \<in> set (serverIDs (legacy name) t1)) t1 = at_delete (\<lambda>s. keyed key s \<or> legacy name s) t"
    and "set (serverIDs (keyed key) t) \<union> set (serverIDs (legacy name) t1) = set (serverIDs (\<lambda>s. keyed key s \<or> legacy name s) t)"
    and "t1 = at_delete (keyed key) t"
proof -
  show eq: "t1 = at_delete (keyed key) t" unfolding t1 by (intro at_delete_cong) (simp add: serverIDs_iff assms(1))
  have leg: "serverIDs (legacy name) t1 = serverIDs (legacy name) t"
    unfolding eq serverIDs_def at_select_def at_rows_simps filter_filter
    by (intro arg_cong [where f = "map sr_ID"] filter_cong) (auto simp: keyed_def legacy_def)
  show "at_delete (\<lambda>s. sr_ID s \<in> set (serverIDs (legacy name) t1)) t1 = at_delete (\<lambda>s. keyed key s \<or> legacy name s) t"
    unfolding leg unfolding eq at_delete_twice
    by (intro at_delete_cong) (auto simp: serverIDs_iff assms(1))
  show "set (serverIDs (keyed key) t) \<union> set (serverIDs (legacy name) t1) = set (serverIDs (\<lambda>s. keyed key s \<or> legacy name s) t)"
    unfolding leg by (auto simp: serverIDs_def at_select_def)
qed

lemma filter_out_twice: "A \<union> B = C \<Longrightarrow> filter (\<lambda>e. f e \<notin> B) (filter (\<lambda>e. f e \<notin> A) xs) = filter (\<lambda>e. f e \<notin> C) xs"
  by (auto intro!: filter_cong)

lemma pve_deletions:
  assumes "pve_ok db"
    and db1: "db1 = foldl (\<lambda>db i. pve_drop i db) db (serverIDs (keyed key) (pd_servers db))"
    and db2: "db2 = (if name \<noteq> [] then foldl (\<lambda>db i. pve_drop i db) db1 (serverIDs (legacy name) (pd_servers db1)) else db1)"
  shows "pve_ok db2 \<and> pd_servers db2 = at_delete (dies key name) (pd_servers db) \<and>
    pve_log db2 = filter (\<lambda>e. le_server e \<notin> set (serverIDs (dies key name) (pd_servers db))) (pve_log db)"
proof -
  have ids: "at_ok sr_ID (pd_servers db)" using assms(1) by (simp add: pve_ok_def pve_ids_ok_def)
  note one = pve_drop_all [OF assms(1), of "serverIDs (keyed key) (pd_servers db)", folded db1]
  note two = two_deletions [OF ids one [THEN conjunct2, THEN conjunct2]]
  show ?thesis
  proof (cases "name = []")
    case True
    then show ?thesis using one two(3) by (simp add: db2 dies_def [abs_def])
  next
    case False
    have "filter (\<lambda>e. le_server e \<notin> set (serverIDs (legacy name) (pd_servers db1))) (pve_log db1) =
        filter (\<lambda>e. le_server e \<notin> set (serverIDs (\<lambda>s. keyed key s \<or> legacy name s) (pd_servers db))) (pve_log db)"
      unfolding one [THEN conjunct2, THEN conjunct1] by (rule filter_out_twice [OF two(2)])
    then show ?thesis
      using False pve_drop_all [OF one [THEN conjunct1], of "serverIDs (legacy name) (pd_servers db1)"] two(1) [of name]
      by (simp add: db2 dies_def [abs_def])
  qed
qed

lemma pbs_deletions:
  assumes "pbs_ok db"
    and db1: "db1 = foldl (\<lambda>db i. pbs_drop i db) db (serverIDs (keyed key) (bd_servers db))"
    and db2: "db2 = (if name \<noteq> [] then foldl (\<lambda>db i. pbs_drop i db) db1 (serverIDs (legacy name) (bd_servers db1)) else db1)"
  shows "pbs_ok db2 \<and> bd_servers db2 = at_delete (dies key name) (bd_servers db) \<and>
    pbs_log db2 = filter (\<lambda>e. le_server e \<notin> set (serverIDs (dies key name) (bd_servers db))) (pbs_log db)"
proof -
  have ids: "at_ok sr_ID (bd_servers db)" using assms(1) by (simp add: pbs_ok_def pbs_ids_ok_def)
  note one = pbs_drop_all [OF assms(1), of "serverIDs (keyed key) (bd_servers db)", folded db1]
  note two = two_deletions [OF ids one [THEN conjunct2, THEN conjunct2]]
  show ?thesis
  proof (cases "name = []")
    case True
    then show ?thesis using one two(3) by (simp add: db2 dies_def [abs_def])
  next
    case False
    have "filter (\<lambda>e. le_server e \<notin> set (serverIDs (legacy name) (bd_servers db1))) (pbs_log db1) =
        filter (\<lambda>e. le_server e \<notin> set (serverIDs (\<lambda>s. keyed key s \<or> legacy name s) (bd_servers db))) (pbs_log db)"
      unfolding one [THEN conjunct2, THEN conjunct1] by (rule filter_out_twice [OF two(2)])
    then show ?thesis
      using False pbs_drop_all [OF one [THEN conjunct1], of "serverIDs (legacy name) (bd_servers db1)"] two(1) [of name]
      by (simp add: db2 dies_def [abs_def])
  qed
qed

lemma windows_deletions:
  assumes "windows_ok db"
    and db1: "db1 = foldl (\<lambda>db i. windows_drop i db) db (serverIDs (keyed key) (wd_servers db))"
    and db2: "db2 = (if name \<noteq> [] then foldl (\<lambda>db i. windows_drop i db) db1 (serverIDs (legacy name) (wd_servers db1)) else db1)"
  shows "windows_ok db2 \<and> wd_servers db2 = at_delete (dies key name) (wd_servers db) \<and>
    windows_log db2 = filter (\<lambda>e. le_server e \<notin> set (serverIDs (dies key name) (wd_servers db))) (windows_log db)"
proof -
  have ids: "at_ok sr_ID (wd_servers db)" using assms(1) by (simp add: windows_ok_def)
  note one = windows_drop_all [OF assms(1), of "serverIDs (keyed key) (wd_servers db)", folded db1]
  note two = two_deletions [OF ids one [THEN conjunct2, THEN conjunct2]]
  show ?thesis
  proof (cases "name = []")
    case True
    then show ?thesis using one two(3) by (simp add: db2 dies_def [abs_def])
  next
    case False
    have "filter (\<lambda>e. le_server e \<notin> set (serverIDs (legacy name) (wd_servers db1))) (windows_log db1) =
        filter (\<lambda>e. le_server e \<notin> set (serverIDs (\<lambda>s. keyed key s \<or> legacy name s) (wd_servers db))) (windows_log db)"
      unfolding one [THEN conjunct2, THEN conjunct1] by (rule filter_out_twice [OF two(2)])
    then show ?thesis
      using False windows_drop_all [OF one [THEN conjunct1], of "serverIDs (legacy name) (wd_servers db1)"] two(1) [of name]
      by (simp add: db2 dies_def [abs_def])
  qed
qed

text \<open>The transaction, table by table.\<close>

lemma hardDelete_all:
  "st_pve (delete_all hardDeletePVEByID ids st) = foldl (\<lambda>db i. pve_drop i db) (st_pve st) ids"
  "st_pbs (delete_all hardDeletePVEByID ids st) = st_pbs st" "st_windows (delete_all hardDeletePVEByID ids st) = st_windows st"
  "st_pve (delete_all hardDeletePBSByID ids st) = st_pve st" "st_windows (delete_all hardDeletePBSByID ids st) = st_windows st"
  "st_pbs (delete_all hardDeletePBSByID ids st) = foldl (\<lambda>db i. pbs_drop i db) (st_pbs st) ids"
  "st_pve (delete_all hardDeleteWindowsByID ids st) = st_pve st" "st_pbs (delete_all hardDeleteWindowsByID ids st) = st_pbs st"
  "st_windows (delete_all hardDeleteWindowsByID ids st) = foldl (\<lambda>db i. windows_drop i db) (st_windows st) ids"
  "st_keys (delete_all hardDeletePVEByID ids st) = st_keys st" "st_keys (delete_all hardDeletePBSByID ids st) = st_keys st"
  "st_keys (delete_all hardDeleteWindowsByID ids st) = st_keys st"
  by (intro delete_all_field delete_all_same hardDelete_tables)+

lemma HardDelete_tables:
  fixes st key name
  defines "st' \<equiv> HardDeleteServerDataForAPIKey key name st"
  defines "pve1 \<equiv> foldl (\<lambda>db i. pve_drop i db) (st_pve st) (serverIDs (keyed key) (pd_servers (st_pve st)))"
  defines "pbs1 \<equiv> foldl (\<lambda>db i. pbs_drop i db) (st_pbs st) (serverIDs (keyed key) (bd_servers (st_pbs st)))"
  defines "win1 \<equiv> foldl (\<lambda>db i. windows_drop i db) (st_windows st) (serverIDs (keyed key) (wd_servers (st_windows st)))"
  shows "st_pve st' = (if name \<noteq> [] then foldl (\<lambda>db i. pve_drop i db) pve1 (serverIDs (legacy name) (pd_servers pve1)) else pve1)"
    and "st_pbs st' = (if name \<noteq> [] then foldl (\<lambda>db i. pbs_drop i db) pbs1 (serverIDs (legacy name) (bd_servers pbs1)) else pbs1)"
    and "st_windows st' = (if name \<noteq> [] then foldl (\<lambda>db i. windows_drop i db) win1 (serverIDs (legacy name) (wd_servers win1)) else win1)"
    and "st_keys st' = st_keys st"
  by (simp_all add: st'_def pve1_def pbs1_def win1_def HardDeleteServerDataForAPIKey_def Let_def hardDeletePVEByAPIKey_def
      hardDeletePBSByAPIKey_def hardDeleteWindowsByAPIKey_def hardDeleteLegacyPVE_def hardDeleteLegacyPBS_def
      hardDeleteLegacyWindows_def hardDelete_all)

text \<open>C36: deleting the data of an API key takes exactly the servers of the key and, of the servers with
  the fallback name, those no key owns: of every kind the other servers and all their reports stay as
  they are, the tables keep their invariants, and no report of a deleted server is left.\<close>

theorem HardDeleteServerDataForAPIKey_exact:
  assumes "store_ok st"
  shows "store_ok (HardDeleteServerDataForAPIKey key name st) \<and>
    pd_servers (st_pve (HardDeleteServerDataForAPIKey key name st)) = at_delete (dies key name) (pd_servers (st_pve st)) \<and>
    bd_servers (st_pbs (HardDeleteServerDataForAPIKey key name st)) = at_delete (dies key name) (bd_servers (st_pbs st)) \<and>
    wd_servers (st_windows (HardDeleteServerDataForAPIKey key name st)) = at_delete (dies key name) (wd_servers (st_windows st)) \<and>
    pve_log (st_pve (HardDeleteServerDataForAPIKey key name st)) =
      filter (\<lambda>e. le_server e \<notin> set (serverIDs (dies key name) (pd_servers (st_pve st)))) (pve_log (st_pve st)) \<and>
    pbs_log (st_pbs (HardDeleteServerDataForAPIKey key name st)) =
      filter (\<lambda>e. le_server e \<notin> set (serverIDs (dies key name) (bd_servers (st_pbs st)))) (pbs_log (st_pbs st)) \<and>
    windows_log (st_windows (HardDeleteServerDataForAPIKey key name st)) =
      filter (\<lambda>e. le_server e \<notin> set (serverIDs (dies key name) (wd_servers (st_windows st)))) (windows_log (st_windows st))"
  using assms pve_deletions [OF _ refl HardDelete_tables(1), of st key name]
    pbs_deletions [OF _ refl HardDelete_tables(2), of st key name]
    windows_deletions [OF _ refl HardDelete_tables(3), of st key name]
  unfolding store_ok_def by blast

text \<open>Two keys whose servers have one name, the first with a stored report.\<close>

definition sample_two_keys :: pve_db where
  "sample_two_keys = sample_pve_db\<lparr>pd_servers := snd (UpsertPVEServerForAPIKey 8 sample_facts 2 (pd_servers sample_pve_db))\<rparr>"

definition sample_store :: store where
  "sample_store =
     \<lparr>st_secrets = None, st_keys = at_empty, st_pve = sample_two_keys, st_pbs = empty_pbs_db, st_windows = empty_windows_db,
      st_heartbeats = at_empty, st_maintenance = [], st_suppressions = [], st_vm_configs = at_empty, st_pve_configs = [],
      st_pve_vm_configs = at_empty, st_pbs_configs = [], st_windows_configs = [], st_email = None\<rparr>"

lemma sample_store_ok: "store_ok sample_store"
proof -
  have "at_ok sr_ID (pd_servers sample_two_keys)" by code_simp
  then show ?thesis
    by (simp add: store_ok_def sample_store_def sample_two_keys_def sample_pve_db_def pve_ok_def pve_ids_ok_def
        pve_refs_ok_def pve_tokens_ok_def empty_pve_db_def pbs_ok_def pbs_ids_ok_def pbs_refs_ok_def empty_pbs_db_def
        windows_ok_def empty_windows_db_def)
qed

theorem HardDeleteServerDataForAPIKey_exact_witness:
  "map sr_APIKeyID (at_rows (pd_servers (st_pve (HardDeleteServerDataForAPIKey 7 (sf_Name sample_facts) sample_store)))) = [Some 8]"
proof -
  have "map sr_APIKeyID (at_rows (at_delete (dies 7 (sf_Name sample_facts)) (pd_servers (st_pve sample_store)))) = [Some 8]"
    by code_simp
  then show ?thesis
    using HardDeleteServerDataForAPIKey_exact [OF sample_store_ok, of 7 "sf_Name sample_facts"] by simp
qed

end
