(* ===== verification/Alert_Pipeline.thy ===== *)
theory Alert_Pipeline
  imports Monitor_Store Alert_Engine
begin

text \<open>
  The way from a posted report to an alert: what \<open>InsertPVEReportData\<close> stores is what the alert
  engine loads through \<open>store_loader\<close>, and a backup that failed becomes an alert of the next run.
\<close>

section \<open>The latest reports\<close>

lemma find_sole:
  assumes "x \<in> set xs" "P x" "\<And>y. y \<in> set xs \<Longrightarrow> P y \<Longrightarrow> y = x"
  shows "List.find P xs = Some x"
proof (cases "List.find P xs")
  case None
  then show ?thesis using assms(1,2) by (simp add: find_None_iff)
next
  case (Some y)
  then have "y \<in> set xs" "P y" by (auto simp: find_Some_iff)
  then show ?thesis using Some assms(3) by blast
qed

lemma pve_reports_of_rows:
  "set (pve_reports_of s db) = {r \<in> set (at_rows (pd_reports db)). pver_ServerID r = s}"
  by (auto simp: pve_reports_of_def at_select_def)

text \<open>The query for all servers finds for each what the query for one server finds.\<close>

lemma GetLatestPVEReports_agrees:
  assumes "pve_ok db"
  shows "map_of (GetLatestPVEReports db) s =
    (case GetLatestPVEReport s db of Inl _ \<Rightarrow> None | Inr r \<Rightarrow> Some r)"
proof -
  let ?latest = "\<lambda>s. case pve_reports_of s db of [] \<Rightarrow> None | l # _ \<Rightarrow> Some l"
  let ?sel = "at_select (\<lambda>r. map_option pver_ID (?latest (pver_ServerID r)) = Some (pver_ID r)) (pd_reports db)"
  have ids: "at_ok pver_ID (pd_reports db)" using assms by (simp add: pve_ok_def pve_ids_ok_def)
  have get: "map_of (GetLatestPVEReports db) s = List.find (\<lambda>r. pver_ServerID r = s) (rev (map scan_pve_report ?sel))"
    by (simp add: GetLatestPVEReports_def index_rows_get)
  show ?thesis
  proof (cases "pve_reports_of s db")
    case Nil
    then have "pver_ServerID r \<noteq> s" if "r \<in> set (at_rows (pd_reports db))" for r
      using that pve_reports_of_rows [of s db] by auto
    then have "List.find (\<lambda>r. pver_ServerID r = s) (rev (map scan_pve_report ?sel)) = None"
      by (auto simp: find_None_iff at_select_def pve_report.defs)
    then show ?thesis using get Nil by (simp add: GetLatestPVEReport_def)
  next
    case (Cons l ls)
    then have l: "l \<in> set (at_rows (pd_reports db))" "pver_ServerID l = s"
      using pve_reports_of_rows [of s db] by auto
    have "List.find (\<lambda>r. pver_ServerID r = s) (rev (map scan_pve_report ?sel)) = Some (scan_pve_report l)"
    proof (rule find_sole)
      show "scan_pve_report l \<in> set (rev (map scan_pve_report ?sel))" using l Cons by (simp add: at_select_def)
      show "pver_ServerID (scan_pve_report l) = s" using l by (simp add: pve_report.defs)
      fix r assume "r \<in> set (rev (map scan_pve_report ?sel))" "pver_ServerID r = s"
      then obtain r' where r': "r = scan_pve_report r'" "r' \<in> set (at_rows (pd_reports db))" "pver_ServerID r' = s"
          "map_option pver_ID (?latest (pver_ServerID r')) = Some (pver_ID r')"
        by (auto simp: at_select_def pve_report.defs)
      then have "pver_ID l = pver_ID r'" using Cons by simp
      from at_ok_id_inj [OF ids l(1) r'(2) this] show "r = scan_pve_report l" by (simp only: r'(1))
    qed
    then show ?thesis using get Cons by (simp add: GetLatestPVEReport_def)
  qed
qed

section \<open>The report that was stored\<close>

lemma stored_report:
  assumes "pve_ok db" "pve_views db = vs @ [request_view sid req now]"
    and "\<And>v. v \<in> set vs \<Longrightarrow> pv_ServerID v = sid \<Longrightarrow> pv_ReportedAt v \<le> sql_now now"
  obtains rep where "map_of (GetLatestPVEReports db) sid = Some rep"
    "tasks_view db (pver_ID rep) = prq_BackupTasks req" "pver_ID rep \<in> (\<lambda>(_, r). pver_ID r) ` set (GetLatestPVEReports db)"
proof -
  obtain rs r where rows: "at_rows (pd_reports db) = rs @ [r]"
    using assms(2) by (cases "at_rows (pd_reports db)" rule: rev_cases) (auto simp: pve_views_def)
  then have vs: "vs = map (report_view db) rs" and r: "report_view db r = request_view sid req now"
    using assms(2) by (auto simp: pve_views_def)
  have srv: "pver_ServerID r = sid" "pver_ReportedAt r = sql_now now" "tasks_view db (pver_ID r) = prq_BackupTasks req"
    using r by (simp_all add: report_view_def request_view_def)
  have "GetLatestPVEReport (pver_ServerID r) db = Inr (scan_pve_report r)"
  proof (rule newest_pve_report [OF rows])
    fix x assume "x \<in> set rs" "pver_ServerID x = pver_ServerID r"
    then show "pver_ReportedAt x \<le> pver_ReportedAt r"
      using assms(3) [of "report_view db x"] srv by (simp add: vs) (simp add: report_view_def)
  qed
  then have "map_of (GetLatestPVEReports db) sid = Some (scan_pve_report r)"
    using GetLatestPVEReports_agrees [OF assms(1), of sid] srv(1) by simp
  moreover have "pver_ID (scan_pve_report r) = pver_ID r" by (simp add: pve_report.defs)
  ultimately show thesis
    using that [of "scan_pve_report r"] srv(3) by (force dest: map_of_SomeD)
qed

lemma loaded_tasks:
  assumes "i \<in> set ids" "task \<in> set (tasks_view db i)"
  shows "\<exists>t\<in>set (or_zero [] (map_of (GetPVEBackupTasksForReports ids db) i)). task_view t = task"
  using assms unfolding GetPVEBackupTasksForReports_def group_rows_slice tasks_view_def
  by (auto simp: at_select_def)

section \<open>From the report to the alert\<close>

text \<open>The configuration wants backup failures of a machine reported: the server has no schedules or an
  active one, the machine is not excluded and the setting is on.\<close>

definition watches :: "alert_configs \<Rightarrow> alert_data \<Rightarrow> int \<Rightarrow> int \<Rightarrow> bool" where
  "watches cfg d sid vmid \<longleftrightarrow>
     (slice (ad_PVEBackupConfigs d) sid = [] \<or> HasActiveVMBackupConfigs (slice (ad_PVEBackupConfigs d) sid)) \<and>
     \<not> pveVMBackupExcluded (slice (ad_PVEBackupConfigs d) sid) vmid \<and>
     resolveBackupErr (pve_cfg cfg sid) (findVMConfig (slice (ac_PVEVMConfigs cfg) sid) vmid) (ac_GlobalBackupErr cfg)"

lemma failed_task_alert:
  assumes "ad_PVEReports d (pves_ID sv) = Some rep" "t \<in> set (slice (ad_PVETasks d) (pver_ID rep))"
    "pveBackupStatusAlertable (pvet_Status t)" "watches cfg d (pves_ID sv) (pvet_VMID t)"
  shows "\<exists>a\<in>set (pve_backup_errors_server now cfg d sv). al_ServerID a = pves_ID sv \<and> al_ServerType a = ''pve'' \<and>
    al_VMID a = pvet_VMID t \<and> al_Type a = AlertTypeBackupError \<and> al_Severity a = AlertSeverityCritical \<and> al_DetectedAt a = now"
proof -
  let ?vm = "slice (ac_PVEVMConfigs cfg) (pves_ID sv)" and ?bc = "slice (ad_PVEBackupConfigs d) (pves_ID sv)"
  have "set (pve_task_error now cfg sv ?vm ?bc t) \<subseteq> set (pve_backup_errors_server now cfg d sv)"
    using assms by (auto simp: pve_backup_errors_server_def Let_def watches_def)
  moreover have "\<exists>a. pve_task_error now cfg sv ?vm ?bc t = [a] \<and> al_ServerID a = pves_ID sv \<and> al_ServerType a = ''pve'' \<and>
      al_VMID a = pvet_VMID t \<and> al_Type a = AlertTypeBackupError \<and> al_Severity a = AlertSeverityCritical \<and> al_DetectedAt a = now"
    using assms by (simp add: pve_task_error_def Let_def watches_def)
  ultimately show ?thesis by auto
qed

lemma loaded_data:
  assumes "LoadAlertConfigs (store_loader st) = Inr cfg"
  obtains d servers where "ac_Data cfg = Some d" "ad_PVEServers d = servers" "ListPVEServers (st_keys st) (pd_servers (st_pve st)) = Inr servers"
    "ad_PVEReports d = map_of (GetLatestPVEReports (st_pve st))"
    "ad_PVETasks d = map_of (GetPVEBackupTasksForReports (map (\<lambda>(_, r). pver_ID r) (GetLatestPVEReports (st_pve st))) (st_pve st))"
proof -
  have err: "load_error r = Inr x \<longleftrightarrow> r = Inr x" for r :: "sql_error + 'a" and x
    by (auto simp: load_error_def split: sum.split sql_error.split)
  from assms obtain d where d: "loadAlertData (store_loader st) = Inr d" "ac_Data cfg = Some d"
    by (auto simp: LoadAlertConfigs_def bind_err_Inr)
  then obtain servers where "ListPVEServers (st_keys st) (pd_servers (st_pve st)) = Inr servers" "ad_PVEServers d = servers"
    "ad_PVEReports d = map_of (GetLatestPVEReports (st_pve st))"
    "ad_PVETasks d = map_of (GetPVEBackupTasksForReports (map (\<lambda>(_, r). pver_ID r) (GetLatestPVEReports (st_pve st))) (st_pve st))"
    by (auto simp: loadAlertData_def bind_err_Inr Let_def store_loader_def err)
  then show thesis using that d(2) by blast
qed

lemma scan_rows_member: "scan_rows scan rs = Inr xs \<Longrightarrow> r \<in> set rs \<Longrightarrow> \<exists>x\<in>set xs. scan r = Inr x"
  by (induction rs arbitrary: xs) (auto simp: bind_err_Inr)

lemma listed_pve_server:
  assumes "ListPVEServers keys t = Inr servers" "at_has (\<lambda>s. sr_ID s = sid \<and> \<not> sr_IsDeleted s) t"
  shows "\<exists>sv\<in>set servers. pves_ID sv = sid"
proof -
  obtain s where "s \<in> set (listed_servers keys t)" "sr_ID s = sid"
    using assms(2) by (auto simp: at_has_iff listed_servers_def at_select_def)
  then obtain sv where "sv \<in> set servers" "scan_pve_server keys s = Inr sv"
    using scan_rows_member [OF assms(1) [unfolded ListPVEServers_def], of s] by blast
  moreover from this(2) have "pves_ID sv = sid" using \<open>sr_ID s = sid\<close> by (auto simp: scan_pve_server_def bind_err_Inr)
  ultimately show ?thesis by blast
qed

text \<open>C35: a failed backup that a client reports is alerted: once the report is stored, and it is the
  latest of its server, the next evaluation over the stored data has a critical alert for the machine,
  unless the configuration does not watch it.\<close>

theorem reported_failure_raises_alert:
  assumes "store_ok st" "at_has (\<lambda>s. sr_ID s = sid \<and> \<not> sr_IsDeleted s) (pd_servers (st_pve st))"
    and "\<not> has_token sid (prq_ReportID req) (pve_log (st_pve st))"
    and "\<And>e. e \<in> set (pve_log (st_pve st)) \<Longrightarrow> le_server e = sid \<Longrightarrow> le_at e \<le> sql_now now"
    and "task \<in> set (prq_BackupTasks req)" "pveBackupStatusAlertable (btp_Status task)"
    and stored: "InsertPVEReportData sid req now (st_pve st) = Inr db'"
    and load: "LoadAlertConfigs (store_loader (st\<lparr>st_pve := db'\<rparr>)) = Inr cfg" "ac_Data cfg = Some d"
    and "watches cfg d sid (btp_VMID task)"
  shows "\<exists>a\<in>set (fst (CurrentAlertsRaw quote local later (store_loader (st\<lparr>st_pve := db'\<rparr>)) rep)).
    al_ServerID a = sid \<and> al_ServerType a = ''pve'' \<and> al_VMID a = btp_VMID task \<and>
    al_Type a = AlertTypeBackupError \<and> al_Severity a = AlertSeverityCritical \<and> al_DetectedAt a = later"
proof -
  let ?st = "st\<lparr>st_pve := db'\<rparr>" and ?log = "pve_log (st_pve st)"
  have ok: "pve_ok (st_pve st)" using assms(1) by (simp add: store_ok_def)
  have srv: "at_has (\<lambda>s. sr_ID s = sid) (pd_servers (st_pve st))" using assms(2) by (auto simp: at_has_iff)
  have db': "pve_ok db'" "pd_servers db' = pd_servers (st_pve st)" "pve_views db' = pve_views (st_pve st) @ [request_view sid req now]"
    using insert_report_views [OF ok srv, of req now] stored assms(3) by (auto simp: pve_log_token)
  have newest: "pv_ReportedAt v \<le> sql_now now" if "v \<in> set (pve_views (st_pve st))" "pv_ServerID v = sid" for v
    using assms(4) [of "pve_entry v"] that by (simp add: pve_log_def) (simp add: pve_entry_def)
  obtain r where r: "map_of (GetLatestPVEReports db') sid = Some r" "tasks_view db' (pver_ID r) = prq_BackupTasks req"
      "pver_ID r \<in> (\<lambda>(_, r). pver_ID r) ` set (GetLatestPVEReports db')"
    using stored_report [OF db'(1,3) newest] by blast
  obtain servers where data: "ad_PVEServers d = servers" "ListPVEServers (st_keys ?st) (pd_servers (st_pve ?st)) = Inr servers"
      "ad_PVEReports d = map_of (GetLatestPVEReports db')"
      "ad_PVETasks d = map_of (GetPVEBackupTasksForReports (map (\<lambda>(_, r). pver_ID r) (GetLatestPVEReports db')) db')"
    using loaded_data [OF load(1)] load(2) by auto
  obtain sv where sv: "sv \<in> set servers" "pves_ID sv = sid"
    using listed_pve_server [OF data(2), of sid] assms(2) db'(2) by auto
  obtain t where t: "t \<in> set (slice (ad_PVETasks d) (pver_ID r))" "task_view t = task"
    using loaded_tasks [of "pver_ID r" "map (\<lambda>(_, r). pver_ID r) (GetLatestPVEReports db')" task db'] r(2,3) assms(5)
    by (auto simp: data(4))
  let ?cfg = "cfg\<lparr>ac_Report := rep\<rparr>"
  have vm: "pvet_VMID t = btp_VMID task" "pvet_Status t = btp_Status task" using t(2) by (auto simp: task_view_def)
  have "watches ?cfg d (pves_ID sv) (pvet_VMID t)" using assms(10) by (simp add: watches_def sv(2) vm)
  then obtain a where a: "a \<in> set (pve_backup_errors_server later ?cfg d sv)" "al_ServerID a = sid" "al_ServerType a = ''pve''"
      "al_VMID a = btp_VMID task" "al_Type a = AlertTypeBackupError" "al_Severity a = AlertSeverityCritical" "al_DetectedAt a = later"
    using failed_task_alert [of d sv r t ?cfg later] r(1) t(1) assms(6) sv(2) vm by (auto simp: data(3))
  have "a \<in> set (projr (evalPVEBackupErrors later (store_loader ?st) ?cfg))"
    using a(1) sv(1) load(2) by (auto simp: evalPVEBackupErrors_def with_data_def ensureAlertData_def data(1))
  then have "a \<in> set (fst (RunAll quote local later (store_loader ?st) ?cfg))"
    using load(2) by (intro in_RunAll [of _ _ ?cfg]) (auto simp: ensureAlertData_def evaluators_def)
  then show ?thesis using a(2-) by (auto simp: CurrentAlertsRaw_def load(1))
qed

definition sample_reported :: pve_db where
  "sample_reported = projr (InsertPVEReportData 1 sample_pve_request (2 * hour) (st_pve sample_store))"

definition sample_loaded_configs :: alert_configs where
  "sample_loaded_configs = projr (LoadAlertConfigs (store_loader (sample_store\<lparr>st_pve := sample_reported\<rparr>)))"

theorem reported_failure_raises_alert_witness:
  "\<exists>a\<in>set (fst (CurrentAlertsRaw (\<lambda>s. s) utc_zone (3 * hour) (store_loader (sample_store\<lparr>st_pve := sample_reported\<rparr>)) None)).
     al_ServerID a = 1 \<and> al_VMID a = 101 \<and> al_Type a = AlertTypeBackupError \<and> al_Severity a = AlertSeverityCritical"
proof -
  let ?task = "hd (prq_BackupTasks sample_pve_request)" and ?d = "the (ac_Data sample_loaded_configs)"
  have a: "at_has (\<lambda>s. sr_ID s = 1 \<and> \<not> sr_IsDeleted s) (pd_servers (st_pve sample_store))" by code_simp
  have log: "pve_log (st_pve sample_store) = []" by code_simp
  have task: "?task \<in> set (prq_BackupTasks sample_pve_request)" "btp_VMID ?task = 101" by (simp_all add: sample_pve_request_def)
  have bad: "pveBackupStatusAlertable (btp_Status ?task)" by code_simp
  have "\<not> isl (InsertPVEReportData 1 sample_pve_request (2 * hour) (st_pve sample_store))" by code_simp
  then have run: "InsertPVEReportData 1 sample_pve_request (2 * hour) (st_pve sample_store) = Inr sample_reported"
    unfolding sample_reported_def by (metis sum.collapse(2))
  have "\<not> isl (LoadAlertConfigs (store_loader (sample_store\<lparr>st_pve := sample_reported\<rparr>)))" by code_simp
  then have load: "LoadAlertConfigs (store_loader (sample_store\<lparr>st_pve := sample_reported\<rparr>)) = Inr sample_loaded_configs"
    unfolding sample_loaded_configs_def by (metis sum.collapse(2))
  obtain d where d: "ac_Data sample_loaded_configs = Some d" using loaded_data [OF load] by metis
  have "watches sample_loaded_configs (the (ac_Data sample_loaded_configs)) 1 101" by code_simp
  then have w: "watches sample_loaded_configs d 1 (btp_VMID ?task)" using d task(2) by simp
  show ?thesis
    using reported_failure_raises_alert [OF sample_store_ok a _ _ task(1) bad run load d w, of "\<lambda>s. s" utc_zone "3 * hour" None]
      task(2) by (auto simp: log has_token_def)
qed



end
