(* ===== verification/Go_Text.thy ===== *)
theory Go_Text
  imports Go_Base
begin

text \<open>
  Strings as sequences of runes: how Go's \<open>range\<close> over a string walks over its bytes. A byte that
  starts no valid UTF-8 sequence is a rune of its own. The source counts, cuts and checks runes
  with it (\<open>truncateRunes\<close>, \<open>normalizeUsername\<close>, \<open>securityField\<close>).
\<close>

section \<open>Runes\<close>

definition byte_in :: "nat \<Rightarrow> nat \<Rightarrow> nat \<Rightarrow> gostring \<Rightarrow> bool" where
  "byte_in lo hi i s \<longleftrightarrow> i < length s \<and> lo \<le> of_char (s ! i) \<and> (of_char (s ! i) :: nat) \<le> hi"

text \<open>The number of bytes of the rune a string starts with.\<close>

definition rune_width :: "gostring \<Rightarrow> nat" where
  "rune_width s =
     (if byte_in 0xC2 0xDF 0 s \<and> byte_in 0x80 0xBF 1 s then 2
      else if (byte_in 0xE0 0xE0 0 s \<and> byte_in 0xA0 0xBF 1 s \<or>
               byte_in 0xE1 0xEC 0 s \<and> byte_in 0x80 0xBF 1 s \<or>
               byte_in 0xED 0xED 0 s \<and> byte_in 0x80 0x9F 1 s \<or>
               byte_in 0xEE 0xEF 0 s \<and> byte_in 0x80 0xBF 1 s) \<and> byte_in 0x80 0xBF 2 s then 3
      else if (byte_in 0xF0 0xF0 0 s \<and> byte_in 0x90 0xBF 1 s \<or>
               byte_in 0xF1 0xF3 0 s \<and> byte_in 0x80 0xBF 1 s \<or>
               byte_in 0xF4 0xF4 0 s \<and> byte_in 0x80 0x8F 1 s) \<and>
              byte_in 0x80 0xBF 2 s \<and> byte_in 0x80 0xBF 3 s then 4
      else 1)"

lemma rune_width_pos [simp]: "0 < rune_width s"
  by (simp add: rune_width_def)

function runes :: "gostring \<Rightarrow> gostring list" where
  "runes s = (if s = [] then [] else take (rune_width s) s # runes (drop (rune_width s) s))"
  by pat_completeness auto
termination
proof (relation "measure length")
  fix s :: gostring
  assume "s \<noteq> []"
  then show "(drop (rune_width s) s, s) \<in> measure length" using rune_width_pos [of s] by simp
qed simp

declare runes.simps [simp del]

lemma concat_runes [simp]: "concat (runes s) = s"
  by (induction s rule: runes.induct) (subst runes.simps, simp)

lemma runes_Nil [simp]: "runes [] = []"
  by (simp add: runes.simps)

definition rune_count :: "gostring \<Rightarrow> nat" where "rune_count s = length (runes s)"

text \<open>\<open>unicode.IsControl\<close>: the control characters are U+0000 to U+001F and U+007F to U+009F.\<close>

definition is_control :: "gostring \<Rightarrow> bool" where
  "is_control r =
     (case r of
        [c] \<Rightarrow> (of_char c :: nat) < 0x20 \<or> (of_char c :: nat) = 0x7F
      | [c, d] \<Rightarrow> c = CHR 0xC2 \<and> (of_char d :: nat) < 0xA0
      | _ \<Rightarrow> False)"

section \<open>Cutting a string after a number of runes\<close>

fun truncate_loop :: "nat \<Rightarrow> nat \<Rightarrow> gostring list \<Rightarrow> gostring" where
  "truncate_loop n limit [] = []"
| "truncate_loop n limit (r # rs) = (if n = limit then [] else r @ truncate_loop (n + 1) limit rs)"

definition truncateRunes :: "gostring \<Rightarrow> nat \<Rightarrow> gostring" where
  "truncateRunes s limit = truncate_loop 0 limit (runes s)"

lemma truncate_loop_take: "n \<le> limit \<Longrightarrow> truncate_loop n limit rs = concat (take (limit - n) rs)"
proof (induction n limit rs rule: truncate_loop.induct)
  case (2 n limit r rs)
  then show ?case by (cases "n = limit") (simp_all add: Suc_diff_le [symmetric] take_Cons' Suc_le_eq)
qed simp

lemma truncateRunes_take: "truncateRunes s limit = concat (take limit (runes s))"
  by (simp add: truncateRunes_def truncate_loop_take)

lemma rune_width_le: "rune_width s \<le> 4"
  by (simp add: rune_width_def)

lemma rune_length: "r \<in> set (runes s) \<Longrightarrow> length r \<le> 4"
proof (induction s rule: runes.induct)
  case (1 s)
  show ?case
  proof (cases "s = []")
    case False
    then have "runes s = take (rune_width s) s # runes (drop (rune_width s) s)" by (subst runes.simps) simp
    then show ?thesis using 1 False rune_width_le [of s] by auto
  qed (use 1 in simp)
qed

text \<open>The cut string is a prefix of at most four bytes per rune; a short string is left alone.\<close>

lemma truncateRunes_bounds: "length (truncateRunes s limit) \<le> 4 * limit" "\<exists>rest. s = truncateRunes s limit @ rest"
proof -
  have "length (concat (take limit rs)) \<le> 4 * limit" if "\<forall>r\<in>set rs. length r \<le> 4" for rs :: "gostring list"
    using that
  proof (induction limit arbitrary: rs)
    case (Suc limit)
    then show ?case by (cases rs) (auto simp: add_le_mono)
  qed simp
  then show "length (truncateRunes s limit) \<le> 4 * limit"
    unfolding truncateRunes_take using rune_length by blast
  have "s = concat (take limit (runes s)) @ concat (drop limit (runes s))"
    by (metis append_take_drop_id concat_append concat_runes)
  then show "\<exists>rest. s = truncateRunes s limit @ rest" unfolding truncateRunes_take by blast
qed

lemma truncateRunes_short: "rune_count s \<le> limit \<Longrightarrow> truncateRunes s limit = s"
  by (simp add: truncateRunes_take rune_count_def)

section \<open>Words of a string\<close>

text \<open>\<open>strings.Fields\<close> splits around runs of white space. \<open>word\<close> is the word read so far.\<close>

function fields_from :: "gostring \<Rightarrow> gostring \<Rightarrow> gostring list" where
  "fields_from word s =
     (if s = [] then (if word = [] then [] else [word])
      else let w = rune_width s; r = take w s
        in if r \<in> set go_spaces then (if word = [] then [] else [word]) @ fields_from [] (drop w s)
           else fields_from (word @ r) (drop w s))"
  by pat_completeness auto
termination
proof (relation "measure (\<lambda>(word, s). length s)")
qed (auto simp: Let_def)

declare fields_from.simps [simp del]

definition strings_Fields :: "gostring \<Rightarrow> gostring list" where
  "strings_Fields s = fields_from [] s"

fun join_with :: "gostring \<Rightarrow> gostring list \<Rightarrow> gostring" where
  "join_with sep [] = []"
| "join_with sep [x] = x"
| "join_with sep (x # y # zs) = x @ sep @ join_with sep (y # zs)"

end
