(* ===== verification/Netutil.thy ===== *)
theory Netutil
  imports Netip Go_Text Rate_Limit
begin

text \<open>
  The addresses of requests: \<open>internal/netutil/realip.go\<close>, \<open>host.go\<close> and \<open>publichttp.go\<close>, and
  \<open>ExtractIP\<close> of \<open>internal/ratelimit/ratelimit.go\<close>, the key of every limiter and ban. The functions
  of Go's \<open>net\<close> and \<open>net/netip\<close> they call are written out on the addresses of \<open>Netip\<close>. A header is
  the value \<open>Header.Get\<close> yields, empty when the header is absent.
\<close>

section \<open>Text\<close>

fun split_on :: "char \<Rightarrow> string \<Rightarrow> string list" where
  "split_on c [] = [[]]"
| "split_on c (x # s) =
     (if x = c then [] # split_on c s
      else case split_on c s of p # ps \<Rightarrow> (x # p) # ps | [] \<Rightarrow> [[x]])"

text \<open>\<open>strings.Trim(s, "[]")\<close>\<close>

definition is_bracket :: "char \<Rightarrow> bool" where "is_bracket c \<longleftrightarrow> c = CHR ''['' \<or> c = CHR '']''"

definition trim_brackets :: "string \<Rightarrow> string" where
  "trim_brackets s = rev (dropWhile is_bracket (rev (dropWhile is_bracket s)))"

definition has_suffix :: "string \<Rightarrow> string \<Rightarrow> bool" where
  "has_suffix s p = has_prefix (rev s) (rev p)"

text \<open>\<open>net.SplitHostPort\<close>: the port starts after the last colon; a host with colons stands in brackets.\<close>

definition SplitHostPort :: "string \<Rightarrow> (string \<times> string) option" where
  "SplitHostPort s =
     (if CHR '':'' \<notin> set s then None
      else let port = rev (takeWhile (\<lambda>c. c \<noteq> CHR '':'') (rev s)); i = length s - length port - 1
        in if hd s = CHR ''['' then
             (if CHR '']'' \<notin> set s then None
              else let end = length (takeWhile (\<lambda>c. c \<noteq> CHR '']'') s)
                in if end + 1 \<noteq> i then None
                   else if CHR ''['' \<in> set (drop 1 s) \<or> CHR '']'' \<in> set (drop (end + 1) s) then None
                   else Some (take (end - 1) (drop 1 s), port))
           else let host = take i s
             in if CHR '':'' \<in> set host \<or> CHR ''['' \<in> set s \<or> CHR '']'' \<in> set s then None
                else Some (host, port))"

definition JoinHostPort :: "string \<Rightarrow> string \<Rightarrow> string" where
  "JoinHostPort host port =
     (if CHR '':'' \<in> set host then ''['' @ host @ '']:'' @ port else host @ '':'' @ port)"

definition text4 :: "nat list \<Rightarrow> string" where "text4 f = join_with ''.'' (map show_nat f)"

text \<open>\<open>Addr.String\<close>\<close>

definition addr_text :: "addr \<Rightarrow> string" where
  "addr_text a =
     (case a of
        Addr4 f \<Rightarrow> text4 f
      | Addr6 g zone \<Rightarrow>
          (if Is4In6 a then (case Unmap a of Addr4 f \<Rightarrow> ''::ffff:'' @ text4 f | Addr6 _ _ \<Rightarrow> [])
           else text6 g) @ (if zone \<noteq> [] then CHR ''%'' # zone else []))"

text \<open>\<open>netip.ParsePrefix\<close>: a length of more than one digit does not start with a zero, and an address
  with a zone is refused.\<close>

definition ParsePrefix :: "string \<Rightarrow> prefix option" where
  "ParsePrefix s =
     (if CHR ''/'' \<notin> set s then None
      else let bits = rev (takeWhile (\<lambda>c. c \<noteq> CHR ''/'') (rev s))
        in case ParseAddr (take (length s - length bits - 1) s) of
             None \<Rightarrow> None
           | Some a \<Rightarrow>
               if has_zone a \<or> bits = [] \<or> \<not> list_all is_digit bits then None
               else if length bits > 1 \<and> hd bits = CHR ''0'' then None
               else if read_nat bits > (if Is6 a then 128 else 32) then None
               else Some \<lparr>pfx_addr = a, pfx_bits = read_nat bits\<rparr>)"

section \<open>The client behind a proxy\<close>

record http_req =
  hr_RemoteAddr :: string
  hr_Header :: "(string, string) table"
  hr_Host :: string
  hr_TLS :: bool

definition header_get :: "http_req \<Rightarrow> string \<Rightarrow> string" where
  "header_get r k = or_zero [] (tbl_get (hr_Header r) k)"

text \<open>\<open>Prefix.Masked\<close> clears the bits of an address that \<open>Prefix.Contains\<close> does not look at; the model
  leaves them.\<close>

definition parseTrustedProxyCIDRs :: "string list \<Rightarrow> prefix list" where
  "parseTrustedProxyCIDRs rawCIDRs =
     concat (map (\<lambda>raw. case ParsePrefix (trim_space raw) of None \<Rightarrow> [] | Some p \<Rightarrow> [p]) rawCIDRs)"

definition remoteAddrIP :: "string \<Rightarrow> addr option" where
  "remoteAddrIP remoteAddr =
     (let host = (case SplitHostPort remoteAddr of None \<Rightarrow> remoteAddr | Some (h, _) \<Rightarrow> h)
      in ParseAddr (trim_brackets host))"

definition isTrustedProxy :: "addr \<Rightarrow> prefix list \<Rightarrow> bool" where
  "isTrustedProxy a trusted = list_ex (\<lambda>p. prefix_contains p a) trusted"

text \<open>The loop over the parts, the last one first.\<close>

fun last_untrusted :: "prefix list \<Rightarrow> string list \<Rightarrow> addr option" where
  "last_untrusted trusted [] = None"
| "last_untrusted trusted (part # parts) =
     (case ParseAddr (trim_space part) of
        None \<Rightarrow> last_untrusted trusted parts
      | Some a \<Rightarrow> if isTrustedProxy a trusted then last_untrusted trusted parts else Some a)"

definition forwardedClientIP :: "http_req \<Rightarrow> prefix list \<Rightarrow> addr option" where
  "forwardedClientIP r trusted =
     (let forwarded = header_get r ''X-Forwarded-For'';
          byFor = (if forwarded \<noteq> [] then last_untrusted trusted (rev (split_on CHR '','' forwarded)) else None)
      in case byFor of
           Some a \<Rightarrow> Some a
         | None \<Rightarrow>
             (let realIP = trim_space (header_get r ''X-Real-IP'')
              in if realIP \<noteq> [] then ParseAddr realIP else None))"

definition clearForwardedHeaders :: "http_req \<Rightarrow> http_req" where
  "clearForwardedHeaders r =
     r\<lparr>hr_Header := foldl (\<lambda>t k. tbl_del k t) (hr_Header r)
        [''X-Forwarded-For'', ''X-Real-IP'', ''X-Forwarded-Host'', ''X-Forwarded-Proto'']\<rparr>"

text \<open>The request the next handler is served.\<close>

definition TrustedProxyRealIP :: "string list \<Rightarrow> http_req \<Rightarrow> http_req" where
  "TrustedProxyRealIP rawCIDRs r =
     (let trusted = parseTrustedProxyCIDRs rawCIDRs
      in case remoteAddrIP (hr_RemoteAddr r) of
           None \<Rightarrow> clearForwardedHeaders r
         | Some peer \<Rightarrow>
             if \<not> isTrustedProxy peer trusted then clearForwardedHeaders r
             else case forwardedClientIP r trusted of
               Some client \<Rightarrow> r\<lparr>hr_RemoteAddr := JoinHostPort (addr_text client) ''0''\<rparr>
             | None \<Rightarrow> r)"

definition ExtractIP :: "http_req \<Rightarrow> string" where
  "ExtractIP r = (case SplitHostPort (hr_RemoteAddr r) of None \<Rightarrow> hr_RemoteAddr r | Some (host, _) \<Rightarrow> host)"

definition Middleware :: "time \<Rightarrow> http_req \<Rightarrow> limiter \<Rightarrow> bool \<times> limiter" where
  "Middleware now r l = allow (ExtractIP r) now l"

section \<open>The host a browser asked for\<close>

definition normalizeHost :: "string \<Rightarrow> string" where
  "normalizeHost host0 =
     (let host = trim_space (hd (split_on CHR '','' host0))
      in trim_brackets (case SplitHostPort host of Some (h, _) \<Rightarrow> h | None \<Rightarrow> host))"

definition HostFromRequest :: "http_req \<Rightarrow> string" where
  "HostFromRequest r =
     (let forwarded = header_get r ''X-Forwarded-Host''
      in normalizeHost (if forwarded \<noteq> [] then hd (split_on CHR '','' forwarded) else hr_Host r))"

definition RequestScheme :: "http_req \<Rightarrow> string" where
  "RequestScheme r =
     (let proto = header_get r ''X-Forwarded-Proto''
      in if proto \<noteq> [] then to_lower (trim_space (hd (split_on CHR '','' proto)))
         else if hr_TLS r then ''https'' else ''http'')"

text \<open>\<open>strings.EqualFold\<close> with an ASCII text: the Kelvin sign folds to k and the long s to s.\<close>

fun fold_text :: "string \<Rightarrow> string" where
  "fold_text [] = []"
| "fold_text (a # s) =
     (if a = CHR 0xE2 \<and> take 2 s = [CHR 0x84, CHR 0xAA] then CHR ''k'' # fold_text (drop 2 s)
      else if a = CHR 0xC5 \<and> take 1 s = [CHR 0xBF] then CHR ''s'' # fold_text (drop 1 s)
      else lower_char a # fold_text s)"

definition octet :: "addr \<Rightarrow> nat \<Rightarrow> nat" where
  "octet a i = (case a of Addr4 f \<Rightarrow> f ! i | Addr6 g _ \<Rightarrow> (if even i then g ! (i div 2) div 256 else g ! (i div 2) mod 256))"

definition IsLoopback :: "addr \<Rightarrow> bool" where
  "IsLoopback a = (case a of Addr4 f \<Rightarrow> f ! 0 = 127 | Addr6 g _ \<Rightarrow> g = [0, 0, 0, 0, 0, 0, 0, 1])"

definition IsPrivate :: "addr \<Rightarrow> bool" where
  "IsPrivate a =
     (if Is6 a then octet a 0 div 2 = 0xFC div 2
      else octet a 0 = 10 \<or> octet a 0 = 172 \<and> octet a 1 div 16 = 1 \<or> octet a 0 = 192 \<and> octet a 1 = 168)"

definition IsUnspecified :: "addr \<Rightarrow> bool" where
  "IsUnspecified a = (case a of Addr4 f \<Rightarrow> f = [0, 0, 0, 0] | Addr6 g zone \<Rightarrow> g = replicate 8 0 \<and> zone = [])"

definition isCGNAT :: "addr \<Rightarrow> bool" where
  "isCGNAT ip = (case ip of Addr4 f \<Rightarrow> f ! 0 = 100 \<and> f ! 1 \<ge> 64 \<and> f ! 1 \<le> 127 | Addr6 _ _ \<Rightarrow> False)"

text \<open>\<open>net.ParseIP\<close> refuses a zone; its methods read an IPv4-mapped address as the IPv4 one.\<close>

definition HostLooksPublic :: "string \<Rightarrow> bool" where
  "HostLooksPublic host0 =
     (let host = normalizeHost host0
      in if host = [] then False
         else if fold_text host = ''localhost'' \<or> has_suffix (to_lower host) ''.localhost'' then False
         else case ParseAddr host of
           Some a \<Rightarrow>
             if has_zone a then CHR ''.'' \<in> set host
             else (let ip = Unmap a in \<not> (IsLoopback ip \<or> IsPrivate ip \<or> IsUnspecified ip \<or> isCGNAT ip))
         | None \<Rightarrow> CHR ''.'' \<in> set host)"

section \<open>Destinations of Web Push\<close>

definition IsMulticast :: "addr \<Rightarrow> bool" where
  "IsMulticast a = (if Is6 a then octet a 0 = 255 else octet a 0 div 16 = 14)"

definition IsLinkLocalUnicast :: "addr \<Rightarrow> bool" where
  "IsLinkLocalUnicast a =
     (case a of Addr4 f \<Rightarrow> f ! 0 = 169 \<and> f ! 1 = 254 | Addr6 g _ \<Rightarrow> g ! 0 div 64 = 0xFE80 div 64)"

definition IsGlobalUnicast :: "addr \<Rightarrow> bool" where
  "IsGlobalUnicast a \<longleftrightarrow>
     \<not> IsUnspecified a \<and> a \<noteq> Addr4 [255, 255, 255, 255] \<and> \<not> IsLoopback a \<and> \<not> IsMulticast a \<and>
     \<not> IsLinkLocalUnicast a"

definition nonPublicRanges :: "prefix list" where
  "nonPublicRanges =
     [\<lparr>pfx_addr = Addr4 [100, 64, 0, 0], pfx_bits = 10\<rparr>, \<lparr>pfx_addr = Addr4 [198, 18, 0, 0], pfx_bits = 15\<rparr>,
      \<lparr>pfx_addr = Addr4 [192, 0, 0, 0], pfx_bits = 24\<rparr>, \<lparr>pfx_addr = Addr4 [240, 0, 0, 0], pfx_bits = 4\<rparr>,
      \<lparr>pfx_addr = Addr4 [168, 63, 129, 16], pfx_bits = 32\<rparr>,
      \<lparr>pfx_addr = Addr6 [0x64, 0xFF9B, 0, 0, 0, 0, 0, 0] [], pfx_bits = 96\<rparr>,
      \<lparr>pfx_addr = Addr6 [0x64, 0xFF9B, 1, 0, 0, 0, 0, 0] [], pfx_bits = 48\<rparr>,
      \<lparr>pfx_addr = Addr6 [0x2002, 0, 0, 0, 0, 0, 0, 0] [], pfx_bits = 16\<rparr>,
      \<lparr>pfx_addr = Addr6 [0x2001, 0, 0, 0, 0, 0, 0, 0] [], pfx_bits = 32\<rparr>]"

definition IsPublicIP :: "addr \<Rightarrow> bool" where
  "IsPublicIP ip0 =
     (let ip = Unmap ip0
      in if has_zone ip \<or> \<not> IsGlobalUnicast ip \<or> IsPrivate ip \<or> IsLoopback ip \<or> IsLinkLocalUnicast ip then False
         else \<not> list_ex (\<lambda>p. prefix_contains p ip) nonPublicRanges)"

text \<open>\<open>dial\<close> says which addresses answer. The result lists the addresses a connection was tried to and
  tells whether the last one answered.\<close>

fun dial_each :: "(addr \<Rightarrow> bool) \<Rightarrow> addr list \<Rightarrow> addr list \<times> bool" where
  "dial_each dial [] = ([], False)"
| "dial_each dial (ip # ips) =
     (if dial ip then ([ip], True) else (case dial_each dial ips of (tried, ok) \<Rightarrow> (ip # tried, ok)))"

definition dialPublicIPs :: "(addr \<Rightarrow> bool) \<Rightarrow> addr list \<Rightarrow> addr list \<times> bool" where
  "dialPublicIPs dial ips =
     (if ips = [] then ([], False)
      else if list_ex (\<lambda>ip. \<not> IsPublicIP ip) ips then ([], False)
      else dial_each dial ips)"

section \<open>The address of a client cannot be forged\<close>

lemma trim_space_Nil [simp]: "trim_space [] = []"
  using trim_right_prefix [of "[]"] by (simp add: trim_space_def trim_left_def trim_left_of_id has_prefix_def find_None_iff go_spaces_def)

lemma ParseAddr_Nil [simp]: "ParseAddr [] = None"
  by (simp add: ParseAddr_def)

lemma takeWhile_rev_last: "c \<notin> set b \<Longrightarrow> rev (takeWhile (\<lambda>x. x \<noteq> c) (rev (a @ c # b))) = b"
  by (simp add: takeWhile_append)

lemma takeWhile_first: "c \<notin> set a \<Longrightarrow> takeWhile (\<lambda>x. x \<noteq> c) (a @ c # b) = a"
  by (simp add: takeWhile_append)

text \<open>A host and a port that were joined are split again.\<close>

lemma Split_JoinHostPort:
  assumes "CHR ''['' \<notin> set host" "CHR '']'' \<notin> set host" "set port \<inter> {CHR '':'', CHR ''['', CHR '']''} = {}"
  shows "SplitHostPort (JoinHostPort host port) = Some (host, port)"
proof (cases "CHR '':'' \<in> set host")
  case False
  let ?s = "host @ CHR '':'' # port"
  have port: "rev (takeWhile (\<lambda>c. c \<noteq> CHR '':'') (rev ?s)) = port"
    using assms(3) by (intro takeWhile_rev_last) auto
  have "hd ?s \<noteq> CHR ''[''" using assms(1) by (cases host) auto
  then show ?thesis
    using assms False unfolding JoinHostPort_def SplitHostPort_def Let_def if_not_P [OF False] append_Cons append_Nil port
    by auto
next
  case True
  let ?s = "CHR ''['' # host @ CHR '']'' # CHR '':'' # port"
  have port: "rev (takeWhile (\<lambda>c. c \<noteq> CHR '':'') (rev ?s)) = port"
    using takeWhile_rev_last [of "CHR '':''" port "CHR ''['' # host @ '']''"] assms(3) by auto
  have "takeWhile (\<lambda>c. c \<noteq> CHR '']'') ?s = CHR ''['' # host"
    using takeWhile_first [of "CHR '']''" "CHR ''['' # host"] assms(2) by simp
  then show ?thesis
    using assms True unfolding JoinHostPort_def SplitHostPort_def Let_def if_P [OF True] append_Cons append_Nil port
    by auto
qed

lemma join_with_chars: "c \<in> set (join_with sep xs) \<Longrightarrow> c \<in> set sep \<or> (\<exists>x\<in>set xs. c \<in> set x)"
  by (induction sep xs rule: join_with.induct) auto

lemma text4_chars: "c \<in> set (text4 f) \<Longrightarrow> c = CHR ''.'' \<or> is_digit c"
  by (auto simp: text4_def dest!: join_with_chars dest: show_nat_digits)

lemma addr_text_no_bracket:
  assumes "\<not> has_zone a" "is_bracket c"
  shows "c \<notin> set (addr_text a)"
proof -
  have "\<not> is_digit c" "c \<noteq> CHR ''.''" "c \<noteq> CHR '':''" "c \<noteq> CHR ''f''" "c \<notin> set hexdigits"
    using assms(2) by (auto simp: is_bracket_def is_digit_def hexdigits_def)
  then show ?thesis using assms(1) text4_chars [of c] text6_chars [of c]
    by (cases a) (auto simp: addr_text_def has_zone_def split: addr.splits)
qed

lemma split_on_not_Nil: "split_on c s \<noteq> []"
  by (induction s) (auto split: list.splits)

lemma split_on_append: "split_on c (a @ c # b) = split_on c a @ split_on c b"
proof (induction a)
  case (Cons x a)
  then show ?case using split_on_not_Nil [of c a] by (auto split: list.splits simp: Cons_eq_append_conv)
qed simp

lemma split_on_single: "c \<notin> set s \<Longrightarrow> split_on c s = [s]"
  by (induction s) auto

lemma split_on_join:
  "xs \<noteq> [] \<Longrightarrow> \<forall>x\<in>set xs. c \<notin> set x \<Longrightarrow> split_on c (join_with [c] xs) = xs"
  by (induction "[c]" xs rule: join_with.induct) (auto simp: split_on_append split_on_single)

lemma last_untrusted_skips:
  assumes "\<forall>h\<in>set hops. \<exists>a. ParseAddr (trim_space h) = Some a \<and> isTrustedProxy a trusted"
  shows "last_untrusted trusted (hops @ parts) = last_untrusted trusted parts"
  using assms by (induction hops) auto

lemma forwarded_last:
  assumes head: "header_get r ''X-Forwarded-For'' = forged @ join_with '','' (part # hops)"
    and forged: "forged = [] \<or> last forged = CHR '',''"
    and commas: "\<forall>h\<in>set (part # hops). CHR '','' \<notin> set h"
    and hops: "\<forall>h\<in>set hops. \<exists>a. ParseAddr (trim_space h) = Some a \<and> isTrustedProxy a trusted"
    and client: "ParseAddr (trim_space part) = Some client" "\<not> isTrustedProxy client trusted"
  shows "forwardedClientIP r trusted = Some client"
proof -
  let ?h = "header_get r ''X-Forwarded-For''"
  have own: "split_on CHR '','' (join_with '','' (part # hops)) = part # hops"
    using commas by (intro split_on_join) auto
  obtain before where split: "split_on CHR '','' ?h = before @ part # hops"
  proof (cases "forged = []")
    case True
    then show ?thesis using that [of "[]"] own head by simp
  next
    case False
    then obtain f where "forged = f @ '',''" using forged by (metis append_butlast_last_id)
    then have "?h = f @ CHR '','' # join_with '','' (part # hops)" using head by simp
    then show ?thesis using that [of "split_on CHR '','' f"] own by (simp only: split_on_append)
  qed
  have "last_untrusted trusted (rev (split_on CHR '','' ?h)) = Some client"
    unfolding split using hops client
    by (simp add: last_untrusted_skips [of "rev hops" trusted])
  moreover have "?h \<noteq> []" using split client(1) by (auto simp: Cons_eq_append_conv)
  ultimately show ?thesis by (simp add: forwardedClientIP_def)
qed

text \<open>A request that came from outside the configured proxies, and one that came through them: the
  address of the client, which is not one of theirs, is followed by theirs alone.\<close>

definition from_outside :: "string list \<Rightarrow> http_req \<Rightarrow> bool" where
  "from_outside cidrs r =
     (case remoteAddrIP (hr_RemoteAddr r) of
        None \<Rightarrow> True
      | Some peer \<Rightarrow> \<not> isTrustedProxy peer (parseTrustedProxyCIDRs cidrs))"

definition proxy_part :: "prefix list \<Rightarrow> string \<Rightarrow> bool" where
  "proxy_part trusted h \<longleftrightarrow> CHR '','' \<notin> set h \<and>
     (case ParseAddr (trim_space h) of None \<Rightarrow> False | Some a \<Rightarrow> isTrustedProxy a trusted)"

definition forwarded_by :: "string list \<Rightarrow> string \<Rightarrow> string \<Rightarrow> string list \<Rightarrow> addr \<Rightarrow> http_req \<Rightarrow> bool" where
  "forwarded_by cidrs forged part hops client r \<longleftrightarrow>
     \<not> from_outside cidrs r \<and>
     header_get r ''X-Forwarded-For'' = forged @ join_with '','' (part # hops) \<and>
     (forged = [] \<or> last forged = CHR '','') \<and> CHR '','' \<notin> set part \<and>
     list_all (proxy_part (parseTrustedProxyCIDRs cidrs)) hops \<and>
     ParseAddr (trim_space part) = Some client \<and> \<not> isTrustedProxy client (parseTrustedProxyCIDRs cidrs) \<and>
     \<not> has_zone client"

lemma from_outside_cleared: "from_outside cidrs r \<Longrightarrow> TrustedProxyRealIP cidrs r = clearForwardedHeaders r"
  by (auto simp: from_outside_def TrustedProxyRealIP_def Let_def split: option.split)

lemma forwarded_by_address:
  assumes "forwarded_by cidrs forged part hops client r"
  shows "TrustedProxyRealIP cidrs r = r\<lparr>hr_RemoteAddr := JoinHostPort (addr_text client) ''0''\<rparr>"
proof -
  have "forwardedClientIP r (parseTrustedProxyCIDRs cidrs) = Some client"
    using assms by (intro forwarded_last [of r forged part hops])
      (auto simp: forwarded_by_def proxy_part_def list_all_iff split: option.splits)
  then show ?thesis using assms
    by (auto simp: forwarded_by_def from_outside_def TrustedProxyRealIP_def split: option.splits)
qed


text \<open>A request that carries two forwarded addresses, once straight from the Internet and once through a
  proxy.\<close>

definition forwarded_request :: "string \<Rightarrow> http_req" where
  "forwarded_request peer =
     \<lparr>hr_RemoteAddr = peer, hr_Header = [(''X-Forwarded-For'', ''6.6.6.6,203.0.113.9'')], hr_Host = ''probakgo'', hr_TLS = True\<rparr>"


text \<open>A connection for Web Push is only ever tried to public addresses.\<close>

lemma dial_each_tried: "set (fst (dial_each dial ips)) \<subseteq> set ips"
  by (induction ips) (auto split: prod.splits)

lemma dialPublicIPs_public: "ip \<in> set (fst (dialPublicIPs dial ips)) \<Longrightarrow> IsPublicIP ip"
  using dial_each_tried [of dial ips] by (auto simp: dialPublicIPs_def list_ex_iff split: if_splits)

end
