(* ===== verification/Session.thy ===== *)
theory Session
  imports Go_Float Netutil
begin

text \<open>
  The sessions of the web interface: \<open>internal/session/session.go\<close> and the pending logins of
  \<open>challenge.go\<close>. A session lives in a cookie the browser keeps; the cookie store of the package
  \<open>gorilla/sessions\<close> is not part of the program, and what the code relies on is written as: a request carries
  the values of an earlier cookie or fails to decode, all functions of one request see one session
  object, and \<open>Save\<close> answers with a cookie of its values or refuses them. The random bytes of a token are
  arguments. The nil checks on the store are left out: the server initialises it before it serves.
\<close>

section \<open>The session of a request\<close>

datatype sess_val = SStr string | SInt int | SInt64 int | SFloat rat | STime time

type_synonym sess_values = "(string, sess_val) table"

text \<open>\<open>se_cookies\<close> are the cookies the response sets, the last one in force: the values, or none when
  the cookie is deleted.\<close>

record session =
  se_values :: sess_values
  se_err :: bool
  se_deleted :: bool
  se_cookies :: "sess_values option list"

definition request_session :: "sess_values option \<Rightarrow> session" where
  "request_session cookie =
     \<lparr>se_values = (case cookie of None \<Rightarrow> [] | Some vs \<Rightarrow> vs), se_err = (cookie = None), se_deleted = False, se_cookies = []\<rparr>"

type_synonym saver = "sess_values \<Rightarrow> bool"

definition save_session :: "saver \<Rightarrow> session \<Rightarrow> bool \<times> session" where
  "save_session save s =
     (if save (se_values s)
      then (True, s\<lparr>se_cookies := se_cookies s @ [if se_deleted s then None else Some (se_values s)]\<rparr>)
      else (False, s))"

definition sess_get :: "session \<Rightarrow> string \<Rightarrow> sess_val option" where
  "sess_get s k = tbl_get (se_values s) k"

definition as_string :: "sess_val option \<Rightarrow> string option" where
  "as_string v = (case v of Some (SStr t) \<Rightarrow> Some t | _ \<Rightarrow> None)"

text \<open>The switch on the type of a number.\<close>

definition as_number :: "sess_val option \<Rightarrow> int option" where
  "as_number v = (case v of
     Some (SInt n) \<Rightarrow> Some n | Some (SInt64 n) \<Rightarrow> Some n | Some (SFloat x) \<Rightarrow> Some (f64_to_int x) | _ \<Rightarrow> None)"

definition session_GetUser :: "session \<Rightarrow> string \<times> string \<times> bool" where
  "session_GetUser s =
     (if se_err s then ([], [], False)
      else let u = as_string (sess_get s ''username''); ro = as_string (sess_get s ''role'')
        in (or_zero [] u, or_zero [] ro, u \<noteq> None \<and> ro \<noteq> None \<and> or_zero [] u \<noteq> []))"

definition SetUserWithVersion :: "saver \<Rightarrow> string \<Rightarrow> int \<Rightarrow> string \<Rightarrow> string \<Rightarrow> int \<Rightarrow> session \<Rightarrow> bool \<times> session" where
  "SetUserWithVersion save raw userID username role version s =
     save_session save (s\<lparr>se_values := tbl_put ''session_version'' (SInt version) (tbl_put ''role'' (SStr role)
       (tbl_put ''username'' (SStr username) (tbl_put ''user_id'' (SInt64 userID) (tbl_put ''sid'' (SStr raw) []))))\<rparr>)"

definition session_SetUser :: "saver \<Rightarrow> string \<Rightarrow> int \<Rightarrow> string \<Rightarrow> string \<Rightarrow> session \<Rightarrow> bool \<times> session" where
  "session_SetUser save raw userID username role s = SetUserWithVersion save raw userID username role 1 s"

definition RefreshRole :: "saver \<Rightarrow> string \<Rightarrow> int \<Rightarrow> session \<Rightarrow> bool \<times> session" where
  "RefreshRole save role version s =
     (if se_err s then (False, s)
      else save_session save (s\<lparr>se_values := tbl_put ''session_version'' (SInt version)
        (tbl_put ''role'' (SStr role) (se_values s))\<rparr>))"

definition session_ID :: "session \<Rightarrow> string option" where
  "session_ID s =
     (if se_err s then None
      else case as_string (sess_get s ''sid'') of None \<Rightarrow> None | Some sid \<Rightarrow> if sid \<noteq> [] then Some sid else None)"

text \<open>The value and whether it is valid, as the source returns them.\<close>

definition UserID :: "session \<Rightarrow> int \<times> bool" where
  "UserID s =
     (if se_err s then (0, False)
      else case sess_get s ''user_id'' of Some (SInt64 i) \<Rightarrow> (i, i > 0) | _ \<Rightarrow> (0, False))"

text \<open>A positive fraction below one is converted to version 0 and reported as valid.\<close>

definition UserVersion :: "session \<Rightarrow> int \<times> bool" where
  "UserVersion s =
     (if se_err s then (0, False)
      else case sess_get s ''session_version'' of
        Some (SInt v) \<Rightarrow> (v, v > 0)
      | Some (SInt64 v) \<Rightarrow> (v, v > 0)
      | Some (SFloat v) \<Rightarrow> (f64_to_int v, v > 0)
      | _ \<Rightarrow> (0, False))"

definition SetPendingTOTPSetup :: "saver \<Rightarrow> string \<Rightarrow> time \<Rightarrow> session \<Rightarrow> bool \<times> session" where
  "SetPendingTOTPSetup save secret now s =
     (if se_err s then (False, s)
      else save_session save (s\<lparr>se_values :=
        tbl_put ''pending_totp_expires'' (SInt64 (unix (t_add now (10 * minute))))
          (tbl_put ''pending_totp_secret'' (SStr secret) (se_values s))\<rparr>))"

definition GetPendingTOTPSetup :: "time \<Rightarrow> session \<Rightarrow> string \<times> bool" where
  "GetPendingTOTPSetup now s =
     (if se_err s then ([], False)
      else let secret = as_string (sess_get s ''pending_totp_secret'');
               expires = (case sess_get s ''pending_totp_expires'' of Some (SInt64 e) \<Rightarrow> e | _ \<Rightarrow> 0)
        in (or_zero [] secret, secret \<noteq> None \<and> or_zero [] secret \<noteq> [] \<and> unix now < expires))"

definition ClearPendingTOTPSetup :: "saver \<Rightarrow> session \<Rightarrow> bool \<times> session" where
  "ClearPendingTOTPSetup save s =
     (if se_err s then (False, s)
      else save_session save (s\<lparr>se_values :=
        tbl_del ''pending_totp_expires'' (tbl_del ''pending_totp_secret'' (se_values s))\<rparr>))"

definition SetTelegramPairing :: "saver \<Rightarrow> int \<Rightarrow> string \<Rightarrow> time \<Rightarrow> session \<Rightarrow> bool \<times> session" where
  "SetTelegramPairing save userID code expires s =
     (if se_err s then (False, s)
      else save_session save (s\<lparr>se_values :=
        tbl_put ''telegram_pairing_user_id'' (SInt64 userID)
          (tbl_put ''telegram_pairing_expires'' (SInt64 (unix expires))
            (tbl_put ''telegram_pairing_code'' (SStr code) (se_values s)))\<rparr>))"

definition GetTelegramPairing :: "int \<Rightarrow> time \<Rightarrow> session \<Rightarrow> string \<times> bool" where
  "GetTelegramPairing userID now s =
     (if se_err s then ([], False)
      else let code = or_zero [] (as_string (sess_get s ''telegram_pairing_code''));
               expires = or_zero 0 (as_number (sess_get s ''telegram_pairing_expires''));
               pairedUserID = or_zero 0 (as_number (sess_get s ''telegram_pairing_user_id''))
        in (code, code \<noteq> [] \<and> pairedUserID = userID \<and> t_after (from_unix expires) now))"

definition ClearTelegramPairing :: "saver \<Rightarrow> session \<Rightarrow> bool \<times> session" where
  "ClearTelegramPairing save s =
     (if se_err s then (False, s)
      else save_session save (s\<lparr>se_values :=
        tbl_del ''telegram_pairing_user_id'' (tbl_del ''telegram_pairing_expires''
          (tbl_del ''telegram_pairing_code'' (se_values s)))\<rparr>))"

definition SensitiveTOTPUntil :: "session \<Rightarrow> time option" where
  "SensitiveTOTPUntil s =
     (if se_err s then None
      else case sess_get s ''sensitive_totp_until'' of
        Some (STime t) \<Rightarrow> Some (from_unix (unix t))
      | v \<Rightarrow> map_option from_unix (as_number v))"

definition SensitiveTOTPFresh :: "time \<Rightarrow> session \<Rightarrow> bool" where
  "SensitiveTOTPFresh now s = (case SensitiveTOTPUntil s of None \<Rightarrow> False | Some until \<Rightarrow> t_after until now)"

definition SetSensitiveTOTPFresh :: "saver \<Rightarrow> time \<Rightarrow> session \<Rightarrow> bool \<times> session" where
  "SetSensitiveTOTPFresh save until s =
     (if se_err s then (False, s)
      else save_session save (s\<lparr>se_values := tbl_put ''sensitive_totp_until'' (SInt64 (unix until)) (se_values s)\<rparr>))"

section \<open>Pending logins\<close>

record login_challenge =
  lc_userID :: int
  lc_version :: int
  lc_next :: string
  lc_expires :: time
  lc_attempts :: int

type_synonym challenges = "(string, login_challenge) table"

definition challengeLifetime :: duration where "challengeLifetime = 5 * minute"

definition challengeToken :: "session \<Rightarrow> string" where
  "challengeToken s = (if se_err s then [] else or_zero [] (as_string (sess_get s ''pending_2fa_token'')))"

definition purge_challenges :: "time \<Rightarrow> challenges \<Rightarrow> challenges" where
  "purge_challenges now items = tbl_mapf (\<lambda>_ c. if \<not> t_after (lc_expires c) now then None else Some c) items"

text \<open>The first critical section of \<open>SetPending2FA\<close>: none when too many logins are pending.\<close>

definition open_challenge :: "string \<Rightarrow> int \<Rightarrow> string \<Rightarrow> int \<Rightarrow> time \<Rightarrow> challenges \<Rightarrow> challenges option" where
  "open_challenge token userID next_path version now items =
     (let live = purge_challenges now items
      in if int (length live) \<ge> 10000 then None
         else Some (tbl_put token \<lparr>lc_userID = userID, lc_version = version, lc_next = next_path,
           lc_expires = t_add now challengeLifetime, lc_attempts = 0\<rparr> live))"

definition discardChallenge :: "session \<Rightarrow> challenges \<Rightarrow> challenges" where
  "discardChallenge s items = tbl_del (challengeToken s) items"

definition SetPending2FA ::
  "saver \<Rightarrow> string \<Rightarrow> int \<Rightarrow> string \<Rightarrow> int \<Rightarrow> time \<Rightarrow> session \<Rightarrow> challenges \<Rightarrow> bool \<times> session \<times> challenges" where
  "SetPending2FA save token userID next_path version now s items =
     (case open_challenge token userID next_path version now items of
        None \<Rightarrow> (False, s, purge_challenges now items)
      | Some items1 \<Rightarrow>
          (let items2 = discardChallenge s items1
           in case save_session save (s\<lparr>se_values := [(''pending_2fa_token'', SStr token)]\<rparr>) of
                (True, s') \<Rightarrow> (True, s', items2)
              | (False, s') \<Rightarrow> (False, s', tbl_del token items2)))"

definition zero_challenge :: login_challenge where
  "zero_challenge = \<lparr>lc_userID = 0, lc_version = 0, lc_next = [], lc_expires = zero_time, lc_attempts = 0\<rparr>"

definition GetPending2FA :: "time \<Rightarrow> session \<Rightarrow> challenges \<Rightarrow> int \<times> string \<times> int \<times> bool" where
  "GetPending2FA now s items =
     (let c = or_zero zero_challenge (tbl_get items (challengeToken s))
      in (lc_userID c, lc_next c, lc_version c,
          tbl_get items (challengeToken s) \<noteq> None \<and> t_after (lc_expires c) now))"

definition consume_challenge :: "string \<Rightarrow> int \<Rightarrow> int \<Rightarrow> time \<Rightarrow> challenges \<Rightarrow> bool \<times> challenges" where
  "consume_challenge token userID version now items =
     (case tbl_get items token of
        None \<Rightarrow> (False, tbl_del token items)
      | Some c \<Rightarrow> (lc_userID c = userID \<and> lc_version c = version \<and> t_after (lc_expires c) now, tbl_del token items))"

definition ConsumePending2FA :: "int \<Rightarrow> int \<Rightarrow> time \<Rightarrow> session \<Rightarrow> challenges \<Rightarrow> bool \<times> challenges" where
  "ConsumePending2FA userID version now s items = consume_challenge (challengeToken s) userID version now items"

definition allow_attempt :: "string \<Rightarrow> time \<Rightarrow> challenges \<Rightarrow> bool \<times> challenges" where
  "allow_attempt token now items =
     (case tbl_get items token of
        None \<Rightarrow> (False, tbl_del token items)
      | Some c \<Rightarrow>
          if \<not> t_after (lc_expires c) now \<or> lc_attempts c \<ge> 5 then (False, tbl_del token items)
          else (True, tbl_put token (c\<lparr>lc_attempts := lc_attempts c + 1\<rparr>) items))"

definition AllowPending2FAAttempt :: "time \<Rightarrow> session \<Rightarrow> challenges \<Rightarrow> bool \<times> challenges" where
  "AllowPending2FAAttempt now s items = allow_attempt (challengeToken s) now items"

definition ClearPending2FA :: "saver \<Rightarrow> session \<Rightarrow> challenges \<Rightarrow> bool \<times> session \<times> challenges" where
  "ClearPending2FA save s items =
     (if se_err s then (False, s, items)
      else let items' = discardChallenge s items
        in case save_session save (s\<lparr>se_values := tbl_del ''pending_2fa_token'' (se_values s)\<rparr>) of
             (ok, s') \<Rightarrow> (ok, s', items'))"

definition session_Clear :: "saver \<Rightarrow> session \<Rightarrow> challenges \<Rightarrow> session \<times> challenges" where
  "session_Clear save s items =
     (let items' = discardChallenge s items
      in (snd (save_session save (s\<lparr>se_deleted := True\<rparr>)), items'))"

section \<open>A pending login is good for five attempts and one login\<close>

text \<open>The critical sections on the pending logins, in the order the mutex lets them run. \<open>Drop\<close> is a
  deletion by a logout or by a login that gives up.\<close>

datatype challenge_event =
    Open string int string int time
  | Attempt string time
  | Consume string int int time
  | Drop string

fun event_answer :: "challenge_event \<Rightarrow> challenges \<Rightarrow> bool \<times> challenges" where
  "event_answer (Open tok u n v now) items =
     (case open_challenge tok u n v now items of None \<Rightarrow> (False, purge_challenges now items) | Some items' \<Rightarrow> (True, items'))"
| "event_answer (Attempt tok now) items = allow_attempt tok now items"
| "event_answer (Consume tok u v now) items = consume_challenge tok u v now items"
| "event_answer (Drop tok) items = (True, tbl_del tok items)"

fun is_attempt :: "string \<Rightarrow> challenge_event \<Rightarrow> bool" where
  "is_attempt tok (Attempt t _) = (t = tok)"
| "is_attempt tok _ = False"

fun is_consume :: "string \<Rightarrow> challenge_event \<Rightarrow> bool" where
  "is_consume tok (Consume t _ _ _) = (t = tok)"
| "is_consume tok _ = False"

fun is_open :: "string \<Rightarrow> challenge_event \<Rightarrow> bool" where
  "is_open tok (Open t _ _ _ _) = (t = tok)"
| "is_open tok _ = False"

text \<open>How many events of a run that satisfy \<open>P\<close> were answered with yes.\<close>

fun granted :: "(challenge_event \<Rightarrow> bool) \<Rightarrow> challenges \<Rightarrow> challenge_event list \<Rightarrow> nat" where
  "granted P items [] = 0"
| "granted P items (e # es) =
     (case event_answer e items of (yes, items') \<Rightarrow> (if P e \<and> yes then 1 else 0) + granted P items' es)"

text \<open>What a token is still good for.\<close>

definition attempts_left :: "string \<Rightarrow> challenges \<Rightarrow> nat" where
  "attempts_left tok items = (case tbl_get items tok of None \<Rightarrow> 0 | Some c \<Rightarrow> nat (5 - lc_attempts c))"

definition logins_left :: "string \<Rightarrow> challenges \<Rightarrow> nat" where
  "logins_left tok items = (if tbl_get items tok = None then 0 else 1)"

lemma tbl_get_purge: "tbl_ok items \<Longrightarrow> tbl_get (purge_challenges now items) tok = tbl_get items tok \<or> tbl_get (purge_challenges now items) tok = None"
  by (cases "tbl_get items tok") (auto simp: purge_challenges_def tbl_simps)

lemma tbl_ok_event: "tbl_ok items \<Longrightarrow> tbl_ok (snd (event_answer e items))"
  by (cases e) (auto simp: open_challenge_def purge_challenges_def allow_attempt_def consume_challenge_def Let_def split: option.splits)

lemma event_spends:
  assumes "tbl_ok items" "\<not> is_open tok e"
  shows "(if is_attempt tok e \<and> fst (event_answer e items) then 1 else 0) + attempts_left tok (snd (event_answer e items))
      \<le> attempts_left tok items"
    and "(if is_consume tok e \<and> fst (event_answer e items) then 1 else 0) + logins_left tok (snd (event_answer e items))
      \<le> logins_left tok items"
proof -
  have purged: "attempts_left tok (purge_challenges now items) \<le> attempts_left tok items"
    "logins_left tok (purge_challenges now items) \<le> logins_left tok items" for now
    using tbl_get_purge [OF assms(1), of now tok] by (auto simp: attempts_left_def logins_left_def)
  have gone: "\<exists>c. tbl_get items tok = Some c" if "tbl_get (purge_challenges now items) tok = Some c'" for now c'
    using tbl_get_purge [OF assms(1), of now tok] that by (metis option.distinct(1))
  show "(if is_attempt tok e \<and> fst (event_answer e items) then 1 else 0) + attempts_left tok (snd (event_answer e items))
      \<le> attempts_left tok items"
    using assms purged
    by (cases e) (auto simp: open_challenge_def Let_def allow_attempt_def consume_challenge_def attempts_left_def tbl_simps split: option.splits)
  show "(if is_consume tok e \<and> fst (event_answer e items) then 1 else 0) + logins_left tok (snd (event_answer e items))
      \<le> logins_left tok items"
    using assms
    by (cases e) (auto dest: gone simp: open_challenge_def Let_def allow_attempt_def consume_challenge_def logins_left_def tbl_simps split: option.splits)
qed

lemma granted_bounded:
  assumes "tbl_ok items" "list_all (\<lambda>e. \<not> is_open tok e) es"
  shows "granted (is_attempt tok) items es \<le> attempts_left tok items \<and> granted (is_consume tok) items es \<le> logins_left tok items"
  using assms
proof (induction es arbitrary: items)
  case (Cons e es)
  have "granted (is_attempt tok) (snd (event_answer e items)) es \<le> attempts_left tok (snd (event_answer e items)) \<and>
      granted (is_consume tok) (snd (event_answer e items)) es \<le> logins_left tok (snd (event_answer e items))"
    using Cons.prems by (intro Cons.IH tbl_ok_event) auto
  moreover have "\<not> is_open tok e" using Cons.prems by simp
  ultimately show ?case using event_spends [OF Cons.prems(1), of tok e]
    by (simp add: case_prod_unfold)
qed simp

fun run_challenges :: "challenge_event list \<Rightarrow> challenges \<Rightarrow> challenges" where
  "run_challenges [] items = items"
| "run_challenges (e # es) items = run_challenges es (snd (event_answer e items))"

lemma tbl_ok_run: "tbl_ok items \<Longrightarrow> tbl_ok (run_challenges es items)"
  by (induction es arbitrary: items) (simp_all add: tbl_ok_event)

text \<open>C29: a password check opens one pending login, good for five codes and one login. However the
  requests that follow interleave, a token that is not handed out again has at most five attempts
  granted and at most one login, and nothing is granted once the login was taken.\<close>

theorem pending_login_bounds:
  assumes "tbl_ok items" "open_challenge tok userID next_path version now items = Some pending"
    and "list_all (\<lambda>e. \<not> is_open tok e) es" "list_all (\<lambda>e. \<not> is_open tok e) later"
  shows "granted (is_attempt tok) pending es \<le> 5 \<and> granted (is_consume tok) pending es \<le> 1 \<and>
    granted (\<lambda>e. is_attempt tok e \<or> is_consume tok e)
      (run_challenges (es @ [Consume tok userID' version' now']) pending) later = 0"
proof -
  have ok: "tbl_ok pending"
    using assms(1,2) by (auto simp: open_challenge_def purge_challenges_def Let_def split: if_splits)
  have left: "attempts_left tok pending = 5" "logins_left tok pending = 1"
    using assms(2) by (auto simp: open_challenge_def Let_def attempts_left_def logins_left_def tbl_simps split: if_splits)
  let ?gone = "run_challenges (es @ [Consume tok userID' version' now']) pending"
  have "run_challenges (es @ [e]) items = snd (event_answer e (run_challenges es items))" for e items
    by (induction es arbitrary: items) simp_all
  then have "tbl_get ?gone tok = None" by (auto simp: consume_challenge_def tbl_simps split: option.split)
  then have "attempts_left tok ?gone = 0" "logins_left tok ?gone = 0" by (simp_all add: attempts_left_def logins_left_def)
  then have "granted (is_attempt tok) ?gone later = 0" "granted (is_consume tok) ?gone later = 0"
    using granted_bounded [OF tbl_ok_run [OF ok] assms(4), of "es @ [Consume tok userID' version' now']"] by auto
  moreover have "granted (\<lambda>e. is_attempt tok e \<or> is_consume tok e) items evs
      \<le> granted (is_attempt tok) items evs + granted (is_consume tok) items evs" for items evs
    by (induction evs arbitrary: items) (auto simp: case_prod_unfold intro: le_SucI)
  ultimately show ?thesis using granted_bounded [OF ok assms(3)] left by (metis add_0 le_zero_eq)
qed

text \<open>Six codes are tried against one pending login; the sixth is refused and the login is gone.\<close>

theorem pending_login_bounds_witness:
  "granted (is_attempt ''t'') [(''t'', \<lparr>lc_userID = 1, lc_version = 1, lc_next = ''/'', lc_expires = 300000000000, lc_attempts = 0\<rparr>)]
     (replicate 6 (Attempt ''t'' 1)) \<le> 5 \<and>
   granted (is_attempt ''t'') [(''t'', \<lparr>lc_userID = 1, lc_version = 1, lc_next = ''/'', lc_expires = 300000000000, lc_attempts = 0\<rparr>)]
     (replicate 6 (Attempt ''t'' 1)) = 5"
proof -
  have "open_challenge ''t'' 1 ''/'' 1 0 [] =
      Some [(''t'', \<lparr>lc_userID = 1, lc_version = 1, lc_next = ''/'', lc_expires = 300000000000, lc_attempts = 0\<rparr>)]"
    by code_simp
  moreover have "list_all (\<lambda>e. \<not> is_open ''t'' e) (replicate 6 (Attempt ''t'' 1))" by code_simp
  moreover have "granted (is_attempt ''t'') [(''t'', \<lparr>lc_userID = 1, lc_version = 1, lc_next = ''/'',
      lc_expires = 300000000000, lc_attempts = 0\<rparr>)] (replicate 6 (Attempt ''t'' 1)) = 5" by code_simp
  ultimately show ?thesis
    using pending_login_bounds [of "[]" "''t''" 1 "''/''" 1 0 _ "replicate 6 (Attempt ''t'' 1)" "[]"] by simp
qed

end
