(* ===== verification/User_Store.thy ===== *)
theory User_Store
  imports Api_Keys Alert_Delivery Netutil
begin

text \<open>
  The users of the web interface and what hangs on them: \<open>internal/store/user.go\<close>, the closed sessions of
  \<open>revoked_sessions.go\<close>, the login attempts of \<open>ip_bans.go\<close>, the audit log of \<open>audit.go\<close> and the push
  subscriptions of \<open>push.go\<close>. The tables follow the migrations: user names and endpoints are unique, a
  role is one of three, and deleting a user deletes its subscriptions and its Telegram destination.
  \<open>secrets\<close> is the box of the store, if it has one; the nonce of a sealed value is an argument. The
  hash of session IDs (SHA-256) and the URL parser of the Go library are parameters.
\<close>

section \<open>Users\<close>

record user =
  u_ID :: int
  u_Username :: string
  u_PasswordHash :: string
  u_Role :: string
  u_IsActive :: bool
  u_CreatedAt :: time
  u_LastLoginAt :: "time option"
  u_LastLoginIP :: string
  u_TOTPEnabled :: bool
  u_TOTPSecret :: string
  u_TOTPConfirmedAt :: "time option"
  u_TOTPGraceStartedAt :: "time option"
  u_SessionVersion :: int

record user_row =
  ur_id :: int
  ur_username :: string
  ur_password_hash :: string
  ur_role :: string
  ur_is_active :: bool
  ur_created_at :: time
  ur_last_login_at :: "time option"
  ur_last_login_ip :: "string option"
  ur_totp_enabled :: bool
  ur_totp_secret :: string
  ur_totp_confirmed_at :: "time option"
  ur_totp_grace_started_at :: "time option"
  ur_totp_last_step :: int
  ur_session_version :: int

record push_subscription =
  ps_ID :: int
  ps_UserID :: int
  ps_Endpoint :: string
  ps_P256DH :: string
  ps_Auth :: string
  ps_UserAgent :: string
  ps_CreatedAt :: time
  ps_LastSeenAt :: time

record login_attempt =
  la_ID :: int
  la_Username :: string
  la_IP :: string
  la_UserAgent :: string
  la_ClientDetails :: string
  la_Result :: string
  la_Reason :: string
  la_AttemptedAt :: time

record audit_log =
  au_ID :: int
  au_ActorUsername :: string
  au_ActorRole :: string
  au_ActorIP :: string
  au_Action :: string
  au_TargetType :: string
  au_TargetID :: string
  au_TargetName :: string
  au_Metadata :: string
  au_CreatedAt :: time

record user_db =
  ud_users :: "user_row auto_table"
  ud_push :: "push_subscription auto_table"
  ud_revoked :: "(string, int) table"
  ud_attempts :: "login_attempt auto_table"
  ud_audit :: "audit_log auto_table"
  ud_alerts :: alert_db

definition scanUser :: "secret_box option \<Rightarrow> user_row \<Rightarrow> sql_error + user" where
  "scanUser secrets r =
     (case (case secrets of None \<Rightarrow> Some (ur_totp_secret r) | Some b \<Rightarrow> Decrypt b (ur_totp_secret r)) of
        None \<Rightarrow> Inl (Refused ''decrypt'')
      | Some secret \<Rightarrow>
          Inr \<lparr>u_ID = ur_id r, u_Username = ur_username r, u_PasswordHash = ur_password_hash r,
            u_Role = ur_role r, u_IsActive = ur_is_active r, u_CreatedAt = ur_created_at r,
            u_LastLoginAt = ur_last_login_at r, u_LastLoginIP = null_text (ur_last_login_ip r),
            u_TOTPEnabled = ur_totp_enabled r, u_TOTPSecret = secret,
            u_TOTPConfirmedAt = ur_totp_confirmed_at r, u_TOTPGraceStartedAt = ur_totp_grace_started_at r,
            u_SessionVersion = ur_session_version r\<rparr>)"

definition query_user :: "secret_box option \<Rightarrow> (user_row \<Rightarrow> bool) \<Rightarrow> user_db \<Rightarrow> sql_error + user" where
  "query_user secrets P db = (case at_first P (ud_users db) of None \<Rightarrow> Inl NoRows | Some r \<Rightarrow> scanUser secrets r)"

definition GetUserByUsername :: "secret_box option \<Rightarrow> string \<Rightarrow> user_db \<Rightarrow> sql_error + user" where
  "GetUserByUsername secrets username db = query_user secrets (\<lambda>r. ur_username r = username) db"

definition GetUser :: "secret_box option \<Rightarrow> int \<Rightarrow> user_db \<Rightarrow> sql_error + user" where
  "GetUser secrets i db = query_user secrets (\<lambda>r. ur_id r = i) db"

fun scan_users :: "secret_box option \<Rightarrow> user_row list \<Rightarrow> sql_error + user list" where
  "scan_users secrets [] = Inr []"
| "scan_users secrets (r # rs) =
     bind_err (scanUser secrets r) (\<lambda>u. bind_err (scan_users secrets rs) (\<lambda>us. Inr (u # us)))"

definition ListUsers :: "secret_box option \<Rightarrow> user_db \<Rightarrow> sql_error + user list" where
  "ListUsers secrets db = scan_users secrets (sort_key ur_username (at_rows (ud_users db)))"

definition update_users :: "(user_row \<Rightarrow> bool) \<Rightarrow> (user_row \<Rightarrow> user_row) \<Rightarrow> user_db \<Rightarrow> user_db" where
  "update_users P f db = db\<lparr>ud_users := at_update P f (ud_users db)\<rparr>"

definition bump :: "user_row \<Rightarrow> user_row" where
  "bump r = r\<lparr>ur_session_version := ur_session_version r + 1\<rparr>"

definition UpdateUserLastLogin :: "int \<Rightarrow> string \<Rightarrow> time \<Rightarrow> user_db \<Rightarrow> user_db" where
  "UpdateUserLastLogin i ip now =
     update_users (\<lambda>r. ur_id r = i) (\<lambda>r. r\<lparr>ur_last_login_at := Some (sql_now now), ur_last_login_ip := Some ip\<rparr>)"

definition valid_roles :: "string list" where "valid_roles = [''admin'', ''editor'', ''reader'']"

definition new_user_row :: "string \<Rightarrow> string \<Rightarrow> string \<Rightarrow> time \<Rightarrow> int \<Rightarrow> user_row" where
  "new_user_row username hash role now i =
     \<lparr>ur_id = i, ur_username = username, ur_password_hash = hash, ur_role = role, ur_is_active = True,
      ur_created_at = sql_now now, ur_last_login_at = None, ur_last_login_ip = None, ur_totp_enabled = False,
      ur_totp_secret = [], ur_totp_confirmed_at = None, ur_totp_grace_started_at = None, ur_totp_last_step = 0,
      ur_session_version = 1\<rparr>"

definition CreateUser :: "string \<Rightarrow> string \<Rightarrow> string \<Rightarrow> time \<Rightarrow> user_db \<Rightarrow> sql_error + (int \<times> user_db)" where
  "CreateUser username hash role now db =
     (if role \<notin> set valid_roles then Inl (Refused ''role'')
      else if at_has (\<lambda>r. ur_username r = username) (ud_users db) then Inl (NotUnique ''users.username'')
      else case at_insert (new_user_row username hash role now) (ud_users db) of
        (i, t) \<Rightarrow> Inr (i, db\<lparr>ud_users := t\<rparr>))"

definition UpdateUserUsername :: "int \<Rightarrow> string \<Rightarrow> user_db \<Rightarrow> sql_error + user_db" where
  "UpdateUserUsername i username db =
     (if at_has (\<lambda>r. ur_id r = i) (ud_users db) \<and>
         at_has (\<lambda>r. ur_id r \<noteq> i \<and> ur_username r = username) (ud_users db) then Inl (NotUnique ''users.username'')
      else Inr (update_users (\<lambda>r. ur_id r = i) (\<lambda>r. bump (r\<lparr>ur_username := username\<rparr>)) db))"

definition UpdateUserPassword :: "int \<Rightarrow> string \<Rightarrow> user_db \<Rightarrow> user_db" where
  "UpdateUserPassword i hash = update_users (\<lambda>r. ur_id r = i) (\<lambda>r. bump (r\<lparr>ur_password_hash := hash\<rparr>))"

definition EnableUserTOTP :: "secret_box option \<Rightarrow> string \<Rightarrow> int \<Rightarrow> string \<Rightarrow> time \<Rightarrow> user_db \<Rightarrow> user_db" where
  "EnableUserTOTP secrets nonce i secret now =
     (let storedSecret = (case secrets of None \<Rightarrow> secret | Some b \<Rightarrow> Encrypt b nonce secret)
      in update_users (\<lambda>r. ur_id r = i) (\<lambda>r. bump (r\<lparr>ur_totp_enabled := True, ur_totp_secret := storedSecret,
           ur_totp_confirmed_at := Some (sql_now now), ur_totp_grace_started_at := None\<rparr>)))"

definition without_totp :: "user_row \<Rightarrow> user_row" where
  "without_totp r = bump (r\<lparr>ur_totp_enabled := False, ur_totp_secret := [], ur_totp_confirmed_at := None,
     ur_totp_grace_started_at := None, ur_totp_last_step := 0\<rparr>)"

definition DisableUserTOTP :: "int \<Rightarrow> user_db \<Rightarrow> user_db" where
  "DisableUserTOTP i = update_users (\<lambda>r. ur_id r = i) without_totp"

definition DisableUserTOTPByUsername :: "string \<Rightarrow> user_db \<Rightarrow> bool \<times> user_db" where
  "DisableUserTOTPByUsername username db =
     (at_has (\<lambda>r. ur_username r = username) (ud_users db), update_users (\<lambda>r. ur_username r = username) without_totp db)"

definition ClaimUserTOTPStep :: "int \<Rightarrow> int \<Rightarrow> user_db \<Rightarrow> bool \<times> user_db" where
  "ClaimUserTOTPStep i step db =
     (length (at_select (\<lambda>r. ur_id r = i \<and> ur_totp_last_step r < step) (ud_users db)) = 1,
      update_users (\<lambda>r. ur_id r = i \<and> ur_totp_last_step r < step) (\<lambda>r. r\<lparr>ur_totp_last_step := step\<rparr>) db)"

definition ReactivateUserByUsername :: "string \<Rightarrow> user_db \<Rightarrow> bool \<times> user_db" where
  "ReactivateUserByUsername username db =
     (at_has (\<lambda>r. ur_username r = username) (ud_users db),
      update_users (\<lambda>r. ur_username r = username)
        (\<lambda>r. bump (r\<lparr>ur_is_active := True, ur_totp_grace_started_at := None\<rparr>)) db)"

definition active_admin :: "user_row \<Rightarrow> bool" where
  "active_admin r \<longleftrightarrow> ur_role r = ''admin'' \<and> ur_is_active r"

definition IsLastActiveAdmin :: "int \<Rightarrow> user_db \<Rightarrow> bool" where
  "IsLastActiveAdmin i db \<longleftrightarrow>
     at_has (\<lambda>r. ur_id r = i \<and> active_admin r) (ud_users db) \<and>
     \<not> at_has (\<lambda>r. ur_id r \<noteq> i \<and> active_admin r) (ud_users db)"

definition StartUserTOTPGrace :: "int \<Rightarrow> time \<Rightarrow> user_db \<Rightarrow> user_db" where
  "StartUserTOTPGrace i now =
     update_users (\<lambda>r. ur_id r = i) (\<lambda>r. r\<lparr>ur_totp_grace_started_at :=
       (case ur_totp_grace_started_at r of None \<Rightarrow> Some (sql_now now) | Some t \<Rightarrow> Some t)\<rparr>)"

definition ClearUserTOTPGrace :: "user_db \<Rightarrow> user_db" where
  "ClearUserTOTPGrace = update_users (\<lambda>_. True) (\<lambda>r. r\<lparr>ur_totp_grace_started_at := None\<rparr>)"

definition DeletePushSubscriptionsByUser :: "int \<Rightarrow> user_db \<Rightarrow> user_db" where
  "DeletePushSubscriptionsByUser userID db = db\<lparr>ud_push := at_delete (\<lambda>s. ps_UserID s = userID) (ud_push db)\<rparr>"

definition SetUserActive :: "int \<Rightarrow> bool \<Rightarrow> user_db \<Rightarrow> user_db" where
  "SetUserActive i active db =
     (let db1 = update_users (\<lambda>r. ur_id r = i) (\<lambda>r. bump (r\<lparr>ur_is_active := active\<rparr>)) db
      in if \<not> active then DeletePushSubscriptionsByUser i db1 else db1)"

definition UpdateUserRole :: "int \<Rightarrow> string \<Rightarrow> user_db \<Rightarrow> sql_error + user_db" where
  "UpdateUserRole i role db =
     (if role \<notin> set valid_roles \<and> at_has (\<lambda>r. ur_id r = i) (ud_users db) then Inl (Refused ''role'')
      else Inr (update_users (\<lambda>r. ur_id r = i) (\<lambda>r. bump (r\<lparr>ur_role := role\<rparr>)) db))"

definition ToggleUser :: "int \<Rightarrow> user_db \<Rightarrow> user_db" where
  "ToggleUser i db =
     (let db1 = update_users (\<lambda>r. ur_id r = i) (\<lambda>r. bump (r\<lparr>ur_is_active := \<not> ur_is_active r\<rparr>)) db
      in db1\<lparr>ud_push := at_delete (\<lambda>s. ps_UserID s = i \<and>
           at_has (\<lambda>r. ur_id r = i \<and> \<not> ur_is_active r) (ud_users db1)) (ud_push db1)\<rparr>)"

definition DeleteUser :: "int \<Rightarrow> user_db \<Rightarrow> user_db" where
  "DeleteUser i db =
     (if at_has (\<lambda>r. ur_id r = i) (ud_users db) then
        DeletePushSubscriptionsByUser i (db\<lparr>ud_users := at_delete (\<lambda>r. ur_id r = i) (ud_users db),
          ud_alerts := DeleteTelegramDestinationForUser i (ud_alerts db)\<rparr>)
      else db)"

definition HasUsers :: "user_db \<Rightarrow> bool" where
  "HasUsers db \<longleftrightarrow> int (length (at_rows (ud_users db))) > 0"

section \<open>Closed sessions\<close>

definition RevokeSession :: "(string \<Rightarrow> string) \<Rightarrow> string \<Rightarrow> time \<Rightarrow> time \<Rightarrow> user_db \<Rightarrow> user_db" where
  "RevokeSession sessionIDHash sid expiresAt now db =
     (let kept = filter (\<lambda>(_, expires). \<not> expires < unix now) (ud_revoked db)
      in db\<lparr>ud_revoked := tbl_put (sessionIDHash sid) (unix expiresAt) kept\<rparr>)"

definition IsSessionRevoked :: "(string \<Rightarrow> string) \<Rightarrow> string \<Rightarrow> user_db \<Rightarrow> bool" where
  "IsSessionRevoked sessionIDHash sid db \<longleftrightarrow> tbl_get (ud_revoked db) (sessionIDHash sid) \<noteq> None"

section \<open>Login attempts and the audit log\<close>

definition sql_page :: "int \<Rightarrow> int \<Rightarrow> 'r list \<Rightarrow> 'r list" where
  "sql_page limit offset rows = take (nat limit) (drop (nat offset) rows)"

definition InsertLoginAttempt ::
  "string \<Rightarrow> string \<Rightarrow> string \<Rightarrow> string \<Rightarrow> string \<Rightarrow> string \<Rightarrow> time \<Rightarrow> user_db \<Rightarrow> user_db" where
  "InsertLoginAttempt username ip userAgent clientDetails result reason now db =
     db\<lparr>ud_attempts := snd (at_insert (\<lambda>i. \<lparr>la_ID = i, la_Username = truncateRunes username 128,
        la_IP = truncateRunes ip 64, la_UserAgent = truncateRunes userAgent 512,
        la_ClientDetails = clientDetails, la_Result = result, la_Reason = reason,
        la_AttemptedAt = sql_now now\<rparr>) (ud_attempts db))\<rparr>"

definition DeleteOldLoginAttempts :: "time \<Rightarrow> user_db \<Rightarrow> int \<times> user_db" where
  "DeleteOldLoginAttempts cutoff db =
     (let old = (\<lambda>a. la_AttemptedAt a < sql_now cutoff)
      in (int (length (at_select old (ud_attempts db))), db\<lparr>ud_attempts := at_delete old (ud_attempts db)\<rparr>))"

definition ListLoginAttemptsPage :: "int \<Rightarrow> int \<Rightarrow> user_db \<Rightarrow> login_attempt list" where
  "ListLoginAttemptsPage limit offset db =
     sql_page (if limit \<le> 0 then 50 else limit) (if offset < 0 then 0 else offset)
       (newest_first la_AttemptedAt (at_rows (ud_attempts db)))"

definition ListLoginAttempts :: "int \<Rightarrow> user_db \<Rightarrow> login_attempt list" where
  "ListLoginAttempts limit db = ListLoginAttemptsPage limit 0 db"

definition InsertAuditLog :: "audit_log \<Rightarrow> time \<Rightarrow> user_db \<Rightarrow> user_db" where
  "InsertAuditLog entry now db =
     db\<lparr>ud_audit := snd (at_insert (\<lambda>i. entry\<lparr>au_ID := i, au_CreatedAt := sql_now now\<rparr>) (ud_audit db))\<rparr>"

definition ListAuditLogsPage :: "int \<Rightarrow> int \<Rightarrow> user_db \<Rightarrow> audit_log list" where
  "ListAuditLogsPage limit offset db =
     sql_page (if limit \<le> 0 then 200 else limit) (if offset < 0 then 0 else offset)
       (newest_first au_CreatedAt (at_rows (ud_audit db)))"

definition ListAuditLogs :: "int \<Rightarrow> user_db \<Rightarrow> audit_log list" where
  "ListAuditLogs limit db = ListAuditLogsPage limit 0 db"

section \<open>Push subscriptions\<close>

record go_url =
  url_Scheme :: string
  url_Host :: string
  url_Hostname :: string
  url_Port :: string
  url_HasUser :: bool
  url_Path :: string
  url_Fragment :: string

definition maxPushSubscriptionsPerUser :: int where "maxPushSubscriptionsPerUser = 10"

definition validatePushSubscription :: "(string \<Rightarrow> go_url option) \<Rightarrow> push_subscription \<Rightarrow> bool" where
  "validatePushSubscription url_Parse sub =
     (if ps_Endpoint sub = [] \<or> length (ps_Endpoint sub) > 4096 then False
      else case url_Parse (ps_Endpoint sub) of
        None \<Rightarrow> False
      | Some u \<Rightarrow>
          if url_Scheme u \<noteq> ''https'' \<or> url_Host u = [] \<or> url_HasUser u \<or> url_Fragment u \<noteq> [] \<or>
             url_Port u \<noteq> [] \<and> url_Port u \<noteq> ''443'' then False
          else (let host = to_lower (url_Hostname u)
            in if host = ''localhost'' \<or> has_suffix host ''.localhost'' then False
               else if (case ParseAddr host of Some ip \<Rightarrow> \<not> IsPublicIP ip | None \<Rightarrow> False) then False
               else if ps_P256DH sub = [] \<or> length (ps_P256DH sub) > 512 \<or> ps_Auth sub = [] \<or> length (ps_Auth sub) > 512
               then False
               else \<not> (length (ps_UserAgent sub) > 512 \<or> CHR 0x0D \<in> set (ps_UserAgent sub) \<or> CHR 0x0A \<in> set (ps_UserAgent sub))))"

text \<open>\<open>ORDER BY last_seen_at DESC, id DESC LIMIT ?\<close> over the rows of one user: the rows to keep.\<close>

definition newest_subs :: "int \<Rightarrow> push_subscription list \<Rightarrow> push_subscription list" where
  "newest_subs userID rows =
     take (nat maxPushSubscriptionsPerUser) (newest_first ps_LastSeenAt (filter (\<lambda>s. ps_UserID s = userID) rows))"

definition AddPushSubscription ::
  "(string \<Rightarrow> go_url option) \<Rightarrow> push_subscription \<Rightarrow> time \<Rightarrow> user_db \<Rightarrow> (sql_error + int) \<times> user_db" where
  "AddPushSubscription url_Parse sub now db =
     (if \<not> validatePushSubscription url_Parse sub then (Inl (Refused ''invalid push subscription''), db)
      else if \<not> at_has (\<lambda>r. ur_id r = ps_UserID sub) (ud_users db) then (Inl (NoParent ''users''), db)
      else let t1 = (if at_has (\<lambda>s. ps_Endpoint s = ps_Endpoint sub) (ud_push db)
                 then at_update (\<lambda>s. ps_Endpoint s = ps_Endpoint sub)
                   (\<lambda>s. s\<lparr>ps_UserID := ps_UserID sub, ps_P256DH := ps_P256DH sub, ps_Auth := ps_Auth sub,
                         ps_UserAgent := ps_UserAgent sub, ps_LastSeenAt := sql_now now\<rparr>) (ud_push db)
                 else snd (at_insert (\<lambda>i. sub\<lparr>ps_ID := i, ps_CreatedAt := sql_now now, ps_LastSeenAt := sql_now now\<rparr>)
                   (ud_push db)));
               keep = map ps_ID (newest_subs (ps_UserID sub) (at_rows t1));
               t2 = at_delete (\<lambda>s. ps_UserID s = ps_UserID sub \<and> ps_ID s \<notin> set keep) t1
        in ((case at_first (\<lambda>s. ps_Endpoint s = ps_Endpoint sub \<and> ps_UserID s = ps_UserID sub) t2 of
               None \<Rightarrow> Inl NoRows | Some s \<Rightarrow> Inr (ps_ID s)), db\<lparr>ud_push := t2\<rparr>))"

definition RemovePushSubscription :: "int \<Rightarrow> string \<Rightarrow> user_db \<Rightarrow> user_db" where
  "RemovePushSubscription userID endpoint db =
     db\<lparr>ud_push := at_delete (\<lambda>s. ps_Endpoint s = endpoint \<and> ps_UserID s = userID) (ud_push db)\<rparr>"

definition ListPushSubscriptionsByUser :: "int \<Rightarrow> user_db \<Rightarrow> push_subscription list" where
  "ListPushSubscriptionsByUser userID db =
     sort_key (\<lambda>s. - ps_LastSeenAt s) (at_select (\<lambda>s. ps_UserID s = userID) (ud_push db))"

definition ListAllPushSubscriptions :: "user_db \<Rightarrow> push_subscription list" where
  "ListAllPushSubscriptions db =
     at_select (\<lambda>s. at_has (\<lambda>r. ur_id r = ps_UserID s \<and> ur_is_active r) (ud_users db)) (ud_push db)"

definition CountPushSubscriptions :: "user_db \<Rightarrow> int" where
  "CountPushSubscriptions db = int (length (at_rows (ud_push db)))"

section \<open>The invariant of the user tables\<close>

definition user_row_ok :: "user_row \<Rightarrow> bool" where
  "user_row_ok r \<longleftrightarrow> ur_role r \<in> set valid_roles \<and> 1 \<le> ur_session_version r"

text \<open>A column with a unique index: rows with the same value are the same row.\<close>

definition unique_by :: "('r \<Rightarrow> 'k) \<Rightarrow> ('r \<Rightarrow> int) \<Rightarrow> 'r auto_table \<Rightarrow> bool" where
  "unique_by key idf t \<longleftrightarrow> (\<forall>r\<in>set (at_rows t). \<forall>s\<in>set (at_rows t). key r = key s \<longrightarrow> idf r = idf s)"

abbreviation names_once :: "user_row auto_table \<Rightarrow> bool" where "names_once \<equiv> unique_by ur_username ur_id"

abbreviation endpoints_once :: "push_subscription auto_table \<Rightarrow> bool" where
  "endpoints_once \<equiv> unique_by ps_Endpoint ps_ID"

lemma unique_by_delete: "unique_by key idf t \<Longrightarrow> unique_by key idf (at_delete P t)"
  by (simp add: unique_by_def at_rows_simps)

lemma unique_by_insert:
  assumes "unique_by key idf t" "\<not> at_has (\<lambda>r. key r = key (mk (at_seq t + 1))) t"
  shows "unique_by key idf (snd (at_insert mk t))"
proof -
  define n where "n = mk (at_seq t + 1)"
  have new: "\<forall>r\<in>set (at_rows t). key r \<noteq> key n" using assms(2) by (auto simp: at_has_iff n_def)
  have "set (at_rows (snd (at_insert mk t))) = insert n (set (at_rows t))" by (simp add: at_rows_simps n_def)
  then show ?thesis using assms(1) new unfolding unique_by_def by (metis insertE)
qed

lemma all_updated: "(\<forall>r\<in>set (at_rows (at_update P f t)). Q r) \<longleftrightarrow> (\<forall>r\<in>set (at_rows t). Q (if P r then f r else r))"
  by (auto simp: at_rows_simps)

lemma unique_by_same:
  assumes "unique_by key idf t" "\<And>r. idf (f r) = idf r" "\<And>r. key (f r) = key r"
  shows "unique_by key idf (at_update P f t)"
proof -
  have "idf (if P r then f r else r) = idf r" "key (if P r then f r else r) = key r" for r
    using assms(2,3) by auto
  then show ?thesis using assms(1) unfolding unique_by_def all_updated by (simp only:)
qed

lemma unique_by_rekey:
  assumes "unique_by key idf t" "\<And>r. idf (f r) = idf r" "\<And>r. key (f r) = k"
    and "\<not> at_has (\<lambda>r. idf r \<noteq> i \<and> key r = k) t"
  shows "unique_by key idf (at_update (\<lambda>r. idf r = i) f t)"
proof -
  have "idf (if idf r = i then f r else r) = idf r" "key (if idf r = i then f r else r) = (if idf r = i then k else key r)" for r
    using assms(2,3) by auto
  then show ?thesis using assms(1,4) unfolding unique_by_def all_updated at_has_iff by (simp only:) metis
qed

definition subs_of :: "int \<Rightarrow> push_subscription auto_table \<Rightarrow> nat" where
  "subs_of i t = length (at_select (\<lambda>s. ps_UserID s = i) t)"

definition accounts_ok :: "user_row auto_table \<Rightarrow> bool" where
  "accounts_ok t \<longleftrightarrow> at_ok ur_id t \<and> names_once t \<and> (\<forall>r\<in>set (at_rows t). user_row_ok r)"

definition subs_ok :: "push_subscription auto_table \<Rightarrow> bool" where
  "subs_ok t \<longleftrightarrow> at_ok ps_ID t \<and> endpoints_once t \<and> (\<forall>i. subs_of i t \<le> nat maxPushSubscriptionsPerUser)"

definition users_ok :: "user_db \<Rightarrow> bool" where
  "users_ok db \<longleftrightarrow> accounts_ok (ud_users db) \<and> subs_ok (ud_push db) \<and>
     refs_in ps_UserID ur_id (ud_push db) (ud_users db) \<and> tbl_ok (ud_revoked db)"

lemma users_okD: "users_ok db \<Longrightarrow> accounts_ok (ud_users db)" "users_ok db \<Longrightarrow> subs_ok (ud_push db)"
  "users_ok db \<Longrightarrow> refs_in ps_UserID ur_id (ud_push db) (ud_users db)" "users_ok db \<Longrightarrow> tbl_ok (ud_revoked db)"
  by (simp_all add: users_ok_def)

lemma accounts_ok_update:
  assumes "accounts_ok t" "\<And>r. ur_id (f r) = ur_id r" "\<And>r. user_row_ok r \<Longrightarrow> P r \<Longrightarrow> user_row_ok (f r)"
    and "names_once (at_update P f t)"
  shows "accounts_ok (at_update P f t)"
  using assms unfolding accounts_ok_def all_updated by (simp add: at_ok_update)

lemma length_filter_filter: "length (filter Q (filter P xs)) \<le> length (filter Q xs)"
  by (induction xs) auto

lemma subs_ok_delete:
  assumes "subs_ok t"
  shows "subs_ok (at_delete P t)"
proof -
  have "subs_of i (at_delete P t) \<le> subs_of i t" for i
    unfolding subs_of_def at_select_def at_rows_simps by (rule length_filter_filter)
  then show ?thesis using assms unfolding subs_ok_def by (meson at_ok_delete unique_by_delete order_trans)
qed

lemma users_ok_update:
  assumes "users_ok db" "\<And>r. ur_id (f r) = ur_id r" "\<And>r. user_row_ok r \<Longrightarrow> P r \<Longrightarrow> user_row_ok (f r)"
    and "names_once (at_update P f (ud_users db))"
  shows "users_ok (update_users P f db)"
  using assms by (simp add: users_ok_def update_users_def accounts_ok_update refs_in_parent_update)

lemma users_ok_same:
  assumes "users_ok db" "\<And>r. ur_id (f r) = ur_id r" "\<And>r. ur_username (f r) = ur_username r"
    and "\<And>r. user_row_ok r \<Longrightarrow> user_row_ok (f r)"
  shows "users_ok (update_users P f db)"
  using assms by (intro users_ok_update unique_by_same) (auto simp: users_ok_def accounts_ok_def)

lemma users_ok_drop_push: "users_ok db \<Longrightarrow> users_ok (db\<lparr>ud_push := at_delete P (ud_push db)\<rparr>)"
  by (simp add: users_ok_def subs_ok_delete refs_in_subset)

lemma users_ok_other:
  "users_ok (db\<lparr>ud_attempts := a\<rparr>) = users_ok db" "users_ok (db\<lparr>ud_audit := l\<rparr>) = users_ok db"
  "users_ok (db\<lparr>ud_alerts := x\<rparr>) = users_ok db"
  by (simp_all add: users_ok_def)

lemma bump_simps [simp]:
  "ur_id (bump r) = ur_id r" "ur_username (bump r) = ur_username r" "ur_role (bump r) = ur_role r"
  "ur_is_active (bump r) = ur_is_active r" "ur_totp_last_step (bump r) = ur_totp_last_step r"
  "ur_session_version (bump r) = ur_session_version r + 1"
  by (simp_all add: bump_def)

lemma users_ok_create:
  assumes ok: "users_ok db" and new: "CreateUser username hash role now db = Inr (i, db')"
  shows "users_ok db'"
proof -
  let ?t = "snd (at_insert (new_user_row username hash role now) (ud_users db))"
  have role: "role \<in> set valid_roles" and name: "\<not> at_has (\<lambda>r. ur_username r = username) (ud_users db)"
    and db': "db' = db\<lparr>ud_users := ?t\<rparr>"
    using new by (auto simp: CreateUser_def split: if_splits prod.splits)
  have "at_ok ur_id ?t" using users_okD(1) [OF ok] by (intro at_ok_insert) (auto simp: accounts_ok_def new_user_row_def)
  moreover have "names_once ?t"
    using users_okD(1) [OF ok] name by (intro unique_by_insert) (simp_all add: accounts_ok_def new_user_row_def)
  moreover have "\<forall>r\<in>set (at_rows ?t). user_row_ok r"
    using users_okD(1) [OF ok] role
    unfolding accounts_ok_def at_rows_simps set_append ball_Un by (simp add: user_row_ok_def new_user_row_def)
  ultimately show ?thesis
    using ok by (simp add: users_ok_def db' accounts_ok_def refs_in_parent_insert)
qed

lemma users_ok_rename:
  assumes ok: "users_ok db" and new: "UpdateUserUsername i username db = Inr db'"
  shows "users_ok db'"
proof -
  let ?f = "\<lambda>r. bump (r\<lparr>ur_username := username\<rparr>)" and ?P = "\<lambda>r. ur_id r = i"
  have names: "names_once (ud_users db)" using users_okD(1) [OF ok] by (simp add: accounts_ok_def)
  have db': "db' = update_users ?P ?f db" using new by (auto simp: UpdateUserUsername_def split: if_splits)
  have "names_once (at_update ?P ?f (ud_users db))"
  proof (cases "at_has ?P (ud_users db)")
    case True
    then show ?thesis using new names
      by (intro unique_by_rekey [where k = username]) (auto simp: UpdateUserUsername_def split: if_splits)
  next
    case False
    then have "at_update ?P ?f (ud_users db) = ud_users db"
      by (simp add: at_update_def at_has_iff cong: map_cong)
    then show ?thesis using names by simp
  qed
  then show ?thesis unfolding db' using ok by (intro users_ok_update) (simp_all add: user_row_ok_def)
qed

lemma users_ok_delete:
  assumes "users_ok db"
  shows "users_ok (DeleteUser i db)"
proof -
  have "refs_in ps_UserID ur_id (at_delete (\<lambda>s. ps_UserID s = i) (ud_push db)) (at_delete (\<lambda>r. ur_id r = i) (ud_users db))"
    using users_okD(3) [OF assms] by (rule refs_in_delete) simp
  then show ?thesis using assms
    by (simp add: users_ok_def accounts_ok_def DeleteUser_def DeletePushSubscriptionsByUser_def at_ok_delete
        subs_ok_delete unique_by_delete at_rows_simps)
qed

subsection \<open>A new push subscription\<close>

definition with_subscription :: "push_subscription \<Rightarrow> time \<Rightarrow> push_subscription auto_table \<Rightarrow> push_subscription auto_table" where
  "with_subscription sub now t =
     (if at_has (\<lambda>s. ps_Endpoint s = ps_Endpoint sub) t
      then at_update (\<lambda>s. ps_Endpoint s = ps_Endpoint sub)
        (\<lambda>s. s\<lparr>ps_UserID := ps_UserID sub, ps_P256DH := ps_P256DH sub, ps_Auth := ps_Auth sub,
              ps_UserAgent := ps_UserAgent sub, ps_LastSeenAt := sql_now now\<rparr>) t
      else snd (at_insert (\<lambda>i. sub\<lparr>ps_ID := i, ps_CreatedAt := sql_now now, ps_LastSeenAt := sql_now now\<rparr>) t))"

lemma length_filter_moved:
  "(\<And>r. P r \<Longrightarrow> \<not> Q (f r)) \<Longrightarrow> length (filter Q (map (\<lambda>r. if P r then f r else r) xs)) \<le> length (filter Q xs)"
  by (induction xs) auto

lemma with_subscription_ok:
  assumes ok: "at_ok ps_ID t" "endpoints_once t"
  shows "at_ok ps_ID (with_subscription sub now t)" "endpoints_once (with_subscription sub now t)"
    "i \<noteq> ps_UserID sub \<Longrightarrow> subs_of i (with_subscription sub now t) \<le> subs_of i t"
proof -
  show "at_ok ps_ID (with_subscription sub now t)"
    using ok(1) by (simp add: with_subscription_def at_ok_update at_ok_insert)
  show "endpoints_once (with_subscription sub now t)"
    using ok(2) by (simp add: with_subscription_def unique_by_same unique_by_insert)
  show "i \<noteq> ps_UserID sub \<Longrightarrow> subs_of i (with_subscription sub now t) \<le> subs_of i t"
    unfolding with_subscription_def subs_of_def at_select_def
    by (cases "at_has (\<lambda>s. ps_Endpoint s = ps_Endpoint sub) t")
      (simp_all only: if_True if_False at_rows_simps, rule length_filter_moved, simp_all)
qed

lemma with_subscription_refs:
  assumes "refs_in ps_UserID ur_id t users" "at_has (\<lambda>r. ur_id r = ps_UserID sub) users"
  shows "refs_in ps_UserID ur_id (with_subscription sub now t) users"
proof -
  have "ps_UserID sub \<in> ur_id ` set (at_rows users)" using assms(2) by (force simp: at_has_iff)
  then have "refs_in ps_UserID ur_id (at_update P (\<lambda>s. s\<lparr>ps_UserID := ps_UserID sub, ps_P256DH := a,
      ps_Auth := b, ps_UserAgent := c, ps_LastSeenAt := d\<rparr>) t) users" for P a b c d
    using assms(1) unfolding refs_in_def image_subset_iff all_updated by simp
  then show ?thesis using assms by (simp add: with_subscription_def refs_in_child_insert)
qed

lemma kept_subs_bounded:
  assumes "at_ok ps_ID t"
  shows "subs_of i (at_delete (\<lambda>s. ps_UserID s = i \<and> ps_ID s \<notin> set (map ps_ID (newest_subs i (at_rows t)))) t)
    \<le> nat maxPushSubscriptionsPerUser"
proof -
  define keep where "keep = map ps_ID (newest_subs i (at_rows t))"
  define rows where "rows = filter (\<lambda>s. ps_UserID s = i \<and> ps_ID s \<in> set keep) (at_rows t)"
  have "distinct (map ps_ID (at_rows t))" using assms by (auto simp: at_ok_def strict_sorted_iff)
  then have "distinct (map ps_ID rows)" unfolding rows_def by (rule distinct_map_filter)
  then have "length rows = card (ps_ID ` set rows)" using distinct_card [of "map ps_ID rows"] by simp
  also have "\<dots> \<le> card (set keep)" by (rule card_mono) (auto simp: rows_def)
  also have "\<dots> \<le> length keep" by (rule card_length)
  also have "\<dots> \<le> nat maxPushSubscriptionsPerUser" by (simp add: keep_def newest_subs_def)
  finally have "length rows \<le> nat maxPushSubscriptionsPerUser" .
  moreover have "filter (\<lambda>s. ps_UserID s = i) (filter (\<lambda>s. \<not> (ps_UserID s = i \<and> ps_ID s \<notin> set keep)) (at_rows t)) = rows"
    unfolding rows_def filter_filter by (rule filter_cong) auto
  ultimately show ?thesis unfolding subs_of_def at_select_def at_rows_simps keep_def [symmetric] by (simp only:)
qed

lemma users_ok_subscribe:
  assumes ok: "users_ok db"
  shows "users_ok (snd (AddPushSubscription url_Parse sub now db))"
proof -
  let ?t1 = "with_subscription sub now (ud_push db)"
  let ?drop = "\<lambda>s. ps_UserID s = ps_UserID sub \<and> ps_ID s \<notin> set (map ps_ID (newest_subs (ps_UserID sub) (at_rows ?t1)))"
  have t: "at_ok ps_ID (ud_push db)" "endpoints_once (ud_push db)" "\<And>i. subs_of i (ud_push db) \<le> nat maxPushSubscriptionsPerUser"
    using users_okD(2) [OF ok] by (simp_all add: subs_ok_def)
  note t1 = with_subscription_ok [OF t(1,2), where sub = sub and now = now]
  have "subs_of i (at_delete ?drop ?t1) \<le> nat maxPushSubscriptionsPerUser" for i
  proof (cases "i = ps_UserID sub")
    case True
    then show ?thesis using kept_subs_bounded [OF t1(1), of i] by simp
  next
    case False
    have "subs_of i (at_delete ?drop ?t1) \<le> subs_of i ?t1"
      unfolding subs_of_def at_select_def at_rows_simps by (rule length_filter_filter)
    then show ?thesis using t1(3) [OF False] t(3) [of i] by linarith
  qed
  then have subs: "subs_ok (at_delete ?drop ?t1)"
    unfolding subs_ok_def using t1(1,2) by (blast intro: at_ok_delete unique_by_delete)
  show ?thesis
  proof (cases "validatePushSubscription url_Parse sub \<and> at_has (\<lambda>r. ur_id r = ps_UserID sub) (ud_users db)")
    case True
    then have "snd (AddPushSubscription url_Parse sub now db) = db\<lparr>ud_push := at_delete ?drop ?t1\<rparr>"
      by (simp add: AddPushSubscription_def Let_def with_subscription_def)
    moreover have "refs_in ps_UserID ur_id (at_delete ?drop ?t1) (ud_users db)"
      using users_okD(3) [OF ok] True by (intro refs_in_subset with_subscription_refs) auto
    ultimately show ?thesis using ok subs by (simp add: users_ok_def)
  qed (use ok in \<open>auto simp: AddPushSubscription_def\<close>)
qed

section \<open>Runs of the user store\<close>

text \<open>Every statement the server runs on these tables. Grace periods, logins and claimed steps come from
  the login, the rest from administration. The set of a step holds the users whose second factor it
  resets.\<close>

inductive user_step :: "int set \<Rightarrow> user_db \<Rightarrow> user_db \<Rightarrow> bool" where
  last_login: "user_step {} db (UpdateUserLastLogin i ip now db)"
| create: "CreateUser username hash role now db = Inr (i, db') \<Longrightarrow> user_step {} db db'"
| rename: "UpdateUserUsername i username db = Inr db' \<Longrightarrow> user_step {} db db'"
| password: "user_step {} db (UpdateUserPassword i hash db)"
| enable_totp: "user_step {} db (EnableUserTOTP secrets nonce i secret now db)"
| disable_totp: "user_step {i} db (DisableUserTOTP i db)"
| disable_totp_name: "user_step {ur_id r | r. r \<in> set (at_rows (ud_users db)) \<and> ur_username r = username} db (snd (DisableUserTOTPByUsername username db))"
| claim: "user_step {} db (snd (ClaimUserTOTPStep i step db))"
| reactivate: "user_step {} db (snd (ReactivateUserByUsername username db))"
| grace: "user_step {} db (StartUserTOTPGrace i now db)"
| clear_grace: "user_step {} db (ClearUserTOTPGrace db)"
| set_active: "user_step {} db (SetUserActive i active db)"
| role: "UpdateUserRole i role db = Inr db' \<Longrightarrow> user_step {} db db'"
| toggle: "user_step {} db (ToggleUser i db)"
| delete: "user_step {} db (DeleteUser i db)"
| revoke: "user_step {} db (RevokeSession sessionIDHash sid expiresAt now db)"
| attempt: "user_step {} db (InsertLoginAttempt username ip userAgent details result reason now db)"
| old_attempts: "user_step {} db (snd (DeleteOldLoginAttempts cutoff db))"
| audit: "user_step {} db (InsertAuditLog entry now db)"
| subscribe: "user_step {} db (snd (AddPushSubscription url_Parse sub now db))"
| unsubscribe: "user_step {} db (RemovePushSubscription i endpoint db)"
| unsubscribe_all: "user_step {} db (DeletePushSubscriptionsByUser i db)"

lemma tbl_ok_filter_rows: "tbl_ok t \<Longrightarrow> tbl_ok (filter P t)"
  by (simp add: tbl_ok_def distinct_map_filter)

lemma user_step_ok: "user_step resets db db' \<Longrightarrow> users_ok db \<Longrightarrow> users_ok db'"
proof (induction rule: user_step.induct)
  case (role i role db db')
  then have "db' = update_users (\<lambda>r. ur_id r = i) (\<lambda>r. bump (r\<lparr>ur_role := role\<rparr>)) db"
    and valid: "role \<in> set valid_roles \<or> \<not> at_has (\<lambda>r. ur_id r = i) (ud_users db)"
    by (auto simp: UpdateUserRole_def split: if_splits)
  moreover have "db' = db" if "\<not> at_has (\<lambda>r. ur_id r = i) (ud_users db)"
    using that calculation(1) by (simp add: update_users_def at_update_def at_has_iff cong: map_cong)
  ultimately show ?case using role.prems by (cases "role \<in> set valid_roles") (auto intro!: users_ok_same simp: user_row_ok_def)
next
  case (toggle db i)
  then show ?case unfolding ToggleUser_def Let_def
    by (intro users_ok_drop_push users_ok_same) (auto simp: user_row_ok_def)
next
  case (set_active db i active)
  then have "users_ok (update_users (\<lambda>r. ur_id r = i) (\<lambda>r. bump (r\<lparr>ur_is_active := active\<rparr>)) db)"
    by (intro users_ok_same) (auto simp: user_row_ok_def)
  then show ?case by (cases active) (simp_all add: SetUserActive_def DeletePushSubscriptionsByUser_def users_ok_drop_push Let_def)
next
  case (revoke db sessionIDHash sid expiresAt now)
  then show ?case by (simp add: users_ok_def RevokeSession_def tbl_ok_filter_rows)
qed (auto intro: users_ok_create users_ok_rename users_ok_delete users_ok_subscribe users_ok_drop_push users_ok_same
    simp: users_ok_other user_row_ok_def UpdateUserLastLogin_def UpdateUserPassword_def EnableUserTOTP_def
      DisableUserTOTP_def DisableUserTOTPByUsername_def without_totp_def ClaimUserTOTPStep_def
      ReactivateUserByUsername_def StartUserTOTPGrace_def ClearUserTOTPGrace_def InsertLoginAttempt_def
      DeleteOldLoginAttempts_def InsertAuditLog_def RemovePushSubscription_def DeletePushSubscriptionsByUser_def Let_def)

subsection \<open>Claimed time steps\<close>

text \<open>A step is spent when no code of it is accepted any more.\<close>

definition spent :: "int \<Rightarrow> int \<Rightarrow> user_db \<Rightarrow> bool" where
  "spent i step db \<longleftrightarrow> i \<le> at_seq (ud_users db) \<and>
     (\<forall>r\<in>set (at_rows (ud_users db)). ur_id r = i \<longrightarrow> step \<le> ur_totp_last_step r)"

lemma spent_update:
  assumes "spent i step db" "\<And>r. ur_id (f r) = ur_id r"
    and "\<And>r. P r \<Longrightarrow> ur_id r = i \<Longrightarrow> ur_totp_last_step r \<le> ur_totp_last_step (f r)"
  shows "spent i step (update_users P f db)"
proof -
  have "ur_id (if P r then f r else r) = ur_id r" for r using assms(2) by simp
  moreover have "step \<le> ur_totp_last_step (if P r then f r else r)"
    if "r \<in> set (at_rows (ud_users db))" "ur_id r = i" for r
    using assms(1) assms(3) [of r] that by (auto simp: spent_def)
  ultimately show ?thesis using assms(1)
    unfolding spent_def update_users_def by (simp add: all_updated at_rows_simps(7))
qed

lemma spent_congs:
  "ud_users db' = ud_users db \<Longrightarrow> spent i step db' = spent i step db"
  by (simp add: spent_def)

lemma claim_spends:
  assumes "users_ok db" "ClaimUserTOTPStep i step db = (True, db')"
  shows "\<not> spent i step db" "spent i step db'"
proof -
  have one: "length (at_select (\<lambda>r. ur_id r = i \<and> ur_totp_last_step r < step) (ud_users db)) = 1"
    and db': "db' = update_users (\<lambda>r. ur_id r = i \<and> ur_totp_last_step r < step) (\<lambda>r. r\<lparr>ur_totp_last_step := step\<rparr>) db"
    using assms(2) by (auto simp: ClaimUserTOTPStep_def)
  obtain r where "r \<in> set (at_select (\<lambda>r. ur_id r = i \<and> ur_totp_last_step r < step) (ud_users db))"
    using one by (metis length_greater_0_conv list.set_sel(1) zero_less_one)
  then have r: "r \<in> set (at_rows (ud_users db))" "ur_id r = i" "ur_totp_last_step r < step"
    by (auto simp: at_select_def)
  then show "\<not> spent i step db" by (auto simp: spent_def not_le)
  have "i \<le> at_seq (ud_users db)"
    using assms(1) r at_ok_fresh [of ur_id "ud_users db" r] by (auto simp: users_ok_def accounts_ok_def)
  then show "spent i step db'" unfolding db' spent_def update_users_def
    by (auto simp: all_updated at_rows_simps(7))
qed

lemma spent_step: "user_step resets db db' \<Longrightarrow> i \<notin> resets \<Longrightarrow> spent i step db \<Longrightarrow> spent i step db'"
proof (induction rule: user_step.induct)
  case (create username hash role now db j db')
  then have "db' = db\<lparr>ud_users := snd (at_insert (new_user_row username hash role now) (ud_users db))\<rparr>"
    by (auto simp: CreateUser_def split: if_splits prod.splits)
  then show ?case using create.prems
    by (auto simp: spent_def at_rows_simps new_user_row_def)
next
  case (disable_totp_name db username)
  then show ?case unfolding DisableUserTOTPByUsername_def spent_def update_users_def
    by (auto simp: all_updated at_rows_simps(7) without_totp_def)
next
  case (delete db j)
  then show ?case by (auto simp: DeleteUser_def DeletePushSubscriptionsByUser_def spent_def at_rows_simps)
qed (auto intro!: spent_update
    simp: UpdateUserLastLogin_def UpdateUserUsername_def UpdateUserPassword_def EnableUserTOTP_def DisableUserTOTP_def
      ClaimUserTOTPStep_def ReactivateUserByUsername_def StartUserTOTPGrace_def ClearUserTOTPGrace_def
      SetUserActive_def UpdateUserRole_def ToggleUser_def without_totp_def RevokeSession_def InsertLoginAttempt_def
      DeleteOldLoginAttempts_def InsertAuditLog_def AddPushSubscription_def RemovePushSubscription_def
      DeletePushSubscriptionsByUser_def Let_def
    cong: spent_congs split: if_splits)

end
