(* ===== verification/Totp.thy ===== *)
theory Totp
  imports Go_Base "HOL-Library.Word"
begin

unbundle bit_operations_syntax

text \<open>
  The one-time codes of \<open>internal/totp/totp.go\<close>. Bytes are natural numbers below 256. The keyed hash
  HMAC-SHA-1 of the Go library is the parameter \<open>hmac\<close>, which takes the key and the message; the
  base 32 encoding without padding, the truncation of the hash and the window of three time steps
  are written out. The random bytes of a new secret are an argument.
\<close>

section \<open>Base 32 without padding\<close>

text \<open>A group of five bytes holds eight digits of five bits; a last group of one to four bytes holds
  two, four, five or seven.\<close>

definition b32_char :: "nat \<Rightarrow> char" where
  "b32_char d = (if d < 26 then char_of (65 + d) else char_of (24 + d))"

definition b32_val :: "char \<Rightarrow> nat option" where
  "b32_val c = (let n = of_char c :: nat in
     if 65 \<le> n \<and> n \<le> 90 then Some (n - 65) else if 50 \<le> n \<and> n \<le> 55 then Some (n - 24) else None)"

fun b32_digits :: "nat list \<Rightarrow> nat list" where
  "b32_digits [] = []"
| "b32_digits [a] = [a div 8, a mod 8 * 4]"
| "b32_digits [a, b] = [a div 8, a mod 8 * 4 + b div 64, b div 2 mod 32, b mod 2 * 16]"
| "b32_digits [a, b, c] =
     [a div 8, a mod 8 * 4 + b div 64, b div 2 mod 32, b mod 2 * 16 + c div 16, c mod 16 * 2]"
| "b32_digits [a, b, c, d] =
     [a div 8, a mod 8 * 4 + b div 64, b div 2 mod 32, b mod 2 * 16 + c div 16, c mod 16 * 2 + d div 128,
      d div 4 mod 32, d mod 4 * 8]"
| "b32_digits (a # b # c # d # e # bs) =
     [a div 8, a mod 8 * 4 + b div 64, b div 2 mod 32, b mod 2 * 16 + c div 16, c mod 16 * 2 + d div 128,
      d div 4 mod 32, d mod 4 * 8 + e div 32, e mod 32] @ b32_digits bs"

definition EncodeToString :: "nat list \<Rightarrow> string" where
  "EncodeToString bs = map b32_char (b32_digits bs)"

text \<open>The decoder shifts the digits of a group into bytes of eight bits. A last group of one, three
  or six digits yields no byte and no error.\<close>

fun b32_bytes :: "nat list \<Rightarrow> nat list" where
  "b32_bytes [p, q] = [(p * 8 + q div 4) mod 256]"
| "b32_bytes [p, q, r, s] = [(p * 8 + q div 4) mod 256, (q * 64 + r * 2 + s div 16) mod 256]"
| "b32_bytes [p, q, r, s, t] =
     [(p * 8 + q div 4) mod 256, (q * 64 + r * 2 + s div 16) mod 256, (s * 16 + t div 2) mod 256]"
| "b32_bytes [p, q, r, s, t, u, v] =
     [(p * 8 + q div 4) mod 256, (q * 64 + r * 2 + s div 16) mod 256, (s * 16 + t div 2) mod 256,
      (t * 128 + u * 4 + v div 8) mod 256]"
| "b32_bytes (p # q # r # s # t # u # v # w # ds) =
     [(p * 8 + q div 4) mod 256, (q * 64 + r * 2 + s div 16) mod 256, (s * 16 + t div 2) mod 256,
      (t * 128 + u * 4 + v div 8) mod 256, (v * 32 + w) mod 256] @ b32_bytes ds"
| "b32_bytes _ = []"

definition DecodeString :: "string \<Rightarrow> nat list option" where
  "DecodeString s =
     (let digits = map b32_val (filter (\<lambda>c. c \<noteq> CHR 0x0A \<and> c \<noteq> CHR 0x0D) s)
      in if list_all (\<lambda>d. d \<noteq> None) digits then Some (b32_bytes (map the digits)) else None)"

lemma b32_val_char: "d < 32 \<Longrightarrow> b32_val (b32_char d) = Some d"
  by (auto simp: b32_val_def b32_char_def Let_def)

lemma b32_char_line: "d < 32 \<Longrightarrow> b32_char d \<noteq> CHR 0x0A \<and> b32_char d \<noteq> CHR 0x0D"
  using b32_val_char [of d] by (auto simp: b32_val_def)

text \<open>The arithmetic of a group: every digit has five bits, and the shifts put a byte together again.\<close>

lemma mixed_less:
  fixes x j m k a :: nat
  assumes "x < j" "0 < m" "m * j = k"
  shows "a mod m * j + x < k"
proof -
  have "a mod m * j + x < Suc (a mod m) * j" using assms(1) by simp
  also have "\<dots> \<le> m * j" using assms(2) by (intro mult_right_mono) (simp_all add: Suc_leI)
  finally show ?thesis using assms(3) by simp
qed

lemma digit_bounds:
  fixes a b c d e :: nat
  shows "b < 256 \<Longrightarrow> a mod 8 * 4 + b div 64 < 32" "c < 256 \<Longrightarrow> b mod 2 * 16 + c div 16 < 32"
    "d < 256 \<Longrightarrow> c mod 16 * 2 + d div 128 < 32" "e < 256 \<Longrightarrow> d mod 4 * 8 + e div 32 < 32"
    "a mod 8 * 4 < 32" "b mod 2 * 16 < 32" "c mod 16 * 2 < 32" "d mod 4 * 8 < 32"
  using mixed_less [of 0 4 8 32 a] mixed_less [of 0 16 2 32 b] mixed_less [of 0 2 16 32 c] mixed_less [of 0 8 4 32 d]
  by (simp_all add: mixed_less)

lemma mod_256: "n = y * 256 + a \<Longrightarrow> a < 256 \<Longrightarrow> n mod 256 = (a::nat)"
  by simp

lemma byte_parts:
  fixes b :: nat
  shows "b div (2 * 32) * 64 + b div 2 mod 32 * 2 + b mod 2 = b" "b div (4 * 32) * 128 + b div 4 mod 32 * 4 + b mod 4 = b"
  using div_mult_mod_eq [of b 2] div_mult_mod_eq [of "b div 2" 32] div_mult2_eq [of b 2 32]
    div_mult_mod_eq [of b 4] div_mult_mod_eq [of "b div 4" 32] div_mult2_eq [of b 4 32]
  by linarith+

lemma high_bits:
  fixes b :: nat
  assumes "b < 256"
  shows "b div 8 < 32" "b div 64 < 4" "b div 16 < 16" "b div 128 < 2" "b div 32 < 8"
  using assms by (simp_all add: div_less_iff_less_mult)

lemma byte_again:
  fixes a b c d e x y :: nat
  shows "a < 256 \<Longrightarrow> x < 4 \<Longrightarrow> (a div 8 * 8 + (a mod 8 * 4 + x) div 4) mod 256 = a"
    "b < 256 \<Longrightarrow> x < 16 \<Longrightarrow>
      ((y * 4 + b div 64) * 64 + b div 2 mod 32 * 2 + (b mod 2 * 16 + x) div 16) mod 256 = b"
    "c < 256 \<Longrightarrow> x < 2 \<Longrightarrow> ((y * 16 + c div 16) * 16 + (c mod 16 * 2 + x) div 2) mod 256 = c"
    "d < 256 \<Longrightarrow> x < 8 \<Longrightarrow>
      ((y * 2 + d div 128) * 128 + d div 4 mod 32 * 4 + (d mod 4 * 8 + x) div 8) mod 256 = d"
    "e < 256 \<Longrightarrow> ((y * 8 + e div 32) * 32 + e mod 32) mod 256 = e"
  using byte_parts [of b] byte_parts [of d]
  by (auto intro!: mod_256 [where y = y])

lemmas byte_last = byte_again(1-4) [where x = 0, simplified add_0_right, OF _ zero_less_numeral]

lemma b32_digits_less: "list_all (\<lambda>b. b < 256) bs \<Longrightarrow> list_all (\<lambda>d. d < 32) (b32_digits bs)"
  by (induction bs rule: b32_digits.induct) (auto simp: digit_bounds high_bits)

lemma b32_bytes_digits: "list_all (\<lambda>b. b < 256) bs \<Longrightarrow> b32_bytes (b32_digits bs) = bs"
  by (induction bs rule: b32_digits.induct)
    (simp_all only: b32_digits.simps b32_bytes.simps append.simps list.pred_inject byte_again byte_last
      high_bits simp_thms)

text \<open>A secret drawn for a user is the key the codes are checked with.\<close>

lemma Decode_Encode:
  assumes "list_all (\<lambda>b. b < 256) bs"
  shows "DecodeString (EncodeToString bs) = Some bs"
proof -
  have less: "d < 32" if "d \<in> set (b32_digits bs)" for d
    using b32_digits_less [OF assms] that by (simp add: list_all_iff)
  have "filter (\<lambda>c. c \<noteq> CHR 0x0A \<and> c \<noteq> CHR 0x0D) (EncodeToString bs) = EncodeToString bs"
    unfolding EncodeToString_def filter_id_conv using b32_char_line less by auto
  moreover have "map b32_val (EncodeToString bs) = map Some (b32_digits bs)"
    using less by (simp add: EncodeToString_def b32_val_char)
  ultimately show ?thesis
    using b32_bytes_digits [OF assms] by (simp add: DecodeString_def list_all_iff comp_def)
qed

section \<open>Codes\<close>

type_synonym mac = "nat list \<Rightarrow> nat list \<Rightarrow> nat list"

definition totp_digits :: nat where "totp_digits = 6"

definition totp_period :: int where "totp_period = 30"

text \<open>\<open>binary.BigEndian.PutUint64\<close>\<close>

definition put_uint64 :: "64 word \<Rightarrow> nat list" where
  "put_uint64 w = map (\<lambda>k. unat (drop_bit (8 * k) w AND 0xFF)) [7, 6, 5, 4, 3, 2, 1, 0]"

text \<open>A sum of SHA-1 has twenty bytes, so the four bytes from an offset below sixteen are there; the
  model reads a missing byte as zero.\<close>

definition sum_byte :: "nat list \<Rightarrow> nat \<Rightarrow> 32 word" where
  "sum_byte bs i = (if i < length bs then of_nat (bs ! i) else 0)"

definition pad_code :: "nat \<Rightarrow> string" where
  "pad_code n = replicate (totp_digits - length (show_nat n)) CHR ''0'' @ show_nat n"

definition generateCode :: "mac \<Rightarrow> nat list \<Rightarrow> int \<Rightarrow> string" where
  "generateCode hmac key counter =
     (let h = hmac key (put_uint64 (word_of_int counter));
          offset = unat (sum_byte h (length h - 1) AND 0x0F);
          bin = push_bit 24 (sum_byte h offset AND 0x7F) OR
                push_bit 16 (sum_byte h (offset + 1) AND 0xFF) OR
                push_bit 8 (sum_byte h (offset + 2) AND 0xFF) OR
                (sum_byte h (offset + 3) AND 0xFF);
          otp = bin mod 1000000
      in pad_code (unat otp))"

fun find_step :: "mac \<Rightarrow> nat list \<Rightarrow> string \<Rightarrow> int list \<Rightarrow> int \<times> bool" where
  "find_step hmac key code [] = (0, False)"
| "find_step hmac key code (s # steps) =
     (if generateCode hmac key s = code then (s, True) else find_step hmac key code steps)"

definition ValidateStep :: "mac \<Rightarrow> string \<Rightarrow> string \<Rightarrow> time \<Rightarrow> int \<times> bool" where
  "ValidateStep hmac code0 secret now =
     (let code = trim_space code0
      in if length code \<noteq> totp_digits then (0, False)
         else case DecodeString (to_upper (trim_space secret)) of
           None \<Rightarrow> (0, False)
         | Some key \<Rightarrow>
             (let step = go_div (unix now) totp_period
              in find_step hmac key code (map (\<lambda>drift. step + drift) [-1, 0, 1])))"

definition Validate :: "mac \<Rightarrow> string \<Rightarrow> string \<Rightarrow> time \<Rightarrow> bool" where
  "Validate hmac code secret now = snd (ValidateStep hmac code secret now)"

definition GenerateSecret :: "nat list \<Rightarrow> string" where
  "GenerateSecret raw = EncodeToString raw"

lemma show_nat_length: "n < 10 ^ Suc k \<Longrightarrow> length (show_nat n) \<le> Suc k"
proof (induction k arbitrary: n)
  case 0
  then show ?case by (simp add: show_nat.simps [of n])
next
  case (Suc k)
  then have "length (show_nat (n div 10)) \<le> Suc k" by (intro Suc.IH) (simp add: div_less_iff_less_mult)
  then show ?case by (subst show_nat.simps) simp
qed

text \<open>Every code has six digits, so the length check refuses no code the generator yields.\<close>

lemma generateCode_length: "length (generateCode hmac key counter) = totp_digits"
proof -
  have "length (pad_code (unat (w mod 1000000 :: 32 word))) = totp_digits" for w :: "32 word"
  proof -
    have "unat (w mod 1000000) < 10 ^ Suc 5" by (simp add: unat_mod)
    from show_nat_length [OF this] show ?thesis by (simp add: pad_code_def totp_digits_def)
  qed
  then show ?thesis by (simp add: generateCode_def Let_def)
qed

lemma find_step_True: "find_step hmac key code steps = (s, True) \<Longrightarrow> s \<in> set steps \<and> generateCode hmac key s = code"
  by (induction steps) (auto split: if_splits)

text \<open>An accepted code is the code of its step, one of the three around the clock.\<close>

lemma ValidateStep_window:
  assumes "ValidateStep hmac code secret now = (s, True)"
  shows "\<bar>s - go_div (unix now) 30\<bar> \<le> 1"
    and "\<exists>key. DecodeString (to_upper (trim_space secret)) = Some key \<and> generateCode hmac key s = trim_space code"
  using assms by (auto simp: ValidateStep_def Let_def totp_period_def split: if_splits option.splits dest!: find_step_True)

end
