(* ===== verification/Login.thy ===== *)
theory Login
  imports Session User_Store Config_Store Banhammer Totp
begin

text \<open>
  Signing in to the web interface: \<open>internal/web/handlers/auth.go\<close>, the throttled notices of
  \<open>security_notifications.go\<close>, \<open>SafeLocalPath\<close> of \<open>form_redirect.go\<close> and the guards of
  \<open>internal/web/middleware.go\<close>. Requests run concurrently: every access to shared state (a statement, a
  critical section of the pending logins, of the ban list or of a limiter) is one step, numbered within its handler,
  and \<open>wr_env q n\<close> says what other requests did before the access with number \<open>n\<close>; it also moves the
  clock. A statement may fail (\<open>wr_fail q n\<close>). bcrypt, HMAC-SHA-1, SHA-256 and the URL parser of the Go
  library are parameters. What a page says is named by a constructor; its markup is not modelled, nor the URL a refused action returns to (\<open>BackWithFlash\<close>).
\<close>

section \<open>Local paths\<close>

definition SafeLocalPath :: "(string \<Rightarrow> go_url option) \<Rightarrow> string \<Rightarrow> string" where
  "SafeLocalPath url_Parse raw0 =
     (let raw = trim_space raw0
      in if \<not> has_prefix raw ''/'' \<or> has_prefix raw ''//'' \<or> CHR 0x5C \<in> set raw then []
         else if list_ex is_control (runes raw) then []
         else case url_Parse raw of
           None \<Rightarrow> []
         | Some u \<Rightarrow> if url_Scheme u \<noteq> [] \<or> url_Host u \<noteq> [] \<or> url_HasUser u then [] else raw)"

definition safeNext :: "(string \<Rightarrow> go_url option) \<Rightarrow> string \<Rightarrow> string" where
  "safeNext url_Parse next0 =
     (let nxt = SafeLocalPath url_Parse next0
      in if nxt = [] then ''/''
         else case url_Parse nxt of
           None \<Rightarrow> ''/''
         | Some u \<Rightarrow> if url_Path u = ''/login'' \<or> url_Path u = ''/login/2fa'' \<or> url_Path u = ''/logout'' then ''/'' else nxt)"

definition float_hours :: "duration \<Rightarrow> rat" where
  "float_hours d = f64_add (f64_of_int (go_div d hour)) (f64_div (f64_of_int (go_rem d hour)) 3600000000000)"

definition float_minutes :: "duration \<Rightarrow> rat" where
  "float_minutes d = f64_add (f64_of_int (go_div d minute)) (f64_div (f64_of_int (go_rem d minute)) 60000000000)"

definition day_word :: string where "day_word = '' d'' @ [CHR 0xC3, CHR 0xAD] @ ''a''"

definition formatRemaining :: "duration \<Rightarrow> string" where
  "formatRemaining d =
     (if d < 0 then ''permanentemente''
      else if d \<ge> 24 * hour then
        (let days = f64_to_int (f64_div (float_hours d) 24) + 1
         in if days = 1 then ''1'' @ day_word else show_int days @ day_word @ ''s'')
      else if d \<ge> hour then
        (let hours = f64_to_int (float_hours d) + 1
         in if hours = 1 then ''1 hora'' else show_int hours @ '' horas'')
      else
        (let mins = f64_to_int (float_minutes d) + 1
         in if mins = 1 then ''1 minuto'' else show_int mins @ '' minutos''))"

section \<open>Notices to the administrators\<close>

record login_notices =
  ln_lastByIP :: "(string, time) table"
  ln_sent :: "time list"
  ln_suppressed :: int

definition notice_allow :: "string \<Rightarrow> time \<Rightarrow> login_notices \<Rightarrow> (bool \<times> int) \<times> login_notices" where
  "notice_allow ip now t =
     (let lastByIP = (if int (length (ln_lastByIP t)) \<ge> 4096
            then tbl_mapf (\<lambda>_ l. if t_sub now l \<ge> 10 * minute then None else Some l) (ln_lastByIP t) else ln_lastByIP t);
          sent = filter (\<lambda>s. t_sub now s < hour) (ln_sent t);
          skip = ((False, 0), \<lparr>ln_lastByIP = lastByIP, ln_sent = sent, ln_suppressed = ln_suppressed t + 1\<rparr>)
      in if (case tbl_get lastByIP ip of None \<Rightarrow> False | Some l \<Rightarrow> t_sub now l < 10 * minute) then skip
         else if int (length sent) \<ge> 10 \<or> int (length lastByIP) \<ge> 4096 then skip
         else ((True, ln_suppressed t), \<lparr>ln_lastByIP = tbl_put ip now lastByIP, ln_sent = sent @ [now], ln_suppressed = 0\<rparr>))"

definition securityField :: "string \<Rightarrow> string" where
  "securityField value0 =
     (let value = join_with '' '' (strings_Fields value0)
      in if value = [] then ''(vac'' @ [CHR 0xC3, CHR 0xAD] @ ''o)''
         else if rune_count value > 160 then concat (take 160 (runes value)) @ [CHR 0xE2, CHR 0x80, CHR 0xA6]
         else value)"

datatype fail_reason = BadCredentials | BadCode | GraceExpired

datatype notice =
    SignedIn string string
  | SignInFailed string string fail_reason bool int
  | UserCreated string string string string int

section \<open>Requests and the state they share\<close>

record web_world =
  ww_now :: time
  ww_db :: user_db
  ww_email :: "email_config option"
  ww_challenges :: challenges
  ww_ban :: "banhammer option"
  ww_telegram :: bool
  ww_notices :: login_notices
  ww_outbox :: "notice list"
  ww_passwordFailures :: limiter
  ww_totpAttempts :: limiter

record web_request =
  wr_env :: "nat \<Rightarrow> web_world \<Rightarrow> web_world"
  wr_fail :: "nat \<Rightarrow> bool"
  wr_form :: "string \<Rightarrow> string"
  wr_http :: http_req
  wr_method :: string
  wr_path :: string
  wr_userAgent :: string
  wr_details :: string
  wr_save :: saver
  wr_raw :: string

record web_lib =
  lib_secrets :: "secret_box option"
  lib_bcrypt :: "string \<Rightarrow> string \<Rightarrow> bool"
  lib_hmac :: mac
  lib_sid_hash :: "string \<Rightarrow> string"
  lib_url_parse :: "string \<Rightarrow> go_url option"

datatype page_message = NoMessage | LoginRefused fail_reason | BannedFor string | Flash string

datatype reply = Redirect string | Render string page_message | HttpError int | JsonError int | BackWithFlash | NextHandler

type_synonym 'a shared = "web_world \<Rightarrow> 'a \<times> web_world"

definition query :: "web_request \<Rightarrow> nat \<Rightarrow> (web_world \<Rightarrow> sql_error + 'a) \<Rightarrow> (sql_error + 'a) shared" where
  "query q n f w0 = (let w = wr_env q n w0 in (if wr_fail q n then Inl (Refused ''database'') else f w, w))"

definition exec :: "web_request \<Rightarrow> nat \<Rightarrow> (time \<Rightarrow> user_db \<Rightarrow> user_db) \<Rightarrow> bool shared" where
  "exec q n f w0 =
     (let w = wr_env q n w0 in if wr_fail q n then (False, w) else (True, w\<lparr>ww_db := f (ww_now w) (ww_db w)\<rparr>))"

definition on_ban :: "web_request \<Rightarrow> nat \<Rightarrow> 'a \<Rightarrow> (time \<Rightarrow> banhammer \<Rightarrow> 'a \<times> banhammer) \<Rightarrow> 'a shared" where
  "on_ban q n d f w0 =
     (let w = wr_env q n w0
      in case ww_ban w of
           None \<Rightarrow> (d, w)
         | Some b \<Rightarrow> (case f (ww_now w) b of (a, b') \<Rightarrow> (a, w\<lparr>ww_ban := Some b'\<rparr>)))"

definition on_challenges :: "web_request \<Rightarrow> nat \<Rightarrow> (time \<Rightarrow> challenges \<Rightarrow> 'a \<times> challenges) \<Rightarrow> 'a shared" where
  "on_challenges q n f w0 =
     (let w = wr_env q n w0
      in case f (ww_now w) (ww_challenges w) of (a, items) \<Rightarrow> (a, w\<lparr>ww_challenges := items\<rparr>))"

definition request_ip :: "web_request \<Rightarrow> string" where "request_ip q = ExtractIP (wr_http q)"

definition recordLoginAttempt :: "web_request \<Rightarrow> nat \<Rightarrow> string \<Rightarrow> string \<Rightarrow> string \<Rightarrow> bool shared" where
  "recordLoginAttempt q n username result reason =
     exec q n (\<lambda>now. InsertLoginAttempt username (request_ip q) (wr_userAgent q) (wr_details q) result reason now)"

definition notifyAdminSecurity :: "notice \<Rightarrow> web_world \<Rightarrow> web_world" where
  "notifyAdminSecurity m w = (if ww_telegram w then w\<lparr>ww_outbox := ww_outbox w @ [m]\<rparr> else w)"

definition notifyAdminLoginSuccess :: "string \<Rightarrow> string \<Rightarrow> web_world \<Rightarrow> web_world" where
  "notifyAdminLoginSuccess username ip = notifyAdminSecurity (SignedIn (securityField username) (securityField ip))"

definition notifyAdminLoginFailed :: "web_request \<Rightarrow> nat \<Rightarrow> string \<Rightarrow> fail_reason \<Rightarrow> bool \<Rightarrow> web_world \<Rightarrow> web_world" where
  "notifyAdminLoginFailed q n username reason banned w0 =
     (let w = wr_env q n w0; ip = request_ip q; key = (if banned then ip @ ''|ban'' else ip)
      in if \<not> ww_telegram w then w
         else case notice_allow key (ww_now w) (ww_notices w) of
           ((False, _), t) \<Rightarrow> w\<lparr>ww_notices := t\<rparr>
         | ((True, skipped), t) \<Rightarrow>
             notifyAdminSecurity (SignInFailed (securityField username) (securityField ip) reason banned skipped)
               (w\<lparr>ww_notices := t\<rparr>))"

definition loginFailed :: "web_request \<Rightarrow> nat \<Rightarrow> string \<Rightarrow> string \<Rightarrow> fail_reason \<Rightarrow> web_world \<Rightarrow> web_world" where
  "loginFailed q n username reason notice w =
     (case recordLoginAttempt q n username ''failed'' reason w of (_, w1) \<Rightarrow>
      case on_ban q (n + 1) False (RecordFailure (request_ip q)) w1 of (banned, w2) \<Rightarrow>
      notifyAdminLoginFailed q (n + 2) username notice banned w2)"

section \<open>The login handlers\<close>

definition loginNext :: "web_lib \<Rightarrow> web_request \<Rightarrow> string" where
  "loginNext l q = (let n = safeNext (lib_url_parse l) (wr_form q ''next'') in if n \<noteq> ''/'' then n else [])"

definition LoginPage :: "web_lib \<Rightarrow> web_request \<Rightarrow> session \<Rightarrow> reply shared" where
  "LoginPage l q s w =
     (case session_GetUser s of
        (_, _, True) \<Rightarrow> (Redirect ''/'', w)
      | (_, _, False) \<Rightarrow>
          (case on_ban q 0 (False, 0) (\<lambda>now. IsBanned (request_ip q) now) w of ((banned, remaining), w1) \<Rightarrow>
             if banned then (Render ''login.html'' (BannedFor (formatRemaining remaining)), w1)
             else (Render ''login.html'' (Flash (wr_form q ''flash'')), w1)))"

definition grace_flash :: string where
  "grace_flash = ''/profile?flash=Activa+2FA+en+tu+usuario.+Tienes+3+d%C3%ADas+desde+el+primer+aviso.&ok=1''"

definition last_admin_flash :: string where
  "last_admin_flash =
     ''/profile?flash=Plazo+de+2FA+vencido.+Eres+el+%C3%BAnico+administrador+activo%3A+activa+2FA+ahora.''"

text \<open>\<open>Pass\<close> is the return value \<open>("", false)\<close>, \<open>Answered\<close> is \<open>("", true)\<close> after a response was written.\<close>

datatype enforcement = Pass | Answered reply | Detour string

definition handleTOTPEnforcement :: "web_lib \<Rightarrow> web_request \<Rightarrow> user \<Rightarrow> enforcement shared" where
  "handleTOTPEnforcement l q user w0 =
     (if u_Role user = ''reader'' \<or> u_TOTPEnabled user then (Pass, w0)
      else case query q 6 (\<lambda>w. GetEmailConfig (lib_secrets l) (ww_email w)) w0 of
        (Inl _, w1) \<Rightarrow> (Answered (HttpError 503), w1)
      | (Inr cfg, w1) \<Rightarrow>
          if \<not> emc_EnforceTOTPNonReaders cfg then (Pass, w1)
          else let now = ww_now w1
            in case (case u_TOTPGraceStartedAt user of
                  Some t \<Rightarrow> (True, w1)
                | None \<Rightarrow> exec q 7 (\<lambda>t. StartUserTOTPGrace (u_ID user) t) w1) of
                 (False, w2) \<Rightarrow> (Answered (HttpError 500), w2)
               | (True, w2) \<Rightarrow>
                   (let startedAt = or_zero now (u_TOTPGraceStartedAt user)
                    in if t_sub now startedAt \<ge> 72 * hour then
                         (case query q 8 (\<lambda>w. Inr (IsLastActiveAdmin (u_ID user) (ww_db w))) w2 of
                            (Inl _, w3) \<Rightarrow> (Answered (HttpError 500), w3)
                          | (Inr True, w3) \<Rightarrow> (Detour last_admin_flash, w3)
                          | (Inr False, w3) \<Rightarrow>
                              (case exec q 9 (\<lambda>_. SetUserActive (u_ID user) False) w3 of (_, w4) \<Rightarrow>
                               case recordLoginAttempt q 10 (u_Username user) ''blocked'' ''totp_grace_expired'' w4 of (_, w5) \<Rightarrow>
                               (Answered (Render ''login.html'' (LoginRefused GraceExpired)),
                                notifyAdminLoginFailed q 11 (u_Username user) GraceExpired False w5)))
                       else (Detour grace_flash, w2)))"

text \<open>The session of the response, the response and the state.\<close>

definition finish_login :: "web_request \<Rightarrow> user \<Rightarrow> string \<Rightarrow> session \<Rightarrow> (session \<times> reply) shared" where
  "finish_login q user target s w =
     (case SetUserWithVersion (wr_save q) (wr_raw q) (u_ID user) (u_Username user) (u_Role user) (u_SessionVersion user) s of
        (False, s1) \<Rightarrow> ((s1, HttpError 500), w)
      | (True, s1) \<Rightarrow>
          (case recordLoginAttempt q 20 (u_Username user) ''success'' [] w of (_, w1) \<Rightarrow>
           case exec q 21 (\<lambda>now. UpdateUserLastLogin (u_ID user) (request_ip q) now) w1 of (_, w2) \<Rightarrow>
           ((s1, Redirect target), notifyAdminLoginSuccess (u_Username user) (request_ip q) w2)))"

definition LoginPost :: "web_lib \<Rightarrow> web_request \<Rightarrow> session \<Rightarrow> (session \<times> reply) shared" where
  "LoginPost l q s w0 =
     (let ip = request_ip q; username = wr_form q ''username''
      in case on_ban q 0 (False, 0) (IsBanned ip) w0 of ((banned, _), w1) \<Rightarrow>
         if banned then
           (case recordLoginAttempt q 1 username ''blocked'' ''ip_banned'' w1 of (_, w2) \<Rightarrow> ((s, Redirect ''/login''), w2))
         else case query q 2 (\<lambda>w. GetUserByUsername (lib_secrets l) username (ww_db w)) w1 of
           (Inl _, w2) \<Rightarrow>
             ((s, Render ''login.html'' (LoginRefused BadCredentials)),
              loginFailed q 3 username ''invalid_credentials'' BadCredentials w2)
         | (Inr user, w2) \<Rightarrow>
             if \<not> u_IsActive user \<or> \<not> lib_bcrypt l (u_PasswordHash user) (wr_form q ''password'') then
               ((s, Render ''login.html'' (LoginRefused BadCredentials)),
                loginFailed q 3 username ''invalid_credentials'' BadCredentials w2)
             else case handleTOTPEnforcement l q user w2 of
               (Answered r, w3) \<Rightarrow> ((s, r), w3)
             | (enf, w3) \<Rightarrow>
                 (let target = (case enf of Detour r \<Rightarrow> r | _ \<Rightarrow> safeNext (lib_url_parse l) (wr_form q ''next''));
                      w4 = (if \<not> u_TOTPEnabled user then snd (on_ban q 12 () (\<lambda>_ b. ((), ClearFailures ip b)) w3) else w3)
                  in if u_TOTPEnabled user then
                       (case on_challenges q 13 (\<lambda>now items.
                            case SetPending2FA (wr_save q) (wr_raw q) (u_ID user) target (u_SessionVersion user) now s items of
                              (ok, s', items') \<Rightarrow> ((ok, s'), items')) w4 of
                          ((False, s1), w5) \<Rightarrow> ((s1, HttpError 500), w5)
                        | ((True, s1), w5) \<Rightarrow>
                            (case recordLoginAttempt q 14 (u_Username user) ''pending'' ''totp_required'' w5 of (_, w6) \<Rightarrow>
                              ((s1, Redirect ''/login/2fa''), w6)))
                     else finish_login q user target s w4))"

text \<open>The user a pending login belongs to, as both handlers of the second step check it.\<close>

definition pending_user_ok :: "user \<Rightarrow> int \<Rightarrow> bool" where
  "pending_user_ok u version \<longleftrightarrow> u_IsActive u \<and> u_TOTPEnabled u \<and> u_SessionVersion u = version"

definition give_up_2fa :: "web_request \<Rightarrow> nat \<Rightarrow> reply \<Rightarrow> session \<Rightarrow> (session \<times> reply) shared" where
  "give_up_2fa q n r s w =
     (case on_challenges q n (\<lambda>_ items. case ClearPending2FA (wr_save q) s items of (_, s', items') \<Rightarrow> (s', items')) w of
        (s', w') \<Rightarrow> ((s', r), w'))"

definition Login2FAPage :: "web_lib \<Rightarrow> web_request \<Rightarrow> session \<Rightarrow> (session \<times> reply) shared" where
  "Login2FAPage l q s w0 =
     (case on_challenges q 0 (\<lambda>now items. (GetPending2FA now s items, items)) w0 of ((userID, _, version, ok), w1) \<Rightarrow>
        if \<not> ok then ((s, Redirect ''/login''), w1)
        else case query q 1 (\<lambda>w. GetUser (lib_secrets l) userID (ww_db w)) w1 of
          (Inl _, w2) \<Rightarrow> give_up_2fa q 2 (Redirect ''/login'') s w2
        | (Inr user, w2) \<Rightarrow>
            if \<not> pending_user_ok user version then give_up_2fa q 2 (Redirect ''/login'') s w2
            else ((s, Render ''login_2fa.html'' (Flash (wr_form q ''flash''))), w2))"

text \<open>The check of a code: it is valid and its step was not claimed before. \<open>Inl\<close> is the failure of the
  statement.\<close>

definition accept_code :: "web_lib \<Rightarrow> web_request \<Rightarrow> nat \<Rightarrow> string \<Rightarrow> user \<Rightarrow> (sql_error + bool) shared" where
  "accept_code l q n code user w =
     (case ValidateStep (lib_hmac l) code (u_TOTPSecret user) (ww_now w) of
        (_, False) \<Rightarrow> (Inr False, w)
      | (step, True) \<Rightarrow>
          (let w1 = wr_env q n w
           in if wr_fail q n then (Inl (Refused ''database''), w1)
              else case ClaimUserTOTPStep (u_ID user) step (ww_db w1) of
                (claimed, db) \<Rightarrow> (Inr claimed, w1\<lparr>ww_db := db\<rparr>)))"

definition Login2FAPost :: "web_lib \<Rightarrow> web_request \<Rightarrow> session \<Rightarrow> (session \<times> reply) shared" where
  "Login2FAPost l q s w0 =
     (let ip = request_ip q
      in case on_challenges q 0 (\<lambda>now items. (GetPending2FA now s items, items)) w0 of ((userID, next_path, version, ok), w1) \<Rightarrow>
        if \<not> ok then ((s, Redirect ''/login''), w1)
        else case query q 1 (\<lambda>w. GetUser (lib_secrets l) userID (ww_db w)) w1 of
          (Inl _, w2) \<Rightarrow> give_up_2fa q 2 (Redirect ''/login'') s w2
        | (Inr user, w2) \<Rightarrow>
            if \<not> pending_user_ok user version then give_up_2fa q 2 (Redirect ''/login'') s w2
            else case on_ban q 3 (False, 0) (IsBanned ip) w2 of ((banned, _), w3) \<Rightarrow>
              if banned then
                (case recordLoginAttempt q 4 (u_Username user) ''blocked'' ''ip_banned'' w3 of (_, w4) \<Rightarrow> ((s, Redirect ''/login''), w4))
              else case on_challenges q 5 (\<lambda>now items. AllowPending2FAAttempt now s items) w3 of
                (False, w4) \<Rightarrow> give_up_2fa q 6 (HttpError 429) s w4
              | (True, w4) \<Rightarrow>
                  (case accept_code l q 7 (wr_form q ''code'') user w4 of
                     (Inl _, w5) \<Rightarrow> ((s, HttpError 500), w5)
                   | (Inr False, w5) \<Rightarrow>
                       ((s, Render ''login_2fa.html'' (LoginRefused BadCode)),
                        loginFailed q 8 (u_Username user) ''invalid_totp'' BadCode w5)
                   | (Inr True, w5) \<Rightarrow>
                       (case on_ban q 11 () (\<lambda>_ b. ((), ClearFailures ip b)) w5 of (_, w6) \<Rightarrow>
                        case on_challenges q 12 (\<lambda>now items. ConsumePending2FA (u_ID user) (u_SessionVersion user) now s items) w6 of
                          (False, w7) \<Rightarrow> ((s, Redirect ''/login''), w7)
                        | (True, w7) \<Rightarrow> finish_login q user (safeNext (lib_url_parse l) next_path) s w7)))"

definition session_Lifetime :: duration where "session_Lifetime = 7 * 24 * hour"

definition Logout :: "web_lib \<Rightarrow> web_request \<Rightarrow> session \<Rightarrow> (session \<times> reply) shared" where
  "Logout l q s w0 =
     (case (case session_ID s of
          None \<Rightarrow> (True, w0)
        | Some sid \<Rightarrow> exec q 0 (\<lambda>now. RevokeSession (lib_sid_hash l) sid (t_add now session_Lifetime) now) w0) of
        (False, w1) \<Rightarrow> ((s, HttpError 503), w1)
      | (True, w1) \<Rightarrow>
          (case on_challenges q 1 (\<lambda>_ items. session_Clear (wr_save q) s items) w1 of (s', w2) \<Rightarrow>
            ((s', Redirect ''/login''), w2)))"

section \<open>The guards of the pages\<close>

definition invalidated :: string where
  "invalidated = ''/login?flash=Tu+sesion+ha+sido+invalidada''"

definition invalidated_user :: string where
  "invalidated_user = ''/login?flash=Tu+sesi'' @ [CHR 0xC3, CHR 0xB3] @ ''n+ha+sido+invalidada''"

definition totp_deadline :: string where
  "totp_deadline = ''/login?flash=Usuario+desactivado:+2FA+no+se+activo+dentro+del+plazo''"

definition clear_session :: "web_request \<Rightarrow> nat \<Rightarrow> reply \<Rightarrow> session \<Rightarrow> (session \<times> reply) shared" where
  "clear_session q n r s w =
     (case on_challenges q n (\<lambda>_ items. session_Clear (wr_save q) s items) w of (s', w') \<Rightarrow> ((s', r), w'))"

definition userNeedsTOTPEnforcement :: "web_lib \<Rightarrow> web_request \<Rightarrow> user \<Rightarrow> (sql_error + bool) shared" where
  "userNeedsTOTPEnforcement l q user w0 =
     (if u_Role user = ''reader'' \<or> u_TOTPEnabled user then (Inr False, w0)
      else case query q 3 (\<lambda>w. GetEmailConfig (lib_secrets l) (ww_email w)) w0 of
        (Inl e, w1) \<Rightarrow> (Inl e, w1)
      | (Inr cfg, w1) \<Rightarrow>
          if \<not> emc_EnforceTOTPNonReaders cfg then (Inr False, w1)
          else case u_TOTPGraceStartedAt user of
            None \<Rightarrow>
              (case exec q 4 (\<lambda>t. StartUserTOTPGrace (u_ID user) t) w1 of
                 (True, w2) \<Rightarrow> (Inr False, w2)
               | (False, w2) \<Rightarrow> (Inl (Refused ''database''), w2))
          | Some startedAt \<Rightarrow>
              if t_sub (ww_now w1) startedAt < 72 * hour then (Inr False, w1)
              else case query q 5 (\<lambda>w. Inr (IsLastActiveAdmin (u_ID user) (ww_db w))) w1 of
                (Inl e, w2) \<Rightarrow> (Inl e, w2)
              | (Inr lastAdmin, w2) \<Rightarrow> (Inr (\<not> lastAdmin), w2))"

text \<open>\<open>escaped\<close> is the escaped request URI. The answer \<open>NextHandler\<close> serves the page.\<close>

definition RequireLogin :: "web_lib \<Rightarrow> web_request \<Rightarrow> string \<Rightarrow> session \<Rightarrow> (session \<times> reply) shared" where
  "RequireLogin l q escaped s w0 =
     (case session_GetUser s of
        (_, _, False) \<Rightarrow>
          ((s, Redirect (''/login'' @ (if wr_method q = ''GET'' \<or> wr_method q = ''HEAD'' then ''?next='' @ escaped else []))), w0)
      | (username, sessionRole, True) \<Rightarrow>
          (case query q 0 (\<lambda>w. GetUser (lib_secrets l) (fst (UserID s)) (ww_db w)) w0 of
             (Inl _, w1) \<Rightarrow> clear_session q 1 (Redirect invalidated_user) s w1
           | (Inr user, w1) \<Rightarrow>
               if \<not> snd (UserID s) \<or> \<not> u_IsActive user \<or> u_Username user \<noteq> username then
                 clear_session q 1 (Redirect invalidated_user) s w1
               else if \<not> snd (UserVersion s) \<or> fst (UserVersion s) \<noteq> u_SessionVersion user then
                 clear_session q 1 (Redirect invalidated) s w1
               else case session_ID s of
                 None \<Rightarrow> clear_session q 1 (Redirect invalidated) s w1
               | Some sid \<Rightarrow>
                   (case query q 2 (\<lambda>w. Inr (IsSessionRevoked (lib_sid_hash l) sid (ww_db w))) w1 of
                      (Inl _, w2) \<Rightarrow> ((s, HttpError 503), w2)
                    | (Inr True, w2) \<Rightarrow> clear_session q 1 (Redirect invalidated) s w2
                    | (Inr False, w2) \<Rightarrow>
                        (case (if u_Role user \<noteq> sessionRole
                               then RefreshRole (wr_save q) (u_Role user) (u_SessionVersion user) s else (True, s)) of
                           (False, s1) \<Rightarrow> ((s1, HttpError 500), w2)
                         | (True, s1) \<Rightarrow>
                             (case userNeedsTOTPEnforcement l q user w2 of
                                (Inl _, w3) \<Rightarrow> ((s1, HttpError 503), w3)
                              | (Inr True, w3) \<Rightarrow>
                                  (case exec q 6 (\<lambda>_. SetUserActive (u_ID user) False) w3 of (_, w4) \<Rightarrow>
                                     clear_session q 7 (Redirect totp_deadline) s1 w4)
                              | (Inr False, w3) \<Rightarrow> ((s1, NextHandler), w3))))))"

definition RequireEditor :: "session \<Rightarrow> reply" where
  "RequireEditor s =
     (case session_GetUser s of
        (_, _, False) \<Rightarrow> Redirect ''/login''
      | (_, role, True) \<Rightarrow> if role \<noteq> ''admin'' \<and> role \<noteq> ''editor'' then HttpError 403 else NextHandler)"

definition RequireAdmin :: "session \<Rightarrow> reply" where
  "RequireAdmin s =
     (case session_GetUser s of
        (_, _, False) \<Rightarrow> Redirect ''/login''
      | (_, role, True) \<Rightarrow> if role \<noteq> ''admin'' then HttpError 403 else NextHandler)"

definition wantsJSON :: "web_request \<Rightarrow> bool" where
  "wantsJSON q \<longleftrightarrow>
     contains_str (header_get (wr_http q) ''Accept'') ''application/json'' \<or>
     contains_str (header_get (wr_http q) ''Content-Type'') ''application/json'' \<or> has_suffix (wr_path q) ''/reveal''"

definition RequireTOTPForSensitiveAction :: "web_lib \<Rightarrow> web_request \<Rightarrow> session \<Rightarrow> (session \<times> reply) shared" where
  "RequireTOTPForSensitiveAction l q s w0 =
     (case session_GetUser s of
        (_, _, False) \<Rightarrow> ((s, Redirect ''/login''), w0)
      | (username, _, True) \<Rightarrow>
          (case query q 0 (\<lambda>w. GetEmailConfig (lib_secrets l) (ww_email w)) w0 of
             (Inl _, w1) \<Rightarrow> ((s, HttpError 503), w1)
           | (Inr cfg, w1) \<Rightarrow>
               if \<not> emc_SensitiveActionsRequireTOTP cfg then ((s, NextHandler), w1)
               else case query q 1 (\<lambda>w. GetUserByUsername (lib_secrets l) username (ww_db w)) w1 of
                 (Inl _, w2) \<Rightarrow> clear_session q 2 (Redirect invalidated) s w2
               | (Inr user, w2) \<Rightarrow>
                   if \<not> u_IsActive user then clear_session q 2 (Redirect invalidated) s w2
                   else if \<not> u_TOTPEnabled user then
                     ((s, if wantsJSON q then JsonError 403
                          else Redirect ''/profile?flash=Esta+operacion+requiere+2FA+activo''), w2)
                   else let code = trim_space (wr_form q ''totp_code'');
                            refused = (if wantsJSON q then JsonError 403 else BackWithFlash)
                     in if code = [] then
                          ((s, if SensitiveTOTPFresh (ww_now w2) s then NextHandler else refused), w2)
                        else (let w3 = wr_env q 3 w2
                          in case AllowKey username (ww_now w3) (ww_totpAttempts w3) of (allowed, lm) \<Rightarrow>
                             let w4 = w3\<lparr>ww_totpAttempts := lm\<rparr>
                             in if \<not> allowed then ((s, HttpError 429), w4)
                                else case accept_code l q 4 code user w4 of
                                  (Inl _, w5) \<Rightarrow> ((s, HttpError 503), w5)
                                | (Inr False, w5) \<Rightarrow> ((s, refused), w5)
                                | (Inr True, w5) \<Rightarrow>
                                    (case SetSensitiveTOTPFresh (wr_save q) (t_add (ww_now w4) (10 * minute)) s of
                                       (False, s1) \<Rightarrow> ((s1, HttpError 500), w5)
                                     | (True, s1) \<Rightarrow> ((s1, NextHandler), w5)))))"

end
