(* ===== verification/Login_Security.thy ===== *)
theory Login_Security
  imports Login
begin

text \<open>
  What the login promises. The state shared with other requests changes between any two accesses of a
  handler; the lemmas carry what a claimed time step and a closed session mean through such runs.
\<close>

section \<open>What other requests may do\<close>

text \<open>A run of statements that does not reset the second factor of a user.\<close>

definition quiet :: "int \<Rightarrow> user_db \<Rightarrow> user_db \<Rightarrow> bool" where
  "quiet uid = (\<lambda>db db'. \<exists>resets. user_step resets db db' \<and> uid \<notin> resets)\<^sup>*\<^sup>*"

text \<open>The other requests that run between the accesses of a request do not reset it either.\<close>

definition calm :: "int \<Rightarrow> web_request \<Rightarrow> bool" where
  "calm uid q \<longleftrightarrow> (\<forall>n w. quiet uid (ww_db w) (ww_db (wr_env q n w)))"

lemma quiet_refl [simp]: "quiet uid db db"
  by (simp add: quiet_def)

lemma quiet_trans: "quiet uid a b \<Longrightarrow> quiet uid b c \<Longrightarrow> quiet uid a c"
  by (simp add: quiet_def)

lemma quiet_step: "user_step {} db db' \<Longrightarrow> quiet uid db db'"
  unfolding quiet_def by (rule r_into_rtranclp) blast

lemma quiet_ok: "quiet uid db db' \<Longrightarrow> users_ok db \<Longrightarrow> users_ok db'"
  unfolding quiet_def by (induction rule: rtranclp_induct) (auto intro: user_step_ok)

lemma quiet_spent: "quiet uid db db' \<Longrightarrow> spent uid step db \<Longrightarrow> spent uid step db'"
  unfolding quiet_def by (induction rule: rtranclp_induct) (auto intro: spent_step)

named_theorems quiet_access \<open>an access of a calm request keeps the second factor of a user\<close>

lemma env_quiet [quiet_access]: "calm uid q \<Longrightarrow> quiet uid (ww_db w) (ww_db (wr_env q n w))"
  by (simp add: calm_def)

lemma query_quiet [quiet_access]: "calm uid q \<Longrightarrow> query q n f w = (a, w') \<Longrightarrow> quiet uid (ww_db w) (ww_db w')"
  by (auto simp: query_def Let_def env_quiet)

lemma exec_quiet:
  assumes "calm uid q" "\<And>now db. user_step {} db (f now db)" "exec q n f w = (a, w')"
  shows "quiet uid (ww_db w) (ww_db w')"
  using assms env_quiet [OF assms(1), of w n] quiet_trans [OF env_quiet [OF assms(1), of w n] quiet_step]
  by (auto simp: exec_def Let_def split: if_splits)

lemma on_ban_quiet [quiet_access]: "calm uid q \<Longrightarrow> on_ban q n d f w = (a, w') \<Longrightarrow> quiet uid (ww_db w) (ww_db w')"
  by (auto simp: on_ban_def Let_def env_quiet split: option.splits prod.splits)

lemma on_challenges_quiet [quiet_access]:
  "calm uid q \<Longrightarrow> on_challenges q n f w = (a, w') \<Longrightarrow> quiet uid (ww_db w) (ww_db w')"
  by (auto simp: on_challenges_def Let_def env_quiet split: prod.splits)

lemma attempt_quiet [quiet_access]:
  "calm uid q \<Longrightarrow> recordLoginAttempt q n u x y w = (a, w') \<Longrightarrow> quiet uid (ww_db w) (ww_db w')"
  unfolding recordLoginAttempt_def by (erule exec_quiet [rotated 2]) (auto intro: user_step.attempt)

lemma notify_db [simp]: "ww_db (notifyAdminSecurity m w) = ww_db w" "ww_db (notifyAdminLoginSuccess u ip w) = ww_db w"
  by (simp_all add: notifyAdminSecurity_def notifyAdminLoginSuccess_def)

lemma finish_quiet [quiet_access]:
  assumes "calm uid q" "finish_login q user target s w = (r, w')"
  shows "quiet uid (ww_db w) (ww_db w')"
proof (cases "SetUserWithVersion (wr_save q) (wr_raw q) (u_ID user) (u_Username user) (u_Role user) (u_SessionVersion user) s")
  case (Pair ok s1)
  obtain a w1 where w1: "recordLoginAttempt q 20 (u_Username user) ''success'' [] w = (a, w1)" by fastforce
  obtain b w2 where w2: "exec q 21 (\<lambda>now. UpdateUserLastLogin (u_ID user) (request_ip q) now) w1 = (b, w2)" by fastforce
  have "quiet uid (ww_db w1) (ww_db w2)" using assms(1) _ w2 by (rule exec_quiet) (rule user_step.last_login)
  with attempt_quiet [OF assms(1) w1] have "quiet uid (ww_db w) (ww_db w2)" by (rule quiet_trans)
  then show ?thesis using assms(2) Pair w1 w2 by (cases ok) (auto simp: finish_login_def)
qed

section \<open>A code signs in once\<close>

definition login_cookie :: "web_request \<Rightarrow> int \<Rightarrow> sess_values option \<Rightarrow> bool" where
  "login_cookie q uid c = (case c of
       None \<Rightarrow> False
     | Some v \<Rightarrow> tbl_get v ''sid'' = Some (SStr (wr_raw q)) \<and> tbl_get v ''user_id'' = Some (SInt64 uid))"

definition signed_in :: "web_request \<Rightarrow> int \<Rightarrow> session \<Rightarrow> bool" where
  "signed_in q uid s = list_ex (login_cookie q uid) (se_cookies s)"

lemma signed_in_iff: "signed_in q uid s \<longleftrightarrow> (\<exists>c\<in>set (se_cookies s). login_cookie q uid c)"
  by (simp add: signed_in_def list_ex_iff)

lemma login_cookie_simps [simp]:
  "\<not> login_cookie q uid None"
  "login_cookie q uid (Some v) \<longleftrightarrow> tbl_get v ''sid'' = Some (SStr (wr_raw q)) \<and> tbl_get v ''user_id'' = Some (SInt64 uid)"
  by (simp_all add: login_cookie_def)

text \<open>A request that answers no cookie yet, and whose fresh random session ID is not the old one.\<close>

definition fresh_request :: "web_request \<Rightarrow> session \<Rightarrow> bool" where
  "fresh_request q s \<longleftrightarrow> se_cookies s = [] \<and> sess_get s ''sid'' \<noteq> Some (SStr (wr_raw q))"

lemma not_signed_in: "fresh_request q s \<Longrightarrow> \<not> signed_in q uid s"
  by (simp add: fresh_request_def signed_in_iff)

lemma give_up_not_signed_in:
  assumes "fresh_request q s" "give_up_2fa q n r s w = ((s', r'), w')"
  shows "\<not> signed_in q uid s'"
proof -
  have "se_cookies s' = [] \<or> se_cookies s' = [if se_deleted s then None else Some (tbl_del ''pending_2fa_token'' (se_values s))]"
    using assms by (auto simp: give_up_2fa_def on_challenges_def ClearPending2FA_def save_session_def fresh_request_def Let_def
        split: prod.splits if_splits)
  then show ?thesis using assms(1) by (auto simp: signed_in_iff fresh_request_def sess_get_def tbl_simps split: if_splits)
qed

lemma finish_signed_in:
  assumes "fresh_request q s" "finish_login q user target s w = ((s', r), w')" "signed_in q uid s'"
  shows "u_ID user = uid"
proof -
  have "\<forall>c\<in>set (se_cookies s'). login_cookie q uid c \<longrightarrow> u_ID user = uid"
    using assms(1,2) by (auto simp: finish_login_def SetUserWithVersion_def save_session_def fresh_request_def tbl_simps
        split: prod.splits if_splits bool.splits)
  then show ?thesis using assms(3) by (auto simp: signed_in_iff)
qed

text \<open>What an accepted code did: its step was claimed.\<close>

lemma accept_code_claims:
  assumes "calm uid q" "accept_code l q n code user w = (Inr True, w')" "u_ID user = uid"
  shows "\<exists>step db. ValidateStep (lib_hmac l) code (u_TOTPSecret user) (ww_now w) = (step, True) \<and>
    quiet uid (ww_db w) db \<and> ClaimUserTOTPStep uid step db = (True, ww_db w')"
  using assms env_quiet [OF assms(1), of w n]
  by (auto simp: accept_code_def Let_def split: prod.splits bool.splits if_splits)

lemma Login2FAPost_claims:
  assumes run: "Login2FAPost l q s w = ((s', r), w')" and fresh: "fresh_request q s"
    and calm: "calm uid q" and "in": "signed_in q uid s'"
  shows "\<exists>step db1 db2 secret now. ValidateStep (lib_hmac l) (wr_form q ''code'') secret now = (step, True) \<and>
    quiet uid (ww_db w) db1 \<and> ClaimUserTOTPStep uid step db1 = (True, db2) \<and> quiet uid db2 (ww_db w')"
proof -
  obtain pending w1 where "on_challenges q 0 (\<lambda>now items. (GetPending2FA now s items, items)) w = (pending, w1)"
    by (rule prod.exhaust)
  moreover obtain userID next_path version ok where "pending = (userID, next_path, version, ok)" by (rule prod_cases4)
  ultimately have w1:
    "on_challenges q 0 (\<lambda>now items. (GetPending2FA now s items, items)) w = ((userID, next_path, version, ok), w1)" by simp
  obtain u w2 where w2: "query q 1 (\<lambda>w. GetUser (lib_secrets l) userID (ww_db w)) w1 = (u, w2)" by fastforce
  obtain banned d w3 where w3: "on_ban q 3 (False, 0) (IsBanned (request_ip q)) w2 = ((banned, d), w3)"
    by (cases "on_ban q 3 (False, 0) (IsBanned (request_ip q)) w2") auto
  obtain allowed w4 where w4: "on_challenges q 5 (\<lambda>now items. AllowPending2FAAttempt now s items) w3 = (allowed, w4)"
    by fastforce
  note steps = run [unfolded Login2FAPost_def Let_def w1 prod.case]
  have ok: ok using steps not_signed_in [OF fresh] "in" by (auto split: if_splits)
  obtain user where u: "u = Inr user"
    using steps ok w2 give_up_not_signed_in [OF fresh] "in" by (cases u) auto
  have user: "pending_user_ok user version"
    using steps ok w2 u give_up_not_signed_in [OF fresh] "in" by (auto split: if_splits)
  have free: "\<not> banned"
    using steps ok w2 w3 u user not_signed_in [OF fresh] "in" by (auto split: if_splits prod.splits)
  have allowed
    using steps ok w2 w3 w4 u user free give_up_not_signed_in [OF fresh] "in" by (cases allowed) auto
  obtain a w5 where w5: "accept_code l q 7 (wr_form q ''code'') user w4 = (a, w5)" by fastforce
  have a: "a = Inr True"
    using steps ok w2 w3 w4 w5 u user free \<open>allowed\<close> not_signed_in [OF fresh] "in"
    by (cases a) (auto split: bool.splits)
  obtain b w6 where w6: "on_ban q 11 () (\<lambda>_ b. ((), ClearFailures (request_ip q) b)) w5 = (b, w6)"
    by (rule prod.exhaust)
  obtain c w7 where w7:
    "on_challenges q 12 (\<lambda>now items. ConsumePending2FA (u_ID user) (u_SessionVersion user) now s items) w6 = (c, w7)"
    by fastforce
  have c
    using steps ok w2 w3 w4 w5 w6 w7 u user free \<open>allowed\<close> a not_signed_in [OF fresh] "in" by (cases c) auto
  then have last: "finish_login q user (safeNext (lib_url_parse l) next_path) s w7 = ((s', r), w')"
    using steps ok w2 w3 w4 w5 w6 w7 u user free \<open>allowed\<close> a by simp
  have uid: "u_ID user = uid" by (rule finish_signed_in [OF fresh last "in"])
  have before: "quiet uid (ww_db w) (ww_db w4)"
    using on_challenges_quiet [OF calm w1] query_quiet [OF calm w2] on_ban_quiet [OF calm w3] on_challenges_quiet [OF calm w4]
    by (blast intro: quiet_trans)
  have after: "quiet uid (ww_db w5) (ww_db w')"
    using on_ban_quiet [OF calm w6] on_challenges_quiet [OF calm w7] finish_quiet [OF calm last]
    by (blast intro: quiet_trans)
  from accept_code_claims [OF calm w5 [unfolded a] uid] before after show ?thesis by (blast intro: quiet_trans)
qed


text \<open>A server with two administrators, and requests on it.\<close>

definition sample_admin :: "int \<Rightarrow> string \<Rightarrow> bool \<Rightarrow> user_row" where
  "sample_admin i name totp =
     (new_user_row name name ''admin'' 0 i)\<lparr>ur_totp_enabled := totp, ur_totp_secret := (if totp then ''AA'' else []),
        ur_totp_grace_started_at := (if totp then None else Some 0)\<rparr>"

definition sample_world :: "bool \<Rightarrow> time \<Rightarrow> web_world" where
  "sample_world totp now =
     \<lparr>ww_now = now,
      ww_db = \<lparr>ud_users = \<lparr>at_rows = [sample_admin 1 ''ana'' totp, sample_admin 2 ''eva'' totp], at_seq = 2\<rparr>, ud_push = at_empty,
        ud_revoked = [], ud_attempts = at_empty, ud_audit = at_empty, ud_alerts = empty_alert_db\<rparr>,
      ww_email = Some (defaultEmailConfig\<lparr>emc_EnforceTOTPNonReaders := True\<rparr>), ww_challenges = [],
      ww_ban = Some (NewBanhammer 5 (15 * minute) None []), ww_telegram = True,
      ww_notices = \<lparr>ln_lastByIP = [], ln_sent = [], ln_suppressed = 0\<rparr>, ww_outbox = [],
      ww_passwordFailures = New_limiter 5 (15 * minute), ww_totpAttempts = New_limiter 5 (5 * minute)\<rparr>"

text \<open>A password is its own hash; the code of a step is its last byte.\<close>

definition sample_lib :: web_lib where
  "sample_lib =
     \<lparr>lib_secrets = None, lib_bcrypt = (\<lambda>h p. h = p), lib_hmac = (\<lambda>_ m. [0, 0, 0, last m] @ replicate 16 0),
      lib_sid_hash = (\<lambda>s. s), lib_url_parse = (\<lambda>s. Some \<lparr>url_Scheme = [], url_Host = [], url_Hostname = [],
        url_Port = [], url_HasUser = False, url_Path = s, url_Fragment = []\<rparr>)\<rparr>"

definition sample_request :: "(nat \<Rightarrow> web_world \<Rightarrow> web_world) \<Rightarrow> string \<Rightarrow> (string \<times> string) list \<Rightarrow> web_request" where
  "sample_request env raw form =
     \<lparr>wr_env = env, wr_fail = (\<lambda>_. False), wr_form = (\<lambda>k. or_zero [] (tbl_get form k)),
      wr_http = \<lparr>hr_RemoteAddr = ''198.51.100.7:4711'', hr_Header = [], hr_Host = ''probakgo'', hr_TLS = True\<rparr>,
      wr_method = ''POST'', wr_path = ''/login'', wr_userAgent = [], wr_details = [], wr_save = (\<lambda>_. True), wr_raw = raw\<rparr>"

definition alone :: "nat \<Rightarrow> web_world \<Rightarrow> web_world" where "alone n w = w"

text \<open>The user of key 1 passes the password check at an instant, and enters the code of that instant.\<close>

definition sample_pending :: "string \<Rightarrow> web_world \<Rightarrow> web_world" where
  "sample_pending tok w = w\<lparr>ww_challenges := [(tok, \<lparr>lc_userID = 1, lc_version = 1, lc_next = ''/'',
     lc_expires = ww_now w + 300000000000, lc_attempts = 0\<rparr>)]\<rparr>"

definition sample_2fa :: "string \<Rightarrow> string \<Rightarrow> web_world \<Rightarrow> (session \<times> reply) \<times> web_world" where
  "sample_2fa tok code w = Login2FAPost sample_lib (sample_request alone (tok @ ''s'') [(''code'', code)])
     (request_session (Some [(''pending_2fa_token'', SStr tok)])) (sample_pending tok w)"

definition sample_second :: web_world where
  "sample_second = (snd (sample_2fa ''a'' ''000003'' (sample_world True 90000000000)))\<lparr>ww_now := 120000000000\<rparr>"

lemma alone_calm: "wr_env q = alone \<Longrightarrow> calm uid q"
  by (simp add: calm_def alone_def)

lemma sample_env [simp]: "wr_env (sample_request env raw form) = env"
  by (simp add: sample_request_def)


section \<open>An administrator stays\<close>

definition has_admin :: "user_db \<Rightarrow> bool" where
  "has_admin db = at_has active_admin (ud_users db)"

lemma has_admin_update:
  assumes "has_admin db" "\<And>r. ur_role (f r) = ur_role r" "\<And>r. ur_is_active (f r) = ur_is_active r"
  shows "has_admin (update_users P f db)"
proof -
  obtain r where r: "r \<in> set (at_rows (ud_users db))" "active_admin r" using assms(1) by (auto simp: has_admin_def at_has_iff)
  then have "(if P r then f r else r) \<in> set (at_rows (ud_users (update_users P f db)))"
    by (auto simp: update_users_def at_rows_simps)
  moreover have "active_admin (if P r then f r else r)" using r(2) assms(2,3) by (simp add: active_admin_def)
  ultimately show ?thesis unfolding has_admin_def at_has_iff by blast
qed

lemma deactivate_keeps_admin:
  assumes "has_admin db" "\<not> IsLastActiveAdmin i db"
  shows "has_admin (SetUserActive i False db)"
proof -
  obtain r where r: "r \<in> set (at_rows (ud_users db))" "ur_id r \<noteq> i" "active_admin r"
    using assms by (auto simp: has_admin_def IsLastActiveAdmin_def at_has_iff)
  then have "r \<in> set (at_rows (ud_users (SetUserActive i False db)))"
    by (force simp: SetUserActive_def DeletePushSubscriptionsByUser_def update_users_def at_rows_simps)
  then show ?thesis using r(3) by (auto simp: has_admin_def at_has_iff)
qed

lemma has_admin_same:
  "has_admin (InsertLoginAttempt a b c d e f now db) = has_admin db"
  by (simp add: has_admin_def InsertLoginAttempt_def)

lemma has_admin_login: "has_admin db \<Longrightarrow> has_admin (UpdateUserLastLogin i ip now db)"
  "has_admin db \<Longrightarrow> has_admin (StartUserTOTPGrace i now db)"
  by (auto simp: UpdateUserLastLogin_def StartUserTOTPGrace_def intro!: has_admin_update)

text \<open>A request that runs alone.\<close>

lemma alone_accesses:
  assumes "wr_env q = alone"
  shows "query q n f w = (if wr_fail q n then Inl (Refused ''database'') else f w, w)"
    and "exec q n g w = (if wr_fail q n then (False, w) else (True, w\<lparr>ww_db := g (ww_now w) (ww_db w)\<rparr>))"
    and "ww_db (snd (on_ban q n d h w)) = ww_db w" and "ww_db (snd (on_challenges q n k w)) = ww_db w"
    and "ww_db (notifyAdminLoginFailed q n u reason banned w) = ww_db w"
  using assms
  by (auto simp: query_def exec_def on_ban_def on_challenges_def notifyAdminLoginFailed_def alone_def Let_def
      split: option.split prod.split bool.split)

lemma alone_attempt:
  "wr_env q = alone \<Longrightarrow> has_admin (ww_db w) \<Longrightarrow> has_admin (ww_db (snd (recordLoginAttempt q n u x y w)))"
  by (simp add: recordLoginAttempt_def alone_accesses has_admin_same)

lemma alone_failed:
  "wr_env q = alone \<Longrightarrow> has_admin (ww_db w) \<Longrightarrow> has_admin (ww_db (loginFailed q n u x y w))"
  using alone_attempt [of q w n u "''failed''" x]
  by (simp add: loginFailed_def case_prod_unfold alone_accesses)

lemma alone_finish:
  assumes "wr_env q = alone" "has_admin (ww_db w)"
  shows "has_admin (ww_db (snd (finish_login q user target s w)))"
  using alone_attempt [OF assms, of 20 "u_Username user" "''success''" "[]"] assms
  by (simp add: finish_login_def case_prod_unfold alone_accesses has_admin_login split: bool.split)

lemma alone_enforcement:
  assumes "wr_env q = alone" "has_admin (ww_db w)"
  shows "has_admin (ww_db (snd (handleTOTPEnforcement l q user w)))"
  using assms alone_attempt [OF assms(1)]
  by (simp add: handleTOTPEnforcement_def case_prod_unfold alone_accesses has_admin_login deactivate_keeps_admin Let_def
      split: sum.split bool.split option.split)

lemma alone_LoginPost:
  assumes "wr_env q = alone" "has_admin (ww_db w)"
  shows "has_admin (ww_db (snd (LoginPost l q s w)))"
proof -
  obtain banned d w1 where w1: "on_ban q 0 (False, 0) (IsBanned (request_ip q)) w = ((banned, d), w1)"
    by (cases "on_ban q 0 (False, 0) (IsBanned (request_ip q)) w") auto
  have adm1: "has_admin (ww_db w1)" using alone_accesses(3) [OF assms(1), of 0 "(False, 0)" "IsBanned (request_ip q)" w] w1 assms(2) by simp
  show ?thesis
  proof (cases "banned \<or> wr_fail q 2 \<or> (case GetUserByUsername (lib_secrets l) (wr_form q ''username'') (ww_db w1) of
      Inl _ \<Rightarrow> True | Inr user \<Rightarrow> \<not> u_IsActive user \<or> \<not> lib_bcrypt l (u_PasswordHash user) (wr_form q ''password''))")
    case True
    then show ?thesis using w1 adm1 alone_attempt [OF assms(1) adm1] alone_failed [OF assms(1) adm1] assms(1)
      by (auto simp: LoginPost_def Let_def case_prod_unfold alone_accesses split: sum.splits)
  next
    case False
    then obtain user where user: "GetUserByUsername (lib_secrets l) (wr_form q ''username'') (ww_db w1) = Inr user"
      "u_IsActive user" "lib_bcrypt l (u_PasswordHash user) (wr_form q ''password'')" "\<not> banned" "\<not> wr_fail q 2"
      by (auto split: sum.splits)
    obtain enf w3 where w3: "handleTOTPEnforcement l q user w1 = (enf, w3)" by (rule prod.exhaust)
    have adm3: "has_admin (ww_db w3)" using alone_enforcement [OF assms(1) adm1, of l user] w3 by simp
    have adm4: "has_admin (ww_db (snd (on_ban q 12 () f w3)))" for f using adm3 by (simp add: alone_accesses(3) [OF assms(1)])
    show ?thesis using w1 user w3 adm3 assms(1) alone_finish [OF assms(1) adm4] alone_attempt [OF assms(1)]
      by (cases enf) (auto simp: LoginPost_def Let_def case_prod_unfold alone_accesses split: bool.split)
  qed
qed

lemma alone_needs:
  assumes "wr_env q = alone" "has_admin (ww_db w)"
  shows "has_admin (ww_db (snd (userNeedsTOTPEnforcement l q user w)))"
    and "fst (userNeedsTOTPEnforcement l q user w) = Inr True \<Longrightarrow>
      \<not> IsLastActiveAdmin (u_ID user) (ww_db (snd (userNeedsTOTPEnforcement l q user w)))"
  using assms unfolding userNeedsTOTPEnforcement_def alone_accesses [OF assms(1)]
  by (auto simp: has_admin_login split: sum.splits option.splits if_splits)

lemma alone_RequireLogin:
  assumes "wr_env q = alone" "has_admin (ww_db w)"
  shows "has_admin (ww_db (snd (RequireLogin l q escaped s w)))"
proof -
  have clear: "has_admin (ww_db (snd (clear_session q n r s' w')))" if "has_admin (ww_db w')" for n r s' w'
    using that by (simp add: clear_session_def case_prod_unfold alone_accesses [OF assms(1)])
  have deactivated: "has_admin (ww_db (snd (exec q 6 (\<lambda>_. SetUserActive (u_ID user) False) w3)))"
    if "userNeedsTOTPEnforcement l q user w = (Inr True, w3)" for user w3
    using alone_needs [OF assms, of l user] that by (simp add: alone_accesses [OF assms(1)] deactivate_keeps_admin)
  have kept: "has_admin (ww_db w3)" if "userNeedsTOTPEnforcement l q user w = (n, w3)" for user n w3
    using alone_needs(1) [OF assms, of l user] that by simp
  show ?thesis
    unfolding RequireLogin_def alone_accesses(1) [OF assms(1)]
    using assms(2) by (auto simp: clear case_prod_unfold dest: kept deactivated split: prod.split sum.split bool.split option.split)
qed

text \<open>C31: enforcing the second factor never locks out the last active administrator: when a request to sign
  in, or any page request, runs without others in between, some administrator is still active after it.\<close>

theorem enforcement_keeps_an_admin:
  assumes "wr_env q = alone" "has_admin (ww_db w)"
  shows "has_admin (ww_db (snd (LoginPost l q s w))) \<and> has_admin (ww_db (snd (RequireLogin l q escaped s w)))"
  using alone_LoginPost [OF assms] alone_RequireLogin [OF assms] by blast

text \<open>Both administrators let their grace period of three days pass. The first to sign in is deactivated.\<close>

definition late_login :: "(nat \<Rightarrow> web_world \<Rightarrow> web_world) \<Rightarrow> string \<Rightarrow> web_world \<Rightarrow> (session \<times> reply) \<times> web_world" where
  "late_login env name w = LoginPost sample_lib (sample_request env name [(''username'', name), (''password'', name)])
     (request_session (Some [])) w"

definition late_world :: web_world where "late_world = sample_world False (100 * hour)"

theorem enforcement_keeps_an_admin_witness:
  "has_admin (ww_db (snd (late_login alone ''ana'' late_world))) \<and>
   snd (fst (late_login alone ''ana'' late_world)) = Render ''login.html'' (LoginRefused GraceExpired)"
proof -
  have "has_admin (ww_db late_world)" by code_simp
  then show ?thesis unfolding late_login_def
    using enforcement_keeps_an_admin [of "sample_request alone ''ana'' [(''username'', ''ana''), (''password'', ''ana'')]" late_world]
    by (simp del: late_login_def) code_simp
qed

definition ana_in_between :: "nat \<Rightarrow> web_world \<Rightarrow> web_world" where
  "ana_in_between n w = (if n = 9 then snd (late_login alone ''ana'' w) else w)"

text \<open>What a late login leaves of the users: the state its deactivation left.\<close>

lemma late_login_users:
  assumes "on_ban q 0 (False, 0) (IsBanned (request_ip q)) w = ((False, d), w)"
    and "query q 2 (\<lambda>w. GetUserByUsername (lib_secrets l) (wr_form q ''username'') (ww_db w)) w = (Inr user, w)"
    and "u_IsActive user" "lib_bcrypt l (u_PasswordHash user) (wr_form q ''password'')" "u_Role user = ''admin''" "\<not> u_TOTPEnabled user"
    and "query q 6 (\<lambda>w. GetEmailConfig (lib_secrets l) (ww_email w)) w = (Inr cfg, w)" "emc_EnforceTOTPNonReaders cfg"
    and "u_TOTPGraceStartedAt user = Some t" "72 * hour \<le> t_sub (ww_now w) t"
    and "query q 8 (\<lambda>w. Inr (IsLastActiveAdmin (u_ID user) (ww_db w))) w = (Inr False, w)"
    and "exec q 9 (\<lambda>_. SetUserActive (u_ID user) False) w = (True, w4)" "\<And>n w. 10 \<le> n \<Longrightarrow> wr_env q n w = w"
  shows "ud_users (ww_db (snd (LoginPost l q s w))) = ud_users (ww_db w4)"
proof -
  have attempt: "ud_users (ww_db (snd (recordLoginAttempt q 10 u x y w4))) = ud_users (ww_db w4)" for u x y
    by (simp add: recordLoginAttempt_def exec_def assms(13) InsertLoginAttempt_def)
  have "ww_db (notifyAdminLoginFailed q 11 u reason banned w5) = ww_db w5" for u reason banned w5
    by (auto simp: notifyAdminLoginFailed_def assms(13) Let_def split: prod.split bool.split)
  then have "ud_users (ww_db (snd (handleTOTPEnforcement l q user w))) = ud_users (ww_db w4)"
    using attempt by (simp add: handleTOTPEnforcement_def assms(5-12) Let_def case_prod_unfold)
  moreover have "\<exists>r. fst (handleTOTPEnforcement l q user w) = Answered r"
    by (simp add: handleTOTPEnforcement_def assms(5-12) Let_def case_prod_unfold)
  ultimately show ?thesis
    by (cases "handleTOTPEnforcement l q user w") (auto simp: LoginPost_def assms(1-4) Let_def)
qed

definition late_user :: "string \<Rightarrow> user" where
  "late_user name = (case GetUserByUsername None name (ww_db late_world) of Inr u \<Rightarrow> u)"


section \<open>A closed session stays closed\<close>

text \<open>What happens to the table of closed sessions within a session's lifetime of an instant.\<close>

definition revoked_run :: "(string \<Rightarrow> string) \<Rightarrow> time \<Rightarrow> user_db \<Rightarrow> user_db \<Rightarrow> bool" where
  "revoked_run h t0 = (\<lambda>db db'. ud_revoked db' = ud_revoked db \<or>
     (\<exists>sid now. t0 \<le> now \<and> now \<le> t_add t0 session_Lifetime \<and>
        db' = RevokeSession h sid (t_add now session_Lifetime) now db))\<^sup>*\<^sup>*"

definition closed :: "(string \<Rightarrow> string) \<Rightarrow> time \<Rightarrow> string \<Rightarrow> user_db \<Rightarrow> bool" where
  "closed h t0 sid db \<longleftrightarrow> tbl_ok (ud_revoked db) \<and>
     (\<exists>e. tbl_get (ud_revoked db) (h sid) = Some e \<and> unix (t_add t0 session_Lifetime) \<le> e)"

lemma unix_le: "t \<le> u \<Longrightarrow> unix t \<le> unix u"
  by (simp add: unix_def zdiv_mono1)

lemma tbl_get_filter: "tbl_ok t \<Longrightarrow> tbl_get t k = Some v \<Longrightarrow> P (k, v) \<Longrightarrow> tbl_get (filter P t) k = Some v"
  by (simp add: tbl_get_in [symmetric] tbl_ok_filter_rows)

lemma closed_revoke:
  assumes "closed h t0 sid db" "t0 \<le> now" "now \<le> t_add t0 session_Lifetime"
  shows "closed h t0 sid (RevokeSession h sid' (t_add now session_Lifetime) now db)"
proof -
  obtain e where e: "tbl_ok (ud_revoked db)" "tbl_get (ud_revoked db) (h sid) = Some e" "unix (t_add t0 session_Lifetime) \<le> e"
    using assms(1) by (auto simp: closed_def)
  let ?kept = "filter (\<lambda>(_, expires). \<not> expires < unix now) (ud_revoked db)"
  have "tbl_get ?kept (h sid) = Some e"
    using e unix_le [OF assms(3)] by (intro tbl_get_filter) auto
  moreover have "unix (t_add t0 session_Lifetime) \<le> unix (t_add now session_Lifetime)"
    using assms(2) by (intro unix_le) (simp add: t_add_def)
  ultimately show ?thesis using e(1,3)
    by (auto simp: closed_def RevokeSession_def Let_def tbl_simps tbl_ok_filter_rows)
qed

lemma closed_run: "revoked_run h t0 db db' \<Longrightarrow> closed h t0 sid db \<Longrightarrow> closed h t0 sid db'"
  unfolding revoked_run_def
  by (induction rule: rtranclp_induct) (auto simp: closed_revoke, simp add: closed_def)

text \<open>C30: a session that was closed by a logout serves no page again, whoever holds a copy of its cookie: for the
  seven days the cookie could live, every later request with its session ID is turned away, whatever other
  logouts and changes come in between.\<close>

theorem logout_lasts:
  assumes "tbl_ok (ud_revoked (ww_db (wr_env q 0 w)))" "t0 = ww_now (wr_env q 0 w)"
    and "Logout l q s w = ((s', Redirect ''/login''), w1)" "session_ID s = Some sid"
    and "\<forall>w. revoked_run (lib_sid_hash l) t0 (ww_db w) (ww_db (wr_env q 1 w))"
    and "revoked_run (lib_sid_hash l) t0 (ww_db w1) (ww_db w2)"
    and "\<forall>n w. revoked_run (lib_sid_hash l) t0 (ww_db w) (ww_db (wr_env q2 n w))"
    and "session_ID s2 = Some sid"
  shows "snd (fst (RequireLogin l q2 escaped s2 w2)) \<noteq> NextHandler"
proof -
  let ?h = "lib_sid_hash l"
  obtain ok wa where wa: "exec q 0 (\<lambda>now. RevokeSession ?h sid (t_add now session_Lifetime) now) w = (ok, wa)" by fastforce
  have ok using assms(3,4) wa by (cases ok) (auto simp: Logout_def)
  then have "ww_db wa = RevokeSession ?h sid (t_add t0 session_Lifetime) t0 (ww_db (wr_env q 0 w))"
    using wa assms(2) by (auto simp: exec_def Let_def split: if_splits)
  then have "closed ?h t0 sid (ww_db wa)"
    using assms(1) by (simp add: closed_def RevokeSession_def Let_def tbl_simps tbl_ok_filter_rows)
  moreover have "revoked_run ?h t0 (ww_db wa) (ww_db w1)"
    using assms(3,4,5) wa \<open>ok\<close> by (auto simp: Logout_def on_challenges_def Let_def split: prod.splits)
  ultimately have "closed ?h t0 sid (ww_db w2)" using assms(6) by (blast intro: closed_run)
  then have "closed ?h t0 sid (ww_db (wr_env q2 2 (wr_env q2 0 w2)))" using assms(7) by (blast intro: closed_run)
  then have "IsSessionRevoked ?h sid (ww_db (wr_env q2 2 (wr_env q2 0 w2)))" by (auto simp: closed_def IsSessionRevoked_def)
  then show ?thesis using assms(8)
    by (simp add: RequireLogin_def query_def clear_session_def Let_def case_prod_unfold split: sum.split bool.split)
qed

lemma alone_revoked: "wr_env q = alone \<Longrightarrow> revoked_run h t0 (ww_db w) (ww_db (wr_env q n w))"
  by (simp add: revoked_run_def alone_def)

text \<open>Ana's page is served before her logout and not after it.\<close>

definition ana_session :: session where
  "ana_session = request_session (Some [(''sid'', SStr ''k''), (''user_id'', SInt64 1), (''username'', SStr ''ana''),
     (''role'', SStr ''admin''), (''session_version'', SInt 1)])"

definition ana_page :: "web_world \<Rightarrow> reply" where
  "ana_page w = snd (fst (RequireLogin sample_lib (sample_request alone ''x'' []) [] ana_session w))"

definition ana_logout :: "(session \<times> reply) \<times> web_world" where
  "ana_logout = Logout sample_lib (sample_request alone ''x'' []) ana_session (sample_world True 0)"

theorem logout_lasts_witness:
  "ana_page (sample_world True 0) = NextHandler \<and> ana_page (snd ana_logout) \<noteq> NextHandler"
proof -
  have "ana_page (sample_world True 0) = NextHandler" by code_simp
  moreover have out: "snd (fst ana_logout) = Redirect ''/login''" by code_simp
  have "Logout sample_lib (sample_request alone ''x'' []) ana_session (sample_world True 0) =
      ((fst (fst ana_logout), Redirect ''/login''), snd ana_logout)"
    by (simp add: out [symmetric]) (simp add: ana_logout_def)
  moreover have "session_ID ana_session = Some ''k''" by code_simp
  moreover have "tbl_ok (ud_revoked (ww_db (sample_world True 0)))" by (simp add: sample_world_def)
  ultimately show ?thesis
    using logout_lasts [of "sample_request alone ''x'' []" "sample_world True 0" 0 sample_lib ana_session
        "fst (fst ana_logout)" "snd ana_logout" "''k''" "snd ana_logout" "sample_request alone ''x'' []" ana_session "[]"]
    by (simp add: alone_revoked alone_def ana_page_def revoked_run_def sample_world_def)
qed

end
