(* ===== verification/Client_Api.thy ===== *)
theory Client_Api
  imports Alert_Pipeline Netutil
begin

text \<open>
  The HTTP interface of the clients: \<open>internal/api\<close> (the router and the check of the key) and
  \<open>internal/api/handlers\<close> (reports, heartbeats, server lists and backup schedules), with the methods
  of \<open>internal/service/report.go\<close> that save a report and assemble an answer.

  A handler is a function of its request and of the world, the store with the limiters and the alert
  queue. Requests run side by side: \<open>ar_auth\<close> and \<open>ar_bind\<close> are what other requests do to the keys
  between two statements of the authentication and of the binding of a key, \<open>ar_env\<close> what they do
  to the store between the later transactions of this request. The queries that assemble the answer of
  a read see one state. Which endpoint a path selects, with which parameters, is the router library's
  part: an \<open>api_call\<close> is its result.
\<close>

section \<open>Requests and answers\<close>

text \<open>What \<open>json.Decoder.Decode\<close> answers, for the body and for what follows it.\<close>

datatype 'q decode = Value 'q | Malformed | Ended

type_synonym 'q body = "'q decode \<times> unit decode"

definition decodeJSONBody :: "'q body \<Rightarrow> 'q option" where
  "decodeJSONBody b =
     (case fst b of
        Value q \<Rightarrow> (case snd b of Ended \<Rightarrow> Some q | _ \<Rightarrow> None)
      | _ \<Rightarrow> None)"

record pve_server_response =
  psr_ID :: int
  psr_Name :: string
  psr_IP :: string
  psr_PublicIP :: string
  psr_ClientVersion :: string
  psr_MachineBound :: bool
  psr_IsStale :: bool
  psr_StaleReason :: string
  psr_LastReport :: "time option"
  psr_BackupStatus :: string

record pbs_server_response =
  bsr_ID :: int
  bsr_Name :: string
  bsr_IP :: string
  bsr_PublicIP :: string
  bsr_ClientVersion :: string
  bsr_MachineBound :: bool
  bsr_IsStale :: bool
  bsr_StaleReason :: string
  bsr_LastReport :: "time option"

record vm_config_response =
  vcs_ID :: int
  vcs_ServerName :: string
  vcs_VMID :: string
  vcs_VMName :: string
  vcs_Monday :: bool
  vcs_Tuesday :: bool
  vcs_Wednesday :: bool
  vcs_Thursday :: bool
  vcs_Friday :: bool
  vcs_Saturday :: bool
  vcs_Sunday :: bool
  vcs_IsExcluded :: bool

datatype api_body =
    ErrorBody string
  | StatusBody string
  | SavedBody string
  | BeatBody string string
  | CreatedBody int
  | PVEServersBody "pve_server_response list"
  | PBSServersBody "pbs_server_response list"
  | PVEReportsBody pve_server_response "pve_report list"
  | ConfigsBody string "vm_config_response list"

record api_response =
  rp_status :: int
  rp_body :: api_body
  rp_RetryAfter :: "string option"

record api_world =
  aw_db :: store
  aw_clients :: limiter
  aw_ips :: limiter
  aw_alertQueue :: bool

record api_run =
  ar_now :: time
  ar_tz :: location
  ar_nonce :: string
  ar_ContentLength :: int
  ar_healthy :: bool
  ar_auth :: "nat \<Rightarrow> key_table \<Rightarrow> key_table"
  ar_bind :: "nat \<Rightarrow> key_table \<Rightarrow> key_table"
  ar_env :: "nat \<Rightarrow> store \<Rightarrow> store"

datatype api_call =
    Health
  | VerifyKey
  | Heartbeat "heartbeat_request body"
  | ReportPVE "pve_report_request body"
  | ReportPBS "pbs_report_request body"
  | ReportWindows "windows_report_request body"
  | ListPVEServersCall
  | ListPVEReportsCall string string
  | ListPBSServersCall
  | GetBackupConfig string
  | UpdateBackupInventory string "bool body"
  | CreateVMConfig string "vm_config_request body"
  | UpdateVMConfig string string "vm_config_request body"
  | DeleteVMConfig string string
  | ToggleVMExcludeCall string string

definition writeJSON :: "int \<Rightarrow> api_body \<Rightarrow> api_world \<Rightarrow> api_response \<times> api_world" where
  "writeJSON code body w = (\<lparr>rp_status = code, rp_body = body, rp_RetryAfter = None\<rparr>, w)"

definition errJSON :: "int \<Rightarrow> string \<Rightarrow> api_world \<Rightarrow> api_response \<times> api_world" where
  "errJSON code msg w = writeJSON code (ErrorBody msg) w"

definition internalErr :: "api_world \<Rightarrow> api_response \<times> api_world" where
  "internalErr w = errJSON 500 ''internal server error'' w"

text \<open>The queue holds one token; a second one is dropped.\<close>

definition request_alerts :: "api_world \<Rightarrow> api_world" where
  "request_alerts w = w\<lparr>aw_alertQueue := True\<rparr>"

abbreviation on_db :: "(store \<Rightarrow> store) \<Rightarrow> api_world \<Rightarrow> api_world" where
  "on_db f w \<equiv> w\<lparr>aw_db := f (aw_db w)\<rparr>"

text \<open>The guard \<open>requireKeyServer\<close> and the handler behind it.\<close>

definition with_key_server ::
  "api_run \<Rightarrow> api_key \<Rightarrow> string \<Rightarrow> (api_key \<Rightarrow> api_world \<Rightarrow> api_response \<times> api_world) \<Rightarrow>
   api_world \<Rightarrow> api_response \<times> api_world" where
  "with_key_server run k serverName next w =
     (case requireKeyServer (st_secrets (aw_db w)) (ar_bind run) (Some k) serverName (st_keys (aw_db w)) of
        (Inl (code, msg), t) \<Rightarrow> errJSON code msg (on_db (\<lambda>st. st\<lparr>st_keys := t\<rparr>) w)
      | (Inr k', t) \<Rightarrow> next k' (on_db (\<lambda>st. ar_env run 0 (st\<lparr>st_keys := t\<rparr>)) w))"

section \<open>Saving reports\<close>

text \<open>The result is the error, or \<open>None\<close> for \<open>nil\<close>.\<close>

definition upsert_pve :: "int \<Rightarrow> server_facts \<Rightarrow> time \<Rightarrow> store \<Rightarrow> (sql_error + int) \<times> store" where
  "upsert_pve apiKeyID f now st =
     (case (if apiKeyID > 0 then UpsertPVEServerForAPIKey apiKeyID f now (pd_servers (st_pve st))
            else UpsertPVEServer f now (pd_servers (st_pve st))) of
        (r, t) \<Rightarrow> (r, st\<lparr>st_pve := (st_pve st)\<lparr>pd_servers := t\<rparr>\<rparr>))"

definition upsert_pbs :: "int \<Rightarrow> server_facts \<Rightarrow> time \<Rightarrow> store \<Rightarrow> (sql_error + int) \<times> store" where
  "upsert_pbs apiKeyID f now st =
     (case (if apiKeyID > 0 then UpsertPBSServerForAPIKey apiKeyID f now (bd_servers (st_pbs st))
            else UpsertPBSServer f now (bd_servers (st_pbs st))) of
        (r, t) \<Rightarrow> (r, st\<lparr>st_pbs := (st_pbs st)\<lparr>bd_servers := t\<rparr>\<rparr>))"

definition upsert_windows :: "int \<Rightarrow> server_facts \<Rightarrow> time \<Rightarrow> store \<Rightarrow> (sql_error + int) \<times> store" where
  "upsert_windows apiKeyID f now st =
     (case (if apiKeyID > 0 then UpsertWindowsServerForAPIKey (st_keys st) apiKeyID f now (wd_servers (st_windows st))
            else UpsertWindowsServer f now (wd_servers (st_windows st))) of
        (r, t) \<Rightarrow> (r, st\<lparr>st_windows := (st_windows st)\<lparr>wd_servers := t\<rparr>\<rparr>))"

definition pve_facts :: "pve_report_request \<Rightarrow> server_facts" where
  "pve_facts req = \<lparr>sf_Name = prq_Hostname req, sf_IP = prq_IPAddress req, sf_PublicIP = prq_PublicIP req,
     sf_ClientVersion = prq_ClientVersion req, sf_MachineID = prq_MachineID req\<rparr>"

definition pbs_facts :: "pbs_report_request \<Rightarrow> server_facts" where
  "pbs_facts req = \<lparr>sf_Name = brq_Hostname req, sf_IP = brq_IPAddress req, sf_PublicIP = brq_PublicIP req,
     sf_ClientVersion = brq_ClientVersion req, sf_MachineID = brq_MachineID req\<rparr>"

definition windows_facts :: "windows_report_request \<Rightarrow> server_facts" where
  "windows_facts req = \<lparr>sf_Name = wrq_Hostname req, sf_IP = wrq_IPAddress req, sf_PublicIP = wrq_PublicIP req,
     sf_ClientVersion = wrq_ClientVersion req, sf_MachineID = wrq_MachineID req\<rparr>"

definition SavePVEReportForAPIKey ::
  "api_run \<Rightarrow> pve_report_request \<Rightarrow> int \<Rightarrow> store \<Rightarrow> sql_error option \<times> store" where
  "SavePVEReportForAPIKey run req apiKeyID st =
     (case upsert_pve apiKeyID (pve_facts req) (ar_now run) st of
        (Inl e, st1) \<Rightarrow> (Some e, st1)
      | (Inr serverID, st1) \<Rightarrow>
          let st2 = ar_env run 1 st1
          in case InsertPVEReportData serverID req (ar_now run) (st_pve st2) of
               Inl e \<Rightarrow> (Some e, st2)
             | Inr db \<Rightarrow> (None, st2\<lparr>st_pve := db\<rparr>))"

definition SavePVEReport :: "api_run \<Rightarrow> pve_report_request \<Rightarrow> store \<Rightarrow> sql_error option \<times> store" where
  "SavePVEReport run req st = SavePVEReportForAPIKey run req 0 st"

definition SavePBSReportForAPIKey ::
  "api_run \<Rightarrow> pbs_report_request \<Rightarrow> int \<Rightarrow> store \<Rightarrow> sql_error option \<times> store" where
  "SavePBSReportForAPIKey run req apiKeyID st =
     (case upsert_pbs apiKeyID (pbs_facts req) (ar_now run) st of
        (Inl e, st1) \<Rightarrow> (Some e, st1)
      | (Inr serverID, st1) \<Rightarrow>
          let st2 = ar_env run 1 st1;
              swap = \<lparr>swap_Total = brq_SwapTotal req, swap_Used = brq_SwapUsed req, swap_Enabled = brq_SwapEnabled req\<rparr>
          in case InsertPBSReportData serverID (brq_ReportID req) swap (brq_PBSInformation req) (ar_now run) (st_pbs st2) of
               Inl e \<Rightarrow> (Some e, st2)
             | Inr db \<Rightarrow> (None, st2\<lparr>st_pbs := db\<rparr>))"

definition SavePBSReport :: "api_run \<Rightarrow> pbs_report_request \<Rightarrow> store \<Rightarrow> sql_error option \<times> store" where
  "SavePBSReport run req st = SavePBSReportForAPIKey run req 0 st"

definition SaveWindowsReportForAPIKey ::
  "api_run \<Rightarrow> windows_report_request \<Rightarrow> int \<Rightarrow> store \<Rightarrow> sql_error option \<times> store" where
  "SaveWindowsReportForAPIKey run req apiKeyID st =
     (case upsert_windows apiKeyID (windows_facts req) (ar_now run) st of
        (Inl e, st1) \<Rightarrow> (Some e, st1)
      | (Inr serverID, st1) \<Rightarrow>
          let st2 = ar_env run 1 st1
          in case InsertWindowsReportData serverID req (ar_now run) (st_windows st2) of
               Inl e \<Rightarrow> (Some e, st2)
             | Inr db \<Rightarrow> (None, st2\<lparr>st_windows := db\<rparr>))"

section \<open>The handlers of reports and heartbeats\<close>

definition pve_trimmed :: "pve_report_request \<Rightarrow> pve_report_request" where
  "pve_trimmed req = req\<lparr>prq_Hostname := trim_space (prq_Hostname req), prq_ReportID := trim_space (prq_ReportID req)\<rparr>"

definition pbs_trimmed :: "pbs_report_request \<Rightarrow> pbs_report_request" where
  "pbs_trimmed req = req\<lparr>brq_Hostname := trim_space (brq_Hostname req), brq_ReportID := trim_space (brq_ReportID req)\<rparr>"

definition windows_trimmed :: "windows_report_request \<Rightarrow> windows_report_request" where
  "windows_trimmed req = req\<lparr>wrq_Hostname := trim_space (wrq_Hostname req), wrq_ReportID := trim_space (wrq_ReportID req)\<rparr>"

definition saved :: "string \<Rightarrow> api_world \<Rightarrow> api_response \<times> api_world" where
  "saved hostname w = writeJSON 200 (SavedBody hostname) (request_alerts w)"

definition handle_ReportPVE :: "api_run \<Rightarrow> api_key \<Rightarrow> pve_report_request body \<Rightarrow> api_world \<Rightarrow> api_response \<times> api_world" where
  "handle_ReportPVE run k body w =
     (case decodeJSONBody body of
        None \<Rightarrow> errJSON 400 ''invalid JSON'' w
      | Some raw \<Rightarrow>
          let req = pve_trimmed raw
          in case Validate_PVE req of
               Some err \<Rightarrow> errJSON 400 err w
             | None \<Rightarrow> with_key_server run k (prq_Hostname req) (\<lambda>k w.
                 case SavePVEReportForAPIKey run req (k_ID k) (aw_db w) of
                   (Some _, st) \<Rightarrow> internalErr (w\<lparr>aw_db := st\<rparr>)
                 | (None, st) \<Rightarrow> saved (prq_Hostname req) (w\<lparr>aw_db := st\<rparr>)) w)"

definition handle_ReportPBS :: "api_run \<Rightarrow> api_key \<Rightarrow> pbs_report_request body \<Rightarrow> api_world \<Rightarrow> api_response \<times> api_world" where
  "handle_ReportPBS run k body w =
     (case decodeJSONBody body of
        None \<Rightarrow> errJSON 400 ''invalid JSON'' w
      | Some raw \<Rightarrow>
          let req = pbs_trimmed raw
          in case Validate_PBS req of
               Some err \<Rightarrow> errJSON 400 err w
             | None \<Rightarrow> with_key_server run k (brq_Hostname req) (\<lambda>k w.
                 case SavePBSReportForAPIKey run req (k_ID k) (aw_db w) of
                   (Some _, st) \<Rightarrow> internalErr (w\<lparr>aw_db := st\<rparr>)
                 | (None, st) \<Rightarrow> saved (brq_Hostname req) (w\<lparr>aw_db := st\<rparr>)) w)"

text \<open>A Windows report is a heartbeat as well, if its server can be read.\<close>

definition windows_heartbeat :: "windows_report_request \<Rightarrow> int \<Rightarrow> time \<Rightarrow> server_heartbeat" where
  "windows_heartbeat req serverID now =
     zero_server_heartbeat\<lparr>hb_ServerType := ''windows'', hb_ServerID := serverID, hb_Hostname := wrq_Hostname req,
       hb_IP := wrq_IPAddress req, hb_PublicIP := wrq_PublicIP req, hb_ClientVersion := wrq_ClientVersion req,
       hb_MachineID := wrq_MachineID req, hb_LastSeenAt := now\<rparr>"

definition beat_for_windows :: "api_run \<Rightarrow> windows_report_request \<Rightarrow> int \<Rightarrow> store \<Rightarrow> store" where
  "beat_for_windows run req apiKeyID st0 =
     (let st = ar_env run 2 st0
      in case GetWindowsServerByAPIKey (st_keys st) apiKeyID (wd_servers (st_windows st)) of
           Inl _ \<Rightarrow> st
         | Inr sv \<Rightarrow>
             let st' = ar_env run 3 st
             in st'\<lparr>st_heartbeats := UpsertServerHeartbeat (windows_heartbeat req (wins_ID sv) (ar_now run)) (ar_now run)
                  (st_heartbeats st')\<rparr>)"

definition handle_ReportWindows ::
  "api_run \<Rightarrow> api_key \<Rightarrow> windows_report_request body \<Rightarrow> api_world \<Rightarrow> api_response \<times> api_world" where
  "handle_ReportWindows run k body w =
     (case decodeJSONBody body of
        None \<Rightarrow> errJSON 400 ''invalid JSON'' w
      | Some raw \<Rightarrow>
          let req = windows_trimmed raw
          in case Validate_Windows req of
               Some err \<Rightarrow> errJSON 400 err w
             | None \<Rightarrow> with_key_server run k (wrq_Hostname req) (\<lambda>k w.
                 case SaveWindowsReportForAPIKey run req (k_ID k) (aw_db w) of
                   (Some _, st) \<Rightarrow> internalErr (w\<lparr>aw_db := st\<rparr>)
                 | (None, st) \<Rightarrow> saved (wrq_Hostname req) (w\<lparr>aw_db := beat_for_windows run req (k_ID k) st\<rparr>)) w)"

definition upsert_typed :: "string \<Rightarrow> int \<Rightarrow> server_facts \<Rightarrow> time \<Rightarrow> store \<Rightarrow> (sql_error + int) \<times> store" where
  "upsert_typed serverType key f now st =
     (if serverType = ''pve'' then
        (case UpsertPVEServerForAPIKey key f now (pd_servers (st_pve st)) of
           (r, t) \<Rightarrow> (r, st\<lparr>st_pve := (st_pve st)\<lparr>pd_servers := t\<rparr>\<rparr>))
      else if serverType = ''pbs'' then
        (case UpsertPBSServerForAPIKey key f now (bd_servers (st_pbs st)) of
           (r, t) \<Rightarrow> (r, st\<lparr>st_pbs := (st_pbs st)\<lparr>bd_servers := t\<rparr>\<rparr>))
      else
        (case UpsertWindowsServerForAPIKey (st_keys st) key f now (wd_servers (st_windows st)) of
           (r, t) \<Rightarrow> (r, st\<lparr>st_windows := (st_windows st)\<lparr>wd_servers := t\<rparr>\<rparr>)))"

definition beat_facts :: "heartbeat_request \<Rightarrow> server_facts" where
  "beat_facts req = \<lparr>sf_Name = hrq_Hostname req, sf_IP = hrq_IPAddress req, sf_PublicIP = hrq_PublicIP req,
     sf_ClientVersion = hrq_ClientVersion req, sf_MachineID = hrq_MachineID req\<rparr>"

definition beat_of :: "heartbeat_request \<Rightarrow> int \<Rightarrow> time \<Rightarrow> server_heartbeat" where
  "beat_of req serverID now =
     zero_server_heartbeat\<lparr>hb_ServerType := hrq_ServerType req, hb_ServerID := serverID, hb_Hostname := hrq_Hostname req,
       hb_IP := hrq_IPAddress req, hb_PublicIP := hrq_PublicIP req, hb_ClientVersion := hrq_ClientVersion req,
       hb_MachineID := hrq_MachineID req, hb_SwapTotal := hrq_SwapTotal req, hb_SwapUsed := hrq_SwapUsed req,
       hb_SwapEnabled := (hrq_SwapEnabled req = Some True), hb_SwapReported := (hrq_SwapEnabled req \<noteq> None),
       hb_LastSeenAt := now\<rparr>"

text \<open>The public address the client did not send is the one its server already has.\<close>

definition fill_public_ip :: "heartbeat_request \<Rightarrow> int \<Rightarrow> store \<Rightarrow> heartbeat_request" where
  "fill_public_ip req key st =
     (if hrq_PublicIP req \<noteq> [] then req
      else req\<lparr>hrq_PublicIP :=
        (case ServerPublicIPForAPIKey (hrq_ServerType req) key (pd_servers (st_pve st)) (bd_servers (st_pbs st))
                (wd_servers (st_windows st)) of
           Inl _ \<Rightarrow> [] | Inr ip \<Rightarrow> ip)\<rparr>)"

definition save_beat :: "api_run \<Rightarrow> heartbeat_request \<Rightarrow> int \<Rightarrow> api_world \<Rightarrow> api_response \<times> api_world" where
  "save_beat run req0 key w =
     (let st0 = aw_db w;
          req = fill_public_ip req0 key st0
      in case upsert_typed (hrq_ServerType req) key (beat_facts req) (ar_now run) (ar_env run 1 st0) of
           (Inl _, st1) \<Rightarrow> internalErr (w\<lparr>aw_db := st1\<rparr>)
         | (Inr serverID, st1) \<Rightarrow>
             let st2 = ar_env run 2 st1;
                 st3 = st2\<lparr>st_heartbeats := UpsertServerHeartbeat (beat_of req serverID (ar_now run)) (ar_now run) (st_heartbeats st2)\<rparr>
             in writeJSON 200 (BeatBody (hrq_Hostname req) (hrq_ServerType req))
                  (request_alerts (w\<lparr>aw_db := st3\<rparr>)))"

definition handle_Heartbeat :: "api_run \<Rightarrow> api_key \<Rightarrow> heartbeat_request body \<Rightarrow> api_world \<Rightarrow> api_response \<times> api_world" where
  "handle_Heartbeat run k body w =
     (case decodeJSONBody body of
        None \<Rightarrow> errJSON 400 ''invalid JSON'' w
      | Some raw \<Rightarrow>
          let req = raw\<lparr>hrq_Hostname := trim_space (hrq_Hostname raw), hrq_ServerType := to_lower (trim_space (hrq_ServerType raw))\<rparr>
          in case Validate_Heartbeat req of
               Some err \<Rightarrow> errJSON 400 err w
             | None \<Rightarrow>
                 let req = (if hrq_ServerType req = [] then req\<lparr>hrq_ServerType := ''pve''\<rparr> else req)
                 in if hrq_ServerType req \<notin> {''pve'', ''pbs'', ''windows''}
                    then errJSON 400 ''server_type must be pve, pbs or windows'' w
                    else with_key_server run k (hrq_Hostname req) (\<lambda>k. save_beat run req (k_ID k)) w)"

section \<open>Answers about servers\<close>

definition email_finish :: "store \<Rightarrow> string option" where
  "email_finish st =
     (case GetEmailConfig (st_secrets st) (st_email st) of Inl _ \<Rightarrow> None | Inr c \<Rightarrow> Some (ec_AlertPVEExpectedFinishTime c))"

definition BuildPVEServerResponse :: "api_run \<Rightarrow> store \<Rightarrow> pve_server \<Rightarrow> pve_server_response" where
  "BuildPVEServerResponse run st sv =
     (let resp = \<lparr>psr_ID = pves_ID sv, psr_Name = pves_Name sv, psr_IP = pves_IP sv, psr_PublicIP = pves_PublicIP sv,
            psr_ClientVersion = pves_ClientVersion sv, psr_MachineBound = (pves_MachineID sv \<noteq> []), psr_IsStale = False,
            psr_StaleReason = [], psr_LastReport = None, psr_BackupStatus = []\<rparr>;
          configs = ListVMBackupConfigsForServer ''pve'' (pves_ID sv) (st_vm_configs st);
          alertCfg = GetPVEAlertConfig (pves_ID sv) (st_pve_configs st)
      in case GetLatestPVEReport (pves_ID sv) (st_pve st) of
           Inl _ \<Rightarrow>
             if PVEStaleSuppressed configs alertCfg (no_vms_confirmed sv) then resp
             else resp\<lparr>psr_IsStale := True, psr_StaleReason := msg_no_reports\<rparr>
         | Inr rep \<Rightarrow>
             let current = (case GetPVEServer (st_keys st) (pves_ID sv) (pd_servers (st_pve st)) of
                   Inl _ \<Rightarrow> None | Inr s \<Rightarrow> Some s);
                 stale = IsStaleForServerID (ar_tz run) (ar_now run) (pver_ReportedAt rep) (pves_ID sv) (Some configs)
                   (Some alertCfg) current (email_finish st)
             in resp\<lparr>psr_LastReport := Some (pver_ReportedAt rep), psr_BackupStatus := pver_BackupStatus rep,
                  psr_IsStale := fst stale, psr_StaleReason := snd stale\<rparr>)"

definition BuildPBSServerResponse :: "api_run \<Rightarrow> store \<Rightarrow> pbs_server \<Rightarrow> pbs_server_response" where
  "BuildPBSServerResponse run st sv =
     (let resp = \<lparr>bsr_ID = pbss_ID sv, bsr_Name = pbss_Name sv, bsr_IP = pbss_IP sv, bsr_PublicIP = pbss_PublicIP sv,
            bsr_ClientVersion = pbss_ClientVersion sv, bsr_MachineBound = (pbss_MachineID sv \<noteq> []), bsr_IsStale = False,
            bsr_StaleReason = [], bsr_LastReport = None\<rparr>
      in case GetLatestPBSReport (pbss_ID sv) (st_pbs st) of
           Inl _ \<Rightarrow> resp\<lparr>bsr_IsStale := True, bsr_StaleReason := msg_no_reports\<rparr>
         | Inr rep \<Rightarrow>
             let resp = resp\<lparr>bsr_LastReport := Some (pbsr_ReportedAt rep)\<rparr>
             in if IsStale (ar_tz run) (ar_now run) (pbsr_ReportedAt rep)
                then resp\<lparr>bsr_IsStale := True, bsr_StaleReason := msg_today\<rparr>
                else resp\<lparr>bsr_IsStale := pbsr_IsStale rep, bsr_StaleReason := pbsr_StaleReason rep\<rparr>)"

definition handle_ListPVEServers :: "api_run \<Rightarrow> api_key \<Rightarrow> api_world \<Rightarrow> api_response \<times> api_world" where
  "handle_ListPVEServers run k w =
     (let st = aw_db w
      in case ListPVEServers (st_keys st) (pd_servers (st_pve st)) of
           Inl _ \<Rightarrow> internalErr w
         | Inr servers \<Rightarrow> writeJSON 200 (PVEServersBody
             (map (BuildPVEServerResponse run st) (filter (\<lambda>sv. pves_APIKeyID sv = k_ID k) servers))) w)"

definition handle_ListPBSServers :: "api_run \<Rightarrow> api_key \<Rightarrow> api_world \<Rightarrow> api_response \<times> api_world" where
  "handle_ListPBSServers run k w =
     (let st = aw_db w
      in case ListPBSServers (st_keys st) (bd_servers (st_pbs st)) of
           Inl _ \<Rightarrow> internalErr w
         | Inr servers \<Rightarrow> writeJSON 200 (PBSServersBody
             (map (BuildPBSServerResponse run st) (filter (\<lambda>sv. pbss_APIKeyID sv = k_ID k) servers))) w)"

definition report_limit :: "string \<Rightarrow> int" where
  "report_limit l = (case Atoi l of None \<Rightarrow> 30 | Some n \<Rightarrow> if n > 0 \<and> n \<le> 100 then n else 30)"

definition handle_ListPVEReports ::
  "api_run \<Rightarrow> api_key \<Rightarrow> string \<Rightarrow> string \<Rightarrow> api_world \<Rightarrow> api_response \<times> api_world" where
  "handle_ListPVEReports run k idText l w =
     (let st = aw_db w
      in case Atoi idText of
           None \<Rightarrow> errJSON 400 ''invalid server id'' w
         | Some i \<Rightarrow>
             (case GetPVEServer (st_keys st) i (pd_servers (st_pve st)) of
                Inl _ \<Rightarrow> errJSON 404 ''server not found'' w
              | Inr sv \<Rightarrow>
                  if pves_APIKeyID sv \<noteq> k_ID k \<and> (pves_APIKeyID sv \<noteq> 0 \<or> trim_space (k_ServerName k) = [])
                  then errJSON 403 ''API key is not bound to this server'' w
                  else case keyMayReadServer k (pves_Name sv) of
                    Some (code, msg) \<Rightarrow> errJSON code msg w
                  | None \<Rightarrow> writeJSON 200 (PVEReportsBody (BuildPVEServerResponse run st sv)
                      (ListPVEReports i (report_limit l) (st_pve st))) w))"

section \<open>Backup schedules\<close>

definition toVMConfigResponse :: "vm_backup_config \<Rightarrow> vm_config_response" where
  "toVMConfigResponse c =
     \<lparr>vcs_ID = vbc_ID c, vcs_ServerName = vbc_ServerName c, vcs_VMID = vbc_VMID c, vcs_VMName = vbc_VMName c,
      vcs_Monday = vbc_Monday c, vcs_Tuesday = vbc_Tuesday c, vcs_Wednesday = vbc_Wednesday c,
      vcs_Thursday = vbc_Thursday c, vcs_Friday = vbc_Friday c, vcs_Saturday = vbc_Saturday c,
      vcs_Sunday = vbc_Sunday c, vcs_IsExcluded = vbc_IsExcluded c\<rparr>"

definition handle_GetBackupConfig :: "api_key \<Rightarrow> string \<Rightarrow> api_world \<Rightarrow> api_response \<times> api_world" where
  "handle_GetBackupConfig k server0 w =
     (let st = aw_db w; server = trim_space server0
      in case keyMayReadServer k server of
           Some (code, msg) \<Rightarrow> errJSON code msg w
         | None \<Rightarrow>
             let configs = (case FindPVEServerForAPIKey (k_ID k) server (k_MachineID k) (pd_servers (st_pve st)) of
                   None \<Rightarrow> []
                 | Some serverID \<Rightarrow> ListVMBackupConfigsForServerOrName ''pve'' serverID server (pd_servers (st_pve st)) (st_vm_configs st))
             in writeJSON 200 (ConfigsBody server (map toVMConfigResponse configs)) w)"

definition pveServerIDForKey :: "api_run \<Rightarrow> api_key \<Rightarrow> string \<Rightarrow> store \<Rightarrow> (sql_error + int) \<times> store" where
  "pveServerIDForKey run k hostname st =
     (case ResolvePVEServerForAPIKey (k_ID k) hostname (k_MachineID k) (ar_now run) (pd_servers (st_pve st)) of
        (r, t) \<Rightarrow> (r, st\<lparr>st_pve := (st_pve st)\<lparr>pd_servers := t\<rparr>\<rparr>))"

text \<open>What the handlers that write a schedule share: the guard and the server of the key.\<close>

definition with_pve_server ::
  "api_run \<Rightarrow> api_key \<Rightarrow> string \<Rightarrow> (int \<Rightarrow> api_world \<Rightarrow> api_response \<times> api_world) \<Rightarrow> api_world \<Rightarrow> api_response \<times> api_world" where
  "with_pve_server run k server next =
     with_key_server run k server (\<lambda>k w.
       case pveServerIDForKey run k server (aw_db w) of
         (Inl _, st) \<Rightarrow> internalErr (w\<lparr>aw_db := st\<rparr>)
       | (Inr serverID, st) \<Rightarrow> next serverID (w\<lparr>aw_db := ar_env run 1 st\<rparr>))"

definition set_inventory :: "api_run \<Rightarrow> int \<Rightarrow> bool \<Rightarrow> store \<Rightarrow> sql_error + store" where
  "set_inventory run serverID hasVMs st =
     map_sum id (\<lambda>t. st\<lparr>st_pve := (st_pve st)\<lparr>pd_servers := t\<rparr>\<rparr>)
       (SetPVEBackupInventory serverID hasVMs (ar_now run) (pd_servers (st_pve st)))"

text \<open>\<open>_ = h.store.SetPVEBackupInventory(...)\<close>\<close>

definition note_inventory :: "api_run \<Rightarrow> int \<Rightarrow> store \<Rightarrow> store" where
  "note_inventory run serverID st0 =
     (let st = ar_env run 2 st0 in case set_inventory run serverID True st of Inl _ \<Rightarrow> st | Inr st' \<Rightarrow> st')"

abbreviation on_configs :: "(vm_config_table \<Rightarrow> vm_config_table) \<Rightarrow> store \<Rightarrow> store" where
  "on_configs f st \<equiv> st\<lparr>st_vm_configs := f (st_vm_configs st)\<rparr>"

definition handle_UpdateBackupInventory :: "api_run \<Rightarrow> api_key \<Rightarrow> string \<Rightarrow> bool body \<Rightarrow> api_world \<Rightarrow> api_response \<times> api_world" where
  "handle_UpdateBackupInventory run k server0 body =
     with_pve_server run k (trim_space server0) (\<lambda>serverID w.
       case decodeJSONBody body of
         None \<Rightarrow> errJSON 400 ''invalid JSON'' w
       | Some hasVMs \<Rightarrow>
           (case set_inventory run serverID hasVMs (aw_db w) of
              Inl _ \<Rightarrow> internalErr w
            | Inr st \<Rightarrow> writeJSON 200 (StatusBody ''updated'') (w\<lparr>aw_db := st\<rparr>)))"

definition handle_CreateVMConfig ::
  "api_run \<Rightarrow> api_key \<Rightarrow> string \<Rightarrow> vm_config_request body \<Rightarrow> api_world \<Rightarrow> api_response \<times> api_world" where
  "handle_CreateVMConfig run k server0 body =
     (let server = trim_space server0
      in with_pve_server run k server (\<lambda>serverID w.
           case decodeJSONBody body of
             None \<Rightarrow> errJSON 400 ''invalid JSON'' w
           | Some req \<Rightarrow>
               if \<not> validVMID (vcq_VMID req) then errJSON 400 ''vm_id must be a Proxmox VM ID'' w
               else case CreateVMBackupConfigForServer ''pve'' serverID server req (ar_now run) (st_vm_configs (aw_db w)) of
                 (Inl _, _) \<Rightarrow> internalErr w
               | (Inr i, t) \<Rightarrow> writeJSON 201 (CreatedBody i) (on_db (\<lambda>st. note_inventory run serverID (on_configs (\<lambda>_. t) st)) w)))"

definition handle_UpdateVMConfig ::
  "api_run \<Rightarrow> api_key \<Rightarrow> string \<Rightarrow> string \<Rightarrow> vm_config_request body \<Rightarrow> api_world \<Rightarrow> api_response \<times> api_world" where
  "handle_UpdateVMConfig run k server0 vmid body w =
     (if \<not> validVMID vmid then errJSON 400 ''vmid must be a Proxmox VM ID'' w
      else with_pve_server run k (trim_space server0) (\<lambda>serverID w.
        case decodeJSONBody body of
          None \<Rightarrow> errJSON 400 ''invalid JSON'' w
        | Some req \<Rightarrow> writeJSON 200 (StatusBody ''updated'')
            (on_db (\<lambda>st. note_inventory run serverID (on_configs (UpdateVMBackupConfigForServer ''pve'' serverID vmid req) st)) w)) w)"

definition handle_DeleteVMConfig :: "api_run \<Rightarrow> api_key \<Rightarrow> string \<Rightarrow> string \<Rightarrow> api_world \<Rightarrow> api_response \<times> api_world" where
  "handle_DeleteVMConfig run k server0 vmid w =
     (if \<not> validVMID vmid then errJSON 400 ''vmid must be a Proxmox VM ID'' w
      else with_pve_server run k (trim_space server0) (\<lambda>serverID w.
        writeJSON 200 (StatusBody ''deleted'')
          (on_db (on_configs (DeleteVMBackupConfigForServer ''pve'' serverID vmid (ar_now run))) w)) w)"

definition handle_ToggleVMExclude :: "api_run \<Rightarrow> api_key \<Rightarrow> string \<Rightarrow> string \<Rightarrow> api_world \<Rightarrow> api_response \<times> api_world" where
  "handle_ToggleVMExclude run k server0 vmid w =
     (if \<not> validVMID vmid then errJSON 400 ''vmid must be a Proxmox VM ID'' w
      else with_pve_server run k (trim_space server0) (\<lambda>serverID w.
        writeJSON 200 (StatusBody ''toggled'')
          (on_db (on_configs (ToggleVMExcludeForServer ''pve'' serverID vmid)) w)) w)"

section \<open>The router\<close>

definition handle_Health :: "api_run \<Rightarrow> api_world \<Rightarrow> api_response \<times> api_world" where
  "handle_Health run w =
     (if ar_healthy run then writeJSON 200 (StatusBody ''ok'') w else writeJSON 503 (StatusBody ''unavailable'') w)"

primrec serve :: "api_run \<Rightarrow> api_key \<Rightarrow> api_call \<Rightarrow> api_world \<Rightarrow> api_response \<times> api_world" where
  "serve run k Health w = handle_Health run w"
| "serve run k VerifyKey w = writeJSON 200 (StatusBody ''valid'') w"
| "serve run k (Heartbeat b) w = handle_Heartbeat run k b w"
| "serve run k (ReportPVE b) w = handle_ReportPVE run k b w"
| "serve run k (ReportPBS b) w = handle_ReportPBS run k b w"
| "serve run k (ReportWindows b) w = handle_ReportWindows run k b w"
| "serve run k ListPVEServersCall w = handle_ListPVEServers run k w"
| "serve run k (ListPVEReportsCall i l) w = handle_ListPVEReports run k i l w"
| "serve run k ListPBSServersCall w = handle_ListPBSServers run k w"
| "serve run k (GetBackupConfig s) w = handle_GetBackupConfig k s w"
| "serve run k (UpdateBackupInventory s b) w = handle_UpdateBackupInventory run k s b w"
| "serve run k (CreateVMConfig s b) w = handle_CreateVMConfig run k s b w"
| "serve run k (UpdateVMConfig s v b) w = handle_UpdateVMConfig run k s v b w"
| "serve run k (DeleteVMConfig s v) w = handle_DeleteVMConfig run k s v w"
| "serve run k (ToggleVMExcludeCall s v) w = handle_ToggleVMExclude run k s v w"

definition tooMany :: "string \<Rightarrow> string \<Rightarrow> api_world \<Rightarrow> api_response \<times> api_world" where
  "tooMany retry msg w = (\<lparr>rp_status = 429, rp_body = ErrorBody msg, rp_RetryAfter = Some retry\<rparr>, w)"

fun auth_message :: "auth_error \<Rightarrow> string" where
  "auth_message ErrInvalidKey = ''invalid or inactive API key''"
| "auth_message ErrKeyType = ''key type not allowed for this endpoint''"
| "auth_message (ErrMachineID m) = ''machine ID mismatch: '' @ m"

definition requireServerKey ::
  "api_run \<Rightarrow> http_req \<Rightarrow> (api_key \<Rightarrow> api_world \<Rightarrow> api_response \<times> api_world) \<Rightarrow> api_world \<Rightarrow> api_response \<times> api_world" where
  "requireServerKey run r next w =
     (case ValidateServerKey (st_secrets (aw_db w)) (ar_auth run) (ar_nonce run)
             (ExtractBearer (header_get r ''Authorization'')) (header_get r ''X-Machine-ID'') (ar_now run) (st_keys (aw_db w)) of
        (Inl e, t) \<Rightarrow> errJSON 401 (auth_message e) (on_db (\<lambda>st. st\<lparr>st_keys := t\<rparr>) w)
      | (Inr k, t) \<Rightarrow>
          (case AllowKey (show_int (k_ID k)) (ar_now run) (aw_clients w) of
             (ok, l) \<Rightarrow>
               let w1 = on_db (\<lambda>st. st\<lparr>st_keys := t\<rparr>) (w\<lparr>aw_clients := l\<rparr>)
               in if \<not> ok then tooMany ''60'' ''too many requests for this API key'' w1 else next k w1))"

definition JSONMiddleware ::
  "time \<Rightarrow> http_req \<Rightarrow> (api_world \<Rightarrow> api_response \<times> api_world) \<Rightarrow> api_world \<Rightarrow> api_response \<times> api_world" where
  "JSONMiddleware now r next w =
     (case Middleware now r (aw_ips w) of
        (False, l) \<Rightarrow> tooMany (show_int (go_div (lim_window l) second)) ''too many requests'' (w\<lparr>aw_ips := l\<rparr>)
      | (True, l) \<Rightarrow> next (w\<lparr>aw_ips := l\<rparr>))"

definition maxAPIRequestBodyBytes :: int where "maxAPIRequestBodyBytes = 8 * 2 ^ 20"

definition Router :: "string list \<Rightarrow> api_run \<Rightarrow> http_req \<Rightarrow> api_call \<Rightarrow> api_world \<Rightarrow> api_response \<times> api_world" where
  "Router trustedProxies run r0 call w =
     (let r = TrustedProxyRealIP trustedProxies r0
      in if ar_ContentLength run > maxAPIRequestBodyBytes then errJSON 413 ''request body too large'' w
         else JSONMiddleware (ar_now run) r (\<lambda>w.
             if call = Health then handle_Health run w else requireServerKey run r (\<lambda>k. serve run k call) w) w)"

end
