(* ===== verification/Api_Isolation.thy ===== *)
theory Api_Isolation
  imports Client_Api
begin

text \<open>
  What a request of the client interface can touch. A tenant is an API key with the servers
  registered for it; \<open>leaves k\<close> relates two states of the store in which everything of tenant \<open>k\<close> is
  the same: its key, its servers, their reports, heartbeats, schedules and settings. A request that
  presents another key leaves \<open>k\<close> alone, if the requests that run meanwhile do.
\<close>

section \<open>Servers of a key\<close>

definition tenant_rows :: "int \<Rightarrow> 'a server_row_scheme auto_table \<Rightarrow> 'a server_row_scheme set" where
  "tenant_rows k t = {r \<in> set (at_rows t). sr_APIKeyID r = Some k}"

definition owned :: "int \<Rightarrow> 'a server_row_scheme auto_table \<Rightarrow> int \<Rightarrow> bool" where
  "owned k t i \<longleftrightarrow> i \<in> sr_ID ` tenant_rows k t"

text \<open>The row \<open>i\<close> is the one the key claims: all else stays, and \<open>i\<close> was the key's or nobody's.\<close>

definition claims :: "int \<Rightarrow> 'a server_row_scheme auto_table \<Rightarrow> int \<Rightarrow> 'a server_row_scheme auto_table \<Rightarrow> bool" where
  "claims key t i t' \<longleftrightarrow> registry_ok t' \<and> sr_ID ` set (at_rows t) \<subseteq> sr_ID ` set (at_rows t') \<and>
     (\<exists>r\<in>set (at_rows t'). sr_ID r = i \<and> sr_APIKeyID r = Some key) \<and>
     (\<forall>r. sr_ID r \<noteq> i \<longrightarrow> (r \<in> set (at_rows t') \<longleftrightarrow> r \<in> set (at_rows t))) \<and>
     (\<forall>r\<in>set (at_rows t). sr_ID r = i \<longrightarrow> sr_APIKeyID r = None \<or> sr_APIKeyID r = Some key)"

locale key_registry =
  fixes claim :: "int \<Rightarrow> 'a server_row_scheme auto_table \<Rightarrow> (sql_error + int) \<times> 'a server_row_scheme auto_table"
  assumes claim_claims: "registry_ok t \<Longrightarrow> 0 < key \<Longrightarrow> claim key t = (Inr i, t') \<Longrightarrow> claims key t i t'"
    and claim_fails: "0 < key \<Longrightarrow> claim key t = (Inl e, t') \<Longrightarrow> t' = t"
begin

lemma claimed_row:
  assumes "registry_ok t" "0 < key" "claim key t = (Inr i, t')" "r \<in> set (at_rows t')" "sr_ID r = i"
  shows "sr_APIKeyID r = Some key"
proof -
  obtain s where "s \<in> set (at_rows t')" "sr_ID s = i" "sr_APIKeyID s = Some key" "at_ok sr_ID t'"
    using claim_claims [OF assms(1-3)] by (auto simp: claims_def registry_ok_def)
  then show ?thesis using at_ok_id_inj [of sr_ID t' r s] assms(4,5) by simp
qed

text \<open>Servers of other keys are neither changed nor taken.\<close>

lemma others_kept:
  assumes "registry_ok t" "0 < key" "claim key t = (x, t')" "k \<noteq> key"
  shows "registry_ok t' \<and> sr_ID ` set (at_rows t) \<subseteq> sr_ID ` set (at_rows t') \<and> tenant_rows k t' = tenant_rows k t"
proof (cases x)
  case (Inl e)
  then have "t' = t" using claim_fails [OF assms(2)] assms(3) by simp
  then show ?thesis using assms(1) by simp
next
  case (Inr i)
  have c: "claims key t i t'" using claim_claims assms Inr by simp
  have mine: "sr_ID r \<noteq> i" if "r \<in> set (at_rows t')" "sr_APIKeyID r = Some k" for r
    using claimed_row [OF assms(1,2)] assms(3,4) Inr that by (metis option.inject)
  have "sr_ID r \<noteq> i" if "r \<in> set (at_rows t)" "sr_APIKeyID r = Some k" for r
    using c that assms(4) unfolding claims_def by fastforce
  then have "r \<in> set (at_rows t') \<and> sr_APIKeyID r = Some k \<longleftrightarrow> r \<in> set (at_rows t) \<and> sr_APIKeyID r = Some k" for r
    using c mine unfolding claims_def by blast
  then show ?thesis using c unfolding claims_def tenant_rows_def by blast
qed

lemma claimed_not_owned:
  "registry_ok t \<Longrightarrow> 0 < key \<Longrightarrow> claim key t = (Inr i, t') \<Longrightarrow> k \<noteq> key \<Longrightarrow> \<not> owned k t' i"
  using claimed_row unfolding owned_def tenant_rows_def by fastforce

end

lemma claims_changed:
  assumes "registry_ok t" "r \<in> set (at_rows t)" "sr_APIKeyID r = None \<or> sr_APIKeyID r = Some key"
    and "\<And>s. sr_ID (g s) = sr_ID s" "sr_APIKeyID (g r) = Some key"
    and "\<And>s. s \<in> set (at_rows t) \<Longrightarrow> sr_APIKeyID s = Some key \<Longrightarrow> sr_ID s = sr_ID r"
  shows "claims key t (sr_ID r) (at_update (\<lambda>s. sr_ID s = sr_ID r) g t)"
proof -
  have ids: "at_ok sr_ID t" using assms(1) by (simp add: registry_ok_def)
  have "registry_ok (at_update (\<lambda>s. sr_ID s = sr_ID r) g t)"
    by (rule registry_update [OF assms(1,2,4)]) (use assms(5,6) in fastforce)
  then show ?thesis unfolding claims_def update_one [OF ids assms(2,4)]
    using assms(2,3,4,5) at_ok_id_inj [OF ids _ assms(2)] by (auto simp: image_iff)
qed

lemma claims_inserted:
  assumes "registry_ok t" "sr_ID (mk (at_seq t + 1)) = at_seq t + 1" "sr_APIKeyID (mk (at_seq t + 1)) = Some key"
    and "\<And>s. s \<in> set (at_rows t) \<Longrightarrow> sr_APIKeyID s \<noteq> Some key"
  shows "claims key t (at_seq t + 1) (snd (at_insert mk t))"
proof -
  have ids: "at_ok sr_ID t" using assms(1) by (simp add: registry_ok_def)
  have "registry_ok (snd (at_insert mk t))"
    using assms by (intro registry_insert) simp_all
  then show ?thesis unfolding claims_def
    using assms(2,3) at_ok_fresh [OF ids] by (fastforce simp: at_rows_simps)
qed

lemma live_owner:
  assumes "registry_ok t" "live_of_key key t = Some r" "s \<in> set (at_rows t)" "sr_APIKeyID s = Some key"
  shows "sr_ID s = sr_ID r"
proof -
  have "r \<in> set (at_rows t)" "sr_APIKeyID r = Some key"
    using at_first_Some [OF assms(2) [unfolded live_of_key_def]] by auto
  then show ?thesis using keys_onceD [of "set (at_rows t)" s r key] assms by (auto simp: registry_ok_def)
qed

lemma no_conflict_none:
  assumes "registry_ok t" "key_conflict valid key 0 t = None" "s \<in> set (at_rows t)"
  shows "sr_APIKeyID s \<noteq> Some key"
  using assms at_ok_bounds [of sr_ID t s] by (auto simp: key_conflict_None registry_ok_def)

lemma legacy_row:
  "at_first (legacy_server n m) t = Some r \<Longrightarrow> r \<in> set (at_rows t) \<and> sr_APIKeyID r = None"
  by (auto dest: at_first_Some simp: legacy_server_def)

lemma key_registry_upsert: "key_registry (\<lambda>key. upsert_server_for_key valid extra key f now)"
proof
  fix t t' :: "'a server_row_scheme auto_table" and key i
  assume ok: "registry_ok t" and key: "0 < key" and up: "upsert_server_for_key valid extra key f now t = (Inr i, t')"
  show "claims key t i t'" using key up
  proof (cases rule: upsert_for_key_cases)
    case (known r)
    then have r: "r \<in> set (at_rows t)" "sr_APIKeyID r = Some key"
      using at_first_Some [OF known(1) [unfolded live_of_key_def]] by auto
    show ?thesis unfolding known(2,3)
      by (rule claims_changed [OF ok r(1)]) (use r(2) live_owner [OF ok known(1)] in simp_all)
  next
    case (legacy r)
    note r = legacy_row [OF legacy(2)]
    have "sr_ID s = sr_ID r" if "s \<in> set (at_rows t)" "sr_APIKeyID s = Some key" for s
      using legacy(4) that by (simp add: key_conflict_None)
    then show ?thesis unfolding legacy(3,5) using r by (intro claims_changed [OF ok]) simp_all
  next
    case new
    show ?thesis unfolding new(3,4)
      by (rule claims_inserted [OF ok]) (use no_conflict_none [OF ok new(2)] in simp_all)
  qed
next
  fix t t' :: "'a server_row_scheme auto_table" and key e
  assume "0 < key" "upsert_server_for_key valid extra key f now t = (Inl e, t')"
  then show "t' = t"
    by (auto simp: upsert_server_for_key_def insert_keyed_server_def at_insert_def split: option.splits)
qed

interpretation pve_claim: key_registry "\<lambda>key. UpsertPVEServerForAPIKey key f now" for f now
  unfolding UpsertPVEServerForAPIKey_def by (rule key_registry_upsert)

interpretation pbs_claim: key_registry "\<lambda>key. UpsertPBSServerForAPIKey key f now" for f now
  unfolding UpsertPBSServerForAPIKey_def by (rule key_registry_upsert)

interpretation windows_claim: key_registry "\<lambda>key. UpsertWindowsServerForAPIKey keys key f now" for keys f now
  unfolding UpsertWindowsServerForAPIKey_def by (rule key_registry_upsert)

text \<open>Resolving the server of a key for its schedules claims in the same way.\<close>

interpretation resolve_claim: key_registry "\<lambda>key. ResolvePVEServerForAPIKey key name machineID now" for name machineID now
proof
  fix t t' :: pve_server_table and key i
  assume ok: "registry_ok t" and key: "0 < key" and up: "ResolvePVEServerForAPIKey key name machineID now t = (Inr i, t')"
  show "claims key t i t'"
  proof (cases "live_of_key key t")
    case (Some r)
    then have r: "r \<in> set (at_rows t)" "sr_APIKeyID r = Some key"
      using at_first_Some [OF Some [unfolded live_of_key_def]] by auto
    then have "i = sr_ID r" "t' = t" using up key Some by (auto simp: ResolvePVEServerForAPIKey_def live_of_key_def)
    then show ?thesis using ok r at_ok_id_inj [of sr_ID t _ r] by (auto simp: claims_def registry_ok_def)
  next
    case None
    show ?thesis
    proof (cases "at_first (legacy_server name machineID) t")
      case (Some r)
      then have c: "key_conflict (\<lambda>_. True) key (sr_ID r) t = None" "i = sr_ID r"
        "t' = at_update (\<lambda>s. sr_ID s = sr_ID r) (\<lambda>s. s\<lparr>sr_APIKeyID := Some key, sr_UpdatedAt := sql_now now\<rparr>) t"
        using up key None by (auto simp: ResolvePVEServerForAPIKey_def live_of_key_def split: option.splits)
      have "sr_ID s = sr_ID r" if "s \<in> set (at_rows t)" "sr_APIKeyID s = Some key" for s
        using c(1) that by (simp add: key_conflict_None)
      then show ?thesis unfolding c(2,3) using legacy_row [OF Some] by (intro claims_changed [OF ok]) simp_all
    next
      case none: None
      then have c: "key_conflict (\<lambda>_. True) key 0 t = None" "i = at_seq t + 1"
        "t' = snd (at_insert (bare_server name machineID key now) t)"
        using up key None
        by (auto simp: ResolvePVEServerForAPIKey_def live_of_key_def insert_keyed_server_def at_insert_def split: option.splits)
      show ?thesis unfolding c(2,3)
        by (rule claims_inserted [OF ok]) (use no_conflict_none [OF ok c(1)] in \<open>simp_all add: bare_server_def\<close>)
    qed
  qed
next
  fix t t' :: pve_server_table and key e
  assume "0 < key" "ResolvePVEServerForAPIKey key name machineID now t = (Inl e, t')"
  then show "t' = t"
    by (auto simp: ResolvePVEServerForAPIKey_def insert_keyed_server_def at_insert_def split: option.splits)
qed

section \<open>What of a store belongs to a key\<close>

definition owns :: "int \<Rightarrow> store \<Rightarrow> string \<Rightarrow> int \<Rightarrow> bool" where
  "owns k st ty i \<longleftrightarrow> ty = ''pve'' \<and> owned k (pd_servers (st_pve st)) i \<or>
     ty = ''pbs'' \<and> owned k (bd_servers (st_pbs st)) i \<or> ty = ''windows'' \<and> owned k (wd_servers (st_windows st)) i"

definition same_key :: "int \<Rightarrow> key_table \<Rightarrow> key_table \<Rightarrow> bool" where
  "same_key k t t' \<longleftrightarrow> at_select (\<lambda>r. akr_ID r = k) t' = at_select (\<lambda>r. akr_ID r = k) t"

definition same_servers :: "int \<Rightarrow> store \<Rightarrow> store \<Rightarrow> bool" where
  "same_servers k st st' \<longleftrightarrow> tenant_rows k (pd_servers (st_pve st')) = tenant_rows k (pd_servers (st_pve st)) \<and>
     tenant_rows k (bd_servers (st_pbs st')) = tenant_rows k (bd_servers (st_pbs st)) \<and>
     tenant_rows k (wd_servers (st_windows st')) = tenant_rows k (wd_servers (st_windows st))"

definition log_of :: "(int \<Rightarrow> bool) \<Rightarrow> 'c log_entry list \<Rightarrow> 'c log_entry list" where
  "log_of P es = filter (\<lambda>e. P (le_server e)) es"

definition same_reports :: "int \<Rightarrow> store \<Rightarrow> store \<Rightarrow> bool" where
  "same_reports k st st' \<longleftrightarrow> log_of (owns k st ''pve'') (pve_log (st_pve st')) = log_of (owns k st ''pve'') (pve_log (st_pve st)) \<and>
     log_of (owns k st ''pbs'') (pbs_log (st_pbs st')) = log_of (owns k st ''pbs'') (pbs_log (st_pbs st)) \<and>
     log_of (owns k st ''windows'') (windows_log (st_windows st')) = log_of (owns k st ''windows'') (windows_log (st_windows st))"

definition same_settings :: "int \<Rightarrow> store \<Rightarrow> store \<Rightarrow> bool" where
  "same_settings k st st' \<longleftrightarrow>
     at_select (\<lambda>h. owns k st (hbr_ServerType h) (hbr_ServerID h)) (st_heartbeats st') =
       at_select (\<lambda>h. owns k st (hbr_ServerType h) (hbr_ServerID h)) (st_heartbeats st) \<and>
     at_select (\<lambda>c. owns k st (vcr_ServerType c) (vcr_ServerID c)) (st_vm_configs st') =
       at_select (\<lambda>c. owns k st (vcr_ServerType c) (vcr_ServerID c)) (st_vm_configs st) \<and>
     filter (\<lambda>((ty, i), _). owns k st ty i) (st_maintenance st') = filter (\<lambda>((ty, i), _). owns k st ty i) (st_maintenance st) \<and>
     filter (\<lambda>(i, _). owns k st ''pve'' i) (st_pve_configs st') = filter (\<lambda>(i, _). owns k st ''pve'' i) (st_pve_configs st) \<and>
     filter (\<lambda>(i, _). owns k st ''pbs'' i) (st_pbs_configs st') = filter (\<lambda>(i, _). owns k st ''pbs'' i) (st_pbs_configs st) \<and>
     filter (\<lambda>(i, _). owns k st ''windows'' i) (st_windows_configs st') =
       filter (\<lambda>(i, _). owns k st ''windows'' i) (st_windows_configs st)"

definition leaves :: "int \<Rightarrow> store \<Rightarrow> store \<Rightarrow> bool" where
  "leaves k st st' \<longleftrightarrow> same_key k (st_keys st) (st_keys st') \<and> same_servers k st st' \<and> same_reports k st st' \<and> same_settings k st st'"

lemmas leaves_parts = same_key_def same_servers_def same_reports_def same_settings_def

lemma owns_cong: "same_servers k st st' \<Longrightarrow> owns k st' = owns k st"
  by (intro ext) (simp add: same_servers_def owns_def owned_def)

lemma same_key_refl [simp]: "same_key k t t"
  by (simp add: same_key_def)

lemma same_key_trans [trans]: "same_key k t t' \<Longrightarrow> same_key k t' t'' \<Longrightarrow> same_key k t t''"
  by (simp add: same_key_def)

lemma same_key_update: "(\<And>r. P r \<Longrightarrow> akr_ID r \<noteq> k) \<Longrightarrow> (\<And>r. akr_ID (f r) = akr_ID r) \<Longrightarrow> same_key k t (at_update P f t)"
proof -
  assume a: "\<And>r. P r \<Longrightarrow> akr_ID r \<noteq> k" "\<And>r. akr_ID (f r) = akr_ID r"
  have "filter (\<lambda>r. akr_ID r = k) (map (\<lambda>r. if P r then f r else r) rs) = filter (\<lambda>r. akr_ID r = k) rs" for rs
    using a by (induction rs) auto
  then show ?thesis by (simp add: same_key_def at_select_def at_rows_simps)
qed

lemma leaves_refl [simp]: "leaves k st st"
  by (simp add: leaves_def leaves_parts)

lemma leaves_trans [trans]:
  assumes "leaves k st st'" "leaves k st' st''"
  shows "leaves k st st''"
proof -
  have o: "owns k st' = owns k st" using assms(1) owns_cong unfolding leaves_def by blast
  show ?thesis using assms unfolding leaves_def leaves_parts o by simp
qed

lemma leaves_owns: "leaves k st st' \<Longrightarrow> owns k st' = owns k st"
  unfolding leaves_def using owns_cong by blast

text \<open>The tables a statement does not touch.\<close>

lemma logs_of_servers [simp]:
  "pve_log (db\<lparr>pd_servers := t\<rparr>) = pve_log db" "pbs_log (bdb\<lparr>bd_servers := t'\<rparr>) = pbs_log bdb"
  "windows_log (wdb\<lparr>wd_servers := t'\<rparr>) = windows_log wdb"
  by (simp_all add: pve_log_def pve_views_def report_view_def storages_view_def tasks_view_def
      pbs_log_def pbs_entry_def pbs_stores_view_def pbs_tasks_view_def pbs_store_view_def
      GetPBSStoresForReport_def GetPBSHistory_def GetPBSGCStatus_def windows_log_def windows_entry_def)

lemma leaves_keys: "same_key k (st_keys st) t \<Longrightarrow> leaves k st (st\<lparr>st_keys := t\<rparr>)"
  by (simp add: leaves_def leaves_parts)

lemma leaves_servers:
  "tenant_rows k t = tenant_rows k (pd_servers (st_pve st)) \<Longrightarrow> leaves k st (st\<lparr>st_pve := (st_pve st)\<lparr>pd_servers := t\<rparr>\<rparr>)"
  "tenant_rows k u = tenant_rows k (bd_servers (st_pbs st)) \<Longrightarrow> leaves k st (st\<lparr>st_pbs := (st_pbs st)\<lparr>bd_servers := u\<rparr>\<rparr>)"
  "tenant_rows k u = tenant_rows k (wd_servers (st_windows st)) \<Longrightarrow> leaves k st (st\<lparr>st_windows := (st_windows st)\<lparr>wd_servers := u\<rparr>\<rparr>)"
  by (simp_all add: leaves_def leaves_parts)

lemma log_of_post: "\<not> P s \<Longrightarrow> log_of P (log_post tok content s q now es) = log_of P es"
  by (simp add: log_of_def log_post_def)

lemma leaves_logs:
  "pd_servers db = pd_servers (st_pve st) \<Longrightarrow> pve_log db = log_post a b s q now (pve_log (st_pve st)) \<Longrightarrow>
   \<not> owns k st ''pve'' s \<Longrightarrow> leaves k st (st\<lparr>st_pve := db\<rparr>)"
  "bd_servers bdb = bd_servers (st_pbs st) \<Longrightarrow> pbs_log bdb = log_post a' b' s q' now (pbs_log (st_pbs st)) \<Longrightarrow>
   \<not> owns k st ''pbs'' s \<Longrightarrow> leaves k st (st\<lparr>st_pbs := bdb\<rparr>)"
  "wd_servers wdb = wd_servers (st_windows st) \<Longrightarrow> windows_log wdb = log_post a'' b'' s q'' now (windows_log (st_windows st)) \<Longrightarrow>
   \<not> owns k st ''windows'' s \<Longrightarrow> leaves k st (st\<lparr>st_windows := wdb\<rparr>)"
  by (simp_all add: leaves_def leaves_parts log_of_post)

lemma select_updated:
  "(\<And>r. P r \<Longrightarrow> \<not> Q r) \<Longrightarrow> (\<And>r. P r \<Longrightarrow> \<not> Q (f r)) \<Longrightarrow> at_select Q (at_update P f t) = at_select Q t"
proof -
  assume a: "\<And>r. P r \<Longrightarrow> \<not> Q r" "\<And>r. P r \<Longrightarrow> \<not> Q (f r)"
  have "filter Q (map (\<lambda>r. if P r then f r else r) rs) = filter Q rs" for rs using a by (induction rs) auto
  then show ?thesis by (simp add: at_select_def at_rows_simps)
qed

lemma select_inserted: "\<not> Q (mk (at_seq t + 1)) \<Longrightarrow> at_select Q (snd (at_insert mk t)) = at_select Q t"
  by (simp add: at_select_def at_rows_simps)

lemma leaves_heartbeat:
  assumes "\<not> owns k st (hb_ServerType hb) (hb_ServerID hb)"
  shows "leaves k st (st\<lparr>st_heartbeats := UpsertServerHeartbeat hb now (st_heartbeats st)\<rparr>)"
proof -
  have "at_select (\<lambda>h. owns k st (hbr_ServerType h) (hbr_ServerID h)) (UpsertServerHeartbeat hb now (st_heartbeats st)) =
      at_select (\<lambda>h. owns k st (hbr_ServerType h) (hbr_ServerID h)) (st_heartbeats st)"
    unfolding UpsertServerHeartbeat_def Let_def using assms
    by (auto simp: heartbeat_of_def intro!: select_updated select_inserted)
  then show ?thesis by (simp add: leaves_def leaves_parts)
qed

lemma leaves_configs:
  assumes "at_select (\<lambda>c. owns k st (vcr_ServerType c) (vcr_ServerID c)) t =
    at_select (\<lambda>c. owns k st (vcr_ServerType c) (vcr_ServerID c)) (st_vm_configs st)"
  shows "leaves k st (st\<lparr>st_vm_configs := t\<rparr>)"
  using assms by (simp add: leaves_def leaves_parts)

lemma leaves_config_update:
  assumes "\<not> owns k st ''pve'' i" "\<And>c. vcr_ServerType (f c) = vcr_ServerType c" "\<And>c. vcr_ServerID (f c) = vcr_ServerID c"
  shows "leaves k st (st\<lparr>st_vm_configs := at_update (\<lambda>c. config_of_server ''pve'' i c \<and> vbc_VMID c = v) f (st_vm_configs st)\<rparr>)"
  using assms by (intro leaves_configs select_updated) (auto simp: config_of_server_def)

section \<open>The invariant\<close>

definition api_ok :: "store \<Rightarrow> bool" where
  "api_ok st \<longleftrightarrow> store_ok st \<and> registry_ok (pd_servers (st_pve st)) \<and> registry_ok (bd_servers (st_pbs st)) \<and>
     registry_ok (wd_servers (st_windows st)) \<and> at_ok akr_ID (st_keys st)"

lemma refs_more: "refs_in fk idf c p \<Longrightarrow> idf ` set (at_rows p) \<subseteq> idf ` set (at_rows p') \<Longrightarrow> refs_in fk idf c p'"
  unfolding refs_in_def by (rule subset_trans)

lemma ok_servers:
  "pve_ok db \<Longrightarrow> at_ok sr_ID t \<Longrightarrow> sr_ID ` set (at_rows (pd_servers db)) \<subseteq> sr_ID ` set (at_rows t) \<Longrightarrow>
   pve_ok (db\<lparr>pd_servers := t\<rparr>)"
  "pbs_ok bdb \<Longrightarrow> at_ok sr_ID u \<Longrightarrow> sr_ID ` set (at_rows (bd_servers bdb)) \<subseteq> sr_ID ` set (at_rows u) \<Longrightarrow>
   pbs_ok (bdb\<lparr>bd_servers := u\<rparr>)"
  "windows_ok wdb \<Longrightarrow> at_ok sr_ID u \<Longrightarrow> sr_ID ` set (at_rows (wd_servers wdb)) \<subseteq> sr_ID ` set (at_rows u) \<Longrightarrow>
   windows_ok (wdb\<lparr>wd_servers := u\<rparr>)"
  by (auto simp: pve_ok_def pve_ids_ok_def pve_refs_ok_def pve_tokens_ok_def pbs_ok_def pbs_ids_ok_def pbs_refs_ok_def
      windows_ok_def simp del: image_subset_iff intro: refs_more)

lemma posted_pve:
  assumes "pve_ok db" "InsertPVEReportData s q now db = Inr db'"
  shows "pve_ok db' \<and> pd_servers db' = pd_servers db \<and> pve_known db s \<and>
    pve_log db' = log_post prq_ReportID pve_request_content s q now (pve_log db)"
proof -
  have known: "pve_known db s" using pve_reports.store_succeeds_iff [OF assms(1)] assms(2) by blast
  then show ?thesis
    using pve_reports.store_run [OF assms(1) known assms(2)] insert_report_views [OF assms(1), of s q now] assms(2)
    by (auto simp: pve_known_def)
qed

lemma posted_pbs:
  assumes "pbs_ok db" "InsertPBSReportData s tok swap info now db = Inr db'"
  shows "pbs_ok db' \<and> bd_servers db' = bd_servers db \<and> pbs_known db s \<and>
    pbs_log db' = log_post fst snd s (tok, swap, info) now (pbs_log db)"
proof -
  have p: "post_pbs s (tok, swap, info) now db = Inr db'" using assms(2) by (simp add: post_pbs_def)
  then have known: "pbs_known db s" using pbs_reports.store_succeeds_iff [OF assms(1)] by blast
  moreover have "bd_servers db' = bd_servers db"
  proof (cases "tok \<noteq> [] \<and> at_has (\<lambda>r. pbsr_ServerID r = s \<and> pbsr_token r = tok) (bd_reports db)")
    case True
    then show ?thesis using assms(2) by (simp add: InsertPBSReportData_def)
  next
    case False
    then show ?thesis
      using insert_new_pbs_report [OF assms(1) known [unfolded pbs_known_def] False, of swap info now] assms(2) by auto
  qed
  ultimately show ?thesis using pbs_reports.store_run [OF assms(1) known p] by blast
qed

lemma posted_windows:
  assumes "windows_ok db" "InsertWindowsReportData s q now db = Inr db'"
  shows "windows_ok db' \<and> wd_servers db' = wd_servers db \<and> windows_known db s \<and>
    windows_log db' = log_post wrq_ReportID wrq_Disks s q now (windows_log db)"
proof -
  have known: "windows_known db s" using windows_reports.store_succeeds_iff [OF assms(1)] assms(2) by blast
  moreover have "wd_servers db' = wd_servers db"
  proof (cases "has_token s (wrq_ReportID q) (windows_log db)")
    case True
    then show ?thesis using assms(2) by (simp add: InsertWindowsReportData_def flip: windows_has_token)
  next
    case False
    then show ?thesis using insert_new_windows_report [OF assms(1) known False, of now] assms(2) by auto
  qed
  ultimately show ?thesis using windows_reports.store_run [OF assms(1) known assms(2)] by blast
qed

section \<open>Steps that leave a tenant alone\<close>

text \<open>The store stays well formed and the tenant finds all that is its own as it was.\<close>

definition safe :: "int \<Rightarrow> store \<Rightarrow> store \<Rightarrow> bool" where
  "safe k st st' \<longleftrightarrow> leaves k st st' \<and> api_ok st'"

lemma safe_refl: "api_ok st \<Longrightarrow> safe k st st"
  by (simp add: safe_def)

lemma safe_trans [trans]: "safe k st st' \<Longrightarrow> safe k st' st'' \<Longrightarrow> safe k st st''"
  unfolding safe_def using leaves_trans by blast

text \<open>The requests that run meanwhile.\<close>

definition keys_respect :: "int \<Rightarrow> (nat \<Rightarrow> key_table \<Rightarrow> key_table) \<Rightarrow> bool" where
  "keys_respect k env \<longleftrightarrow> (\<forall>n t. at_ok akr_ID t \<longrightarrow> at_ok akr_ID (env n t) \<and> same_key k t (env n t))"

definition others_respect :: "int \<Rightarrow> api_run \<Rightarrow> bool" where
  "others_respect k run \<longleftrightarrow> keys_respect k (ar_auth run) \<and> keys_respect k (ar_bind run) \<and>
     (\<forall>n st. api_ok st \<longrightarrow> safe k st (ar_env run n st))"

lemma env_safe: "others_respect k run \<Longrightarrow> api_ok st \<Longrightarrow> safe k st (ar_env run n st)"
  by (simp add: others_respect_def)

lemma keys_safe: "api_ok st \<Longrightarrow> at_ok akr_ID t \<Longrightarrow> same_key k (st_keys st) t \<Longrightarrow> safe k st (st\<lparr>st_keys := t\<rparr>)"
  by (simp add: safe_def leaves_keys api_ok_def store_ok_def)

lemma pve_claim_safe:
  assumes "api_ok st" "registry_ok t" "sr_ID ` set (at_rows (pd_servers (st_pve st))) \<subseteq> sr_ID ` set (at_rows t)"
    "tenant_rows k t = tenant_rows k (pd_servers (st_pve st))"
  shows "safe k st (st\<lparr>st_pve := (st_pve st)\<lparr>pd_servers := t\<rparr>\<rparr>)"
  using assms ok_servers(1) [of "st_pve st" t] leaves_servers(1) [OF assms(4)]
  by (simp add: safe_def api_ok_def store_ok_def registry_ok_def)

lemma upsert_typed_safe:
  assumes "api_ok st" "0 < key" "k \<noteq> key" "upsert_typed ty key f now st = (x, st')"
    and ty: "ty = ''pve'' \<or> ty = ''pbs'' \<or> ty = ''windows''"
  shows "safe k st st' \<and> (\<forall>i. x = Inr i \<longrightarrow> \<not> owns k st' ty i)"
proof -
  have ok: "pve_ok (st_pve st)" "pbs_ok (st_pbs st)" "windows_ok (st_windows st)" "registry_ok (pd_servers (st_pve st))"
    "registry_ok (bd_servers (st_pbs st))" "registry_ok (wd_servers (st_windows st))" "at_ok akr_ID (st_keys st)"
    using assms(1) by (simp_all add: api_ok_def store_ok_def)
  consider "ty = ''pve''" | "ty = ''pbs''" | "ty = ''windows''" using ty by blast
  then show ?thesis
  proof cases
    case 1
    obtain t where t: "UpsertPVEServerForAPIKey key f now (pd_servers (st_pve st)) = (x, t)"
      "st' = st\<lparr>st_pve := (st_pve st)\<lparr>pd_servers := t\<rparr>\<rparr>"
      using assms(4) 1 by (auto simp: upsert_typed_def split: prod.splits)
    have "\<not> owned k t i" if "x = Inr i" for i using pve_claim.claimed_not_owned [OF ok(4) assms(2)] t(1) that assms(3) by blast
    then show ?thesis
      using pve_claim.others_kept [OF ok(4) assms(2) t(1) assms(3)] pve_claim_safe [OF assms(1), of t k] 1
      by (simp add: t(2) owns_def)
  next
    case 2
    obtain t where t: "UpsertPBSServerForAPIKey key f now (bd_servers (st_pbs st)) = (x, t)"
      "st' = st\<lparr>st_pbs := (st_pbs st)\<lparr>bd_servers := t\<rparr>\<rparr>"
      using assms(4) 2 by (auto simp: upsert_typed_def split: prod.splits)
    have "\<not> owned k t i" if "x = Inr i" for i using pbs_claim.claimed_not_owned [OF ok(5) assms(2)] t(1) that assms(3) by blast
    moreover note kept = pbs_claim.others_kept [OF ok(5) assms(2) t(1) assms(3)]
    moreover have "pbs_ok ((st_pbs st)\<lparr>bd_servers := t\<rparr>)" using kept ok(2) by (simp add: ok_servers registry_ok_def)
    ultimately show ?thesis using ok 2 leaves_servers(2) [of k t st]
      by (simp add: t(2) owns_def safe_def api_ok_def store_ok_def)
  next
    case 3
    obtain t where t: "UpsertWindowsServerForAPIKey (st_keys st) key f now (wd_servers (st_windows st)) = (x, t)"
      "st' = st\<lparr>st_windows := (st_windows st)\<lparr>wd_servers := t\<rparr>\<rparr>"
      using assms(4) 3 by (auto simp: upsert_typed_def split: prod.splits)
    have "\<not> owned k t i" if "x = Inr i" for i using windows_claim.claimed_not_owned [OF ok(6) assms(2)] t(1) that assms(3) by blast
    moreover note kept = windows_claim.others_kept [OF ok(6) assms(2) t(1) assms(3)]
    moreover have "windows_ok ((st_windows st)\<lparr>wd_servers := t\<rparr>)" using kept ok(3) by (simp add: ok_servers registry_ok_def)
    ultimately show ?thesis using ok 3 leaves_servers(3) [of k t st]
      by (simp add: t(2) owns_def safe_def api_ok_def store_ok_def)
  qed
qed

lemma upserts_typed:
  "0 < key \<Longrightarrow> upsert_pve key f now st = upsert_typed ''pve'' key f now st"
  "0 < key \<Longrightarrow> upsert_pbs key f now st = upsert_typed ''pbs'' key f now st"
  "0 < key \<Longrightarrow> upsert_windows key f now st = upsert_typed ''windows'' key f now st"
  by (simp_all add: upsert_pve_def upsert_pbs_def upsert_windows_def upsert_typed_def)

lemma safe_owns: "safe k st st' \<Longrightarrow> owns k st' = owns k st"
  unfolding safe_def using leaves_owns by blast

lemma post_safe:
  assumes "api_ok st"
  shows "\<not> owns k st ''pve'' s \<Longrightarrow> InsertPVEReportData s q now (st_pve st) = Inr db \<Longrightarrow> safe k st (st\<lparr>st_pve := db\<rparr>)"
    "\<not> owns k st ''pbs'' s \<Longrightarrow> InsertPBSReportData s tok swap info now (st_pbs st) = Inr bdb \<Longrightarrow> safe k st (st\<lparr>st_pbs := bdb\<rparr>)"
    "\<not> owns k st ''windows'' s \<Longrightarrow> InsertWindowsReportData s q' now (st_windows st) = Inr wdb \<Longrightarrow>
      safe k st (st\<lparr>st_windows := wdb\<rparr>)"
proof -
  have ok: "pve_ok (st_pve st)" "pbs_ok (st_pbs st)" "windows_ok (st_windows st)"
    using assms by (simp_all add: api_ok_def store_ok_def)
  show "safe k st (st\<lparr>st_pve := db\<rparr>)"
    if "\<not> owns k st ''pve'' s" "InsertPVEReportData s q now (st_pve st) = Inr db"
    using posted_pve [OF ok(1) that(2)] leaves_logs(1) [OF _ _ that(1)] assms by (auto simp: safe_def api_ok_def store_ok_def)
  show "safe k st (st\<lparr>st_pbs := bdb\<rparr>)"
    if "\<not> owns k st ''pbs'' s" "InsertPBSReportData s tok swap info now (st_pbs st) = Inr bdb"
    using posted_pbs [OF ok(2) that(2)] leaves_logs(2) [OF _ _ that(1)] assms by (auto simp: safe_def api_ok_def store_ok_def)
  show "safe k st (st\<lparr>st_windows := wdb\<rparr>)"
    if "\<not> owns k st ''windows'' s" "InsertWindowsReportData s q' now (st_windows st) = Inr wdb"
    using posted_windows [OF ok(3) that(2)] leaves_logs(3) [OF _ _ that(1)] assms by (auto simp: safe_def api_ok_def store_ok_def)
qed

lemma heartbeat_safe:
  "api_ok st \<Longrightarrow> \<not> owns k st (hb_ServerType hb) (hb_ServerID hb) \<Longrightarrow>
   safe k st (st\<lparr>st_heartbeats := UpsertServerHeartbeat hb now (st_heartbeats st)\<rparr>)"
  using leaves_heartbeat [of k st hb now] by (simp add: safe_def api_ok_def store_ok_def)

section \<open>The handlers\<close>

text \<open>The server is registered, other requests run, and the server is still not the tenant's.\<close>

lemma registered_safe:
  assumes "others_respect k run" "api_ok st" "0 < key" "k \<noteq> key" "ty = ''pve'' \<or> ty = ''pbs'' \<or> ty = ''windows''"
    and "upsert_typed ty key f now st = (x, st1)"
  shows "safe k st st1" "safe k st (ar_env run n st1)" "x = Inr i \<Longrightarrow> \<not> owns k (ar_env run n st1) ty i"
proof -
  have s1: "safe k st st1" "x = Inr i \<Longrightarrow> \<not> owns k st1 ty i" using upsert_typed_safe [OF assms(2-4,6,5)] by blast+
  have s2: "safe k st1 (ar_env run n st1)" using env_safe [OF assms(1)] s1(1) unfolding safe_def by blast
  show "safe k st st1" by (rule s1(1))
  show "safe k st (ar_env run n st1)" using s1(1) s2 by (rule safe_trans)
  show "x = Inr i \<Longrightarrow> \<not> owns k (ar_env run n st1) ty i" using s1(2) safe_owns [OF s2] by simp
qed

lemma safe_ok: "safe k st st' \<Longrightarrow> api_ok st'"
  by (simp add: safe_def)

lemma save_pve_safe:
  assumes "others_respect k run" "api_ok st" "0 < key" "k \<noteq> key"
  shows "safe k st (snd (SavePVEReportForAPIKey run req key st))"
proof -
  obtain x st1 where up: "upsert_typed ''pve'' key (pve_facts req) (ar_now run) st = (x, st1)" by fastforce
  note r = registered_safe [OF assms _ up, simplified]
  show ?thesis
  proof (cases x)
    case (Inl e)
    then show ?thesis using r(1) up assms(3) by (simp add: SavePVEReportForAPIKey_def upserts_typed)
  next
    case (Inr i)
    have "safe k st (st2\<lparr>st_pve := db\<rparr>)" if "st2 = ar_env run 1 st1"
        "InsertPVEReportData i req (ar_now run) (st_pve st2) = Inr db" for st2 db
      using safe_trans [OF r(2) post_safe(1) [OF safe_ok [OF r(2)] r(3) [OF Inr]]] that by simp
    then show ?thesis using Inr r(2) up assms(3)
      by (simp add: SavePVEReportForAPIKey_def upserts_typed Let_def split: sum.split)
  qed
qed

lemma save_pbs_safe:
  assumes "others_respect k run" "api_ok st" "0 < key" "k \<noteq> key"
  shows "safe k st (snd (SavePBSReportForAPIKey run req key st))"
proof -
  obtain x st1 where up: "upsert_typed ''pbs'' key (pbs_facts req) (ar_now run) st = (x, st1)" by fastforce
  note r = registered_safe [OF assms _ up, simplified]
  show ?thesis
  proof (cases x)
    case (Inl e)
    then show ?thesis using r(1) up assms(3) by (simp add: SavePBSReportForAPIKey_def upserts_typed)
  next
    case (Inr i)
    have "safe k st (st2\<lparr>st_pbs := db\<rparr>)" if "st2 = ar_env run 1 st1"
        "InsertPBSReportData i (brq_ReportID req)
          \<lparr>swap_Total = brq_SwapTotal req, swap_Used = brq_SwapUsed req, swap_Enabled = brq_SwapEnabled req\<rparr> (brq_PBSInformation req) (ar_now run) (st_pbs st2) = Inr db" for st2 db
      using safe_trans [OF r(2) post_safe(2) [OF safe_ok [OF r(2)] r(3) [OF Inr]]] that by simp
    then show ?thesis using Inr r(2) up assms(3)
      by (simp add: SavePBSReportForAPIKey_def upserts_typed Let_def split: sum.split)
  qed
qed

lemma save_windows_safe:
  assumes "others_respect k run" "api_ok st" "0 < key" "k \<noteq> key"
  shows "safe k st (snd (SaveWindowsReportForAPIKey run req key st))"
proof -
  obtain x st1 where up: "upsert_typed ''windows'' key (windows_facts req) (ar_now run) st = (x, st1)" by fastforce
  note r = registered_safe [OF assms _ up, simplified]
  show ?thesis
  proof (cases x)
    case (Inl e)
    then show ?thesis using r(1) up assms(3) by (simp add: SaveWindowsReportForAPIKey_def upserts_typed)
  next
    case (Inr i)
    have "safe k st (st2\<lparr>st_windows := db\<rparr>)" if "st2 = ar_env run 1 st1"
        "InsertWindowsReportData i req (ar_now run) (st_windows st2) = Inr db" for st2 db
      using safe_trans [OF r(2) post_safe(3) [OF safe_ok [OF r(2)] r(3) [OF Inr]]] that by simp
    then show ?thesis using Inr r(2) up assms(3)
      by (simp add: SaveWindowsReportForAPIKey_def upserts_typed Let_def split: sum.split)
  qed
qed

lemma live_not_owned:
  assumes "registry_ok t" "live_of_key key t = Some r" "k \<noteq> key"
  shows "\<not> owned k t (sr_ID r)"
proof -
  have "r \<in> set (at_rows t)" "sr_APIKeyID r = Some key"
    using at_first_Some [OF assms(2) [unfolded live_of_key_def]] by auto
  then have "s = r" if "s \<in> set (at_rows t)" "sr_ID s = sr_ID r" for s
    using assms(1) at_ok_id_inj [of sr_ID t s r] that by (simp add: registry_ok_def)
  then show ?thesis using \<open>sr_APIKeyID r = Some key\<close> assms(3) unfolding owned_def tenant_rows_def by fastforce
qed

lemma windows_of_key:
  assumes "GetWindowsServerByAPIKey keys key t = Inr sv"
  obtains r where "live_of_key key t = Some r" "wins_ID sv = sr_ID r"
proof (cases "live_of_key key t")
  case (Some r)
  then obtain s where s: "server_by_id (sr_ID r) t = Some s" "scan_windows_server keys s = Inr sv"
    using assms by (auto simp: GetWindowsServerByAPIKey_def GetWindowsServer_def scan_one_def split: option.splits)
  then have "wins_ID sv = sr_ID s" by (cases "scan_facts s") (auto simp: scan_windows_server_def)
  moreover have "sr_ID s = sr_ID r" using at_first_Some [OF s(1) [unfolded server_by_id_def]] by simp
  ultimately show ?thesis using Some that by simp
qed (use assms in \<open>simp add: GetWindowsServerByAPIKey_def\<close>)

lemma beat_windows_safe:
  assumes "others_respect k run" "api_ok st" "k \<noteq> key"
  shows "safe k st (beat_for_windows run req key st)"
proof -
  let ?st1 = "ar_env run 2 st" and ?st2 = "ar_env run 3 (ar_env run 2 st)"
  have s1: "safe k st ?st1" by (rule env_safe [OF assms(1,2)])
  then have s2: "safe k ?st1 ?st2" using env_safe [OF assms(1)] by (simp add: safe_def)
  have "safe k ?st2 (?st2\<lparr>st_heartbeats := UpsertServerHeartbeat (windows_heartbeat req (wins_ID sv) (ar_now run)) (ar_now run) (st_heartbeats ?st2)\<rparr>)"
    if sv: "GetWindowsServerByAPIKey (st_keys ?st1) key (wd_servers (st_windows ?st1)) = Inr sv" for sv
  proof (rule heartbeat_safe)
    obtain r where r: "live_of_key key (wd_servers (st_windows ?st1)) = Some r" "wins_ID sv = sr_ID r"
      using windows_of_key [OF sv] by blast
    have "\<not> owns k ?st1 ''windows'' (wins_ID sv)"
      using live_not_owned [OF _ r(1) assms(3)] s1 r(2) by (simp add: owns_def safe_def api_ok_def)
    then show "\<not> owns k ?st2 (hb_ServerType (windows_heartbeat req (wins_ID sv) (ar_now run)))
        (hb_ServerID (windows_heartbeat req (wins_ID sv) (ar_now run)))"
      using safe_owns [OF s2] by (simp add: windows_heartbeat_def)
    show "api_ok ?st2" using s2 by (simp add: safe_def)
  qed
  then show ?thesis using s1 safe_trans [OF s1] safe_trans [OF s2]
    by (auto simp: beat_for_windows_def Let_def split: sum.split)
qed

lemma answers_db [simp]:
  "aw_db (snd (writeJSON c b w)) = aw_db w" "aw_db (snd (errJSON c m w)) = aw_db w" "aw_db (snd (internalErr w)) = aw_db w"
  "aw_db (snd (saved h w)) = aw_db w" "aw_db (snd (tooMany rt m w)) = aw_db w" "aw_db (snd (handle_Health run w)) = aw_db w"
  by (simp_all add: writeJSON_def errJSON_def internalErr_def saved_def request_alerts_def tooMany_def handle_Health_def)

lemma require_keeps:
  assumes "keys_respect k env" "at_ok akr_ID t" "k \<noteq> k_ID key" "requireKeyServer secrets env (Some key) name t = (x, t')"
  shows "at_ok akr_ID t' \<and> same_key k t t' \<and> (\<forall>key'. x = Inr key' \<longrightarrow> k_ID key' = k_ID key)"
proof -
  let ?b = "\<lambda>u. snd (BindAPIKeyServerName (k_ID key) (trim_space name) u)"
  have env: "at_ok akr_ID u \<Longrightarrow> at_ok akr_ID (env n u) \<and> same_key k u (env n u)" for n u
    using assms(1) by (simp add: keys_respect_def)
  have b: "at_ok akr_ID (?b u) \<and> same_key k u (?b u)" if "at_ok akr_ID u" for u
    using that assms(3) by (auto simp: BindAPIKeyServerName_def Let_def intro!: at_ok_update same_key_update)
  define t1 where "t1 = ?b (env 0 t)"
  have t1: "at_ok akr_ID t1 \<and> same_key k t t1"
    using env [OF assms(2), of 0] b [of "env 0 t"] same_key_trans [of k t "env 0 t" t1] by (simp add: t1_def)
  then have t2: "at_ok akr_ID (env 1 t1) \<and> same_key k t (env 1 t1)"
    using env [of t1 1] same_key_trans [of k t t1 "env 1 t1"] by simp
  obtain c where c: "BindAPIKeyServerName (k_ID key) (trim_space name) (env 0 t) = (c, t1)"
    using prod.collapse unfolding t1_def by metis
  have "(t' = t \<or> t' = t1 \<or> t' = env 1 t1) \<and> (\<forall>key'. x = Inr key' \<longrightarrow> k_ID key' = k_ID key)"
  proof (cases "trim_space name \<noteq> [] \<and> trim_space (k_ServerName key) = []")
    case True
    then have "(case (c, t1) of
        (True, t') \<Rightarrow> (Inr (key\<lparr>k_ServerName := trim_space name\<rparr>), t')
      | (False, t') \<Rightarrow> (case GetAPIKey secrets (k_ID key) (env 1 t') of
            Inl _ \<Rightarrow> (Inl (500, ''internal server error''), env 1 t')
          | Inr current \<Rightarrow> if trim_space (k_ServerName current) \<noteq> trim_space name
              then (Inl (403, ''API key is bound to a different server''), env 1 t')
              else (Inr (key\<lparr>k_ServerName := k_ServerName current\<rparr>), env 1 t'))) = (x, t')"
      using assms(4) c by (simp add: requireKeyServer_def Let_def)
    then show ?thesis by (cases c; cases "GetAPIKey secrets (k_ID key) (env 1 t1)") (auto split: if_splits)
  next
    case False
    then show ?thesis using assms(4) by (auto simp: requireKeyServer_def Let_def split: if_splits)
  qed
  moreover have "at_ok akr_ID u \<and> same_key k t u" if "u = t \<or> u = t1 \<or> u = env 1 t1" for u
    using that t1 t2 assms(2) by (elim disjE) (simp_all only: same_key_refl simp_thms)
  ultimately show ?thesis by blast
qed

lemma with_key_server_safe:
  assumes "others_respect k run" "api_ok (aw_db w)" "k \<noteq> k_ID key"
    and nx: "\<And>key' w'. k_ID key' = k_ID key \<Longrightarrow> api_ok (aw_db w') \<Longrightarrow> safe k (aw_db w') (aw_db (snd (next key' w')))"
  shows "safe k (aw_db w) (aw_db (snd (with_key_server run key name next w)))"
proof -
  obtain x t where r: "requireKeyServer (st_secrets (aw_db w)) (ar_bind run) (Some key) name (st_keys (aw_db w)) = (x, t)"
    by fastforce
  have kr: "keys_respect k (ar_bind run)" using assms(1) by (simp add: others_respect_def)
  have t: "at_ok akr_ID t" "same_key k (st_keys (aw_db w)) t" "\<And>key'. x = Inr key' \<Longrightarrow> k_ID key' = k_ID key"
    using require_keeps [OF kr _ assms(3) r] assms(2) by (auto simp: api_ok_def)
  have s: "safe k (aw_db w) ((aw_db w)\<lparr>st_keys := t\<rparr>)" using keys_safe [OF assms(2) t(1,2)] .
  then have "safe k ((aw_db w)\<lparr>st_keys := t\<rparr>) (ar_env run 0 ((aw_db w)\<lparr>st_keys := t\<rparr>))"
    using env_safe [OF assms(1)] by (simp add: safe_def)
  note s' = safe_trans [OF s this]
  show ?thesis
  proof (cases x)
    case (Inl e)
    then show ?thesis using r s by (cases e) (simp add: with_key_server_def)
  next
    case (Inr key')
    let ?w = "on_db (\<lambda>st. ar_env run 0 (st\<lparr>st_keys := t\<rparr>)) w"
    have "safe k (aw_db ?w) (aw_db (snd (next key' ?w)))"
      using s' by (intro nx t(3) [OF Inr]) (simp add: safe_def)
    then show ?thesis using safe_trans [OF s'] r Inr by (simp add: with_key_server_def)
  qed
qed

lemma report_handlers_safe:
  assumes "others_respect k run" "api_ok (aw_db w)" "k \<noteq> k_ID key" "0 < k_ID key"
  shows "safe k (aw_db w) (aw_db (snd (handle_ReportPVE run key b w)))"
    "safe k (aw_db w) (aw_db (snd (handle_ReportPBS run key b' w)))"
    "safe k (aw_db w) (aw_db (snd (handle_ReportWindows run key b'' w)))"
proof -
  have same: "safe k (aw_db w) (aw_db w)" using assms(2) by (rule safe_refl)
  let ?pve = "\<lambda>req key w. case SavePVEReportForAPIKey run req (k_ID key) (aw_db w) of
      (Some _, st) \<Rightarrow> internalErr (w\<lparr>aw_db := st\<rparr>) | (None, st) \<Rightarrow> saved (prq_Hostname req) (w\<lparr>aw_db := st\<rparr>)"
  let ?pbs = "\<lambda>req key w. case SavePBSReportForAPIKey run req (k_ID key) (aw_db w) of
      (Some _, st) \<Rightarrow> internalErr (w\<lparr>aw_db := st\<rparr>) | (None, st) \<Rightarrow> saved (brq_Hostname req) (w\<lparr>aw_db := st\<rparr>)"
  let ?win = "\<lambda>req key w. case SaveWindowsReportForAPIKey run req (k_ID key) (aw_db w) of
      (Some _, st) \<Rightarrow> internalErr (w\<lparr>aw_db := st\<rparr>)
    | (None, st) \<Rightarrow> saved (wrq_Hostname req) (w\<lparr>aw_db := beat_for_windows run req (k_ID key) st\<rparr>)"
  have "safe k (aw_db w) (aw_db (snd (with_key_server run key h (?pve req) w)))" for h req
  proof (rule with_key_server_safe [OF assms(1-3)])
    fix key' :: api_key and w' :: api_world assume "k_ID key' = k_ID key" "api_ok (aw_db w')"
    then have "safe k (aw_db w') (snd (SavePVEReportForAPIKey run req (k_ID key') (aw_db w')))"
      using assms(1,3,4) by (intro save_pve_safe) simp_all
    then show "safe k (aw_db w') (aw_db (snd (?pve req key' w')))"
      by (cases "SavePVEReportForAPIKey run req (k_ID key') (aw_db w')") (simp split: option.split)
  qed
  then show "safe k (aw_db w) (aw_db (snd (handle_ReportPVE run key b w)))"
    using same by (simp add: handle_ReportPVE_def Let_def split: option.split)
  have "safe k (aw_db w) (aw_db (snd (with_key_server run key h (?pbs req) w)))" for h req
  proof (rule with_key_server_safe [OF assms(1-3)])
    fix key' :: api_key and w' :: api_world assume "k_ID key' = k_ID key" "api_ok (aw_db w')"
    then have "safe k (aw_db w') (snd (SavePBSReportForAPIKey run req (k_ID key') (aw_db w')))"
      using assms(1,3,4) by (intro save_pbs_safe) simp_all
    then show "safe k (aw_db w') (aw_db (snd (?pbs req key' w')))"
      by (cases "SavePBSReportForAPIKey run req (k_ID key') (aw_db w')") (simp split: option.split)
  qed
  then show "safe k (aw_db w) (aw_db (snd (handle_ReportPBS run key b' w)))"
    using same by (simp add: handle_ReportPBS_def Let_def split: option.split)
  have "safe k (aw_db w) (aw_db (snd (with_key_server run key h (?win req) w)))" for h req
  proof (rule with_key_server_safe [OF assms(1-3)])
    fix key' :: api_key and w' :: api_world assume a: "k_ID key' = k_ID key" "api_ok (aw_db w')"
    obtain x st where st: "SaveWindowsReportForAPIKey run req (k_ID key') (aw_db w') = (x, st)" by fastforce
    then have s: "safe k (aw_db w') st"
      using save_windows_safe [OF assms(1) a(2), of "k_ID key'" req] assms(3,4) a(1) by simp
    moreover have "safe k st (beat_for_windows run req (k_ID key') st)"
      using beat_windows_safe [OF assms(1) safe_ok [OF s]] assms(3) a(1) by simp
    ultimately show "safe k (aw_db w') (aw_db (snd (?win req key' w')))"
      using safe_trans by (auto simp: st split: option.split)
  qed
  then show "safe k (aw_db w) (aw_db (snd (handle_ReportWindows run key b'' w)))"
    using same by (simp add: handle_ReportWindows_def Let_def split: option.split)
qed

lemma fill_public_ip_type [simp]: "hrq_ServerType (fill_public_ip req key st) = hrq_ServerType req"
  by (simp add: fill_public_ip_def)

lemma save_beat_safe:
  assumes "others_respect k run" "api_ok (aw_db w)" "k \<noteq> key" "0 < key" "hrq_ServerType req \<in> {''pve'', ''pbs'', ''windows''}"
  shows "safe k (aw_db w) (aw_db (snd (save_beat run req key w)))"
proof -
  let ?req = "fill_public_ip req key (aw_db w)" and ?st0 = "ar_env run 1 (aw_db w)"
  have s0: "safe k (aw_db w) ?st0" by (rule env_safe [OF assms(1,2)])
  obtain x st1 where up: "upsert_typed (hrq_ServerType req) key (beat_facts ?req) (ar_now run) ?st0 = (x, st1)" by fastforce
  have ty: "hrq_ServerType req = ''pve'' \<or> hrq_ServerType req = ''pbs'' \<or> hrq_ServerType req = ''windows''" using assms(5) by simp
  note r = registered_safe [OF assms(1) safe_ok [OF s0] assms(4) assms(3) ty up]
  have "safe k ?st0 (st2\<lparr>st_heartbeats := UpsertServerHeartbeat (beat_of ?req i (ar_now run)) (ar_now run) (st_heartbeats st2)\<rparr>)"
    if "x = Inr i" "st2 = ar_env run 2 st1" for i st2
    unfolding that(2) by (rule safe_trans [OF r(2) heartbeat_safe [OF safe_ok [OF r(2)]]])
      (use r(3) [OF that(1), of 2] in \<open>simp add: beat_of_def\<close>)
  then show ?thesis using safe_trans [OF s0] r(1) up
    by (auto simp: save_beat_def Let_def request_alerts_def split: sum.split)
qed

lemma heartbeat_handler_safe:
  assumes "others_respect k run" "api_ok (aw_db w)" "k \<noteq> k_ID key" "0 < k_ID key"
  shows "safe k (aw_db w) (aw_db (snd (handle_Heartbeat run key b w)))"
proof -
  have same: "safe k (aw_db w) (aw_db w)" using assms(2) by (rule safe_refl)
  have "safe k (aw_db w) (aw_db (snd (with_key_server run key h (\<lambda>key. save_beat run req (k_ID key)) w)))"
    if "hrq_ServerType req \<in> {''pve'', ''pbs'', ''windows''}" for h req
  proof (rule with_key_server_safe [OF assms(1-3)])
    fix key' :: api_key and w' :: api_world assume "k_ID key' = k_ID key" "api_ok (aw_db w')"
    then show "safe k (aw_db w') (aw_db (snd (save_beat run req (k_ID key') w')))"
      using save_beat_safe [OF assms(1) _ _ _ that, of w' "k_ID key'"] assms(3,4) by simp
  qed
  then show ?thesis using same by (simp add: handle_Heartbeat_def Let_def split: option.split)
qed

lemma resolved_safe:
  assumes "api_ok st" "0 < k_ID key" "k \<noteq> k_ID key" "pveServerIDForKey run key h st = (x, st')"
  shows "safe k st st'" "x = Inr i \<Longrightarrow> \<not> owns k st' ''pve'' i"
proof -
  have ok: "registry_ok (pd_servers (st_pve st))" using assms(1) by (simp add: api_ok_def)
  obtain t where t: "ResolvePVEServerForAPIKey (k_ID key) h (k_MachineID key) (ar_now run) (pd_servers (st_pve st)) = (x, t)"
    "st' = st\<lparr>st_pve := (st_pve st)\<lparr>pd_servers := t\<rparr>\<rparr>"
    using assms(4) by (auto simp: pveServerIDForKey_def split: prod.splits)
  show "safe k st st'" unfolding t(2)
    using resolve_claim.others_kept [OF ok assms(2) t(1) assms(3)] by (intro pve_claim_safe [OF assms(1)]) simp_all
  show "x = Inr i \<Longrightarrow> \<not> owns k st' ''pve'' i"
    using resolve_claim.claimed_not_owned [OF ok assms(2)] t assms(3) by (simp add: owns_def)
qed

lemma with_pve_server_safe:
  assumes "others_respect k run" "api_ok (aw_db w)" "k \<noteq> k_ID key" "0 < k_ID key"
    and nx: "\<And>i w'. api_ok (aw_db w') \<Longrightarrow> \<not> owns k (aw_db w') ''pve'' i \<Longrightarrow> safe k (aw_db w') (aw_db (snd (next i w')))"
  shows "safe k (aw_db w) (aw_db (snd (with_pve_server run key h next w)))"
  unfolding with_pve_server_def
proof (rule with_key_server_safe [OF assms(1-3)])
  fix key' :: api_key and w' :: api_world assume a: "k_ID key' = k_ID key" "api_ok (aw_db w')"
  obtain x st where st: "pveServerIDForKey run key' h (aw_db w') = (x, st)" by fastforce
  have pos: "0 < k_ID key'" "k \<noteq> k_ID key'" using a(1) assms(3,4) by simp_all
  note s = resolved_safe [OF a(2) pos st]
  have s2: "safe k st (ar_env run 1 st)" by (rule env_safe [OF assms(1) safe_ok [OF s(1)]])
  show "safe k (aw_db w') (aw_db (snd (case pveServerIDForKey run key' h (aw_db w') of
      (Inl _, st) \<Rightarrow> internalErr (w'\<lparr>aw_db := st\<rparr>) | (Inr i, st) \<Rightarrow> next i (w'\<lparr>aw_db := ar_env run 1 st\<rparr>))))"
  proof (cases x)
    case (Inl e)
    then show ?thesis using s(1) st by simp
  next
    case (Inr i)
    have "safe k (ar_env run 1 st) (aw_db (snd (next i (w'\<lparr>aw_db := ar_env run 1 st\<rparr>))))"
      using nx [of "w'\<lparr>aw_db := ar_env run 1 st\<rparr>" i] safe_ok [OF s2] s(2) [OF Inr] safe_owns [OF s2] by simp
    then show ?thesis using safe_trans [OF s(1)] safe_trans [OF s2] st Inr by simp
  qed
qed

lemma inventory_safe:
  assumes "api_ok st" "\<not> owns k st ''pve'' i" "set_inventory run i v st = Inr st'"
  shows "safe k st st'"
proof -
  let ?P = "\<lambda>r. sr_ID r = i \<and> \<not> sr_IsDeleted r"
    and ?f = "\<lambda>r. r\<lparr>sr_BackupInventoryKnown := True, sr_HasBackupVMs := v, sr_UpdatedAt := sql_now (ar_now run)\<rparr>"
  let ?t = "at_update ?P ?f (pd_servers (st_pve st))"
  have st': "st' = st\<lparr>st_pve := (st_pve st)\<lparr>pd_servers := ?t\<rparr>\<rparr>"
    using assms(3) by (auto simp: set_inventory_def SetPVEBackupInventory_def split: if_splits)
  have rows: "set (at_rows ?t) = (\<lambda>r. if ?P r then ?f r else r) ` set (at_rows (pd_servers (st_pve st)))"
    by (simp add: at_rows_simps)
  have ok: "registry_ok (pd_servers (st_pve st))" using assms(1) by (simp add: api_ok_def)
  have not: "sr_APIKeyID r \<noteq> Some k" if "r \<in> set (at_rows (pd_servers (st_pve st)))" "sr_ID r = i" for r
    using assms(2) that by (auto simp: owns_def owned_def tenant_rows_def)
  have "registry_ok ?t" unfolding registry_ok_def rows
  proof
    show "at_ok sr_ID ?t" using ok by (auto simp: registry_ok_def intro: at_ok_update)
    show "keys_once ((\<lambda>r. if ?P r then ?f r else r) ` set (at_rows (pd_servers (st_pve st))))"
      using ok unfolding registry_ok_def keys_once_def by fastforce
  qed
  moreover have "tenant_rows k ?t = tenant_rows k (pd_servers (st_pve st))"
    unfolding tenant_rows_def rows using not by force
  moreover have "sr_ID ` set (at_rows (pd_servers (st_pve st))) \<subseteq> sr_ID ` set (at_rows ?t)"
    unfolding rows image_image by (rule equalityD1, rule image_cong) auto
  ultimately show ?thesis unfolding st' by (intro pve_claim_safe [OF assms(1)])
qed

lemma note_inventory_safe:
  assumes "others_respect k run" "api_ok st" "\<not> owns k st ''pve'' i"
  shows "safe k st (note_inventory run i st)"
proof -
  have s: "safe k st (ar_env run 2 st)" by (rule env_safe [OF assms(1,2)])
  have "safe k (ar_env run 2 st) st'" if "set_inventory run i True (ar_env run 2 st) = Inr st'" for st'
    using inventory_safe [OF safe_ok [OF s] _ that] assms(3) safe_owns [OF s] by simp
  then show ?thesis using s safe_trans [OF s] by (simp add: note_inventory_def Let_def split: sum.split)
qed

lemma configs_safe:
  assumes "api_ok st" "\<not> owns k st ''pve'' i"
  shows "safe k st (on_configs (UpdateVMBackupConfigForServer ''pve'' i v req) st)"
    "safe k st (on_configs (DeleteVMBackupConfigForServer ''pve'' i v now) st)"
    "safe k st (on_configs (ToggleVMExcludeForServer ''pve'' i v) st)"
    "CreateVMBackupConfigForServer ''pve'' i n req now (st_vm_configs st) = (Inr j, t) \<Longrightarrow> safe k st (st\<lparr>st_vm_configs := t\<rparr>)"
proof -
  have ok: "api_ok (st\<lparr>st_vm_configs := t\<rparr>)" for t using assms(1) by (simp add: api_ok_def store_ok_def)
  show "safe k st (on_configs (UpdateVMBackupConfigForServer ''pve'' i v req) st)"
    "safe k st (on_configs (DeleteVMBackupConfigForServer ''pve'' i v now) st)"
    "safe k st (on_configs (ToggleVMExcludeForServer ''pve'' i v) st)"
    unfolding safe_def UpdateVMBackupConfigForServer_def DeleteVMBackupConfigForServer_def ToggleVMExcludeForServer_def
    using ok assms(2) by (auto simp: set_schedule_def intro!: leaves_config_update)
  show "safe k st (st\<lparr>st_vm_configs := t\<rparr>)"
    if "CreateVMBackupConfigForServer ''pve'' i n req now (st_vm_configs st) = (Inr j, t)"
  proof -
    have "t = snd (at_insert (new_vm_config ''pve'' i n req now) (st_vm_configs st))"
      using that by (auto simp: CreateVMBackupConfigForServer_def insert_vm_config_def split: if_splits prod.splits)
    then have "leaves k st (st\<lparr>st_vm_configs := t\<rparr>)"
      using assms(2) by (auto simp: new_vm_config_def intro!: leaves_configs select_inserted)
    then show ?thesis using ok by (simp add: safe_def)
  qed
qed

lemma schedule_handlers_safe:
  assumes "others_respect k run" "api_ok (aw_db w)" "k \<noteq> k_ID key" "0 < k_ID key"
  shows "safe k (aw_db w) (aw_db (snd (handle_UpdateBackupInventory run key s b w)))"
    "safe k (aw_db w) (aw_db (snd (handle_CreateVMConfig run key s b' w)))"
    "safe k (aw_db w) (aw_db (snd (handle_UpdateVMConfig run key s v b' w)))"
    "safe k (aw_db w) (aw_db (snd (handle_DeleteVMConfig run key s v w)))"
    "safe k (aw_db w) (aw_db (snd (handle_ToggleVMExclude run key s v w)))"
proof -
  have same: "safe k (aw_db w) (aw_db w)" using assms(2) by (rule safe_refl)
  have noted: "safe k st (note_inventory run i st')" if "safe k st st'" "\<not> owns k st ''pve'' i" for st st' i
    using safe_trans [OF that(1) note_inventory_safe [OF assms(1) safe_ok [OF that(1)]]] safe_owns [OF that(1)] that(2) by simp
  note guard = with_pve_server_safe [OF assms]
  show "safe k (aw_db w) (aw_db (snd (handle_UpdateBackupInventory run key s b w)))"
    unfolding handle_UpdateBackupInventory_def
    by (rule guard) (auto split: option.split sum.split intro: safe_refl inventory_safe)
  show "safe k (aw_db w) (aw_db (snd (handle_CreateVMConfig run key s b' w)))"
    unfolding handle_CreateVMConfig_def Let_def
    by (rule guard) (auto split: option.split sum.split prod.split intro!: safe_refl noted intro: configs_safe(4))
  show "safe k (aw_db w) (aw_db (snd (handle_UpdateVMConfig run key s v b' w)))"
    unfolding handle_UpdateVMConfig_def using same
    by (auto split: option.split intro!: guard safe_refl noted configs_safe)
  show "safe k (aw_db w) (aw_db (snd (handle_DeleteVMConfig run key s v w)))"
    unfolding handle_DeleteVMConfig_def using same by (auto intro!: guard configs_safe)
  show "safe k (aw_db w) (aw_db (snd (handle_ToggleVMExclude run key s v w)))"
    unfolding handle_ToggleVMExclude_def using same by (auto intro!: guard configs_safe)
qed

lemma reads_same:
  "aw_db (snd (handle_ListPVEServers run key w)) = aw_db w" "aw_db (snd (handle_ListPBSServers run key w)) = aw_db w"
  "aw_db (snd (handle_ListPVEReports run key i l w)) = aw_db w" "aw_db (snd (handle_GetBackupConfig key s w)) = aw_db w"
  by (simp_all add: handle_ListPVEServers_def handle_ListPBSServers_def handle_ListPVEReports_def handle_GetBackupConfig_def
      Let_def split: sum.split option.split prod.split)

lemma serve_safe:
  assumes "others_respect k run" "api_ok (aw_db w)" "k \<noteq> k_ID key" "0 < k_ID key"
  shows "safe k (aw_db w) (aw_db (snd (serve run key call w)))"
  using report_handlers_safe [OF assms] heartbeat_handler_safe [OF assms] schedule_handlers_safe [OF assms] safe_refl [OF assms(2)]
  by (cases call) (simp_all add: reads_same)

section \<open>Presenting a key\<close>

lemma looked_up:
  assumes "at_ok akr_ID t" "GetAPIKeyByValue secrets nonce raw t = (x, t')" "\<And>key. x = Inr key \<Longrightarrow> k_ID key \<noteq> k"
  shows "at_ok akr_ID t'" "same_key k t t'" "x = Inr key \<Longrightarrow> 0 < k_ID key"
proof -
  have "t' = t \<or> (\<exists>key e h. x = Inr key \<and> t' = at_update (\<lambda>r. akr_ID r = k_ID key) (\<lambda>r. r\<lparr>akr_Key := e, akr_KeyHash := h\<rparr>) t)"
  proof (cases "query_key secrets (\<lambda>r. akr_Key r = raw \<and> stored_plain r) t")
    case (Inl e)
    then show ?thesis using assms(2) by (auto simp: GetAPIKeyByValue_def Let_def split: if_splits)
  next
    case (Inr key)
    have "\<exists>e h. u = at_update (\<lambda>r. akr_ID r = k_ID key) (\<lambda>r. r\<lparr>akr_Key := e, akr_KeyHash := h\<rparr>) t"
      if "protectAPIKeyValue b nonce (k_ID key) raw t = Inr u" for b u
      using that by (auto simp: protectAPIKeyValue_def Let_def split: if_splits)
    moreover have "t' = t \<or> x = Inr key \<and> (\<exists>b. protectAPIKeyValue b nonce (k_ID key) raw t = Inr t')"
      using assms(2) Inr by (auto simp: GetAPIKeyByValue_def Let_def split: if_splits option.splits sum.splits)
    ultimately show ?thesis by blast
  qed
  then show "at_ok akr_ID t'" "same_key k t t'"
    using assms(1,3) by (auto intro!: at_ok_update same_key_update)
  assume x: "x = Inr key"
  then obtain P where "query_key secrets P t = Inr key" using GetAPIKeyByValue_row assms(2) by (metis fst_conv)
  then obtain r where "at_first P t = Some r" "k_ID key = akr_ID r" by (rule query_key_row)
  then show "0 < k_ID key" using at_first_Some [of P t r] at_ok_bounds [OF assms(1), of r] by simp
qed

lemma authenticated:
  assumes "keys_respect k env" "at_ok akr_ID t" "ValidateServerKey secrets env nonce raw m now t = (x, t')"
    and other: "\<And>key. fst (GetAPIKeyByValue secrets nonce raw t) = Inr key \<Longrightarrow> k_ID key \<noteq> k"
  shows "at_ok akr_ID t' \<and> same_key k t t' \<and> (\<forall>key. x = Inr key \<longrightarrow> k_ID key \<noteq> k \<and> 0 < k_ID key)"
proof -
  have env: "at_ok akr_ID u \<Longrightarrow> at_ok akr_ID (env n u) \<and> same_key k u (env n u)" for n u
    using assms(1) by (simp add: keys_respect_def)
  obtain y t1 where look: "GetAPIKeyByValue secrets nonce raw t = (y, t1)" by fastforce
  note l = looked_up [OF assms(2) look] other [unfolded look fst_conv]
  have t1: "at_ok akr_ID t1" "same_key k t t1" using l by blast+
  show ?thesis
  proof (cases y)
    case (Inl e)
    then show ?thesis using assms(3) look t1 by (auto simp: ValidateServerKey_def)
  next
    case (Inr key)
    have key: "k_ID key \<noteq> k" "0 < k_ID key" using l Inr by blast+
    obtain z t2 where bm: "bind_machine secrets env key m t1 = (z, t2)" by fastforce
    have bind: "at_ok akr_ID (snd (BindAPIKeyMachineID (k_ID key) m u)) \<and> same_key k u (snd (BindAPIKeyMachineID (k_ID key) m u))"
      if "at_ok akr_ID u" for u
      using that key(1) by (auto simp: BindAPIKeyMachineID_def Let_def intro!: at_ok_update same_key_update)
    define u where "u = snd (BindAPIKeyMachineID (k_ID key) m (env 0 t1))"
    have u: "at_ok akr_ID u" "same_key k t1 u"
      using env [OF t1(1), of 0] bind [of "env 0 t1"] same_key_trans [of k t1 "env 0 t1" u] by (simp_all add: u_def)
    have "t2 = t1 \<or> t2 = u \<or> t2 = env 1 u"
      using bm unfolding bind_machine_def u_def
      by (auto split: if_splits prod.splits bool.splits sum.splits)
    then have t2: "at_ok akr_ID t2" "same_key k t t2"
      using t1 u env [OF u(1), of 1] same_key_trans by blast+
    have e2: "at_ok akr_ID (env 2 t2)" "same_key k t (env 2 t2)" using env [OF t2(1), of 2] t2(2) same_key_trans by blast+
    have used: "at_ok akr_ID (UpdateAPIKeyLastUsed (k_ID key) now v) \<and> same_key k v (UpdateAPIKeyLastUsed (k_ID key) now v)"
      if "at_ok akr_ID v" for v
      using that key(1) by (auto simp: UpdateAPIKeyLastUsed_def intro!: at_ok_update same_key_update)
    have t3: "at_ok akr_ID (UpdateAPIKeyLastUsed (k_ID key) now (env 2 t2))" "same_key k t (UpdateAPIKeyLastUsed (k_ID key) now (env 2 t2))"
      using used [OF e2(1)] e2(2) same_key_trans by blast+
    show ?thesis using assms(3) look Inr bm t1 t2 t3 key by (auto simp: ValidateServerKey_def split: if_splits sum.splits)
  qed
qed

section \<open>The property\<close>

text \<open>C3: tenants are isolated. Whatever a client asks for, with whatever body and parameters, and
  whichever address it comes from: if the key it presents is not key \<open>k\<close>, then after the request the
  tenant \<open>k\<close> finds its key, its servers of the three kinds, their stored reports with all their content,
  their heartbeats, schedules, maintenance windows and alert settings exactly as they were, and the
  tables are well formed, provided the requests that run in between leave \<open>k\<close> alone too.\<close>

theorem tenants_isolated:
  assumes "others_respect k run" "api_ok (aw_db w)"
    and "\<And>key. fst (GetAPIKeyByValue (st_secrets (aw_db w)) (ar_nonce run)
        (ExtractBearer (header_get (TrustedProxyRealIP proxies r) ''Authorization'')) (st_keys (aw_db w))) = Inr key \<Longrightarrow> k_ID key \<noteq> k"
  shows "leaves k (aw_db w) (aw_db (snd (Router proxies run r call w))) \<and> api_ok (aw_db (snd (Router proxies run r call w)))"
proof -
  let ?r = "TrustedProxyRealIP proxies r"
  have same: "safe k (aw_db w) (aw_db w)" using assms(2) by (rule safe_refl)
  have "safe k (aw_db v) (aw_db (snd (requireServerKey run ?r (\<lambda>key. serve run key call) v)))" if v: "aw_db v = aw_db w" for v
  proof -
    obtain x t where auth: "ValidateServerKey (st_secrets (aw_db v)) (ar_auth run) (ar_nonce run)
        (ExtractBearer (header_get ?r ''Authorization'')) (header_get ?r ''X-Machine-ID'') (ar_now run) (st_keys (aw_db v)) = (x, t)"
      by fastforce
    have kr: "keys_respect k (ar_auth run)" using assms(1) by (simp add: others_respect_def)
    have ok: "at_ok akr_ID (st_keys (aw_db v))" "api_ok (aw_db v)" using assms(2) v by (simp_all add: api_ok_def)
    have a: "at_ok akr_ID t" "same_key k (st_keys (aw_db v)) t" "\<And>key. x = Inr key \<Longrightarrow> k_ID key \<noteq> k \<and> 0 < k_ID key"
      using authenticated [OF kr ok(1) auth] assms(3) v by auto
    have s: "safe k (aw_db v) ((aw_db v)\<lparr>st_keys := t\<rparr>)" by (rule keys_safe [OF ok(2) a(1,2)])
    have "safe k (aw_db v) (aw_db (snd (serve run key call (on_db (\<lambda>st. st\<lparr>st_keys := t\<rparr>) (v\<lparr>aw_clients := l\<rparr>)))))"
      if "x = Inr key" for key l
      using safe_trans [OF s, of "aw_db (snd (serve run key call (on_db (\<lambda>st. st\<lparr>st_keys := t\<rparr>) (v\<lparr>aw_clients := l\<rparr>))))"]
        serve_safe [OF assms(1), of "on_db (\<lambda>st. st\<lparr>st_keys := t\<rparr>) (v\<lparr>aw_clients := l\<rparr>)" key call] a(3) [OF that] safe_ok [OF s]
      by simp
    then show ?thesis using s auth by (auto simp: requireServerKey_def Let_def split: sum.split prod.split)
  qed
  then have "safe k (aw_db w) (aw_db (snd (Router proxies run r call w)))"
    using same by (simp add: Router_def JSONMiddleware_def Let_def split: prod.split bool.split)
  then show ?thesis by (simp add: safe_def)
qed

text \<open>A request of a third key next to the two tenants of \<open>sample_store\<close>.\<close>

definition alone :: "nat \<Rightarrow> 'a \<Rightarrow> 'a" where "alone n x = x"

definition sample_run :: api_run where
  "sample_run = \<lparr>ar_now = 5 * hour, ar_tz = utc_zone, ar_nonce = [], ar_ContentLength = 900, ar_healthy = True,
     ar_auth = alone, ar_bind = alone, ar_env = alone\<rparr>"

definition sample_key_request :: http_req where
  "sample_key_request = \<lparr>hr_RemoteAddr = ''203.0.113.9:4000'',
     hr_Header = [(''Authorization'', ''Bearer pbk-01''), (''X-Machine-ID'', ''m1'')], hr_Host = [], hr_TLS = True\<rparr>"

definition sample_api_world :: api_world where
  "sample_api_world = \<lparr>aw_db = sample_store\<lparr>st_keys := snd (CreateAPIKey None [] ''01'' ''office'' [] [] 0 at_empty)\<rparr>,
     aw_clients = New_limiter 300 minute, aw_ips = New_limiter 120 minute, aw_alertQueue = False\<rparr>"

lemma others_alone: "others_respect k sample_run"
  by (simp add: others_respect_def keys_respect_def sample_run_def alone_def safe_def)

lemma sample_api_ok: "api_ok (aw_db sample_api_world)"
proof -
  have "registry_ok (pd_servers sample_two_keys)" by code_simp
  moreover have "at_ok akr_ID (snd (CreateAPIKey None [] ''01'' ''office'' [] [] 0 at_empty))" by code_simp
  ultimately show ?thesis using sample_store_ok
    by (simp add: api_ok_def sample_api_world_def store_ok_def sample_store_def empty_pbs_db_def empty_windows_db_def)
qed

theorem tenants_isolated_witness:
  "rp_status (fst (Router [] sample_run sample_key_request (ReportPVE (Value sample_pve_request, Ended)) sample_api_world)) = 200 \<and>
   leaves 7 (aw_db sample_api_world)
     (aw_db (snd (Router [] sample_run sample_key_request (ReportPVE (Value sample_pve_request, Ended)) sample_api_world)))"
proof
  let ?look = "fst (GetAPIKeyByValue (st_secrets (aw_db sample_api_world)) (ar_nonce sample_run)
    (ExtractBearer (header_get (TrustedProxyRealIP [] sample_key_request) ''Authorization'')) (st_keys (aw_db sample_api_world)))"
  show "rp_status (fst (Router [] sample_run sample_key_request (ReportPVE (Value sample_pve_request, Ended)) sample_api_world)) = 200"
    by code_simp
  have "case ?look of Inl _ \<Rightarrow> True | Inr key \<Rightarrow> k_ID key \<noteq> 7" by code_simp
  then have "k_ID key \<noteq> 7" if "?look = Inr key" for key using that by simp
  then show "leaves 7 (aw_db sample_api_world)
      (aw_db (snd (Router [] sample_run sample_key_request (ReportPVE (Value sample_pve_request, Ended)) sample_api_world)))"
    using tenants_isolated [OF others_alone sample_api_ok] by blast
qed

end
