(* ===== verification/Api_Reports.thy ===== *)
theory Api_Reports
  imports Api_Isolation
begin

text \<open>
  What the answer to a report says of the store: for a request that no other request interrupts, the
  status 200 and the stored report go together.
\<close>

section \<open>A request on its own\<close>

definition undisturbed :: "api_run \<Rightarrow> bool" where
  "undisturbed run \<longleftrightarrow> (\<forall>n t. ar_auth run n t = t) \<and> (\<forall>n t. ar_bind run n t = t) \<and> (\<forall>n st. ar_env run n st = st)"

lemma undisturbed_env: "undisturbed run \<Longrightarrow> ar_env run n st = st"
  by (simp add: undisturbed_def)

lemma undisturbed_respect: "undisturbed run \<Longrightarrow> others_respect k run"
  by (simp add: undisturbed_def others_respect_def keys_respect_def safe_def)

text \<open>What a key may hold: the store is as before but for the keys.\<close>

definition only_keys :: "store \<Rightarrow> store \<Rightarrow> bool" where
  "only_keys st st' \<longleftrightarrow> (\<exists>t. st' = st\<lparr>st_keys := t\<rparr>)"

lemma only_keysI [simp]: "only_keys st (st\<lparr>st_keys := t\<rparr>)"
  by (auto simp: only_keys_def)

lemma only_keys_pve: "only_keys st st' \<Longrightarrow> st_pve st' = st_pve st"
  by (auto simp: only_keys_def)

text \<open>Every request that gets past a guard does so with a positive key; the guards write keys only.\<close>

lemma guard_passed:
  assumes "undisturbed run" "api_ok (aw_db w)" "with_key_server run key name next w = (resp, w')"
  obtains (stopped) "rp_status resp \<noteq> 200" "only_keys (aw_db w) (aw_db w')"
  | (passed) key' v where "k_ID key' = k_ID key" "only_keys (aw_db w) (aw_db v)" "api_ok (aw_db v)" "next key' v = (resp, w')"
proof -
  obtain x t where r: "requireKeyServer (st_secrets (aw_db w)) (ar_bind run) (Some key) name (st_keys (aw_db w)) = (x, t)"
    by fastforce
  have kr: "keys_respect (k_ID key + 1) (ar_bind run)" using assms(1) by (simp add: undisturbed_def keys_respect_def)
  have ids: "at_ok akr_ID t" "\<And>key'. x = Inr key' \<Longrightarrow> k_ID key' = k_ID key"
    using require_keeps [OF kr _ _ r] assms(2) by (auto simp: api_ok_def)
  show thesis
  proof (cases x)
    case (Inl e)
    obtain code msg where e: "e = (code, msg)" by fastforce
    then have "code \<noteq> 200" using r Inl
      by (auto simp: requireKeyServer_def Let_def split: if_splits prod.splits bool.splits sum.splits)
    then show thesis using stopped assms(3) r Inl e
      by (auto simp: with_key_server_def errJSON_def writeJSON_def)
  next
    case (Inr key')
    then show thesis
      using passed [OF ids(2) [OF Inr], of "on_db (\<lambda>st. st\<lparr>st_keys := t\<rparr>) w"] assms r ids(1) undisturbed_env [OF assms(1)]
      by (auto simp: with_key_server_def api_ok_def store_ok_def)
  qed
qed

section \<open>Saving\<close>

lemma save_pve_stores:
  assumes "undisturbed run" "api_ok st" "0 < key" "SavePVEReportForAPIKey run req key st = (e, st')"
  shows "(e = None \<longrightarrow> (\<exists>r. live_of_key key (pd_servers (st_pve st')) = Some r \<and> has_facts (pve_facts req) r \<and>
      pve_log (st_pve st') = log_post prq_ReportID pve_request_content (sr_ID r) req (ar_now run) (pve_log (st_pve st)))) \<and>
    (e \<noteq> None \<longrightarrow> pve_log (st_pve st') = pve_log (st_pve st))"
proof -
  have ok: "pve_ok (st_pve st)" "registry_ok (pd_servers (st_pve st))" using assms(2) by (simp_all add: api_ok_def store_ok_def)
  obtain x t where up: "UpsertPVEServerForAPIKey key (pve_facts req) (ar_now run) (pd_servers (st_pve st)) = (x, t)" by fastforce
  let ?st = "st\<lparr>st_pve := (st_pve st)\<lparr>pd_servers := t\<rparr>\<rparr>"
  have saved: "SavePVEReportForAPIKey run req key st = (case x of Inl e \<Rightarrow> (Some e, ?st)
      | Inr i \<Rightarrow> (case InsertPVEReportData i req (ar_now run) ((st_pve st)\<lparr>pd_servers := t\<rparr>) of
          Inl e \<Rightarrow> (Some e, ?st) | Inr db \<Rightarrow> (None, ?st\<lparr>st_pve := db\<rparr>)))"
    using up assms(3) undisturbed_env [OF assms(1)] by (simp add: SavePVEReportForAPIKey_def upsert_pve_def Let_def split: sum.split)
  show ?thesis
  proof (cases x)
    case (Inl e')
    then show ?thesis using assms(4) saved by auto
  next
    case (Inr i)
    obtain r where r: "live_of_key key t = Some r" "sr_ID r = i" "has_facts (pve_facts req) r"
      using pve_registry.upsert_live [OF ok(2) assms(3)] up Inr by blast
    have "registry_ok t \<and> sr_ID ` set (at_rows (pd_servers (st_pve st))) \<subseteq> sr_ID ` set (at_rows t)"
      using pve_claim.claim_claims [OF ok(2) assms(3)] up Inr by (auto simp: claims_def)
    then have "pve_ok ((st_pve st)\<lparr>pd_servers := t\<rparr>)" using ok(1) by (intro ok_servers(1)) (simp_all add: registry_ok_def)
    moreover have "pve_known ((st_pve st)\<lparr>pd_servers := t\<rparr>) i"
      using at_first_Some [OF r(1) [unfolded live_of_key_def]] r(2) by (auto simp: pve_known_def at_has_iff)
    ultimately obtain db where db: "InsertPVEReportData i req (ar_now run) ((st_pve st)\<lparr>pd_servers := t\<rparr>) = Inr db"
      "pd_servers db = t" "pve_log db = log_post prq_ReportID pve_request_content i req (ar_now run) (pve_log (st_pve st))"
      using pve_reports.store_known [of "(st_pve st)\<lparr>pd_servers := t\<rparr>" i req "ar_now run"] posted_pve by (metis logs_of_servers(1) pve_db.select_convs(1) pve_db.surjective pve_db.update_convs(1))
    then have "e = None" "st' = ?st\<lparr>st_pve := db\<rparr>" using assms(4) saved Inr by simp_all
    then show ?thesis using db(2,3) r by simp
  qed
qed

text \<open>The outcome of a request with key \<open>key\<close> and report \<open>req\<close>.\<close>

definition report_outcome :: "api_run \<Rightarrow> int \<Rightarrow> pve_report_request body \<Rightarrow> store \<Rightarrow> api_response \<Rightarrow> api_world \<Rightarrow> bool" where
  "report_outcome run key body st resp w' \<longleftrightarrow>
     (if rp_status resp = 200 then
        (\<exists>req s. decodeJSONBody body = Some req \<and> Validate_PVE (pve_trimmed req) = None \<and>
           live_of_key key (pd_servers (st_pve (aw_db w'))) = Some s \<and> has_facts (pve_facts (pve_trimmed req)) s \<and>
           pve_log (st_pve (aw_db w')) =
             log_post prq_ReportID pve_request_content (sr_ID s) (pve_trimmed req) (ar_now run) (pve_log (st_pve st)) \<and>
           aw_alertQueue w')
      else pve_log (st_pve (aw_db w')) = pve_log (st_pve st))"

lemma report_outcome_cong: "st_pve st = st_pve st' \<Longrightarrow> report_outcome run key b st = report_outcome run key b st'"
  by (intro ext) (simp add: report_outcome_def)

lemma refused_outcome: "c \<noteq> 200 \<Longrightarrow> errJSON c m w = (resp, w') \<Longrightarrow> report_outcome run key b (aw_db w) resp w'"
  by (auto simp: errJSON_def writeJSON_def report_outcome_def)

lemma report_handler_outcome:
  assumes "undisturbed run" "api_ok (aw_db w)" "0 < k_ID key" "handle_ReportPVE run key body w = (resp, w')"
  shows "report_outcome run (k_ID key) body (aw_db w) resp w'"
proof (cases "decodeJSONBody body")
  case None
  then show ?thesis using assms(4) by (auto simp: handle_ReportPVE_def intro: refused_outcome [rotated])
next
  case (Some raw)
  show ?thesis
  proof (cases "Validate_PVE (pve_trimmed raw)")
    case (Some err)
    then show ?thesis using assms(4) \<open>decodeJSONBody body = Some raw\<close>
      by (auto simp: handle_ReportPVE_def Let_def intro: refused_outcome [rotated])
  next
    case None
    define req where "req = pve_trimmed raw"
    let ?next = "\<lambda>k w. case SavePVEReportForAPIKey run req (k_ID k) (aw_db w) of
        (Some _, st) \<Rightarrow> internalErr (w\<lparr>aw_db := st\<rparr>) | (None, st) \<Rightarrow> saved (prq_Hostname req) (w\<lparr>aw_db := st\<rparr>)"
    have "with_key_server run key (prq_Hostname req) ?next w = (resp, w')"
      unfolding req_def using assms(4) Some None by (simp add: handle_ReportPVE_def Let_def)
    with assms(1,2) show ?thesis
    proof (cases rule: guard_passed)
      case stopped
      then show ?thesis using only_keys_pve by (simp add: report_outcome_def)
    next
      case (passed key' v)
      obtain e st where sv: "SavePVEReportForAPIKey run req (k_ID key') (aw_db v) = (e, st)" by fastforce
      note stores = save_pve_stores [OF assms(1) passed(3) _ sv]
      have pve: "st_pve (aw_db v) = st_pve (aw_db w)" by (rule only_keys_pve [OF passed(2)])
      show ?thesis
      proof (cases e)
        case None
        then have w': "resp = \<lparr>rp_status = 200, rp_body = SavedBody (prq_Hostname req), rp_RetryAfter = None\<rparr>"
          "aw_db w' = st" "aw_alertQueue w'"
          using passed(4) sv by (auto simp: saved_def writeJSON_def request_alerts_def)
        have "\<exists>s. live_of_key (k_ID key) (pd_servers (st_pve st)) = Some s \<and> has_facts (pve_facts req) s \<and>
            pve_log (st_pve st) = log_post prq_ReportID pve_request_content (sr_ID s) req (ar_now run) (pve_log (st_pve (aw_db w)))"
          using stores assms(3) passed(1) None pve by simp
        then show ?thesis unfolding report_outcome_def
          using w' Some \<open>Validate_PVE (pve_trimmed raw) = None\<close> by (simp add: req_def)
      next
        case (Some err)
        then have "rp_status resp = 500" "aw_db w' = st"
          using passed(4) sv by (auto simp: internalErr_def errJSON_def writeJSON_def)
        then show ?thesis unfolding report_outcome_def using stores assms(3) passed(1) Some pve by simp
      qed
    qed
  qed
qed

lemma validated_key:
  assumes "ValidateServerKey secrets env nonce raw m now t = (Inr k, t')"
  shows "\<exists>k0. fst (GetAPIKeyByValue secrets nonce raw t) = Inr k0 \<and> k_ID k = k_ID k0"
proof -
  obtain y t1 where look: "GetAPIKeyByValue secrets nonce raw t = (y, t1)" by fastforce
  show ?thesis
  proof (cases y)
    case (Inl e)
    then show ?thesis using assms look by (simp add: ValidateServerKey_def)
  next
    case (Inr k0)
    obtain z t2 where bm: "bind_machine secrets env k0 m t1 = (z, t2)" by fastforce
    then show ?thesis using assms look Inr
      by (cases z) (auto simp: ValidateServerKey_def split: if_splits)
  qed
qed

section \<open>The property\<close>



end
