(* ===== verification/Go_Date.thy ===== *)
theory Go_Date
  imports Domain_Format Staleness
begin

text \<open>
  Civil dates of the proleptic Gregorian calendar, as the package \<open>time\<close> computes them: the date of a
  day number (days since 1970-01-01) and back, \<open>AddDate\<close> with months, and the layouts
  \<open>2006-01-02\<close> and \<open>20060102_150405\<close>. Comparing two dates as text, as the code does, compares the days.
\<close>

section \<open>Dates and day numbers\<close>

definition leap :: "int \<Rightarrow> bool" where
  "leap y \<longleftrightarrow> y mod 4 = 0 \<and> (y mod 100 \<noteq> 0 \<or> y mod 400 = 0)"

definition year_start :: "int \<Rightarrow> int" where
  "year_start y = 365 * (y - 1970) + (y - 1969) div 4 - (y - 1901) div 100 + (y - 1601) div 400"

text \<open>Days of a year before a month; month 13 is the next year.\<close>

definition month_start :: "bool \<Rightarrow> int \<Rightarrow> int" where
  "month_start lp m = [0, 31, 59, 90, 120, 151, 181, 212, 243, 273, 304, 334, 365] ! nat (m - 1) + (if lp \<and> 2 < m then 1 else 0)"

type_synonym civil = "int \<times> int \<times> int"

definition day_of_civil :: "civil \<Rightarrow> int" where
  "day_of_civil = (\<lambda>(y, m, d). year_start y + month_start (leap y) m + d - 1)"

definition valid_civil :: "civil \<Rightarrow> bool" where
  "valid_civil = (\<lambda>(y, m, d). 1 \<le> m \<and> m \<le> 12 \<and> 1 \<le> d \<and> month_start (leap y) m + d \<le> month_start (leap y) (m + 1))"

definition year_of_day :: "int \<Rightarrow> int" where
  "year_of_day n =
     (let y = 1970 + (n * 400) div 146097
      in if n < year_start y then y - 1 else if year_start (y + 1) \<le> n then y + 1 else y)"

fun month_from :: "bool \<Rightarrow> int \<Rightarrow> int list \<Rightarrow> int" where
  "month_from lp yd [] = 12"
| "month_from lp yd (m # ms) = (if yd < month_start lp (m + 1) then m else month_from lp yd ms)"

definition civil_of_day :: "int \<Rightarrow> civil" where
  "civil_of_day n =
     (let y = year_of_day n; yd = n - year_start y; m = month_from (leap y) yd [1, 2, 3, 4, 5, 6, 7, 8, 9, 10, 11]
      in (y, m, yd - month_start (leap y) m + 1))"

section \<open>Calendar arithmetic\<close>

lemma div_step: "0 < k \<Longrightarrow> (x + 1) div k = x div k + (if (x + 1) mod k = 0 then 1 else 0)" for k x :: int
proof -
  assume k: "0 < k"
  have x: "x + 1 = k * ((x + 1) div k) + (x + 1) mod k" "0 \<le> (x + 1) mod k" "(x + 1) mod k < k" using k by simp_all
  show ?thesis
  proof (cases "(x + 1) mod k = 0")
    case True
    then have "x = k * ((x + 1) div k - 1) + (k - 1)" using x(1) by (simp add: algebra_simps)
    then have "x div k = (x + 1) div k - 1" by (rule int_div_pos_eq) (use k in simp_all)
    then show ?thesis using True by simp
  next
    case False
    then have "x = k * ((x + 1) div k) + ((x + 1) mod k - 1)" "0 \<le> (x + 1) mod k - 1" "(x + 1) mod k - 1 < k"
      using x by linarith+
    then have "x div k = (x + 1) div k" by (rule int_div_pos_eq)
    then show ?thesis using False by simp
  qed
qed

lemma anniversary:
  fixes y c k :: int
  assumes "0 < k" "k dvd c - 1"
  shows "(y + 1 - c) div k = (y - c) div k + (if y mod k = 0 then 1 else 0)"
proof -
  obtain j where "c - 1 = k * j" using assms(2) by (rule dvdE)
  then have e: "y - c + 1 = y + k * (- j)" by (simp add: algebra_simps)
  have "(y - c + 1) mod k = y mod k" unfolding e by (rule mod_mult_self2)
  then show ?thesis using div_step [OF assms(1), of "y - c"] by (simp only: add_diff_eq diff_add_eq)
qed

lemma year_step: "year_start (y + 1) = year_start y + (if leap y then 366 else 365)"
proof -
  have d: "(y + 1 - 1969) div 4 = (y - 1969) div 4 + (if y mod 4 = 0 then 1 else 0)"
    "(y + 1 - 1901) div 100 = (y - 1901) div 100 + (if y mod 100 = 0 then 1 else 0)"
    "(y + 1 - 1601) div 400 = (y - 1601) div 400 + (if y mod 400 = 0 then 1 else 0)"
    by (rule anniversary; simp)+
  have c: "y mod 100 = 0 \<Longrightarrow> y mod 4 = 0" "y mod 400 = 0 \<Longrightarrow> y mod 100 = 0"
    using mod_mod_cancel [of 4 100 y] mod_mod_cancel [of 100 400 y] by simp_all
  have "year_start (y + 1) = year_start y + 365 + (if y mod 4 = 0 then 1 else 0) - (if y mod 100 = 0 then 1 else 0) +
      (if y mod 400 = 0 then 1 else 0)"
    unfolding year_start_def d by simp
  moreover have sum: "x + 365 + (if p then 1 else 0) - (if q then 1 else 0) + (if r then 1 else 0) =
      x + (if p \<and> (\<not> q \<or> r) then 366 else 365)" if "q \<Longrightarrow> p" "r \<Longrightarrow> q" for x :: int and p q r
    using that by (cases p; cases q; cases r) simp_all
  ultimately show ?thesis using sum [where x = "year_start y", OF c] by (simp only: leap_def)
qed

lemma year_start_mono: "y < z \<Longrightarrow> year_start (y + 1) \<le> year_start z"
proof (induction "nat (z - y)" arbitrary: z)
  case (Suc n)
  show ?case
  proof (cases "y = z - 1")
    case False
    then have "year_start (y + 1) \<le> year_start (z - 1)" using Suc by (intro Suc(1)) simp_all
    then show ?thesis using year_step [of "z - 1"] by (simp split: if_splits)
  qed simp
qed simp

lemma year_start_bounds: "146097 * (y - 1970) - 506 \<le> 400 * year_start y" "400 * year_start y \<le> 146097 * (y - 1970) + 589"
proof -
  have d: "k * (x div k) \<le> x" "x < k * (x div k) + k" if "0 < k" for x k :: int
    using that pos_mod_sign [of k x] pos_mod_bound [of k x] mult_div_mod_eq [of k x] by linarith+
  show "146097 * (y - 1970) - 506 \<le> 400 * year_start y" "400 * year_start y \<le> 146097 * (y - 1970) + 589"
    using d [of 4 "y - 1969"] d [of 100 "y - 1901"] d [of 400 "y - 1601"] by (simp_all add: year_start_def)
qed

lemma year_of_day: "year_start (year_of_day n) \<le> n" "n < year_start (year_of_day n + 1)"
proof -
  let ?q = "(n * 400) div 146097" and ?y = "1970 + (n * 400) div 146097"
  have q: "146097 * ?q \<le> n * 400" "n * 400 < 146097 * ?q + 146097"
    using pos_mod_sign [of 146097 "n * 400"] pos_mod_bound [of 146097 "n * 400"] mult_div_mod_eq [of 146097 "n * 400"] by linarith+
  have low: "year_start (?y - 1) \<le> n" and high: "n < year_start (?y + 2)"
    using year_start_bounds(2) [of "?y - 1"] year_start_bounds(1) [of "?y + 2"] q by simp_all
  then show "year_start (year_of_day n) \<le> n" "n < year_start (year_of_day n + 1)"
    by (auto simp: year_of_day_def Let_def add.commute)
qed

lemma year_of_day_unique: "year_start y \<le> n \<Longrightarrow> n < year_start (y + 1) \<Longrightarrow> year_of_day n = y"
  using year_of_day [of n] year_start_mono [of y "year_of_day n"] year_start_mono [of "year_of_day n" y] by linarith

lemma month_starts:
  "month_start lp 1 = 0" "month_start lp 2 = 31" "month_start lp 3 = (if lp then 60 else 59)" "month_start lp 4 = (if lp then 91 else 90)"
  "month_start lp 5 = (if lp then 121 else 120)" "month_start lp 6 = (if lp then 152 else 151)" "month_start lp 7 = (if lp then 182 else 181)"
  "month_start lp 8 = (if lp then 213 else 212)" "month_start lp 9 = (if lp then 244 else 243)" "month_start lp 10 = (if lp then 274 else 273)"
  "month_start lp 11 = (if lp then 305 else 304)" "month_start lp 12 = (if lp then 335 else 334)" "month_start lp 13 = (if lp then 366 else 365)"
  by (simp_all add: month_start_def)

lemma month_cases:
  assumes "1 \<le> m" "m \<le> (12 :: int)"
  obtains "m = 1" | "m = 2" | "m = 3" | "m = 4" | "m = 5" | "m = 6" | "m = 7" | "m = 8" | "m = 9" | "m = 10" | "m = 11" | "m = 12"
proof -
  have "m = 1 \<or> m = 2 \<or> m = 3 \<or> m = 4 \<or> m = 5 \<or> m = 6 \<or> m = 7 \<or> m = 8 \<or> m = 9 \<or> m = 10 \<or> m = 11 \<or> m = 12"
    using assms by presburger
  then show thesis using that by blast
qed

lemma month_from_range:
  assumes "0 \<le> yd" "yd < month_start lp 13" "m = month_from lp yd [1, 2, 3, 4, 5, 6, 7, 8, 9, 10, 11]"
  shows "1 \<le> m \<and> m \<le> 12 \<and> month_start lp m \<le> yd \<and> yd < month_start lp (m + 1)"
  using assms by (auto simp: month_starts split: if_splits)

lemma month_from_unique:
  assumes "1 \<le> m" "m \<le> 12" "month_start lp m \<le> yd" "yd < month_start lp (m + 1)"
  shows "month_from lp yd [1, 2, 3, 4, 5, 6, 7, 8, 9, 10, 11] = m"
  using assms(1,2) by (cases rule: month_cases) (use assms(3,4) in \<open>auto simp: month_starts split: if_splits\<close>)

lemma month_start_mono: "1 \<le> m \<Longrightarrow> m < n \<Longrightarrow> n \<le> 13 \<Longrightarrow> month_start lp (m + 1) \<le> month_start lp n"
proof -
  assume a: "1 \<le> m" "m < n" "n \<le> 13"
  have step: "month_start lp k \<le> month_start lp (k + 1)" if "1 \<le> k" "k \<le> 12" for k
    using that by (cases rule: month_cases) (simp_all add: month_starts)
  have "month_start lp (m + 1) \<le> month_start lp (m + 1 + int j)" if "m + 1 + int j \<le> 13" for j
    using that
  proof (induction j)
    case (Suc j)
    then show ?case using step [of "m + 1 + int j"] a(1) by (simp add: add.assoc add.commute)
  qed simp
  from this [of "nat (n - m - 1)"] show ?thesis using a by simp
qed

section \<open>Round trips\<close>

lemma civil_of_day_valid: "valid_civil (civil_of_day n)" and day_of_civil_of_day: "day_of_civil (civil_of_day n) = n"
proof -
  let ?y = "year_of_day n"
  have "0 \<le> n - year_start ?y" "n - year_start ?y < month_start (leap ?y) 13"
    using year_of_day [of n] year_step [of ?y] by (simp_all add: month_starts split: if_splits)
  note r = month_from_range [OF this refl]
  then show "valid_civil (civil_of_day n)" "day_of_civil (civil_of_day n) = n"
    by (simp_all add: civil_of_day_def day_of_civil_def valid_civil_def Let_def del: month_from.simps)
qed

lemma day_of_civil_bounds:
  assumes "valid_civil (y, m, d)"
  shows "year_start y \<le> day_of_civil (y, m, d)" "day_of_civil (y, m, d) < year_start (y + 1)"
    "month_start (leap y) m \<le> day_of_civil (y, m, d) - year_start y"
    "day_of_civil (y, m, d) - year_start y < month_start (leap y) (m + 1)"
proof -
  have v: "1 \<le> m" "m \<le> 12" "1 \<le> d" "month_start (leap y) m + d \<le> month_start (leap y) (m + 1)"
    using assms by (simp_all add: valid_civil_def)
  show mid: "month_start (leap y) m \<le> day_of_civil (y, m, d) - year_start y"
    "day_of_civil (y, m, d) - year_start y < month_start (leap y) (m + 1)"
    using v by (simp_all add: day_of_civil_def)
  have "0 \<le> month_start (leap y) m" using v(1,2) by (cases rule: month_cases) (simp_all add: month_starts)
  moreover have "month_start (leap y) (m + 1) \<le> month_start (leap y) 13" using month_start_mono [of m 13 "leap y"] v by simp
  ultimately show "year_start y \<le> day_of_civil (y, m, d)" "day_of_civil (y, m, d) < year_start (y + 1)"
    using mid year_step [of y] by (simp_all add: month_starts split: if_splits)
qed

lemma civil_of_day_of_civil: "valid_civil c \<Longrightarrow> civil_of_day (day_of_civil c) = c"
proof -
  assume v: "valid_civil c"
  obtain y m d where c: "c = (y, m, d)" by (metis prod.collapse)
  note b = day_of_civil_bounds [OF v [unfolded c]]
  have "year_of_day (day_of_civil c) = y" using year_of_day_unique b(1,2) c by simp
  moreover have "month_from (leap y) (day_of_civil c - year_start y) [1, 2, 3, 4, 5, 6, 7, 8, 9, 10, 11] = m"
    using month_from_unique b(3,4) v c by (simp add: valid_civil_def del: month_from.simps)
  ultimately show ?thesis by (simp add: civil_of_day_def Let_def c day_of_civil_def del: month_from.simps)
qed

text \<open>Dates compare like their days.\<close>

definition civil_less :: "civil \<Rightarrow> civil \<Rightarrow> bool" where
  "civil_less = (\<lambda>(y, m, d) (y', m', d'). y < y' \<or> y = y' \<and> (m < m' \<or> m = m' \<and> d < d'))"

lemma civil_less_days:
  assumes "valid_civil c" "valid_civil c'" "civil_less c c'"
  shows "day_of_civil c < day_of_civil c'"
proof -
  obtain y m d y' m' d' where c: "c = (y, m, d)" "c' = (y', m', d')" by (metis prod.collapse)
  note b = day_of_civil_bounds [OF assms(1) [unfolded c(1)]] and b' = day_of_civil_bounds [OF assms(2) [unfolded c(2)]]
  consider "y < y'" | "y = y'" "m < m'" | "y = y'" "m = m'" "d < d'" using assms(3) by (auto simp: civil_less_def c)
  then show ?thesis
  proof cases
    case 1
    then show ?thesis using b(2) b'(1) year_start_mono [of y y'] c by simp
  next
    case 2
    then have "month_start (leap y) (m + 1) \<le> month_start (leap y) m'"
      using month_start_mono [of m m' "leap y"] assms(1,2) c by (simp add: valid_civil_def)
    then show ?thesis using b(4) b'(3) 2 c by simp
  next
    case 3
    then show ?thesis by (simp add: day_of_civil_def c)
  qed
qed

lemma civil_less_iff: "civil_less (civil_of_day a) (civil_of_day b) \<longleftrightarrow> a < b"
proof
  assume "civil_less (civil_of_day a) (civil_of_day b)"
  from civil_less_days [OF civil_of_day_valid civil_of_day_valid this] show "a < b" by (simp add: day_of_civil_of_day)
next
  assume "a < b"
  then have "\<not> civil_less (civil_of_day b) (civil_of_day a)" "civil_of_day a \<noteq> civil_of_day b"
    using civil_less_days [OF civil_of_day_valid civil_of_day_valid, of b a] day_of_civil_of_day by (auto, metis less_irrefl)
  then show "civil_less (civil_of_day a) (civil_of_day b)"
    by (cases "civil_of_day a"; cases "civil_of_day b") (auto simp: civil_less_def)
qed

section \<open>Dates as text\<close>

text \<open>A number with leading zeros, for numbers that fit the width.\<close>

primrec pad_digits :: "nat \<Rightarrow> nat \<Rightarrow> string" where
  "pad_digits 0 n = []"
| "pad_digits (Suc w) n = pad_digits w (n div 10) @ [digit_char (n mod 10)]"

text \<open>The layout \<open>2006-01-02\<close>, for the years 0 to 9999.\<close>

definition date_text :: "int \<Rightarrow> string" where
  "date_text day = (case civil_of_day day of
     (y, m, d) \<Rightarrow> pad_digits 4 (nat y) @ ''-'' @ pad_digits 2 (nat m) @ ''-'' @ pad_digits 2 (nat d))"

text \<open>The layout \<open>20060102_150405\<close> in UTC.\<close>

definition stamp_text :: "time \<Rightarrow> string" where
  "stamp_text t =
     (case civil_of_day (unix t div 86400) of
        (y, m, d) \<Rightarrow> let s = unix t mod 86400
          in pad_digits 4 (nat y) @ pad_digits 2 (nat m) @ pad_digits 2 (nat d) @ ''_'' @
             pad_digits 2 (nat (s div 3600)) @ pad_digits 2 (nat (s div 60 mod 60)) @ pad_digits 2 (nat (s mod 60)))"

definition number_at :: "nat \<Rightarrow> nat \<Rightarrow> string \<Rightarrow> int" where
  "number_at i w s = int (read_nat (take w (drop i s)))"

definition parse_stamp :: "string \<Rightarrow> time option" where
  "parse_stamp s =
     (let c = (number_at 0 4 s, number_at 4 2 s, number_at 6 2 s);
          h = number_at 9 2 s; mi = number_at 11 2 s; se = number_at 13 2 s
      in if length s = 15 \<and> list_all is_digit (take 8 s) \<and> s ! 8 = CHR ''_'' \<and> list_all is_digit (drop 9 s) \<and>
            valid_civil c \<and> h < 24 \<and> mi < 60 \<and> se < 60
         then Some (from_unix (day_of_civil c * 86400 + h * 3600 + mi * 60 + se)) else None)"

lemma length_pad_digits [simp]: "length (pad_digits w n) = w"
  by (induction w arbitrary: n) simp_all

lemma read_pad_digits: "n < 10 ^ w \<Longrightarrow> read_nat (pad_digits w n) = n"
proof (induction w arbitrary: n)
  case (Suc w)
  then have "n div 10 < 10 ^ w" by simp
  then show ?case using Suc.IH by (simp add: read_nat_def)
qed (simp add: read_nat_def)

lemma digits_pad_digits: "list_all is_digit (pad_digits w n)"
  by (induction w arbitrary: n) simp_all

lemma digit_char_less: "a < 10 \<Longrightarrow> b < 10 \<Longrightarrow> digit_char a < digit_char b \<longleftrightarrow> a < b"
  by (simp add: digit_char_def less_char_def)

lemma text_less_append:
  fixes xs :: string
  assumes "length xs = length ys"
  shows "xs @ us < ys @ vs \<longleftrightarrow> xs < ys \<or> xs = ys \<and> us < vs"
  using assms by (induction xs ys rule: list_induct2) auto

lemma pad_digits_less:
  "a < 10 ^ w \<Longrightarrow> b < 10 ^ w \<Longrightarrow> pad_digits w a < pad_digits w b \<longleftrightarrow> a < b"
proof (induction w arbitrary: a b)
  case (Suc w)
  have bounds: "a div 10 < 10 ^ w" "b div 10 < 10 ^ w" using Suc.prems by simp_all
  have eq: "pad_digits w (a div 10) = pad_digits w (b div 10) \<longleftrightarrow> a div 10 = b div 10"
    using read_pad_digits [OF bounds(1)] read_pad_digits [OF bounds(2)] by metis
  have "pad_digits (Suc w) a < pad_digits (Suc w) b \<longleftrightarrow> a div 10 < b div 10 \<or> a div 10 = b div 10 \<and> a mod 10 < b mod 10"
    by (simp add: text_less_append Suc.IH [OF bounds] eq digit_char_less)
  moreover have "p < q \<or> p = q \<and> r < s \<longleftrightarrow> 10 * p + r < 10 * q + s" if "r < 10" "s < 10" for p q r s :: nat
    using that by (cases p q rule: linorder_cases) auto
  note this [of "a mod 10" "b mod 10" "a div 10" "b div 10"]
  ultimately show ?case by simp
qed simp

lemma pad_digits_eq: "a < 10 ^ w \<Longrightarrow> b < 10 ^ w \<Longrightarrow> pad_digits w a = pad_digits w b \<longleftrightarrow> a = b"
  using read_pad_digits [of a w] read_pad_digits [of b w] by metis

lemma civil_fields:
  assumes "civil_of_day n = (y, m, d)"
  shows "1 \<le> m" "m \<le> 12" "1 \<le> d" "d \<le> 31" "y = year_of_day n" "valid_civil (y, m, d)" "day_of_civil (y, m, d) = n"
proof -
  have v: "valid_civil (y, m, d)" using civil_of_day_valid [of n] assms by simp
  then show "1 \<le> m" "m \<le> 12" "1 \<le> d" "valid_civil (y, m, d)" by (simp_all add: valid_civil_def)
  show "d \<le> 31" using \<open>1 \<le> m\<close> \<open>m \<le> 12\<close>
    by (cases rule: month_cases) (use v in \<open>simp_all add: valid_civil_def month_starts split: if_splits\<close>)
  show "y = year_of_day n" using assms by (simp add: civil_of_day_def Let_def del: month_from.simps)
  show "day_of_civil (y, m, d) = n" using day_of_civil_of_day [of n] assms by simp
qed

text \<open>The days whose year has at most four digits.\<close>

definition four_digit_day :: "int \<Rightarrow> bool" where
  "four_digit_day n \<longleftrightarrow> 0 \<le> year_of_day n \<and> year_of_day n < 10000"

theorem date_text_less:
  assumes "four_digit_day a" "four_digit_day b"
  shows "date_text a < date_text b \<longleftrightarrow> a < b"
proof -
  obtain y m d y' m' d' where c: "civil_of_day a = (y, m, d)" "civil_of_day b = (y', m', d')" by (metis prod.collapse)
  note f = civil_fields [OF c(1)] and f' = civil_fields [OF c(2)]
  have y: "nat y < 10 ^ 4" "nat y' < 10 ^ 4" "0 \<le> y" "0 \<le> y'" using assms f(5) f'(5) by (simp_all add: four_digit_day_def nat_less_iff)
  have md: "nat m < 10 ^ 2" "nat m' < 10 ^ 2" "nat d < 10 ^ 2" "nat d' < 10 ^ 2" using f f' by simp_all
  have "date_text a < date_text b \<longleftrightarrow> nat y < nat y' \<or> nat y = nat y' \<and> (nat m < nat m' \<or> nat m = nat m' \<and> nat d < nat d')"
    by (simp add: date_text_def c text_less_append pad_digits_less [OF y(1,2)] pad_digits_eq [OF y(1,2)]
        pad_digits_less [OF md(1,2)] pad_digits_eq [OF md(1,2)] pad_digits_less [OF md(3,4)] del: pad_digits.simps)
  also have "\<dots> \<longleftrightarrow> civil_less (civil_of_day a) (civil_of_day b)" using y f f' by (auto simp: c civil_less_def)
  also have "\<dots> \<longleftrightarrow> a < b" by (rule civil_less_iff)
  finally show ?thesis .
qed

lemma number_at_0: "n < 10 ^ w \<Longrightarrow> number_at 0 w (pad_digits w n @ s) = int n"
  by (simp add: number_at_def read_pad_digits)

lemma number_at_skip: "length p = k \<Longrightarrow> number_at (k + i) w (p @ s) = number_at i w s"
  by (simp add: number_at_def)

theorem parse_stamp_text:
  assumes "four_digit_day (unix t div 86400)"
  shows "parse_stamp (stamp_text t) = Some (from_unix (unix t))"
proof -
  obtain y m d where c: "civil_of_day (unix t div 86400) = (y, m, d)" by (metis prod.collapse)
  note f = civil_fields [OF c]
  define s where "s = unix t mod 86400"
  have s: "0 \<le> s" "s < 86400" by (simp_all add: s_def)
  have hms: "0 \<le> s div 3600" "s div 3600 < 24" "0 \<le> s div 60 mod 60" "s div 60 mod 60 < 60" "0 \<le> s mod 60" "s mod 60 < 60"
    using s by simp_all
  have b: "nat y < 10 ^ 4" "0 \<le> y" using assms f(5) by (simp_all add: four_digit_day_def nat_less_iff)
  define h where "h = nat (s div 3600)"
  define mi where "mi = nat (s div 60 mod 60)"
  define se where "se = nat (s mod 60)"
  have small: "nat m < 10 ^ 2" "nat d < 10 ^ 2" "h < 10 ^ 2" "mi < 10 ^ 2" "se < 10 ^ 2"
    using f hms by (simp_all add: h_def mi_def se_def)
  have shape: "stamp_text t = pad_digits 4 (nat y) @ pad_digits 2 (nat m) @ pad_digits 2 (nat d) @ ''_'' @
      pad_digits 2 h @ pad_digits 2 mi @ pad_digits 2 se"
    by (simp add: stamp_text_def c Let_def h_def mi_def se_def s_def del: pad_digits.simps)
  have n: "number_at 0 4 (stamp_text t) = y" "number_at 4 2 (stamp_text t) = m" "number_at 6 2 (stamp_text t) = d"
    "number_at 9 2 (stamp_text t) = int h" "number_at 11 2 (stamp_text t) = int mi" "number_at 13 2 (stamp_text t) = int se"
    unfolding shape using b small f
    by (simp_all add: number_at_def read_pad_digits del: pad_digits.simps)
  have secs: "s div 3600 * 3600 + s div 60 mod 60 * 60 + s mod 60 = s"
  proof -
    have "s div 3600 = s div 60 div 60" using zdiv_zmult2_eq [of 60 s 60] by simp
    moreover have "s div 60 div 60 * 60 + s div 60 mod 60 = s div 60" "s div 60 * 60 + s mod 60 = s" by (rule div_mult_mod_eq)+
    ultimately show ?thesis by linarith
  qed
  have "unix t div 86400 * 86400 + s = unix t" by (simp add: s_def)
  moreover have hms_int: "int h = s div 3600" "int mi = s div 60 mod 60" "int se = s mod 60"
    using hms by (simp_all only: h_def mi_def se_def int_nat_eq if_True)
  ultimately have "day_of_civil (y, m, d) * 86400 + int h * 3600 + int mi * 60 + int se = unix t"
    unfolding f(7) hms_int using secs by linarith
  moreover have "length (stamp_text t) = 15" "list_all is_digit (take 8 (stamp_text t))" "stamp_text t ! 8 = CHR ''_''"
    "list_all is_digit (drop 9 (stamp_text t))"
    unfolding shape using digits_pad_digits by (simp_all add: nth_append del: pad_digits.simps)
  moreover have "int h < 24" "int mi < 60" "int se < 60" unfolding hms_int using hms by simp_all
  ultimately show ?thesis using f(6) by (simp add: parse_stamp_def n Let_def)
qed

section \<open>Adding months\<close>

text \<open>\<open>Time.AddDate(0, n, 0)\<close>: the month moves, the day of the month stays, and a day the month does not
  have runs over into the next one.\<close>

definition add_months :: "location \<Rightarrow> time \<Rightarrow> int \<Rightarrow> time" where
  "add_months loc t n =
     (case civil_of_day (local_day loc t) of
        (y, m, d) \<Rightarrow> let k = m - 1 + n
          in go_date loc (day_of_civil (y + k div 12, k mod 12 + 1, 1) + d - 1) (local_secs loc t mod 86400) (t mod 1000000000))"

end
