(* ===== verification/Nas_Backup.thy ===== *)
theory Nas_Backup
  imports Go_Date Api_Keys
begin

text \<open>
  Copies of the database to a NAS: \<open>internal/store/nas_backup.go\<close> and the schedule and the runs of
  \<open>internal/service/nas_backup.go\<close>. The instants the code stores as RFC 3339
  text are instants here, \<open>None\<close> for the empty text; a scheduled attempt is stored to the second. The
  lock, the scheduler, the manual start, restarts of the service and changes of the settings are
  steps of \<open>nas_step\<close>; what an upload does on the NAS stands in \<open>Nas_Remote\<close>.
\<close>

section \<open>The configuration row\<close>

record nas_config =
  nc_Enabled :: bool
  nc_Host :: string
  nc_Port :: int
  nc_Username :: string
  nc_Password :: string
  nc_Directory :: string
  nc_SendTime :: string
  nc_LastScheduledAttempt :: "time option"
  nc_LastAttempt :: "time option"
  nc_LastSuccess :: "time option"
  nc_LastError :: string

text \<open>\<open>INSERT INTO nas_backup_config (id) VALUES (1)\<close>\<close>

definition default_nas_config :: nas_config where
  "default_nas_config = \<lparr>nc_Enabled = False, nc_Host = [], nc_Port = 22, nc_Username = [], nc_Password = [],
     nc_Directory = [], nc_SendTime = ''03:00'', nc_LastScheduledAttempt = None, nc_LastAttempt = None,
     nc_LastSuccess = None, nc_LastError = []\<rparr>"

definition GetNASBackupConfig :: "secret_box option \<Rightarrow> nas_config \<Rightarrow> sql_error + nas_config" where
  "GetNASBackupConfig secrets row =
     (if nc_Password row = [] then Inr row
      else case secrets of
        None \<Rightarrow> Inl (Refused ''NAS credentials require DATA_ENCRYPTION_KEY'')
      | Some b \<Rightarrow> (case Decrypt b (nc_Password row) of
          None \<Rightarrow> Inl (Refused ''decrypt'')
        | Some p \<Rightarrow> Inr (row\<lparr>nc_Password := p\<rparr>)))"

definition SaveNASBackupConfig :: "secret_box option \<Rightarrow> string \<Rightarrow> nas_config \<Rightarrow> nas_config \<Rightarrow> sql_error + nas_config" where
  "SaveNASBackupConfig secrets nonce c row =
     bind_err
       (if nc_Password c = [] then Inr []
        else case secrets of
          None \<Rightarrow> Inl (Refused ''NAS credentials require DATA_ENCRYPTION_KEY'')
        | Some b \<Rightarrow> Inr (Encrypt b nonce (nc_Password c)))
       (\<lambda>password. Inr (row\<lparr>nc_Enabled := nc_Enabled c, nc_Host := nc_Host c, nc_Port := nc_Port c,
          nc_Username := nc_Username c, nc_Password := password, nc_Directory := nc_Directory c, nc_SendTime := nc_SendTime c\<rparr>))"

definition msg_copying :: string where
  "msg_copying =
     ''Copia en curso; si el servicio se reinicia, se retomar'' @ [CHR 0xC3, CHR 0xA1] @ '' al d'' @ [CHR 0xC3, CHR 0xAD] @
     ''a siguiente''"

definition claimNASBackup :: "time option \<Rightarrow> time \<Rightarrow> bool \<Rightarrow> nas_config \<Rightarrow> bool \<times> nas_config" where
  "claimNASBackup previous attempt manual row =
     (if (nc_Enabled row \<or> manual) \<and> nc_LastAttempt row = previous
      then (True, row\<lparr>nc_LastAttempt := Some attempt,
        nc_LastScheduledAttempt := (if manual then nc_LastScheduledAttempt row else Some attempt), nc_LastError := msg_copying\<rparr>)
      else (False, row))"

definition ClaimNASBackup :: "time option \<Rightarrow> time \<Rightarrow> nas_config \<Rightarrow> bool \<times> nas_config" where
  "ClaimNASBackup previous attempt row = claimNASBackup previous attempt False row"

definition ClaimManualNASBackup :: "time option \<Rightarrow> time \<Rightarrow> nas_config \<Rightarrow> bool \<times> nas_config" where
  "ClaimManualNASBackup previous attempt row = claimNASBackup previous attempt True row"

definition FinishNASBackupResult :: "time \<Rightarrow> bool \<Rightarrow> string \<Rightarrow> nas_config \<Rightarrow> nas_config" where
  "FinishNASBackupResult attempt completed message row =
     (if nc_LastAttempt row = Some attempt
      then row\<lparr>nc_LastError := message, nc_LastSuccess := (if completed then Some attempt else nc_LastSuccess row)\<rparr>
      else row)"

definition FinishNASBackup :: "time \<Rightarrow> string \<Rightarrow> nas_config \<Rightarrow> nas_config" where
  "FinishNASBackup attempt failure row = FinishNASBackupResult attempt (failure = []) failure row"

section \<open>Validation and the schedule\<close>

definition contains_any :: "string \<Rightarrow> string \<Rightarrow> bool" where
  "contains_any s chars = list_ex (\<lambda>c. c \<in> set chars) s"

definition msg_credentials :: string where
  "msg_credentials =
     ''indica servidor, puerto v'' @ [CHR 0xC3, CHR 0xA1] @ ''lido, usuario y contrase'' @ [CHR 0xC3, CHR 0xB1] @ ''a SFTP''"

definition msg_hour :: string where
  "msg_hour = ''indica una hora v'' @ [CHR 0xC3, CHR 0xA1] @ ''lida HH:MM''"

definition ValidateNASBackupConfig :: "nas_config \<Rightarrow> string option" where
  "ValidateNASBackupConfig c =
     (if nc_Host c = [] \<or> contains_any (nc_Host c) [CHR '' '', CHR ''/'', CHR 0x5C, CHR 0x0D, CHR 0x0A, CHR 0x09] \<or>
         nc_Port c < 1 \<or> nc_Port c > 65535 \<or> nc_Username c = [] \<or> nc_Password c = []
      then Some msg_credentials
      else if \<not> has_prefix (nc_Directory c) ''/'' \<or> contains_any (nc_Directory c) [CHR 0x00, CHR 0x0D, CHR 0x0A]
      then Some ''indica una carpeta remota absoluta, por ejemplo /backups/probakgo''
      else if parse_clock (nc_SendTime c) = None then Some msg_hour
      else None)"

definition nasBackupDue :: "location \<Rightarrow> nas_config \<Rightarrow> time \<Rightarrow> bool" where
  "nasBackupDue loc c now =
     (if \<not> nc_Enabled c then False
      else case parse_clock (nc_SendTime c) of
        None \<Rightarrow> False
      | Some (h, m) \<Rightarrow>
          let due = go_date loc (local_day loc now) (h * 3600 + m * 60) 0
          in \<not> t_before now due \<and>
             (case nc_LastScheduledAttempt c of
                None \<Rightarrow> True
              | Some prev \<Rightarrow> date_text (local_day loc prev) < date_text (local_day loc now)))"

section \<open>Runs\<close>

text \<open>The copy in progress, if any: the configuration it read and, from the claim on, its attempt.\<close>

datatype nas_phase = Idle | Loaded nas_config time bool | Copying nas_config time bool

record nas_world =
  nw_row :: nas_config
  nw_phase :: nas_phase

text \<open>\<open>runNASBackup\<close> up to the claim, and \<open>StartManualNASBackup\<close> likewise.\<close>

definition load_scheduled :: "location \<Rightarrow> secret_box option \<Rightarrow> time \<Rightarrow> nas_world \<Rightarrow> nas_world" where
  "load_scheduled loc secrets now w =
     (if nw_phase w \<noteq> Idle then w
      else case GetNASBackupConfig secrets (nw_row w) of
        Inl _ \<Rightarrow> w
      | Inr c \<Rightarrow> if nasBackupDue loc c now then w\<lparr>nw_phase := Loaded c now False\<rparr> else w)"

definition load_manual :: "secret_box option \<Rightarrow> time \<Rightarrow> nas_world \<Rightarrow> nas_world" where
  "load_manual secrets now w =
     (if nw_phase w \<noteq> Idle then w
      else case GetNASBackupConfig secrets (nw_row w) of
        Inl _ \<Rightarrow> w
      | Inr c \<Rightarrow> if ValidateNASBackupConfig c = None then w\<lparr>nw_phase := Loaded c now True\<rparr> else w)"

text \<open>\<open>now.Format(time.RFC3339)\<close> keeps the seconds, \<open>time.RFC3339Nano\<close> the instant.\<close>

definition attempt_of :: "time \<Rightarrow> bool \<Rightarrow> time" where
  "attempt_of now manual = (if manual then now else from_unix (unix now))"

text \<open>The claim; a copy that is claimed starts.\<close>

fun claim_run :: "nas_world \<Rightarrow> (time \<times> bool) list \<times> nas_world" where
  "claim_run w =
     (case nw_phase w of
        Loaded c now manual \<Rightarrow>
          let attempt = attempt_of now manual
          in (case (if manual then ClaimManualNASBackup else ClaimNASBackup) (nc_LastAttempt c) attempt (nw_row w) of
                (True, row) \<Rightarrow> ([(attempt, manual)], w\<lparr>nw_row := row, nw_phase := Copying c attempt manual\<rparr>)
              | (False, _) \<Rightarrow> ([], w\<lparr>nw_phase := Idle\<rparr>))
      | _ \<Rightarrow> ([], w))"

text \<open>What the upload came to: done, done but old copies remain, or failed.\<close>

datatype upload_result = Uploaded | NotPruned | UploadFailed string

definition msg_retention :: string where
  "msg_retention =
     ''Copia completada, pero no se pudieron eliminar todas las copias de m'' @ [CHR 0xC3, CHR 0xA1] @ ''s de 7 d'' @ [CHR 0xC3, CHR 0xAD] @
     ''as. Revisa los permisos del NAS.''"

definition performNASBackup :: "upload_result \<Rightarrow> nas_world \<Rightarrow> nas_world" where
  "performNASBackup res w =
     (case nw_phase w of
        Copying c attempt manual \<Rightarrow>
          (case res of
             Uploaded \<Rightarrow> w\<lparr>nw_row := FinishNASBackupResult attempt True [] (nw_row w), nw_phase := Idle\<rparr>
           | NotPruned \<Rightarrow> w\<lparr>nw_row := FinishNASBackupResult attempt True msg_retention (nw_row w), nw_phase := Idle\<rparr>
           | UploadFailed e \<Rightarrow> w\<lparr>nw_row := FinishNASBackupResult attempt False e (nw_row w), nw_phase := Idle\<rparr>)
      | _ \<Rightarrow> w)"

inductive nas_step :: "location \<Rightarrow> secret_box option \<Rightarrow> nas_world \<Rightarrow> (time \<times> bool) list \<Rightarrow> nas_world \<Rightarrow> bool"
  for loc secrets where
  Tick: "nas_step loc secrets w [] (load_scheduled loc secrets now w)"
| Manual: "nas_step loc secrets w [] (load_manual secrets now w)"
| Claim: "nas_step loc secrets w (fst (claim_run w)) (snd (claim_run w))"
| Finish: "nas_step loc secrets w [] (performNASBackup res w)"
| Restart: "nas_step loc secrets w [] (w\<lparr>nw_phase := Idle\<rparr>)"
| Save: "SaveNASBackupConfig secrets nonce c (nw_row w) = Inr row \<Longrightarrow> nas_step loc secrets w [] (w\<lparr>nw_row := row\<rparr>)"

inductive nas_run :: "location \<Rightarrow> secret_box option \<Rightarrow> nas_world \<Rightarrow> (time \<times> bool) list \<Rightarrow> nas_world \<Rightarrow> bool"
  for loc secrets w where
  Done: "nas_run loc secrets w [] w"
| Next: "nas_run loc secrets w evs w' \<Longrightarrow> nas_step loc secrets w' es' w'' \<Longrightarrow> nas_run loc secrets w (evs @ es') w''"


definition scheduled_days :: "location \<Rightarrow> (time \<times> bool) list \<Rightarrow> int list" where
  "scheduled_days loc evs = map (\<lambda>e. local_day loc (fst e)) (filter (\<lambda>e. \<not> snd e) evs)"

section \<open>One scheduled copy a day\<close>

text \<open>A run that has read the configuration still sees the last scheduled attempt in the row.\<close>

definition nas_inv :: "location \<Rightarrow> nas_world \<Rightarrow> bool" where
  "nas_inv loc w \<longleftrightarrow> (case nw_phase w of
     Loaded c now manual \<Rightarrow> nc_LastScheduledAttempt c = nc_LastScheduledAttempt (nw_row w) \<and> (\<not> manual \<longrightarrow> nasBackupDue loc c now)
   | _ \<Rightarrow> True)"

lemma got_config: "GetNASBackupConfig secrets row = Inr c \<Longrightarrow> \<exists>p. c = row\<lparr>nc_Password := p\<rparr>"
  by (auto simp: GetNASBackupConfig_def split: if_splits option.splits intro: exI [of _ "nc_Password row"])

lemma saved_config:
  "SaveNASBackupConfig secrets nonce c row = Inr row' \<Longrightarrow>
   nc_LastScheduledAttempt row' = nc_LastScheduledAttempt row \<and> nc_LastAttempt row' = nc_LastAttempt row"
  by (auto simp: SaveNASBackupConfig_def bind_err_Inr)

lemma finished_config [simp]:
  "nc_LastScheduledAttempt (FinishNASBackupResult a ok m row) = nc_LastScheduledAttempt row"
  by (simp add: FinishNASBackupResult_def)

lemma attempt_day: "local_day loc (attempt_of now False) = local_day loc now"
  by (simp add: attempt_of_def local_day_def local_secs_def)

lemma loaded_row [simp]:
  "nw_row (load_scheduled loc secrets now w) = nw_row w" "nw_row (load_manual secrets now w) = nw_row w"
  by (simp_all add: load_scheduled_def load_manual_def split: sum.split)

lemma loaded_inv:
  assumes "nas_inv loc w"
  shows "nas_inv loc (load_scheduled loc secrets now w)" "nas_inv loc (load_manual secrets now w)"
proof -
  show "nas_inv loc (load_scheduled loc secrets now w)"
  proof (cases "GetNASBackupConfig secrets (nw_row w)")
    case (Inr c)
    then show ?thesis using assms got_config [OF Inr] by (auto simp: load_scheduled_def nas_inv_def)
  qed (use assms in \<open>simp add: load_scheduled_def\<close>)
  show "nas_inv loc (load_manual secrets now w)"
  proof (cases "GetNASBackupConfig secrets (nw_row w)")
    case (Inr c)
    then show ?thesis using assms got_config [OF Inr] by (auto simp: load_manual_def nas_inv_def)
  qed (use assms in \<open>simp add: load_manual_def\<close>)
qed

text \<open>What a step does to the last scheduled attempt.\<close>

lemma nas_step_schedule:
  assumes "nas_step loc secrets w evs w'" "nas_inv loc w"
  shows "nas_inv loc w' \<and>
    (filter (\<lambda>e. \<not> snd e) evs = [] \<and> nc_LastScheduledAttempt (nw_row w') = nc_LastScheduledAttempt (nw_row w) \<or>
     (\<exists>t. evs = [(t, False)] \<and> nc_LastScheduledAttempt (nw_row w') = Some t \<and>
        (\<forall>prev. nc_LastScheduledAttempt (nw_row w) = Some prev \<longrightarrow> date_text (local_day loc prev) < date_text (local_day loc t))))"
  using assms(1)
proof (cases rule: nas_step.cases)
  case (Tick now)
  then show ?thesis using loaded_inv(1) [OF assms(2)] by simp
next
  case (Manual now)
  then show ?thesis using loaded_inv(2) [OF assms(2)] by simp
next
  case Claim
  show ?thesis
  proof (cases "nw_phase w")
    case (Loaded c now manual)
    then have inv: "nc_LastScheduledAttempt c = nc_LastScheduledAttempt (nw_row w)" "\<not> manual \<Longrightarrow> nasBackupDue loc c now"
      using assms(2) by (simp_all add: nas_inv_def)
    have due: "date_text (local_day loc prev) < date_text (local_day loc (attempt_of now False))"
      if "\<not> manual" "nc_LastScheduledAttempt (nw_row w) = Some prev" for prev
      using inv that by (auto simp: nasBackupDue_def attempt_day Let_def split: if_splits option.splits prod.splits)
    show ?thesis using Claim Loaded due
      by (cases manual) (auto simp: nas_inv_def ClaimManualNASBackup_def ClaimNASBackup_def claimNASBackup_def Let_def split: if_splits)
  qed (use Claim assms(2) in simp_all)
next
  case (Finish res)
  then show ?thesis using assms(2) by (auto simp: performNASBackup_def nas_inv_def split: nas_phase.splits upload_result.splits)
next
  case Restart
  then show ?thesis by (simp add: nas_inv_def)
next
  case (Save nonce c row)
  then show ?thesis using assms(2) saved_config [OF Save(3)] by (auto simp: nas_inv_def split: nas_phase.splits)
qed

text \<open>C6: the daily copy runs at most once a day, through restarts, changes of the settings, failed and
  manual copies: in any history of the service, the days in the configured zone on which scheduled
  copies start strictly increase, and all lie after the day of the attempt recorded before. Manual
  copies do not count.\<close>

theorem nas_backup_once_a_day:
  assumes "nas_run loc secrets w evs w'" "nw_phase w = Idle" "list_all four_digit_day (scheduled_days loc evs)"
    and "\<And>prev. nc_LastScheduledAttempt (nw_row w) = Some prev \<Longrightarrow> four_digit_day (local_day loc prev)"
  shows "sorted_wrt (<) (case nc_LastScheduledAttempt (nw_row w) of None \<Rightarrow> scheduled_days loc evs
    | Some prev \<Rightarrow> local_day loc prev # scheduled_days loc evs)"
proof -
  define days where "days es = (case nc_LastScheduledAttempt (nw_row w) of None \<Rightarrow> scheduled_days loc es
    | Some prev \<Rightarrow> local_day loc prev # scheduled_days loc es)" for es
  have app: "days (es @ es') = days es @ scheduled_days loc es'" for es es'
    by (simp add: days_def scheduled_days_def split: option.split)
  have "nas_inv loc w' \<and> sorted_wrt (<) (days evs) \<and> list_all four_digit_day (days evs) \<and>
      map_option (local_day loc) (nc_LastScheduledAttempt (nw_row w')) = (if days evs = [] then None else Some (last (days evs)))"
    using assms(1,3)
  proof (induction rule: nas_run.induct)
    case Done
    then show ?case using assms(2,4) by (simp add: nas_inv_def days_def scheduled_days_def split: option.split)
  next
    case (Next evs w' es' w'')
    then have IH: "nas_inv loc w'" "sorted_wrt (<) (days evs)" "list_all four_digit_day (days evs)"
      "map_option (local_day loc) (nc_LastScheduledAttempt (nw_row w')) = (if days evs = [] then None else Some (last (days evs)))"
      by (simp_all add: scheduled_days_def)
    from nas_step_schedule [OF Next(2) IH(1)] consider
      (same) "nas_inv loc w''" "scheduled_days loc es' = []" "nc_LastScheduledAttempt (nw_row w'') = nc_LastScheduledAttempt (nw_row w')"
    | (new) t where "nas_inv loc w''" "es' = [(t, False)]" "nc_LastScheduledAttempt (nw_row w'') = Some t"
        "\<And>prev. nc_LastScheduledAttempt (nw_row w') = Some prev \<Longrightarrow> date_text (local_day loc prev) < date_text (local_day loc t)"
      by (auto simp: scheduled_days_def)
    then show ?case
    proof cases
      case same
      then show ?thesis using IH by (simp add: app)
    next
      case (new t)
      have four: "four_digit_day (local_day loc t)" using Next.prems new(2) by (simp add: scheduled_days_def)
      have less: "x < local_day loc t" if x: "x \<in> set (days evs)" for x
      proof -
        have "days evs \<noteq> []" using x by auto
        then obtain l where l: "nc_LastScheduledAttempt (nw_row w') = Some l" "local_day loc l = last (days evs)"
          using IH(4) by (auto split: if_splits)
        have "four_digit_day (local_day loc l)" using IH(3) l(2) \<open>days evs \<noteq> []\<close> by (simp add: list_all_iff)
        then have "last (days evs) < local_day loc t" using new(4) [OF l(1)] date_text_less [OF _ four] l(2) by simp
        moreover have "x \<le> last (days evs)"
          using IH(2) x by (cases "days evs" rule: rev_cases) (auto simp: sorted_wrt_append)
        ultimately show ?thesis by simp
      qed
      have "days (evs @ es') = days evs @ [local_day loc t]" by (simp add: app new(2) scheduled_days_def)
      then show ?thesis using IH(2,3) new(1,3) four less by (simp add: sorted_wrt_append)
    qed
  qed
  then show ?thesis by (simp add: days_def)
qed

text \<open>A missed copy is caught up: a service that is idle starts the copy of the day at the first look after the
  hour, whenever that is.\<close>

lemma missed_copy_caught_up:
  assumes "nw_phase w = Idle" "GetNASBackupConfig secrets (nw_row w) = Inr c" "nc_Enabled c" "parse_clock (nc_SendTime c) = Some (h, m)"
    and "\<not> t_before now (go_date loc (local_day loc now) (h * 3600 + m * 60) 0)"
    and "\<And>prev. nc_LastScheduledAttempt c = Some prev \<Longrightarrow> date_text (local_day loc prev) < date_text (local_day loc now)"
  shows "fst (claim_run (load_scheduled loc secrets now w)) = [(from_unix (unix now), False)]"
proof -
  have due: "nasBackupDue loc c now" using assms(3-6) by (auto simp: nasBackupDue_def Let_def split: option.split)
  show ?thesis using assms(1-3) due got_config [OF assms(2)]
    by (auto simp: load_scheduled_def ClaimNASBackup_def claimNASBackup_def attempt_of_def Let_def)
qed

text \<open>A service in UTC with the copy at 03:00: due on day 20000 and again on day 20001, once each.\<close>

definition nas_utc :: location where
  "nas_utc = (\<lambda>_. \<lparr>zn_offset = 0, zn_start = 0, zn_end = 0\<rparr>)"

definition nas_start :: nas_world where
  "nas_start = \<lparr>nw_row = default_nas_config\<lparr>nc_Enabled := True\<rparr>, nw_phase = Idle\<rparr>"

definition nas_day :: "int \<Rightarrow> nas_world \<Rightarrow> nas_world" where
  "nas_day d w = load_scheduled nas_utc None (from_unix (d * 86400 + 10860)) w"

definition nas_noon :: "nas_world \<Rightarrow> nas_world" where
  "nas_noon w = load_scheduled nas_utc None (from_unix (20000 * 86400 + 43200)) w"

definition nas_first :: nas_world where
  "nas_first = nas_noon (performNASBackup Uploaded (snd (claim_run (nas_day 20000 nas_start))))"

definition nas_evs :: "(time \<times> bool) list" where
  "nas_evs = fst (claim_run (nas_day 20000 nas_start)) @ fst (claim_run (nas_day 20001 nas_first))"

lemma nas_sample_run: "nas_run nas_utc None nas_start nas_evs (snd (claim_run (nas_day 20001 nas_first)))"
proof -
  have "nas_run nas_utc None nas_start ([] @ []) (nas_day 20000 nas_start)"
    unfolding nas_day_def by (rule nas_run.Next [OF nas_run.Done nas_step.Tick])
  from nas_run.Next [OF this nas_step.Claim]
  have "nas_run nas_utc None nas_start (fst (claim_run (nas_day 20000 nas_start))) (snd (claim_run (nas_day 20000 nas_start)))"
    by simp
  from nas_run.Next [OF nas_run.Next [OF this nas_step.Finish [where res = Uploaded]] nas_step.Tick]
  have "nas_run nas_utc None nas_start (fst (claim_run (nas_day 20000 nas_start))) nas_first"
    unfolding nas_first_def nas_noon_def by simp
  from nas_run.Next [OF nas_run.Next [OF this nas_step.Tick] nas_step.Claim]
  show ?thesis unfolding nas_evs_def nas_day_def by simp
qed

theorem nas_backup_once_a_day_witness:
  "scheduled_days nas_utc nas_evs = [20000, 20001] \<and> sorted_wrt (<) (scheduled_days nas_utc nas_evs)"
proof -
  have days: "scheduled_days nas_utc nas_evs = [20000, 20001]" by code_simp
  have start: "nw_phase nas_start = Idle" "nc_LastScheduledAttempt (nw_row nas_start) = None" by code_simp+
  have four: "list_all four_digit_day (scheduled_days nas_utc nas_evs)" unfolding days by code_simp
  show ?thesis using nas_backup_once_a_day [OF nas_sample_run start(1) four] by (simp add: start(2) days)
qed

end
