(* ===== verification/Nas_Remote.thy ===== *)
theory Nas_Remote
  imports Nas_Backup Alert_PVE Go_Text
begin

text \<open>
  The NAS side of the copies: the upload, the seven days of retention and the write test of
  \<open>internal/service/nas_backup.go\<close>, and the settings form of \<open>internal/web/handlers/nas_backup.go\<close>.
  The SFTP client is a parameter, a record of operations on a remote state of any type, each of which
  may fail; \<open>sftp_laws\<close> is what its documentation promises of them, seen through a function that
  gives the file at a path. The local half of the upload (the snapshot, the archive) is an argument: the bytes
  of the archive or an error.
\<close>

section \<open>Paths\<close>

fun split_slash :: "string \<Rightarrow> string list" where
  "split_slash [] = [[]]"
| "split_slash (c # s) =
     (if c = CHR ''/'' then [] # split_slash s else case split_slash s of p # ps \<Rightarrow> (c # p) # ps | [] \<Rightarrow> [[c]])"

fun clean_parts :: "string list \<Rightarrow> string list \<Rightarrow> string list" where
  "clean_parts stack [] = rev stack"
| "clean_parts stack (p # ps) =
     clean_parts (if p = [] \<or> p = ''.'' then stack else if p = ''..'' then tl stack else p # stack) ps"

definition rooted :: "string list \<Rightarrow> string" where "rooted ps = ''/'' @ join_with ''/'' ps"

text \<open>\<open>path.Join(dir, name)\<close> for an absolute \<open>dir\<close>, the only ones validation lets through.\<close>

definition path_join :: "string \<Rightarrow> string \<Rightarrow> string" where
  "path_join dir name = rooted (clean_parts [] (split_slash (dir @ ''/'' @ name)))"

text \<open>A name of a directory entry.\<close>

definition entry_name :: "string \<Rightarrow> bool" where
  "entry_name nm \<longleftrightarrow> nm \<noteq> [] \<and> nm \<noteq> ''.'' \<and> nm \<noteq> ''..'' \<and> CHR ''/'' \<notin> set nm"

lemma split_slash_ne [simp]: "split_slash s \<noteq> []"
  by (cases s) (simp_all split: list.split)

lemma split_slash_append: "split_slash (a @ CHR ''/'' # b) = split_slash a @ split_slash b"
  by (induction a) (simp_all split: list.split)

lemma split_slash_plain: "CHR ''/'' \<notin> set s \<Longrightarrow> split_slash s = [s]"
  by (induction s) auto

lemma clean_parts_append: "clean_parts st (a @ b) = clean_parts (rev (clean_parts st a)) b"
  by (induction a arbitrary: st) simp_all

lemma path_join_entry: "entry_name nm \<Longrightarrow> path_join dir nm = rooted (clean_parts [] (split_slash dir) @ [nm])"
  by (simp add: path_join_def entry_name_def split_slash_append split_slash_plain clean_parts_append)

lemma join_with_snoc: "join_with sep (xs @ [x]) = (if xs = [] then x else join_with sep xs @ sep @ x)"
  by (induction sep xs rule: join_with.induct) simp_all

lemma path_join_inj: "entry_name a \<Longrightarrow> entry_name b \<Longrightarrow> path_join dir a = path_join dir b \<longleftrightarrow> a = b"
  by (auto simp: path_join_entry rooted_def join_with_snoc split: if_splits)

lemma path_join_suffix:
  assumes "entry_name a" "entry_name (a @ x)"
  shows "path_join dir a @ x = path_join dir (a @ x)"
  using assms by (simp add: path_join_entry rooted_def join_with_snoc)

section \<open>Archive names\<close>

definition hex_lower :: "char \<Rightarrow> bool" where
  "hex_lower c \<longleftrightarrow> is_digit c \<or> c \<in> set ''abcdef''"

text \<open>The expression \<open>^probakgo_(\d{8}_\d{6})_[0-9a-f]{24}\.zip$\<close> and its group.\<close>

definition nasArchiveName :: "string \<Rightarrow> string option" where
  "nasArchiveName s =
     (if length s = 53 \<and> take 9 s = ''probakgo_'' \<and> list_all is_digit (take 8 (drop 9 s)) \<and> s ! 17 = CHR ''_'' \<and>
         list_all is_digit (take 6 (drop 18 s)) \<and> s ! 24 = CHR ''_'' \<and> list_all hex_lower (take 24 (drop 25 s)) \<and>
         drop 49 s = ''.zip''
      then Some (take 15 (drop 9 s)) else None)"

definition archive_name :: "time \<Rightarrow> string \<Rightarrow> string" where
  "archive_name now fid = ''probakgo_'' @ stamp_text now @ ''_'' @ fid @ ''.zip''"

definition file_id :: "string \<Rightarrow> bool" where
  "file_id fid \<longleftrightarrow> length fid = 24 \<and> list_all hex_lower fid"

section \<open>The SFTP client\<close>

record 'fs sftp =
  sf_ReadDir :: "string \<Rightarrow> 'fs \<Rightarrow> (string \<times> bool) list option"
  sf_Create :: "string \<Rightarrow> 'fs \<Rightarrow> bool \<times> 'fs"
  sf_Chmod :: "string \<Rightarrow> nat \<Rightarrow> 'fs \<Rightarrow> bool \<times> 'fs"
  sf_Copy :: "string \<Rightarrow> string \<Rightarrow> 'fs \<Rightarrow> bool \<times> 'fs"
  sf_Close :: "string \<Rightarrow> 'fs \<Rightarrow> bool \<times> 'fs"
  sf_Rename :: "string \<Rightarrow> string \<Rightarrow> 'fs \<Rightarrow> bool \<times> 'fs"
  sf_Remove :: "string \<Rightarrow> 'fs \<Rightarrow> bool \<times> 'fs"

record remote_file =
  rf_regular :: bool
  rf_data :: string

type_synonym 'fs viewer = "'fs \<Rightarrow> string \<Rightarrow> remote_file option"

definition plain_file :: "string \<Rightarrow> remote_file" where
  "plain_file bytes = \<lparr>rf_regular = True, rf_data = bytes\<rparr>"

text \<open>An operation touches only the paths it names. One that fails may still have happened; a file is created only
  where there is none, renaming never replaces a file, and a listing has every entry with its kind.\<close>

definition only_at :: "'fs viewer \<Rightarrow> string set \<Rightarrow> 'fs \<Rightarrow> 'fs \<Rightarrow> bool" where
  "only_at file ps fs fs' \<longleftrightarrow> (\<forall>q. q \<notin> ps \<longrightarrow> file fs' q = file fs q)"

definition create_law :: "'fs sftp \<Rightarrow> 'fs viewer \<Rightarrow> bool" where
  "create_law S file \<longleftrightarrow> (\<forall>p fs ok fs'. sf_Create S p fs = (ok, fs') \<longrightarrow> only_at file {p} fs fs' \<and>
     (file fs p \<noteq> None \<longrightarrow> file fs' p = file fs p) \<and> (ok \<longrightarrow> file fs p = None \<and> file fs' p = Some (plain_file [])))"

definition chmod_law :: "'fs sftp \<Rightarrow> 'fs viewer \<Rightarrow> bool" where
  "chmod_law S file \<longleftrightarrow> (\<forall>p m fs ok fs'. sf_Chmod S p m fs = (ok, fs') \<longrightarrow> only_at file {} fs fs')"

definition copy_law :: "'fs sftp \<Rightarrow> 'fs viewer \<Rightarrow> bool" where
  "copy_law S file \<longleftrightarrow> (\<forall>p b fs ok fs'. sf_Copy S p b fs = (ok, fs') \<longrightarrow> only_at file {p} fs fs' \<and>
     (ok \<and> file fs p = Some (plain_file []) \<longrightarrow> file fs' p = Some (plain_file b)))"

definition close_law :: "'fs sftp \<Rightarrow> 'fs viewer \<Rightarrow> bool" where
  "close_law S file \<longleftrightarrow> (\<forall>p fs ok fs'. sf_Close S p fs = (ok, fs') \<longrightarrow> only_at file {p} fs fs' \<and> (ok \<longrightarrow> file fs' p = file fs p))"

definition rename_law :: "'fs sftp \<Rightarrow> 'fs viewer \<Rightarrow> bool" where
  "rename_law S file \<longleftrightarrow> (\<forall>p p' fs ok fs'. sf_Rename S p p' fs = (ok, fs') \<longrightarrow> only_at file {p, p'} fs fs' \<and>
     (file fs' p = file fs p \<and> file fs' p' = file fs p' \<and> \<not> ok \<or>
      file fs p' = None \<and> file fs' p = None \<and> file fs' p' = file fs p))"

definition remove_law :: "'fs sftp \<Rightarrow> 'fs viewer \<Rightarrow> bool" where
  "remove_law S file \<longleftrightarrow> (\<forall>p fs ok fs'. sf_Remove S p fs = (ok, fs') \<longrightarrow> only_at file {p} fs fs' \<and>
     (file fs' p = file fs p \<and> \<not> ok \<or> file fs' p = None))"

definition readdir_law :: "'fs sftp \<Rightarrow> 'fs viewer \<Rightarrow> bool" where
  "readdir_law S file \<longleftrightarrow> (\<forall>dir fs es nm reg. sf_ReadDir S dir fs = Some es \<longrightarrow>
     ((nm, reg) \<in> set es \<longleftrightarrow> entry_name nm \<and> (\<exists>f. file fs (path_join dir nm) = Some f \<and> rf_regular f = reg)))"

definition sftp_laws :: "'fs sftp \<Rightarrow> 'fs viewer \<Rightarrow> bool" where
  "sftp_laws S file \<longleftrightarrow> create_law S file \<and> chmod_law S file \<and> copy_law S file \<and> close_law S file \<and>
     rename_law S file \<and> remove_law S file \<and> readdir_law S file"

section \<open>Upload and retention\<close>

datatype nas_error = NasError string | NasRetention

definition err_perm :: string where
  "err_perm =
     ''no se pudieron restringir los permisos de la copia en el NAS''"

definition err_create :: string where
  "err_create =
     ''no se pudo crear la copia en la carpeta del NAS''"

definition err_transfer :: string where
  "err_transfer =
     ''transferencia SFTP incompleta''"

definition err_rename :: string where
  "err_rename =
     ''no se pudo finalizar el archivo de copia en el NAS''"

definition err_test_create :: string where
  "err_test_create =
     ''no se puede escribir en la carpeta del NAS; comprueba que existe y sus permisos''"

definition err_test_remove :: string where
  "err_test_remove =
     ''no se pudo cerrar o eliminar el archivo de prueba del NAS''"

definition expired :: "time \<Rightarrow> string \<times> bool \<Rightarrow> bool" where
  "expired now e \<longleftrightarrow>
     snd e \<and> (case nasArchiveName (fst e) of
        None \<Rightarrow> False
      | Some stamp \<Rightarrow> (case parse_stamp stamp of
          None \<Rightarrow> False
        | Some created \<Rightarrow> t_before created (t_add now (- (7 * 24 * hour)))))"

fun prune_loop :: "'fs sftp \<Rightarrow> string \<Rightarrow> time \<Rightarrow> (string \<times> bool) list \<Rightarrow> bool \<Rightarrow> 'fs \<Rightarrow> bool \<times> 'fs" where
  "prune_loop S dir now [] failed fs = (failed, fs)"
| "prune_loop S dir now (e # es) failed fs =
     (if expired now e
      then case sf_Remove S (path_join dir (fst e)) fs of (ok, fs') \<Rightarrow> prune_loop S dir now es (failed \<or> \<not> ok) fs'
      else prune_loop S dir now es failed fs)"

definition pruneNASBackups :: "'fs sftp \<Rightarrow> string \<Rightarrow> time \<Rightarrow> 'fs \<Rightarrow> nas_error option \<times> 'fs" where
  "pruneNASBackups S dir now fs =
     (case sf_ReadDir S dir fs of
        None \<Rightarrow> (Some NasRetention, fs)
      | Some es \<Rightarrow> (case prune_loop S dir now es False fs of
          (failed, fs') \<Rightarrow> (if failed then Some NasRetention else None, fs')))"

text \<open>\<open>conn\<close> is the error of dialling, of the SSH handshake or of starting SFTP, if any.\<close>

definition withNASSFTP ::
  "string option \<Rightarrow> nas_config \<Rightarrow> ('fs \<Rightarrow> nas_error option \<times> 'fs) \<Rightarrow> 'fs \<Rightarrow> nas_error option \<times> 'fs" where
  "withNASSFTP conn c run fs =
     (case ValidateNASBackupConfig c of
        Some e \<Rightarrow> (Some (NasError e), fs)
      | None \<Rightarrow> (case conn of Some e \<Rightarrow> (Some (NasError e), fs) | None \<Rightarrow> run fs))"

definition TestNASBackup :: "'fs sftp \<Rightarrow> string option \<Rightarrow> string + string \<Rightarrow> nas_config \<Rightarrow> 'fs \<Rightarrow> nas_error option \<times> 'fs" where
  "TestNASBackup S conn fid c =
     withNASSFTP conn c (\<lambda>fs.
       case fid of
         Inl e \<Rightarrow> (Some (NasError e), fs)
       | Inr i \<Rightarrow>
           let name = path_join (nc_Directory c) (''.probakgo-test-'' @ i)
           in (case sf_Create S name fs of
                 (False, fs1) \<Rightarrow> (Some (NasError err_test_create), fs1)
               | (True, fs1) \<Rightarrow>
                   (case sf_Close S name fs1 of (shut, fs2) \<Rightarrow>
                    case sf_Remove S name fs2 of (removed, fs3) \<Rightarrow>
                      (if \<not> shut \<or> \<not> removed
                       then Some (NasError err_test_remove) else None, fs3))))"

text \<open>The callback of \<open>uploadNASBackup\<close> up to the rename, then the retention; \<open>tmp\<close> is removed at the end in any case.\<close>

definition upload_to ::
  "'fs sftp \<Rightarrow> string \<Rightarrow> string \<Rightarrow> string \<Rightarrow> string \<Rightarrow> time \<Rightarrow> 'fs \<Rightarrow> nas_error option \<times> 'fs" where
  "upload_to S dir tmp name bytes pruned_at fs1 =
     (case sf_Chmod S tmp 384 fs1 of
        (False, fs2) \<Rightarrow>
          (Some (NasError err_perm), snd (sf_Close S tmp fs2))
      | (True, fs2) \<Rightarrow>
          (case sf_Copy S tmp bytes fs2 of (copied, fs3) \<Rightarrow>
           case sf_Close S tmp fs3 of (shut, fs4) \<Rightarrow>
             if \<not> copied \<or> \<not> shut then (Some (NasError err_transfer), fs4)
             else case sf_Rename S tmp name fs4 of
               (False, fs5) \<Rightarrow> (Some (NasError err_rename), fs5)
             | (True, fs5) \<Rightarrow> pruneNASBackups S dir pruned_at fs5))"

text \<open>\<open>started\<close> is the instant in the name of the archive, \<open>pruned_at\<close> the instant of the retention.\<close>

definition uploadNASBackup ::
  "'fs sftp \<Rightarrow> string option \<Rightarrow> string + string \<Rightarrow> string + string \<Rightarrow> time \<Rightarrow> time \<Rightarrow> nas_config \<Rightarrow> 'fs \<Rightarrow> nas_error option \<times> 'fs" where
  "uploadNASBackup S conn archive fid started pruned_at c fs0 =
     (case archive of
        Inl e \<Rightarrow> (Some (NasError e), fs0)
      | Inr bytes \<Rightarrow> withNASSFTP conn c (\<lambda>fs.
          case fid of
            Inl e \<Rightarrow> (Some (NasError e), fs)
          | Inr i \<Rightarrow>
              let name = path_join (nc_Directory c) (archive_name started i); tmp = name @ ''.partial''
              in (case sf_Create S tmp fs of
                    (False, fs1) \<Rightarrow> (Some (NasError err_create), fs1)
                  | (True, fs1) \<Rightarrow>
                      (case upload_to S (nc_Directory c) tmp name bytes pruned_at fs1 of
                         (res, fs2) \<Rightarrow> (res, snd (sf_Remove S tmp fs2))))) fs0)"

text \<open>What \<open>performNASBackup\<close> records of it.\<close>

fun upload_outcome :: "nas_error option \<Rightarrow> upload_result" where
  "upload_outcome None = Uploaded"
| "upload_outcome (Some NasRetention) = NotPruned"
| "upload_outcome (Some (NasError e)) = UploadFailed e"

section \<open>What the operations promise\<close>

lemma law_create:
  assumes "sftp_laws S file" "sf_Create S p fs = (ok, fs')"
  shows "only_at file {p} fs fs'" "file fs p \<noteq> None \<Longrightarrow> file fs' p = file fs p"
    "ok \<Longrightarrow> file fs p = None" "ok \<Longrightarrow> file fs' p = Some (plain_file [])"
  using assms(1) [unfolded sftp_laws_def create_law_def] assms(2) by blast+

lemma law_chmod:
  assumes "sftp_laws S file" "sf_Chmod S p m fs = (ok, fs')"
  shows "file fs' q = file fs q"
  using assms(1) [unfolded sftp_laws_def chmod_law_def] assms(2) by (simp add: only_at_def)

lemma law_copy:
  assumes "sftp_laws S file" "sf_Copy S p b fs = (ok, fs')"
  shows "only_at file {p} fs fs'" "ok \<Longrightarrow> file fs p = Some (plain_file []) \<Longrightarrow> file fs' p = Some (plain_file b)"
  using assms(1) [unfolded sftp_laws_def copy_law_def] assms(2) by blast+

lemma law_close:
  assumes "sftp_laws S file" "sf_Close S p fs = (ok, fs')"
  shows "only_at file {p} fs fs'" "ok \<Longrightarrow> file fs' p = file fs p"
  using assms(1) [unfolded sftp_laws_def close_law_def] assms(2) by blast+

lemma law_rename:
  assumes "sftp_laws S file" "sf_Rename S p p' fs = (ok, fs')"
  shows "only_at file {p, p'} fs fs'"
    "file fs' p = file fs p \<and> file fs' p' = file fs p' \<and> \<not> ok \<or> file fs p' = None \<and> file fs' p = None \<and> file fs' p' = file fs p"
  using assms(1) [unfolded sftp_laws_def rename_law_def] assms(2) by blast+

lemma law_remove:
  assumes "sftp_laws S file" "sf_Remove S p fs = (ok, fs')"
  shows "only_at file {p} fs fs'" "file fs' p = file fs p \<and> \<not> ok \<or> file fs' p = None"
  using assms(1) [unfolded sftp_laws_def remove_law_def] assms(2) by (blast, metis)

lemma law_readdir:
  assumes "sftp_laws S file" "sf_ReadDir S dir fs = Some es"
  shows "(nm, reg) \<in> set es \<longleftrightarrow> entry_name nm \<and> (\<exists>f. file fs (path_join dir nm) = Some f \<and> rf_regular f = reg)"
  using assms(1) [unfolded sftp_laws_def readdir_law_def] assms(2) by blast

lemma prune_loop_effect:
  assumes laws: "sftp_laws S file" and "prune_loop S dir now es failed fs = (failed', fs')"
  shows "(\<forall>p. file fs' p = file fs p \<or> file fs' p = None \<and> (\<exists>e\<in>set es. expired now e \<and> p = path_join dir (fst e))) \<and>
    (\<not> failed' \<longrightarrow> \<not> failed \<and> (\<forall>e\<in>set es. expired now e \<longrightarrow> file fs' (path_join dir (fst e)) = None))"
  using assms(2)
proof (induction es arbitrary: failed fs)
  case (Cons e es)
  show ?case
  proof (cases "expired now e")
    case True
    obtain ok fs1 where rm: "sf_Remove S (path_join dir (fst e)) fs = (ok, fs1)" by (metis surj_pair)
    then have IH: "\<forall>p. file fs' p = file fs1 p \<or> file fs' p = None \<and> (\<exists>e\<in>set es. expired now e \<and> p = path_join dir (fst e))"
      "\<not> failed' \<longrightarrow> \<not> (failed \<or> \<not> ok) \<and> (\<forall>e\<in>set es. expired now e \<longrightarrow> file fs' (path_join dir (fst e)) = None)"
      using Cons.IH [of "failed \<or> \<not> ok" fs1] Cons.prems True by simp_all
    note rm = law_remove [OF laws rm, unfolded only_at_def]
    have one: "file fs' p = file fs p \<or> file fs' p = None \<and> (\<exists>e'\<in>set (e # es). expired now e' \<and> p = path_join dir (fst e'))" for p
      using IH(1) rm True by (cases "p = path_join dir (fst e)") (metis list.set_intros(1,2) singletonD)+
    have "file fs' (path_join dir (fst e)) = None" if "\<not> failed'"
      using IH rm(2) that by metis
    then show ?thesis using one IH(2) by auto
  next
    case False
    then show ?thesis using Cons by fastforce
  qed
qed simp

lemma prune_effect:
  assumes laws: "sftp_laws S file" and "pruneNASBackups S dir now fs = (res, fs')"
  shows "\<forall>p. file fs' p = file fs p \<or>
      file fs' p = None \<and> (\<exists>nm f. entry_name nm \<and> expired now (nm, True) \<and> p = path_join dir nm \<and> file fs p = Some f \<and> rf_regular f)"
    and "res = None \<or> res = Some NasRetention"
    and "res = None \<Longrightarrow> \<forall>nm f. entry_name nm \<and> expired now (nm, True) \<and> file fs' (path_join dir nm) = Some f \<longrightarrow> \<not> rf_regular f"
proof -
  have reg: "expired now e \<Longrightarrow> snd e" for e by (simp add: expired_def)
  have "(\<forall>p. file fs' p = file fs p \<or>
      file fs' p = None \<and> (\<exists>nm f. entry_name nm \<and> expired now (nm, True) \<and> p = path_join dir nm \<and> file fs p = Some f \<and> rf_regular f)) \<and>
    (res = None \<or> res = Some NasRetention) \<and>
    (res = None \<longrightarrow> (\<forall>nm f. entry_name nm \<and> expired now (nm, True) \<and> file fs' (path_join dir nm) = Some f \<longrightarrow> \<not> rf_regular f))"
  proof (cases "sf_ReadDir S dir fs")
    case None
    then show ?thesis using assms(2) by (auto simp: pruneNASBackups_def)
  next
    case (Some es)
    obtain failed' where loop: "prune_loop S dir now es False fs = (failed', fs')" and res: "res = (if failed' then Some NasRetention else None)"
      using assms(2) Some by (auto simp: pruneNASBackups_def split: prod.splits)
    note eff = prune_loop_effect [OF laws loop]
    have listed: "entry_name nm \<and> (\<exists>f. file fs (path_join dir nm) = Some f \<and> rf_regular f = r) \<longleftrightarrow> (nm, r) \<in> set es" for nm r
      using law_readdir [OF laws Some] by blast
    have "file fs' p = file fs p \<or>
        file fs' p = None \<and> (\<exists>nm f. entry_name nm \<and> expired now (nm, True) \<and> p = path_join dir nm \<and> file fs p = Some f \<and> rf_regular f)" for p
    proof (cases "file fs' p = file fs p")
      case False
      then obtain e where e: "e \<in> set es" "expired now e" "p = path_join dir (fst e)" "file fs' p = None" using eff by blast
      then have "(fst e, True) \<in> set es" using reg [OF e(2)] by (metis prod.collapse)
      moreover have "expired now (fst e, True)" using e(2) reg [OF e(2)] by (metis prod.collapse)
      ultimately show ?thesis using e(3,4) listed [of "fst e" True] by blast
    qed simp
    moreover have "\<not> rf_regular f" if "\<not> failed'" "entry_name nm" "expired now (nm, True)" "file fs' (path_join dir nm) = Some f" for nm f
    proof
      assume "rf_regular f"
      have "file fs (path_join dir nm) = Some f" using eff that(4) by (metis option.discI)
      then have "(nm, True) \<in> set es" using that(2) listed [of nm True] \<open>rf_regular f\<close> by blast
      then show False using eff that by fastforce
    qed
    ultimately show ?thesis using res by auto
  qed
  then show "\<forall>p. file fs' p = file fs p \<or>
      file fs' p = None \<and> (\<exists>nm f. entry_name nm \<and> expired now (nm, True) \<and> p = path_join dir nm \<and> file fs p = Some f \<and> rf_regular f)"
    "res = None \<or> res = Some NasRetention"
    "res = None \<Longrightarrow> \<forall>nm f. entry_name nm \<and> expired now (nm, True) \<and> file fs' (path_join dir nm) = Some f \<longrightarrow> \<not> rf_regular f"
    by blast+
qed

section \<open>Uploads\<close>

lemma stamp_shape: "length (stamp_text t) = 15" "CHR ''/'' \<notin> set (stamp_text t)"
proof -
  have "CHR ''/'' \<notin> set (pad_digits w n)" for w n
    using digits_pad_digits [of w n] by (force simp: list_all_iff is_digit_def)
  then show "length (stamp_text t) = 15" "CHR ''/'' \<notin> set (stamp_text t)"
    by (auto simp: stamp_text_def Let_def split: prod.split simp del: pad_digits.simps)
qed

lemma archive_entry:
  assumes "file_id i"
  shows "entry_name (archive_name t i)" "entry_name (archive_name t i @ ''.partial'')" "length (archive_name t i) = 53"
proof -
  have "CHR ''/'' \<notin> set i" using assms by (force simp: file_id_def hex_lower_def is_digit_def list_all_iff)
  then show "entry_name (archive_name t i)" "entry_name (archive_name t i @ ''.partial'')" "length (archive_name t i) = 53"
    using stamp_shape [of t] assms by (simp_all add: archive_name_def entry_name_def file_id_def)
qed

text \<open>The name of an archive says when it was made.\<close>

lemma archive_name_created:
  assumes "file_id i" "four_digit_day (unix t div 86400)"
  shows "nasArchiveName (archive_name t i) = Some (stamp_text t)"
proof -
  have "length (stamp_text t) = 15" "list_all is_digit (take 8 (stamp_text t))" "stamp_text t ! 8 = CHR ''_''"
    "list_all is_digit (drop 9 (stamp_text t))"
    using parse_stamp_text [OF assms(2)] by (simp_all add: parse_stamp_def Let_def split: if_splits)
  then have st: "stamp_text t = take 8 (stamp_text t) @ CHR ''_'' # drop 9 (stamp_text t)"
    using id_take_nth_drop [of 8 "stamp_text t"] by simp
  obtain a b where ab: "a = take 8 (stamp_text t)" "b = drop 9 (stamp_text t)" by blast
  have st: "stamp_text t = a @ CHR ''_'' # b" "length a = 8" "length b = 6" "list_all is_digit a" "list_all is_digit b"
    using st \<open>length (stamp_text t) = 15\<close> \<open>list_all is_digit (take 8 (stamp_text t))\<close> \<open>list_all is_digit (drop 9 (stamp_text t))\<close>
    by (simp_all add: ab)
  have i: "length i = 24" "list_all hex_lower i" using assms(1) by (simp_all add: file_id_def)
  show ?thesis using st i by (simp add: nasArchiveName_def archive_name_def nth_append)
qed

lemma fresh_not_expired:
  assumes "file_id i" "four_digit_day (unix t div 86400)" "now < t + 24 * hour"
  shows "\<not> expired now (archive_name t i, True)"
proof -
  have "now - 604800000000000 \<le> from_unix (unix t)"
    using assms(3) minus_mod_eq_div_mult [of t 1000000000, symmetric] pos_mod_bound [of 1000000000 t]
    by (simp add: from_unix_def unix_def go_time)
  then show ?thesis
    by (simp add: expired_def archive_name_created [OF assms(1,2)] parse_stamp_text [OF assms(2)] go_time)
qed

lemma upload_to_effect:
  assumes laws: "sftp_laws S file" and ne: "tmp \<noteq> name" and new: "file fs1 tmp = Some (plain_file [])"
    and up: "upload_to S dir tmp name bytes now fs1 = (res, fs2)"
  shows "only_at file {tmp} fs1 fs2 \<and> (\<exists>e. res = Some (NasError e)) \<or>
    (\<exists>fs5. only_at file {tmp, name} fs1 fs5 \<and> file fs1 name = None \<and> file fs5 tmp = None \<and> file fs5 name = Some (plain_file bytes) \<and>
       (fs2 = fs5 \<and> (\<exists>e. res = Some (NasError e)) \<or> pruneNASBackups S dir now fs5 = (res, fs2)))"
proof -
  obtain ok1 fs2' where chmod: "sf_Chmod S tmp 384 fs1 = (ok1, fs2')" by (metis surj_pair)
  note chmod' = law_chmod [OF laws chmod]
  show ?thesis
  proof (cases ok1)
    case False
    obtain ok fs3 where cl: "sf_Close S tmp fs2' = (ok, fs3)" by (metis surj_pair)
    then show ?thesis using up chmod False law_close(1) [OF laws cl] chmod' by (auto simp: upload_to_def only_at_def)
  next
    case True
    obtain copied fs3 where cp: "sf_Copy S tmp bytes fs2' = (copied, fs3)" by (metis surj_pair)
    obtain shut fs4 where cl: "sf_Close S tmp fs3 = (shut, fs4)" by (metis surj_pair)
    have others: "only_at file {tmp} fs1 fs4"
      using law_copy(1) [OF laws cp] law_close(1) [OF laws cl] chmod' by (simp add: only_at_def)
    show ?thesis
    proof (cases "copied \<and> shut")
      case False
      then show ?thesis using up chmod True cp cl others by (auto simp: upload_to_def)
    next
      case ok: True
      have full: "file fs4 tmp = Some (plain_file bytes)"
        using law_copy(2) [OF laws cp] law_close(2) [OF laws cl] ok new chmod' by simp
      obtain moved fs5 where rn: "sf_Rename S tmp name fs4 = (moved, fs5)" by (metis surj_pair)
      have res: "if moved then pruneNASBackups S dir now fs5 = (res, fs2) else fs2 = fs5 \<and> (\<exists>e. res = Some (NasError e))"
        using up chmod True cp cl ok rn by (auto simp: upload_to_def split: if_splits)
      have "only_at file {tmp, name} fs1 fs5" using law_rename(1) [OF laws rn] others by (auto simp: only_at_def)
      moreover have "file fs1 name = file fs4 name" using others ne by (auto simp: only_at_def)
      moreover have "only_at file {tmp} fs1 fs5" if "file fs5 name = file fs4 name"
        using calculation that by (auto simp: only_at_def)
      ultimately show ?thesis using law_rename(2) [OF laws rn] full res by (metis (full_types))
    qed
  qed
qed

lemma upload_stages:
  assumes laws: "sftp_laws S file"
    and up: "uploadNASBackup S conn (Inr bytes) (Inr i) started now c fs = (res, fs')"
    and name: "name = path_join (nc_Directory c) (archive_name started i)" and tmp: "tmp = name @ ''.partial''"
  obtains (failed) "only_at file {tmp} fs fs'" "\<exists>e. res = Some (NasError e)"
  | (renamed) fs5 fs2 where "only_at file {tmp, name} fs fs5" "file fs name = None" "file fs5 tmp = None" "file fs5 name = Some (plain_file bytes)"
      "only_at file {tmp} fs2 fs'" "file fs2 tmp = None \<Longrightarrow> file fs' tmp = None"
      "fs2 = fs5 \<and> (\<exists>e. res = Some (NasError e)) \<or> pruneNASBackups S (nc_Directory c) now fs5 = (res, fs2)"
proof (cases "ValidateNASBackupConfig c = None \<and> conn = None")
  case False
  then have "fs' = fs" "\<exists>e. res = Some (NasError e)" using up by (auto simp: uploadNASBackup_def withNASSFTP_def split: option.splits)
  then show ?thesis using that(1) by (simp add: only_at_def)
next
  case True
  obtain ok fs1 where cr: "sf_Create S tmp fs = (ok, fs1)" by (metis surj_pair)
  obtain res2 fs2 where ut: "upload_to S (nc_Directory c) tmp name bytes now fs1 = (res2, fs2)" by (metis surj_pair)
  obtain rok fs3 where rm: "sf_Remove S tmp fs2 = (rok, fs3)" by (metis surj_pair)
  have out: "if ok then res = res2 \<and> fs' = fs3 else fs' = fs1 \<and> (\<exists>e. res = Some (NasError e))"
    using up True cr ut rm by (auto simp: uploadNASBackup_def withNASSFTP_def Let_def name tmp)
  note cr' = law_create [OF laws cr] and rm' = law_remove [OF laws rm]
  have ne: "tmp \<noteq> name" using tmp by simp
  show ?thesis
  proof (cases ok)
    case False
    then show ?thesis using that(1) out cr'(1) by simp
  next
    case True
    from upload_to_effect [OF laws ne cr'(4) [OF True] ut] show ?thesis
    proof (rule disjE)
      assume "only_at file {tmp} fs1 fs2 \<and> (\<exists>e. res2 = Some (NasError e))"
      then show ?thesis using that(1) out True cr'(1) rm'(1) by (simp add: only_at_def)
    next
      assume "\<exists>fs5. only_at file {tmp, name} fs1 fs5 \<and> file fs1 name = None \<and> file fs5 tmp = None \<and> file fs5 name = Some (plain_file bytes) \<and>
        (fs2 = fs5 \<and> (\<exists>e. res2 = Some (NasError e)) \<or> pruneNASBackups S (nc_Directory c) now fs5 = (res2, fs2))"
      then obtain fs5 where a: "only_at file {tmp, name} fs1 fs5" "file fs1 name = None" "file fs5 tmp = None" "file fs5 name = Some (plain_file bytes)"
        and b: "fs2 = fs5 \<and> (\<exists>e. res2 = Some (NasError e)) \<or> pruneNASBackups S (nc_Directory c) now fs5 = (res2, fs2)"
        by blast
      have "only_at file {tmp, name} fs fs5" "file fs name = None" using a(1,2) cr'(1) ne by (simp_all add: only_at_def)
      moreover have "only_at file {tmp} fs2 fs'" "file fs2 tmp = None \<Longrightarrow> file fs' tmp = None" using out True rm' by auto
      ultimately show ?thesis using that(2) [of fs5 fs2] a(3,4) b out True by simp
    qed
  qed
qed

text \<open>C7: a copy on the NAS is whole or it does not bear the name of a copy. Whatever fails during an upload
  (the connection, any SFTP operation, with or without its effect), every path of the NAS holds what it held before,
  except the temporary file, the complete new archive under a name that was free, and regular files named as
  archives of more than seven days ago, which are gone. When the upload succeeds, or only the retention failed, the whole archive
  stands there and the temporary file does not; when it succeeds, no old archive is left.\<close>

theorem nas_upload_whole:
  assumes laws: "sftp_laws S file" and i: "file_id i"
    and up: "uploadNASBackup S conn (Inr bytes) (Inr i) started pruned_at c fs = (res, fs')"
    and name: "name = path_join (nc_Directory c) (archive_name started i)"
  shows "(\<forall>p. file fs' p = file fs p \<or> p = name @ ''.partial'' \<or>
        p = name \<and> file fs p = None \<and> file fs' p = Some (plain_file bytes) \<or>
        file fs' p = None \<and> (\<exists>nm f. expired pruned_at (nm, True) \<and> p = path_join (nc_Directory c) nm \<and> file fs p = Some f \<and> rf_regular f)) \<and>
    ((res = None \<or> res = Some NasRetention) \<and> four_digit_day (unix started div 86400) \<and> pruned_at < started + 24 * hour \<longrightarrow>
       file fs' name = Some (plain_file bytes) \<and> file fs' (name @ ''.partial'') = None) \<and>
    (res = None \<longrightarrow> (\<forall>nm f. entry_name nm \<and> expired pruned_at (nm, True) \<and> file fs' (path_join (nc_Directory c) nm) = Some f \<longrightarrow> \<not> rf_regular f))"
proof -
  obtain tmp where tmp: "tmp = name @ ''.partial''" by blast
  show ?thesis
  proof (cases rule: upload_stages [OF laws up name tmp, case_names failed renamed])
    case failed
    then show ?thesis by (auto simp: only_at_def tmp)
  next
    case (renamed fs5 fs2)
    show ?thesis using renamed(7)
    proof (elim disjE conjE exE)
      fix e assume e: "fs2 = fs5" "res = Some (NasError e)"
      then have "p = tmp \<or> (p = name \<and> file fs' p = Some (plain_file bytes)) \<or> file fs' p = file fs p" for p
        using renamed(1,4,5) by (auto simp: only_at_def)
      then show ?thesis using e renamed(2) unfolding tmp [symmetric] by auto
    next
      assume "pruneNASBackups S (nc_Directory c) pruned_at fs5 = (res, fs2)"
      note pr = prune_effect [OF laws this]
      have last_tmp: "file fs' tmp = None" using pr(1) renamed(3,6) by metis
      have same: "file fs' p = file fs2 p" if "p \<noteq> tmp" for p using renamed(5) that by (simp add: only_at_def)
      have one: "file fs' p = file fs p \<or> p = tmp \<or> p = name \<and> file fs p = None \<and> file fs' p = Some (plain_file bytes) \<or>
          file fs' p = None \<and> (\<exists>nm f. expired pruned_at (nm, True) \<and> p = path_join (nc_Directory c) nm \<and> file fs p = Some f \<and> rf_regular f)" for p
      proof (cases "p = tmp \<or> p = name")
        case True
        then show ?thesis using pr(1) same renamed(2,4) by metis
      next
        case False
        then have "file fs5 p = file fs p" using renamed(1) by (simp add: only_at_def)
        then show ?thesis using pr(1) same False by metis
      qed
      have whole: "file fs' name = Some (plain_file bytes)" if "four_digit_day (unix started div 86400)" "pruned_at < started + 24 * hour"
      proof -
        have "file fs2 name = file fs5 name"
          using pr(1) fresh_not_expired [OF i that] archive_entry(1) [OF i] path_join_inj name by metis
        then show ?thesis using same [of name] renamed(4) by (simp add: tmp)
      qed
      have "\<not> rf_regular f" if "res = None" "entry_name nm" "expired pruned_at (nm, True)" "file fs' (path_join (nc_Directory c) nm) = Some f" for nm f
        using pr(3) [OF that(1)] that last_tmp same by (metis option.discI)
      then show ?thesis using one whole last_tmp unfolding tmp by blast
    qed
  qed
qed

text \<open>A NAS whose operations work, as a table from paths to files.\<close>

definition base_name :: "string \<Rightarrow> string" where "base_name p = last (split_slash p)"

definition table_nas :: "(string, remote_file) table sftp" where
  "table_nas = \<lparr>
     sf_ReadDir = (\<lambda>dir fs. Some (map (\<lambda>(p, f). (base_name p, rf_regular f))
       (filter (\<lambda>(p, f). tbl_get fs p = Some f \<and> entry_name (base_name p) \<and> path_join dir (base_name p) = p) fs))),
     sf_Create = (\<lambda>p fs. if tbl_get fs p = None then (True, tbl_put p (plain_file []) fs) else (False, fs)),
     sf_Chmod = (\<lambda>p m fs. (True, fs)),
     sf_Copy = (\<lambda>p b fs. (True, tbl_put p (plain_file b) fs)),
     sf_Close = (\<lambda>p fs. (True, fs)),
     sf_Rename = (\<lambda>p p' fs. case tbl_get fs p of
        None \<Rightarrow> (False, fs)
      | Some f \<Rightarrow> if tbl_get fs p' = None then (True, tbl_put p' f (tbl_del p fs)) else (False, fs)),
     sf_Remove = (\<lambda>p fs. if tbl_get fs p = None then (False, fs) else (True, tbl_del p fs))\<rparr>"

lemma base_name_join: "entry_name nm \<Longrightarrow> base_name (path_join dir nm) = nm"
proof -
  assume nm: "entry_name nm"
  have plain: "split_slash nm = [nm]" using nm by (simp add: entry_name_def split_slash_plain)
  show ?thesis
    using split_slash_append [of "[]" nm] split_slash_append [of "CHR ''/'' # join_with ''/'' (clean_parts [] (split_slash dir))" nm]
    by (auto simp: base_name_def path_join_entry [OF nm] rooted_def join_with_snoc plain split_slash_append)
qed

lemma table_nas_lists: "readdir_law table_nas tbl_get"
  unfolding readdir_law_def
proof (intro allI impI)
  fix dir fs es nm and reg :: bool
  assume es: "sf_ReadDir table_nas dir fs = Some es"
  have "(p, f) \<in> set fs" if "tbl_get fs p = Some f" for p f using that by (simp add: tbl_get_def map_of_SomeD)
  then show "(nm, reg) \<in> set es \<longleftrightarrow> entry_name nm \<and> (\<exists>f. tbl_get fs (path_join dir nm) = Some f \<and> rf_regular f = reg)"
    using es base_name_join [of nm dir] by (force simp: table_nas_def)
qed

lemma table_nas_laws: "sftp_laws table_nas tbl_get"
  using table_nas_lists unfolding sftp_laws_def create_law_def chmod_law_def copy_law_def close_law_def rename_law_def remove_law_def only_at_def
  by (auto simp: table_nas_def tbl_simps split: if_splits option.splits)

text \<open>On 10 October 2024 a copy is made next to one of 1 October, one of 9 October and another file: the first goes,
  the others stay.\<close>

definition sample_id :: string where "sample_id = ''0123456789abcdef01234567''"

definition sample_nas :: nas_config where
  "sample_nas = default_nas_config\<lparr>nc_Host := ''nas'', nc_Username := ''u'', nc_Password := ''p'', nc_Directory := ''/copies/''\<rparr>"

definition sample_at :: time where "sample_at = from_unix (20006 * 86400 + 10800)"

definition old_archive :: string where "old_archive = ''/copies/probakgo_20241001_030000_0123456789abcdef01234567.zip''"

definition recent_archive :: string where "recent_archive = ''/copies/probakgo_20241009_030000_0123456789abcdef01234567.zip''"

definition sample_share :: "(string, remote_file) table" where
  "sample_share = [(old_archive, plain_file ''old''), (recent_archive, plain_file ''new''), (''/copies/notes.txt'', plain_file ''x'')]"

definition sample_upload :: "nas_error option \<times> (string, remote_file) table" where
  "sample_upload = uploadNASBackup table_nas None (Inr ''zip'') (Inr sample_id) sample_at (sample_at + minute) sample_nas sample_share"

definition sample_name :: string where "sample_name = path_join (nc_Directory sample_nas) (archive_name sample_at sample_id)"

theorem nas_upload_whole_witness:
  "tbl_get (snd sample_upload) sample_name = Some (plain_file ''zip'') \<and> tbl_get (snd sample_upload) (sample_name @ ''.partial'') = None \<and>
   sample_name = ''/copies/probakgo_20241010_030000_0123456789abcdef01234567.zip'' \<and>
   tbl_get (snd sample_upload) old_archive = None \<and> tbl_get (snd sample_upload) recent_archive = Some (plain_file ''new'')"
proof -
  have run: "fst sample_upload = None" by code_simp
  have up: "uploadNASBackup table_nas None (Inr ''zip'') (Inr sample_id) sample_at (sample_at + minute) sample_nas sample_share =
      (None, snd sample_upload)"
    using run by (metis sample_upload_def prod.collapse)
  have "file_id sample_id" "four_digit_day (unix sample_at div 86400)" "sample_at + minute < sample_at + 24 * hour" by code_simp+
  then have "tbl_get (snd sample_upload) sample_name = Some (plain_file ''zip'') \<and> tbl_get (snd sample_upload) (sample_name @ ''.partial'') = None"
    using nas_upload_whole [OF table_nas_laws _ up sample_name_def] by simp
  moreover have "sample_name = ''/copies/probakgo_20241010_030000_0123456789abcdef01234567.zip''" by code_simp
  moreover have "tbl_get (snd sample_upload) old_archive = None" "tbl_get (snd sample_upload) recent_archive = Some (plain_file ''new'')"
    by code_simp+
  ultimately show ?thesis by blast
qed

text \<open>A passed write test leaves the NAS as it was.\<close>

lemma TestNASBackup_clean:
  assumes laws: "sftp_laws S file" and t: "TestNASBackup S conn (Inr i) c fs = (None, fs')"
  shows "file fs' = file fs"
proof -
  define name where "name = path_join (nc_Directory c) (''.probakgo-test-'' @ i)"
  obtain ok fs1 where cr: "sf_Create S name fs = (ok, fs1)" by (metis surj_pair)
  obtain shut fs2 where cl: "sf_Close S name fs1 = (shut, fs2)" by (metis surj_pair)
  obtain gone fs3 where rm: "sf_Remove S name fs2 = (gone, fs3)" by (metis surj_pair)
  have v: "ValidateNASBackupConfig c = None" "conn = None" using t by (auto simp: TestNASBackup_def withNASSFTP_def split: option.splits)
  have run: "(case sf_Create S name fs of (False, fs1) \<Rightarrow> (False, fs1)
      | (True, fs1) \<Rightarrow> (case sf_Close S name fs1 of (shut, fs2) \<Rightarrow> case sf_Remove S name fs2 of (gone, fs3) \<Rightarrow> (shut \<and> gone, fs3))) = (True, fs')"
    using t v unfolding TestNASBackup_def withNASSFTP_def Let_def name_def by (auto split: prod.splits bool.splits if_splits)
  then have "ok" by (cases ok) (simp_all add: cr)
  then have "shut \<and> gone \<and> fs' = fs3" using run by (simp add: cr cl rm)
  then have "file fs' p = file fs p" for p
    using law_create [OF laws cr] law_close [OF laws cl] law_remove [OF laws rm] \<open>ok\<close> by (cases "p = name") (auto simp: only_at_def)
  then show ?thesis by blast
qed

section \<open>The settings form\<close>

datatype nas_answer = BadForm | CannotLoad | Rendered string bool | Redirected string bool

text \<open>What a request of the form does: its answer, the configuration it connects with for a test, the stored row and the
  audited actions.\<close>

record nas_outcome =
  no_answer :: nas_answer
  no_tested :: "nas_config option"
  no_row :: nas_config
  no_audit :: "string list"

definition msg_new_password :: string where
  "msg_new_password =
     ''Introduce la contrase'' @ [CHR 0xC3, CHR 0xB1] @ ''a SFTP al cambiar el servidor, el puerto o el usuario del NAS.''"

definition msg_retype :: string where
  "msg_retype =
     '' Vuelve a introducir la contrase'' @ [CHR 0xC3, CHR 0xB1] @ ''a nueva antes de guardar; no se devuelve al navegador.''"

definition msg_tested :: string where
  "msg_tested =
     ''Conexi'' @ [CHR 0xC3, CHR 0xB3] @ ''n y permisos correctos. La prueba no guarda cambios; guarda la configuraci'' @ [CHR 0xC3, CHR 0xB3] @ ''n para activar las copias.''"

definition msg_not_saved :: string where
  "msg_not_saved =
     ''No se pudo guardar la configuraci'' @ [CHR 0xC3, CHR 0xB3] @ ''n NAS. Comprueba DATA_ENCRYPTION_KEY en el servidor.''"

definition msg_saved :: string where
  "msg_saved =
     ''Configuraci'' @ [CHR 0xC3, CHR 0xB3] @ ''n de copias NAS guardada''"

text \<open>\<open>email_ok\<close> says whether the page can load the rest of the settings.\<close>

definition render_nas :: "bool \<Rightarrow> (string \<Rightarrow> string) \<Rightarrow> string \<Rightarrow> bool \<Rightarrow> nas_answer" where
  "render_nas email_ok form message ok =
     (if \<not> email_ok then CannotLoad
      else Rendered (if form ''nas_password'' \<noteq> [] then message @ msg_retype else message) ok)"

definition nas_form_config :: "(string \<Rightarrow> string) \<Rightarrow> nas_config" where
  "nas_form_config form = default_nas_config\<lparr>nc_Enabled := form ''nas_enabled'' = ''on'', nc_Host := trim_space (form ''nas_host''),
     nc_Port := parse_int64 (form ''nas_port''), nc_Username := trim_space (form ''nas_username''), nc_Password := form ''nas_password'',
     nc_Directory := trim_space (form ''nas_directory''), nc_SendTime := form ''nas_time''\<rparr>"

definition destinationChanged :: "nas_config \<Rightarrow> nas_config \<Rightarrow> bool" where
  "destinationChanged c existing \<longleftrightarrow>
     nc_Host c \<noteq> nc_Host existing \<or> nc_Port c \<noteq> nc_Port existing \<or> nc_Username c \<noteq> nc_Username existing"

definition submitted_config :: "(string \<Rightarrow> string) \<Rightarrow> nas_config \<Rightarrow> nas_config" where
  "submitted_config form existing =
     (let c = nas_form_config form;
          keepPassword = (nc_Password c = [] \<and> nc_Password existing \<noteq> [] \<and> \<not> destinationChanged c existing)
      in if keepPassword then c\<lparr>nc_Password := nc_Password existing\<rparr> else c)"

text \<open>\<open>test\<close> is the result of \<open>TestNASBackup\<close>; \<open>parsed\<close> says whether the body is a form of at most 16 KiB.\<close>

definition NASBackupSettingsPost ::
  "secret_box option \<Rightarrow> string \<Rightarrow> bool \<Rightarrow> bool \<Rightarrow> (nas_config \<Rightarrow> string option) \<Rightarrow> (string \<Rightarrow> string) \<Rightarrow> nas_config \<Rightarrow> nas_outcome" where
  "NASBackupSettingsPost secrets nonce parsed email_ok test form row =
     (let answer = (\<lambda>a. \<lparr>no_answer = a, no_tested = None, no_row = row, no_audit = []\<rparr>)
      in if \<not> parsed then answer BadForm
         else case GetNASBackupConfig secrets row of
           Inl _ \<Rightarrow> answer CannotLoad
         | Inr existing \<Rightarrow>
             let c = submitted_config form existing;
                 changed = destinationChanged (nas_form_config form) existing;
                 action = form ''action'';
                 render = (\<lambda>m ok. render_nas email_ok form m ok)
             in if action \<noteq> ''save'' \<and> action \<noteq> ''test'' then answer BadForm
                else if nc_Password c = [] \<and> nc_Password existing \<noteq> [] \<and> changed \<and> (nc_Enabled c \<or> action = ''test'') then
                  answer (render msg_new_password False)
                else case (if nc_Enabled c \<or> action = ''test'' then ValidateNASBackupConfig c else None) of
                  Some e \<Rightarrow> answer (render e False)
                | None \<Rightarrow>
                    if action = ''test'' then
                      (case test c of
                         Some e \<Rightarrow> (answer (render e False))\<lparr>no_tested := Some c\<rparr>
                       | None \<Rightarrow> (answer (render msg_tested True))
                           \<lparr>no_tested := Some c, no_audit := [''settings.nas_test'']\<rparr>)
                    else case SaveNASBackupConfig secrets nonce c row of
                      Inl _ \<Rightarrow> answer (Redirected msg_not_saved False)
                    | Inr row' \<Rightarrow> \<lparr>no_answer = Redirected msg_saved True, no_tested = None,
                        no_row = row', no_audit = [''settings.nas_update'']\<rparr>)"

definition same_destination :: "nas_config \<Rightarrow> nas_config \<Rightarrow> bool" where
  "same_destination c c' \<longleftrightarrow> \<not> destinationChanged c c'"


text \<open>A form that moves the copies to another host without a password is refused, and one that only moves the
  directory keeps the password.\<close>

definition stored_row :: nas_config where
  "stored_row = (sample_nas\<lparr>nc_Enabled := True, nc_Password := ''enc:v1:p''\<rparr>)"

definition nas_box :: secret_box where
  "nas_box = \<lparr>sb_seal = (\<lambda>nonce v. v), sb_open = Some, sb_hash = (\<lambda>v. v)\<rparr>"

definition nas_fields :: "string \<Rightarrow> string \<Rightarrow> string \<Rightarrow> string" where
  "nas_fields host directory k = (if k = ''nas_host'' then host else if k = ''nas_port'' then ''22'' else if k = ''nas_username'' then ''u''
     else if k = ''nas_directory'' then directory else if k = ''nas_time'' then ''04:00'' else if k = ''nas_enabled'' then ''on''
     else if k = ''action'' then ''save'' else [])"

definition nas_post :: "string \<Rightarrow> string \<Rightarrow> nas_outcome" where
  "nas_post host directory = NASBackupSettingsPost (Some nas_box) ''n'' True True (\<lambda>_. None) (nas_fields host directory) stored_row"


end
