(* ===== verification/Secret_Store.thy ===== *)
theory Secret_Store
  imports User_Store Config_Store Nas_Backup
begin

text \<open>
  What the database keeps under the data key: the rows of the Telegram bot and of the Web Push keys
  (\<open>internal/store/telegram.go\<close>, \<open>push.go\<close>), and the migration and the check of every sealed value
  (\<open>internal/store/secrets.go\<close>). Each function of \<open>secrets.go\<close> reads the rows of a table first and then
  goes through them; the migration is one transaction.
\<close>

section \<open>The Telegram bot\<close>

record telegram_config =
  tgc_ID :: int
  tgc_BotToken :: string
  tgc_BotUsername :: string
  tgc_IsEnabled :: bool
  tgc_UpdatedAt :: time

record push_config =
  pc_PublicKey :: string
  pc_PrivateKey :: string
  pc_Subject :: string

record tg_destination =
  td_ID :: int
  td_UserID :: int
  td_Username :: string
  td_UserIsActive :: bool
  td_ChatID :: string
  td_ChatTitle :: string
  td_ChatType :: string
  td_CreatedAt :: time
  td_UpdatedAt :: time

record secret_db =
  sd_keys :: key_table
  sd_email :: "email_config option"
  sd_nas :: nas_config
  sd_telegram :: "telegram_config option"
  sd_tg_status :: "email_delivery_status option"
  sd_push :: "push_config option"
  sd_users :: user_db

definition zero_telegram_config :: telegram_config where
  "zero_telegram_config = \<lparr>tgc_ID = 0, tgc_BotToken = [], tgc_BotUsername = [], tgc_IsEnabled = False, tgc_UpdatedAt = zero_time\<rparr>"

definition GetTelegramConfig :: "secret_box option \<Rightarrow> telegram_config option \<Rightarrow> sql_error + telegram_config" where
  "GetTelegramConfig secrets row =
     (case row of
        None \<Rightarrow> Inr zero_telegram_config
      | Some c \<Rightarrow>
          (case (case secrets of None \<Rightarrow> Some (tgc_BotToken c) | Some b \<Rightarrow> Decrypt b (tgc_BotToken c)) of
             None \<Rightarrow> Inl (Refused ''decrypt'')
           | Some token \<Rightarrow> Inr (c\<lparr>tgc_BotToken := token\<rparr>)))"

definition UpsertTelegramConfig ::
  "secret_box option \<Rightarrow> string \<Rightarrow> telegram_config \<Rightarrow> time \<Rightarrow> telegram_config option \<Rightarrow> telegram_config option" where
  "UpsertTelegramConfig secrets nonce c now row =
     (let token = (case secrets of None \<Rightarrow> tgc_BotToken c | Some b \<Rightarrow> Encrypt b nonce (tgc_BotToken c))
      in Some \<lparr>tgc_ID = 1, tgc_BotToken = token, tgc_BotUsername = tgc_BotUsername c, tgc_IsEnabled = tgc_IsEnabled c,
           tgc_UpdatedAt = sql_now now\<rparr>)"

text \<open>A destination joined with its user.\<close>

definition destination_of :: "user_row \<Rightarrow> int \<times> destination_row \<Rightarrow> tg_destination" where
  "destination_of u = (\<lambda>(i, d). \<lparr>td_ID = i, td_UserID = dr_user_id d, td_Username = ur_username u, td_UserIsActive = ur_is_active u,
     td_ChatID = dr_chat_id d, td_ChatTitle = dr_chat_title d, td_ChatType = dr_chat_type d,
     td_CreatedAt = dr_created_at d, td_UpdatedAt = dr_updated_at d\<rparr>)"

definition listTelegramDestinations :: "bool \<Rightarrow> bool \<Rightarrow> user_db \<Rightarrow> tg_destination list" where
  "listTelegramDestinations activeOnly adminOnly db =
     concat (map (\<lambda>u. map (destination_of u) (filter (\<lambda>(i, d). dr_user_id d = ur_id u) (adb_destinations (ud_alerts db))))
       (sort_key ur_username (filter (\<lambda>u. (activeOnly \<longrightarrow> ur_is_active u) \<and> (adminOnly \<longrightarrow> ur_role u = ''admin'')) (at_rows (ud_users db)))))"

definition ListTelegramDestinations :: "user_db \<Rightarrow> tg_destination list" where
  "ListTelegramDestinations db = listTelegramDestinations False False db"

definition ListActiveTelegramDestinations :: "user_db \<Rightarrow> tg_destination list" where
  "ListActiveTelegramDestinations db = listTelegramDestinations True False db"

definition ListActiveAdminTelegramDestinations :: "user_db \<Rightarrow> tg_destination list" where
  "ListActiveAdminTelegramDestinations db = listTelegramDestinations True True db"

definition GetTelegramDestinationForUser :: "int \<Rightarrow> user_db \<Rightarrow> tg_destination option" where
  "GetTelegramDestinationForUser userID db =
     find (\<lambda>d. td_UserID d = userID) (listTelegramDestinations False False db)"

definition DeleteTelegramConfig :: "secret_db \<Rightarrow> secret_db" where
  "DeleteTelegramConfig db =
     db\<lparr>sd_tg_status := None, sd_telegram := None,
       sd_users := (sd_users db)\<lparr>ud_alerts := (ud_alerts (sd_users db))\<lparr>adb_telegram := [], adb_destinations := []\<rparr>\<rparr>\<rparr>"

definition GetTelegramDeliveryStatus :: "email_delivery_status option \<Rightarrow> email_delivery_status option" where
  "GetTelegramDeliveryStatus row = row"

definition RecordTelegramDelivery :: "string option \<Rightarrow> time \<Rightarrow> email_delivery_status option \<Rightarrow> email_delivery_status option" where
  "RecordTelegramDelivery err now row =
     (let lastError = (case err of None \<Rightarrow> [] | Some e \<Rightarrow> concat (take 500 (runes (trim_space e))))
      in if lastError = [] then
           Some \<lparr>eds_LastAttemptAt = Some (sql_now now), eds_LastSuccessAt = Some (sql_now now), eds_LastError = []\<rparr>
         else Some \<lparr>eds_LastAttemptAt = Some (sql_now now),
           eds_LastSuccessAt = Option.bind row eds_LastSuccessAt, eds_LastError = lastError\<rparr>)"

section \<open>The Web Push keys\<close>

definition GetPushConfig :: "secret_box option \<Rightarrow> push_config option \<Rightarrow> sql_error + push_config" where
  "GetPushConfig secrets row =
     (case row of
        None \<Rightarrow> Inr \<lparr>pc_PublicKey = [], pc_PrivateKey = [], pc_Subject = []\<rparr>
      | Some c \<Rightarrow>
          (case secrets of
             None \<Rightarrow> Inr c
           | Some b \<Rightarrow>
               if pc_PrivateKey c = [] then Inr c
               else case Decrypt b (pc_PrivateKey c) of
                 None \<Rightarrow> Inl (Refused ''decrypt'')
               | Some plain \<Rightarrow> Inr (c\<lparr>pc_PrivateKey := plain\<rparr>)))"

definition UpsertPushConfig :: "secret_box option \<Rightarrow> string \<Rightarrow> push_config \<Rightarrow> push_config option \<Rightarrow> push_config option" where
  "UpsertPushConfig secrets nonce c row =
     Some (c\<lparr>pc_PrivateKey := (case secrets of
        None \<Rightarrow> pc_PrivateKey c
      | Some b \<Rightarrow> if pc_PrivateKey c = [] then [] else Encrypt b nonce (pc_PrivateKey c))\<rparr>)"

section \<open>The check of the sealed values\<close>

datatype secret_error = KeyUnavailable string int | CannotDecrypt string int | BadLookupHash int | CannotProtect int

fun validate_keys :: "secret_box option \<Rightarrow> api_key_row list \<Rightarrow> bool \<Rightarrow> bool \<times> secret_error option" where
  "validate_keys secrets [] found = (found, None)"
| "validate_keys secrets (r # rs) found =
     (if \<not> IsEncrypted (akr_Key r) then validate_keys secrets rs found
      else case secrets of
        None \<Rightarrow> (True, Some (KeyUnavailable ''API key'' (akr_ID r)))
      | Some b \<Rightarrow>
          (case Decrypt b (akr_Key r) of
             None \<Rightarrow> (True, Some (CannotDecrypt ''API key'' (akr_ID r)))
           | Some plain \<Rightarrow>
               if akr_KeyHash r = [] \<or> akr_KeyHash r \<noteq> LookupHash b plain then (True, Some (BadLookupHash (akr_ID r)))
               else validate_keys secrets rs True))"

fun validate_values :: "secret_box option \<Rightarrow> string \<Rightarrow> (int \<times> string) list \<Rightarrow> bool \<Rightarrow> bool \<times> secret_error option" where
  "validate_values secrets name [] found = (found, None)"
| "validate_values secrets name ((i, value) # vs) found =
     (if \<not> IsEncrypted value then validate_values secrets name vs found
      else case secrets of
        None \<Rightarrow> (True, Some (KeyUnavailable name i))
      | Some b \<Rightarrow>
          (case Decrypt b value of
             None \<Rightarrow> (True, Some (CannotDecrypt name i))
           | Some _ \<Rightarrow> validate_values secrets name vs True))"

definition smtp_values :: "secret_db \<Rightarrow> (int \<times> string) list" where
  "smtp_values db = (case sd_email db of None \<Rightarrow> [] | Some c \<Rightarrow> if emc_SMTPPass c = [] then [] else [(emc_ID c, emc_SMTPPass c)])"

definition nas_values :: "secret_db \<Rightarrow> (int \<times> string) list" where
  "nas_values db = (if nc_Password (sd_nas db) = [] then [] else [(1, nc_Password (sd_nas db))])"

definition telegram_values :: "secret_db \<Rightarrow> (int \<times> string) list" where
  "telegram_values db = (case sd_telegram db of None \<Rightarrow> [] | Some c \<Rightarrow> if tgc_BotToken c = [] then [] else [(tgc_ID c, tgc_BotToken c)])"

definition totp_values :: "secret_db \<Rightarrow> (int \<times> string) list" where
  "totp_values db = map (\<lambda>r. (ur_id r, ur_totp_secret r)) (filter (\<lambda>r. ur_totp_secret r \<noteq> []) (at_rows (ud_users (sd_users db))))"

fun validate_sources :: "secret_box option \<Rightarrow> (string \<times> (int \<times> string) list) list \<Rightarrow> bool \<Rightarrow> bool \<times> secret_error option" where
  "validate_sources secrets [] found = (found, None)"
| "validate_sources secrets ((name, vs) # sources) found =
     (case validate_values secrets name vs found of
        (found', Some e) \<Rightarrow> (found', Some e)
      | (found', None) \<Rightarrow> validate_sources secrets sources found')"

definition ValidateProtectedSecrets :: "secret_box option \<Rightarrow> secret_db \<Rightarrow> bool \<times> secret_error option" where
  "ValidateProtectedSecrets secrets db =
     (case validate_keys secrets (at_rows (sd_keys db)) False of
        (found, Some e) \<Rightarrow> (found, Some e)
      | (found, None) \<Rightarrow>
          validate_sources secrets
            [(''SMTP password'', smtp_values db), (''NAS password'', nas_values db),
             (''Telegram bot token'', telegram_values db), (''TOTP secret'', totp_values db)] found)"

section \<open>The migration\<close>

text \<open>\<open>nonce\<close> gives the random bytes of the value with that row number.\<close>

fun protect_keys :: "secret_box \<Rightarrow> (int \<Rightarrow> string) \<Rightarrow> (int \<times> string) list \<Rightarrow> key_table \<Rightarrow> secret_error + key_table" where
  "protect_keys b nonce [] t = Inr t"
| "protect_keys b nonce ((i, value) # vs) t =
     (case Decrypt b value of
        None \<Rightarrow> Inl (CannotDecrypt ''API key'' i)
      | Some plain \<Rightarrow>
          let encrypted = (if IsEncrypted value then value else Encrypt b (nonce i) plain); keyHash = LookupHash b plain
          in if at_has (\<lambda>r. akr_ID r = i) t \<and>
                at_has (\<lambda>r. akr_ID r \<noteq> i \<and> (akr_Key r = encrypted \<or> keyHash \<noteq> [] \<and> akr_KeyHash r = keyHash)) t
             then Inl (CannotProtect i)
             else protect_keys b nonce vs
               (at_update (\<lambda>r. akr_ID r = i) (\<lambda>r. r\<lparr>akr_Key := encrypted, akr_KeyHash := keyHash\<rparr>) t))"

text \<open>A value of the other tables: checked when it is sealed, sealed when it is not.\<close>

definition protect_value :: "secret_box \<Rightarrow> string \<Rightarrow> string \<Rightarrow> int \<times> string \<Rightarrow> secret_error + string" where
  "protect_value b nonce name = (\<lambda>(i, value).
     if IsEncrypted value then (case Decrypt b value of None \<Rightarrow> Inl (CannotDecrypt name i) | Some _ \<Rightarrow> Inr value)
     else Inr (Encrypt b nonce value))"

fun protect_totp :: "secret_box \<Rightarrow> (int \<Rightarrow> string) \<Rightarrow> (int \<times> string) list \<Rightarrow> user_db \<Rightarrow> secret_error + user_db" where
  "protect_totp b nonce [] db = Inr db"
| "protect_totp b nonce (v # vs) db =
     bind_err (protect_value b (nonce (fst v)) ''TOTP secret'' v) (\<lambda>encrypted.
       protect_totp b nonce vs (update_users (\<lambda>r. ur_id r = fst v) (\<lambda>r. r\<lparr>ur_totp_secret := encrypted\<rparr>) db))"

definition protect_email :: "secret_box \<Rightarrow> string \<Rightarrow> secret_db \<Rightarrow> secret_error + secret_db" where
  "protect_email b nonce db =
     (case smtp_values db of
        [] \<Rightarrow> Inr db
      | v # _ \<Rightarrow> bind_err (protect_value b nonce ''SMTP password'' v) (\<lambda>encrypted.
          Inr (db\<lparr>sd_email := map_option (\<lambda>c. c\<lparr>emc_SMTPPass := encrypted\<rparr>) (sd_email db)\<rparr>)))"

definition protect_telegram :: "secret_box \<Rightarrow> string \<Rightarrow> secret_db \<Rightarrow> secret_error + secret_db" where
  "protect_telegram b nonce db =
     (case telegram_values db of
        [] \<Rightarrow> Inr db
      | v # _ \<Rightarrow> bind_err (protect_value b nonce ''Telegram bot token'' v) (\<lambda>encrypted.
          Inr (db\<lparr>sd_telegram := map_option (\<lambda>c. c\<lparr>tgc_BotToken := encrypted\<rparr>) (sd_telegram db)\<rparr>)))"

definition ProtectLegacySecrets :: "secret_box option \<Rightarrow> (nat \<Rightarrow> int \<Rightarrow> string) \<Rightarrow> secret_db \<Rightarrow> secret_error + secret_db" where
  "ProtectLegacySecrets secrets nonce db =
     (case secrets of
        None \<Rightarrow> Inr db
      | Some b \<Rightarrow>
          bind_err (protect_keys b (nonce 0) (map (\<lambda>r. (akr_ID r, akr_Key r)) (at_rows (sd_keys db))) (sd_keys db)) (\<lambda>keys.
          bind_err (protect_email b (nonce 1 0) (db\<lparr>sd_keys := keys\<rparr>)) (\<lambda>db1.
          bind_err (protect_telegram b (nonce 2 0) db1) (\<lambda>db2.
          bind_err (protect_totp b (nonce 3) (totp_values db2) (sd_users db2)) (\<lambda>users.
          Inr (db2\<lparr>sd_users := users\<rparr>))))))"

section \<open>What the migration leaves\<close>

lemma Encrypt_twice [simp]: "Encrypt b n (Encrypt b m v) = Encrypt b m v"
  by (simp add: Encrypt_def)

lemma IsEncrypted_Encrypt [simp]: "IsEncrypted (Encrypt b n v) \<longleftrightarrow> v \<noteq> []"
  by (auto simp: Encrypt_def) (simp_all add: IsEncrypted_def has_prefix_def secret_prefix_def)

lemma Decrypt_Nil [simp]: "Decrypt b [] = Some []"
  by (simp add: Decrypt_def)

lemma Encrypt_Nil [simp]: "Encrypt b n v = [] \<longleftrightarrow> v = []"
  by (auto simp: Encrypt_def secret_prefix_def)

lemma Decrypt_of_Encrypt: "opens_sealed b \<Longrightarrow> Decrypt b (Encrypt b n v) = Decrypt b v"
  using Decrypt_Encrypt [of b v n] by (cases "IsEncrypted v") (auto simp: Encrypt_def Decrypt_def)

text \<open>The value a row holds afterwards: sealed, and for a key with the hash of what it opens to.\<close>

definition key_value :: "secret_box \<Rightarrow> (int \<Rightarrow> string) \<Rightarrow> int \<times> string \<Rightarrow> string" where
  "key_value b nonce v = Encrypt b (nonce (fst v)) (snd v)"

definition key_hash :: "secret_box \<Rightarrow> int \<times> string \<Rightarrow> string" where
  "key_hash b v = LookupHash b (the (Decrypt b (snd v)))"

definition protected_key :: "secret_box \<Rightarrow> (int \<Rightarrow> string) \<Rightarrow> api_key_row \<Rightarrow> api_key_row" where
  "protected_key b nonce r = r\<lparr>akr_Key := key_value b nonce (akr_ID r, akr_Key r), akr_KeyHash := key_hash b (akr_ID r, akr_Key r)\<rparr>"

text \<open>No row of another number has the value or the hash of this one.\<close>

definition no_clash :: "secret_box \<Rightarrow> (int \<Rightarrow> string) \<Rightarrow> int \<times> string \<Rightarrow> api_key_row \<Rightarrow> bool" where
  "no_clash b nonce v r \<longleftrightarrow> akr_ID r \<noteq> fst v \<longrightarrow> akr_Key r \<noteq> key_value b nonce v \<and> (key_hash b v = [] \<or> akr_KeyHash r \<noteq> key_hash b v)"

lemma at_has_key_id:
  assumes "\<And>r. akr_ID (f r) = akr_ID r"
  shows "at_has (\<lambda>r. akr_ID r = i) (at_update P f t) \<longleftrightarrow> at_has (\<lambda>r. akr_ID r = i) t"
proof -
  have "list_ex (\<lambda>r. akr_ID r = i) (map (\<lambda>r. if P r then f r else r) xs) = list_ex (\<lambda>r. akr_ID r = i) xs" for xs
    by (induction xs) (auto simp: assms)
  then show ?thesis by (simp add: at_has_def at_update_def)
qed

lemma protect_keys_Cons:
  "protect_keys b nonce (v # vs) t =
     (if Decrypt b (snd v) = None then Inl (CannotDecrypt ''API key'' (fst v))
      else if at_has (\<lambda>r. akr_ID r = fst v) t \<and> at_has (\<lambda>r. \<not> no_clash b nonce v r) t then Inl (CannotProtect (fst v))
      else protect_keys b nonce vs
        (at_update (\<lambda>r. akr_ID r = fst v) (\<lambda>r. r\<lparr>akr_Key := key_value b nonce v, akr_KeyHash := key_hash b v\<rparr>) t))"
proof -
  obtain i x where v: "v = (i, x)" by fastforce
  have enc: "(if IsEncrypted x then x else Encrypt b (nonce i) plain) = Encrypt b (nonce i) x" if "Decrypt b x = Some plain" for plain
    using that by (auto simp: Encrypt_def Decrypt_def)
  show ?thesis
  proof (cases "Decrypt b x")
    case (Some plain)
    have "(\<lambda>r. \<not> no_clash b nonce v r) = (\<lambda>r. akr_ID r \<noteq> i \<and> (akr_Key r = Encrypt b (nonce i) x \<or>
        LookupHash b plain \<noteq> [] \<and> akr_KeyHash r = LookupHash b plain))"
      by (auto simp: no_clash_def key_value_def key_hash_def v Some)
    then show ?thesis by (simp add: v Some enc key_value_def key_hash_def Let_def)
  qed (simp add: v)
qed

lemma protect_keys_rows:
  assumes "protect_keys b nonce vs t = Inr t'" "distinct (map fst vs)"
  shows "at_seq t' = at_seq t \<and> (\<forall>v\<in>set vs. Decrypt b (snd v) \<noteq> None) \<and>
    at_rows t' = map (\<lambda>r. case map_of vs (akr_ID r) of None \<Rightarrow> r
      | Some x \<Rightarrow> r\<lparr>akr_Key := key_value b nonce (akr_ID r, x), akr_KeyHash := key_hash b (akr_ID r, x)\<rparr>) (at_rows t)"
  using assms
proof (induction vs arbitrary: t)
  case (Cons v vs)
  let ?t = "at_update (\<lambda>r. akr_ID r = fst v) (\<lambda>r. r\<lparr>akr_Key := key_value b nonce v, akr_KeyHash := key_hash b v\<rparr>) t"
  have "protect_keys b nonce vs ?t = Inr t'" "Decrypt b (snd v) \<noteq> None"
    using Cons.prems(1) by (simp_all add: protect_keys_Cons split: if_splits)
  moreover have "map_of vs (fst v) = None" using Cons.prems(2) by (simp add: map_of_eq_None_iff)
  ultimately show ?case using Cons.IH [of ?t] Cons.prems(2)
    by (cases v) (auto simp: at_rows_simps at_update_def split: option.split)
qed simp

lemma protect_keys_apart:
  assumes "protect_keys b nonce vs t = Inr t'" "\<forall>v\<in>set vs. at_has (\<lambda>r. akr_ID r = fst v) t"
    and "v \<in> set vs" "r \<in> set (at_rows t)" "akr_ID r \<notin> fst ` set vs"
  shows "no_clash b nonce v r"
  using assms
proof (induction vs arbitrary: t)
  case (Cons u vs)
  let ?t = "at_update (\<lambda>r. akr_ID r = fst u) (\<lambda>r. r\<lparr>akr_Key := key_value b nonce u, akr_KeyHash := key_hash b u\<rparr>) t"
  have run: "protect_keys b nonce vs ?t = Inr t'" and clash: "\<not> at_has (\<lambda>r. \<not> no_clash b nonce u r) t"
    using Cons.prems(1,2) by (auto simp: protect_keys_Cons split: if_splits)
  have there: "\<forall>v\<in>set vs. at_has (\<lambda>r. akr_ID r = fst v) ?t"
    using Cons.prems(2) by (simp add: at_has_key_id)
  show ?case
  proof (cases "v = u")
    case True
    then show ?thesis using clash Cons.prems(4) by (auto simp: at_has_iff)
  next
    case False
    moreover have "r \<in> set (at_rows ?t)" using Cons.prems(4,5) by (force simp: at_rows_simps)
    ultimately show ?thesis using Cons.IH [OF run there] Cons.prems(3,5) by simp
  qed
qed simp

text \<open>Of two values, the later one was checked against what became of the earlier.\<close>

lemma protect_keys_pairs:
  assumes "protect_keys b nonce vs t = Inr t'" "\<forall>v\<in>set vs. at_has (\<lambda>r. akr_ID r = fst v) t" "distinct (map fst vs)"
    and "v \<in> set vs" "w \<in> set vs" "fst v \<noteq> fst w"
  shows "key_value b nonce v \<noteq> key_value b nonce w \<and> (key_hash b v = [] \<or> key_hash b w = [] \<or> key_hash b v \<noteq> key_hash b w)"
  using assms
proof (induction vs arbitrary: t v w)
  case (Cons u vs)
  let ?f = "\<lambda>r. r\<lparr>akr_Key := key_value b nonce u, akr_KeyHash := key_hash b u\<rparr>"
  let ?t = "at_update (\<lambda>r. akr_ID r = fst u) ?f t"
  have run: "protect_keys b nonce vs ?t = Inr t'" using Cons.prems(1) by (simp add: protect_keys_Cons split: if_splits)
  have there: "\<forall>v\<in>set vs. at_has (\<lambda>r. akr_ID r = fst v) ?t"
    using Cons.prems(2) by (simp add: at_has_key_id)
  obtain r where r: "r \<in> set (at_rows t)" "akr_ID r = fst u" using Cons.prems(2) by (auto simp: at_has_iff)
  have here: "?f r \<in> set (at_rows ?t)" using r by (force simp: at_rows_simps)
  have first: "key_value b nonce u \<noteq> key_value b nonce x \<and> (key_hash b u = [] \<or> key_hash b x = [] \<or> key_hash b u \<noteq> key_hash b x)"
    if "x \<in> set vs" for x
  proof -
    have "fst u \<noteq> fst x" using that Cons.prems(3) by force
    moreover have "akr_ID (?f r) \<notin> fst ` set vs" using r(2) Cons.prems(3) by simp
    ultimately show ?thesis using protect_keys_apart [OF run there that here] r(2) by (auto simp: no_clash_def)
  qed
  show ?case
  proof (cases "v = u \<or> w = u")
    case True
    then show ?thesis using first [of v] first [of w] Cons.prems(4-6) by auto
  next
    case False
    then show ?thesis using Cons.IH [OF run there] Cons.prems(3-6) by simp
  qed
qed simp

lemma protect_keys_again:
  assumes "\<forall>v\<in>set vs. Decrypt b (snd v) \<noteq> None \<and> (\<forall>r\<in>set (at_rows t). no_clash b nonce v r \<and>
      (akr_ID r = fst v \<longrightarrow> akr_Key r = key_value b nonce v \<and> akr_KeyHash r = key_hash b v))"
  shows "protect_keys b nonce vs t = Inr t"
  using assms
proof (induction vs)
  case (Cons v vs)
  have "map (\<lambda>r. if akr_ID r = fst v then r\<lparr>akr_Key := key_value b nonce v, akr_KeyHash := key_hash b v\<rparr> else r) (at_rows t) = at_rows t"
    using Cons.prems by (intro map_idI) auto
  then have "at_update (\<lambda>r. akr_ID r = fst v) (\<lambda>r. r\<lparr>akr_Key := key_value b nonce v, akr_KeyHash := key_hash b v\<rparr>) t = t"
    by (simp add: at_update_def)
  then show ?case using Cons by (simp add: protect_keys_Cons at_has_iff)
qed simp

subsection \<open>The other tables\<close>

lemma protect_value_Inr:
  "protect_value b nonce name v = Inr x \<longleftrightarrow> x = Encrypt b nonce (snd v) \<and> Decrypt b (snd v) \<noteq> None"
  by (cases v) (auto simp: protect_value_def Encrypt_def Decrypt_def split: option.splits)

definition protected_email :: "secret_box \<Rightarrow> string \<Rightarrow> email_config \<Rightarrow> email_config" where
  "protected_email b nonce c = c\<lparr>emc_SMTPPass := Encrypt b nonce (emc_SMTPPass c)\<rparr>"

definition protected_telegram :: "secret_box \<Rightarrow> string \<Rightarrow> telegram_config \<Rightarrow> telegram_config" where
  "protected_telegram b nonce c = c\<lparr>tgc_BotToken := Encrypt b nonce (tgc_BotToken c)\<rparr>"

definition protected_user :: "secret_box \<Rightarrow> (int \<Rightarrow> string) \<Rightarrow> user_row \<Rightarrow> user_row" where
  "protected_user b nonce r = r\<lparr>ur_totp_secret := Encrypt b (nonce (ur_id r)) (ur_totp_secret r)\<rparr>"

definition values_open :: "secret_box \<Rightarrow> (int \<times> string) list \<Rightarrow> bool" where
  "values_open b vs \<longleftrightarrow> (\<forall>v\<in>set vs. Decrypt b (snd v) \<noteq> None)"

lemma protect_email_Inr:
  "protect_email b nonce db = Inr db' \<longleftrightarrow>
     db' = db\<lparr>sd_email := map_option (protected_email b nonce) (sd_email db)\<rparr> \<and> values_open b (smtp_values db)"
proof -
  have "c\<lparr>emc_SMTPPass := []\<rparr> = c" if "emc_SMTPPass c = []" for c :: email_config using that by (intro email_config.equality) simp_all
  then show ?thesis
    by (cases "sd_email db") (auto simp: protect_email_def smtp_values_def bind_err_Inr protect_value_Inr values_open_def protected_email_def Encrypt_def
      Decrypt_def intro!: secret_db.equality)
qed

lemma protect_telegram_Inr:
  "protect_telegram b nonce db = Inr db' \<longleftrightarrow>
     db' = db\<lparr>sd_telegram := map_option (protected_telegram b nonce) (sd_telegram db)\<rparr> \<and> values_open b (telegram_values db)"
proof -
  have "c\<lparr>tgc_BotToken := []\<rparr> = c" if "tgc_BotToken c = []" for c :: telegram_config using that by (intro telegram_config.equality) simp_all
  then show ?thesis
    by (cases "sd_telegram db") (auto simp: protect_telegram_def telegram_values_def bind_err_Inr protect_value_Inr values_open_def
      protected_telegram_def Encrypt_def Decrypt_def intro!: secret_db.equality)
qed

lemma protect_totp_Inr:
  assumes "distinct (map fst vs)"
  shows "protect_totp b nonce vs db = Inr db' \<longleftrightarrow> values_open b vs \<and>
    db' = db\<lparr>ud_users := (ud_users db)\<lparr>at_rows := map (\<lambda>r. case map_of vs (ur_id r) of None \<Rightarrow> r
      | Some x \<Rightarrow> r\<lparr>ur_totp_secret := Encrypt b (nonce (ur_id r)) x\<rparr>) (at_rows (ud_users db))\<rparr>\<rparr>"
  using assms
proof (induction vs arbitrary: db)
  case (Cons v vs)
  have no: "map_of vs (fst v) = None" using Cons.prems by (simp add: map_of_eq_None_iff)
  let ?db = "update_users (\<lambda>r. ur_id r = fst v) (\<lambda>r. r\<lparr>ur_totp_secret := Encrypt b (nonce (fst v)) (snd v)\<rparr>) db"
  have rows: "map (\<lambda>r. case map_of vs (ur_id r) of None \<Rightarrow> r | Some x \<Rightarrow> r\<lparr>ur_totp_secret := Encrypt b (nonce (ur_id r)) x\<rparr>) (at_rows (ud_users ?db)) =
      map (\<lambda>r. case map_of (v # vs) (ur_id r) of None \<Rightarrow> r | Some x \<Rightarrow> r\<lparr>ur_totp_secret := Encrypt b (nonce (ur_id r)) x\<rparr>) (at_rows (ud_users db))"
    using no by (cases v) (auto simp: update_users_def at_update_def split: option.split)
  have "protect_totp b nonce (v # vs) db = Inr db' \<longleftrightarrow> Decrypt b (snd v) \<noteq> None \<and> protect_totp b nonce vs ?db = Inr db'"
    by (auto simp: bind_err_Inr protect_value_Inr)
  also have "\<dots> \<longleftrightarrow> Decrypt b (snd v) \<noteq> None \<and> values_open b vs \<and> db' = ?db\<lparr>ud_users := (ud_users ?db)\<lparr>at_rows :=
      map (\<lambda>r. case map_of vs (ur_id r) of None \<Rightarrow> r | Some x \<Rightarrow> r\<lparr>ur_totp_secret := Encrypt b (nonce (ur_id r)) x\<rparr>) (at_rows (ud_users ?db))\<rparr>\<rparr>"
    using Cons.IH [of ?db] Cons.prems by simp
  finally show ?case unfolding rows by (auto simp: values_open_def update_users_def at_update_def)
qed (auto simp: values_open_def)

lemma map_of_rows:
  assumes "distinct (map idf rows)" "r \<in> set rows"
  shows "map_of (map (\<lambda>r. (idf r, val r)) (filter Q rows)) (idf r) = (if Q r then Some (val r) else None)"
proof (cases "Q r")
  case True
  have "distinct (map fst (map (\<lambda>r. (idf r, val r)) (filter Q rows)))" using assms(1) by (simp add: comp_def distinct_map_filter)
  then show ?thesis using True assms(2) by (simp add: map_of_is_SomeI)
next
  case False
  have "idf r \<noteq> idf s" if "s \<in> set rows" "Q s" for s
    using assms that False unfolding distinct_map inj_on_def by metis
  then have "idf r \<notin> fst ` set (map (\<lambda>r. (idf r, val r)) (filter Q rows))" by force
  then show ?thesis using False by (simp add: map_of_eq_None_iff)
qed

definition key_values :: "secret_db \<Rightarrow> (int \<times> string) list" where
  "key_values db = map (\<lambda>r. (akr_ID r, akr_Key r)) (at_rows (sd_keys db))"

definition migrated :: "secret_box \<Rightarrow> (nat \<Rightarrow> int \<Rightarrow> string) \<Rightarrow> secret_db \<Rightarrow> secret_db" where
  "migrated b nonce db =
     db\<lparr>sd_keys := (sd_keys db)\<lparr>at_rows := map (protected_key b (nonce 0)) (at_rows (sd_keys db))\<rparr>,
       sd_email := map_option (protected_email b (nonce 1 0)) (sd_email db),
       sd_telegram := map_option (protected_telegram b (nonce 2 0)) (sd_telegram db),
       sd_users := (sd_users db)\<lparr>ud_users := (ud_users (sd_users db))\<lparr>at_rows :=
         map (protected_user b (nonce 3)) (at_rows (ud_users (sd_users db)))\<rparr>\<rparr>\<rparr>"

definition secrets_open :: "secret_box \<Rightarrow> secret_db \<Rightarrow> bool" where
  "secrets_open b db \<longleftrightarrow> values_open b (key_values db) \<and> values_open b (smtp_values db) \<and>
     values_open b (telegram_values db) \<and> values_open b (totp_values db)"

definition ids_ok :: "secret_db \<Rightarrow> bool" where
  "ids_ok db \<longleftrightarrow> at_ok akr_ID (sd_keys db) \<and> at_ok ur_id (ud_users (sd_users db))"

text \<open>The migration as a function of each row, given that the keys go through.\<close>

lemma ProtectLegacySecrets_Inr:
  assumes ok: "ids_ok db"
  shows "ProtectLegacySecrets (Some b) nonce db = Inr db' \<longleftrightarrow>
    (\<exists>keys. protect_keys b (nonce 0) (key_values db) (sd_keys db) = Inr keys) \<and> secrets_open b db \<and> db' = migrated b nonce db"
proof -
  have ids: "distinct (map akr_ID (at_rows (sd_keys db)))" "distinct (map ur_id (at_rows (ud_users (sd_users db))))"
    using ok by (simp_all add: ids_ok_def at_ok_def strict_sorted_iff)
  have kd: "distinct (map fst (key_values db))" using ids(1) by (simp add: key_values_def comp_def)
  have ud: "distinct (map fst (totp_values db))" using ids(2) by (simp add: totp_values_def comp_def distinct_map_filter)
  have keys: "protect_keys b (nonce 0) (key_values db) (sd_keys db) = Inr keys \<Longrightarrow> values_open b (key_values db) \<and>
      keys = (sd_keys db)\<lparr>at_rows := map (protected_key b (nonce 0)) (at_rows (sd_keys db))\<rparr>" for keys
    using protect_keys_rows [OF _ kd, of b "nonce 0" "sd_keys db" keys] map_of_rows [OF ids(1), of _ akr_Key "\<lambda>_. True"]
    by (auto simp: values_open_def key_values_def protected_key_def intro!: auto_table.equality)
  have users: "map (\<lambda>r. case map_of (totp_values db) (ur_id r) of None \<Rightarrow> r | Some x \<Rightarrow> r\<lparr>ur_totp_secret := Encrypt b (nonce 3 (ur_id r)) x\<rparr>)
      (at_rows (ud_users (sd_users db))) = map (protected_user b (nonce 3)) (at_rows (ud_users (sd_users db)))"
    unfolding totp_values_def using map_of_rows [OF ids(2), of _ ur_totp_secret "\<lambda>r. ur_totp_secret r \<noteq> []"]
    by (auto simp: protected_user_def Encrypt_def intro!: user_row.equality)
  have other: "smtp_values (db\<lparr>sd_keys := k\<rparr>) = smtp_values db" "telegram_values (db\<lparr>sd_keys := k, sd_email := e\<rparr>) = telegram_values db"
    "totp_values (db\<lparr>sd_keys := k, sd_email := e, sd_telegram := t\<rparr>) = totp_values db" for k e t
    by (simp_all add: smtp_values_def telegram_values_def totp_values_def)
  show ?thesis
    using keys unfolding ProtectLegacySecrets_def key_values_def [symmetric]
    by (auto simp: bind_err_Inr protect_email_Inr protect_telegram_Inr protect_totp_Inr [OF ud] other users secrets_open_def migrated_def)
qed

lemma validate_values_None:
  "snd (validate_values (Some b) name vs found) = None \<longleftrightarrow> values_open b vs"
  by (induction "Some b" name vs found rule: validate_values.induct) (auto simp: values_open_def Decrypt_def split: option.split)

lemma validate_sources_None:
  "snd (validate_sources (Some b) sources found) = None \<longleftrightarrow> (\<forall>s\<in>set sources. values_open b (snd s))"
proof (induction sources arbitrary: found)
  case (Cons s sources)
  obtain name vs where s: "s = (name, vs)" by fastforce
  show ?case using validate_values_None [of b name vs found] Cons.IH by (auto simp: s split: prod.splits option.splits)
qed simp

lemma validate_keys_None:
  "snd (validate_keys (Some b) rows found) = None \<longleftrightarrow>
     (\<forall>r\<in>set rows. IsEncrypted (akr_Key r) \<longrightarrow> (\<exists>plain. Decrypt b (akr_Key r) = Some plain \<and> akr_KeyHash r \<noteq> [] \<and> akr_KeyHash r = LookupHash b plain))"
  by (induction "Some b" rows found rule: validate_keys.induct) (auto split: option.split)

lemma ValidateProtectedSecrets_None:
  "snd (ValidateProtectedSecrets (Some b) db) = None \<longleftrightarrow>
     snd (validate_keys (Some b) (at_rows (sd_keys db)) False) = None \<and> values_open b (smtp_values db) \<and>
     values_open b (nas_values db) \<and> values_open b (telegram_values db) \<and> values_open b (totp_values db)"
proof -
  obtain f e where v: "validate_keys (Some b) (at_rows (sd_keys db)) False = (f, e)" by fastforce
  show ?thesis by (cases e) (simp_all add: ValidateProtectedSecrets_def v validate_sources_None del: validate_sources.simps)
qed

text \<open>What is read through the box is the same before and after.\<close>

definition all_sealed :: "secret_db \<Rightarrow> bool" where
  "all_sealed db \<longleftrightarrow> (\<forall>v \<in> set (key_values db) \<union> set (smtp_values db) \<union> set (telegram_values db) \<union> set (totp_values db).
     snd v = [] \<or> IsEncrypted (snd v))"

lemma migrated_rows: "at_rows (sd_keys (migrated b nonce db)) = map (protected_key b (nonce 0)) (at_rows (sd_keys db))"
  "at_rows (ud_users (sd_users (migrated b nonce db))) = map (protected_user b (nonce 3)) (at_rows (ud_users (sd_users db)))"
  "sd_email (migrated b nonce db) = map_option (protected_email b (nonce 1 0)) (sd_email db)"
  "sd_telegram (migrated b nonce db) = map_option (protected_telegram b (nonce 2 0)) (sd_telegram db)"
  "sd_nas (migrated b nonce db) = sd_nas db"
  by (simp_all add: migrated_def)

lemma migrated_sealed: "all_sealed (migrated b nonce db)"
  by (auto simp: all_sealed_def key_values_def smtp_values_def telegram_values_def totp_values_def migrated_rows protected_key_def key_value_def
      protected_email_def protected_telegram_def protected_user_def split: option.splits)

lemma values_open_simps:
  "values_open b (key_values db) \<longleftrightarrow> (\<forall>r\<in>set (at_rows (sd_keys db)). Decrypt b (akr_Key r) \<noteq> None)"
  "values_open b (smtp_values db) \<longleftrightarrow> pred_option (\<lambda>c. Decrypt b (emc_SMTPPass c) \<noteq> None) (sd_email db)"
  "values_open b (telegram_values db) \<longleftrightarrow> pred_option (\<lambda>c. Decrypt b (tgc_BotToken c) \<noteq> None) (sd_telegram db)"
  "values_open b (totp_values db) \<longleftrightarrow> (\<forall>r\<in>set (at_rows (ud_users (sd_users db))). Decrypt b (ur_totp_secret r) \<noteq> None)"
proof -
  show "values_open b (smtp_values db) \<longleftrightarrow> pred_option (\<lambda>c. Decrypt b (emc_SMTPPass c) \<noteq> None) (sd_email db)"
    by (cases "sd_email db") (simp_all add: values_open_def smtp_values_def)
  show "values_open b (telegram_values db) \<longleftrightarrow> pred_option (\<lambda>c. Decrypt b (tgc_BotToken c) \<noteq> None) (sd_telegram db)"
    by (cases "sd_telegram db") (simp_all add: values_open_def telegram_values_def)
  have "Decrypt b (ur_totp_secret r) \<noteq> None \<longleftrightarrow> (ur_totp_secret r \<noteq> [] \<longrightarrow> Decrypt b (ur_totp_secret r) \<noteq> None)" for r
    by (cases "ur_totp_secret r") simp_all
  then show "values_open b (totp_values db) \<longleftrightarrow> (\<forall>r\<in>set (at_rows (ud_users (sd_users db))). Decrypt b (ur_totp_secret r) \<noteq> None)"
    by (simp add: values_open_def totp_values_def) blast
qed (simp add: values_open_def key_values_def)

lemma migrated_open:
  assumes "opens_sealed b" "secrets_open b db"
  shows "secrets_open b (migrated b nonce db)"
  using assms(2) by (simp add: secrets_open_def values_open_simps migrated_rows protected_key_def key_value_def protected_email_def
      protected_telegram_def protected_user_def Decrypt_of_Encrypt [OF assms(1)] option.pred_map comp_def)

lemma migrated_ids: "ids_ok db \<Longrightarrow> ids_ok (migrated b nonce db)"
proof -
  have "akr_ID \<circ> protected_key b (nonce 0) = akr_ID" "ur_id \<circ> protected_user b (nonce 3) = ur_id"
    by (auto simp: protected_key_def protected_user_def)
  then show "ids_ok db \<Longrightarrow> ids_ok (migrated b nonce db)"
    by (simp add: ids_ok_def at_ok_def migrated_def protected_key_def protected_user_def)
qed

lemma migrated_twice:
  assumes "opens_sealed b"
  shows "migrated b nonce' (migrated b nonce db) = migrated b nonce db"
proof -
  have "protected_key b n' (protected_key b n r) = protected_key b n r" "protected_user b n' (protected_user b n u) = protected_user b n u"
    "protected_email b m' (protected_email b m e) = protected_email b m e" "protected_telegram b m' (protected_telegram b m t) = protected_telegram b m t"
    for n n' m m' r u e t
    by (simp_all add: protected_key_def key_value_def key_hash_def protected_user_def protected_email_def protected_telegram_def
        Decrypt_of_Encrypt [OF assms])
  then show ?thesis by (auto simp: migrated_def option.map_comp comp_def intro!: secret_db.equality)
qed

lemma migrated_again:
  assumes open': "opens_sealed b" and ok: "ids_ok db" and hash: "\<And>v. sb_hash b v \<noteq> []"
    and run: "ProtectLegacySecrets (Some b) nonce db = Inr db'"
  shows "ProtectLegacySecrets (Some b) nonce' db' = Inr db'"
proof -
  obtain keys where keys: "protect_keys b (nonce 0) (key_values db) (sd_keys db) = Inr keys"
    and vals: "secrets_open b db" and db': "db' = migrated b nonce db"
    using run ProtectLegacySecrets_Inr [OF ok] by blast
  let ?n = "nonce 0" and ?m = "nonce' 0"
  have there: "\<forall>v\<in>set (key_values db). at_has (\<lambda>r. akr_ID r = fst v) (sd_keys db)"
    by (auto simp: key_values_def at_has_iff)
  have ids: "distinct (map akr_ID (at_rows (sd_keys db)))" using ok by (simp add: ids_ok_def at_ok_def strict_sorted_iff)
  then have kd: "distinct (map fst (key_values db))" by (simp add: key_values_def comp_def)
  have val: "key_value b ?m (akr_ID r, key_value b ?n (akr_ID r, akr_Key r)) = key_value b ?n (akr_ID r, akr_Key r)"
    "key_hash b (akr_ID r, key_value b ?n (akr_ID r, akr_Key r)) = key_hash b (akr_ID r, akr_Key r)"
    "akr_ID (protected_key b ?n r) = akr_ID r" "akr_Key (protected_key b ?n r) = key_value b ?n (akr_ID r, akr_Key r)"
    "akr_KeyHash (protected_key b ?n r) = key_hash b (akr_ID r, akr_Key r)" for r
    by (simp_all add: protected_key_def key_value_def key_hash_def Decrypt_of_Encrypt [OF open'])
  have apart: "key_value b ?n (akr_ID s, akr_Key s) \<noteq> key_value b ?n (akr_ID r, akr_Key r) \<and>
      key_hash b (akr_ID s, akr_Key s) \<noteq> key_hash b (akr_ID r, akr_Key r)"
    if "r \<in> set (at_rows (sd_keys db))" "s \<in> set (at_rows (sd_keys db))" "akr_ID s \<noteq> akr_ID r" for r s
    using protect_keys_pairs [OF keys there kd, of "(akr_ID s, akr_Key s)" "(akr_ID r, akr_Key r)"] that hash
    by (auto simp: key_values_def key_hash_def LookupHash_def)
  have same: "r = s" if "r \<in> set (at_rows (sd_keys db))" "s \<in> set (at_rows (sd_keys db))" "akr_ID s = akr_ID r" for r s
    using that ids by (auto simp: distinct_map inj_on_def)
  have "Decrypt b (snd v) \<noteq> None \<and> (\<forall>r\<in>set (at_rows (sd_keys db')). no_clash b ?m v r \<and>
      (akr_ID r = fst v \<longrightarrow> akr_Key r = key_value b ?m v \<and> akr_KeyHash r = key_hash b v))"
    if v: "v \<in> set (key_values db')" for v
  proof -
    obtain r where r: "r \<in> set (at_rows (sd_keys db))" "v = (akr_ID (protected_key b ?n r), akr_Key (protected_key b ?n r))"
      using v by (auto simp: key_values_def db' migrated_rows)
    have "Decrypt b (snd v) \<noteq> None" using v migrated_open [OF open' vals] by (simp add: secrets_open_def values_open_def db')
    moreover have "no_clash b ?m v (protected_key b ?n s)" if "s \<in> set (at_rows (sd_keys db))" for s
      using apart [OF r(1) that] unfolding no_clash_def r(2) fst_conv val by blast
    moreover have "akr_Key (protected_key b ?n s) = key_value b ?m v \<and> akr_KeyHash (protected_key b ?n s) = key_hash b v"
      if "s \<in> set (at_rows (sd_keys db))" "akr_ID (protected_key b ?n s) = fst v" for s
      using same [OF r(1) that(1)] that(2) unfolding r(2) fst_conv val by blast
    ultimately show ?thesis by (auto simp: db' migrated_rows)
  qed
  then have "protect_keys b ?m (key_values db') (sd_keys db') = Inr (sd_keys db')" by (intro protect_keys_again) blast
  then show ?thesis
    using ProtectLegacySecrets_Inr [OF migrated_ids [OF ok]] migrated_open [OF open' vals] migrated_twice [OF open'] by (auto simp: db')
qed

lemma find_mapped: "List.find P (map f xs) = map_option f (List.find (\<lambda>x. P (f x)) xs)"
  by (induction xs) simp_all

lemma migrated_reads:
  assumes "opens_sealed b"
  shows "GetAPIKey (Some b) i (sd_keys (migrated b nonce db)) = GetAPIKey (Some b) i (sd_keys db)"
    "GetUser (Some b) i (sd_users (migrated b nonce db)) = GetUser (Some b) i (sd_users db)"
    "GetEmailConfig (Some b) (sd_email (migrated b nonce db)) = GetEmailConfig (Some b) (sd_email db)"
    "GetTelegramConfig (Some b) (sd_telegram (migrated b nonce db)) = GetTelegramConfig (Some b) (sd_telegram db)"
proof -
  have key: "scanAPIKey (Some b) (protected_key b n r) = scanAPIKey (Some b) r" for n r
    by (simp add: scanAPIKey_def protected_key_def key_value_def Decrypt_of_Encrypt [OF assms] split: option.split)
  have ids: "(\<lambda>r. akr_ID (protected_key b n r) = i) = (\<lambda>r. akr_ID r = i)" "(\<lambda>r. ur_id (protected_user b n r) = i) = (\<lambda>r. ur_id r = i)" for n
    by (simp_all add: protected_key_def protected_user_def)
  show "GetAPIKey (Some b) i (sd_keys (migrated b nonce db)) = GetAPIKey (Some b) i (sd_keys db)"
    by (simp add: GetAPIKey_def query_key_def at_first_def migrated_rows find_mapped ids key split: option.split)
  have user: "scanUser (Some b) (protected_user b n r) = scanUser (Some b) r" for n r
    by (simp add: scanUser_def protected_user_def Decrypt_of_Encrypt [OF assms] split: option.split)
  show "GetUser (Some b) i (sd_users (migrated b nonce db)) = GetUser (Some b) i (sd_users db)"
    by (simp add: GetUser_def query_user_def at_first_def migrated_rows find_mapped ids user split: option.split)
  show "GetEmailConfig (Some b) (sd_email (migrated b nonce db)) = GetEmailConfig (Some b) (sd_email db)"
    by (cases "sd_email db") (simp_all add: GetEmailConfig_def migrated_rows protected_email_def Decrypt_of_Encrypt [OF assms] split: option.split)
  show "GetTelegramConfig (Some b) (sd_telegram (migrated b nonce db)) = GetTelegramConfig (Some b) (sd_telegram db)"
    by (cases "sd_telegram db") (simp_all add: GetTelegramConfig_def migrated_rows protected_telegram_def Decrypt_of_Encrypt [OF assms] split: option.split)
qed

text \<open>C10: the migration of the secrets at start-up is complete, invisible and safe to repeat. After it, no API key, SMTP password,
  bot token or TOTP secret is stored in the clear, the check of the sealed values passes when the NAS password opens,
  every key, user and configuration reads exactly as before, and running the migration again, with any random
  bytes, changes nothing.\<close>

theorem secrets_protected:
  assumes "opens_sealed b" "\<And>v. sb_hash b v \<noteq> []" "ids_ok db" "ProtectLegacySecrets (Some b) nonce db = Inr db'"
  shows "all_sealed db' \<and>
    (values_open b (nas_values db) \<longrightarrow> snd (ValidateProtectedSecrets (Some b) db') = None) \<and>
    (\<forall>i. GetAPIKey (Some b) i (sd_keys db') = GetAPIKey (Some b) i (sd_keys db) \<and> GetUser (Some b) i (sd_users db') = GetUser (Some b) i (sd_users db)) \<and>
    GetEmailConfig (Some b) (sd_email db') = GetEmailConfig (Some b) (sd_email db) \<and>
    GetTelegramConfig (Some b) (sd_telegram db') = GetTelegramConfig (Some b) (sd_telegram db) \<and>
    (\<forall>nonce'. ProtectLegacySecrets (Some b) nonce' db' = Inr db')"
proof -
  have vals: "secrets_open b db" and db': "db' = migrated b nonce db"
    using assms(4) ProtectLegacySecrets_Inr [OF assms(3)] by blast+
  have "snd (ValidateProtectedSecrets (Some b) db') = None" if nas: "values_open b (nas_values db)"
  proof -
    have "snd (validate_keys (Some b) (at_rows (sd_keys db')) False) = None"
      using vals assms(2) unfolding validate_keys_None
      by (auto simp: secrets_open_def values_open_simps db' migrated_rows protected_key_def key_value_def key_hash_def
          Decrypt_of_Encrypt [OF assms(1)] LookupHash_def)
    moreover have "values_open b (nas_values db')" using nas unfolding nas_values_def db' migrated_rows .
    ultimately show ?thesis
      using migrated_open [OF assms(1) vals, of nonce] by (simp add: ValidateProtectedSecrets_None secrets_open_def db')
  qed
  then show ?thesis
    using migrated_sealed [of b nonce db] migrated_reads [OF assms(1)] migrated_again [OF assms(1,3,2,4)] by (auto simp: db')
qed

text \<open>A database from before the data key, with one key, an SMTP password and a user.\<close>

definition clear_box :: secret_box where
  "clear_box = \<lparr>sb_seal = (\<lambda>nonce v. v), sb_open = Some, sb_hash = (\<lambda>v. CHR ''h'' # v)\<rparr>"

definition old_db :: secret_db where
  "old_db = \<lparr>sd_keys = snd (CreateAPIKey None [] ''00ff'' ''n'' ''pve1'' [] 0 at_empty),
     sd_email = Some (defaultEmailConfig\<lparr>emc_ID := 1, emc_SMTPPass := ''smtp''\<rparr>), sd_nas = default_nas_config, sd_telegram = None, sd_tg_status = None,
     sd_push = None, sd_users = \<lparr>ud_users = snd (at_insert (\<lambda>i. (new_user_row ''ana'' ''h'' ''admin'' 0 i)\<lparr>ur_totp_secret := ''JBSW''\<rparr>) at_empty),
       ud_push = at_empty, ud_revoked = [], ud_attempts = at_empty, ud_audit = at_empty, ud_alerts = empty_alert_db\<rparr>\<rparr>"

definition new_db :: secret_db where
  "new_db = (case ProtectLegacySecrets (Some clear_box) (\<lambda>_ _. []) old_db of Inl _ \<Rightarrow> old_db | Inr db \<Rightarrow> db)"

theorem secrets_protected_witness:
  "totp_values old_db = [(1, ''JBSW'')] \<and> totp_values new_db = [(1, ''enc:v1:JBSW'')] \<and> all_sealed new_db \<and>
   snd (ValidateProtectedSecrets (Some clear_box) new_db) = None"
proof -
  let ?p = "ProtectLegacySecrets (Some clear_box) (\<lambda>_ _. []) old_db"
  have box: "opens_sealed clear_box" "sb_hash clear_box v \<noteq> []" for v by (simp_all add: opens_sealed_def clear_box_def)
  have ids: "ids_ok old_db" and nas: "values_open clear_box (nas_values old_db)" by code_simp+
  have "case ?p of Inl _ \<Rightarrow> False | Inr _ \<Rightarrow> True" by code_simp
  then have run: "?p = Inr new_db" by (cases ?p) (simp_all add: new_db_def)
  have "totp_values old_db = [(1, ''JBSW'')]" "totp_values new_db = [(1, ''enc:v1:JBSW'')]" by code_simp+
  then show ?thesis using secrets_protected [OF box ids run] nas by blast
qed

text \<open>The same box with a sealed text it cannot open.\<close>

definition stuck_box :: secret_box where
  "stuck_box = clear_box\<lparr>sb_open := (\<lambda>s. if s = ''other'' then None else Some s)\<rparr>"

definition foreign_push :: push_config where
  "foreign_push = \<lparr>pc_PublicKey = ''B'', pc_PrivateKey = ''enc:v1:other'', pc_Subject = []\<rparr>"

text \<open>The check of the sealed values does not look at the private key of Web Push, and neither does the migration: the check
  answers the same whatever that row holds and the migration leaves it. So the check passes a database whose push
  key is sealed under another data key, while reading the key fails.\<close>

theorem push_key_not_checked:
  "ValidateProtectedSecrets secrets (db\<lparr>sd_push := p\<rparr>) = ValidateProtectedSecrets secrets db \<and>
   (case ProtectLegacySecrets secrets nonce db of Inl _ \<Rightarrow> True | Inr db' \<Rightarrow> sd_push db' = sd_push db) \<and>
   ValidateProtectedSecrets (Some stuck_box) (new_db\<lparr>sd_push := Some foreign_push\<rparr>) = (True, None) \<and>
   IsEncrypted (pc_PrivateKey foreign_push) \<and> GetPushConfig (Some stuck_box) (Some foreign_push) = Inl (Refused ''decrypt'')"
proof -
  have same: "ValidateProtectedSecrets secrets (db\<lparr>sd_push := p\<rparr>) = ValidateProtectedSecrets secrets db" for secrets db p
    unfolding ValidateProtectedSecrets_def smtp_values_def nas_values_def telegram_values_def totp_values_def by simp
  have "sd_push db' = sd_push db" if "ProtectLegacySecrets secrets nonce db = Inr db'" for db'
    using that by (cases secrets) (auto simp: ProtectLegacySecrets_def bind_err_Inr protect_email_Inr protect_telegram_Inr)
  then have "case ProtectLegacySecrets secrets nonce db of Inl _ \<Rightarrow> True | Inr db' \<Rightarrow> sd_push db' = sd_push db"
    by (simp split: sum.split)
  moreover have "ValidateProtectedSecrets (Some stuck_box) new_db = (True, None)" "IsEncrypted (pc_PrivateKey foreign_push)"
    "GetPushConfig (Some stuck_box) (Some foreign_push) = Inl (Refused ''decrypt'')"
    by code_simp+
  ultimately show ?thesis using same by simp
qed

end
