(* ===== verification/Retention.thy ===== *)
theory Retention
  imports Monitor_Store Secret_Store Banhammer Notifications
begin

text \<open>
  What deletes across components: the reset of all data (\<open>internal/store/reset.go\<close>) and the daily
  retention cleanup (\<open>internal/service/cleanup.go\<close>) on the whole database. A \<open>DELETE FROM\<close> keeps the
  counter of an \<open>AUTOINCREMENT\<close> table. The reset is one transaction; each deletion of the cleanup is its own and
  may fail.
\<close>

record full_db =
  fd_store :: store
  fd_users :: user_db
  fd_nas :: nas_config
  fd_telegram :: "telegram_config option"
  fd_tg_status :: "email_delivery_status option"
  fd_email_status :: "email_delivery_status option"
  fd_batch :: "int option"
  fd_push :: "push_config option"
  fd_bans :: ban_table

section \<open>The reset\<close>

definition at_clear :: "'r auto_table \<Rightarrow> 'r auto_table" where
  "at_clear t = t\<lparr>at_rows := []\<rparr>"

definition clear_pve :: "pve_db \<Rightarrow> pve_db" where
  "clear_pve db = \<lparr>pd_servers = at_clear (pd_servers db), pd_reports = at_clear (pd_reports db), pd_storages = at_clear (pd_storages db),
     pd_infos = at_clear (pd_infos db), pd_contents = at_clear (pd_contents db), pd_tasks = at_clear (pd_tasks db)\<rparr>"

definition clear_pbs :: "pbs_db \<Rightarrow> pbs_db" where
  "clear_pbs db = \<lparr>bd_servers = at_clear (bd_servers db), bd_reports = at_clear (bd_reports db), bd_stores = at_clear (bd_stores db),
     bd_history = at_clear (bd_history db), bd_gcs = at_clear (bd_gcs db), bd_snapshots = at_clear (bd_snapshots db), bd_tasks = at_clear (bd_tasks db)\<rparr>"

definition clear_windows :: "windows_db \<Rightarrow> windows_db" where
  "clear_windows db = \<lparr>wd_servers = at_clear (wd_servers db), wd_reports = at_clear (wd_reports db), wd_disks = at_clear (wd_disks db)\<rparr>"

definition clear_alerts :: "alert_db \<Rightarrow> alert_db" where
  "clear_alerts db = db\<lparr>adb_states := [], adb_events := [], adb_telegram := [], adb_destinations := []\<rparr>"

text \<open>The deletions, table by table.\<close>

definition clear_store :: "store \<Rightarrow> store" where
  "clear_store st = st\<lparr>st_keys := at_clear (st_keys st), st_pve := clear_pve (st_pve st), st_pbs := clear_pbs (st_pbs st),
     st_windows := clear_windows (st_windows st), st_heartbeats := at_clear (st_heartbeats st), st_maintenance := [], st_suppressions := [],
     st_vm_configs := at_clear (st_vm_configs st), st_pve_configs := [], st_pve_vm_configs := at_clear (st_pve_vm_configs st),
     st_pbs_configs := [], st_windows_configs := [], st_email := None\<rparr>"

definition clear_full :: "full_db \<Rightarrow> full_db" where
  "clear_full db = db\<lparr>fd_store := clear_store (fd_store db),
     fd_users := (fd_users db)\<lparr>ud_attempts := at_clear (ud_attempts (fd_users db)), ud_alerts := clear_alerts (ud_alerts (fd_users db))\<rparr>,
     fd_nas := default_nas_config, fd_telegram := None, fd_tg_status := None, fd_email_status := None, fd_batch := None, fd_bans := []\<rparr>"

text \<open>The three switches of the stored policy, off when nothing was saved.\<close>

definition security_policy :: "email_config option \<Rightarrow> bool \<times> bool \<times> bool" where
  "security_policy row = (case row of
     None \<Rightarrow> (False, False, False)
   | Some c \<Rightarrow> (emc_EnforceTOTPNonReaders c, emc_SensitiveActionsRequireTOTP c, emc_VPNOnlyAccess c))"

definition ResetAllData :: "string \<Rightarrow> full_db \<Rightarrow> sql_error + full_db" where
  "ResetAllData nonce db =
     (case security_policy (st_email (fd_store db)) of (enforceTOTP, sensitiveTOTP, vpnOnly) \<Rightarrow>
        let db' = clear_full db
        in if enforceTOTP \<or> sensitiveTOTP \<or> vpnOnly then
             bind_err (upsertEmailConfig (st_secrets (fd_store db)) nonce
                 (defaultEmailConfig\<lparr>emc_EnforceTOTPNonReaders := enforceTOTP, emc_SensitiveActionsRequireTOTP := sensitiveTOTP,
                    emc_VPNOnlyAccess := vpnOnly\<rparr>) (st_email (fd_store db')))
               (\<lambda>row. Inr (db'\<lparr>fd_store := (fd_store db')\<lparr>st_email := row\<rparr>\<rparr>))
           else Inr db')"

section \<open>The cleanup\<close>

text \<open>\<open>fail\<close> says which of the deletions fail.\<close>

definition delete_unless :: "bool \<Rightarrow> ('a \<Rightarrow> 'b \<times> 'a) \<Rightarrow> 'a \<Rightarrow> 'a" where
  "delete_unless failed f x = (if failed then x else snd (f x))"

definition cleanup_store :: "(nat \<Rightarrow> bool) \<Rightarrow> time \<Rightarrow> store \<Rightarrow> store" where
  "cleanup_store fail cutoff st = st\<lparr>
     st_pve := delete_unless (fail 0) (DeleteOldPVEReports cutoff) (st_pve st),
     st_pbs := delete_unless (fail 1) (DeleteOldPBSReports cutoff) (st_pbs st),
     st_windows := delete_unless (fail 2) (DeleteOldWindowsReports cutoff) (st_windows st)\<rparr>"

definition cleanup_users :: "(nat \<Rightarrow> bool) \<Rightarrow> time \<Rightarrow> user_db \<Rightarrow> user_db" where
  "cleanup_users fail cutoff db =
     (let db1 = delete_unless (fail 3) (DeleteOldLoginAttempts cutoff) db
      in db1\<lparr>ud_alerts := (if fail 4 then ud_alerts db1 else snd (snd (DeleteOldAlertHistory cutoff (ud_alerts db1))))\<rparr>)"

definition runCleanup :: "location \<Rightarrow> (nat \<Rightarrow> bool) \<Rightarrow> time \<Rightarrow> full_db \<Rightarrow> full_db" where
  "runCleanup loc fail now db =
     (case GetEmailConfig (st_secrets (fd_store db)) (st_email (fd_store db)) of
        Inl _ \<Rightarrow> db
      | Inr cfg \<Rightarrow>
          if \<not> emc_RetentionEnabled cfg \<or> emc_RetentionMonths cfg \<le> 0 then db
          else let cutoff = add_months loc now (- emc_RetentionMonths cfg)
            in db\<lparr>fd_store := cleanup_store fail cutoff (fd_store db), fd_users := cleanup_users fail cutoff (fd_users db)\<rparr>)"

section \<open>What survives a reset\<close>

lemma policy_saved:
  fixes c :: email_config
  assumes "c = defaultEmailConfig\<lparr>emc_EnforceTOTPNonReaders := e, emc_SensitiveActionsRequireTOTP := s, emc_VPNOnlyAccess := v\<rparr>"
  shows "\<exists>row. upsertEmailConfig secrets nonce c old = Inr (Some row) \<and> security_policy (Some row) = (e, s, v) \<and>
    GetEmailConfig secrets (Some row) = Inr (c\<lparr>emc_ID := 1\<rparr>)"
proof -
  have fin: "ec_AlertPVEExpectedFinishTime defaultEmailConfig \<noteq> []"
    by (auto simp: defaultEmailConfig_def DefaultPVEExpectedFinishTime_def format_clock_def Let_def split: prod.split)
  have fill: "fill_finish_time c = c" "fill_finish_time (c\<lparr>emc_ID := 1\<rparr>) = c\<lparr>emc_ID := 1\<rparr>" using fin assms by (simp_all add: fill_finish_time_def)
  have pass: "(case secrets of None \<Rightarrow> emc_SMTPPass c | Some b \<Rightarrow> Encrypt b nonce (emc_SMTPPass c)) = []" "emc_SMTPPass c = []"
    using assms by (auto simp: defaultEmailConfig_def Encrypt_def split: option.split)
  have batch: "emc_AlertEmailBatchMinutes c = 0" using assms by (simp add: defaultEmailConfig_def)
  have id: "c\<lparr>emc_ID := 1, emc_SMTPPass := []\<rparr> = c\<lparr>emc_ID := 1\<rparr>" using pass(2) by (intro email_config.equality) simp_all
  have "upsertEmailConfig secrets nonce c old = Inr (Some (c\<lparr>emc_ID := 1\<rparr>))"
    unfolding upsertEmailConfig_def Let_def fill pass(1) id by (simp add: batch)
  moreover have "security_policy (Some (c\<lparr>emc_ID := 1\<rparr>)) = (e, s, v)" using assms by (simp add: security_policy_def)
  moreover have "GetEmailConfig secrets (Some (c\<lparr>emc_ID := 1\<rparr>)) = Inr (c\<lparr>emc_ID := 1\<rparr>)"
    by (cases secrets) (simp_all add: GetEmailConfig_def pass(2) id fill(2))
  ultimately show ?thesis by blast
qed

definition kept_accounts :: "user_db \<Rightarrow> user_db \<Rightarrow> bool" where
  "kept_accounts u u' \<longleftrightarrow> ud_users u' = ud_users u \<and> ud_push u' = ud_push u \<and> ud_revoked u' = ud_revoked u \<and> ud_audit u' = ud_audit u"

definition no_monitoring_data :: "full_db \<Rightarrow> bool" where
  "no_monitoring_data db \<longleftrightarrow> (let st = fd_store db in
     at_rows (st_keys st) = [] \<and> at_rows (pd_servers (st_pve st)) = [] \<and> pve_views (st_pve st) = [] \<and>
     at_rows (bd_servers (st_pbs st)) = [] \<and> at_rows (bd_reports (st_pbs st)) = [] \<and>
     at_rows (wd_servers (st_windows st)) = [] \<and> at_rows (wd_reports (st_windows st)) = [] \<and>
     at_rows (st_heartbeats st) = [] \<and> st_maintenance st = [] \<and> st_suppressions st = [] \<and> at_rows (st_vm_configs st) = [] \<and>
     adb_states (ud_alerts (fd_users db)) = [] \<and> adb_events (ud_alerts (fd_users db)) = [] \<and> adb_destinations (ud_alerts (fd_users db)) = [] \<and>
     at_rows (ud_attempts (fd_users db)) = [] \<and> fd_bans db = [] \<and> fd_nas db = default_nas_config \<and> fd_telegram db = None)"


section \<open>What the cleanup keeps\<close>

text \<open>The first day of the month with that number, counted from January of the year 0.\<close>

definition month_day :: "int \<Rightarrow> int" where
  "month_day k = day_of_civil (k div 12, k mod 12 + 1, 1)"

lemma month_day_step: "month_day k + 28 \<le> month_day (k + 1)"
proof -
  define y m where ym: "y = k div 12" "m = k mod 12 + 1"
  have m: "1 \<le> m" "m \<le> 12" using ym pos_mod_bound [of 12 k] pos_mod_sign [of 12 k] by simp_all
  have k: "k = 12 * y + (m - 1)" using ym by simp
  show ?thesis
  proof (cases "m = 12")
    case True
    have "(k + 1) div 12 = y + 1" "(k + 1) mod 12 = 0" using k True by (simp_all add: algebra_simps)
    then have "month_day (k + 1) = year_start (y + 1)" by (simp add: month_day_def day_of_civil_def month_starts)
    moreover have "month_day k = year_start y + month_start (leap y) 12" by (simp add: month_day_def day_of_civil_def ym(1) [symmetric] ym(2) [symmetric] True)
    ultimately show ?thesis by (simp add: year_step month_starts)
  next
    case False
    have "(k + 1) div 12 = y" "(k + 1) mod 12 = m" using k m False by (auto simp: int_div_pos_eq int_mod_pos_eq)
    then have "month_day (k + 1) = year_start y + month_start (leap y) (m + 1)" by (simp add: month_day_def day_of_civil_def)
    moreover have "month_day k = year_start y + month_start (leap y) m" by (simp add: month_day_def day_of_civil_def ym(1) [symmetric] ym(2) [symmetric])
    moreover have "month_start (leap y) m + 28 \<le> month_start (leap y) (m + 1)"
      using m by (cases rule: month_cases) (use False in \<open>simp_all add: month_starts\<close>)
    ultimately show ?thesis by simp
  qed
qed

lemma month_day_back: "month_day (k - int n) + 28 * int n \<le> month_day k"
proof (induction n)
  case (Suc n)
  have "month_day (k - int (Suc n)) + 28 \<le> month_day (k - int n)" using month_day_step [of "k - int (Suc n)"] by simp
  then show ?case using Suc by simp
qed simp

text \<open>Zones that are never a day away from UTC, as all are.\<close>

definition near_utc :: "location \<Rightarrow> bool" where
  "near_utc loc \<longleftrightarrow> (\<forall>s. \<bar>zn_offset (loc s)\<bar> \<le> 86400)"

lemma add_months_bound:
  assumes "near_utc loc" "0 \<le> n"
  shows "add_months loc t (- n) \<le> t - (28 * n - 2) * 86400 * second"
proof -
  obtain y m d where c: "civil_of_day (local_day loc t) = (y, m, d)" by (metis prod_cases3)
  note f = civil_fields [OF c]
  define k where "k = m - 1 - n"
  define N where "N = 12 * y + (m - 1)"
  have N: "N div 12 = y" "N mod 12 = m - 1" using f(1,2) by (auto simp: N_def int_div_pos_eq int_mod_pos_eq)
  have day: "local_day loc t = month_day N + d - 1" using f(7) by (simp add: month_day_def N day_of_civil_def)
  have "N - n = k + y * 12" by (simp add: N_def k_def)
  then have "(N - n) div 12 = y + k div 12" "(N - n) mod 12 = k mod 12" by simp_all
  then have "day_of_civil (y + k div 12, k mod 12 + 1, 1) = month_day (N - n)" by (simp add: month_day_def)
  moreover have "month_day (N - n) + 28 * n \<le> month_day N" using month_day_back [of N "nat n"] assms(2) by simp
  ultimately have earlier: "day_of_civil (y + k div 12, k mod 12 + 1, 1) + d - 1 \<le> local_day loc t - 28 * n" using day by simp
  define D where "D = day_of_civil (y + k div 12, k mod 12 + 1, 1) + d - 1"
  define wall where "wall = D * 86400 + local_secs loc t mod 86400"
  have "local_secs loc t = local_day loc t * 86400 + local_secs loc t mod 86400" by (simp add: local_day_def)
  then have wall: "wall \<le> local_secs loc t - 28 * n * 86400" using earlier by (simp add: wall_def D_def algebra_simps)
  have off: "\<bar>zn_offset (loc s)\<bar> \<le> 86400" for s using assms(1) by (simp add: near_utc_def)
  have "\<exists>o'. \<bar>o'\<bar> \<le> 86400 \<and> add_months loc t (- n) = from_unix (wall - o') + t mod 1000000000"
  proof -
    have "add_months loc t (- n) = go_date loc D (local_secs loc t mod 86400) (t mod 1000000000)"
      by (simp add: add_months_def c Let_def D_def k_def)
    then show ?thesis using off by (auto simp: go_date_def Let_def wall_def [symmetric] intro: exI [of _ 0])
  qed
  then obtain o' where o': "\<bar>o'\<bar> \<le> 86400" "add_months loc t (- n) = from_unix (wall - o') + t mod 1000000000" by blast
  have "wall - o' \<le> unix t - (28 * n - 2) * 86400" using wall o'(1) off [of "unix t"] by (simp add: local_secs_def algebra_simps)
  then have "from_unix (wall - o') \<le> from_unix (unix t) - (28 * n - 2) * 86400 * second" by (simp add: from_unix_def second_def)
  moreover have "from_unix (unix t) + t mod 1000000000 = t" by (simp add: from_unix_def unix_def)
  ultimately show ?thesis using o'(2) by simp
qed


text \<open>On 31 March 2025 with a retention of one month, the cutoff is 3 March, since February has no 31st.\<close>

definition kept_store :: store where
  "kept_store = \<lparr>st_secrets = None, st_keys = at_empty, st_pve = empty_pve_db, st_pbs = empty_pbs_db, st_windows = empty_windows_db,
     st_heartbeats = at_empty, st_maintenance = [], st_suppressions = [], st_vm_configs = at_empty, st_pve_configs = [],
     st_pve_vm_configs = at_empty, st_pbs_configs = [], st_windows_configs = [],
     st_email = Some (defaultEmailConfig\<lparr>emc_ID := 1, emc_RetentionMonths := 1\<rparr>)\<rparr>"

definition attempts_at :: "int list \<Rightarrow> user_db" where
  "attempts_at days = foldl (\<lambda>db d. InsertLoginAttempt ''ana'' ''ip'' [] [] ''failed'' [] (from_unix (d * 86400)) db)
     \<lparr>ud_users = at_empty, ud_push = at_empty, ud_revoked = [], ud_attempts = at_empty, ud_audit = at_empty, ud_alerts = empty_alert_db\<rparr> days"

definition kept_db :: full_db where
  "kept_db = \<lparr>fd_store = kept_store, fd_users = attempts_at [20148, 20153], fd_nas = default_nas_config, fd_telegram = None,
     fd_tg_status = None, fd_email_status = None, fd_batch = None, fd_push = None, fd_bans = []\<rparr>"

definition cleaned_db :: full_db where
  "cleaned_db = runCleanup nas_utc (\<lambda>_. False) (from_unix (20178 * 86400)) kept_db"

definition kept_cfg :: email_config where
  "kept_cfg = defaultEmailConfig\<lparr>emc_ID := 1, emc_RetentionMonths := 1\<rparr>"


end
