(* ===== verification/Task_Group.thy ===== *)
theory Task_Group
  imports Main
begin

text \<open>
  The background work of the server, \<open>internal/service/background.go\<close>: work is counted while it runs,
  the shutdown refuses new work and waits until none is left or its context ends. The mutex makes \<open>track\<close>
  and the first half of \<open>shutdown\<close> single steps; the wait ends in a step of its own, so that work and calls of
  several goroutines interleave freely.
\<close>

record taskGroup =
  tg_closed :: bool
  tg_wg :: nat
  tg_waiters :: nat
  tg_cancelled :: bool

definition newTaskGroup :: taskGroup where
  "newTaskGroup = \<lparr>tg_closed = False, tg_wg = 0, tg_waiters = 0, tg_cancelled = False\<rparr>"

definition track :: "taskGroup \<Rightarrow> bool \<times> taskGroup" where
  "track g = (if tg_closed g then (False, g) else (True, g\<lparr>tg_wg := tg_wg g + 1\<rparr>))"

text \<open>The function \<open>track\<close> hands out.\<close>

definition task_done :: "taskGroup \<Rightarrow> taskGroup" where
  "task_done g = g\<lparr>tg_wg := tg_wg g - 1\<rparr>"

definition shutdown_begin :: "taskGroup \<Rightarrow> taskGroup" where
  "shutdown_begin g = g\<lparr>tg_closed := True, tg_cancelled := True, tg_waiters := tg_waiters g + 1\<rparr>"

text \<open>What callers see: work started or was refused, work ended, a shutdown began, returned without error, or gave up.\<close>

datatype task_event = Started | Refused_Work | Ended | Closing | All_Done | Gave_Up

inductive task_step :: "taskGroup \<Rightarrow> task_event \<Rightarrow> taskGroup \<Rightarrow> bool" where
  start: "track g = (True, g') \<Longrightarrow> task_step g Started g'"
| refuse: "track g = (False, g') \<Longrightarrow> task_step g Refused_Work g'"
| finish: "0 < tg_wg g \<Longrightarrow> task_step g Ended (task_done g)"
| closing: "task_step g Closing (shutdown_begin g)"
| waited: "0 < tg_waiters g \<Longrightarrow> tg_wg g = 0 \<Longrightarrow> task_step g All_Done (g\<lparr>tg_waiters := tg_waiters g - 1\<rparr>)"
| gave_up: "0 < tg_waiters g \<Longrightarrow> task_step g Gave_Up (g\<lparr>tg_waiters := tg_waiters g - 1\<rparr>)"

inductive_cases task_stepE: "task_step g e g'"

inductive task_run :: "taskGroup \<Rightarrow> task_event list \<Rightarrow> taskGroup \<Rightarrow> bool" where
  none: "task_run g [] g"
| more: "task_step g e g' \<Longrightarrow> task_run g' es g'' \<Longrightarrow> task_run g (e # es) g''"

inductive_cases task_runE: "task_run g (e # es) g'"

definition waiters_closed :: "taskGroup \<Rightarrow> bool" where
  "waiters_closed g \<longleftrightarrow> (0 < tg_waiters g \<longrightarrow> tg_closed g)"

definition drained :: "taskGroup \<Rightarrow> bool" where
  "drained g \<longleftrightarrow> tg_closed g \<and> tg_wg g = 0"

lemma task_step_waiters: "task_step g e g' \<Longrightarrow> waiters_closed g \<Longrightarrow> waiters_closed g'"
  by (erule task_stepE) (auto simp: waiters_closed_def track_def task_done_def shutdown_begin_def split: if_splits)

lemma task_step_drained: "task_step g e g' \<Longrightarrow> drained g \<Longrightarrow> drained g' \<and> e \<noteq> Started \<and> e \<noteq> Ended"
  by (erule task_stepE) (auto simp: drained_def track_def shutdown_begin_def split: if_splits)

lemma task_step_waited: "task_step g All_Done g' \<Longrightarrow> waiters_closed g \<Longrightarrow> drained g'"
  by (erule task_step.cases) (auto simp: waiters_closed_def drained_def)

text \<open>The counter is the work that started and has not ended.\<close>

lemma task_step_count:
  "task_step g e g' \<Longrightarrow> int (tg_wg g') = int (tg_wg g) + (if e = Started then 1 else if e = Ended then - 1 else 0)"
  by (erule task_stepE) (auto simp: track_def task_done_def shutdown_begin_def split: if_splits)

lemma task_run_drained: "task_run g es g' \<Longrightarrow> drained g \<Longrightarrow> Started \<notin> set es \<and> Ended \<notin> set es"
proof (induction rule: task_run.induct)
  case (more g e g' es g'')
  then show ?case using task_step_drained [OF more.hyps(1)] by auto
qed simp

lemma task_run_split: "task_run g (xs @ ys) g'' \<longleftrightarrow> (\<exists>g'. task_run g xs g' \<and> task_run g' ys g'')"
proof (induction xs arbitrary: g)
  case (Cons e xs)
  have "task_run g (e # es) h \<longleftrightarrow> (\<exists>g'. task_step g e g' \<and> task_run g' es h)" for es h
    by (auto intro: task_run.more elim: task_runE)
  then show ?case using Cons.IH by auto
qed (auto intro: task_run.none elim: task_run.cases)

lemma task_run_count:
  "task_run g es g' \<Longrightarrow> waiters_closed g \<Longrightarrow> waiters_closed g' \<and>
     int (tg_wg g') = int (tg_wg g) + int (count_list es Started) - int (count_list es Ended)"
proof (induction rule: task_run.induct)
  case (more g e g' es g'')
  then show ?case using task_step_count [OF more.hyps(1)] task_step_waiters [OF more.hyps(1)] by (cases e) auto
qed simp

text \<open>C13: once a shutdown has returned without error, the database can be closed: whatever goroutines did in
  between, all work that had started has ended, and no work starts or is still running afterwards.\<close>

theorem shutdown_is_final:
  assumes "task_run newTaskGroup (xs @ All_Done # ys) g"
  shows "count_list xs Started = count_list xs Ended \<and> Started \<notin> set ys \<and> Ended \<notin> set ys"
proof -
  obtain g1 g2 where run: "task_run newTaskGroup xs g1" "task_step g1 All_Done g2" "task_run g2 ys g"
    using assms by (auto simp: task_run_split elim!: task_runE)
  have "waiters_closed newTaskGroup" "tg_wg newTaskGroup = 0" by (simp_all add: waiters_closed_def newTaskGroup_def)
  then have g1: "waiters_closed g1" "int (tg_wg g1) = int (count_list xs Started) - int (count_list xs Ended)"
    using task_run_count [OF run(1)] by simp_all
  have "tg_wg g1 = 0" using run(2) by (rule task_step.cases) auto
  moreover have "drained g2" using task_step_waited [OF run(2) g1(1)] .
  ultimately show ?thesis using g1(2) task_run_drained [OF run(3)] by simp
qed

theorem shutdown_is_final_witness:
  "\<exists>g. task_run newTaskGroup ([Started, Closing, Ended] @ All_Done # [Refused_Work]) g \<and>
     Started \<notin> set [Refused_Work] \<and> count_list [Started, Closing, Ended] Started = count_list [Started, Closing, Ended] Ended"
proof -
  let ?a = "\<lparr>tg_closed = False, tg_wg = 1, tg_waiters = 0, tg_cancelled = False\<rparr>"
  let ?d = "\<lparr>tg_closed = True, tg_wg = 0, tg_waiters = 0, tg_cancelled = True\<rparr>"
  have "task_step newTaskGroup Started ?a" by (rule task_step.start) (simp add: track_def newTaskGroup_def)
  moreover have "task_step ?a Closing \<lparr>tg_closed = True, tg_wg = 1, tg_waiters = 1, tg_cancelled = True\<rparr>"
    using task_step.closing [of ?a] by (simp add: shutdown_begin_def)
  moreover have "task_step \<lparr>tg_closed = True, tg_wg = 1, tg_waiters = 1, tg_cancelled = True\<rparr> Ended
      \<lparr>tg_closed = True, tg_wg = 0, tg_waiters = 1, tg_cancelled = True\<rparr>"
    using task_step.finish [of "\<lparr>tg_closed = True, tg_wg = 1, tg_waiters = 1, tg_cancelled = True\<rparr>"] by (simp add: task_done_def)
  moreover have "task_step \<lparr>tg_closed = True, tg_wg = 0, tg_waiters = 1, tg_cancelled = True\<rparr> All_Done ?d"
    using task_step.waited [of "\<lparr>tg_closed = True, tg_wg = 0, tg_waiters = 1, tg_cancelled = True\<rparr>"] by simp
  moreover have "task_step ?d Refused_Work ?d" by (rule task_step.refuse) (simp add: track_def)
  ultimately have "task_run newTaskGroup ([Started, Closing, Ended] @ All_Done # [Refused_Work]) ?d"
    by (auto intro!: task_run.intros)
  then show ?thesis using shutdown_is_final by blast
qed

end
