(* ===== verification/User_Admin.thy ===== *)
theory User_Admin
  imports Login_Security
begin

text \<open>
  Users as the web interface manages them: \<open>internal/web/handlers/users.go\<close>, the own password and second
  factor of \<open>profile.go\<close>, the audit records of \<open>audit.go\<close> and the redirects of \<open>form_redirect.go\<close>. As in the
  login, every access to shared state is a numbered step of its handler, other requests run in between, and a
  statement may fail. The hash of a new password, the encoding of audit details and the random secret of a second
  factor are parameters. The pages themselves are named, not rendered.
\<close>

section \<open>Messages and redirects\<close>

definition invalidUsernameMessage :: string where
  "invalidUsernameMessage =
     ''El nombre de usuario admite hasta 64 caracteres, sin caracteres de control''"

definition passwordTooLongMessage :: string where
  "passwordTooLongMessage =
     ''La contrase'' @ [CHR 0xC3, CHR 0xB1] @ ''a no es v'' @ [CHR 0xC3, CHR 0xA1] @ ''lida (m'' @ [CHR 0xC3, CHR 0xA1] @ ''ximo 72 bytes)''"

definition f_name_pass :: string where
  "f_name_pass =
     ''Usuario y contrase'' @ [CHR 0xC3, CHR 0xB1] @ ''a requeridos''"

definition f_short :: string where
  "f_short =
     ''La contrase'' @ [CHR 0xC3, CHR 0xB1] @ ''a debe tener al menos 12 caracteres''"

definition f_not_created :: string where
  "f_not_created =
     ''No se pudo crear el usuario; comprueba que el nombre no exista ya''"

definition f_created :: string where
  "f_created =
     ''Usuario creado''"

definition f_name :: string where
  "f_name =
     ''Nombre de usuario requerido''"

definition f_no_user :: string where
  "f_no_user =
     ''Usuario no encontrado''"

definition f_not_renamed :: string where
  "f_not_renamed =
     ''No se pudo cambiar el nombre; comprueba que no exista ya''"

definition f_renamed :: string where
  "f_renamed =
     ''Nombre de usuario cambi'' @ [CHR 0xC3, CHR 0xB3] @ '' a ''"

definition f_sign_in :: string where
  "f_sign_in =
     '' - inicia sesi'' @ [CHR 0xC3, CHR 0xB3] @ ''n de nuevo''"

definition f_two :: string where
  "f_two =
     ''Contrase'' @ [CHR 0xC3, CHR 0xB1] @ ''a y confirmaci'' @ [CHR 0xC3, CHR 0xB3] @ ''n requeridas''"

definition f_differ :: string where
  "f_differ =
     ''Las contrase'' @ [CHR 0xC3, CHR 0xB1] @ ''as no coinciden''"

definition f_pass_failed :: string where
  "f_pass_failed =
     ''No se pudo actualizar la contrase'' @ [CHR 0xC3, CHR 0xB1] @ ''a''"

definition f_pass :: string where
  "f_pass =
     ''Contrase'' @ [CHR 0xC3, CHR 0xB1] @ ''a actualizada''"

definition f_2fa_failed :: string where
  "f_2fa_failed =
     ''No se pudo desactivar el 2FA''"

definition f_2fa_off :: string where
  "f_2fa_off =
     ''2FA desactivado para ''"

definition f_role :: string where
  "f_role =
     ''Rol no v'' @ [CHR 0xC3, CHR 0xA1] @ ''lido''"

definition f_own_role :: string where
  "f_own_role =
     ''No puedes cambiar tu propio rol''"

definition f_role_failed :: string where
  "f_role_failed =
     ''No se pudo cambiar el rol''"

definition f_role_set :: string where
  "f_role_set =
     ''Rol actualizado''"

definition f_own_state :: string where
  "f_own_state =
     ''No puedes desactivarte a ti mismo''"

definition f_state_failed :: string where
  "f_state_failed =
     ''No se pudo actualizar el estado''"

definition f_state :: string where
  "f_state =
     ''Estado actualizado''"

definition f_admin :: string where
  "f_admin =
     ''No se puede eliminar un usuario admin''"

definition f_not_deleted :: string where
  "f_not_deleted =
     ''No se pudo eliminar el usuario''"

definition f_deleted :: string where
  "f_deleted =
     ''Usuario eliminado''"

definition f_blocked :: string where
  "f_blocked =
     ''Demasiados intentos fallidos con la contrase'' @ [CHR 0xC3, CHR 0xB1] @ ''a actual. Espera 15 minutos.''"

definition f_wrong :: string where
  "f_wrong =
     ''Contrase'' @ [CHR 0xC3, CHR 0xB1] @ ''a actual incorrecta''"

definition f_pass_own :: string where
  "f_pass_own =
     ''Contrase'' @ [CHR 0xC3, CHR 0xB1] @ ''a actualizada. Se han cerrado tus otras sesiones.''"

definition f_again :: string where
  "f_again =
     '' Inicia sesi'' @ [CHR 0xC3, CHR 0xB3] @ ''n de nuevo.''"

definition f_2fa_prepare :: string where
  "f_2fa_prepare =
     ''No se pudo preparar el 2FA''"

definition f_2fa_on_failed :: string where
  "f_2fa_on_failed =
     ''No se pudo activar el 2FA''"

definition f_2fa_on :: string where
  "f_2fa_on =
     ''2FA activado. Se han cerrado tus otras sesiones.''"

definition f_2fa_off_own :: string where
  "f_2fa_off_own =
     ''2FA desactivado. Se han cerrado tus otras sesiones.''"

text \<open>\<open>url.QueryEscape\<close>\<close>

definition query_plain :: "char \<Rightarrow> bool" where
  "query_plain c \<longleftrightarrow> is_digit c \<or> (CHR ''a'' \<le> c \<and> c \<le> CHR ''z'') \<or> (CHR ''A'' \<le> c \<and> c \<le> CHR ''Z'') \<or> c \<in> set ''-_.~''"

definition upper_hex :: "nat \<Rightarrow> char" where
  "upper_hex n = ''0123456789ABCDEF'' ! n"

definition QueryEscape :: "string \<Rightarrow> string" where
  "QueryEscape s = concat (map (\<lambda>c. if query_plain c then [c] else if c = CHR '' '' then ''+''
     else [CHR ''%'', upper_hex (of_char c div 16), upper_hex (of_char c mod 16)]) s)"

definition redirectWithFlash :: "string \<Rightarrow> string \<Rightarrow> bool \<Rightarrow> reply" where
  "redirectWithFlash target0 message ok =
     (let t0 = (if target0 = [] then ''/'' else target0);
          sep0 = (if contains_str t0 ''?'' then ''&'' else ''?'');
          t1 = (if message \<noteq> [] then t0 @ sep0 @ ''flash='' @ QueryEscape message else t0);
          sep1 = (if message \<noteq> [] then ''&'' else sep0)
      in Redirect (if ok then t1 @ sep1 @ ''ok=1'' else t1))"

definition formBackOrDefault :: "web_lib \<Rightarrow> web_request \<Rightarrow> string \<Rightarrow> string" where
  "formBackOrDefault l q fallback =
     (let path = SafeLocalPath (lib_url_parse l) (wr_form q ''back'') in if path \<noteq> [] then path else fallback)"

section \<open>What the handlers use\<close>

datatype json_value = JStr string | JBool bool

record admin_lib =
  al_hash :: "string \<Rightarrow> string option"
  al_json :: "(string \<times> json_value) list \<Rightarrow> string"
  al_nonce :: string
  al_secret :: "nat list option"

definition write_db :: "web_request \<Rightarrow> nat \<Rightarrow> (time \<Rightarrow> user_db \<Rightarrow> sql_error + ('a \<times> user_db)) \<Rightarrow> (sql_error + 'a) shared" where
  "write_db q n f w0 =
     (let w = wr_env q n w0
      in if wr_fail q n then (Inl (Refused ''database''), w)
         else case f (ww_now w) (ww_db w) of
           Inl e \<Rightarrow> (Inl e, w)
         | Inr (x, db) \<Rightarrow> (Inr x, w\<lparr>ww_db := db\<rparr>))"

definition audit ::
  "admin_lib \<Rightarrow> web_request \<Rightarrow> nat \<Rightarrow> session \<Rightarrow> string \<Rightarrow> string \<Rightarrow> string \<Rightarrow> (string \<times> json_value) list \<Rightarrow> web_world \<Rightarrow> web_world" where
  "audit a q n s action targetID targetName meta w =
     snd (exec q n (InsertAuditLog \<lparr>au_ID = 0, au_ActorUsername = fst (session_GetUser s), au_ActorRole = fst (snd (session_GetUser s)),
       au_ActorIP = request_ip q, au_Action = action, au_TargetType = ''user'', au_TargetID = targetID, au_TargetName = targetName,
       au_Metadata = (if meta = [] then ''{}'' else al_json a meta), au_CreatedAt = zero_time\<rparr>) w)"

definition find_user :: "web_lib \<Rightarrow> web_request \<Rightarrow> nat \<Rightarrow> int \<Rightarrow> (sql_error + user) shared" where
  "find_user l q n i w = query q n (\<lambda>w. GetUser (lib_secrets l) i (ww_db w)) w"

definition minPasswordLength :: nat where "minPasswordLength = 12"

definition maxUsernameLength :: nat where "maxUsernameLength = 64"

definition normalizeUsername :: "string \<Rightarrow> string \<times> bool" where
  "normalizeUsername raw =
     (let name = trim_space raw
      in if rune_count name > maxUsernameLength then (name, False)
         else (name, \<not> list_ex is_control (runes name)))"

definition curUsername :: "session \<Rightarrow> string" where "curUsername s = fst (session_GetUser s)"

definition sessionRole :: "session \<Rightarrow> string" where "sessionRole s = fst (snd (session_GetUser s))"

section \<open>The pages\<close>

definition Users :: "web_lib \<Rightarrow> web_request \<Rightarrow> reply shared" where
  "Users l q w0 =
     (case query q 0 (\<lambda>w. ListUsers (lib_secrets l) (ww_db w)) w0 of
        (Inl _, w) \<Rightarrow> (HttpError 500, w)
      | (Inr _, w) \<Rightarrow> (Render ''users.html'' (Flash (wr_form q ''flash'')), w))"

definition UserNewPage :: "web_request \<Rightarrow> reply" where
  "UserNewPage q = Render ''user_new.html'' (Flash (wr_form q ''flash''))"

definition UserEditPage :: "web_lib \<Rightarrow> web_request \<Rightarrow> string \<Rightarrow> reply shared" where
  "UserEditPage l q idText w0 =
     (case Atoi idText of
        None \<Rightarrow> (HttpError 400, w0)
      | Some i \<Rightarrow> (case find_user l q 0 i w0 of
          (Inl _, w) \<Rightarrow> (HttpError 404, w)
        | (Inr u, w) \<Rightarrow> (Render ''user_edit.html'' (Flash (wr_form q ''flash'')), wr_env q 1 w)))"

section \<open>Administration\<close>

text \<open>The identifier of the path is \<open>i\<close>: 0 for one that is no number.\<close>

definition CreateUserPost :: "web_lib \<Rightarrow> admin_lib \<Rightarrow> web_request \<Rightarrow> session \<Rightarrow> (session \<times> reply) shared" where
  "CreateUserPost l a q s w0 =
     (let back_to = formBackOrDefault l q ''/users'';
          (uname, validName) = normalizeUsername (wr_form q ''username'');
          pass = wr_form q ''password'';
          role0 = wr_form q ''role'';
          role = (if role0 \<noteq> ''admin'' \<and> role0 \<noteq> ''editor'' \<and> role0 \<noteq> ''reader'' then ''reader'' else role0)
      in if uname = [] \<or> pass = [] then ((s, redirectWithFlash back_to f_name_pass False), w0)
         else if \<not> validName then ((s, redirectWithFlash back_to invalidUsernameMessage False), w0)
         else if length pass < minPasswordLength then ((s, redirectWithFlash back_to f_short False), w0)
         else case al_hash a pass of
           None \<Rightarrow> ((s, redirectWithFlash back_to passwordTooLongMessage False), w0)
         | Some hash \<Rightarrow>
             (case write_db q 1 (CreateUser uname hash role) w0 of
                (Inl _, w1) \<Rightarrow> ((s, redirectWithFlash back_to f_not_created False), w1)
              | (Inr i, w1) \<Rightarrow>
                  let w2 = audit a q 2 s ''user.create'' (show_int i) uname [(''role'', JStr role)] w1
                  in ((s, redirectWithFlash ''/users'' f_created True),
                      notifyAdminSecurity (UserCreated (securityField uname) (securityField role) (securityField (curUsername s))
                        (securityField (request_ip q)) i) w2)))"

definition ChangeUsernamePost :: "web_lib \<Rightarrow> admin_lib \<Rightarrow> web_request \<Rightarrow> int \<Rightarrow> session \<Rightarrow> (session \<times> reply) shared" where
  "ChangeUsernamePost l a q i s w0 =
     (let back_to = formBackOrDefault l q ''/users'';
          (newUsername, validName) = normalizeUsername (wr_form q ''username'')
      in if newUsername = [] then ((s, redirectWithFlash back_to f_name False), w0)
         else if \<not> validName then ((s, redirectWithFlash back_to invalidUsernameMessage False), w0)
         else case find_user l q 0 i w0 of
           (Inl _, w1) \<Rightarrow> ((s, redirectWithFlash back_to f_no_user False), w1)
         | (Inr u, w1) \<Rightarrow>
             (case write_db q 1 (\<lambda>_ db. map_sum id (Pair ()) (UpdateUserUsername i newUsername db)) w1 of
                (Inl _, w2) \<Rightarrow> ((s, redirectWithFlash back_to f_not_renamed False), w2)
              | (Inr _, w2) \<Rightarrow>
                  let w3 = audit a q 2 s ''user.rename'' (show_int i) newUsername
                        [(''old_username'', JStr (u_Username u)), (''new_username'', JStr newUsername)] w2
                  in if u_Username u = curUsername s
                     then clear_session q 3 (redirectWithFlash ''/login'' (f_renamed @ newUsername @ f_sign_in) False) s w3
                     else ((s, redirectWithFlash back_to (f_renamed @ newUsername) True), w3)))"

definition ChangePasswordPost :: "web_lib \<Rightarrow> admin_lib \<Rightarrow> web_request \<Rightarrow> int \<Rightarrow> session \<Rightarrow> (session \<times> reply) shared" where
  "ChangePasswordPost l a q i s w0 =
     (let back_to = formBackOrDefault l q ''/users''; pass = wr_form q ''password''; confirm = wr_form q ''password_confirm''
      in if pass = [] \<or> confirm = [] then ((s, redirectWithFlash back_to f_two False), w0)
         else if pass \<noteq> confirm then ((s, redirectWithFlash back_to f_differ False), w0)
         else if length pass < minPasswordLength then ((s, redirectWithFlash back_to f_short False), w0)
         else case find_user l q 0 i w0 of
           (Inl _, w1) \<Rightarrow> ((s, redirectWithFlash back_to f_no_user False), w1)
         | (Inr u, w1) \<Rightarrow>
             (case al_hash a pass of
                None \<Rightarrow> ((s, redirectWithFlash back_to passwordTooLongMessage False), w1)
              | Some hash \<Rightarrow>
                  (case exec q 1 (\<lambda>_. UpdateUserPassword i hash) w1 of
                     (False, w2) \<Rightarrow> ((s, redirectWithFlash back_to f_pass_failed False), w2)
                   | (True, w2) \<Rightarrow>
                       let w3 = audit a q 2 s ''user.password_change'' (show_int i) (u_Username u) [] w2
                       in if u_Username u = curUsername s
                          then clear_session q 3 (Redirect ''/login?flash=Contrase%C3%B1a+actualizada+-+inicia+sesi%C3%B3n+de+nuevo'') s w3
                          else ((s, redirectWithFlash back_to f_pass True), w3))))"

definition DisableUser2FAPost :: "web_lib \<Rightarrow> admin_lib \<Rightarrow> web_request \<Rightarrow> int \<Rightarrow> session \<Rightarrow> (session \<times> reply) shared" where
  "DisableUser2FAPost l a q i s w0 =
     (let back_to = formBackOrDefault l q ''/users''
      in case find_user l q 0 i w0 of
           (Inl _, w1) \<Rightarrow> ((s, redirectWithFlash back_to f_no_user False), w1)
         | (Inr u, w1) \<Rightarrow>
             (case exec q 1 (\<lambda>_. DisableUserTOTP i) w1 of
                (False, w2) \<Rightarrow> ((s, redirectWithFlash back_to f_2fa_failed False), w2)
              | (True, w2) \<Rightarrow>
                  ((s, redirectWithFlash back_to (f_2fa_off @ u_Username u) True),
                   audit a q 2 s ''user.2fa_admin_disable'' (show_int i) (u_Username u) [] w2)))"

definition ChangeRolePost :: "web_lib \<Rightarrow> admin_lib \<Rightarrow> web_request \<Rightarrow> int \<Rightarrow> session \<Rightarrow> (session \<times> reply) shared" where
  "ChangeRolePost l a q i s w0 =
     (let back_to = formBackOrDefault l q ''/users''; role = wr_form q ''role''
      in if role \<noteq> ''admin'' \<and> role \<noteq> ''editor'' \<and> role \<noteq> ''reader'' then ((s, redirectWithFlash back_to f_role False), w0)
         else case find_user l q 0 i w0 of
           (Inl _, w1) \<Rightarrow> ((s, redirectWithFlash back_to f_no_user False), w1)
         | (Inr u, w1) \<Rightarrow>
             if u_Username u = curUsername s \<and> sessionRole s = ''admin''
             then ((s, redirectWithFlash back_to f_own_role False), w1)
             else case write_db q 1 (\<lambda>_ db. map_sum id (Pair ()) (UpdateUserRole i role db)) w1 of
               (Inl _, w2) \<Rightarrow> ((s, redirectWithFlash back_to f_role_failed False), w2)
             | (Inr _, w2) \<Rightarrow>
                 ((s, redirectWithFlash back_to f_role_set True),
                  audit a q 2 s ''user.role_change'' (show_int i) (u_Username u) [(''old_role'', JStr (u_Role u)), (''new_role'', JStr role)] w2))"

definition ToggleUserPost :: "web_lib \<Rightarrow> admin_lib \<Rightarrow> web_request \<Rightarrow> int \<Rightarrow> session \<Rightarrow> (session \<times> reply) shared" where
  "ToggleUserPost l a q i s w0 =
     (let back_to = formBackOrDefault l q ''/users''
      in case find_user l q 0 i w0 of
           (Inl _, w1) \<Rightarrow> ((s, redirectWithFlash back_to f_no_user False), w1)
         | (Inr u, w1) \<Rightarrow>
             if u_Username u = curUsername s \<and> sessionRole s = ''admin''
             then ((s, redirectWithFlash back_to f_own_state False), w1)
             else case exec q 1 (\<lambda>_. ToggleUser i) w1 of
               (False, w2) \<Rightarrow> ((s, redirectWithFlash back_to f_state_failed False), w2)
             | (True, w2) \<Rightarrow>
                 ((s, redirectWithFlash back_to f_state True),
                  audit a q 2 s ''user.toggle'' (show_int i) (u_Username u)
                    [(''was_active'', JBool (u_IsActive u)), (''new_active'', JBool (\<not> u_IsActive u))] w2))"

definition DeleteUserPost :: "web_lib \<Rightarrow> admin_lib \<Rightarrow> web_request \<Rightarrow> int \<Rightarrow> session \<Rightarrow> (session \<times> reply) shared" where
  "DeleteUserPost l a q i s w0 =
     (let back_to = formBackOrDefault l q ''/users''
      in case find_user l q 0 i w0 of
           (Inl _, w1) \<Rightarrow> ((s, redirectWithFlash back_to f_no_user False), w1)
         | (Inr u, w1) \<Rightarrow>
             if u_Role u = ''admin'' then ((s, redirectWithFlash back_to f_admin False), w1)
             else case exec q 1 (\<lambda>_. DeleteUser i) w1 of
               (False, w2) \<Rightarrow> ((s, redirectWithFlash back_to f_not_deleted False), w2)
             | (True, w2) \<Rightarrow>
                 ((s, redirectWithFlash ''/users'' f_deleted True),
                  audit a q 2 s ''user.delete'' (show_int i) (u_Username u) [(''role'', JStr (u_Role u))] w2))"

section \<open>The own account\<close>

definition own_user :: "web_lib \<Rightarrow> web_request \<Rightarrow> nat \<Rightarrow> session \<Rightarrow> (sql_error + user) shared" where
  "own_user l q n s w = query q n (\<lambda>w. GetUserByUsername (lib_secrets l) (curUsername s) (ww_db w)) w"

text \<open>The result is \<open>(ok, blocked)\<close>; a wrong password is counted after bcrypt has compared it.\<close>

definition checkCurrentPassword :: "web_lib \<Rightarrow> admin_lib \<Rightarrow> web_request \<Rightarrow> session \<Rightarrow> user \<Rightarrow> string \<Rightarrow> (bool \<times> bool) shared" where
  "checkCurrentPassword l a q s user password w0 =
     (let key = show_int (u_ID user); w1 = wr_env q 1 w0
      in if Blocked key (ww_now w1) (ww_passwordFailures w1) then ((False, True), w1)
         else if lib_bcrypt l (u_PasswordHash user) password then ((True, False), w1)
         else let w2 = wr_env q 2 w1; w3 = w2\<lparr>ww_passwordFailures := snd (AllowKey key (ww_now w2) (ww_passwordFailures w2))\<rparr>
           in ((False, False), audit a q 3 s ''user.password_check_failed'' key (u_Username user) [(''path'', JStr (wr_path q))] w3))"

definition currentPasswordFailureMessage :: "bool \<Rightarrow> string" where
  "currentPasswordFailureMessage blocked = (if blocked then f_blocked else f_wrong)"

definition redirectAfterOwnSecurityChange :: "web_lib \<Rightarrow> web_request \<Rightarrow> int \<Rightarrow> string \<Rightarrow> session \<Rightarrow> (session \<times> reply) shared" where
  "redirectAfterOwnSecurityChange l q i message s w0 =
     (case find_user l q 10 i w0 of
        (Inl _, w1) \<Rightarrow> clear_session q 11 (redirectWithFlash ''/login'' (message @ f_again) False) s w1
      | (Inr u, w1) \<Rightarrow>
          (case SetUserWithVersion (wr_save q) (wr_raw q) (u_ID u) (u_Username u) (u_Role u) (u_SessionVersion u) s of
             (False, s1) \<Rightarrow> clear_session q 11 (redirectWithFlash ''/login'' (message @ f_again) False) s1 w1
           | (True, s1) \<Rightarrow> ((s1, redirectWithFlash ''/profile'' message True), w1)))"

definition ProfilePost :: "web_lib \<Rightarrow> admin_lib \<Rightarrow> web_request \<Rightarrow> session \<Rightarrow> (session \<times> reply) shared" where
  "ProfilePost l a q s w0 =
     (let newPass = wr_form q ''new_password''
      in case own_user l q 0 s w0 of
           (Inl _, w1) \<Rightarrow> ((s, HttpError 500), w1)
         | (Inr user, w1) \<Rightarrow>
             if newPass = [] then
               ((s, Redirect ''/profile?flash=La+nueva+contrase%C3%B1a+no+puede+estar+vac%C3%ADa''), w1)
             else case checkCurrentPassword l a q s user (wr_form q ''current_password'') w1 of
               ((False, blocked), w2) \<Rightarrow> ((s, redirectWithFlash ''/profile'' (currentPasswordFailureMessage blocked) False), w2)
             | ((True, _), w2) \<Rightarrow>
                 if newPass \<noteq> wr_form q ''password_confirm'' then
                   ((s, Redirect ''/profile?flash=Las+nuevas+contrase%C3%B1as+no+coinciden''), w2)
                 else if length newPass < minPasswordLength then
                   ((s, Redirect ''/profile?flash=La+contrase%C3%B1a+debe+tener+al+menos+12+caracteres''), w2)
                 else case al_hash a newPass of
                   None \<Rightarrow> ((s, redirectWithFlash ''/profile'' passwordTooLongMessage False), w2)
                 | Some hash \<Rightarrow>
                     (case exec q 4 (\<lambda>_. UpdateUserPassword (u_ID user) hash) w2 of
                        (False, w3) \<Rightarrow> ((s, redirectWithFlash ''/profile'' f_pass_failed False), w3)
                      | (True, w3) \<Rightarrow>
                          redirectAfterOwnSecurityChange l q (u_ID user) f_pass_own s
                            (audit a q 5 s ''user.password_change'' (show_int (u_ID user)) (u_Username user) [(''self'', JBool True)] w3)))"

definition already_active :: string where "already_active = ''/profile?flash=2FA+ya+esta+activo''"

definition Profile2FASetup :: "web_lib \<Rightarrow> admin_lib \<Rightarrow> web_request \<Rightarrow> session \<Rightarrow> (session \<times> reply) shared" where
  "Profile2FASetup l a q s w0 =
     (case own_user l q 0 s w0 of
        (Inl _, w1) \<Rightarrow> ((s, HttpError 500), w1)
      | (Inr user, w1) \<Rightarrow>
          if u_TOTPEnabled user then ((s, Redirect already_active), w1)
          else case al_secret a of
            None \<Rightarrow> ((s, redirectWithFlash ''/profile'' f_2fa_prepare False), w1)
          | Some bytes \<Rightarrow>
              (case SetPendingTOTPSetup (wr_save q) (GenerateSecret bytes) (ww_now w1) s of
                 (False, s1) \<Rightarrow> ((s1, HttpError 500), w1)
               | (True, s1) \<Rightarrow> ((s1, Render ''profile_2fa_setup.html'' NoMessage), w1)))"

definition Profile2FAConfirm :: "web_lib \<Rightarrow> admin_lib \<Rightarrow> web_request \<Rightarrow> session \<Rightarrow> (session \<times> reply) shared" where
  "Profile2FAConfirm l a q s w0 =
     (case own_user l q 0 s w0 of
        (Inl _, w1) \<Rightarrow> ((s, HttpError 500), w1)
      | (Inr user, w1) \<Rightarrow>
          if u_TOTPEnabled user then ((s, Redirect already_active), w1)
          else case GetPendingTOTPSetup (ww_now w1) s of
            (_, False) \<Rightarrow> ((s, Redirect ''/profile?flash=No+hay+configuraci%C3%B3n+2FA+pendiente''), w1)
          | (secret, True) \<Rightarrow>
              (case ValidateStep (lib_hmac l) (wr_form q ''code'') secret (ww_now w1) of
                 (_, False) \<Rightarrow> ((s, Render ''profile_2fa_setup.html'' (LoginRefused BadCode)), w1)
               | (step, True) \<Rightarrow>
                   (case exec q 1 (EnableUserTOTP (lib_secrets l) (al_nonce a) (u_ID user) secret) w1 of
                      (False, w2) \<Rightarrow> ((s, redirectWithFlash ''/profile'' f_2fa_on_failed False), w2)
                    | (True, w2) \<Rightarrow>
                        (case exec q 2 (\<lambda>_ db. snd (ClaimUserTOTPStep (u_ID user) step db)) w2 of (_, w3) \<Rightarrow>
                           redirectAfterOwnSecurityChange l q (u_ID user) f_2fa_on s
                             (audit a q 3 s ''user.2fa_enable'' (curUsername s) (curUsername s) [] w3)))))"

definition Profile2FADisable :: "web_lib \<Rightarrow> admin_lib \<Rightarrow> web_request \<Rightarrow> session \<Rightarrow> (session \<times> reply) shared" where
  "Profile2FADisable l a q s w0 =
     (case own_user l q 0 s w0 of
        (Inl _, w1) \<Rightarrow> ((s, HttpError 500), w1)
      | (Inr user, w1) \<Rightarrow>
          (case checkCurrentPassword l a q s user (wr_form q ''current_password'') w1 of
             ((False, blocked), w2) \<Rightarrow> ((s, redirectWithFlash ''/profile'' (currentPasswordFailureMessage blocked) False), w2)
           | ((True, _), w2) \<Rightarrow>
               (case exec q 4 (\<lambda>_. DisableUserTOTP (u_ID user)) w2 of
                  (False, w3) \<Rightarrow> ((s, redirectWithFlash ''/profile'' f_2fa_failed False), w3)
                | (True, w3) \<Rightarrow>
                    redirectAfterOwnSecurityChange l q (u_ID user) f_2fa_off_own s
                      (audit a q 5 s ''user.2fa_disable'' (curUsername s) (curUsername s) [] w3))))"

end
