(* ===== verification/User_Admin_Safety.thy ===== *)
theory User_Admin_Safety
  imports User_Admin
begin

text \<open>
  What the administration of users promises: the tables stay well-formed, an administrator cannot take the role or the account from
  himself, and a change of an account ends every session that was opened on it before.
\<close>

section \<open>The actions of an administrator\<close>

datatype admin_action = AddUser | Rename int | NewPassword int | Reset2FA int | SetRole int | Toggle int | Remove int

fun run_admin :: "web_lib \<Rightarrow> admin_lib \<Rightarrow> web_request \<Rightarrow> admin_action \<Rightarrow> session \<Rightarrow> (session \<times> reply) shared" where
  "run_admin l a q AddUser s = CreateUserPost l a q s"
| "run_admin l a q (Rename i) s = ChangeUsernamePost l a q i s"
| "run_admin l a q (NewPassword i) s = ChangePasswordPost l a q i s"
| "run_admin l a q (Reset2FA i) s = DisableUser2FAPost l a q i s"
| "run_admin l a q (SetRole i) s = ChangeRolePost l a q i s"
| "run_admin l a q (Toggle i) s = ToggleUserPost l a q i s"
| "run_admin l a q (Remove i) s = DeleteUserPost l a q i s"

section \<open>Runs of statements\<close>

definition mixed :: "user_db \<Rightarrow> user_db \<Rightarrow> bool" where
  "mixed = (\<lambda>db db'. \<exists>resets. user_step resets db db')\<^sup>*\<^sup>*"

text \<open>Other requests run any statements on the user tables.\<close>

definition busy :: "web_request \<Rightarrow> bool" where
  "busy q \<longleftrightarrow> (\<forall>n w. mixed (ww_db w) (ww_db (wr_env q n w)))"

lemma mixed_refl [simp]: "mixed db db"
  by (simp add: mixed_def)

lemma mixed_trans [trans]: "mixed a b \<Longrightarrow> mixed b c \<Longrightarrow> mixed a c"
  by (simp add: mixed_def)

lemma mixed_step: "user_step resets db db' \<Longrightarrow> mixed db db'"
  unfolding mixed_def by (rule r_into_rtranclp) blast

lemma mixed_ok: "mixed db db' \<Longrightarrow> users_ok db \<Longrightarrow> users_ok db'"
  unfolding mixed_def by (induction rule: rtranclp_induct) (auto intro: user_step_ok)

named_theorems mixed_access \<open>an access of a request is a run of statements\<close>

lemma env_mixed [mixed_access]: "busy q \<Longrightarrow> mixed (ww_db w) (ww_db (wr_env q n w))"
  by (simp add: busy_def)

lemma query_mixed [mixed_access]: "busy q \<Longrightarrow> query q n f w = (x, w') \<Longrightarrow> mixed (ww_db w) (ww_db w')"
  by (auto simp: query_def Let_def env_mixed)

lemma find_user_mixed [mixed_access]: "busy q \<Longrightarrow> find_user l q n i w = (x, w') \<Longrightarrow> mixed (ww_db w) (ww_db w')"
  unfolding find_user_def by (rule query_mixed)

lemma exec_mixed:
  assumes "busy q" "exec q n f w = (x, w')" "\<And>now db. mixed db (f now db)"
  shows "mixed (ww_db w) (ww_db w')"
  using assms env_mixed [OF assms(1), of w n] mixed_trans by (auto simp: exec_def Let_def split: if_splits)

lemma write_mixed:
  assumes "busy q" "write_db q n f w = (x, w')" "\<And>now db y db'. f now db = Inr (y, db') \<Longrightarrow> mixed db db'"
  shows "mixed (ww_db w) (ww_db w')"
  using assms env_mixed [OF assms(1), of w n] mixed_trans by (fastforce simp: write_db_def Let_def split: if_splits sum.splits)

lemma audit_mixed [mixed_access]: "busy q \<Longrightarrow> mixed (ww_db w) (ww_db (audit a q n s action i name meta w))"
  unfolding audit_def by (rule exec_mixed [where n = n, OF _ surjective_pairing]) (auto intro: mixed_step user_step.audit)

lemma on_challenges_mixed [mixed_access]: "busy q \<Longrightarrow> on_challenges q n f w = (x, w') \<Longrightarrow> mixed (ww_db w) (ww_db w')"
  by (auto simp: on_challenges_def Let_def env_mixed split: prod.splits)

lemma clear_mixed [mixed_access]: "busy q \<Longrightarrow> clear_session q n r s w = (x, w') \<Longrightarrow> mixed (ww_db w) (ww_db w')"
  by (auto simp: clear_session_def split: prod.splits dest: on_challenges_mixed)

section \<open>Sessions that are out of date\<close>

text \<open>No session opened so far on the account is newer than version \<open>v\<close>; none of version \<open>v\<close> is valid any more.\<close>

definition upto :: "int \<Rightarrow> int \<Rightarrow> user_db \<Rightarrow> bool" where
  "upto i v db \<longleftrightarrow> i \<le> at_seq (ud_users db) \<and> (\<forall>r\<in>set (at_rows (ud_users db)). ur_id r = i \<longrightarrow> v \<le> ur_session_version r)"

abbreviation outdated :: "int \<Rightarrow> int \<Rightarrow> user_db \<Rightarrow> bool" where "outdated i v \<equiv> upto i (v + 1)"

lemma upto_update:
  assumes "upto i v db" "\<And>r. ur_id (f r) = ur_id r" "\<And>r. ur_session_version r \<le> ur_session_version (f r)"
  shows "upto i v (update_users P f db)"
proof -
  have "ur_id (if P r then f r else r) = ur_id r" for r using assms(2) by simp
  moreover have "v \<le> ur_session_version (if P r then f r else r)" if "r \<in> set (at_rows (ud_users db))" "ur_id r = i" for r
    using assms(1) assms(3) [of r] that by (auto simp: upto_def)
  ultimately show ?thesis using assms(1) unfolding upto_def update_users_def by (simp add: all_updated at_rows_simps(7))
qed

lemma upto_congs: "ud_users db' = ud_users db \<Longrightarrow> upto i v db' = upto i v db"
  by (simp add: upto_def)

lemma upto_fields [simp]:
  "upto i v (db\<lparr>ud_push := p\<rparr>) = upto i v db" "upto i v (db\<lparr>ud_revoked := x\<rparr>) = upto i v db"
  "upto i v (db\<lparr>ud_attempts := a\<rparr>) = upto i v db" "upto i v (db\<lparr>ud_audit := l\<rparr>) = upto i v db"
  by (simp_all add: upto_def)

lemma upto_create: "CreateUser username hash role now db = Inr (j, db') \<Longrightarrow> upto i v db \<Longrightarrow> upto i v db'"
proof -
  assume new: "CreateUser username hash role now db = Inr (j, db')" and up: "upto i v db"
  have "db' = db\<lparr>ud_users := snd (at_insert (new_user_row username hash role now) (ud_users db))\<rparr>"
    using new by (auto simp: CreateUser_def split: if_splits prod.splits)
  then show "upto i v db'" using up by (auto simp: upto_def at_rows_simps new_user_row_def)
qed

lemma upto_delete: "upto i v db \<Longrightarrow> upto i v (DeleteUser j db)"
  by (auto simp: DeleteUser_def DeletePushSubscriptionsByUser_def upto_def at_rows_simps)

lemma upto_step: "user_step resets db db' \<Longrightarrow> upto i v db \<Longrightarrow> upto i v db'"
proof (induction rule: user_step.induct)
  case (create username hash role now db j db')
  then show ?case by (rule upto_create)
next
  case (delete db j)
  then show ?case by (rule upto_delete)
qed (auto intro!: upto_update
    simp: UpdateUserLastLogin_def UpdateUserUsername_def UpdateUserPassword_def EnableUserTOTP_def DisableUserTOTP_def DisableUserTOTPByUsername_def
      ClaimUserTOTPStep_def ReactivateUserByUsername_def StartUserTOTPGrace_def ClearUserTOTPGrace_def
      SetUserActive_def UpdateUserRole_def ToggleUser_def without_totp_def RevokeSession_def InsertLoginAttempt_def
      DeleteOldLoginAttempts_def InsertAuditLog_def AddPushSubscription_def RemovePushSubscription_def
      DeletePushSubscriptionsByUser_def Let_def
    cong: upto_congs split: if_splits)

lemma upto_mixed: "mixed db db' \<Longrightarrow> upto i v db \<Longrightarrow> upto i v db'"
  unfolding mixed_def by (induction rule: rtranclp_induct) (auto intro: upto_step)

text \<open>The statements that end sessions.\<close>

lemma outdated_update:
  assumes "upto i v db" "\<And>r. ur_id (f r) = ur_id r" "\<And>r. ur_session_version (f r) = ur_session_version r + 1"
  shows "outdated i v (update_users (\<lambda>r. ur_id r = i) f db)"
proof -
  have "ur_id (if ur_id r = i then f r else r) = ur_id r" for r using assms(2) by simp
  then show ?thesis using assms(1,3) unfolding upto_def update_users_def by (simp add: all_updated at_rows_simps(7))
qed

lemma outdated_by:
  assumes "upto i v db"
  shows "outdated i v (UpdateUserPassword i h db)" "outdated i v (DisableUserTOTP i db)" "outdated i v (ToggleUser i db)" "outdated i v (DeleteUser i db)"
    and "UpdateUserRole i role db = Inr db' \<Longrightarrow> outdated i v db'" "UpdateUserUsername i name db = Inr db' \<Longrightarrow> outdated i v db'"
proof -
  note up = outdated_update [OF assms]
  show "outdated i v (UpdateUserPassword i h db)" "outdated i v (DisableUserTOTP i db)" "outdated i v (ToggleUser i db)"
    by (simp_all add: UpdateUserPassword_def DisableUserTOTP_def ToggleUser_def without_totp_def Let_def up)
  show "UpdateUserRole i role db = Inr db' \<Longrightarrow> outdated i v db'" "UpdateUserUsername i name db = Inr db' \<Longrightarrow> outdated i v db'"
    by (auto simp: UpdateUserRole_def UpdateUserUsername_def up split: if_splits)
  show "outdated i v (DeleteUser i db)"
    using assms by (auto simp: DeleteUser_def DeletePushSubscriptionsByUser_def upto_def at_rows_simps at_has_iff)
qed

lemma map_sum_eq_Inr: "map_sum id (Pair ()) x = Inr (y, z) \<longleftrightarrow> x = Inr z"
  by (cases x) auto

lemma exec_outdates:
  assumes "busy q" "exec q n f w = (True, w')" "upto i v (ww_db w)" "\<And>now db. upto i v db \<Longrightarrow> outdated i v (f now db)"
  shows "outdated i v (ww_db w')"
  using assms(2,4) upto_mixed [OF env_mixed [OF assms(1)] assms(3), of n] by (auto simp: exec_def Let_def split: if_splits)

lemma write_outdates:
  assumes "busy q" "write_db q n f w = (Inr x, w')" "upto i v (ww_db w)" "\<And>now db y db'. f now db = Inr (y, db') \<Longrightarrow> upto i v db \<Longrightarrow> outdated i v db'"
  shows "outdated i v (ww_db w')"
  using assms(2,4) upto_mixed [OF env_mixed [OF assms(1)] assms(3), of n] by (auto simp: write_db_def Let_def split: if_splits sum.splits)

lemma query_upto: "busy q \<Longrightarrow> query q n f w = (x, w') \<Longrightarrow> upto i v (ww_db w) \<Longrightarrow> upto i v (ww_db w')"
  by (rule upto_mixed [OF query_mixed])

lemma find_upto: "busy q \<Longrightarrow> find_user l q n j w = (x, w') \<Longrightarrow> upto i v (ww_db w) \<Longrightarrow> upto i v (ww_db w')"
  by (rule upto_mixed [OF find_user_mixed])

lemma audit_upto: "busy q \<Longrightarrow> upto i v (ww_db w) \<Longrightarrow> upto i v (ww_db (audit a q n s action t name meta w))"
  by (rule upto_mixed [OF audit_mixed])

section \<open>Confirmed changes\<close>

text \<open>A handler that did what was asked says so at the end of the address it redirects to.\<close>

definition confirmed :: "reply \<Rightarrow> bool" where
  "confirmed r \<longleftrightarrow> (case r of Redirect u \<Rightarrow> 5 \<le> length u \<and> drop (length u - 5) u = ''&ok=1'' | _ \<Rightarrow> False)"

lemma escape_char_safe:
  "CHR ''='' \<notin> set (if query_plain c then [c] else if c = CHR '' '' then ''+'' else [CHR ''%'', upper_hex (of_char c div 16), upper_hex (of_char c mod 16)])"
proof -
  have hex: "upper_hex n \<noteq> CHR ''=''" if "n < 16" for n
  proof -
    have "list_all (\<lambda>n. upper_hex n \<noteq> CHR ''='') [0..<16]" by code_simp
    then show ?thesis using that by (simp add: list_all_iff)
  qed
  have "of_char c div 16 < (16::nat)" using nat_of_char_less_256 [of c] less_mult_imp_div_less [of "of_char c" 16 16] by simp
  then have "upper_hex (of_char c div 16) \<noteq> CHR ''=''" "upper_hex (of_char c mod 16) \<noteq> CHR ''=''" by (auto intro!: hex)
  moreover have "\<not> query_plain (CHR ''='')" by code_simp
  then have "query_plain c \<Longrightarrow> c \<noteq> CHR ''=''" by blast
  ultimately show ?thesis by (cases "query_plain c"; cases "c = CHR '' ''") auto
qed

lemma escape_safe: "CHR ''='' \<notin> set (QueryEscape m)" "length m \<le> length (QueryEscape m)"
proof -
  show "CHR ''='' \<notin> set (QueryEscape m)"
    unfolding QueryEscape_def set_concat set_map using escape_char_safe by blast
  show "length m \<le> length (QueryEscape m)" by (induction m) (auto simp: QueryEscape_def)
qed

lemma refused_not_confirmed: "2 \<le> length m \<Longrightarrow> \<not> confirmed (redirectWithFlash t m False)"
proof
  assume m: "2 \<le> length m" and "confirmed (redirectWithFlash t m False)"
  have "m \<noteq> []" using m by auto
  then obtain p where p: "redirectWithFlash t m False = Redirect (p @ QueryEscape m)"
    by (auto simp: redirectWithFlash_def Let_def)
  have u: "drop (length (p @ QueryEscape m) - 5) (p @ QueryEscape m) = ''&ok=1''"
    using \<open>confirmed (redirectWithFlash t m False)\<close> unfolding p confirmed_def reply.case by blast
  obtain e x y where e: "QueryEscape m = e @ [x, y]" "x \<noteq> CHR ''=''"
    using m escape_safe [of m]
    by (cases "QueryEscape m" rule: rev_cases; cases "butlast (QueryEscape m)" rule: rev_cases) force+
  have "rev (p @ QueryEscape m) ! 1 = x" using e(1) by simp
  moreover have "rev (p @ QueryEscape m) ! 1 = CHR ''=''"
  proof -
    have "rev (p @ QueryEscape m) = rev (drop (length (p @ QueryEscape m) - 5) (p @ QueryEscape m)) @ rev (take (length (p @ QueryEscape m) - 5) (p @ QueryEscape m))"
      by (metis append_take_drop_id rev_append)
    then show ?thesis unfolding u by simp
  qed
  ultimately show False using e(2) by simp
qed

lemma messages_long [simp]: "2 \<le> length f_name_pass" "2 \<le> length invalidUsernameMessage" "2 \<le> length f_short" "2 \<le> length passwordTooLongMessage"
  "2 \<le> length f_not_created" "2 \<le> length f_name" "2 \<le> length f_no_user" "2 \<le> length f_not_renamed" "2 \<le> length (f_renamed @ name @ f_sign_in)"
  "2 \<le> length f_two" "2 \<le> length f_differ" "2 \<le> length f_pass_failed" "2 \<le> length f_2fa_failed" "2 \<le> length f_role" "2 \<le> length f_own_role"
  "2 \<le> length f_role_failed" "2 \<le> length f_own_state" "2 \<le> length f_state_failed" "2 \<le> length f_admin" "2 \<le> length f_not_deleted"
  by (simp_all add: f_name_pass_def invalidUsernameMessage_def f_short_def passwordTooLongMessage_def f_not_created_def f_name_def f_no_user_def
      f_not_renamed_def f_renamed_def f_two_def f_differ_def f_pass_failed_def f_2fa_failed_def f_role_def f_own_role_def f_role_failed_def
      f_own_state_def f_state_failed_def f_admin_def f_not_deleted_def)

lemmas not_confirmed = messages_long [THEN refused_not_confirmed]

lemma own_password_not_confirmed: "\<not> confirmed (Redirect ''/login?flash=Contrase%C3%B1a+actualizada+-+inicia+sesi%C3%B3n+de+nuevo'')"
  by (simp add: confirmed_def)

lemma clear_reply: "clear_session q n r s w = ((s', r'), w') \<Longrightarrow> r' = r"
  by (auto simp: clear_session_def split: prod.splits)

lemma confirmed_outdates:
  assumes "busy q" "upto i v (ww_db w)" "confirmed r"
  shows "ChangePasswordPost l a q i s w = ((s', r), w') \<Longrightarrow> outdated i v (ww_db w')"
    and "ChangeUsernamePost l a q i s w = ((s', r), w') \<Longrightarrow> outdated i v (ww_db w')"
    and "DisableUser2FAPost l a q i s w = ((s', r), w') \<Longrightarrow> outdated i v (ww_db w')"
    and "ChangeRolePost l a q i s w = ((s', r), w') \<Longrightarrow> outdated i v (ww_db w')"
    and "ToggleUserPost l a q i s w = ((s', r), w') \<Longrightarrow> outdated i v (ww_db w')"
    and "DeleteUserPost l a q i s w = ((s', r), w') \<Longrightarrow> outdated i v (ww_db w')"
proof -
  obtain found w1 where f: "find_user l q 0 i w = (found, w1)" by fastforce
  have up: "upto i v (ww_db w1)" by (rule find_upto [OF assms(1) f assms(2)])
  note by_exec = exec_outdates [OF assms(1) _ up] and by_write = write_outdates [OF assms(1) _ up] and audited = audit_upto [OF assms(1)]
  have run: "exec q n (\<lambda>_. UpdateUserPassword i h) w1 = (True, w2) \<Longrightarrow> outdated i v (ww_db w2)"
    "exec q n (\<lambda>_. DisableUserTOTP i) w1 = (True, w2) \<Longrightarrow> outdated i v (ww_db w2)"
    "exec q n (\<lambda>_. ToggleUser i) w1 = (True, w2) \<Longrightarrow> outdated i v (ww_db w2)"
    "exec q n (\<lambda>_. DeleteUser i) w1 = (True, w2) \<Longrightarrow> outdated i v (ww_db w2)" for n h w2
    using by_exec outdated_by(1-4) by blast+
  have stored: "write_db q n (\<lambda>_ db. map_sum id (Pair ()) (UpdateUserRole i x db)) w1 = (Inr y, w2) \<Longrightarrow> outdated i v (ww_db w2)"
    "write_db q n (\<lambda>_ db. map_sum id (Pair ()) (UpdateUserUsername i x db)) w1 = (Inr y, w2) \<Longrightarrow> outdated i v (ww_db w2)" for n x y w2
    by (erule by_write; auto simp: map_sum_eq_Inr outdated_by(5,6))+
  note pick = prod.splits sum.splits bool.splits if_splits option.splits
  show "DisableUser2FAPost l a q i s w = ((s', r), w') \<Longrightarrow> outdated i v (ww_db w')"
    using assms(3) by (auto simp: DisableUser2FAPost_def f Let_def not_confirmed split: pick intro!: audited dest: run)
  show "ToggleUserPost l a q i s w = ((s', r), w') \<Longrightarrow> outdated i v (ww_db w')"
    using assms(3) by (auto simp: ToggleUserPost_def f Let_def not_confirmed split: pick intro!: audited dest: run)
  show "DeleteUserPost l a q i s w = ((s', r), w') \<Longrightarrow> outdated i v (ww_db w')"
    using assms(3) by (auto simp: DeleteUserPost_def f Let_def not_confirmed split: pick intro!: audited dest: run)
  show "ChangeRolePost l a q i s w = ((s', r), w') \<Longrightarrow> outdated i v (ww_db w')"
    using assms(3) by (auto simp: ChangeRolePost_def f Let_def not_confirmed split: pick intro!: audited dest: stored)
  show "ChangeUsernamePost l a q i s w = ((s', r), w') \<Longrightarrow> outdated i v (ww_db w')"
    using assms(3) by (auto simp: ChangeUsernamePost_def f Let_def not_confirmed split: pick intro!: audited dest: stored dest!: clear_reply)
  show "ChangePasswordPost l a q i s w = ((s', r), w') \<Longrightarrow> outdated i v (ww_db w')"
    using assms(3) by (auto simp: ChangePasswordPost_def f Let_def not_confirmed own_password_not_confirmed split: pick intro!: audited dest: run dest!: clear_reply)
qed

fun target_of :: "admin_action \<Rightarrow> int option" where
  "target_of AddUser = None"
| "target_of (Rename i) = Some i"
| "target_of (NewPassword i) = Some i"
| "target_of (Reset2FA i) = Some i"
| "target_of (SetRole i) = Some i"
| "target_of (Toggle i) = Some i"
| "target_of (Remove i) = Some i"

lemma GetUser_row: "GetUser secrets i db = Inr u \<Longrightarrow> \<exists>r\<in>set (at_rows (ud_users db)). ur_id r = i \<and> u_SessionVersion u = ur_session_version r \<and> u_Username u = ur_username r \<and> u_Role u = ur_role r"
proof -
  assume u: "GetUser secrets i db = Inr u"
  obtain r where r: "at_first (\<lambda>r. ur_id r = i) (ud_users db) = Some r" "scanUser secrets r = Inr u"
    using u by (auto simp: GetUser_def query_user_def split: option.splits)
  have "r \<in> set (at_rows (ud_users db)) \<and> ur_id r = i" using r(1) by (auto simp: at_first_def find_Some_iff)
  moreover have "u_SessionVersion u = ur_session_version r \<and> u_Username u = ur_username r \<and> u_Role u = ur_role r"
    using r(2) by (auto simp: scanUser_def split: option.splits)
  ultimately show ?thesis by blast
qed

lemma outdated_refused:
  assumes "busy q" "outdated i v (ww_db w)" "fst (UserID s) = i" "fst (UserVersion s) \<le> v"
  shows "snd (fst (RequireLogin l q escaped s w)) \<noteq> NextHandler"
proof -
  obtain name role ok where g: "session_GetUser s = (name, role, ok)" by (metis prod_cases3)
  obtain found w1 where f: "query q 0 (\<lambda>w. GetUser (lib_secrets l) i (ww_db w)) w = (found, w1)" by fastforce
  have turned: "snd (fst (clear_session q n (Redirect u) s w1)) \<noteq> NextHandler" for n u
    by (simp add: clear_session_def case_prod_unfold)
  show ?thesis
  proof (cases found)
    case (Inr u)
    have "GetUser (lib_secrets l) i (ww_db w1) = Inr u" using f Inr by (auto simp: query_def Let_def split: if_splits)
    then obtain r where "r \<in> set (at_rows (ud_users (ww_db w1)))" "ur_id r = i" "u_SessionVersion u = ur_session_version r"
      using GetUser_row by blast
    moreover have "outdated i v (ww_db w1)" by (rule query_upto [OF assms(1) f assms(2)])
    ultimately have "fst (UserVersion s) \<noteq> u_SessionVersion u" using assms(4) by (auto simp: upto_def)
    then show ?thesis using turned by (simp add: RequireLogin_def g assms(3) f Inr split: bool.split)
  qed (use turned in \<open>simp add: RequireLogin_def g assms(3) f split: bool.split\<close>)
qed

text \<open>C4: a change of an account by an administrator ends every session opened on it before. Once renaming, a new password, a reset of the
  second factor, a role, a (de)activation or a deletion is confirmed, no page is served to a session
  of that user with a version up to the one the account had when the change was asked for: not in any later state, however the
  requests of others interleave with the change and with the page.\<close>

theorem account_change_ends_sessions:
  assumes "busy q" "upto i v (ww_db w)" "target_of act = Some i"
    and "run_admin l a q act s w = ((s', r), w')" "confirmed r"
    and "mixed (ww_db w') (ww_db w2)" "busy q2" "fst (UserID s2) = i" "fst (UserVersion s2) \<le> v"
  shows "snd (fst (RequireLogin l2 q2 escaped s2 w2)) \<noteq> NextHandler"
proof -
  have "outdated i v (ww_db w')"
    using assms(3,4) confirmed_outdates [OF assms(1,2,5)] by (cases act) auto
  then have "outdated i v (ww_db w2)" by (rule upto_mixed [OF assms(6)])
  then show ?thesis by (rule outdated_refused [OF assms(7) _ assms(8,9)])
qed

section \<open>Well-formed tables\<close>

lemma run_admin_mixed:
  assumes "busy q" "run_admin l a q act s w = ((s', r), w')"
  shows "mixed (ww_db w) (ww_db w')"
proof -
  have wr: "mixed x (ww_db w1)" if "exec q n (\<lambda>_. f) w0 = (b, w1)" "mixed x (ww_db w0)" "\<And>db. mixed db (f db)" for x n f b w0 w1
    using mixed_trans [OF that(2) exec_mixed [OF assms(1) that(1,3)]] .
  have fd: "mixed x (ww_db w1)" if "find_user l q n i w0 = (b, w1)" "mixed x (ww_db w0)" for x n i b w0 w1
    using mixed_trans [OF that(2) find_user_mixed [OF assms(1) that(1)]] .
  have au: "mixed x (ww_db (audit a q n s0 act i nm meta w0))" if "mixed x (ww_db w0)" for x n s0 act i nm meta w0
    using mixed_trans [OF that audit_mixed [OF assms(1)]] .
  have cl: "mixed x (ww_db w1)" if "clear_session q n r s0 w0 = (b, w1)" "mixed x (ww_db w0)" for x n r s0 b w0 w1
    using mixed_trans [OF that(2) clear_mixed [OF assms(1) that(1)]] .
  have cr: "mixed x (ww_db w1)" if "write_db q n (CreateUser nm h ro) w0 = (b, w1)" "mixed x (ww_db w0)" for x n nm h ro w0 w1 and b :: "sql_error + int"
    by (rule mixed_trans [OF that(2) write_mixed [OF assms(1) that(1)]]) (rule mixed_step, rule user_step.create, assumption)
  have rn: "mixed x (ww_db w1)" if "write_db q n (\<lambda>_ db. map_sum id (Pair ()) (UpdateUserUsername i nm db)) w0 = (b, w1)" "mixed x (ww_db w0)" for x n i nm b w0 w1
    by (rule mixed_trans [OF that(2) write_mixed [OF assms(1) that(1)]]) (auto simp: map_sum_eq_Inr intro: mixed_step user_step.rename)
  have ro: "mixed x (ww_db w1)" if "write_db q n (\<lambda>_ db. map_sum id (Pair ()) (UpdateUserRole i nm db)) w0 = (b, w1)" "mixed x (ww_db w0)" for x n i nm b w0 w1
    by (rule mixed_trans [OF that(2) write_mixed [OF assms(1) that(1)]]) (auto simp: map_sum_eq_Inr intro: mixed_step user_step.role)
  note pick = prod.splits sum.splits bool.splits if_splits option.splits
  note steps = user_step.password [THEN mixed_step] user_step.disable_totp [THEN mixed_step] user_step.toggle [THEN mixed_step] user_step.delete [THEN mixed_step]
  show ?thesis
  proof (cases act)
    case AddUser
    show ?thesis using assms(2)
      by (auto simp: AddUser CreateUserPost_def Let_def split: pick) (rule mixed_refl | rule au | (rule cr, assumption))+
  next
    case (Rename i)
    show ?thesis using assms(2)
      by (auto simp: Rename ChangeUsernamePost_def Let_def split: pick) (rule mixed_refl | rule au | (rule rn, assumption) | (rule fd, assumption) | (rule cl, assumption))+
  next
    case (NewPassword i)
    show ?thesis using assms(2)
      by (auto simp: NewPassword ChangePasswordPost_def Let_def split: pick) (rule mixed_refl | rule au | (rule wr, assumption) | (rule fd, assumption) | (rule cl, assumption) | rule steps)+
  next
    case (Reset2FA i)
    show ?thesis using assms(2)
      by (auto simp: Reset2FA DisableUser2FAPost_def Let_def split: pick) (rule mixed_refl | rule au | (rule wr, assumption) | (rule fd, assumption) | rule steps)+
  next
    case (SetRole i)
    show ?thesis using assms(2)
      by (auto simp: SetRole ChangeRolePost_def Let_def split: pick) (rule mixed_refl | rule au | (rule ro, assumption) | (rule fd, assumption))+
  next
    case (Toggle i)
    show ?thesis using assms(2)
      by (auto simp: Toggle ToggleUserPost_def Let_def split: pick) (rule mixed_refl | rule au | (rule wr, assumption) | (rule fd, assumption) | rule steps)+
  next
    case (Remove i)
    show ?thesis using assms(2)
      by (auto simp: Remove DeleteUserPost_def Let_def split: pick) (rule mixed_refl | rule au | (rule wr, assumption) | (rule fd, assumption) | rule steps)+
  qed
qed


section \<open>The administrator who acts stays one\<close>

definition standing :: "int \<Rightarrow> user_db \<Rightarrow> bool" where
  "standing i db \<longleftrightarrow> at_has (\<lambda>r. ur_id r = i \<and> active_admin r) (ud_users db)"

lemma standing_congs: "ud_users db' = ud_users db \<Longrightarrow> standing i db' = standing i db"
  by (simp add: standing_def)

lemma standing_update:
  assumes "standing i db" "\<And>r. ur_id (f r) = ur_id r" "\<And>r. P r \<Longrightarrow> ur_id r = i \<Longrightarrow> active_admin r \<Longrightarrow> active_admin (f r)"
  shows "standing i (update_users P f db)"
proof -
  obtain r where r: "r \<in> set (at_rows (ud_users db))" "ur_id r = i" "active_admin r" using assms(1) by (auto simp: standing_def at_has_iff)
  then have "(if P r then f r else r) \<in> set (at_rows (ud_users (update_users P f db)))" by (auto simp: update_users_def at_rows_simps)
  moreover have "ur_id (if P r then f r else r) = i \<and> active_admin (if P r then f r else r)" using r assms(2,3) by simp
  ultimately show ?thesis unfolding standing_def at_has_iff by blast
qed

lemma standing_kept:
  assumes "standing i db"
  shows "standing i (UpdateUserPassword j h db)" "standing i (DisableUserTOTP j db)" "j \<noteq> i \<Longrightarrow> standing i (ToggleUser j db)"
    and "j \<noteq> i \<Longrightarrow> standing i (DeleteUser j db)" "standing i (InsertAuditLog e now db)"
    and "j \<noteq> i \<Longrightarrow> UpdateUserRole j role db = Inr db' \<Longrightarrow> standing i db'" "UpdateUserUsername j name db = Inr db' \<Longrightarrow> standing i db'"
    and "CreateUser nm h ro now db = Inr (k, db') \<Longrightarrow> standing i db'"
proof -
  note up = standing_update [OF assms]
  show "standing i (UpdateUserPassword j h db)" "standing i (DisableUserTOTP j db)" "j \<noteq> i \<Longrightarrow> standing i (ToggleUser j db)"
    by (auto simp: UpdateUserPassword_def DisableUserTOTP_def ToggleUser_def without_totp_def Let_def active_admin_def cong: standing_congs intro!: up)
  show "j \<noteq> i \<Longrightarrow> UpdateUserRole j role db = Inr db' \<Longrightarrow> standing i db'" "UpdateUserUsername j name db = Inr db' \<Longrightarrow> standing i db'"
    by (auto simp: UpdateUserRole_def UpdateUserUsername_def active_admin_def split: if_splits intro!: up)
  show "standing i (InsertAuditLog e now db)" using assms by (simp add: InsertAuditLog_def standing_def)
  show "j \<noteq> i \<Longrightarrow> standing i (DeleteUser j db)"
    using assms by (auto simp: DeleteUser_def DeletePushSubscriptionsByUser_def standing_def at_rows_simps at_has_iff)
  show "CreateUser nm h ro now db = Inr (k, db') \<Longrightarrow> standing i db'"
  proof -
    assume "CreateUser nm h ro now db = Inr (k, db')"
    then have "db' = db\<lparr>ud_users := snd (at_insert (new_user_row nm h ro now) (ud_users db))\<rparr>"
      by (auto simp: CreateUser_def split: if_splits prod.splits)
    then show "standing i db'" using assms by (auto simp: standing_def at_rows_simps at_has_iff)
  qed
qed

text \<open>The statements of a request that runs alone.\<close>

lemma alone_find: "wr_env q = alone \<Longrightarrow> find_user l q n i w = (if wr_fail q n then Inl (Refused ''database'') else GetUser (lib_secrets l) i (ww_db w), w)"
  unfolding find_user_def by (rule alone_accesses(1))

lemma alone_write: "wr_env q = alone \<Longrightarrow> write_db q n f w = (x, w') \<Longrightarrow> w' = w \<or> (\<exists>y db. f (ww_now w) (ww_db w) = Inr (y, db) \<and> ww_db w' = db)"
  by (auto simp: write_db_def alone_def Let_def split: if_splits sum.splits)

lemma alone_exec: "wr_env q = alone \<Longrightarrow> exec q n f w = (x, w') \<Longrightarrow> w' = w \<or> ww_db w' = f (ww_now w) (ww_db w)"
  by (auto simp: alone_accesses split: if_splits)

lemma standing_exec: "wr_env q = alone \<Longrightarrow> exec q n f w = (x, w') \<Longrightarrow> standing i (ww_db w) \<Longrightarrow> (\<And>now db. standing i db \<Longrightarrow> standing i (f now db)) \<Longrightarrow> standing i (ww_db w')"
  using alone_exec by metis

lemma standing_write: "wr_env q = alone \<Longrightarrow> write_db q n f w = (x, w') \<Longrightarrow> standing i (ww_db w) \<Longrightarrow>
    (\<And>now db y db'. f now db = Inr (y, db') \<Longrightarrow> standing i db \<Longrightarrow> standing i db') \<Longrightarrow> standing i (ww_db w')"
  using alone_write by metis

lemma standing_audit: "wr_env q = alone \<Longrightarrow> standing i (ww_db w) \<Longrightarrow> standing i (ww_db (audit a q n s act k nm meta w))"
  unfolding audit_def using standing_exec [OF _ surjective_pairing] standing_kept(5) by blast

lemma standing_clear: "wr_env q = alone \<Longrightarrow> clear_session q n r s w = (x, w') \<Longrightarrow> ww_db w' = ww_db w"
  using alone_accesses(4) [of q n] by (fastforce simp: clear_session_def split: prod.splits dest: arg_cong [where f = snd])

lemma own_row:
  assumes "users_ok db" "r \<in> set (at_rows (ud_users db))" "GetUser secrets i db = Inr u" "i = ur_id r"
  shows "u_Username u = ur_username r \<and> u_Role u = ur_role r"
proof -
  obtain r' where r': "r' \<in> set (at_rows (ud_users db))" "ur_id r' = i" "u_Username u = ur_username r'" "u_Role u = ur_role r'"
    using GetUser_row [OF assms(3)] by blast
  have "at_ok ur_id (ud_users db)" using users_okD(1) [OF assms(1)] by (simp add: accounts_ok_def)
  then have "r' = r" using r'(1,2) assms(2,4) by (auto dest: at_ok_id_inj)
  then show ?thesis using r' by simp
qed

text \<open>C24: an administrator cannot take the last administrator away by acting on himself. Whatever he asks for, and whichever statement fails,
  he is an active administrator afterwards, unless another request comes in between.\<close>

theorem acting_admin_stays:
  assumes alone: "wr_env q = alone" and ok: "users_ok (ww_db w)"
    and me: "r \<in> set (at_rows (ud_users (ww_db w)))" "active_admin r" "ur_username r = curUsername s" "sessionRole s = ''admin''"
  shows "standing (ur_id r) (ww_db (snd (run_admin l a q act s w)))"
proof -
  let ?i = "ur_id r"
  have here: "standing ?i (ww_db w)" using me(1,2) by (auto simp: standing_def at_has_iff)
  obtain out w' where run: "run_admin l a q act s w = (out, w')" by (metis prod.collapse)
  note find = alone_find [OF alone] and au = standing_audit [OF alone] and pick = prod.splits sum.splits bool.splits if_splits option.splits
  note ex = standing_exec [OF alone _ here] and wr = standing_write [OF alone _ here]
  have cl: "standing ?i (ww_db w2)" if "clear_session q n rr s0 w1 = (b, w2)" "standing ?i (ww_db w1)" for n rr s0 w1 b w2
    using standing_clear [OF alone that(1)] that(2) by simp
  have other: "j \<noteq> ?i" if "GetUser (lib_secrets l) j (ww_db w) = Inr u" "u_Username u \<noteq> curUsername s \<or> u_Role u \<noteq> ''admin''" for j u
    using that own_row [OF ok me(1) that(1)] me(2,3) by (auto simp: active_admin_def)
  have pw: "standing ?i (ww_db w2)" if "exec q n (\<lambda>_. UpdateUserPassword j h) w = (b, w2)" for n j h b w2
    by (rule ex [OF that], erule standing_kept)
  have off: "standing ?i (ww_db w2)" if "exec q n (\<lambda>_. DisableUserTOTP j) w = (b, w2)" for n j b w2
    by (rule ex [OF that], erule standing_kept)
  have tog: "standing ?i (ww_db w2)" if "exec q n (\<lambda>_. ToggleUser j) w = (b, w2)" "GetUser (lib_secrets l) j (ww_db w) = Inr u" "u_Username u \<noteq> curUsername s" for n j b u w2
    by (rule ex [OF that(1)], erule standing_kept(3)) (use other [OF that(2)] that(3) in blast)
  have del: "standing ?i (ww_db w2)" if "exec q n (\<lambda>_. DeleteUser j) w = (b, w2)" "GetUser (lib_secrets l) j (ww_db w) = Inr u" "u_Role u \<noteq> ''admin''" for n j b u w2
    by (rule ex [OF that(1)], erule standing_kept(4)) (use other [OF that(2)] that(3) in blast)
  have add: "standing ?i (ww_db w2)" if "write_db q n (CreateUser nm h ro) w = (b, w2)" for n nm h ro w2 and b :: "sql_error + int"
    by (rule wr [OF that], erule standing_kept(8))
  have ren: "standing ?i (ww_db w2)" if "write_db q n (\<lambda>_ db. map_sum id (Pair ()) (UpdateUserUsername j nm db)) w = (b, w2)" for n j nm b w2
    by (rule wr [OF that]) (auto simp: map_sum_eq_Inr intro: standing_kept(7))
  have role: "standing ?i (ww_db w2)" if "write_db q n (\<lambda>_ db. map_sum id (Pair ()) (UpdateUserRole j ro db)) w = (b, w2)"
    "GetUser (lib_secrets l) j (ww_db w) = Inr u" "u_Username u \<noteq> curUsername s" for n j ro b u w2
    using other [OF that(2)] that(3) by (intro wr [OF that(1)]) (auto simp: map_sum_eq_Inr intro: standing_kept(6))
  have "standing ?i (ww_db w')"
  proof (cases act)
    case AddUser
    show ?thesis using run here
      by (auto simp: AddUser CreateUserPost_def Let_def find me(4) split: pick) (rule au | rule here | assumption | (rule add, assumption))+
  next
    case (Rename i)
    show ?thesis using run here
      by (auto simp: Rename ChangeUsernamePost_def Let_def find me(4) split: pick) (rule au | rule here | assumption | (rule ren, assumption) | (rule cl, assumption))+
  next
    case (NewPassword i)
    show ?thesis using run here
      by (auto simp: NewPassword ChangePasswordPost_def Let_def find me(4) split: pick) (rule au | rule here | assumption | (rule pw, assumption) | (rule cl, assumption))+
  next
    case (Reset2FA i)
    show ?thesis using run here
      by (auto simp: Reset2FA DisableUser2FAPost_def Let_def find me(4) split: pick) (rule au | rule here | assumption | (rule off, assumption))+
  next
    case (SetRole i)
    show ?thesis using run here
      by (auto simp: SetRole ChangeRolePost_def Let_def find me(4) split: pick) (rule au | rule here | assumption | (rule role, assumption+))+
  next
    case (Toggle i)
    show ?thesis using run here
      by (auto simp: Toggle ToggleUserPost_def Let_def find me(4) split: pick) (rule au | rule here | assumption | (rule tog, assumption+))+
  next
    case (Remove i)
    show ?thesis using run here
      by (auto simp: Remove DeleteUserPost_def Let_def find me(4) split: pick) (rule au | rule here | assumption | (rule del, assumption+))+
  qed
  then show ?thesis by (simp add: run)
qed

section \<open>Two administrators at work\<close>

definition sample_admin_lib :: admin_lib where
  "sample_admin_lib = \<lparr>al_hash = Some, al_json = (\<lambda>_. ''{}''), al_nonce = [], al_secret = None\<rparr>"

definition eva_session :: session where
  "eva_session = request_session (Some [(''sid'', SStr ''e''), (''username'', SStr ''eva''), (''role'', SStr ''admin''), (''user_id'', SInt64 2), (''session_version'', SInt 1)])"

definition role_request :: "(nat \<Rightarrow> web_world \<Rightarrow> web_world) \<Rightarrow> web_request" where
  "role_request env = sample_request env [] [(''role'', ''reader'')]"

definition ana_demotes_eva :: "(nat \<Rightarrow> web_world \<Rightarrow> web_world) \<Rightarrow> (session \<times> reply) shared" where
  "ana_demotes_eva env w = run_admin sample_lib sample_admin_lib (role_request env) (SetRole 2) ana_session w"

definition eva_in_between :: "nat \<Rightarrow> web_world \<Rightarrow> web_world" where
  "eva_in_between n w = (if n = 1 then snd (run_admin sample_lib sample_admin_lib (role_request alone) (SetRole 1) eva_session w) else w)"

lemma sample_ok: "users_ok (ww_db (sample_world totp now))"
  by (auto simp: sample_world_def users_ok_def accounts_ok_def subs_ok_def at_ok_def unique_by_def
      user_row_ok_def sample_admin_def new_user_row_def valid_roles_def subs_of_def at_select_def at_empty_def refs_in_def)

lemma alone_busy: "wr_env q = alone \<Longrightarrow> busy q"
  by (simp add: busy_def alone_def)

lemma role_request_env [simp]: "wr_env (role_request env) = env"
  by (simp add: role_request_def)

theorem account_change_ends_sessions_witness:
  "confirmed (snd (fst (ana_demotes_eva alone (sample_world True 0)))) \<and>
   snd (fst (RequireLogin sample_lib (role_request alone) [] eva_session (sample_world True 0))) = NextHandler \<and>
   snd (fst (RequireLogin sample_lib (role_request alone) [] eva_session (snd (ana_demotes_eva alone (sample_world True 0))))) \<noteq> NextHandler"
proof -
  let ?out = "ana_demotes_eva alone (sample_world True 0)"
  have run: "run_admin sample_lib sample_admin_lib (role_request alone) (SetRole 2) ana_session (sample_world True 0) =
      ((fst (fst ?out), snd (fst ?out)), snd ?out)" by (simp add: ana_demotes_eva_def)
  have yes: "confirmed (snd (fst ?out))"
    "snd (fst (RequireLogin sample_lib (role_request alone) [] eva_session (sample_world True 0))) = NextHandler" by code_simp+
  have "upto 2 1 (ww_db (sample_world True 0))" by (auto simp: upto_def sample_world_def sample_admin_def new_user_row_def)
  moreover have "fst (UserID eva_session) = 2" "fst (UserVersion eva_session) \<le> 1" by code_simp+
  moreover have "target_of (SetRole 2) = Some 2" by simp
  ultimately have "snd (fst (RequireLogin sample_lib (role_request alone) [] eva_session (snd ?out))) \<noteq> NextHandler"
    using account_change_ends_sessions [OF alone_busy _ _ run yes(1) mixed_refl alone_busy,
        where i = 2 and v = 1 and ?s2.0 = eva_session and ?l2.0 = sample_lib and escaped = "[]" and ?q2.0 = "role_request alone"] by simp
  with yes show ?thesis by blast
qed


theorem acting_admin_stays_witness: "standing 1 (ww_db (snd (ana_demotes_eva alone (sample_world True 0))))"
proof -
  let ?r = "sample_admin 1 ''ana'' True"
  have "?r \<in> set (at_rows (ud_users (ww_db (sample_world True 0))))" by (simp add: sample_world_def)
  moreover have "active_admin ?r" "ur_username ?r = curUsername ana_session" "sessionRole ana_session = ''admin''" "ur_id ?r = 1" by code_simp+
  ultimately show ?thesis
    using acting_admin_stays [OF _ sample_ok, of "role_request alone" ?r True 0 ana_session sample_lib sample_admin_lib "SetRole 2"]
    by (simp add: ana_demotes_eva_def)
qed


end
