(* ===== verification/Pve_Copies.thy ===== *)
theory Pve_Copies
  imports Domain_Model
begin

text \<open>
  The copies a PVE host retains of each virtual machine, \<open>internal/domain/pve_copies.go\<close>, as the dashboard and the
  daily mail show them. The map of the rows is a table whose order of iteration does not matter, because the rows are
  sorted by their distinct keys in the end. Shown here: the two nested loops compute, machine by machine, the number of
  distinct volumes.
\<close>

record pve_vm_copies =
  vc_VMID :: int
  vc_VMName :: string
  vc_PBS :: int
  vc_Vzdump :: int
  vc_Total :: int

type_synonym copies_table = "(int, pve_vm_copies) table"

text \<open>The body of the inner loop: an item that is no backup of a machine, or whose volume was seen on this storage, is skipped.\<close>

definition add_copy :: "string \<Rightarrow> int \<Rightarrow> copies_table \<Rightarrow> copies_table" where
  "add_copy kind vmid byVM =
     (let row = (case tbl_get byVM vmid of
            None \<Rightarrow> \<lparr>vc_VMID = vmid, vc_VMName = [], vc_PBS = 0, vc_Vzdump = 0, vc_Total = 0\<rparr>
          | Some r \<Rightarrow> r);
          row1 = (if kind = ''pbs'' then row\<lparr>vc_PBS := vc_PBS row + 1\<rparr> else row\<lparr>vc_Vzdump := vc_Vzdump row + 1\<rparr>)
      in tbl_put vmid (row1\<lparr>vc_Total := vc_Total row1 + 1\<rparr>) byVM)"

fun count_items :: "string \<Rightarrow> pve_storage_content list \<Rightarrow> string list \<Rightarrow> copies_table \<Rightarrow> copies_table" where
  "count_items kind [] seen byVM = byVM"
| "count_items kind (item # items) seen byVM =
     (if pvesc_Content item \<noteq> ''backup'' \<or> pvesc_VMID item \<le> 0 then count_items kind items seen byVM
      else if pvesc_VolID item \<noteq> [] \<and> pvesc_VolID item \<in> set seen then count_items kind items seen byVM
      else count_items kind items (if pvesc_VolID item \<noteq> [] then pvesc_VolID item # seen else seen)
        (add_copy kind (pvesc_VMID item) byVM))"

definition CountPVEVMCopies :: "pve_storage list \<Rightarrow> (int \<Rightarrow> pve_storage_content list) \<Rightarrow> pve_vm_copies list" where
  "CountPVEVMCopies storages contents =
     sort_key vc_VMID (map snd (foldl (\<lambda>byVM s. count_items (pvest_Type s) (contents (pvest_ID s)) [] byVM) [] storages))"

section \<open>The number of distinct copies\<close>

definition backups_of :: "int \<Rightarrow> pve_storage_content list \<Rightarrow> pve_storage_content list" where
  "backups_of v items = filter (\<lambda>i. pvesc_Content i = ''backup'' \<and> 0 < pvesc_VMID i \<and> pvesc_VMID i = v) items"

text \<open>Volumes count once, items without the name of a volume each for itself.\<close>

definition copies_on :: "int \<Rightarrow> pve_storage_content list \<Rightarrow> nat" where
  "copies_on v items = card (pvesc_VolID ` set (backups_of v items) - {[]}) + length (filter (\<lambda>i. pvesc_VolID i = []) (backups_of v items))"

definition copies_of :: "bool \<Rightarrow> pve_storage list \<Rightarrow> (int \<Rightarrow> pve_storage_content list) \<Rightarrow> int \<Rightarrow> nat" where
  "copies_of pbs storages contents v = sum_list (map (\<lambda>s. copies_on v (contents (pvest_ID s))) (filter (\<lambda>s. (pvest_Type s = ''pbs'') = pbs) storages))"

definition copies_row :: "int \<Rightarrow> nat \<Rightarrow> nat \<Rightarrow> pve_vm_copies" where
  "copies_row v p z = \<lparr>vc_VMID = v, vc_VMName = [], vc_PBS = int p, vc_Vzdump = int z, vc_Total = int (p + z)\<rparr>"

definition reference_copies :: "pve_storage list \<Rightarrow> (int \<Rightarrow> pve_storage_content list) \<Rightarrow> pve_vm_copies list" where
  "reference_copies storages contents =
     map (\<lambda>v. copies_row v (copies_of True storages contents v) (copies_of False storages contents v))
       (sorted_list_of_set (pvesc_VMID ` (\<Union>s\<in>set storages. {i \<in> set (contents (pvest_ID s)). pvesc_Content i = ''backup'' \<and> 0 < pvesc_VMID i})))"

text \<open>On one storage a volume belongs to one machine.\<close>

definition volumes_ok :: "pve_storage_content list \<Rightarrow> bool" where
  "volumes_ok items \<longleftrightarrow> (\<forall>i\<in>set items. \<forall>j\<in>set items. pvesc_VolID i = pvesc_VolID j \<and> pvesc_VolID i \<noteq> [] \<longrightarrow> pvesc_VMID i = pvesc_VMID j)"

section \<open>The loops count it\<close>

definition counted :: "copies_table \<Rightarrow> (int \<Rightarrow> nat) \<Rightarrow> (int \<Rightarrow> nat) \<Rightarrow> bool" where
  "counted t p z \<longleftrightarrow> tbl_ok t \<and> (\<forall>v. tbl_get t v = (if p v + z v = 0 then None else Some (copies_row v (p v) (z v))))"

lemma counted_add:
  assumes "counted t p z"
  shows "counted (add_copy kind v t) (if kind = ''pbs'' then p(v := Suc (p v)) else p) (if kind = ''pbs'' then z else z(v := Suc (z v)))"
  using assms by (auto simp: counted_def add_copy_def copies_row_def tbl_simps Let_def)

text \<open>What the items still add once some volumes were seen.\<close>

definition fresh_on :: "string list \<Rightarrow> pve_storage_content list \<Rightarrow> int \<Rightarrow> nat" where
  "fresh_on seen items v = card (pvesc_VolID ` set (backups_of v items) - {[]} - set seen) + length (filter (\<lambda>i. pvesc_VolID i = []) (backups_of v items))"

lemma volumes_ok_Cons: "volumes_ok (i # is) \<Longrightarrow> volumes_ok is"
  by (auto simp: volumes_ok_def)

lemma fresh_on_skip:
  "pvesc_Content i \<noteq> ''backup'' \<or> pvesc_VMID i \<le> 0 \<Longrightarrow> fresh_on seen (i # is) = fresh_on seen is"
  "pvesc_VolID i \<noteq> [] \<Longrightarrow> pvesc_VolID i \<in> set seen \<Longrightarrow> fresh_on seen (i # is) = fresh_on seen is"
  by (auto simp: fresh_on_def backups_of_def fun_eq_iff insert_Diff_if)

lemma fresh_on_unnamed:
  "pvesc_Content i = ''backup'' \<Longrightarrow> 0 < pvesc_VMID i \<Longrightarrow> pvesc_VolID i = [] \<Longrightarrow>
   fresh_on seen (i # is) v = fresh_on seen is v + (if v = pvesc_VMID i then 1 else 0)"
  by (auto simp: fresh_on_def backups_of_def)

lemma fresh_on_named:
  assumes "volumes_ok (i # is)" "pvesc_Content i = ''backup''" "0 < pvesc_VMID i" "pvesc_VolID i \<noteq> []" "pvesc_VolID i \<notin> set seen"
  shows "fresh_on seen (i # is) v = fresh_on (pvesc_VolID i # seen) is v + (if v = pvesc_VMID i then 1 else 0)"
proof (cases "v = pvesc_VMID i")
  case True
  let ?V = "pvesc_VolID ` set (backups_of v is) - {[]} - set seen"
  have "pvesc_VolID ` set (backups_of v (i # is)) - {[]} - set seen = insert (pvesc_VolID i) (?V - {pvesc_VolID i})"
    using assms True by (auto simp: backups_of_def)
  moreover have "pvesc_VolID ` set (backups_of v is) - {[]} - set (pvesc_VolID i # seen) = ?V - {pvesc_VolID i}" by auto
  moreover have "card (insert (pvesc_VolID i) (?V - {pvesc_VolID i})) = Suc (card (?V - {pvesc_VolID i}))" by (rule card_insert_disjoint) auto
  moreover have "length (filter (\<lambda>i. pvesc_VolID i = []) (backups_of v (i # is))) = length (filter (\<lambda>i. pvesc_VolID i = []) (backups_of v is))"
    using assms(4) by (simp add: backups_of_def)
  ultimately show ?thesis using True unfolding fresh_on_def by simp
next
  case False
  have "pvesc_VolID i \<notin> pvesc_VolID ` set (backups_of v is)"
  proof
    assume "pvesc_VolID i \<in> pvesc_VolID ` set (backups_of v is)"
    then obtain j where "j \<in> set is" "pvesc_VMID j = v" "pvesc_VolID i = pvesc_VolID j" by (auto simp: backups_of_def)
    moreover have "pvesc_VolID i = pvesc_VolID j \<and> pvesc_VolID i \<noteq> [] \<longrightarrow> pvesc_VMID i = pvesc_VMID j"
      using assms(1) \<open>j \<in> set is\<close> unfolding volumes_ok_def list.set by blast
    ultimately show False using False assms(4) by simp
  qed
  then have "pvesc_VolID ` set (backups_of v is) - {[]} - set (pvesc_VolID i # seen) = pvesc_VolID ` set (backups_of v is) - {[]} - set seen" by auto
  moreover have "backups_of v (i # is) = backups_of v is" using False by (simp add: backups_of_def)
  ultimately show ?thesis using False unfolding fresh_on_def by simp
qed

lemma count_items_counted:
  assumes "volumes_ok items" "counted t p z"
  shows "counted (count_items kind items seen t)
    (\<lambda>v. p v + (if kind = ''pbs'' then fresh_on seen items v else 0)) (\<lambda>v. z v + (if kind = ''pbs'' then 0 else fresh_on seen items v))"
  using assms
proof (induction kind items seen t arbitrary: p z rule: count_items.induct)
  case (1 kind seen byVM)
  then show ?case by (simp add: fresh_on_def backups_of_def cong: if_cong)
next
  case (2 kind item items seen byVM)
  note ok = volumes_ok_Cons [OF "2.prems"(1)]
  show ?case
  proof (cases "pvesc_Content item \<noteq> ''backup'' \<or> pvesc_VMID item \<le> 0")
    case True
    then show ?thesis using "2.IH"(1) [OF True ok "2.prems"(2)] by (simp add: fresh_on_skip(1) cong: if_cong)
  next
    case backup: False
    show ?thesis
    proof (cases "pvesc_VolID item \<noteq> [] \<and> pvesc_VolID item \<in> set seen")
      case True
      then show ?thesis using "2.IH"(2) [OF backup True ok "2.prems"(2)] backup by (simp add: fresh_on_skip(2) cong: if_cong)
    next
      case False
      let ?seen = "if pvesc_VolID item \<noteq> [] then pvesc_VolID item # seen else seen"
      have step: "fresh_on seen (item # items) v = fresh_on ?seen items v + (if v = pvesc_VMID item then 1 else 0)" for v
        using backup False fresh_on_named [OF "2.prems"(1)] fresh_on_unnamed [of item seen items] by auto
      have "count_items kind (item # items) seen byVM = count_items kind items ?seen (add_copy kind (pvesc_VMID item) byVM)"
        using backup False by auto
      moreover have "(\<lambda>v. (if kind = ''pbs'' then p(pvesc_VMID item := Suc (p (pvesc_VMID item))) else p) v +
            (if kind = ''pbs'' then fresh_on ?seen items v else 0)) =
          (\<lambda>v. p v + (if kind = ''pbs'' then fresh_on seen (item # items) v else 0))"
        "(\<lambda>v. (if kind = ''pbs'' then z else z(pvesc_VMID item := Suc (z (pvesc_VMID item)))) v +
            (if kind = ''pbs'' then 0 else fresh_on ?seen items v)) =
          (\<lambda>v. z v + (if kind = ''pbs'' then 0 else fresh_on seen (item # items) v))"
        by (simp_all add: fun_eq_iff step)
      ultimately show ?thesis using "2.IH"(3) [OF backup False ok counted_add [OF "2.prems"(2)]] by simp
    qed
  qed
qed

lemma fresh_on_start: "fresh_on [] items v = copies_on v items"
  by (simp add: fresh_on_def copies_on_def)

lemma storages_counted:
  assumes "\<forall>s\<in>set storages. volumes_ok (contents (pvest_ID s))" "counted t p z"
  shows "counted (foldl (\<lambda>byVM s. count_items (pvest_Type s) (contents (pvest_ID s)) [] byVM) t storages)
    (\<lambda>v. p v + copies_of True storages contents v) (\<lambda>v. z v + copies_of False storages contents v)"
  using assms
proof (induction storages arbitrary: t p z)
  case Nil
  then show ?case by (simp add: copies_of_def)
next
  case (Cons s storages)
  have "counted (count_items (pvest_Type s) (contents (pvest_ID s)) [] t)
      (\<lambda>v. p v + (if pvest_Type s = ''pbs'' then copies_on v (contents (pvest_ID s)) else 0))
      (\<lambda>v. z v + (if pvest_Type s = ''pbs'' then 0 else copies_on v (contents (pvest_ID s))))"
    using count_items_counted [OF _ Cons.prems(2), of "contents (pvest_ID s)" "pvest_Type s" "[]"] Cons.prems(1) by (simp add: fresh_on_start cong: if_cong)
  from Cons.IH [OF _ this] Cons.prems(1)
  have "counted (foldl (\<lambda>byVM s. count_items (pvest_Type s) (contents (pvest_ID s)) [] byVM) t (s # storages))
      (\<lambda>v. p v + (if pvest_Type s = ''pbs'' then copies_on v (contents (pvest_ID s)) else 0) + copies_of True storages contents v)
      (\<lambda>v. z v + (if pvest_Type s = ''pbs'' then 0 else copies_on v (contents (pvest_ID s))) + copies_of False storages contents v)" by simp
  moreover have "(\<lambda>v. p v + (if pvest_Type s = ''pbs'' then copies_on v (contents (pvest_ID s)) else 0) + copies_of True storages contents v) =
      (\<lambda>v. p v + copies_of True (s # storages) contents v)"
    "(\<lambda>v. z v + (if pvest_Type s = ''pbs'' then 0 else copies_on v (contents (pvest_ID s))) + copies_of False storages contents v) =
      (\<lambda>v. z v + copies_of False (s # storages) contents v)" by (simp_all add: fun_eq_iff copies_of_def)
  ultimately show ?case by simp
qed

lemma copies_on_pos: "0 < copies_on v items \<longleftrightarrow> (\<exists>i\<in>set items. pvesc_Content i = ''backup'' \<and> 0 < pvesc_VMID i \<and> pvesc_VMID i = v)"
proof -
  have "copies_on v items = 0 \<longleftrightarrow> backups_of v items = []"
    by (cases "backups_of v items") (auto simp: copies_on_def card_eq_0_iff filter_empty_conv)
  then show ?thesis by (auto simp: backups_of_def filter_empty_conv)
qed

lemma copies_of_pos: "0 < copies_of True storages contents v + copies_of False storages contents v \<longleftrightarrow>
    (\<exists>s\<in>set storages. \<exists>i\<in>set (contents (pvest_ID s)). pvesc_Content i = ''backup'' \<and> 0 < pvesc_VMID i \<and> pvesc_VMID i = v)"
proof -
  have "0 < copies_of pbs storages contents v \<longleftrightarrow> (\<exists>s\<in>set storages. (pvest_Type s = ''pbs'') = pbs \<and> 0 < copies_on v (contents (pvest_ID s)))" for pbs
    by (induction storages) (auto simp: copies_of_def)
  then show ?thesis unfolding copies_on_pos by (auto simp: copies_on_pos)
qed

text \<open>C28: the two nested loops that count the retained copies compute the reference: one row for every machine with a backup on any
  storage, in ascending order, with the number of its distinct volumes on PBS storages and on the other ones, and their sum,
  provided that on one storage no volume is listed for two machines.\<close>

theorem CountPVEVMCopies_reference:
  assumes "\<forall>s\<in>set storages. volumes_ok (contents (pvest_ID s))"
  shows "CountPVEVMCopies storages contents = reference_copies storages contents"
proof -
  define t where "t = foldl (\<lambda>byVM s. count_items (pvest_Type s) (contents (pvest_ID s)) [] byVM) [] storages"
  define p where "p = copies_of True storages contents"
  define z where "z = copies_of False storages contents"
  define K where "K = pvesc_VMID ` (\<Union>s\<in>set storages. {i \<in> set (contents (pvest_ID s)). pvesc_Content i = ''backup'' \<and> 0 < pvesc_VMID i})"
  have "counted [] (\<lambda>_. 0) (\<lambda>_. 0)" by (simp add: counted_def)
  from storages_counted [OF assms this] have c: "counted t p z" by (simp add: t_def p_def z_def)
  then have ok: "tbl_ok t" by (simp add: counted_def)
  have row: "(v, r) \<in> set t \<longleftrightarrow> v \<in> K \<and> r = copies_row v (p v) (z v)" for v r
  proof -
    have "v \<in> K \<longleftrightarrow> 0 < p v + z v" unfolding p_def z_def copies_of_pos K_def by auto
    then show ?thesis using c unfolding tbl_get_in [OF ok] by (auto simp: counted_def)
  qed
  have fin: "finite K" by (simp add: K_def)
  have id [simp]: "vc_VMID (copies_row v a b) = v" for v a b by (simp add: copies_row_def)
  have keys: "map vc_VMID (map snd t) = map fst t" using row by (auto intro!: map_cong)
  let ?l = "sort_key vc_VMID (map snd t)" and ?r = "map (\<lambda>v. copies_row v (p v) (z v)) (sorted_list_of_set K)"
  have ids: "map vc_VMID ?r = sorted_list_of_set K" by (simp add: comp_def)
  have "?l = ?r"
  proof (rule map_sorted_distinct_set_unique [where f = vc_VMID])
    show s: "set ?l = set ?r" using row fin by (force simp: image_iff)
    show "inj_on vc_VMID (set ?l \<union> set ?r)" unfolding s by (auto intro!: inj_onI)
    show "distinct (map vc_VMID ?l)"
      using ok keys unfolding tbl_ok_def by (metis distinct_map distinct_sort set_sort)
  qed (use fin ids in simp_all)
  then show ?thesis by (simp add: CountPVEVMCopies_def reference_copies_def t_def p_def z_def K_def)
qed

definition sample_storage :: "int \<Rightarrow> string \<Rightarrow> pve_storage" where
  "sample_storage i kind = \<lparr>pvest_ID = i, pvest_ReportID = 1, pvest_Storage = ''s'', pvest_Path = [], pvest_Content = [], pvest_Type = kind,
     pvest_Status = [], pvest_Shared = False, pvest_Server = [], pvest_Digest = [], pvest_PruneBackups = []\<rparr>"

definition sample_content :: "int \<Rightarrow> string \<Rightarrow> string \<Rightarrow> pve_storage_content" where
  "sample_content v kind vol = \<lparr>pvesc_ID = 1, pvesc_StorageID = 1, pvesc_VMID = v, pvesc_Format = [], pvesc_Size = 1, pvesc_Content = kind,
     pvesc_VolID = vol, pvesc_CTime = 0, pvesc_Subtype = [], pvesc_Notes = [], pvesc_Verification = []\<rparr>"

definition sample_contents :: "int \<Rightarrow> pve_storage_content list" where
  "sample_contents i = (if i = 1 then [sample_content 101 ''backup'' ''a'', sample_content 100 ''backup'' ''b'', sample_content 101 ''backup'' ''a'']
     else [sample_content 101 ''backup'' [], sample_content 101 ''iso'' ''c''])"

theorem CountPVEVMCopies_reference_witness:
  "CountPVEVMCopies [sample_storage 1 ''pbs'', sample_storage 2 ''dir''] sample_contents = [copies_row 100 1 0, copies_row 101 1 1] \<and>
   reference_copies [sample_storage 1 ''pbs'', sample_storage 2 ''dir''] sample_contents = [copies_row 100 1 0, copies_row 101 1 1]"
proof -
  have "\<forall>s\<in>set [sample_storage 1 ''pbs'', sample_storage 2 ''dir'']. volumes_ok (sample_contents (pvest_ID s))"
    by (simp add: sample_storage_def sample_contents_def sample_content_def volumes_ok_def)
  from CountPVEVMCopies_reference [OF this]
  have "CountPVEVMCopies [sample_storage 1 ''pbs'', sample_storage 2 ''dir''] sample_contents =
      reference_copies [sample_storage 1 ''pbs'', sample_storage 2 ''dir''] sample_contents" .
  moreover have "CountPVEVMCopies [sample_storage 1 ''pbs'', sample_storage 2 ''dir''] sample_contents = [copies_row 100 1 0, copies_row 101 1 1]"
    by code_simp
  ultimately show ?thesis by simp
qed

end
