(* ===== verification/Self_Update.thy ===== *)
theory Self_Update
  imports Go_Text Netutil
begin

text \<open>
  The self-update of server and clients, \<open>internal/selfupdate\<close>: the comparison of versions, the download
  of a release with its checksum, the check of its build attestation and the replacement of the executable. HTTP,
  JSON, SHA-256 and the verification of Sigstore bundles are parameters, collected in \<open>update_lib\<close>; every file operation
  may fail. Shown here: the executable is replaced by nothing but the attested binary of a newer release.
\<close>

section \<open>Versions\<close>

text \<open>The digits of a part; the accumulator wraps around like an \<open>int\<close>.\<close>

fun part_value :: "int \<Rightarrow> string \<Rightarrow> int option" where
  "part_value n [] = Some n"
| "part_value n (ch # rest) = (if is_digit ch then part_value (wrap64 (wrap64 (n * 10) + (int (of_char ch) - 48))) rest else None)"

fun parts_values :: "string list \<Rightarrow> int list option" where
  "parts_values [] = Some []"
| "parts_values (part # raw) =
     (if part = [] then None
      else case part_value 0 part of
        None \<Rightarrow> None
      | Some n \<Rightarrow> map_option ((#) n) (parts_values raw))"

definition trim_v :: "string \<Rightarrow> string" where
  "trim_v s = (if has_prefix s ''v'' then tl s else s)"

definition versionParts :: "string \<Rightarrow> int list option" where
  "versionParts v =
     (let v1 = takeWhile (\<lambda>c. c \<noteq> CHR ''-'' \<and> c \<noteq> CHR ''+'') (trim_v (trim_space v))
      in if v1 = [] then None else parts_values (split_on CHR ''.'' v1))"

text \<open>The loop up to the longer length; a missing part is 0.\<close>

fun compare_parts :: "int list \<Rightarrow> int list \<Rightarrow> int" where
  "compare_parts [] [] = 0"
| "compare_parts (r # rs) [] = (if r > 0 then 1 else if r < 0 then -1 else compare_parts rs [])"
| "compare_parts [] (c # cs) = (if 0 > c then 1 else if 0 < c then -1 else compare_parts [] cs)"
| "compare_parts (r # rs) (c # cs) = (if r > c then 1 else if r < c then -1 else compare_parts rs cs)"

definition compareVersions :: "string \<Rightarrow> string \<Rightarrow> int \<times> bool" where
  "compareVersions remote current =
     (case versionParts remote of
        None \<Rightarrow> (0, False)
      | Some r \<Rightarrow> (case versionParts current of
          None \<Rightarrow> (0, False)
        | Some c \<Rightarrow> (compare_parts r c, True)))"

definition IsNewer :: "string \<Rightarrow> string \<Rightarrow> bool \<times> bool" where
  "IsNewer remote current = (case compareVersions remote current of (cmp, ok) \<Rightarrow> (cmp > 0, ok))"

section \<open>Requests\<close>

record http_request =
  rq_URL :: string
  rq_Bearer :: "string option"
  rq_Accept :: string

text \<open>A response delivers its body and then ends or breaks off. The declared length is -1 when unknown.\<close>

record http_response =
  rs_Status :: int
  rs_Length :: int
  rs_Body :: string
  rs_Broken :: bool

record asset =
  as_ID :: int
  as_Name :: string
  as_URL :: string

record github_release =
  gr_TagName :: string
  gr_Assets :: "asset list"

record identity =
  id_Issuer :: string
  id_SANRegex :: string
  id_Repository :: string
  id_Commit :: string
  id_Runner :: string

datatype trust = GitHubRoot | PublicGood

text \<open>\<open>up_identity\<close> says whether the expression of the identity compiles. A bundle is read from JSON with its content; its
  certificate, if it has one, names organizations. A verifier is made for one of two authorities, which needs the network.
  Verifying yields nothing on an error, or the type of the predicate if there is a statement.\<close>

record ('b, 'v) update_lib =
  up_token :: string
  up_base :: string
  up_GOOS :: string
  up_GOARCH :: string
  up_url_ok :: "string \<Rightarrow> bool"
  up_send :: "http_request \<Rightarrow> string + http_response"
  up_release :: "string \<Rightarrow> github_release option"
  up_commit :: "string \<Rightarrow> string option"
  up_attestations :: "string \<Rightarrow> string list option"
  up_path_escape :: "string \<Rightarrow> string"
  up_sha256 :: "string \<Rightarrow> string"
  up_identity :: "string \<Rightarrow> bool"
  up_bundle :: "string \<Rightarrow> 'b option"
  up_organizations :: "'b \<Rightarrow> string list option"
  up_verifier :: "nat \<Rightarrow> trust \<Rightarrow> 'v option"
  up_verify :: "'v \<Rightarrow> 'b \<Rightarrow> string \<Rightarrow> identity \<Rightarrow> string option option"

datatype update_error = Transport string | BadStatus int | TooBig | Unreadable | NoAsset string | FileError string
  | NoChecksums | Mismatch | NotListed | BadCommit | BadIdentity | BadDigest | NotAttested

definition maxReleaseMetadataBytes :: int where "maxReleaseMetadataBytes = 2 * 2 ^ 20"
definition maxReleaseBinaryBytes :: int where "maxReleaseBinaryBytes = 256 * 2 ^ 20"
definition maxChecksumBytes :: int where "maxChecksumBytes = 2 ^ 20"

definition githubToken :: "('b, 'v) update_lib \<Rightarrow> string" where
  "githubToken l = trim_space (up_token l)"

text \<open>\<open>strings.TrimRight(s, "/")\<close>\<close>

definition trim_slashes :: "string \<Rightarrow> string" where
  "trim_slashes s = rev (dropWhile (\<lambda>c. c = CHR ''/'') (rev s))"

definition githubAPIURL :: "('b, 'v) update_lib \<Rightarrow> string \<Rightarrow> string" where
  "githubAPIURL l path = trim_slashes (up_base l) @ path"

definition newGitHubRequest :: "('b, 'v) update_lib \<Rightarrow> string \<Rightarrow> bool \<Rightarrow> update_error + http_request" where
  "newGitHubRequest l url withAuth =
     (if \<not> up_url_ok l url then Inl (Transport url)
      else Inr \<lparr>rq_URL = url, rq_Bearer = (if withAuth \<and> githubToken l \<noteq> [] then Some (githubToken l) else None), rq_Accept = []\<rparr>)"

definition newReleaseAssetRequest :: "('b, 'v) update_lib \<Rightarrow> string \<Rightarrow> int \<Rightarrow> string \<Rightarrow> bool \<Rightarrow> update_error + http_request" where
  "newReleaseAssetRequest l repo assetID browserURL withAuth =
     (if githubToken l \<noteq> [] \<and> withAuth \<and> assetID \<noteq> 0 then
        (case newGitHubRequest l (trim_slashes (up_base l) @ ''/repos/'' @ repo @ ''/releases/assets/'' @ show_int assetID) True of
           Inl e \<Rightarrow> Inl e
         | Inr req \<Rightarrow> Inr (req\<lparr>rq_Accept := ''application/octet-stream''\<rparr>))
      else if \<not> up_url_ok l browserURL then Inl (Transport browserURL)
      else Inr \<lparr>rq_URL = browserURL, rq_Bearer = None, rq_Accept = []\<rparr>)"

definition shouldRetryGitHubAnonymous :: "int \<Rightarrow> bool" where
  "shouldRetryGitHubAnonymous status \<longleftrightarrow> status = 401 \<or> status = 403"

definition doBuiltRequest :: "('b, 'v) update_lib \<Rightarrow> (bool \<Rightarrow> update_error + http_request) \<Rightarrow> bool \<Rightarrow> update_error + http_response" where
  "doBuiltRequest l build withAuth =
     (case build withAuth of
        Inl e \<Rightarrow> Inl e
      | Inr req \<Rightarrow> (case up_send l req of Inl e \<Rightarrow> Inl (Transport e) | Inr resp \<Rightarrow> Inr resp))"

definition doWithGitHubAuthFallback :: "('b, 'v) update_lib \<Rightarrow> (bool \<Rightarrow> update_error + http_request) \<Rightarrow> update_error + http_response" where
  "doWithGitHubAuthFallback l build =
     (case doBuiltRequest l build True of
        Inl e \<Rightarrow> Inl e
      | Inr resp \<Rightarrow>
          if githubToken l = [] \<or> \<not> shouldRetryGitHubAnonymous (rs_Status resp) then Inr resp
          else doBuiltRequest l build False)"

text \<open>A reader limited to one byte more than allowed meets a break only before its limit.\<close>

definition readAllWithLimit :: "http_response \<Rightarrow> int \<Rightarrow> update_error + string" where
  "readAllWithLimit resp limit =
     (if int (length (rs_Body resp)) > limit then Inl TooBig
      else if rs_Broken resp then Inl Unreadable
      else Inr (rs_Body resp))"

definition decodeJSONWithLimit :: "(string \<Rightarrow> 'a option) \<Rightarrow> http_response \<Rightarrow> int \<Rightarrow> update_error + 'a" where
  "decodeJSONWithLimit decode resp limit =
     (case readAllWithLimit resp limit of
        Inl e \<Rightarrow> Inl e
      | Inr body \<Rightarrow> (case decode body of None \<Rightarrow> Inl Unreadable | Some x \<Rightarrow> Inr x))"

section \<open>The latest release\<close>

definition fetchLatestRelease :: "('b, 'v) update_lib \<Rightarrow> string \<Rightarrow> update_error + github_release" where
  "fetchLatestRelease l repo =
     (case doWithGitHubAuthFallback l (newGitHubRequest l (githubAPIURL l (''/repos/'' @ repo @ ''/releases/latest''))) of
        Inl e \<Rightarrow> Inl e
      | Inr resp \<Rightarrow>
          if rs_Status resp \<noteq> 200 then Inl (BadStatus (rs_Status resp))
          else decodeJSONWithLimit (up_release l) resp maxReleaseMetadataBytes)"

definition LatestTag :: "('b, 'v) update_lib \<Rightarrow> string \<Rightarrow> update_error + string" where
  "LatestTag l repo = map_sum id gr_TagName (fetchLatestRelease l repo)"

definition releaseAssetName :: "('b, 'v) update_lib \<Rightarrow> string \<Rightarrow> string" where
  "releaseAssetName l binaryName =
     (let name = binaryName @ ''_'' @ up_GOOS l @ ''_'' @ up_GOARCH l
      in if up_GOOS l = ''windows'' then name @ ''.exe'' else name)"

text \<open>The last asset of a name counts; the binary has precedence over the sums.\<close>

record found_release =
  fr_Tag :: string
  fr_Binary :: "int \<times> string"
  fr_Sums :: "int \<times> string"

definition pick_asset :: "string \<Rightarrow> found_release \<Rightarrow> asset \<Rightarrow> found_release" where
  "pick_asset assetName r x =
     (if as_Name x = assetName then r\<lparr>fr_Binary := (as_ID x, as_URL x)\<rparr>
      else if as_Name x = ''SHA256SUMS'' then r\<lparr>fr_Sums := (as_ID x, as_URL x)\<rparr>
      else r)"

definition latestRelease :: "('b, 'v) update_lib \<Rightarrow> string \<Rightarrow> string \<Rightarrow> update_error + found_release" where
  "latestRelease l repo binaryName =
     (case fetchLatestRelease l repo of
        Inl e \<Rightarrow> Inl e
      | Inr rel \<Rightarrow>
          let assetName = releaseAssetName l binaryName;
              r = foldl (pick_asset assetName) \<lparr>fr_Tag = gr_TagName rel, fr_Binary = (0, []), fr_Sums = (0, [])\<rparr> (gr_Assets rel)
          in if snd (fr_Binary r) = [] then Inl (NoAsset assetName) else Inr r)"

section \<open>Checksum and attestation\<close>

text \<open>The first line with the name of the asset decides.\<close>

fun find_sum :: "string list \<Rightarrow> string \<Rightarrow> string option" where
  "find_sum [] assetName = None"
| "find_sum (line # rest) assetName =
     (case strings_Fields line of
        [x, name] \<Rightarrow> if name = assetName then Some x else find_sum rest assetName
      | _ \<Rightarrow> find_sum rest assetName)"

definition verifyChecksum :: "('b, 'v) update_lib \<Rightarrow> string \<Rightarrow> int \<times> string \<Rightarrow> string \<Rightarrow> string \<Rightarrow> update_error option" where
  "verifyChecksum l repo sums binaryName actualHash =
     (case doWithGitHubAuthFallback l (newReleaseAssetRequest l repo (fst sums) (snd sums)) of
        Inl e \<Rightarrow> Some e
      | Inr resp \<Rightarrow>
          if rs_Status resp \<noteq> 200 then Some (BadStatus (rs_Status resp))
          else case readAllWithLimit resp maxChecksumBytes of
            Inl e \<Rightarrow> Some e
          | Inr body \<Rightarrow>
              (case find_sum (split_on CHR 0x0A body) (releaseAssetName l binaryName) of
                 None \<Rightarrow> Some NotListed
               | Some x \<Rightarrow> if x \<noteq> actualHash then Some Mismatch else None))"

definition lower_hex_char :: "char \<Rightarrow> bool" where
  "lower_hex_char c \<longleftrightarrow> is_digit c \<or> (CHR ''a'' \<le> c \<and> c \<le> CHR ''f'')"

definition commit_ok :: "string \<Rightarrow> bool" where
  "commit_ok s \<longleftrightarrow> 40 \<le> length s \<and> length s \<le> 64 \<and> list_all lower_hex_char s"

definition hex_value :: "char \<Rightarrow> nat option" where
  "hex_value c =
     (if is_digit c then Some (of_char c - 48)
      else if CHR ''a'' \<le> c \<and> c \<le> CHR ''f'' then Some (of_char c - 87)
      else if CHR ''A'' \<le> c \<and> c \<le> CHR ''F'' then Some (of_char c - 55)
      else None)"

text \<open>\<open>hex.DecodeString\<close>\<close>

fun hex_decode :: "string \<Rightarrow> string option" where
  "hex_decode [] = Some []"
| "hex_decode [c] = None"
| "hex_decode (c # d # s) =
     (case (hex_value c, hex_value d, hex_decode s) of
        (Some a, Some b, Some t) \<Rightarrow> Some (char_of (16 * a + b) # t)
      | _ \<Rightarrow> None)"

text \<open>\<open>regexp.QuoteMeta\<close>\<close>

definition QuoteMeta :: "string \<Rightarrow> string" where
  "QuoteMeta s = concat (map (\<lambda>c. if c \<in> set ([CHR 0x5C] @ ''.+*?()|[]{}^$'') then [CHR 0x5C, c] else [c]) s)"

definition releaseIdentity :: "('b, 'v) update_lib \<Rightarrow> string \<Rightarrow> string \<Rightarrow> string \<Rightarrow> identity option" where
  "releaseIdentity l repo tag commit =
     (let san = ''^https://github'' @ [CHR 0x5C] @ ''.com/'' @ QuoteMeta repo @ ''/'' @ [CHR 0x5C] @ ''.github/workflows/release'' @ [CHR 0x5C] @
            ''.yml@refs/(heads/master|tags/'' @ QuoteMeta tag @ '')$''
      in if \<not> up_identity l san then None
         else Some \<lparr>id_Issuer = ''https://token.actions.githubusercontent.com'', id_SANRegex = san,
           id_Repository = ''https://github.com/'' @ repo, id_Commit = commit, id_Runner = ''github-hosted''\<rparr>)"

definition attestationVerifier :: "('b, 'v) update_lib \<Rightarrow> nat \<Rightarrow> string \<Rightarrow> 'v option" where
  "attestationVerifier l n issuer =
     (if issuer = ''GitHub, Inc.'' then up_verifier l n GitHubRoot
      else if issuer = ''sigstore.dev'' then up_verifier l n PublicGood
      else None)"

text \<open>\<open>fetchAttestationJSON\<close>\<close>

definition fetchAttestationJSON :: "('b, 'v) update_lib \<Rightarrow> (string \<Rightarrow> 'a option) \<Rightarrow> string \<Rightarrow> update_error + 'a" where
  "fetchAttestationJSON l decode path =
     (case doWithGitHubAuthFallback l (\<lambda>auth. map_sum id (\<lambda>req. req\<lparr>rq_Accept := ''application/vnd.github+json''\<rparr>)
             (newGitHubRequest l (githubAPIURL l path) auth)) of
        Inl e \<Rightarrow> Inl e
      | Inr resp \<Rightarrow>
          if rs_Status resp \<noteq> 200 then Inl (BadStatus (rs_Status resp))
          else decodeJSONWithLimit decode resp maxReleaseMetadataBytes)"

text \<open>The loop over at most ten attestations, with the verifiers made so far.\<close>

fun attested :: "('b, 'v) update_lib \<Rightarrow> string \<Rightarrow> identity \<Rightarrow> nat \<Rightarrow> (string, 'v) table \<Rightarrow> string list \<Rightarrow> bool" where
  "attested l digest ident n verifiers [] = False"
| "attested l digest ident n verifiers (att # atts) =
     (if 10 \<le> n then False
      else case up_bundle l att of
        None \<Rightarrow> attested l digest ident (Suc n) verifiers atts
      | Some b \<Rightarrow>
          (case up_organizations l b of
             Some [issuer] \<Rightarrow>
               (case (case tbl_get verifiers issuer of Some v \<Rightarrow> Some v | None \<Rightarrow> attestationVerifier l n issuer) of
                  None \<Rightarrow> attested l digest ident (Suc n) verifiers atts
                | Some v \<Rightarrow>
                    if up_verify l v b digest ident = Some (Some ''https://slsa.dev/provenance/v1'') then True
                    else attested l digest ident (Suc n) (tbl_put issuer v verifiers) atts)
           | _ \<Rightarrow> attested l digest ident (Suc n) verifiers atts))"

definition verifyReleaseAttestation :: "('b, 'v) update_lib \<Rightarrow> string \<Rightarrow> string \<Rightarrow> string \<Rightarrow> update_error option" where
  "verifyReleaseAttestation l repo tag digest =
     (case fetchAttestationJSON l (up_commit l) (''/repos/'' @ repo @ ''/commits/'' @ up_path_escape l tag) of
        Inl e \<Rightarrow> Some e
      | Inr commit \<Rightarrow>
          if \<not> commit_ok commit then Some BadCommit
          else case fetchAttestationJSON l (up_attestations l) (''/repos/'' @ repo @ ''/attestations/sha256:'' @ digest @ ''?per_page=10'') of
            Inl e \<Rightarrow> Some e
          | Inr atts \<Rightarrow>
              (case releaseIdentity l repo tag commit of
                 None \<Rightarrow> Some BadIdentity
               | Some ident \<Rightarrow>
                   (case hex_decode digest of
                      None \<Rightarrow> Some BadDigest
                    | Some d \<Rightarrow> if length d \<noteq> 32 then Some BadDigest
                        else if attested l d ident 0 [] atts then None else Some NotAttested)))"

section \<open>The replacement\<close>

text \<open>The directory of the executable: its bytes, the downloaded file and the script that moves it on Windows.\<close>

record update_dir =
  ud_exe :: string
  ud_tmp :: "string option"
  ud_script :: "string option"

text \<open>Which file operations fail.\<close>

record file_faults =
  ff_locate :: bool
  ff_create :: bool
  ff_chmod :: bool
  ff_write :: bool
  ff_close :: bool
  ff_rename :: bool
  ff_script :: bool
  ff_start :: bool

definition new_line :: string where "new_line = [CHR 0x0A]"

definition quoted :: "string \<Rightarrow> string" where "quoted s = [CHR 0x22] @ s @ [CHR 0x22]"

definition windowsReplacementScript :: "string \<Rightarrow> string \<Rightarrow> string" where
  "windowsReplacementScript executable tmpPath =
     ''@echo off'' @ new_line @ ''for /L %%i in (1,1,60) do ('' @ new_line @
     ''  move /Y '' @ quoted tmpPath @ '' '' @ quoted executable @ '' > nul 2>&1'' @ new_line @
     ''  if not exist '' @ quoted tmpPath @ '' goto replaced'' @ new_line @
     ''  ping 127.0.0.1 -n 3 > nul'' @ new_line @ '')'' @ new_line @ ''exit /b 1'' @ new_line @ '':replaced'' @ new_line @
     ''del '' @ quoted ''%~f0'' @ '' > nul 2>&1'' @ new_line"

definition replaceWindowsExecutable :: "file_faults \<Rightarrow> string \<Rightarrow> string \<Rightarrow> update_dir \<Rightarrow> update_error option \<times> update_dir" where
  "replaceWindowsExecutable ff executable tmpPath d =
     (if ff_script ff then (Some (FileError ''create replacement script''), d\<lparr>ud_tmp := None\<rparr>)
      else let d1 = d\<lparr>ud_script := Some (windowsReplacementScript executable tmpPath)\<rparr>
        in if ff_start ff then (Some (FileError ''start replacement script''), d1\<lparr>ud_tmp := None, ud_script := None\<rparr>)
           else (None, d1))"

text \<open>\<open>executable\<close> and \<open>tmpPath\<close> are the paths of the two files.\<close>

definition replace ::
  "('b, 'v) update_lib \<Rightarrow> file_faults \<Rightarrow> string \<Rightarrow> string \<Rightarrow> string \<Rightarrow> found_release \<Rightarrow> string \<Rightarrow> update_dir \<Rightarrow> update_error option \<times> update_dir" where
  "replace l ff executable tmpPath repo rel binaryName d =
     (if ff_locate ff then (Some (FileError ''locate executable''), d)
      else case doWithGitHubAuthFallback l (newReleaseAssetRequest l repo (fst (fr_Binary rel)) (snd (fr_Binary rel))) of
        Inl e \<Rightarrow> (Some e, d)
      | Inr resp \<Rightarrow>
          if rs_Status resp \<noteq> 200 then (Some (BadStatus (rs_Status resp)), d)
          else if rs_Length resp > maxReleaseBinaryBytes then (Some TooBig, d)
          else if ff_create ff then (Some (FileError ''create temp file''), d)
          else if ff_chmod ff then (Some (FileError ''chmod''), d)
          else if ff_write ff then (Some (FileError ''write''), d)
          else case readAllWithLimit resp maxReleaseBinaryBytes of
            Inl e \<Rightarrow> (Some e, d)
          | Inr body \<Rightarrow>
              if ff_close ff then (Some (FileError ''close downloaded binary''), d)
              else let actualHash = up_sha256 l body
                in if snd (fr_Sums rel) = [] \<or> fst (fr_Sums rel) = 0 then (Some NoChecksums, d)
                   else case verifyChecksum l repo (fr_Sums rel) binaryName actualHash of
                     Some e \<Rightarrow> (Some e, d)
                   | None \<Rightarrow>
                       (case verifyReleaseAttestation l repo (fr_Tag rel) actualHash of
                          Some e \<Rightarrow> (Some e, d)
                        | None \<Rightarrow>
                            if up_GOOS l = ''windows'' then replaceWindowsExecutable ff executable tmpPath (d\<lparr>ud_tmp := Some body\<rparr>)
                            else if ff_rename ff then (Some (FileError ''replace binary''), d)
                            else (None, d\<lparr>ud_exe := body\<rparr>)))"

definition Run ::
  "('b, 'v) update_lib \<Rightarrow> file_faults \<Rightarrow> string \<Rightarrow> string \<Rightarrow> string \<Rightarrow> string \<Rightarrow> string \<Rightarrow> update_dir \<Rightarrow> (bool \<times> update_error option) \<times> update_dir" where
  "Run l ff executable tmpPath repo binaryName currentVersion d =
     (if currentVersion = ''dev'' then ((False, None), d)
      else case latestRelease l repo binaryName of
        Inl e \<Rightarrow> ((False, Some e), d)
      | Inr rel \<Rightarrow>
          (case compareVersions (fr_Tag rel) currentVersion of
             (_, False) \<Rightarrow> ((False, None), d)
           | (cmp, True) \<Rightarrow>
               if cmp \<le> 0 then ((False, None), d)
               else if fr_Tag rel = currentVersion \<or> trim_v (fr_Tag rel) = trim_v currentVersion then ((False, None), d)
               else case replace l ff executable tmpPath repo rel binaryName d of
                 (Some e, d') \<Rightarrow> ((False, Some e), d')
               | (None, d') \<Rightarrow> ((True, None), d')))"

section \<open>Versions are ordered\<close>

lemma compare_parts_antisym: "compare_parts rs cs = - compare_parts cs rs"
  by (induction rs cs rule: compare_parts.induct) auto

lemma compare_parts_refl [simp]: "compare_parts rs rs = 0"
  by (induction rs) auto

lemma IsNewer_asym: "fst (IsNewer a b) \<Longrightarrow> \<not> fst (IsNewer b a) \<and> snd (IsNewer b a)"
proof -
  assume "fst (IsNewer a b)"
  then obtain r c where "versionParts a = Some r" "versionParts b = Some c" "0 < compare_parts r c"
    by (auto simp: IsNewer_def compareVersions_def split: option.splits)
  then show ?thesis using compare_parts_antisym [of c r] by (simp add: IsNewer_def compareVersions_def)
qed

section \<open>Only genuine releases are installed\<close>

definition trusted :: "('b, 'v) update_lib \<Rightarrow> 'v \<Rightarrow> bool" where
  "trusted l v \<longleftrightarrow> (\<exists>n t. up_verifier l n t = Some v)"

text \<open>An attestation one of the two authorities vouches for says that the release workflow of the repository built a file
  with this hash from the commit.\<close>

definition built_by :: "('b, 'v) update_lib \<Rightarrow> string \<Rightarrow> string \<Rightarrow> string \<Rightarrow> string \<Rightarrow> bool" where
  "built_by l repo tag commit body \<longleftrightarrow>
     (\<exists>ident dg v b. releaseIdentity l repo tag commit = Some ident \<and> hex_decode (up_sha256 l body) = Some dg \<and> length dg = 32 \<and>
        trusted l v \<and> up_verify l v b dg ident = Some (Some ''https://slsa.dev/provenance/v1''))"

text \<open>The sums of the release, fetched from the address it gives or from the interface of GitHub, name the hash for this program.\<close>

definition listed :: "('b, 'v) update_lib \<Rightarrow> string \<Rightarrow> string \<Rightarrow> found_release \<Rightarrow> string \<Rightarrow> bool" where
  "listed l repo binaryName rel body \<longleftrightarrow>
     (\<exists>req resp sums. up_send l req = Inr resp \<and>
        rq_URL req \<in> {snd (fr_Sums rel), trim_slashes (up_base l) @ ''/repos/'' @ repo @ ''/releases/assets/'' @ show_int (fst (fr_Sums rel))} \<and>
        readAllWithLimit resp maxChecksumBytes = Inr sums \<and>
        find_sum (split_on CHR 0x0A sums) (releaseAssetName l binaryName) = Some (up_sha256 l body))"

definition genuine :: "('b, 'v) update_lib \<Rightarrow> string \<Rightarrow> string \<Rightarrow> string \<Rightarrow> string \<Rightarrow> bool" where
  "genuine l repo binaryName currentVersion body \<longleftrightarrow>
     (\<exists>rel commit. latestRelease l repo binaryName = Inr rel \<and> fst (IsNewer (fr_Tag rel) currentVersion) \<and>
        int (length body) \<le> maxReleaseBinaryBytes \<and> listed l repo binaryName rel body \<and> commit_ok commit \<and> built_by l repo (fr_Tag rel) commit body)"

lemma attested_sound:
  assumes "attested l dg ident n verifiers atts" "\<And>issuer v. tbl_get verifiers issuer = Some v \<Longrightarrow> trusted l v"
  shows "\<exists>v b. trusted l v \<and> up_verify l v b dg ident = Some (Some ''https://slsa.dev/provenance/v1'')"
  using assms
proof (induction atts arbitrary: n verifiers)
  case (Cons att atts)
  let ?goal = "\<exists>v b. trusted l v \<and> up_verify l v b dg ident = Some (Some ''https://slsa.dev/provenance/v1'')"
  have made: "attestationVerifier l n issuer = Some v \<Longrightarrow> trusted l v" for issuer v
    by (auto simp: attestationVerifier_def trusted_def split: if_splits)
  have skip: ?goal if "attested l dg ident (Suc n) verifiers atts" by (rule Cons.IH [OF that Cons.prems(2)])
  show ?case
  proof (cases "up_bundle l att")
    case (Some b)
    show ?thesis
    proof (cases "\<exists>issuer. up_organizations l b = Some [issuer]")
      case True
      then obtain issuer where o: "up_organizations l b = Some [issuer]" by blast
      show ?thesis
      proof (cases "case tbl_get verifiers issuer of Some v \<Rightarrow> Some v | None \<Rightarrow> attestationVerifier l n issuer")
        case None
        then show ?thesis using Cons.prems(1) Some o skip by (auto split: if_splits)
      next
        case (Some v)
        have v: "trusted l v" using Some made Cons.prems(2) by (auto split: option.splits)
        show ?thesis
        proof (cases "up_verify l v b dg ident = Some (Some ''https://slsa.dev/provenance/v1'')")
          case False
          then have "attested l dg ident (Suc n) (tbl_put issuer v verifiers) atts"
            using Cons.prems(1) \<open>up_bundle l att = Some b\<close> o Some by (auto split: if_splits)
          then show ?thesis by (rule Cons.IH) (auto simp: tbl_simps v Cons.prems(2) split: if_splits)
        qed (use v in blast)
      qed
    next
      case False
      then have "attested l dg ident (Suc n) verifiers atts"
        using Cons.prems(1) Some by (auto split: if_splits option.splits list.splits)
      then show ?thesis by (rule skip)
    qed
  qed (use Cons.prems(1) skip in \<open>auto split: if_splits\<close>)
qed simp

lemma checksum_listed:
  assumes "verifyChecksum l repo sums binaryName h = None"
  shows "\<exists>req resp body. up_send l req = Inr resp \<and>
    rq_URL req \<in> {snd sums, trim_slashes (up_base l) @ ''/repos/'' @ repo @ ''/releases/assets/'' @ show_int (fst sums)} \<and>
    readAllWithLimit resp maxChecksumBytes = Inr body \<and> find_sum (split_on CHR 0x0A body) (releaseAssetName l binaryName) = Some h"
proof -
  let ?url = "trim_slashes (up_base l) @ ''/repos/'' @ repo @ ''/releases/assets/'' @ show_int (fst sums)"
  obtain resp where r: "doWithGitHubAuthFallback l (newReleaseAssetRequest l repo (fst sums) (snd sums)) = Inr resp"
    using assms by (auto simp: verifyChecksum_def split: sum.splits)
  have built: "rq_URL req \<in> {snd sums, ?url}" if "newReleaseAssetRequest l repo (fst sums) (snd sums) auth = Inr req" for auth req
    using that by (auto simp: newReleaseAssetRequest_def newGitHubRequest_def split: if_splits sum.splits)
  have sent: "\<exists>req. up_send l req = Inr x \<and> rq_URL req \<in> {snd sums, ?url}"
    if "doBuiltRequest l (newReleaseAssetRequest l repo (fst sums) (snd sums)) auth = Inr x" for auth x
    using that built by (fastforce simp: doBuiltRequest_def split: sum.splits)
  have "\<exists>req. up_send l req = Inr resp \<and> rq_URL req \<in> {snd sums, ?url}"
    using r sent by (auto simp: doWithGitHubAuthFallback_def split: sum.splits if_splits)
  moreover have "\<exists>body. readAllWithLimit resp maxChecksumBytes = Inr body \<and> find_sum (split_on CHR 0x0A body) (releaseAssetName l binaryName) = Some h"
    using assms r by (auto simp: verifyChecksum_def split: sum.splits option.splits if_splits)
  ultimately show ?thesis by blast
qed

lemma attestation_built:
  assumes "verifyReleaseAttestation l repo tag (up_sha256 l body) = None"
  shows "\<exists>commit. commit_ok commit \<and> built_by l repo tag commit body"
proof -
  obtain commit ident dg atts where "commit_ok commit" "releaseIdentity l repo tag commit = Some ident"
    "hex_decode (up_sha256 l body) = Some dg" "length dg = 32" "attested l dg ident 0 [] atts"
    using assms by (auto simp: verifyReleaseAttestation_def split: sum.splits option.splits if_splits)
  moreover from this(5) obtain v b where "trusted l v" "up_verify l v b dg ident = Some (Some ''https://slsa.dev/provenance/v1'')"
    using attested_sound by fastforce
  ultimately show ?thesis unfolding built_by_def by blast
qed

lemma readAll_bound: "readAllWithLimit resp n = Inr body \<Longrightarrow> int (length body) \<le> n"
  by (auto simp: readAllWithLimit_def split: if_splits)

lemma replace_cases:
  assumes "replace l ff executable tmpPath repo rel binaryName d = (err, d')" "ud_tmp d = None" "ud_script d = None"
  shows "(err \<noteq> None \<and> d' = d) \<or>
    (\<exists>body. err = None \<and> int (length body) \<le> maxReleaseBinaryBytes \<and> verifyChecksum l repo (fr_Sums rel) binaryName (up_sha256 l body) = None \<and>
       verifyReleaseAttestation l repo (fr_Tag rel) (up_sha256 l body) = None \<and>
       (if up_GOOS l = ''windows'' then d' = d\<lparr>ud_tmp := Some body, ud_script := Some (windowsReplacementScript executable tmpPath)\<rparr>
        else d' = d\<lparr>ud_exe := body\<rparr>))"
proof -
  have same: "d\<lparr>ud_tmp := None\<rparr> = d" "d\<lparr>ud_script := None\<rparr> = d" "d\<lparr>ud_tmp := None, ud_script := None\<rparr> = d" "d\<lparr>ud_script := None, ud_tmp := None\<rparr> = d"
    using assms(2,3) by (cases d; simp)+
  show ?thesis using assms(1)
    by (auto simp: replace_def Let_def replaceWindowsExecutable_def same split: if_splits sum.splits option.splits)
      (rule exI, rule conjI, erule readAll_bound, simp)+
qed

text \<open>C2: an update installs nothing but a genuine newer release. Whatever servers answer and whichever file operation fails, the
  executable is left as it was, with no file beside it, or what replaces it (on Windows: what lies ready for the script) is
  a file of the release of a strictly newer version whose hash the published sums name for this program and platform, and
  which a trusted attestation says was built by the release workflow of the repository from the commit of the tag.\<close>

theorem update_genuine:
  assumes "Run l ff executable tmpPath repo binaryName currentVersion d = ((updated, err), d')" "ud_tmp d = None" "ud_script d = None"
  shows "(\<not> updated \<and> d' = d) \<or>
    (updated \<and> err = None \<and> (\<exists>body. genuine l repo binaryName currentVersion body \<and>
       (if up_GOOS l = ''windows'' then d' = d\<lparr>ud_tmp := Some body, ud_script := Some (windowsReplacementScript executable tmpPath)\<rparr>
        else d' = d\<lparr>ud_exe := body\<rparr>)))"
proof (cases "\<exists>rel cmp. latestRelease l repo binaryName = Inr rel \<and> compareVersions (fr_Tag rel) currentVersion = (cmp, True) \<and> 0 < cmp \<and> currentVersion \<noteq> ''dev'' \<and>
    \<not> (fr_Tag rel = currentVersion \<or> trim_v (fr_Tag rel) = trim_v currentVersion)")
  case False
  then have "\<not> updated \<and> d' = d"
    using assms(1) by (fastforce simp: Run_def split: if_splits sum.splits prod.splits bool.splits)
  then show ?thesis by blast
next
  case True
  then obtain rel cmp where rel: "latestRelease l repo binaryName = Inr rel" "compareVersions (fr_Tag rel) currentVersion = (cmp, True)" "0 < cmp"
    "currentVersion \<noteq> ''dev''" "\<not> (fr_Tag rel = currentVersion \<or> trim_v (fr_Tag rel) = trim_v currentVersion)" by blast
  have newer: "fst (IsNewer (fr_Tag rel) currentVersion)" using rel(2,3) by (simp add: IsNewer_def)
  obtain e d1 where run: "replace l ff executable tmpPath repo rel binaryName d = (e, d1)" by fastforce
  have out: "updated = (e = None)" "d' = d1" "e = None \<Longrightarrow> err = None"
    using assms(1) rel run by (auto simp: Run_def split: option.splits)
  have "genuine l repo binaryName currentVersion body"
    if ok: "int (length body) \<le> maxReleaseBinaryBytes" "verifyChecksum l repo (fr_Sums rel) binaryName (up_sha256 l body) = None"
      "verifyReleaseAttestation l repo (fr_Tag rel) (up_sha256 l body) = None" for body
  proof -
    have "listed l repo binaryName rel body" using checksum_listed [OF ok(2)] unfolding listed_def by blast
    then show ?thesis using attestation_built [OF ok(3)] rel(1) newer ok(1) unfolding genuine_def by blast
  qed
  then show ?thesis using replace_cases [OF run assms(2,3)] out by blast
qed

text \<open>A release with its sums and one attestation; the hash is always the same.\<close>

definition sample_hash :: string where "sample_hash = replicate 64 CHR ''a''"

definition sample_send :: "http_request \<Rightarrow> string + http_response" where
  "sample_send req = Inr \<lparr>rs_Status = 200, rs_Length = -1,
     rs_Body = (if rq_URL req = ''b'' then ''new'' else if rq_URL req = ''s'' then sample_hash @ ''  probakgo_linux_amd64'' else []), rs_Broken = False\<rparr>"

definition sample_update_lib :: "(string, unit) update_lib" where
  "sample_update_lib =
     \<lparr>up_token = [], up_base = ''https://api.github.com'', up_GOOS = ''linux'', up_GOARCH = ''amd64'', up_url_ok = (\<lambda>_. True),
      up_send = sample_send,
      up_release = (\<lambda>_. Some \<lparr>gr_TagName = ''v1.2.10'', gr_Assets = [\<lparr>as_ID = 1, as_Name = ''probakgo_linux_amd64'', as_URL = ''b''\<rparr>,
        \<lparr>as_ID = 2, as_Name = ''SHA256SUMS'', as_URL = ''s''\<rparr>]\<rparr>),
      up_commit = (\<lambda>_. Some (replicate 40 CHR ''c'')), up_attestations = (\<lambda>_. Some [''x'']), up_path_escape = (\<lambda>s. s),
      up_sha256 = (\<lambda>_. sample_hash), up_identity = (\<lambda>_. True), up_bundle = Some, up_organizations = (\<lambda>_. Some [''sigstore.dev'']),
      up_verifier = (\<lambda>_ _. Some ()), up_verify = (\<lambda>_ _ _ _. Some (Some ''https://slsa.dev/provenance/v1''))\<rparr>"

definition no_faults :: file_faults where
  "no_faults = \<lparr>ff_locate = False, ff_create = False, ff_chmod = False, ff_write = False, ff_close = False, ff_rename = False,
     ff_script = False, ff_start = False\<rparr>"

definition old_dir :: update_dir where "old_dir = \<lparr>ud_exe = ''old'', ud_tmp = None, ud_script = None\<rparr>"

definition sample_update :: "string \<Rightarrow> (bool \<times> update_error option) \<times> update_dir" where
  "sample_update current = Run sample_update_lib no_faults ''/opt/probakgo'' ''/opt/x.new'' ''o/r'' ''probakgo'' current old_dir"

theorem update_genuine_witness:
  "ud_exe (snd (sample_update ''v1.2.9'')) = ''new'' \<and> genuine sample_update_lib ''o/r'' ''probakgo'' ''v1.2.9'' ''new'' \<and>
   snd (sample_update ''v1.3'') = old_dir"
proof -
  have old: "ud_tmp old_dir = None" "ud_script old_dir = None" by (simp_all add: old_dir_def)
  have "fst (sample_update ''v1.2.9'') = (True, None)" "ud_exe (snd (sample_update ''v1.2.9'')) = ''new''" by code_simp+
  moreover have "\<not> fst (fst (sample_update ''v1.3''))" by code_simp
  moreover have split: "Run sample_update_lib no_faults ''/opt/probakgo'' ''/opt/x.new'' ''o/r'' ''probakgo'' v old_dir =
      ((fst (fst (sample_update v)), snd (fst (sample_update v))), snd (sample_update v))" for v by (simp add: sample_update_def)
  ultimately show ?thesis
    using update_genuine [OF split old, of "''v1.2.9''"] update_genuine [OF split old, of "''v1.3''"]
    by (auto simp: sample_update_lib_def old_dir_def)
qed

end
