(* ===== verification/Spec2Isabelle.thy ===== *)
theory Spec2Isabelle
  imports Notifications Rate_Limit Banhammer Alert_Pipeline Login_Security Api_Reports Nas_Remote Retention Task_Group User_Admin_Safety Pve_Copies Self_Update
begin

text \<open>
  Verification of probakgo, a monitoring server for Proxmox backups written in Go. Clients on
  PVE, PBS and Windows hosts post reports and heartbeats; the server stores them, evaluates alert
  conditions, keeps the life cycle of each alert and notifies by email, Web Push and Telegram.
\<close>

end
